(* ===== verification/Nova_Prelude.thy ===== *)
theory Nova_Prelude
  imports Main "HOL-Library.Code_Target_Numeral"
begin

text \<open>
  Shared vocabulary of the development: results with an error side, characters and the
  Python string operations the sources use (\<open>strip\<close>, \<open>lower\<close>, \<open>split\<close>, \<open>isdigit\<close>), numbers
  printed in a base with zero padding (\<open>str(n)\<close>, \<open>{n:03d}\<close>, \<open>{h:04x}\<close>), and the fragment of
  Python's \<open>re\<close> the sources use (sequences of character classes with bounds), matched the four
  ways the code does: \<open>fullmatch\<close>, \<open>match\<close> against \<open>^...$\<close>, \<open>match\<close> of a prefix and \<open>search\<close>.

  Strings are HOL strings. The operations classify ASCII characters as Python does; a
  character of 128 or more is never a digit, a letter or white space here.
\<close>

named_theorems bindr_simps \<open>unfolding of result binding\<close>
named_theorems rx_defs \<open>regular expressions of the sources\<close>

section \<open>Results\<close>

definition bindr :: "'e + 'a \<Rightarrow> ('a \<Rightarrow> 'e + 'b) \<Rightarrow> 'e + 'b" where
  "bindr m f = (case m of Inl e \<Rightarrow> Inl e | Inr x \<Rightarrow> f x)"

lemma bindr_Inl [simp]: "bindr (Inl e) f = Inl e"
  by (simp add: bindr_def)

lemma bindr_Inr [simp]: "bindr (Inr x) f = f x"
  by (simp add: bindr_def)

lemma bindr_eq_Inr [bindr_simps]: "bindr m f = Inr y \<longleftrightarrow> (\<exists>x. m = Inr x \<and> f x = Inr y)"
  by (cases m) simp_all

lemma bindr_eq_Inl [bindr_simps]:
  "bindr m f = Inl e \<longleftrightarrow> m = Inl e \<or> (\<exists>x. m = Inr x \<and> f x = Inl e)"
  by (cases m) simp_all

definition ensure :: "bool \<Rightarrow> 'e \<Rightarrow> 'e + unit" where
  "ensure b e = (if b then Inr () else Inl e)"

lemma ensure_simps [simp]:
  "ensure True e = Inr ()" "ensure False e = Inl e"
  "ensure b e = Inr u \<longleftrightarrow> b" "ensure b e = Inl e' \<longleftrightarrow> \<not> b \<and> e' = e"
  by (auto simp: ensure_def)

fun mapr :: "('a \<Rightarrow> 'e + 'b) \<Rightarrow> 'a list \<Rightarrow> 'e + 'b list" where
  \<comment> \<open>\<open>[f(x) for x in xs]\<close>, stopping at the first error\<close>
  "mapr f [] = Inr []"
| "mapr f (x # xs) = bindr (f x) (\<lambda>y. bindr (mapr f xs) (\<lambda>ys. Inr (y # ys)))"

fun forr :: "('a \<Rightarrow> 's \<Rightarrow> 'e + 's) \<Rightarrow> 'a list \<Rightarrow> 's \<Rightarrow> 'e + 's" where
  \<comment> \<open>\<open>for x in xs: s = f(x, s)\<close>, stopping at the first error\<close>
  "forr f [] s = Inr s"
| "forr f (x # xs) s = bindr (f x s) (forr f xs)"

lemma mapr_Inr: "mapr f xs = Inr ys \<longleftrightarrow> list_all2 (\<lambda>x y. f x = Inr y) xs ys"
  by (induction xs arbitrary: ys) (auto simp: bindr_simps list_all2_Cons1)

lemma forr_inv:
  "forr f xs s = Inr s' \<Longrightarrow> I s \<Longrightarrow>
     (\<And>x t t'. x \<in> set xs \<Longrightarrow> I t \<Longrightarrow> f x t = Inr t' \<Longrightarrow> I t') \<Longrightarrow> I s'"
proof (induction xs arbitrary: s)
  case (Cons x xs)
  then show ?case by (auto simp: bindr_simps)
qed simp

lemma forr_append: "forr f (xs @ ys) s = bindr (forr f xs s) (forr f ys)"
proof (induction xs arbitrary: s)
  case (Cons x xs)
  then show ?case by (cases "f x s") simp_all
qed simp

lemma forr_pure: "(\<And>x t. x \<in> set xs \<Longrightarrow> f x t = Inr (g x t)) \<Longrightarrow> forr f xs s = Inr (fold g xs s)"
  by (induction xs arbitrary: s) simp_all

section \<open>Characters\<close>

abbreviation ord :: "char \<Rightarrow> nat" where
  "ord c \<equiv> of_char c"

definition between :: "char \<Rightarrow> char \<Rightarrow> char \<Rightarrow> bool" where
  "between lo hi c \<longleftrightarrow> ord lo \<le> ord c \<and> ord c \<le> ord hi"

definition is_digit :: "char \<Rightarrow> bool" where
  "is_digit c \<longleftrightarrow> between (CHR ''0'') (CHR ''9'') c"

definition is_hex :: "char \<Rightarrow> bool" where
  \<comment> \<open>the class \<open>[a-f0-9]\<close>\<close>
  "is_hex c \<longleftrightarrow> between (CHR ''a'') (CHR ''f'') c \<or> is_digit c"

definition is_alpha :: "char \<Rightarrow> bool" where
  "is_alpha c \<longleftrightarrow> between (CHR ''a'') (CHR ''z'') c \<or> between (CHR ''A'') (CHR ''Z'') c"

definition is_space :: "char \<Rightarrow> bool" where
  "is_space c \<longleftrightarrow> (9 \<le> ord c \<and> ord c \<le> 13) \<or> (28 \<le> ord c \<and> ord c \<le> 32)"

abbreviation newline :: char where
  "newline \<equiv> CHR 0x0A"

lemma is_digit_imp_hex: "is_digit c \<Longrightarrow> is_hex c"
  by (simp add: is_hex_def)

lemma digit_not_newline: "is_digit c \<Longrightarrow> c \<noteq> newline"
  by (auto simp: is_digit_def between_def)

lemma hex_not_newline: "is_hex c \<Longrightarrow> c \<noteq> newline"
  by (auto simp: is_hex_def is_digit_def between_def)

definition to_lower :: "char \<Rightarrow> char" where
  "to_lower c = (if between (CHR ''A'') (CHR ''Z'') c then char_of (ord c + 32) else c)"

definition lower :: "string \<Rightarrow> string" where
  "lower s = map to_lower s"

lemma to_lower_not_upper: "\<not> between (CHR ''A'') (CHR ''Z'') (to_lower c)"
  by (auto simp: to_lower_def between_def)

lemma to_lower_idem [simp]: "to_lower (to_lower c) = to_lower c"
  using to_lower_not_upper [of c] by (subst to_lower_def) simp

lemma lower_idem [simp]: "lower (lower s) = lower s"
  by (simp add: lower_def)

lemma is_space_to_lower [simp]: "is_space (to_lower c) \<longleftrightarrow> is_space c"
  by (auto simp: to_lower_def is_space_def between_def)

section \<open>Python string operations\<close>

definition lstrip :: "string \<Rightarrow> string" where
  "lstrip s = dropWhile is_space s"

definition rstrip :: "string \<Rightarrow> string" where
  "rstrip s = rev (dropWhile is_space (rev s))"

definition strip :: "string \<Rightarrow> string" where
  "strip s = rstrip (lstrip s)"

definition strip_char :: "char \<Rightarrow> string \<Rightarrow> string" where
  \<comment> \<open>\<open>s.strip("/")\<close>\<close>
  "strip_char d s = rev (dropWhile (\<lambda>c. c = d) (rev (dropWhile (\<lambda>c. c = d) s)))"

definition ends_with :: "string \<Rightarrow> string \<Rightarrow> bool" where
  "ends_with p s \<longleftrightarrow> (\<exists>t. s = t @ p)"

lemma ends_with_code [code]: "ends_with p s \<longleftrightarrow> drop (length s - length p) s = p"
  unfolding ends_with_def by (metis append_take_drop_id append_eq_conv_conj length_append add_diff_cancel_right')

lemma ends_with_append [simp]: "ends_with p (t @ p)"
  by (simp add: ends_with_def)

definition isdigit :: "string \<Rightarrow> bool" where
  "isdigit s \<longleftrightarrow> s \<noteq> [] \<and> list_all is_digit s"

definition starts_with :: "string \<Rightarrow> string \<Rightarrow> bool" where
  "starts_with p s \<longleftrightarrow> take (length p) s = p"

fun contains :: "string \<Rightarrow> string \<Rightarrow> bool" where
  "contains p [] = (p = [])"
| "contains p (c # s) = (starts_with p (c # s) \<or> contains p s)"

fun split_on :: "char \<Rightarrow> string \<Rightarrow> string list" where
  "split_on d [] = [[]]"
| "split_on d (c # s) =
     (if c = d then [] # split_on d s
      else (case split_on d s of [] \<Rightarrow> [[c]] | w # ws \<Rightarrow> (c # w) # ws))"

fun join_on :: "char \<Rightarrow> string list \<Rightarrow> string" where
  "join_on d [] = []"
| "join_on d [w] = w"
| "join_on d (w # v # ws) = w @ d # join_on d (v # ws)"

definition words :: "string \<Rightarrow> string list" where
  \<comment> \<open>\<open>s.split()\<close>\<close>
  "words s = filter (\<lambda>w. w \<noteq> [])
     (split_on (CHR '' '') (map (\<lambda>c. if is_space c then CHR '' '' else c) s))"

definition is_linebreak :: "char \<Rightarrow> bool" where
  "is_linebreak c \<longleftrightarrow> (10 \<le> ord c \<and> ord c \<le> 13) \<or> (28 \<le> ord c \<and> ord c \<le> 30)"

fun lines_acc :: "string \<Rightarrow> string \<Rightarrow> string list" where
  "lines_acc acc [] = (if acc = [] then [] else [rev acc])"
| "lines_acc acc [c] = (if is_linebreak c then [rev acc] else [rev (c # acc)])"
| "lines_acc acc (c # d # s) =
     (if c = CHR 0x0D \<and> d = CHR 0x0A then rev acc # lines_acc [] s
      else if is_linebreak c then rev acc # lines_acc [] (d # s)
      else lines_acc (c # acc) (d # s))"

definition splitlines :: "string \<Rightarrow> string list" where
  "splitlines s = lines_acc [] s"

lemma starts_with_append [simp]: "starts_with p (p @ s)"
  by (simp add: starts_with_def)

lemma starts_with_iff: "starts_with p s \<longleftrightarrow> (\<exists>t. s = p @ t)"
  unfolding starts_with_def by (metis append_eq_conv_conj append_take_drop_id)

lemma split_on_nonempty [simp]: "split_on d s \<noteq> []"
  by (induction s) (auto split: list.splits)

lemma split_on_no_sep: "w \<in> set (split_on d s) \<Longrightarrow> d \<notin> set w"
proof (induction s arbitrary: w)
  case Nil
  then show ?case by simp
next
  case (Cons c s)
  then show ?case by (cases "split_on d s") (auto split: if_splits)
qed

lemma join_split [simp]: "join_on d (split_on d s) = s"
proof (induction s)
  case Nil
  then show ?case by simp
next
  case (Cons c s)
  then show ?case
    by (cases "split_on d s"; cases "tl (split_on d s)") auto
qed

lemma split_no_sep: "d \<notin> set w \<Longrightarrow> split_on d w = [w]"
  by (induction w) auto

lemma split_append_sep: "d \<notin> set w \<Longrightarrow> split_on d (w @ d # s) = w # split_on d s"
  by (induction w) auto

lemma split_join: "ws \<noteq> [] \<Longrightarrow> (\<forall>w\<in>set ws. d \<notin> set w) \<Longrightarrow> split_on d (join_on d ws) = ws"
  by (induction d ws rule: join_on.induct) (auto simp: split_no_sep split_append_sep)

lemma dropWhile_idle: "(xs \<noteq> [] \<Longrightarrow> \<not> P (hd xs)) \<Longrightarrow> dropWhile P xs = xs"
  by (cases xs) auto

lemma rstrip_hd: "s \<noteq> [] \<Longrightarrow> \<not> is_space (hd s) \<Longrightarrow> rstrip s \<noteq> [] \<and> hd (rstrip s) = hd s"
proof -
  assume s: "s \<noteq> []" "\<not> is_space (hd s)"
  then obtain c t where c: "s = c # t" "\<not> is_space c" by (cases s) auto
  have "dropWhile is_space (rev t @ [c]) = dropWhile is_space (rev t) @ [c]"
    using c(2) by (induction "rev t" arbitrary: t) (simp_all add: dropWhile_append)
  then show ?thesis using c by (simp add: rstrip_def)
qed

lemma rstrip_idem: "rstrip (rstrip s) = rstrip s"
  unfolding rstrip_def by (simp add: dropWhile_idle hd_dropWhile)

lemma strip_idem [simp]: "strip (strip s) = strip s"
proof (cases "lstrip s = []")
  case True
  then have e: "strip s = []" by (simp add: strip_def rstrip_def)
  show ?thesis unfolding e by (simp add: strip_def rstrip_def lstrip_def)
next
  case False
  then have "\<not> is_space (hd (lstrip s))" by (simp add: lstrip_def hd_dropWhile)
  with False have h: "rstrip (lstrip s) \<noteq> []" "\<not> is_space (hd (rstrip (lstrip s)))"
    using rstrip_hd [of "lstrip s"] by simp_all
  then have "lstrip (rstrip (lstrip s)) = rstrip (lstrip s)"
    by (subst lstrip_def) (simp add: dropWhile_idle)
  then show ?thesis by (simp add: strip_def rstrip_idem)
qed

lemma lower_append [simp]: "lower (s @ t) = lower s @ lower t"
  by (simp add: lower_def)

lemma dropWhile_map_to_lower:
  "dropWhile is_space (map to_lower s) = map to_lower (dropWhile is_space s)"
  by (induction s) auto

lemma strip_lower: "strip (lower s) = lower (strip s)"
  by (simp add: strip_def rstrip_def lstrip_def lower_def dropWhile_map_to_lower
      rev_map)

lemma isdigit_hd: "isdigit s \<Longrightarrow> s \<noteq> [] \<and> is_digit (hd s)"
  by (cases s) (auto simp: isdigit_def)

section \<open>Numbers in a base\<close>

definition dchar :: "nat \<Rightarrow> char" where
  "dchar n = char_of (if n < 10 then 48 + n else 87 + n)"

definition dval :: "char \<Rightarrow> nat" where
  "dval c = (if is_digit c then ord c - 48
     else if between (CHR ''a'') (CHR ''z'') c then ord c - 87
     else ord c - 55)"

fun base_str :: "nat \<Rightarrow> nat \<Rightarrow> string" where
  "base_str b n =
     (if b < 2 \<or> n < b then [dchar n] else base_str b (n div b) @ [dchar (n mod b)])"

declare base_str.simps [simp del]

definition base_val :: "nat \<Rightarrow> string \<Rightarrow> nat" where
  "base_val b s = foldl (\<lambda>a c. a * b + dval c) 0 s"

abbreviation dec :: "nat \<Rightarrow> string" where
  \<comment> \<open>\<open>str(n)\<close>\<close>
  "dec n \<equiv> base_str 10 n"

abbreviation undec :: "string \<Rightarrow> nat" where
  \<comment> \<open>\<open>int(s)\<close> on a string of digits\<close>
  "undec s \<equiv> base_val 10 s"

definition dec_int :: "int \<Rightarrow> string" where
  "dec_int i = (if i < 0 then CHR ''-'' # dec (nat (- i)) else dec (nat i))"

definition zpad :: "nat \<Rightarrow> string \<Rightarrow> string" where
  "zpad k s = replicate (k - length s) (CHR ''0'') @ s"

lemma ord_dchar: "n < 16 \<Longrightarrow> ord (dchar n) = (if n < 10 then 48 + n else 87 + n)"
  by (simp add: dchar_def)

lemma dval_dchar [simp]: "n < 16 \<Longrightarrow> dval (dchar n) = n"
  by (simp add: dval_def is_digit_def between_def ord_dchar)

lemma is_hex_dchar: "n < 16 \<Longrightarrow> is_hex (dchar n)"
  by (simp add: is_hex_def is_digit_def between_def ord_dchar)

lemma is_digit_dchar: "n < 10 \<Longrightarrow> is_digit (dchar n)"
  by (simp add: is_digit_def between_def ord_dchar)

lemma base_str_nonempty [simp]: "base_str b n \<noteq> []"
  by (subst base_str.simps) simp

lemma base_val_snoc [simp]: "base_val b (s @ [c]) = base_val b s * b + dval c"
  by (simp add: base_val_def)

lemma base_val_single [simp]: "base_val b [c] = dval c"
  by (simp add: base_val_def)

lemma base_val_str: "2 \<le> b \<Longrightarrow> b \<le> 16 \<Longrightarrow> base_val b (base_str b n) = n"
proof (induction b n rule: base_str.induct)
  case (1 b n)
  show ?case
  proof (cases "n < b")
    case True
    with 1 show ?thesis by (subst base_str.simps) simp
  next
    case False
    have "n mod b < 16" using 1 mod_less_divisor [of b n] by linarith
    with False 1 show ?thesis by (subst base_str.simps) simp
  qed
qed

lemma undec_dec [simp]: "undec (dec n) = n"
  by (simp add: base_val_str)

lemma dec_inj [simp]: "dec m = dec n \<longleftrightarrow> m = n"
  by (metis undec_dec)

lemma base_str_class:
  "2 \<le> b \<Longrightarrow> b \<le> 16 \<Longrightarrow> (\<And>k. k < b \<Longrightarrow> P (dchar k)) \<Longrightarrow> list_all P (base_str b n)"
proof (induction b n rule: base_str.induct)
  case (1 b n)
  show ?case
  proof (cases "n < b")
    case True
    with 1 show ?thesis by (subst base_str.simps) simp
  next
    case False
    with 1 show ?thesis by (subst base_str.simps) simp
  qed
qed

lemma dec_digits [simp]: "list_all is_digit (dec n)"
  by (rule base_str_class) (auto intro: is_digit_dchar)

lemma isdigit_dec [simp]: "isdigit (dec n)"
  by (simp add: isdigit_def)

lemma hex_digits [simp]: "list_all is_hex (base_str 16 n)"
  by (rule base_str_class) (auto intro: is_hex_dchar)

lemma length_base_str:
  "2 \<le> b \<Longrightarrow> 0 < k \<Longrightarrow> length (base_str b n) \<le> k \<longleftrightarrow> n < b ^ k"
proof (induction b n arbitrary: k rule: base_str.induct)
  case (1 b n)
  show ?case
  proof (cases "n < b")
    case True
    moreover have "b \<le> b ^ k" using 1 by (simp add: self_le_power)
    ultimately show ?thesis using 1 by (subst base_str.simps) simp
  next
    case False
    then have len: "length (base_str b n) = Suc (length (base_str b (n div b)))"
      using 1 by (subst base_str.simps) simp
    show ?thesis
    proof (cases "k = 1")
      case True
      with len False show ?thesis
        using base_str_nonempty [of b "n div b"] by (cases "base_str b (n div b)") auto
    next
      case k: False
      then obtain j where j: "k = Suc j" "0 < j" using 1 by (cases k) auto
      have "length (base_str b (n div b)) \<le> j \<longleftrightarrow> n div b < b ^ j"
        using 1 False j(2) by simp
      also have "\<dots> \<longleftrightarrow> n < b ^ k"
        using 1 j(1) by (simp add: div_less_iff_less_mult mult.commute)
      finally show ?thesis using len j(1) by simp
    qed
  qed
qed

lemma dec_length_le: "0 < k \<Longrightarrow> length (dec n) \<le> k \<longleftrightarrow> n < 10 ^ k"
  by (simp add: length_base_str)

lemma dec_length_pos [simp]: "0 < length (dec n)"
  by simp

lemma base_val_zeros [simp]: "base_val b (replicate k (CHR ''0'') @ s) = base_val b s"
proof -
  have "dval (CHR ''0'') = 0" by (simp add: dval_def is_digit_def between_def)
  then have "foldl (\<lambda>a c. a * b + dval c) 0 (replicate k (CHR ''0'')) = 0"
    by (induction k) simp_all
  then show ?thesis by (simp add: base_val_def)
qed

lemma base_val_zpad [simp]: "base_val b (zpad k s) = base_val b s"
  by (simp add: zpad_def)

lemma length_zpad [simp]: "length (zpad k s) = max k (length s)"
  by (simp add: zpad_def)

lemma zpad_class: "P (CHR ''0'') \<Longrightarrow> list_all P s \<Longrightarrow> list_all P (zpad k s)"
  by (auto simp: zpad_def list_all_iff)

lemma isdigit_zpad [simp]: "isdigit s \<Longrightarrow> isdigit (zpad k s)"
  by (auto simp: isdigit_def zpad_def list_all_iff is_digit_def between_def)

lemma dec_int_nonneg [simp]: "0 \<le> i \<Longrightarrow> dec_int i = dec (nat i)"
  by (simp add: dec_int_def)

lemma minus_notin_dec: "CHR ''-'' \<notin> set (dec n)"
  using dec_digits [of n] by (auto simp: list_all_iff is_digit_def between_def)

lemma dec_int_inj [simp]: "dec_int i = dec_int j \<longleftrightarrow> i = j"
proof -
  have "dec m \<noteq> CHR ''-'' # s" for m s using minus_notin_dec [of m] by auto
  moreover from this have "CHR ''-'' # s \<noteq> dec m" for m s by metis
  ultimately show ?thesis by (auto simp: dec_int_def)
qed

lemma dec_int_chars: "list_all (\<lambda>c. is_digit c \<or> c = CHR ''-'') (dec_int i)"
proof -
  have "list_all (\<lambda>c. is_digit c \<or> c = CHR ''-'') (dec n)" for n
    using dec_digits [of n] by (simp only: list_all_iff) blast
  then show ?thesis by (simp add: dec_int_def)
qed

lemma sep_append_eq:
  "c \<notin> set u \<Longrightarrow> c \<notin> set u' \<Longrightarrow> u @ c # v = u' @ c # v' \<longleftrightarrow> u = u' \<and> v = v'"
proof (induction u arbitrary: u')
  case Nil
  then show ?case by (cases u') auto
next
  case (Cons x u)
  then show ?case by (cases u') auto
qed

section \<open>The regular expressions of the sources\<close>

text \<open>
  A pattern is a sequence of character classes, each with the least and the greatest number of
  repetitions (\<open>None\<close>: no upper bound). \<open>rx_full\<close> is \<open>fullmatch\<close>, and \<open>match\<close> of a pattern
  between \<open>\A\<close> and \<open>\Z\<close>. \<open>rx_dollar\<close> is \<open>match\<close> of a pattern between \<open>^\<close> and \<open>$\<close>: in Python
  \<open>$\<close> also matches just before a final newline. \<open>rx_prefix\<close> is \<open>match\<close> with no end anchor and
  \<open>rx_search\<close> is \<open>search\<close>.
\<close>

datatype rx_atom = Rx (rx_class: "char \<Rightarrow> bool") (rx_min: nat) (rx_max: "nat option")

definition rx_lit :: "string \<Rightarrow> rx_atom list" where
  "rx_lit s = map (\<lambda>c. Rx ((=) c) 1 (Some 1)) s"

definition rx_counts :: "nat \<Rightarrow> nat option \<Rightarrow> string \<Rightarrow> nat list" where
  "rx_counts lo hi s =
     [lo ..< Suc (case hi of None \<Rightarrow> length s | Some h \<Rightarrow> min h (length s))]"

fun rx_full :: "rx_atom list \<Rightarrow> string \<Rightarrow> bool" where
  "rx_full [] s = (s = [])"
| "rx_full (Rx p lo hi # as) s =
     list_ex (\<lambda>k. list_all p (take k s) \<and> rx_full as (drop k s)) (rx_counts lo hi s)"

fun rx_prefix :: "rx_atom list \<Rightarrow> string \<Rightarrow> bool" where
  "rx_prefix [] s = True"
| "rx_prefix (Rx p lo hi # as) s =
     list_ex (\<lambda>k. list_all p (take k s) \<and> rx_prefix as (drop k s)) (rx_counts lo hi s)"

definition rx_dollar :: "rx_atom list \<Rightarrow> string \<Rightarrow> bool" where
  "rx_dollar as s \<longleftrightarrow>
     rx_full as s \<or> (s \<noteq> [] \<and> last s = newline \<and> rx_full as (butlast s))"

definition rx_search :: "rx_atom list \<Rightarrow> string \<Rightarrow> bool" where
  "rx_search as s \<longleftrightarrow> list_ex (\<lambda>k. rx_prefix as (drop k s)) [0 ..< Suc (length s)]"

lemma rx_full_Cons:
  "rx_full (Rx p lo hi # as) s \<longleftrightarrow>
     (\<exists>u v. s = u @ v \<and> lo \<le> length u \<and> (\<forall>h. hi = Some h \<longrightarrow> length u \<le> h) \<and>
        list_all p u \<and> rx_full as v)"
proof
  assume "rx_full (Rx p lo hi # as) s"
  then obtain k where k: "k \<in> set (rx_counts lo hi s)" "list_all p (take k s)"
      "rx_full as (drop k s)"
    by (auto simp: list_ex_iff)
  then have "s = take k s @ drop k s" "lo \<le> length (take k s)"
      "\<forall>h. hi = Some h \<longrightarrow> length (take k s) \<le> h"
    by (auto simp: rx_counts_def split: option.splits)
  with k(2,3) show "\<exists>u v. s = u @ v \<and> lo \<le> length u \<and>
      (\<forall>h. hi = Some h \<longrightarrow> length u \<le> h) \<and> list_all p u \<and> rx_full as v" by blast
next
  assume "\<exists>u v. s = u @ v \<and> lo \<le> length u \<and>
      (\<forall>h. hi = Some h \<longrightarrow> length u \<le> h) \<and> list_all p u \<and> rx_full as v"
  then obtain u v where u: "s = u @ v" "lo \<le> length u"
      "\<forall>h. hi = Some h \<longrightarrow> length u \<le> h" "list_all p u" "rx_full as v" by blast
  then have k: "length u \<in> set (rx_counts lo hi s)"
    by (auto simp: rx_counts_def split: option.splits)
  have "list_all p (take (length u) s) \<and> rx_full as (drop (length u) s)"
    using u by simp
  with k have "\<exists>k\<in>set (rx_counts lo hi s). list_all p (take k s) \<and> rx_full as (drop k s)" ..
  then show "rx_full (Rx p lo hi # as) s"
    by (simp add: list_ex_iff)
qed

declare rx_full.simps(2) [simp del]

lemma rx_full_one [simp]:
  "rx_full (Rx p (Suc 0) (Some (Suc 0)) # as) s \<longleftrightarrow> (\<exists>c t. s = c # t \<and> p c \<and> rx_full as t)"
proof
  assume "rx_full (Rx p (Suc 0) (Some (Suc 0)) # as) s"
  then obtain u v where u: "s = u @ v" "length u = Suc 0" "list_all p u" "rx_full as v"
    by (auto simp: rx_full_Cons)
  then obtain c where "u = [c]" by (auto simp: length_Suc_conv)
  with u show "\<exists>c t. s = c # t \<and> p c \<and> rx_full as t" by auto
next
  assume "\<exists>c t. s = c # t \<and> p c \<and> rx_full as t"
  then obtain c t where "s = [c] @ t" "p c" "rx_full as t" by auto
  then show "rx_full (Rx p (Suc 0) (Some (Suc 0)) # as) s"
    unfolding rx_full_Cons by (intro exI [of _ "[c]"] exI [of _ t]) simp
qed

lemma rx_full_lit [simp]: "rx_full (rx_lit p @ as) s \<longleftrightarrow> (\<exists>t. s = p @ t \<and> rx_full as t)"
  by (induction p arbitrary: s) (auto simp: rx_lit_def)

lemma rx_full_append:
  "rx_full (as @ bs) s \<longleftrightarrow> (\<exists>u v. s = u @ v \<and> rx_full as u \<and> rx_full bs v)"
proof (induction as arbitrary: s)
  case Nil
  then show ?case by simp
next
  case (Cons a as)
  obtain p lo hi where a: "a = Rx p lo hi" by (cases a)
  show ?case
  proof
    assume "rx_full ((a # as) @ bs) s"
    then obtain u v where 1: "s = u @ v" "lo \<le> length u"
        "\<forall>h. hi = Some h \<longrightarrow> length u \<le> h" "list_all p u" "rx_full (as @ bs) v"
      by (auto simp: a rx_full_Cons)
    from 1(5) obtain v1 v2 where "v = v1 @ v2" "rx_full as v1" "rx_full bs v2"
      using Cons.IH by blast
    with 1 have "s = (u @ v1) @ v2" "rx_full (a # as) (u @ v1)" "rx_full bs v2"
      by (auto simp: a rx_full_Cons)
    then show "\<exists>u v. s = u @ v \<and> rx_full (a # as) u \<and> rx_full bs v" by blast
  next
    assume "\<exists>u v. s = u @ v \<and> rx_full (a # as) u \<and> rx_full bs v"
    then obtain u1 u2 v where 1: "s = u1 @ u2 @ v" "lo \<le> length u1"
        "\<forall>h. hi = Some h \<longrightarrow> length u1 \<le> h" "list_all p u1" "rx_full as u2" "rx_full bs v"
      by (auto simp: a rx_full_Cons)
    then have "rx_full (as @ bs) (u2 @ v)" using Cons.IH by blast
    with 1 show "rx_full ((a # as) @ bs) s" by (auto simp: a rx_full_Cons)
  qed
qed

text \<open>A pattern none of whose classes holds a newline cannot match one; \<open>$\<close> adds one string per match.\<close>

lemma rx_full_no_newline:
  "rx_full as s \<Longrightarrow> (\<forall>a\<in>set as. \<not> rx_class a newline) \<Longrightarrow> newline \<notin> set s"
proof (induction as arbitrary: s)
  case Nil
  then show ?case by simp
next
  case (Cons a as)
  obtain p lo hi where a: "a = Rx p lo hi" by (cases a)
  then obtain u v where "s = u @ v" "list_all p u" "rx_full as v"
    using Cons.prems(1) by (auto simp: rx_full_Cons)
  with Cons a show ?case by (auto simp: list_all_iff)
qed

lemma rx_dollar_iff:
  "rx_dollar as s \<longleftrightarrow> rx_full as s \<or> (\<exists>t. s = t @ [newline] \<and> rx_full as t)"
  by (auto simp: rx_dollar_def) (metis append_butlast_last_id)

end
