(* ===== verification/Trace_Monad.thy ===== *)
theory Trace_Monad
  imports Nova_Prelude
begin

text \<open>
  Effectful code as computations over a trace. A computation takes the list of the actions
  performed so far and returns an error or a value together with the longer list; what the
  environment answers to an action is a function of the actions before it. State kept outside
  the program (files, kernel objects) is read back from the trace.

  \<open>emits P m\<close> says that \<open>m\<close> only appends actions that satisfy \<open>P\<close>, whatever happens.
\<close>

type_synonym ('c, 'e, 'a) traced = "'c list \<Rightarrow> ('e + 'a) \<times> 'c list"

definition ret :: "'a \<Rightarrow> ('c, 'e, 'a) traced" where
  "ret x tr = (Inr x, tr)"

definition raise :: "'e \<Rightarrow> ('c, 'e, 'a) traced" where
  "raise e tr = (Inl e, tr)"

definition lift :: "'e + 'a \<Rightarrow> ('c, 'e, 'a) traced" where
  "lift r tr = (r, tr)"

definition andthen :: "('c, 'e, 'a) traced \<Rightarrow> ('a \<Rightarrow> ('c, 'e, 'b) traced) \<Rightarrow> ('c, 'e, 'b) traced" where
  "andthen m f tr = (case m tr of (Inl e, tr') \<Rightarrow> (Inl e, tr') | (Inr x, tr') \<Rightarrow> f x tr')"

definition catch :: "('c, 'e, 'a) traced \<Rightarrow> ('e \<Rightarrow> ('c, 'e, 'a) traced) \<Rightarrow> ('c, 'e, 'a) traced" where
  \<comment> \<open>\<open>try: m except e: h(e)\<close>\<close>
  "catch m h tr = (case m tr of (Inl e, tr') \<Rightarrow> h e tr' | (Inr x, tr') \<Rightarrow> (Inr x, tr'))"

definition act :: "'c \<Rightarrow> ('c, 'e, unit) traced" where
  "act a tr = (Inr (), tr @ [a])"

definition ask :: "('c list \<Rightarrow> 'a) \<Rightarrow> ('c, 'e, 'a) traced" where
  "ask f tr = (Inr (f tr), tr)"

lemmas traced_defs = ret_def raise_def lift_def andthen_def catch_def act_def ask_def

lemma andthen_simps [simp]:
  "andthen (ret x) f = f x" "andthen (raise e) f = raise e"
  "andthen (lift (Inr x)) f = f x" "andthen (lift (Inl e)) f = raise e"
  by (simp_all add: fun_eq_iff traced_defs)

lemma andthen_assoc: "andthen (andthen m f) g = andthen m (\<lambda>x. andthen (f x) g)"
  by (auto simp: fun_eq_iff andthen_def split: prod.splits sum.splits)

lemma andthen_Inr:
  "andthen m f tr = (Inr y, tr') \<longleftrightarrow> (\<exists>x tr1. m tr = (Inr x, tr1) \<and> f x tr1 = (Inr y, tr'))"
  by (auto simp: andthen_def split: prod.splits sum.splits)

lemma andthen_Inl:
  "andthen m f tr = (Inl e, tr') \<longleftrightarrow>
     m tr = (Inl e, tr') \<or> (\<exists>x tr1. m tr = (Inr x, tr1) \<and> f x tr1 = (Inl e, tr'))"
  by (auto simp: andthen_def split: prod.splits sum.splits)

section \<open>Which actions a computation performs\<close>

named_theorems emits_rules \<open>which actions a computation performs\<close>

definition emits :: "('c \<Rightarrow> bool) \<Rightarrow> ('c, 'e, 'a) traced \<Rightarrow> bool" where
  "emits P m \<longleftrightarrow> (\<forall>tr. \<exists>new. snd (m tr) = tr @ new \<and> list_all P new)"

lemma emits_pure [emits_rules]:
  "emits P (ret x)" "emits P (raise e)" "emits P (lift r)" "emits P (ask f)"
  by (simp_all add: emits_def ret_def raise_def lift_def ask_def)

lemma emits_act [emits_rules]: "P a \<Longrightarrow> emits P (act a)"
  by (simp add: emits_def act_def)

lemma emits_andthen [emits_rules]:
  assumes m: "emits P m" and f: "\<And>x. emits P (f x)"
  shows "emits P (andthen m f)"
  unfolding emits_def
proof
  fix tr
  obtain new where new: "snd (m tr) = tr @ new" "list_all P new"
    using m unfolding emits_def by blast
  show "\<exists>new. snd (andthen m f tr) = tr @ new \<and> list_all P new"
  proof (cases "fst (m tr)")
    case (Inl e)
    then show ?thesis using new by (auto simp: andthen_def split: prod.splits)
  next
    case (Inr x)
    obtain new' where "snd (f x (tr @ new)) = (tr @ new) @ new'" "list_all P new'"
      using f [of x] unfolding emits_def by blast
    then show ?thesis using new Inr
      by (auto simp: andthen_def split: prod.splits intro!: exI [of _ "new @ new'"])
  qed
qed

lemma emits_lift_andthen [emits_rules]:
  "(\<And>x. r = Inr x \<Longrightarrow> emits P (f x)) \<Longrightarrow> emits P (andthen (lift r) f)"
  by (cases r) (auto simp: emits_def raise_def)

lemma emits_if [emits_rules]: "(b \<Longrightarrow> emits P m) \<Longrightarrow> (\<not> b \<Longrightarrow> emits P n) \<Longrightarrow> emits P (if b then m else n)"
  by simp

lemma emits_case_prod [emits_rules]:
  "(\<And>x y. p = (x, y) \<Longrightarrow> emits P (f x y)) \<Longrightarrow> emits P (case p of (x, y) \<Rightarrow> f x y)"
  by (cases p) simp

lemma emits_mono: "emits P m \<Longrightarrow> (\<And>a. P a \<Longrightarrow> Q a) \<Longrightarrow> emits Q m"
  unfolding emits_def by (metis list.pred_mono_strong)

lemma emits_trace: "emits P m \<Longrightarrow> list_all P (snd (m []))"
  unfolding emits_def by (metis append_Nil)

lemma emits_catch [emits_rules]:
  assumes m: "emits P m" and h: "\<And>e. emits P (h e)"
  shows "emits P (catch m h)"
  unfolding emits_def
proof
  fix tr
  obtain new where new: "snd (m tr) = tr @ new" "list_all P new"
    using m unfolding emits_def by blast
  show "\<exists>new. snd (catch m h tr) = tr @ new \<and> list_all P new"
  proof (cases "fst (m tr)")
    case (Inl e)
    obtain new' where "snd (h e (tr @ new)) = (tr @ new) @ new'" "list_all P new'"
      using h [of e] unfolding emits_def by blast
    then show ?thesis using new Inl
      by (auto simp: catch_def split: prod.splits intro!: exI [of _ "new @ new'"])
  next
    case (Inr x)
    then show ?thesis using new by (auto simp: catch_def split: prod.splits)
  qed
qed

end
