(* ===== verification/Py_Json.thy ===== *)
theory Py_Json
  imports Nova_Prelude
begin

text \<open>
  JSON values as Python holds them after \<open>json.load\<close>, with the operations the services apply to
  them: \<open>get\<close>, item assignment, \<open>pop\<close>, truth value, \<open>int()\<close>, \<open>str()\<close> and \<open>==\<close>. An object is an
  association list in insertion order; \<open>jwf\<close> says that no object has a key twice, which every
  Python dict satisfies. A float is its \<open>repr\<close>, its truncation and whether it is integral, which
  is all the sources observe of it (NaN and infinities are not represented).

  The lemmas are the laws of item access the components use: reading after a write or a removal,
  the keys an update leaves, well-formedness of every operation's result, and
  \<open>int(str(n)) = n\<close>.
\<close>

named_theorems json_simps \<open>access after update\<close>

datatype json =
    JNull
  | JBool bool
  | JInt int
  | JFloat string int bool
  | JStr string
  | JList "json list"
  | JObj "(string \<times> json) list"

datatype py_exc =
    PyTypeError
  | PyValueError
  | PyKeyError
  | PyAttributeError
  | PyIndexError
  | PyAssertionError
  | PyFileNotFound
  | PyFileExists
  | PyJSONDecodeError

section \<open>Association lists\<close>

fun obj_get :: "(string \<times> 'v) list \<Rightarrow> string \<Rightarrow> 'v option" where
  "obj_get [] k = None"
| "obj_get ((k', v) # kvs) k = (if k' = k then Some v else obj_get kvs k)"

fun obj_set :: "string \<Rightarrow> 'v \<Rightarrow> (string \<times> 'v) list \<Rightarrow> (string \<times> 'v) list" where
  "obj_set k v [] = [(k, v)]"
| "obj_set k v ((k', v') # kvs) = (if k' = k then (k, v) # kvs else (k', v') # obj_set k v kvs)"

definition obj_del :: "string \<Rightarrow> (string \<times> 'v) list \<Rightarrow> (string \<times> 'v) list" where
  "obj_del k kvs = filter (\<lambda>(k', v). k' \<noteq> k) kvs"

abbreviation keys :: "(string \<times> 'v) list \<Rightarrow> string list" where
  "keys kvs \<equiv> map fst kvs"

lemma obj_get_map_of: "obj_get kvs k = map_of kvs k"
  by (induction kvs) auto

lemma obj_get_set [simp]: "obj_get (obj_set k v kvs) k' = (if k' = k then Some v else obj_get kvs k')"
  by (induction kvs) auto

lemma obj_get_del [simp]: "obj_get (obj_del k kvs) k' = (if k' = k then None else obj_get kvs k')"
  by (induction kvs) (auto simp: obj_del_def)

lemma obj_get_None_iff: "obj_get kvs k = None \<longleftrightarrow> k \<notin> set (keys kvs)"
  by (induction kvs) (auto split: if_splits)

lemma obj_get_Some_in: "obj_get kvs k = Some v \<Longrightarrow> (k, v) \<in> set kvs"
  by (induction kvs) (auto split: if_splits)

lemma obj_get_distinct: "distinct (keys kvs) \<Longrightarrow> (k, v) \<in> set kvs \<Longrightarrow> obj_get kvs k = Some v"
  by (simp add: obj_get_map_of)

lemma keys_obj_set:
  "keys (obj_set k v kvs) = (if k \<in> set (keys kvs) then keys kvs else keys kvs @ [k])"
  by (induction kvs) (auto split: if_splits)

lemma distinct_obj_set [simp]: "distinct (keys kvs) \<Longrightarrow> distinct (keys (obj_set k v kvs))"
  by (simp add: keys_obj_set del: map_map)

lemma distinct_obj_del [simp]: "distinct (keys kvs) \<Longrightarrow> distinct (keys (obj_del k kvs))"
  by (induction kvs) (auto simp: obj_del_def)

lemma set_obj_set: "set (obj_set k v kvs) \<subseteq> insert (k, v) (set kvs)"
  by (induction kvs) (auto split: if_splits)

lemma set_obj_del: "set (obj_del k kvs) \<subseteq> set kvs"
  by (auto simp: obj_del_def)

lemma set_obj_set_distinct:
  "distinct (keys kvs) \<Longrightarrow> set (obj_set k v kvs) = insert (k, v) {p \<in> set kvs. fst p \<noteq> k}"
  by (induction kvs) (force simp: image_iff split: if_splits)+

section \<open>Values\<close>

fun jwf :: "json \<Rightarrow> bool" where
  "jwf (JList xs) = (\<forall>x\<in>set xs. jwf x)"
| "jwf (JObj kvs) = (distinct (keys kvs) \<and> (\<forall>p\<in>set kvs. jwf (snd p)))"
| "jwf _ = True"

fun truthy :: "json \<Rightarrow> bool" where
  "truthy JNull = False"
| "truthy (JBool b) = b"
| "truthy (JInt i) = (i \<noteq> 0)"
| "truthy (JFloat r t e) = (\<not> (e \<and> t = 0))"
| "truthy (JStr s) = (s \<noteq> [])"
| "truthy (JList xs) = (xs \<noteq> [])"
| "truthy (JObj kvs) = (kvs \<noteq> [])"

definition jor :: "json \<Rightarrow> json \<Rightarrow> json" where
  \<comment> \<open>\<open>a or b\<close>\<close>
  "jor a b = (if truthy a then a else b)"

fun is_obj :: "json \<Rightarrow> bool" where
  "is_obj (JObj _) = True"
| "is_obj _ = False"

fun is_list :: "json \<Rightarrow> bool" where
  "is_list (JList _) = True"
| "is_list _ = False"

fun is_str :: "json \<Rightarrow> bool" where
  "is_str (JStr _) = True"
| "is_str _ = False"

fun obj_of :: "json \<Rightarrow> (string \<times> json) list" where
  "obj_of (JObj kvs) = kvs"
| "obj_of _ = []"

fun list_of :: "json \<Rightarrow> json list" where
  "list_of (JList xs) = xs"
| "list_of _ = []"

definition jfind :: "json \<Rightarrow> string \<Rightarrow> json option" where
  "jfind d k = obj_get (obj_of d) k"

definition jget :: "json \<Rightarrow> string \<Rightarrow> json \<Rightarrow> json" where
  \<comment> \<open>\<open>d.get(k, default)\<close>\<close>
  "jget d k dflt = (case jfind d k of None \<Rightarrow> dflt | Some v \<Rightarrow> v)"

abbreviation jget0 :: "json \<Rightarrow> string \<Rightarrow> json" where
  \<comment> \<open>\<open>d.get(k)\<close>\<close>
  "jget0 d k \<equiv> jget d k JNull"

definition jhas :: "json \<Rightarrow> string \<Rightarrow> bool" where
  \<comment> \<open>\<open>k in d\<close>\<close>
  "jhas d k \<longleftrightarrow> jfind d k \<noteq> None"

definition jset :: "string \<Rightarrow> json \<Rightarrow> json \<Rightarrow> json" where
  \<comment> \<open>\<open>d[k] = v\<close>\<close>
  "jset k v d = JObj (obj_set k v (obj_of d))"

definition jdel :: "string \<Rightarrow> json \<Rightarrow> json" where
  \<comment> \<open>\<open>d.pop(k, None)\<close>\<close>
  "jdel k d = JObj (obj_del k (obj_of d))"

definition jdefault :: "string \<Rightarrow> json \<Rightarrow> json \<Rightarrow> json" where
  \<comment> \<open>\<open>d.setdefault(k, v)\<close>\<close>
  "jdefault k v d = (if jhas d k then d else jset k v d)"

definition jupdate :: "(string \<times> json) list \<Rightarrow> json \<Rightarrow> json" where
  \<comment> \<open>\<open>d.update(kvs)\<close>\<close>
  "jupdate kvs d = fold (\<lambda>(k, v). jset k v) kvs d"

lemma jfind_jset [simp, json_simps]:
  "jfind (jset k v d) k' = (if k' = k then Some v else jfind d k')"
  by (simp add: jfind_def jset_def)

lemma jfind_jdel [simp, json_simps]:
  "jfind (jdel k d) k' = (if k' = k then None else jfind d k')"
  by (simp add: jfind_def jdel_def)

lemma jget_jset [simp, json_simps]:
  "jget (jset k v d) k' dflt = (if k' = k then v else jget d k' dflt)"
  by (simp add: jget_def)

lemma jget_jdel [simp, json_simps]:
  "jget (jdel k d) k' dflt = (if k' = k then dflt else jget d k' dflt)"
  by (simp add: jget_def)

lemma jhas_jset [simp]: "jhas (jset k v d) k' \<longleftrightarrow> k' = k \<or> jhas d k'"
  by (simp add: jhas_def)

lemma jhas_jdel [simp]: "jhas (jdel k d) k' \<longleftrightarrow> k' \<noteq> k \<and> jhas d k'"
  by (simp add: jhas_def)

lemma jfind_JObj [simp]:
  "jfind (JObj []) k = None"
  "jfind (JObj ((k', v) # kvs)) k = (if k' = k then Some v else jfind (JObj kvs) k)"
  by (simp_all add: jfind_def)

lemma is_obj_jset [simp]: "is_obj (jset k v d)"
  by (simp add: jset_def)

lemma is_obj_jdel [simp]: "is_obj (jdel k d)"
  by (simp add: jdel_def)

lemma jwf_jset [simp]: "jwf d \<Longrightarrow> jwf v \<Longrightarrow> jwf (jset k v d)"
  using set_obj_set [of k v "obj_of d"] by (cases d) (auto simp: jset_def)

lemma jwf_jdel [simp]: "jwf d \<Longrightarrow> jwf (jdel k d)"
  using set_obj_del [of k "obj_of d"] by (cases d) (auto simp: jdel_def)

lemma jwf_jget: "jwf d \<Longrightarrow> jwf dflt \<Longrightarrow> jwf (jget d k dflt)"
  by (cases d) (auto simp: jget_def jfind_def split: option.splits dest!: obj_get_Some_in)

lemma jset_other_truthy [simp]: "truthy (jset k v d)"
proof -
  have "obj_set k v kvs \<noteq> []" for kvs :: "(string \<times> json) list"
    by (cases kvs) (auto split: if_splits)
  then show ?thesis by (simp add: jset_def)
qed

lemma obj_of_jset [simp]: "obj_of (jset k v d) = obj_set k v (obj_of d)"
  by (simp add: jset_def)

lemma obj_of_jdel [simp]: "obj_of (jdel k d) = obj_del k (obj_of d)"
  by (simp add: jdel_def)

section \<open>Conversions\<close>

definition digits_underscores :: "string \<Rightarrow> bool" where
  \<comment> \<open>digits, single underscores only between digits\<close>
  "digits_underscores s \<longleftrightarrow> (\<forall>w\<in>set (split_on (CHR ''_'') s). isdigit w)"

definition int_of_str :: "string \<Rightarrow> int option" where
  \<comment> \<open>\<open>int(s)\<close> for a string, \<open>None\<close> for \<open>ValueError\<close>\<close>
  "int_of_str s =
     (let t = strip s;
          neg = starts_with ''-'' t;
          u = (if neg \<or> starts_with ''+'' t then tl t else t)
      in if digits_underscores u
         then (let n = int (undec (filter (\<lambda>c. c \<noteq> CHR ''_'') u)) in Some (if neg then - n else n))
         else None)"

fun py_int :: "json \<Rightarrow> py_exc + int" where
  "py_int JNull = Inl PyTypeError"
| "py_int (JBool b) = Inr (if b then 1 else 0)"
| "py_int (JInt i) = Inr i"
| "py_int (JFloat r t e) = Inr t"
| "py_int (JStr s) = (case int_of_str s of None \<Rightarrow> Inl PyValueError | Some i \<Rightarrow> Inr i)"
| "py_int (JList _) = Inl PyTypeError"
| "py_int (JObj _) = Inl PyTypeError"

definition repr_char :: "char \<Rightarrow> char \<Rightarrow> string" where
  "repr_char q c =
     (if c = q \<or> c = CHR 0x5C then [CHR 0x5C, c]
      else if c = newline then [CHR 0x5C, CHR ''n'']
      else if c = CHR 0x0D then [CHR 0x5C, CHR ''r'']
      else if c = CHR 0x09 then [CHR 0x5C, CHR ''t'']
      else if ord c < 32 \<or> ord c = 127
        then [CHR 0x5C, CHR ''x''] @ zpad 2 (base_str 16 (ord c))
      else [c])"

definition repr_str :: "string \<Rightarrow> string" where
  "repr_str s =
     (let q = (if CHR 0x27 \<in> set s \<and> CHR 0x22 \<notin> set s then CHR 0x22 else CHR 0x27)
      in [q] @ concat (map (repr_char q) s) @ [q])"

fun sep_concat :: "string \<Rightarrow> string list \<Rightarrow> string" where
  "sep_concat d [] = []"
| "sep_concat d [w] = w"
| "sep_concat d (w # v # ws) = w @ d @ sep_concat d (v # ws)"

fun py_repr :: "json \<Rightarrow> string" where
  "py_repr JNull = ''None''"
| "py_repr (JBool b) = (if b then ''True'' else ''False'')"
| "py_repr (JInt i) = dec_int i"
| "py_repr (JFloat r t e) = r"
| "py_repr (JStr s) = repr_str s"
| "py_repr (JList xs) = ''['' @ sep_concat '', '' (map py_repr xs) @ '']''"
| "py_repr (JObj kvs) =
     CHR ''{'' # sep_concat '', '' (map (\<lambda>(k, v). repr_str k @ '': '' @ py_repr v) kvs) @ ''}''"

fun py_str :: "json \<Rightarrow> string" where
  "py_str (JStr s) = s"
| "py_str v = py_repr v"

text \<open>
  \<open>==\<close>: booleans and integral floats compare as the integer they equal; two floats that are not
  integral are equal when their \<open>repr\<close> is. Objects compare as finite maps.
\<close>

fun num_of :: "json \<Rightarrow> int option" where
  "num_of (JBool b) = Some (if b then 1 else 0)"
| "num_of (JInt i) = Some i"
| "num_of (JFloat r t e) = (if e then Some t else None)"
| "num_of _ = None"

lemma size_in_list: "x \<in> set xs \<Longrightarrow> size x < size_list size xs" for xs :: "json list"
  by (induction xs) auto

function (sequential) py_eq :: "json \<Rightarrow> json \<Rightarrow> bool" where
  "py_eq JNull JNull = True"
| "py_eq (JStr s) (JStr t) = (s = t)"
| "py_eq (JFloat r t False) (JFloat r' t' False) = (r = r')"
| "py_eq (JList xs) (JList ys) =
     (length xs = length ys \<and> list_all (\<lambda>i. py_eq (xs ! i) (ys ! i)) [0 ..< length xs])"
| "py_eq (JObj as) (JObj bs) =
     (length as = length bs \<and>
      list_all (\<lambda>p. case obj_get bs (fst p) of None \<Rightarrow> False | Some w \<Rightarrow> py_eq (snd p) w) as)"
| "py_eq a b = (num_of a \<noteq> None \<and> num_of a = num_of b)"
  by pat_completeness auto

termination
proof (relation "measure (\<lambda>(a, b). size a)", goal_cases)
  case 1 show ?case by simp
next
  case (2 xs ys i)
  then have "size (xs ! i) < size_list size xs" by (simp add: size_in_list)
  then show ?case by simp
next
  case (3 as bs p w)
  have "size (snd p) < Suc (size_list (size_prod (\<lambda>x. 0) size) as)"
    using size_list_estimation' [OF 3(1), of "size (snd p)" "size_prod (\<lambda>x. 0) size"]
    by (cases p) simp
  then show ?case by simp
qed

lemma isdigit_chars: "isdigit s \<Longrightarrow> c \<in> set s \<Longrightarrow> is_digit c"
  by (simp add: isdigit_def list_all_iff)

lemma strip_no_space: "(\<forall>c\<in>set s. \<not> is_space c) \<Longrightarrow> strip s = s"
  by (cases "s = []") (simp_all add: strip_def lstrip_def rstrip_def dropWhile_idle hd_rev)

lemma digit_not_space: "is_digit c \<Longrightarrow> \<not> is_space c"
  by (auto simp: is_digit_def between_def is_space_def)

lemma digit_not_punct: "is_digit c \<Longrightarrow> c \<noteq> CHR ''_'' \<and> c \<noteq> CHR ''-'' \<and> c \<noteq> CHR ''+''"
  by (auto simp: is_digit_def between_def)

lemma int_of_digits: "isdigit s \<Longrightarrow> int_of_str s = Some (int (undec s))"
proof -
  assume s: "isdigit s"
  then have d: "\<forall>c\<in>set s. is_digit c" and ne: "s \<noteq> []"
    by (auto simp: isdigit_def list_all_iff)
  then have st: "strip s = s" by (simp add: strip_no_space digit_not_space)
  have u: "CHR ''_'' \<notin> set s" using d digit_not_punct by blast
  then have sp: "split_on (CHR ''_'') s = [s]" "filter (\<lambda>c. c \<noteq> CHR ''_'') s = s"
    by (auto simp: split_no_sep filter_id_conv)
  have nb: "\<not> starts_with ''-'' s" "\<not> starts_with ''+'' s"
    using d ne digit_not_punct by (cases s; force simp: starts_with_def)+
  show ?thesis using s by (simp add: int_of_str_def st nb digits_underscores_def sp Let_def)
qed

lemma int_of_dec [simp]: "int_of_str (dec n) = Some (int n)"
  by (simp add: int_of_digits)

lemma dec_no_underscore: "CHR ''_'' \<notin> set (dec n)"
  using dec_digits [of n] digit_not_punct by (auto simp: list_all_iff)

lemma int_of_dec_int [simp]: "int_of_str (dec_int i) = Some i"
proof (cases "i < 0")
  case True
  let ?d = "dec (nat (- i))"
  have ns: "\<forall>c\<in>set (CHR ''-'' # ?d). \<not> is_space c"
    using dec_digits [of "nat (- i)"] digit_not_space
    by (auto simp: list_all_iff is_space_def)
  have "digits_underscores ?d" "filter (\<lambda>c. c \<noteq> CHR ''_'') ?d = ?d"
    using dec_no_underscore [of "nat (- i)"]
    by (auto simp: digits_underscores_def split_no_sep filter_id_conv)
  with True show ?thesis
    by (simp add: dec_int_def int_of_str_def Let_def strip_no_space [OF ns] starts_with_def)
next
  case False
  then show ?thesis by simp
qed

section \<open>Item access that raises\<close>

text \<open>
  The same accesses on a value that need not be an object: the exception Python raises is the
  error side.
\<close>

definition pget :: "json \<Rightarrow> string \<Rightarrow> json \<Rightarrow> py_exc + json" where
  \<comment> \<open>\<open>v.get(k, default)\<close>\<close>
  "pget v k dflt = (if is_obj v then Inr (jget v k dflt) else Inl PyAttributeError)"

fun pin :: "string \<Rightarrow> json \<Rightarrow> py_exc + bool" where
  \<comment> \<open>\<open>k in v\<close>\<close>
  "pin k (JObj kvs) = Inr (jhas (JObj kvs) k)"
| "pin k (JStr s) = Inr (contains k s)"
| "pin k (JList xs) = Inr (list_ex (\<lambda>x. py_eq x (JStr k)) xs)"
| "pin k v = Inl PyTypeError"

fun piter :: "json \<Rightarrow> py_exc + json list" where
  \<comment> \<open>\<open>for x in v\<close>\<close>
  "piter (JList xs) = Inr xs"
| "piter (JObj kvs) = Inr (map (\<lambda>(k, v). JStr k) kvs)"
| "piter (JStr s) = Inr (map (\<lambda>c. JStr [c]) s)"
| "piter v = Inl PyTypeError"

fun plen :: "json \<Rightarrow> py_exc + nat" where
  \<comment> \<open>\<open>len(v)\<close>\<close>
  "plen (JList xs) = Inr (length xs)"
| "plen (JObj kvs) = Inr (length kvs)"
| "plen (JStr s) = Inr (length s)"
| "plen v = Inl PyTypeError"

fun pindex :: "json \<Rightarrow> nat \<Rightarrow> py_exc + json" where
  \<comment> \<open>\<open>v[i]\<close> for \<open>i\<close> below \<open>len(v)\<close>\<close>
  "pindex (JList xs) i = (if i < length xs then Inr (xs ! i) else Inl PyIndexError)"
| "pindex (JStr s) i = (if i < length s then Inr (JStr [s ! i]) else Inl PyIndexError)"
| "pindex (JObj kvs) i = Inl PyKeyError"
| "pindex v i = Inl PyTypeError"

definition pitems :: "json \<Rightarrow> py_exc + (string \<times> json) list" where
  \<comment> \<open>\<open>v.items()\<close>\<close>
  "pitems v = (if is_obj v then Inr (obj_of v) else Inl PyAttributeError)"

lemma pget_obj [simp]: "pget (JObj kvs) k dflt = Inr (jget (JObj kvs) k dflt)"
  by (simp add: pget_def)

lemma pget_Inr [bindr_simps]: "pget v k dflt = Inr x \<longleftrightarrow> is_obj v \<and> x = jget v k dflt"
  by (auto simp: pget_def)

lemma pitems_Inr [bindr_simps]: "pitems v = Inr x \<longleftrightarrow> is_obj v \<and> x = obj_of v"
  by (auto simp: pitems_def)

lemma is_obj_iff: "is_obj v \<longleftrightarrow> (\<exists>kvs. v = JObj kvs)"
  by (cases v) simp_all

lemma is_list_iff: "is_list v \<longleftrightarrow> (\<exists>xs. v = JList xs)"
  by (cases v) simp_all

lemma jset_eq: "jset k v (JObj kvs) = JObj (obj_set k v kvs)"
  by (simp add: jset_def)

lemma obj_get_filter: "P k \<Longrightarrow> obj_get (filter (\<lambda>(k, v). P k) kvs) k = obj_get kvs k"
  by (induction kvs) auto

lemma filter_obj_set:
  "\<not> P k \<Longrightarrow> filter (\<lambda>(k, v). P k) (obj_set k v kvs) = filter (\<lambda>(k, v). P k) kvs"
  by (induction kvs) auto

end
