(* ===== verification/Iface_Names.thy ===== *)
theory Iface_Names
  imports Py_Json "HOL-Library.Word"
begin

text \<open>
  Names of the kernel objects nova-ve owns (\<open>app/services/host_net.py\<close>): resolution of the
  instance id, the 16-bit lab hash, and the bridge, TAP and veth names derived from them, with
  the shapes the validators of both sides test. The digest \<open>blake2b(..., digest_size=2)\<close> is a
  field of \<open>host_cfg\<close> that returns 16 bits.

  The lemmas show when a name fits the kernel's length limit, that a generated name has the
  shape the privileged helper accepts, that the lab, node and interface can be read back from
  the name (no two objects of a host share a name unless their lab hashes collide), and that
  the shapes of bridges, TAPs, veth ends and host bridges are pairwise disjoint.
\<close>

section \<open>Failures of the backend's host layer\<close>

datatype host_error =
    HostNetInstanceIdMissing
  | InstanceIdDecodeError
  | AssertionError
  | HostNetError int string
  | HostNetValidationError int string
  | HostNetEEXIST int string
  | HostNetEINVAL int string
  | HostNetUnknown int string
  | HostNetBridgeOwnershipError
  | ValueError
  | OSError
  | Py py_exc

fun is_HostNetError :: "host_error \<Rightarrow> bool" where
  \<comment> \<open>subclass test of \<open>except HostNetError\<close>\<close>
  "is_HostNetError (HostNetError _ _) = True"
| "is_HostNetError (HostNetValidationError _ _) = True"
| "is_HostNetError (HostNetEEXIST _ _) = True"
| "is_HostNetError (HostNetEINVAL _ _) = True"
| "is_HostNetError (HostNetUnknown _ _) = True"
| "is_HostNetError HostNetBridgeOwnershipError = True"
| "is_HostNetError _ = False"

section \<open>Instance id\<close>

datatype file_read = FileMissing | FileUnreadable | FileNotAscii | FileText string

record host_cfg =
  env_instance_file :: "string option"
  env_instance_dir :: "string option"
  file_at :: "string \<Rightarrow> file_read"
  blake2b_16 :: "string \<Rightarrow> 16 word"

definition posix_parts :: "string \<Rightarrow> string list" where
  "posix_parts s = filter (\<lambda>w. w \<noteq> [] \<and> w \<noteq> ''.'') (split_on (CHR ''/'') s)"

definition posix_root :: "string \<Rightarrow> string" where
  "posix_root s =
     (if starts_with ''/'' s then
        (if starts_with ''//'' s \<and> \<not> starts_with ''///'' s then ''//'' else ''/'')
      else [])"

definition posix_path :: "string \<Rightarrow> string" where
  \<comment> \<open>\<open>str(Path(s))\<close>\<close>
  "posix_path s =
     (let t = posix_root s @ join_on (CHR ''/'') (posix_parts s) in if t = [] then ''.'' else t)"

definition instance_id_file :: "host_cfg \<Rightarrow> string" where
  "instance_id_file h =
     (let f = strip (case env_instance_file h of None \<Rightarrow> [] | Some v \<Rightarrow> v) in
      if f \<noteq> [] then posix_path f
      else (let d = (case env_instance_dir h of None \<Rightarrow> ''/etc/nova-ve'' | Some v \<Rightarrow> v)
            in posix_path (d @ (if d = [] then [] else ''/'') @ ''instance_id'')))"

definition get_instance_id :: "host_cfg \<Rightarrow> host_error + string" where
  "get_instance_id h =
     (case file_at h (instance_id_file h) of
        FileMissing \<Rightarrow> Inl HostNetInstanceIdMissing
      | FileUnreadable \<Rightarrow> Inl HostNetInstanceIdMissing
      | FileNotAscii \<Rightarrow> Inl InstanceIdDecodeError
      | FileText t \<Rightarrow>
          (let v = strip t in if v \<noteq> [] then Inr v else Inl HostNetInstanceIdMissing))"

lemma get_instance_id_nonempty: "get_instance_id h = Inr v \<Longrightarrow> v \<noteq> [] \<and> strip v = v"
  by (auto simp: get_instance_id_def Let_def split: file_read.splits if_splits)

section \<open>Derived names\<close>

definition lab_hash :: "host_cfg \<Rightarrow> string \<Rightarrow> string \<Rightarrow> nat" where
  "lab_hash h lab_id iid = unat (blake2b_16 h (iid @ '':'' @ lab_id))"

definition hex4 :: "nat \<Rightarrow> string" where
  "hex4 n = zpad 4 (base_str 16 n)"

definition bridge_text :: "nat \<Rightarrow> int \<Rightarrow> string" where
  "bridge_text x n = ''nove'' @ hex4 x @ ''n'' @ dec_int n"

definition tap_text :: "nat \<Rightarrow> int \<Rightarrow> int \<Rightarrow> string" where
  "tap_text x d i = ''nve'' @ hex4 x @ ''d'' @ dec_int d @ ''i'' @ dec_int i"

definition named :: "string \<Rightarrow> host_error + string" where
  \<comment> \<open>\<open>assert len(name) <= 14; return name\<close>\<close>
  "named s = (if length s \<le> 14 then Inr s else Inl AssertionError)"

definition bridge_name :: "host_cfg \<Rightarrow> string \<Rightarrow> int \<Rightarrow> host_error + string" where
  "bridge_name h lab_id network_id =
     bindr (get_instance_id h) (\<lambda>iid. named (bridge_text (lab_hash h lab_id iid) network_id))"

definition tap_name :: "host_cfg \<Rightarrow> string \<Rightarrow> int \<Rightarrow> int \<Rightarrow> host_error + string" where
  "tap_name h lab_id node_id iface =
     bindr (get_instance_id h) (\<lambda>iid. named (tap_text (lab_hash h lab_id iid) node_id iface))"

definition veth_host_name :: "host_cfg \<Rightarrow> string \<Rightarrow> int \<Rightarrow> int \<Rightarrow> host_error + string" where
  "veth_host_name h lab_id node_id iface =
     bindr (get_instance_id h)
       (\<lambda>iid. named (tap_text (lab_hash h lab_id iid) node_id iface @ ''h''))"

definition veth_peer_name :: "host_cfg \<Rightarrow> string \<Rightarrow> int \<Rightarrow> int \<Rightarrow> host_error + string" where
  "veth_peer_name h lab_id node_id iface =
     bindr (get_instance_id h)
       (\<lambda>iid. named (tap_text (lab_hash h lab_id iid) node_id iface @ ''p''))"

lemma lab_hash_bound [simp]: "lab_hash h l i < 65536"
proof -
  have "unat w < 2 ^ LENGTH(16)" for w :: "16 word" by (rule unsigned_less)
  then show ?thesis by (simp add: lab_hash_def)
qed

lemma length_hex4: "x < 65536 \<Longrightarrow> length (hex4 x) = 4"
  using length_base_str [of 16 4 x] by (simp add: hex4_def)

lemma hex4_hex: "list_all is_hex (hex4 x)"
  unfolding hex4_def by (rule zpad_class) (simp_all add: is_hex_def is_digit_def between_def)

lemma hex4_inj: "x < 65536 \<Longrightarrow> y < 65536 \<Longrightarrow> hex4 x = hex4 y \<longleftrightarrow> x = y"
  unfolding hex4_def by (metis base_val_zpad base_val_str numeral_le_iff order_refl
      semiring_norm(68) semiring_norm(71))

lemma named_Inr [simp]: "named s = Inr t \<longleftrightarrow> length s \<le> 14 \<and> t = s"
  by (auto simp: named_def)

lemma i_notin_dec_int: "CHR ''i'' \<notin> set (dec_int d)"
  using dec_int_chars [of d] by (auto simp: list_all_iff is_digit_def between_def)

lemma bridge_text_inj:
  assumes "x < 65536" "y < 65536"
  shows "bridge_text x m = bridge_text y n \<longleftrightarrow> x = y \<and> m = n"
  using assms by (auto simp: bridge_text_def length_hex4 hex4_inj)

lemma tap_text_inj:
  assumes "x < 65536" "y < 65536"
  shows "tap_text x d i = tap_text y e j \<longleftrightarrow> x = y \<and> d = e \<and> i = j"
  using assms by (auto simp: tap_text_def length_hex4 hex4_inj
      sep_append_eq i_notin_dec_int)

section \<open>Shapes\<close>

definition BRIDGE_SHAPE :: "rx_atom list" where
  \<comment> \<open>\<open>nove[a-f0-9]{4}n[0-9]{1,5}\<close>\<close>
  "BRIDGE_SHAPE = rx_lit ''nove'' @ [Rx is_hex 4 (Some 4)] @ rx_lit ''n'' @ [Rx is_digit 1 (Some 5)]"

definition HOST_BRIDGE_SHAPE :: "rx_atom list" where
  \<comment> \<open>\<open>br-eth[0-9]+\<close>\<close>
  "HOST_BRIDGE_SHAPE = rx_lit ''br-eth'' @ [Rx is_digit 1 None]"

definition TAP_SHAPE :: "rx_atom list" where
  \<comment> \<open>\<open>nve[a-f0-9]{4}d[0-9]{1,3}i[0-9]{1,2}\<close>\<close>
  "TAP_SHAPE = rx_lit ''nve'' @ [Rx is_hex 4 (Some 4)] @ rx_lit ''d'' @ [Rx is_digit 1 (Some 3)]
     @ rx_lit ''i'' @ [Rx is_digit 1 (Some 2)]"

definition VETH_SHAPE :: "rx_atom list" where
  \<comment> \<open>\<open>nve[a-f0-9]{4}d[0-9]{1,3}i[0-9]{1,2}[hp]\<close>\<close>
  "VETH_SHAPE = TAP_SHAPE @ [Rx (\<lambda>c. c = CHR ''h'' \<or> c = CHR ''p'') 1 (Some 1)]"

lemma BRIDGE_SHAPE_iff:
  "rx_full BRIDGE_SHAPE s \<longleftrightarrow>
     (\<exists>x n. s = ''nove'' @ x @ ''n'' @ n \<and> length x = 4 \<and> list_all is_hex x \<and>
        1 \<le> length n \<and> length n \<le> 5 \<and> list_all is_digit n)"
  unfolding BRIDGE_SHAPE_def rx_full_lit append.simps rx_full_Cons rx_full.simps(1)
  by (fastforce simp: rx_full_Cons)

lemma HOST_BRIDGE_SHAPE_iff:
  "rx_full HOST_BRIDGE_SHAPE s \<longleftrightarrow> (\<exists>n. s = ''br-eth'' @ n \<and> isdigit n)"
  unfolding HOST_BRIDGE_SHAPE_def rx_full_lit
  by (auto simp: rx_full_Cons isdigit_def Suc_le_eq)

lemma TAP_SHAPE_iff:
  "rx_full TAP_SHAPE s \<longleftrightarrow>
     (\<exists>x d i. s = ''nve'' @ x @ ''d'' @ d @ ''i'' @ i \<and> length x = 4 \<and> list_all is_hex x \<and>
        1 \<le> length d \<and> length d \<le> 3 \<and> list_all is_digit d \<and>
        1 \<le> length i \<and> length i \<le> 2 \<and> list_all is_digit i)"
  unfolding TAP_SHAPE_def rx_full_lit append.simps rx_full_Cons
  by (fastforce simp: rx_full_Cons)

lemma VETH_SHAPE_iff:
  "rx_full VETH_SHAPE s \<longleftrightarrow>
     (\<exists>t c. s = t @ [c] \<and> rx_full TAP_SHAPE t \<and> (c = CHR ''h'' \<or> c = CHR ''p''))"
  unfolding VETH_SHAPE_def rx_full_append by auto

lemma bridge_hd: "rx_full BRIDGE_SHAPE s \<Longrightarrow> starts_with ''nove'' s"
  by (auto simp: BRIDGE_SHAPE_iff starts_with_def)

lemma tap_hd: "rx_full TAP_SHAPE s \<Longrightarrow> starts_with ''nve'' s"
  by (auto simp: TAP_SHAPE_iff starts_with_def)

lemma veth_hd: "rx_full VETH_SHAPE s \<Longrightarrow> starts_with ''nve'' s"
  by (auto simp: VETH_SHAPE_iff TAP_SHAPE_iff starts_with_def)

lemma host_bridge_hd: "rx_full HOST_BRIDGE_SHAPE s \<Longrightarrow> starts_with ''br-eth'' s"
  by (auto simp: HOST_BRIDGE_SHAPE_iff starts_with_def)

lemma tap_last_digit: "rx_full TAP_SHAPE s \<Longrightarrow> s \<noteq> [] \<and> is_digit (last s)"
  by (auto simp: TAP_SHAPE_iff list_all_iff)

lemma starts_nove_nve: "starts_with ''nove'' s \<Longrightarrow> \<not> starts_with ''nve'' s"
  by (auto simp: starts_with_iff)

lemma starts_nove_br: "starts_with ''nove'' s \<Longrightarrow> \<not> starts_with ''br-eth'' s"
  by (auto simp: starts_with_iff)

lemma starts_nve_br: "starts_with ''nve'' s \<Longrightarrow> \<not> starts_with ''br-eth'' s"
  by (auto simp: starts_with_iff)

lemma shapes_disjoint:
  "rx_full BRIDGE_SHAPE s \<Longrightarrow> \<not> rx_full TAP_SHAPE s"
  "rx_full BRIDGE_SHAPE s \<Longrightarrow> \<not> rx_full VETH_SHAPE s"
  "rx_full BRIDGE_SHAPE s \<Longrightarrow> \<not> rx_full HOST_BRIDGE_SHAPE s"
  "rx_full TAP_SHAPE s \<Longrightarrow> \<not> rx_full VETH_SHAPE s"
  "rx_full TAP_SHAPE s \<Longrightarrow> \<not> rx_full HOST_BRIDGE_SHAPE s"
  "rx_full VETH_SHAPE s \<Longrightarrow> \<not> rx_full HOST_BRIDGE_SHAPE s"
proof -
  show "rx_full TAP_SHAPE s \<Longrightarrow> \<not> rx_full VETH_SHAPE s"
    using tap_last_digit [of s] by (auto simp: VETH_SHAPE_iff is_digit_def between_def)
qed (blast dest: bridge_hd tap_hd veth_hd host_bridge_hd starts_nove_nve starts_nove_br
    starts_nve_br)+

section \<open>Generated names have the accepted shapes\<close>

lemma bridge_text_shape:
  "x < 65536 \<Longrightarrow> n < 100000 \<Longrightarrow> rx_full BRIDGE_SHAPE (bridge_text x (int n))"
  unfolding BRIDGE_SHAPE_iff bridge_text_def
  using dec_length_le [of 5 n]
  by (intro exI [of _ "hex4 x"] exI [of _ "dec n"])
    (simp add: length_hex4 hex4_hex Suc_le_eq)

lemma tap_text_shape:
  "x < 65536 \<Longrightarrow> d < 1000 \<Longrightarrow> i < 100 \<Longrightarrow> rx_full TAP_SHAPE (tap_text x (int d) (int i))"
  unfolding TAP_SHAPE_iff tap_text_def
  using dec_length_le [of 3 d] dec_length_le [of 2 i]
  by (intro exI [of _ "hex4 x"] exI [of _ "dec d"] exI [of _ "dec i"])
    (simp add: length_hex4 hex4_hex Suc_le_eq)

lemma length_bridge_text:
  "x < 65536 \<Longrightarrow> length (bridge_text x (int n)) \<le> 14 \<longleftrightarrow> n < 100000"
  using dec_length_le [of 5 n] by (simp add: bridge_text_def length_hex4)

lemma length_tap_text:
  "x < 65536 \<Longrightarrow> length (tap_text x (int d) (int i)) = 9 + length (dec d) + length (dec i)"
  by (simp add: tap_text_def length_hex4)

lemma bridge_name_shape:
  "bridge_name h l (int n) = Inr s \<Longrightarrow> rx_full BRIDGE_SHAPE s"
  by (auto simp: bridge_name_def bindr_simps length_bridge_text bridge_text_shape)

lemma tap_name_shape:
  "d < 1000 \<Longrightarrow> i < 100 \<Longrightarrow> tap_name h l (int d) (int i) = Inr s \<Longrightarrow> rx_full TAP_SHAPE s"
  by (auto simp: tap_name_def bindr_simps tap_text_shape)

lemma tap_text_veth:
  "x < 65536 \<Longrightarrow> d < 1000 \<Longrightarrow> i < 100 \<Longrightarrow> c = CHR ''h'' \<or> c = CHR ''p'' \<Longrightarrow>
     rx_full VETH_SHAPE (tap_text x (int d) (int i) @ [c])"
  using tap_text_shape [of x d i] by (auto simp: VETH_SHAPE_iff)

lemma veth_name_shape:
  "d < 1000 \<Longrightarrow> i < 100 \<Longrightarrow> veth_host_name h l (int d) (int i) = Inr s \<Longrightarrow> rx_full VETH_SHAPE s"
  "d < 1000 \<Longrightarrow> i < 100 \<Longrightarrow> veth_peer_name h l (int d) (int i) = Inr s \<Longrightarrow> rx_full VETH_SHAPE s"
  by (auto simp: veth_host_name_def veth_peer_name_def bindr_simps tap_text_veth)

end
