(* ===== verification/Ipv4.thy ===== *)
theory Ipv4
  imports Nova_Prelude
begin

text \<open>
  The part of Python's \<open>ipaddress\<close> the sources use, for IPv4: parsing and printing of addresses,
  networks (\<open>strict\<close> or not) with a prefix length, a netmask or a hostmask, membership, overlap,
  broadcast address and enumeration of subnets. An address is its 32-bit number; a network is
  its network address and its prefix length.

  The lemmas are the round trips between text and number, the bounds of every parsed value, that
  membership is an interval, and that \<open>overlaps\<close> decides whether two networks share an address.
\<close>

type_synonym ip = nat
type_synonym ipnet = "nat \<times> nat"

section \<open>Addresses\<close>

definition parse_octet :: "string \<Rightarrow> nat option" where
  "parse_octet s =
     (if s = [] \<or> \<not> list_all is_digit s \<or> 3 < length s \<or> (s \<noteq> ''0'' \<and> hd s = CHR ''0'')
         \<or> 255 < undec s
      then None else Some (undec s))"

definition parse_ip :: "string \<Rightarrow> ip option" where
  "parse_ip s =
     (case map parse_octet (split_on (CHR ''.'') s) of
        [Some a, Some b, Some c, Some d] \<Rightarrow> Some (((a * 256 + b) * 256 + c) * 256 + d)
      | _ \<Rightarrow> None)"

definition octets :: "ip \<Rightarrow> nat list" where
  "octets a = [a div 16777216, a div 65536 mod 256, a div 256 mod 256, a mod 256]"

definition str_ip :: "ip \<Rightarrow> string" where
  "str_ip a = join_on (CHR ''.'') (map dec (octets a))"

definition valid_ip :: "ip \<Rightarrow> bool" where
  "valid_ip a \<longleftrightarrow> a < 4294967296"

lemma undec_zero_hd: "list_all is_digit s \<Longrightarrow> s \<noteq> [] \<Longrightarrow> hd s \<noteq> CHR ''0'' \<Longrightarrow> 0 < undec s"
proof (induction s rule: rev_induct)
  case Nil
  then show ?case by simp
next
  case (snoc c s)
  show ?case
  proof (cases "s = []")
    case True
    with snoc have "is_digit c" "c \<noteq> CHR ''0''" by auto
    then have "ord c \<noteq> ord (CHR ''0'')" by (metis char_of_char)
    with True \<open>is_digit c\<close> show ?thesis by (simp add: dval_def is_digit_def between_def)
  next
    case False
    with snoc show ?thesis by simp
  qed
qed

lemma dchar_dval: "is_digit c \<Longrightarrow> dchar (dval c) = c \<and> dval c < 10"
proof -
  assume c: "is_digit c"
  then have "dval c < 10" "48 + dval c = ord c"
    by (auto simp: dval_def is_digit_def between_def)
  then show ?thesis by (simp add: dchar_def)
qed

lemma dec_undec:
  "list_all is_digit s \<Longrightarrow> s \<noteq> [] \<Longrightarrow> s = ''0'' \<or> hd s \<noteq> CHR ''0'' \<Longrightarrow> dec (undec s) = s"
proof (induction s rule: rev_induct)
  case Nil
  then show ?case by simp
next
  case (snoc c s)
  have c: "dchar (dval c) = c" "dval c < 10" using snoc.prems(1) dchar_dval by auto
  show ?case
  proof (cases "s = []")
    case True
    with c show ?thesis by (subst base_str.simps) simp
  next
    case False
    with snoc.prems have h: "hd s \<noteq> CHR ''0''" "list_all is_digit s"
      by (auto simp: Cons_eq_append_conv append_eq_Cons_conv)
    then have "0 < undec s" using False undec_zero_hd by blast
    moreover have "dec (undec s) = s" using snoc.IH h False by blast
    ultimately show ?thesis using c by (subst base_str.simps) simp
  qed
qed

lemma parse_octet_Some: "parse_octet s = Some n \<Longrightarrow> s = dec n \<and> n < 256"
proof -
  assume h: "parse_octet s = Some n"
  then have "list_all is_digit s" "s \<noteq> []" "s = ''0'' \<or> hd s \<noteq> CHR ''0''"
    by (metis option.distinct(1) parse_octet_def)+
  then have "dec (undec s) = s" by (rule dec_undec)
  moreover from h have "n = undec s" "n \<le> 255"
    by (simp_all add: parse_octet_def split: if_splits)
  ultimately show ?thesis by simp
qed

lemma dec_hd_zero: "hd (dec n) = CHR ''0'' \<Longrightarrow> n = 0"
proof -
  assume h: "hd (dec n) = CHR ''0''"
  show "n = 0"
  proof (rule ccontr)
    assume n: "n \<noteq> 0"
    have "hd (dec m) \<noteq> CHR ''0''" if "0 < m" for m
      using that
    proof (induction m rule: less_induct)
      case (less m)
      have "dchar k \<noteq> CHR ''0''" if "0 < k" "k < 10" for k
      proof -
        have "ord (dchar k) \<noteq> ord (CHR ''0'')" using that by (simp add: ord_dchar)
        then show ?thesis by metis
      qed
      then show ?case using less
        by (cases "m < 10") (subst base_str.simps, simp)+
    qed
    with n h show False by blast
  qed
qed

lemma dec_zero [simp]: "dec 0 = ''0''"
  by code_simp

lemma parse_octet_dec [simp]: "n < 256 \<Longrightarrow> parse_octet (dec n) = Some n"
  using dec_length_le [of 3 n] dec_hd_zero [of n] by (auto simp: parse_octet_def)

lemma dot_notin_dec: "CHR ''.'' \<notin> set (dec n)"
  using dec_digits [of n] by (auto simp: list_all_iff is_digit_def between_def)

lemma split_str_ip [simp]: "split_on (CHR ''.'') (str_ip a) = map dec (octets a)"
  unfolding str_ip_def by (rule split_join) (auto simp: octets_def dot_notin_dec)

lemma octets_sum:
  "((a div 16777216 * 256 + a div 65536 mod 256) * 256 + a div 256 mod 256) * 256 + a mod 256 = (a::nat)"
proof -
  have 1: "a div 65536 = a div 256 div 256" "a div 16777216 = a div 256 div 256 div 256"
    by (simp_all add: div_mult2_eq)
  show ?thesis unfolding 1 by simp
qed

theorem parse_str_ip [simp]: "valid_ip a \<Longrightarrow> parse_ip (str_ip a) = Some a"
  using octets_sum [of a] by (simp add: parse_ip_def octets_def valid_ip_def less_mult_imp_div_less)

lemma div_mod_256: "d < 256 \<Longrightarrow> (q * 256 + d) div 256 = q" "d < 256 \<Longrightarrow> (q * 256 + d) mod 256 = (d::nat)"
  by simp_all

lemma octets_combine:
  assumes "a < 256" "b < 256" "c < 256" "d < (256::nat)"
  shows "octets (((a * 256 + b) * 256 + c) * 256 + d) = [a, b, c, d]"
proof -
  let ?x = "((a * 256 + b) * 256 + c) * 256 + d"
  have 1: "?x div 256 = (a * 256 + b) * 256 + c" "?x mod 256 = d"
    using assms by (simp_all only: div_mod_256)
  have 2: "((a * 256 + b) * 256 + c) div 256 = a * 256 + b" "((a * 256 + b) * 256 + c) mod 256 = c"
    "(a * 256 + b) mod 256 = b"
    using assms by (simp_all only: div_mod_256)
  have 3: "?x div 65536 = a * 256 + b"
  proof -
    have "?x div 65536 = ?x div (256 * 256)" by simp
    also have "\<dots> = a * 256 + b" unfolding div_mult2_eq 1 2 ..
    finally show ?thesis .
  qed
  have 4: "?x div 16777216 = a"
  proof -
    have "?x div 16777216 = ?x div (65536 * 256)" by simp
    also have "\<dots> = a" unfolding div_mult2_eq 3 using assms by (simp only: div_mod_256)
    finally show ?thesis .
  qed
  show ?thesis unfolding octets_def 1 3 4 2 ..
qed

lemma parse_ip_Some: "parse_ip s = Some a \<Longrightarrow> valid_ip a \<and> str_ip a = s"
proof -
  assume "parse_ip s = Some a"
  then obtain p q r t where m: "map parse_octet (split_on (CHR ''.'') s) = [Some p, Some q, Some r, Some t]"
      and a: "a = ((p * 256 + q) * 256 + r) * 256 + t"
    by (auto simp: parse_ip_def split: list.splits option.splits)
  from m obtain w x y z where sp: "split_on (CHR ''.'') s = [w, x, y, z]"
      and o: "parse_octet w = Some p" "parse_octet x = Some q" "parse_octet y = Some r"
        "parse_octet z = Some t"
    by (auto simp: map_eq_Cons_conv)
  note d = o [THEN parse_octet_Some]
  have "s = join_on (CHR ''.'') [w, x, y, z]" using join_split [of "CHR ''.''" s] sp by simp
  then show ?thesis
    using d octets_combine [of p q r t] by (simp add: a str_ip_def valid_ip_def)
qed

lemma str_ip_inj: "valid_ip a \<Longrightarrow> valid_ip b \<Longrightarrow> str_ip a = str_ip b \<longleftrightarrow> a = b"
  by (metis option.inject parse_str_ip)

section \<open>Networks\<close>

definition prefix_of_mask :: "nat \<Rightarrow> nat option" where
  "prefix_of_mask m = List.find (\<lambda>p. m = (2 ^ p - 1) * 2 ^ (32 - p)) [0 ..< 33]"

definition parse_prefix :: "string \<Rightarrow> nat option" where
  \<comment> \<open>\<open>_make_netmask\<close>: a decimal length, else a netmask, else a hostmask\<close>
  "parse_prefix s =
     (if isdigit s \<and> undec s \<le> 32 then Some (undec s)
      else (case parse_ip s of
              None \<Rightarrow> None
            | Some m \<Rightarrow>
                (case prefix_of_mask m of
                   Some p \<Rightarrow> Some p
                 | None \<Rightarrow> prefix_of_mask (4294967295 - m))))"

definition parse_iface :: "string \<Rightarrow> (ip \<times> nat) option" where
  \<comment> \<open>address and prefix length, host bits allowed: \<open>IPv4Interface(s)\<close>\<close>
  "parse_iface s =
     (case split_on (CHR ''/'') s of
        [a] \<Rightarrow> map_option (\<lambda>x. (x, 32)) (parse_ip a)
      | [a, m] \<Rightarrow>
          (case (parse_ip a, parse_prefix m) of
             (Some x, Some p) \<Rightarrow> Some (x, p)
           | _ \<Rightarrow> None)
      | _ \<Rightarrow> None)"

definition hosts_size :: "nat \<Rightarrow> nat" where
  "hosts_size p = 2 ^ (32 - p)"

definition net_base :: "nat \<Rightarrow> ip \<Rightarrow> ip" where
  \<comment> \<open>the address with its host bits cleared (\<open>a & netmask\<close>)\<close>
  "net_base p a = a div hosts_size p * hosts_size p"

definition parse_net :: "string \<Rightarrow> ipnet option" where
  \<comment> \<open>\<open>IPv4Network(s, strict=True)\<close>\<close>
  "parse_net s =
     (case parse_iface s of
        None \<Rightarrow> None
      | Some (a, p) \<Rightarrow> if net_base p a = a then Some (a, p) else None)"

definition str_net :: "ipnet \<Rightarrow> string" where
  "str_net n = str_ip (fst n) @ ''/'' @ dec (snd n)"

definition in_net :: "ip \<Rightarrow> ipnet \<Rightarrow> bool" where
  "in_net a n \<longleftrightarrow> net_base (snd n) a = fst n"

definition broadcast :: "ipnet \<Rightarrow> ip" where
  "broadcast n = fst n + hosts_size (snd n) - 1"

definition overlaps :: "ipnet \<Rightarrow> ipnet \<Rightarrow> bool" where
  "overlaps n m \<longleftrightarrow> in_net (fst n) m \<or> in_net (broadcast n) m \<or> in_net (fst m) n
     \<or> in_net (broadcast m) n"

definition subnets :: "ipnet \<Rightarrow> nat \<Rightarrow> ipnet list" where
  \<comment> \<open>\<open>net.subnets(new_prefix=p)\<close> for a network of prefix length at most \<open>p\<close>\<close>
  "subnets n p = map (\<lambda>k. (fst n + k * hosts_size p, p)) [0 ..< hosts_size (snd n) div hosts_size p]"

definition valid_net :: "ipnet \<Rightarrow> bool" where
  "valid_net n \<longleftrightarrow> snd n \<le> 32 \<and> valid_ip (fst n) \<and> net_base (snd n) (fst n) = fst n"

lemma hosts_size_pos [simp]: "0 < hosts_size p"
  by (simp add: hosts_size_def)

lemma hosts_size_dvd: "p \<le> 32 \<Longrightarrow> hosts_size p dvd 4294967296"
proof -
  assume "p \<le> 32"
  then have "(2::nat) ^ (32 - p) dvd 2 ^ 32" by (intro le_imp_power_dvd) simp
  then show ?thesis by (simp add: hosts_size_def)
qed

lemma parse_prefix_bound: "parse_prefix s = Some p \<Longrightarrow> p \<le> 32"
  by (auto simp: parse_prefix_def prefix_of_mask_def find_Some_iff split: if_splits option.splits)

lemma parse_iface_bounds: "parse_iface s = Some (a, p) \<Longrightarrow> valid_ip a \<and> p \<le> 32"
  by (auto simp: parse_iface_def parse_prefix_bound dest: parse_ip_Some
      split: list.splits option.splits)

lemma parse_net_valid: "parse_net s = Some n \<Longrightarrow> valid_net n"
  by (auto simp: parse_net_def valid_net_def dest!: parse_iface_bounds
      split: option.splits if_splits)

lemma slash_notin_ip: "CHR ''/'' \<notin> set (str_ip a)"
proof -
  have "CHR ''/'' \<notin> set (dec n)" for n
    using dec_digits [of n] by (auto simp: list_all_iff is_digit_def between_def)
  then show ?thesis by (simp add: str_ip_def octets_def)
qed

lemma parse_prefix_dec: "p \<le> 32 \<Longrightarrow> parse_prefix (dec p) = Some p"
  by (simp add: parse_prefix_def)

lemma parse_iface_str:
  "valid_ip a \<Longrightarrow> p \<le> 32 \<Longrightarrow> parse_iface (str_ip a @ CHR ''/'' # dec p) = Some (a, p)"
proof -
  assume a: "valid_ip a" "p \<le> 32"
  have "CHR ''/'' \<notin> set (dec p)"
    using dec_digits [of p] by (auto simp: list_all_iff is_digit_def between_def)
  then have "split_on (CHR ''/'') (str_ip a @ CHR ''/'' # dec p) = [str_ip a, dec p]"
    by (simp add: split_append_sep split_no_sep slash_notin_ip)
  with a show ?thesis by (simp add: parse_iface_def parse_prefix_dec)
qed

theorem parse_str_net: "valid_net n \<Longrightarrow> parse_net (str_net n) = Some n"
  by (cases n) (simp add: parse_net_def str_net_def parse_iface_str valid_net_def)

lemma net_base_le: "net_base p a \<le> a"
  by (simp add: net_base_def)

lemma net_base_valid: "valid_ip a \<Longrightarrow> valid_ip (net_base p a)"
  using net_base_le [of p a] by (simp add: valid_ip_def)

lemma net_base_idem [simp]: "net_base p (net_base p a) = net_base p a"
  by (simp add: net_base_def)

lemma in_net_interval:
  "valid_net n \<Longrightarrow> in_net a n \<longleftrightarrow> fst n \<le> a \<and> a \<le> broadcast n"
proof -
  assume v: "valid_net n"
  let ?h = "hosts_size (snd n)"
  have f: "fst n = fst n div ?h * ?h" using v by (simp add: valid_net_def net_base_def)
  have "in_net a n \<longleftrightarrow> a div ?h * ?h = fst n" by (simp add: in_net_def net_base_def)
  also have "\<dots> \<longleftrightarrow> a div ?h = fst n div ?h"
    using f by (metis hosts_size_pos mult_right_cancel less_not_refl2)
  also have "\<dots> \<longleftrightarrow> fst n \<le> a \<and> a < fst n + ?h"
  proof -
    define k where "k = fst n div ?h"
    have "a div ?h = k \<longleftrightarrow> k * ?h \<le> a \<and> a < Suc k * ?h"
      using div_nat_eqI [of ?h k a] div_times_less_eq_dividend [of a ?h]
        dividend_less_div_times [of ?h a] by (auto simp: mult.commute)
    then show ?thesis using f unfolding k_def by (simp add: add.commute)
  qed
  finally show ?thesis using hosts_size_pos [of "snd n"] unfolding broadcast_def by linarith
qed

lemma valid_net_base: "valid_ip a \<Longrightarrow> p \<le> 32 \<Longrightarrow> valid_net (net_base p a, p)"
  by (simp add: valid_net_def net_base_valid)

lemma hosts_size_le_24: "p \<le> 24 \<Longrightarrow> 256 \<le> hosts_size p"
proof -
  assume "p \<le> 24"
  then have "(2::nat) ^ 8 \<le> 2 ^ (32 - p)" by (intro power_increasing) auto
  then show ?thesis by (simp add: hosts_size_def)
qed

lemma net_end_le:
  assumes "valid_net n"
  shows "fst n + hosts_size (snd n) \<le> 4294967296"
proof -
  let ?h = "hosts_size (snd n)"
  obtain k where k: "4294967296 = ?h * k" using hosts_size_dvd assms by (metis dvdE valid_net_def)
  obtain j where j: "fst n = j * ?h" using assms by (metis net_base_def valid_net_def)
  have "fst n < 4294967296" using assms by (simp add: valid_net_def valid_ip_def)
  then have "j * ?h < k * ?h" by (metis j k mult.commute)
  then have "Suc j \<le> k" by simp
  then have "Suc j * ?h \<le> k * ?h" by (rule mult_le_mono1)
  then show ?thesis using k j by (simp add: mult.commute)
qed

lemma broadcast_valid: "valid_net n \<Longrightarrow> valid_ip (broadcast n)"
  using net_end_le [of n] hosts_size_pos [of "snd n"]
  unfolding broadcast_def valid_ip_def by linarith

lemma fst_le_broadcast: "fst n \<le> broadcast n"
  using hosts_size_pos [of "snd n"] unfolding broadcast_def by linarith

lemma net_disjoint_intervals:
  "valid_net n \<Longrightarrow> valid_net m \<Longrightarrow> overlaps n m \<longleftrightarrow> fst n \<le> broadcast m \<and> fst m \<le> broadcast n"
  using fst_le_broadcast [of n] fst_le_broadcast [of m]
  by (simp add: overlaps_def in_net_interval) linarith

theorem overlaps_iff_common:
  "valid_net n \<Longrightarrow> valid_net m \<Longrightarrow> overlaps n m \<longleftrightarrow> (\<exists>a. in_net a n \<and> in_net a m)"
proof -
  assume v: "valid_net n" "valid_net m"
  have "in_net (max (fst n) (fst m)) n \<and> in_net (max (fst n) (fst m)) m" if "overlaps n m"
    using that v fst_le_broadcast [of n] fst_le_broadcast [of m]
    by (simp add: net_disjoint_intervals in_net_interval)
  moreover have "overlaps n m" if "in_net a n" "in_net a m" for a
    using that v by (simp add: net_disjoint_intervals in_net_interval)
  ultimately show ?thesis by blast
qed

lemma subnets_valid:
  assumes "valid_net n" "snd n \<le> p" "p \<le> 32" "m \<in> set (subnets n p)"
  shows "valid_net m \<and> snd m = p \<and> in_net (fst m) n \<and> in_net (broadcast m) n"
proof -
  let ?H = "hosts_size (snd n)" and ?h = "hosts_size p"
  have dvd: "?h dvd ?H" using assms(2) by (auto simp: hosts_size_def intro: le_imp_power_dvd)
  from assms(4) obtain k where k: "k < ?H div ?h" and m: "m = (fst n + k * ?h, p)"
    by (auto simp: subnets_def)
  obtain j where j: "fst n = j * ?H" using assms(1) by (metis net_base_def valid_net_def)
  then obtain i where i: "fst n = i * ?h" using dvd by (metis dvdE mult.assoc mult.commute)
  have "Suc k * ?h \<le> ?H div ?h * ?h" using k by (intro mult_le_mono1) simp
  then have le: "k * ?h + ?h \<le> ?H" using dvd by simp
  have b: "fst m + ?h \<le> fst n + ?H" using le m by simp
  have "net_base p (fst m) = fst m"
    using m i by (simp add: net_base_def add_mult_distrib [symmetric])
  moreover have "valid_ip (fst m)"
    using b net_end_le [OF assms(1)] hosts_size_pos [of p] unfolding valid_ip_def by linarith
  ultimately have v: "valid_net m" using m assms(3) by (simp add: valid_net_def)
  have fm: "fst m = fst n + k * ?h" and sm: "snd m = p" using m by simp_all
  have "in_net (fst m) n" "in_net (broadcast m) n"
    unfolding in_net_interval [OF assms(1)] broadcast_def fm sm
    using le hosts_size_pos [of p] by linarith+
  with v m show ?thesis by simp
qed

end
