(* ===== verification/Priv_Helper.thy ===== *)
theory Priv_Helper
  imports Trace_Monad Iface_Names Ipv4 Py_Json
begin

text \<open>
  The privileged network helper (\<open>deploy/nova-ve-net.py\<close>), the one program the backend runs as
  root. A verb's handler is a computation that may be refused (\<open>ValidationError\<close>, exit status 2)
  and appends to the trace of the actions it performs on the host: child processes, signals and
  file writes. What the host answers is a \<open>world\<close>: the pid registry, \<open>/proc\<close>, and for every
  action the outcome it has after the actions before it.

  \<open>emits P m\<close> says that every action \<open>m\<close> performs satisfies \<open>P\<close>, \<open>quiet m\<close> that \<open>m\<close> has
  performed nothing when it is refused. Both are proved verb by verb from the same rules.
\<close>

section \<open>The host and the actions\<close>

datatype helper_exc = ValidationError string | Uncaught

datatype action =
    Run "string list"
  | Capture "string list"
  | WriteFile string string
  | MkDirs string
  | Unlink string
  | Kill int nat
  | KillPg int nat
  | Spawn "string list"
  | Print string

datatype child = BinaryMissing | Exited int string

datatype pids_file = PidsMissing | PidsUnreadable | PidsCorrupt | PidsJson json

datatype proc_read = ProcGone | ProcDenied | ProcError | ProcBytes string

datatype kill_result = KillDone | KillNoProcess | KillRefused

record world =
  ip_bin :: string
  nsenter_bin :: string
  nft_bin :: string
  dnsmasq_bin :: string
  proxy_bin :: string
  proxy_executable :: bool
  runtime_root :: string
  ip_forward_path :: string
  pids_json :: pids_file
  proc_text :: "int \<Rightarrow> string \<Rightarrow> string"
  proc_cmdline :: "int \<Rightarrow> proc_read"
  child_of :: "action list \<Rightarrow> string list \<Rightarrow> child"
  kill_of :: "action list \<Rightarrow> int \<Rightarrow> kill_result"
  write_ok :: "action list \<Rightarrow> string \<Rightarrow> bool"
  read_of :: "action list \<Rightarrow> string \<Rightarrow> string option"
  spawn_line :: "action list \<Rightarrow> string"

section \<open>Computations\<close>

type_synonym 'a cmd = "(action, helper_exc, 'a) traced"

definition run :: "world \<Rightarrow> string list \<Rightarrow> int cmd" where
  "run w argv tr =
     (Inr (case child_of w tr argv of BinaryMissing \<Rightarrow> 1 | Exited rc out \<Rightarrow> rc), tr @ [Run argv])"

definition run_capture :: "world \<Rightarrow> string list \<Rightarrow> (int \<times> string) cmd" where
  "run_capture w argv tr =
     (case child_of w tr argv of
        BinaryMissing \<Rightarrow> (Inl Uncaught, tr @ [Capture argv])
      | Exited rc out \<Rightarrow> (Inr (rc, out), tr @ [Capture argv]))"

definition ip_cmd :: "world \<Rightarrow> string list \<Rightarrow> int cmd" where
  "ip_cmd w args = run w (ip_bin w # args)"

definition nft_cmd :: "world \<Rightarrow> string list \<Rightarrow> int cmd" where
  "nft_cmd w args = run w (nft_bin w # args)"

definition nft_quiet :: "world \<Rightarrow> string list \<Rightarrow> int cmd" where
  "nft_quiet w args = andthen (run_capture w (nft_bin w # args)) (\<lambda>(rc, out). ret rc)"

definition nsenter_ip_netns :: "world \<Rightarrow> int \<Rightarrow> string list \<Rightarrow> int cmd" where
  "nsenter_ip_netns w pid args =
     run w ([nsenter_bin w, ''-t'', dec_int pid, ''-n'', ip_bin w] @ args)"

definition nsenter_cat_address :: "world \<Rightarrow> int \<Rightarrow> string \<Rightarrow> int cmd" where
  "nsenter_cat_address w pid iface =
     run w [nsenter_bin w, ''-t'', dec_int pid, ''-n'', ''cat'',
       ''/sys/class/net/'' @ iface @ ''/address'']"

section \<open>Validators\<close>

definition NETNS_SHAPE :: "rx_atom list" where
  "NETNS_SHAPE = rx_lit ''eth'' @ [Rx is_digit 1 (Some 2)]"

definition PID_SHAPE :: "rx_atom list" where
  "PID_SHAPE = [Rx is_digit 1 (Some 7)]"

definition PORT_SHAPE :: "rx_atom list" where
  "PORT_SHAPE = [Rx is_digit 1 (Some 5)]"

definition HOST_IFACE_SHAPE :: "rx_atom list" where
  "HOST_IFACE_SHAPE =
     [Rx (\<lambda>c. is_alpha c \<or> is_digit c \<or> c \<in> set ''_.:-'') 1 (Some 15)]"

definition check_regex :: "string \<Rightarrow> rx_atom list \<Rightarrow> string \<Rightarrow> helper_exc + string" where
  "check_regex v shape label =
     (if rx_dollar shape v then Inr v else Inl (ValidationError label))"

definition validate_bridge_name :: "string \<Rightarrow> helper_exc + string" where
  "validate_bridge_name v = check_regex v BRIDGE_SHAPE ''bridge_name''"

definition validate_host_bridge_name :: "string \<Rightarrow> helper_exc + string" where
  "validate_host_bridge_name v = check_regex v HOST_BRIDGE_SHAPE ''host_bridge_name''"

definition validate_tap_name :: "string \<Rightarrow> helper_exc + string" where
  "validate_tap_name v = check_regex v TAP_SHAPE ''tap_name''"

definition validate_veth_name :: "string \<Rightarrow> string \<Rightarrow> helper_exc + string" where
  "validate_veth_name v label = check_regex v VETH_SHAPE label"

definition validate_iface_name :: "string \<Rightarrow> string \<Rightarrow> helper_exc + string" where
  "validate_iface_name v label =
     (if rx_dollar TAP_SHAPE v \<or> rx_dollar VETH_SHAPE v \<or> rx_dollar BRIDGE_SHAPE v
      then Inr v else Inl (ValidationError label))"

definition validate_netns_iface :: "string \<Rightarrow> helper_exc + string" where
  "validate_netns_iface v = check_regex v NETNS_SHAPE ''netns_iface''"

definition validate_host_iface :: "string \<Rightarrow> helper_exc + string" where
  "validate_host_iface v = check_regex v HOST_IFACE_SHAPE ''host_iface''"

definition validate_pid_shape :: "string \<Rightarrow> helper_exc + int" where
  "validate_pid_shape v =
     (if \<not> rx_dollar PID_SHAPE v then Inl (ValidationError ''pid'')
      else (let pid = int (undec (strip v)) in
            if pid < 10 \<or> pid = 1 then Inl (ValidationError ''pid'') else Inr pid))"

definition validate_cidr :: "string \<Rightarrow> helper_exc + string" where
  "validate_cidr v =
     (case parse_iface v of
        None \<Rightarrow> Inl (ValidationError ''cidr'')
      | Some (a, p) \<Rightarrow>
          if CHR ''/'' \<notin> set v then Inl (ValidationError ''cidr'')
          else if 32 < p then Inl (ValidationError ''cidr'')
          else Inr (str_ip a @ ''/'' @ dec p))"

definition validate_network_cidr :: "string \<Rightarrow> helper_exc + string" where
  "validate_network_cidr v =
     (case parse_net v of
        None \<Rightarrow> Inl (ValidationError ''network_cidr'')
      | Some n \<Rightarrow> Inr (str_net n))"

definition validate_ipv4 :: "string \<Rightarrow> string \<Rightarrow> helper_exc + string" where
  "validate_ipv4 v label =
     (case parse_ip v of None \<Rightarrow> Inl (ValidationError label) | Some a \<Rightarrow> Inr (str_ip a))"

definition validate_port :: "string \<Rightarrow> string \<Rightarrow> helper_exc + int" where
  "validate_port v label =
     (if \<not> rx_full PORT_SHAPE v then Inl (ValidationError label)
      else (let port = int (undec v) in
            if \<not> (1 \<le> port \<and> port \<le> 65535) then Inl (ValidationError label) else Inr port))"

section \<open>Pid ownership\<close>

fun is_int :: "json \<Rightarrow> bool" where
  \<comment> \<open>\<open>isinstance(v, int)\<close>: booleans are integers\<close>
  "is_int (JInt _) = True"
| "is_int (JBool _) = True"
| "is_int _ = False"

definition load_pid_registry :: "world \<Rightarrow> json list" where
  "load_pid_registry w =
     (case pids_json w of
        PidsJson (JList es) \<Rightarrow> filter (\<lambda>e. is_obj e \<and> is_int (jget0 e ''pid'')) es
      | _ \<Rightarrow> [])"

definition registry_lookup :: "world \<Rightarrow> int \<Rightarrow> json option" where
  "registry_lookup w pid =
     List.find (\<lambda>e. py_eq (jget0 e ''pid'') (JInt pid)) (load_pid_registry w)"

definition CGROUP_SHAPES :: "rx_atom list list" where
  "CGROUP_SHAPES =
     [rx_lit ''docker'' @ [Rx (\<lambda>c. c \<in> set ''/-'') 1 (Some 1), Rx is_hex 12 None],
      rx_lit ''crio'' @ [Rx (\<lambda>c. c \<in> set ''/-'') 1 (Some 1), Rx is_hex 12 None],
      rx_lit ''docker-'' @ [Rx is_hex 12 None] @ rx_lit ''.scope'',
      rx_lit ''containerd-'' @ [Rx is_hex 12 None] @ rx_lit ''.scope'']"

definition COMM_QEMU_SHAPE :: "rx_atom list" where
  "COMM_QEMU_SHAPE = rx_lit ''qemu-system-'' @ [Rx (\<lambda>c. c \<noteq> newline) 1 None]"

definition SAFE_LAB_ID_SHAPE :: "rx_atom list" where
  "SAFE_LAB_ID_SHAPE = [Rx (\<lambda>c. is_alpha c \<or> is_digit c \<or> c \<in> set ''_.-'') 1 (Some 128)]"

definition cgroup_or_comm_matches :: "world \<Rightarrow> int \<Rightarrow> bool" where
  "cgroup_or_comm_matches w pid =
     (list_ex (\<lambda>shape. rx_search shape (proc_text w pid ''cgroup'')) CGROUP_SHAPES \<or>
      (let comm = strip (proc_text w pid ''comm'') in comm \<noteq> [] \<and> rx_dollar COMM_QEMU_SHAPE comm))"

definition read_proc_cmdline :: "world \<Rightarrow> int \<Rightarrow> string list" where
  "read_proc_cmdline w pid =
     (case proc_cmdline w pid of
        ProcBytes raw \<Rightarrow> filter (\<lambda>p. p \<noteq> []) (split_on (CHR 0x00) raw)
      | _ \<Rightarrow> [])"

definition qemu_qmp_path_for_entry :: "world \<Rightarrow> json \<Rightarrow> string option" where
  "qemu_qmp_path_for_entry w e =
     (let lab_id = strip (py_str (jor (jget0 e ''lab_id'') (JStr []))) in
      if \<not> rx_dollar SAFE_LAB_ID_SHAPE lab_id then None
      else (case py_int (jget0 e ''node_id'') of
              Inl _ \<Rightarrow> None
            | Inr n \<Rightarrow>
                if n \<le> 0 then None
                else Some (posix_path (runtime_root w @ ''/tmp/'' @ lab_id @ ''/'' @ dec_int n
                       @ ''/qmp.sock''))))"

definition path_name :: "string \<Rightarrow> string" where
  \<comment> \<open>\<open>Path(s).name\<close>\<close>
  "path_name s = (if posix_parts s = [] then [] else last (posix_parts s))"

definition qemu_cmdline_matches_registry_entry :: "world \<Rightarrow> int \<Rightarrow> json \<Rightarrow> bool" where
  "qemu_cmdline_matches_registry_entry w pid e =
     (let argv = read_proc_cmdline w pid in
      argv \<noteq> [] \<and> starts_with ''qemu-system-'' (path_name (hd argv)) \<and>
      (case qemu_qmp_path_for_entry w e of
         None \<Rightarrow> False
       | Some p \<Rightarrow>
           list_ex (\<lambda>i. argv ! i = ''-qmp'' \<and> starts_with (''unix:'' @ p @ '','') (argv ! Suc i))
             [0 ..< length argv - 1]))"

definition authorize_pid_entry :: "world \<Rightarrow> string \<Rightarrow> helper_exc + (int \<times> json)" where
  "authorize_pid_entry w v =
     bindr (validate_pid_shape v) (\<lambda>pid.
       case registry_lookup w pid of
         None \<Rightarrow> Inl (ValidationError ''pid_not_in_registry'')
       | Some e \<Rightarrow>
           if \<not> cgroup_or_comm_matches w pid then Inl (ValidationError ''pid_cgroup_mismatch'')
           else Inr (pid, e))"

definition authorize_pid :: "world \<Rightarrow> string \<Rightarrow> helper_exc + int" where
  "authorize_pid w v = bindr (authorize_pid_entry w v) (\<lambda>(pid, e). Inr pid)"

section \<open>Link, bridge and namespace verbs\<close>

definition cmd_bridge_add :: "world \<Rightarrow> string \<Rightarrow> int cmd" where
  "cmd_bridge_add w name = andthen (lift (validate_bridge_name name))
     (\<lambda>n. ip_cmd w [''link'', ''add'', n, ''type'', ''bridge''])"

definition cmd_bridge_del :: "world \<Rightarrow> string \<Rightarrow> int cmd" where
  "cmd_bridge_del w name = andthen (lift (validate_bridge_name name))
     (\<lambda>n. ip_cmd w [''link'', ''del'', n])"

definition cmd_tap_add :: "world \<Rightarrow> string \<Rightarrow> int cmd" where
  "cmd_tap_add w name = andthen (lift (validate_tap_name name))
     (\<lambda>n. ip_cmd w [''tuntap'', ''add'', ''dev'', n, ''mode'', ''tap''])"

definition cmd_tap_del :: "world \<Rightarrow> string \<Rightarrow> int cmd" where
  "cmd_tap_del w name = andthen (lift (validate_tap_name name))
     (\<lambda>n. ip_cmd w [''link'', ''del'', n])"

definition cmd_link_del :: "world \<Rightarrow> string \<Rightarrow> int cmd" where
  "cmd_link_del w name = andthen (lift (validate_iface_name name ''iface_name''))
     (\<lambda>n. ip_cmd w [''link'', ''del'', n])"

definition cmd_veth_pair_add :: "world \<Rightarrow> string \<Rightarrow> string \<Rightarrow> int cmd" where
  "cmd_veth_pair_add w hostend peerend =
     andthen (lift (validate_veth_name hostend ''hostend'')) (\<lambda>h.
     andthen (lift (validate_veth_name peerend ''peerend'')) (\<lambda>p.
       if h = p then raise (ValidationError ''hostend==peerend'')
       else ip_cmd w [''link'', ''add'', h, ''type'', ''veth'', ''peer'', ''name'', p]))"

definition cmd_link_master :: "world \<Rightarrow> string \<Rightarrow> string \<Rightarrow> int cmd" where
  "cmd_link_master w iface bridge =
     andthen (lift (validate_iface_name iface ''iface_name'')) (\<lambda>i.
     andthen (lift (validate_bridge_name bridge)) (\<lambda>b.
       ip_cmd w [''link'', ''set'', i, ''master'', b]))"

definition cmd_link_master_host :: "world \<Rightarrow> string \<Rightarrow> string \<Rightarrow> int cmd" where
  "cmd_link_master_host w iface bridge =
     andthen (lift (validate_iface_name iface ''iface_name'')) (\<lambda>i.
     andthen (lift (validate_host_bridge_name bridge)) (\<lambda>b.
       ip_cmd w [''link'', ''set'', i, ''master'', b]))"

definition cmd_link_set_nomaster :: "world \<Rightarrow> string \<Rightarrow> int cmd" where
  "cmd_link_set_nomaster w iface = andthen (lift (validate_iface_name iface ''iface_name''))
     (\<lambda>i. ip_cmd w [''link'', ''set'', i, ''nomaster''])"

definition cmd_link_netns :: "world \<Rightarrow> string \<Rightarrow> string \<Rightarrow> int cmd" where
  "cmd_link_netns w iface pid =
     andthen (lift (validate_iface_name iface ''iface_name'')) (\<lambda>i.
     andthen (lift (authorize_pid w pid)) (\<lambda>p.
       ip_cmd w [''link'', ''set'', i, ''netns'', dec_int p]))"

definition cmd_link_up :: "world \<Rightarrow> string \<Rightarrow> int cmd" where
  "cmd_link_up w iface = andthen (lift (validate_iface_name iface ''iface_name''))
     (\<lambda>i. ip_cmd w [''link'', ''set'', i, ''up''])"

definition cmd_bridge_addr_add :: "world \<Rightarrow> string \<Rightarrow> string \<Rightarrow> int cmd" where
  "cmd_bridge_addr_add w bridge cidr =
     andthen (lift (validate_bridge_name bridge)) (\<lambda>b.
     andthen (lift (validate_cidr cidr)) (\<lambda>c.
       ip_cmd w [''addr'', ''replace'', c, ''dev'', b]))"

definition cmd_link_set_name_in_netns :: "world \<Rightarrow> string \<Rightarrow> string \<Rightarrow> string \<Rightarrow> int cmd" where
  "cmd_link_set_name_in_netns w pid oldname newname =
     andthen (lift (authorize_pid w pid)) (\<lambda>p.
     andthen (lift (validate_iface_name oldname ''oldname'')) (\<lambda>old.
     andthen (lift (validate_netns_iface newname)) (\<lambda>new.
       nsenter_ip_netns w p [''link'', ''set'', old, ''name'', new])))"

definition cmd_addr_add_in_netns :: "world \<Rightarrow> string \<Rightarrow> string \<Rightarrow> string \<Rightarrow> int cmd" where
  "cmd_addr_add_in_netns w pid iface cidr =
     andthen (lift (authorize_pid w pid)) (\<lambda>p.
     andthen (lift (validate_netns_iface iface)) (\<lambda>i.
     andthen (lift (validate_cidr cidr)) (\<lambda>c.
       nsenter_ip_netns w p [''addr'', ''add'', c, ''dev'', i])))"

definition cmd_addr_up_in_netns :: "world \<Rightarrow> string \<Rightarrow> string \<Rightarrow> int cmd" where
  "cmd_addr_up_in_netns w pid iface =
     andthen (lift (authorize_pid w pid)) (\<lambda>p.
     andthen (lift (validate_netns_iface iface)) (\<lambda>i.
       nsenter_ip_netns w p [''link'', ''set'', i, ''up'']))"

definition cmd_read_iface_mac :: "world \<Rightarrow> string \<Rightarrow> string \<Rightarrow> int cmd" where
  "cmd_read_iface_mac w pid iface =
     andthen (lift (authorize_pid w pid)) (\<lambda>p.
     andthen (lift (validate_netns_iface iface)) (\<lambda>i. nsenter_cat_address w p i))"

section \<open>Host routing and firewall verbs\<close>

definition cmd_default_egress :: "world \<Rightarrow> int cmd" where
  "cmd_default_egress w =
     andthen (run_capture w [ip_bin w, ''route'', ''show'', ''default'']) (\<lambda>(rc, out).
       if rc \<noteq> 0 then ret rc
       else (case List.find (\<lambda>ws. ws \<noteq> [] \<and> hd ws = ''default'' \<and> ''dev'' \<in> set ws)
                    (map words (splitlines out)) of
               None \<Rightarrow> ret 1
             | Some ws \<Rightarrow>
                 (case tl (dropWhile (\<lambda>x. x \<noteq> ''dev'') ws) of
                    [] \<Rightarrow> raise Uncaught
                  | iface # _ \<Rightarrow>
                      andthen (lift (validate_host_iface iface)) (\<lambda>i.
                      andthen (act (Print i)) (\<lambda>_. ret 0)))))"

definition cmd_ipv4_forward_enable :: "world \<Rightarrow> int cmd" where
  "cmd_ipv4_forward_enable w =
     andthen (ask (\<lambda>tr. write_ok w tr (ip_forward_path w))) (\<lambda>ok.
       if ok then andthen (act (WriteFile (ip_forward_path w) [CHR ''1'', newline])) (\<lambda>_. ret 0)
       else ret 1)"

definition nat_chain_name :: "string \<Rightarrow> string" where
  "nat_chain_name bridge = ''nvc_'' @ bridge"

definition forward_chain_name :: "string \<Rightarrow> string" where
  "forward_chain_name bridge = ''nvf_'' @ bridge"

definition docker_user_chain_exists :: "world \<Rightarrow> bool cmd" where
  "docker_user_chain_exists w =
     andthen (nft_quiet w [''list'', ''chain'', ''ip'', ''filter'', ''DOCKER-USER''])
       (\<lambda>rc. ret (rc = 0))"

definition quoted :: "string \<Rightarrow> string" where
  "quoted s = [CHR 0x22] @ s @ [CHR 0x22]"

definition forward_rule_comments :: "string \<Rightarrow> string list" where
  "forward_rule_comments bridge =
     [''nova-ve '' @ bridge @ '' forward-out'', ''nova-ve '' @ bridge @ '' forward-in'']"

definition forward_rule_specs :: "string \<Rightarrow> string \<Rightarrow> string \<Rightarrow> string list list" where
  "forward_rule_specs bridge cidr egress =
     [[''iifname'', bridge, ''oifname'', egress, ''ip'', ''saddr'', cidr, ''accept'', ''comment'',
       quoted (''nova-ve '' @ bridge @ '' forward-out'')],
      [''iifname'', egress, ''oifname'', bridge, ''ip'', ''daddr'', cidr, ''ct'', ''state'',
       ''established,related'', ''accept'', ''comment'',
       quoted (''nova-ve '' @ bridge @ '' forward-in'')]]"

fun rule_handle :: "string \<Rightarrow> string option" where
  \<comment> \<open>\<open>re.search(r"# handle ([0-9]+)\s*$", line)\<close>\<close>
  "rule_handle [] = None"
| "rule_handle (c # s) =
     (if starts_with ''# handle '' (c # s) then
        (let t = drop 9 (c # s); ds = takeWhile is_digit t in
         if ds \<noteq> [] \<and> list_all is_space (dropWhile is_digit t) then Some ds else rule_handle s)
      else rule_handle s)"

definition comment_handles :: "string list \<Rightarrow> string \<Rightarrow> string list" where
  "comment_handles comments out =
     List.map_filter (\<lambda>line.
       if list_ex (\<lambda>c. contains (''comment '' @ quoted c) line) comments
       then rule_handle line else None) (splitlines out)"

fun nft_delete_handles :: "world \<Rightarrow> string list \<Rightarrow> string list \<Rightarrow> int cmd" where
  "nft_delete_handles w chain [] = ret 0"
| "nft_delete_handles w chain (h # hs) =
     andthen (nft_cmd w ([''delete'', ''rule''] @ chain @ [''handle'', h])) (\<lambda>rc.
       if rc \<noteq> 0 then ret rc else nft_delete_handles w chain hs)"

definition nft_delete_rules_by_comment :: "world \<Rightarrow> string list \<Rightarrow> string list \<Rightarrow> int cmd" where
  "nft_delete_rules_by_comment w chain comments =
     andthen (run_capture w ([nft_bin w, ''-a'', ''list'', ''chain''] @ chain)) (\<lambda>(rc, out).
       if rc \<noteq> 0 then ret rc else nft_delete_handles w chain (comment_handles comments out))"

definition DOCKER_USER :: "string list" where
  "DOCKER_USER = [''ip'', ''filter'', ''DOCKER-USER'']"

definition cmd_nat_apply :: "world \<Rightarrow> string \<Rightarrow> string \<Rightarrow> string \<Rightarrow> int cmd" where
  "cmd_nat_apply w bridge cidr egress_iface =
     andthen (lift (validate_bridge_name bridge)) (\<lambda>b.
     andthen (lift (validate_network_cidr cidr)) (\<lambda>c.
     andthen (lift (validate_host_iface egress_iface)) (\<lambda>e.
     andthen (nft_quiet w [''add'', ''table'', ''ip'', ''nova_ve'']) (\<lambda>_.
     andthen (nft_quiet w [''flush'', ''chain'', ''ip'', ''nova_ve'', nat_chain_name b]) (\<lambda>_.
     andthen (nft_quiet w [''delete'', ''chain'', ''ip'', ''nova_ve'', nat_chain_name b]) (\<lambda>_.
     andthen (nft_cmd w [''add'', ''chain'', ''ip'', ''nova_ve'', nat_chain_name b,
        ''{ type nat hook postrouting priority srcnat; policy accept; }'']) (\<lambda>rc.
       if rc \<noteq> 0 then ret rc
       else nft_cmd w [''add'', ''rule'', ''ip'', ''nova_ve'', nat_chain_name b, ''ip'', ''saddr'', c,
         ''oifname'', e, ''masquerade'', ''comment'', quoted (''nova-ve '' @ b)])))))))"

definition cmd_nat_remove :: "world \<Rightarrow> string \<Rightarrow> int cmd" where
  "cmd_nat_remove w bridge =
     andthen (lift (validate_bridge_name bridge)) (\<lambda>b.
     andthen (nft_quiet w [''flush'', ''chain'', ''ip'', ''nova_ve'', nat_chain_name b]) (\<lambda>_.
     andthen (nft_quiet w [''delete'', ''chain'', ''ip'', ''nova_ve'', nat_chain_name b]) (\<lambda>_.
       ret 0)))"

fun nft_each :: "world \<Rightarrow> string list \<Rightarrow> string list list \<Rightarrow> int cmd" where
  \<comment> \<open>the loops \<open>for spec in specs: rc = _nft(...); if rc != 0: return rc\<close>\<close>
  "nft_each w prefix [] = ret 0"
| "nft_each w prefix (s # ss) =
     andthen (nft_cmd w (prefix @ s)) (\<lambda>rc. if rc \<noteq> 0 then ret rc else nft_each w prefix ss)"

definition forward_apply_docker :: "world \<Rightarrow> string \<Rightarrow> string list list \<Rightarrow> int cmd" where
  "forward_apply_docker w b specs =
     andthen (nft_delete_rules_by_comment w DOCKER_USER (forward_rule_comments b)) (\<lambda>rc.
       if rc \<noteq> 0 then ret rc
       else nft_each w ([''insert'', ''rule''] @ DOCKER_USER) (rev specs))"

definition forward_apply_own :: "world \<Rightarrow> string \<Rightarrow> string list list \<Rightarrow> int cmd" where
  "forward_apply_own w b specs =
     (let chain = forward_chain_name b in
     andthen (nft_quiet w [''add'', ''table'', ''ip'', ''nova_ve_filter'']) (\<lambda>_.
     andthen (nft_quiet w [''flush'', ''chain'', ''ip'', ''nova_ve_filter'', chain]) (\<lambda>_.
     andthen (nft_quiet w [''delete'', ''chain'', ''ip'', ''nova_ve_filter'', chain]) (\<lambda>_.
     andthen (nft_cmd w [''add'', ''chain'', ''ip'', ''nova_ve_filter'', chain,
        ''{ type filter hook forward priority filter; policy accept; }'']) (\<lambda>rc.
       if rc \<noteq> 0 then ret rc
       else nft_each w [''add'', ''rule'', ''ip'', ''nova_ve_filter'', chain] specs)))))"

definition cmd_forward_apply :: "world \<Rightarrow> string \<Rightarrow> string \<Rightarrow> string \<Rightarrow> int cmd" where
  "cmd_forward_apply w bridge cidr egress_iface =
     andthen (lift (validate_bridge_name bridge)) (\<lambda>b.
     andthen (lift (validate_network_cidr cidr)) (\<lambda>c.
     andthen (lift (validate_host_iface egress_iface)) (\<lambda>e.
     andthen (docker_user_chain_exists w) (\<lambda>docker.
       if docker then forward_apply_docker w b (forward_rule_specs b c e)
       else forward_apply_own w b (forward_rule_specs b c e)))))"

definition forward_remove_chain :: "world \<Rightarrow> string \<Rightarrow> int cmd" where
  "forward_remove_chain w b =
     andthen (nft_quiet w [''flush'', ''chain'', ''ip'', ''nova_ve_filter'', forward_chain_name b]) (\<lambda>_.
     andthen (nft_quiet w [''delete'', ''chain'', ''ip'', ''nova_ve_filter'', forward_chain_name b]) (\<lambda>_.
       ret 0))"

definition cmd_forward_remove :: "world \<Rightarrow> string \<Rightarrow> string option \<Rightarrow> string option \<Rightarrow> int cmd" where
  "cmd_forward_remove w bridge cidr egress_iface =
     andthen (lift (validate_bridge_name bridge)) (\<lambda>b.
     andthen (lift (case (cidr, egress_iface) of
         (Some c, Some e) \<Rightarrow>
           if c \<noteq> [] \<and> e \<noteq> []
           then bindr (validate_network_cidr c) (\<lambda>_. bindr (validate_host_iface e) (\<lambda>_. Inr ()))
           else Inr ()
       | _ \<Rightarrow> Inr ())) (\<lambda>_.
     andthen (docker_user_chain_exists w) (\<lambda>docker.
     andthen (if docker then nft_delete_rules_by_comment w DOCKER_USER (forward_rule_comments b)
              else ret 0) (\<lambda>rc.
       if rc \<noteq> 0 then ret rc else forward_remove_chain w b))))"

section \<open>DHCP\<close>

definition os_kill :: "world \<Rightarrow> int \<Rightarrow> nat \<Rightarrow> bool cmd" where
  \<comment> \<open>\<open>os.kill\<close>: false for \<open>ProcessLookupError\<close>\<close>
  "os_kill w pid sig =
     andthen (ask (\<lambda>tr. kill_of w tr pid)) (\<lambda>k.
     andthen (act (Kill pid sig)) (\<lambda>_.
       case k of KillDone \<Rightarrow> ret True | KillNoProcess \<Rightarrow> ret False | KillRefused \<Rightarrow> raise Uncaught))"

definition fs_act :: "world \<Rightarrow> string \<Rightarrow> action \<Rightarrow> unit cmd" where
  \<comment> \<open>a change of the file system that may raise \<open>OSError\<close>\<close>
  "fs_act w path a =
     andthen (ask (\<lambda>tr. write_ok w tr path)) (\<lambda>ok. if ok then act a else raise Uncaught)"

definition dnsmasq_dir :: "world \<Rightarrow> string \<Rightarrow> string" where
  "dnsmasq_dir w bridge = runtime_root w @ ''/nat-cloud/'' @ bridge"

definition dnsmasq_conf :: "world \<Rightarrow> string \<Rightarrow> string" where
  "dnsmasq_conf w bridge = dnsmasq_dir w bridge @ ''/dnsmasq.conf''"

definition dnsmasq_pidfile :: "world \<Rightarrow> string \<Rightarrow> string" where
  "dnsmasq_pidfile w bridge = dnsmasq_dir w bridge @ ''/dnsmasq.pid''"

definition dnsmasq_leases :: "world \<Rightarrow> string \<Rightarrow> string" where
  "dnsmasq_leases w bridge = dnsmasq_dir w bridge @ ''/leases''"

definition dnsmasq_stop_bridge :: "world \<Rightarrow> string \<Rightarrow> unit cmd" where
  "dnsmasq_stop_bridge w bridge =
     (let pidfile = dnsmasq_pidfile w bridge in
      andthen (ask (\<lambda>tr. read_of w tr pidfile)) (\<lambda>raw.
        case Option.bind raw (\<lambda>s. int_of_str (strip s)) of
          None \<Rightarrow> ret ()
        | Some pid \<Rightarrow>
            (let cmdline = (case proc_cmdline w pid of
                              ProcBytes b \<Rightarrow> split_on (CHR 0x00) b | _ \<Rightarrow> []) in
             if cmdline \<noteq> [] \<and> \<not> list_ex (contains ''dnsmasq'') cmdline then ret ()
             else andthen (os_kill w pid 15) (\<lambda>_. fs_act w pidfile (Unlink pidfile)))))"

definition dnsmasq_config :: "world \<Rightarrow> string \<Rightarrow> string \<Rightarrow> string \<Rightarrow> string \<Rightarrow> string" where
  "dnsmasq_config w bridge gateway dhcp_start dhcp_end =
     join_on newline
       [''bind-interfaces'', ''interface='' @ bridge, ''listen-address='' @ gateway, ''port=0'',
        ''dhcp-authoritative'', ''dhcp-range='' @ dhcp_start @ '','' @ dhcp_end @ '',12h'',
        ''dhcp-option=option:router,'' @ gateway, ''dhcp-leasefile='' @ dnsmasq_leases w bridge,
        ''pid-file='' @ dnsmasq_pidfile w bridge, []]"

definition ip_num :: "string \<Rightarrow> nat" where
  \<comment> \<open>\<open>int(ipaddress.IPv4Address(s))\<close> for a validated \<open>s\<close>\<close>
  "ip_num s = (case parse_ip s of None \<Rightarrow> 0 | Some a \<Rightarrow> a)"

definition dnsmasq_launch :: "world \<Rightarrow> string \<Rightarrow> string \<Rightarrow> string \<Rightarrow> string \<Rightarrow> int cmd" where
  "dnsmasq_launch w b g ds de =
     andthen (fs_act w (dnsmasq_dir w b) (MkDirs (dnsmasq_dir w b))) (\<lambda>_.
     andthen (fs_act w (dnsmasq_conf w b) (WriteFile (dnsmasq_conf w b) (dnsmasq_config w b g ds de))) (\<lambda>_.
     andthen (run w [dnsmasq_bin w, ''--conf-file='' @ dnsmasq_conf w b]) (\<lambda>rc.
       if rc \<noteq> 0 then ret rc
       else andthen (ask (\<lambda>tr. read_of w tr (dnsmasq_pidfile w b))) (\<lambda>txt.
         let pid_text = (case txt of None \<Rightarrow> [] | Some s \<Rightarrow> strip s) in
         andthen (if pid_text \<noteq> [] then act (Print pid_text) else ret ()) (\<lambda>_. ret 0)))))"

definition cmd_dnsmasq_start :: "world \<Rightarrow> string \<Rightarrow> string \<Rightarrow> string \<Rightarrow> string \<Rightarrow> int cmd" where
  "cmd_dnsmasq_start w bridge gateway dhcp_start dhcp_end =
     andthen (lift (validate_bridge_name bridge)) (\<lambda>b.
     andthen (lift (validate_ipv4 gateway ''gateway'')) (\<lambda>g.
     andthen (lift (validate_ipv4 dhcp_start ''dhcp_start'')) (\<lambda>ds.
     andthen (lift (validate_ipv4 dhcp_end ''dhcp_end'')) (\<lambda>de.
       if ip_num de < ip_num ds then raise (ValidationError ''dhcp_start>dhcp_end'')
       else andthen (dnsmasq_stop_bridge w b) (\<lambda>_. dnsmasq_launch w b g ds de)))))"

definition cmd_dnsmasq_stop :: "world \<Rightarrow> string \<Rightarrow> int cmd" where
  "cmd_dnsmasq_stop w bridge =
     andthen (lift (validate_bridge_name bridge)) (\<lambda>b.
     andthen (dnsmasq_stop_bridge w b) (\<lambda>_. ret 0))"

section \<open>Console proxies and QEMU signals\<close>

definition cmd_console_proxy_start :: "world \<Rightarrow> string \<Rightarrow> string \<Rightarrow> string \<Rightarrow> int cmd" where
  "cmd_console_proxy_start w pid listen_port target_port =
     andthen (lift (if strip pid = ''0'' then Inr 0 else authorize_pid w pid)) (\<lambda>target_pid.
     andthen (lift (validate_port listen_port ''listen_port'')) (\<lambda>lp.
     andthen (lift (validate_port target_port ''target_port'')) (\<lambda>tp.
       if lp < 1024 then raise (ValidationError ''listen_port must be a non-privileged port (>=1024)'')
       else if \<not> proxy_executable w then ret 1
       else andthen (act (Spawn [proxy_bin w, dec_int target_pid, dec_int lp, dec_int tp])) (\<lambda>_.
            andthen (ask (\<lambda>tr. strip (spawn_line w tr))) (\<lambda>line.
              if starts_with ''err:'' line \<or> \<not> isdigit line then ret 1
              else andthen (act (Print line)) (\<lambda>_. ret 0))))))"

fun proxy_wait :: "world \<Rightarrow> int \<Rightarrow> nat \<Rightarrow> int cmd" where
  "proxy_wait w pid 0 = andthen (os_kill w pid 9) (\<lambda>_. ret 0)"
| "proxy_wait w pid (Suc n) =
     andthen (os_kill w pid 0) (\<lambda>alive. if alive then proxy_wait w pid n else ret 0)"

definition is_console_proxy :: "string \<Rightarrow> bool" where
  "is_console_proxy raw = list_ex (contains ''nova-ve-console-proxy'') (split_on (CHR 0x00) raw)"

definition cmd_console_proxy_stop :: "world \<Rightarrow> string \<Rightarrow> int cmd" where
  "cmd_console_proxy_stop w pid_arg =
     andthen (lift (if \<not> rx_full PID_SHAPE pid_arg then Inl (ValidationError ''pid argument failed validation'')
                    else if undec pid_arg \<le> 1 then Inl (ValidationError ''pid out of range'')
                    else Inr (int (undec pid_arg)))) (\<lambda>pid.
       case proc_cmdline w pid of
         ProcGone \<Rightarrow> ret 0
       | ProcError \<Rightarrow> raise Uncaught
       | ProcDenied \<Rightarrow> ret 1
       | ProcBytes raw \<Rightarrow>
           if \<not> is_console_proxy raw then ret 1
           else andthen (os_kill w pid 15) (\<lambda>alive.
                  if alive then proxy_wait w pid 20 else ret 0))"

definition cmd_qemu_process_signal :: "world \<Rightarrow> string \<Rightarrow> string \<Rightarrow> int cmd" where
  "cmd_qemu_process_signal w pid_arg sig_name =
     andthen (lift (authorize_pid_entry w pid_arg)) (\<lambda>(pid, e).
       if \<not> py_eq (jget0 e ''kind'') (JStr ''qemu'') then raise (ValidationError ''pid_not_qemu'')
       else if \<not> qemu_cmdline_matches_registry_entry w pid e
         then raise (ValidationError ''qemu_cmdline_mismatch'')
       else if sig_name \<noteq> ''term'' \<and> sig_name \<noteq> ''kill'' then raise (ValidationError ''signal'')
       else andthen (ask (\<lambda>tr. kill_of w tr pid)) (\<lambda>k.
            andthen (act (KillPg pid (if sig_name = ''term'' then 15 else 9))) (\<lambda>_.
              if k = KillRefused then raise Uncaught else ret 0)))"

section \<open>The verb table and \<open>main\<close>\<close>

text \<open>
  \<open>VERB_TABLE\<close> holds, for every verb, the number of positional arguments its parser takes (least
  and greatest) and its handler. Option-like arguments are \<open>argparse\<close>'s business and never reach
  a handler.
\<close>

definition opt_arg :: "string list \<Rightarrow> nat \<Rightarrow> string option" where
  "opt_arg as i = (if i < length as then Some (as ! i) else None)"

definition VERB_TABLE :: "world \<Rightarrow> (string \<times> nat \<times> nat \<times> (string list \<Rightarrow> int cmd)) list" where
  "VERB_TABLE w =
     [(''bridge-add'', 1, 1, \<lambda>as. cmd_bridge_add w (as ! 0)),
      (''bridge-del'', 1, 1, \<lambda>as. cmd_bridge_del w (as ! 0)),
      (''tap-add'', 1, 1, \<lambda>as. cmd_tap_add w (as ! 0)),
      (''tap-del'', 1, 1, \<lambda>as. cmd_tap_del w (as ! 0)),
      (''link-del'', 1, 1, \<lambda>as. cmd_link_del w (as ! 0)),
      (''veth-pair-add'', 2, 2, \<lambda>as. cmd_veth_pair_add w (as ! 0) (as ! 1)),
      (''link-master'', 2, 2, \<lambda>as. cmd_link_master w (as ! 0) (as ! 1)),
      (''link-master-host'', 2, 2, \<lambda>as. cmd_link_master_host w (as ! 0) (as ! 1)),
      (''link-set-nomaster'', 1, 1, \<lambda>as. cmd_link_set_nomaster w (as ! 0)),
      (''link-netns'', 2, 2, \<lambda>as. cmd_link_netns w (as ! 0) (as ! 1)),
      (''link-up'', 1, 1, \<lambda>as. cmd_link_up w (as ! 0)),
      (''bridge-addr-add'', 2, 2, \<lambda>as. cmd_bridge_addr_add w (as ! 0) (as ! 1)),
      (''default-egress'', 0, 0, \<lambda>as. cmd_default_egress w),
      (''ipv4-forward-enable'', 0, 0, \<lambda>as. cmd_ipv4_forward_enable w),
      (''nat-apply'', 3, 3, \<lambda>as. cmd_nat_apply w (as ! 0) (as ! 1) (as ! 2)),
      (''nat-remove'', 1, 1, \<lambda>as. cmd_nat_remove w (as ! 0)),
      (''forward-apply'', 3, 3, \<lambda>as. cmd_forward_apply w (as ! 0) (as ! 1) (as ! 2)),
      (''forward-remove'', 1, 3, \<lambda>as. cmd_forward_remove w (as ! 0) (opt_arg as 1) (opt_arg as 2)),
      (''dnsmasq-start'', 4, 4, \<lambda>as. cmd_dnsmasq_start w (as ! 0) (as ! 1) (as ! 2) (as ! 3)),
      (''dnsmasq-stop'', 1, 1, \<lambda>as. cmd_dnsmasq_stop w (as ! 0)),
      (''link-set-name-in-netns'', 3, 3,
         \<lambda>as. cmd_link_set_name_in_netns w (as ! 0) (as ! 1) (as ! 2)),
      (''addr-add-in-netns'', 3, 3, \<lambda>as. cmd_addr_add_in_netns w (as ! 0) (as ! 1) (as ! 2)),
      (''addr-up-in-netns'', 2, 2, \<lambda>as. cmd_addr_up_in_netns w (as ! 0) (as ! 1)),
      (''read-iface-mac'', 2, 2, \<lambda>as. cmd_read_iface_mac w (as ! 0) (as ! 1)),
      (''console-proxy-start'', 3, 3,
         \<lambda>as. cmd_console_proxy_start w (as ! 0) (as ! 1) (as ! 2)),
      (''console-proxy-stop'', 1, 1, \<lambda>as. cmd_console_proxy_stop w (as ! 0)),
      (''qemu-process-signal'', 2, 2, \<lambda>as. cmd_qemu_process_signal w (as ! 0) (as ! 1))]"

datatype exit = ExitCode int | Crash

definition parse_args :: "world \<Rightarrow> string list \<Rightarrow> (string \<times> string list \<times> (string list \<Rightarrow> int cmd)) option" where
  \<comment> \<open>\<open>None\<close>: \<open>argparse\<close> leaves with status 2\<close>
  "parse_args w argv =
     (case argv of
        [] \<Rightarrow> None
      | verb # as \<Rightarrow>
          (case map_of (VERB_TABLE w) verb of
             None \<Rightarrow> None
           | Some (lo, hi, f) \<Rightarrow>
               if lo \<le> length as \<and> length as \<le> hi \<and>
                  (verb = ''qemu-process-signal'' \<longrightarrow> as ! 1 = ''term'' \<or> as ! 1 = ''kill'')
               then Some (verb, as, f) else None))"

definition helper_main :: "world \<Rightarrow> string list \<Rightarrow> exit \<times> action list" where
  "helper_main w argv =
     (case parse_args w argv of
        None \<Rightarrow> (ExitCode 2, [])
      | Some (verb, as, f) \<Rightarrow>
          (case f as [] of
             (Inr rc, tr) \<Rightarrow> (ExitCode rc, tr)
           | (Inl (ValidationError l), tr) \<Rightarrow> (ExitCode 2, tr)
           | (Inl Uncaught, tr) \<Rightarrow> (Crash, tr)))"

section \<open>Rules for traces\<close>

named_theorems quiet_rules \<open>refusals before any action\<close>

lemma emits_run [emits_rules]: "P (Run argv) \<Longrightarrow> emits P (run w argv)"
  by (simp add: emits_def run_def)

lemma emits_run_capture [emits_rules]: "P (Capture argv) \<Longrightarrow> emits P (run_capture w argv)"
  by (simp add: emits_def run_capture_def split: child.splits)

lemma emits_fs_act [emits_rules]: "P a \<Longrightarrow> emits P (fs_act w path a)"
  unfolding fs_act_def by (intro emits_rules)

lemma emits_ask_andthen:
  \<comment> \<open>what is read is known afterwards\<close>
  "(\<And>tr. emits P (f (g tr))) \<Longrightarrow> emits P (andthen (ask g) f)"
  by (auto simp: emits_def andthen_def ask_def)

lemma emits_capture_andthen:
  assumes "P (Capture argv)" and "\<And>tr rc out. child_of w tr argv = Exited rc out \<Longrightarrow> emits P (f (rc, out))"
  shows "emits P (andthen (run_capture w argv) f)"
  unfolding emits_def
proof
  fix tr
  show "\<exists>new. snd (andthen (run_capture w argv) f tr) = tr @ new \<and> list_all P new"
  proof (cases "child_of w tr argv")
    case BinaryMissing
    then show ?thesis using assms(1) by (simp add: andthen_def run_capture_def)
  next
    case (Exited rc out)
    from assms(2) [OF this] obtain new where "snd (f (rc, out) (tr @ [Capture argv])) = (tr @ [Capture argv]) @ new" "list_all P new"
      unfolding emits_def by blast
    then show ?thesis using assms(1) Exited
      by (auto simp: andthen_def run_capture_def intro!: exI [of _ "Capture argv # new"])
  qed
qed

definition never_refused :: "'a cmd \<Rightarrow> bool" where
  "never_refused m \<longleftrightarrow> (\<forall>tr l. fst (m tr) \<noteq> Inl (ValidationError l))"

definition quiet :: "'a cmd \<Rightarrow> bool" where
  \<comment> \<open>a refusal leaves the trace as it was\<close>
  "quiet m \<longleftrightarrow> (\<forall>tr l. fst (m tr) = Inl (ValidationError l) \<longrightarrow> snd (m tr) = tr)"

lemma never_refused_pure [quiet_rules]:
  "never_refused (ret x)" "never_refused (act a)" "never_refused (ask f)"
  "never_refused (run w argv)" "never_refused (run_capture w argv)" "never_refused (raise Uncaught)"
  by (simp_all add: never_refused_def ret_def act_def ask_def run_def run_capture_def raise_def
      split: child.splits)

lemma never_refused_andthen [quiet_rules]:
  "never_refused m \<Longrightarrow> (\<And>x. never_refused (f x)) \<Longrightarrow> never_refused (andthen m f)"
  unfolding never_refused_def andthen_def
  by (auto split: prod.splits sum.splits) (metis fst_conv)

lemma never_refused_if [quiet_rules]:
  "(b \<Longrightarrow> never_refused m) \<Longrightarrow> (\<not> b \<Longrightarrow> never_refused n) \<Longrightarrow> never_refused (if b then m else n)"
  by simp

lemma never_refused_fs_act [quiet_rules]: "never_refused (fs_act w path a)"
  unfolding fs_act_def by (intro quiet_rules)

lemma never_refused_case_prod [quiet_rules]:
  "(\<And>x y. never_refused (f x y)) \<Longrightarrow> never_refused (case p of (x, y) \<Rightarrow> f x y)"
  by (cases p) simp

lemma quiet_never: "never_refused m \<Longrightarrow> quiet m"
  by (simp add: quiet_def never_refused_def)

lemma quiet_raise [quiet_rules]: "quiet (raise e)"
  by (simp add: quiet_def raise_def)

lemma quiet_lift_andthen [quiet_rules]:
  "(\<And>x. r = Inr x \<Longrightarrow> quiet (f x)) \<Longrightarrow> quiet (andthen (lift r) f)"
  by (cases r) (auto simp: quiet_def raise_def)

lemma quiet_if [quiet_rules]: "(b \<Longrightarrow> quiet m) \<Longrightarrow> (\<not> b \<Longrightarrow> quiet n) \<Longrightarrow> quiet (if b then m else n)"
  by simp

lemma quiet_case_prod [quiet_rules]:
  "(\<And>x y. quiet (f x y)) \<Longrightarrow> quiet (case p of (x, y) \<Rightarrow> f x y)"
  by (cases p) simp

end
