(* ===== verification/Helper_Safety.thy ===== *)
theory Helper_Safety
  imports Priv_Helper
begin

text \<open>
  What the privileged helper may do to the host, stated apart from its code: \<open>policy\<close> says which
  child processes, signals, file writes and forks a verb is allowed, and every handler is shown
  to stay inside it. A second group of lemmas shows that a refused request has performed no
  action, and that the validators accept exactly the shaped names, up to one final newline.
\<close>

section \<open>The policy\<close>

definition owned :: "string \<Rightarrow> bool" where
  "owned x \<longleftrightarrow> rx_dollar TAP_SHAPE x \<or> rx_dollar VETH_SHAPE x \<or> rx_dollar BRIDGE_SHAPE x"

definition lab_bridge :: "string \<Rightarrow> bool" where
  "lab_bridge b \<longleftrightarrow> rx_dollar BRIDGE_SHAPE b"

definition named_bridge :: "string list \<Rightarrow> string \<Rightarrow> bool" where
  \<comment> \<open>a bridge of nova-ve that the request names\<close>
  "named_bridge args b \<longleftrightarrow> lab_bridge b \<and> b \<in> set args"

definition own_iface :: "string list \<Rightarrow> string \<Rightarrow> bool" where
  \<comment> \<open>an interface of nova-ve that the request names\<close>
  "own_iface args x \<longleftrightarrow> owned x \<and> x \<in> set args"

definition named_pid :: "string list \<Rightarrow> int \<Rightarrow> bool" where
  "named_pid args pid \<longleftrightarrow> (\<exists>a\<in>set args. pid = int (undec a) \<or> pid = int (undec (strip a)))"

definition authorized :: "world \<Rightarrow> string list \<Rightarrow> int \<Rightarrow> bool" where
  "authorized w args pid \<longleftrightarrow>
     named_pid args pid \<and> 10 \<le> pid \<and> cgroup_or_comm_matches w pid \<and>
     (\<exists>e\<in>set (load_pid_registry w). num_of (jget0 e ''pid'') = Some pid)"

definition authorized_qemu :: "world \<Rightarrow> string list \<Rightarrow> int \<Rightarrow> bool" where
  "authorized_qemu w args pid \<longleftrightarrow>
     authorized w args pid \<and>
     (\<exists>e\<in>set (load_pid_registry w). num_of (jget0 e ''pid'') = Some pid \<and>
        jget0 e ''kind'' = JStr ''qemu'' \<and> qemu_cmdline_matches_registry_entry w pid e)"

definition ip_policy :: "world \<Rightarrow> string \<Rightarrow> string list \<Rightarrow> string list \<Rightarrow> bool" where
  \<comment> \<open>the \<open>ip\<close> commands on the host\<close>
  "ip_policy w verb args cmd \<longleftrightarrow>
     (\<exists>b. named_bridge args b \<and> (cmd = [''link'', ''add'', b, ''type'', ''bridge''] \<or> (\<exists>c. cmd = [''addr'', ''replace'', c, ''dev'', b]))) \<or>
     (\<exists>x. own_iface args x \<and>
        (cmd = [''link'', ''del'', x] \<or> cmd = [''tuntap'', ''add'', ''dev'', x, ''mode'', ''tap''] \<or>
         cmd = [''link'', ''set'', x, ''nomaster''] \<or> cmd = [''link'', ''set'', x, ''up''] \<or>
         (\<exists>y. own_iface args y \<and> cmd = [''link'', ''add'', x, ''type'', ''veth'', ''peer'', ''name'', y]) \<or>
         (\<exists>b. b \<in> set args \<and> cmd = [''link'', ''set'', x, ''master'', b] \<and>
            (if verb = ''link-master-host'' then rx_dollar HOST_BRIDGE_SHAPE b else lab_bridge b)) \<or>
         (\<exists>pid. authorized w args pid \<and> cmd = [''link'', ''set'', x, ''netns'', dec_int pid])))"

definition netns_policy :: "world \<Rightarrow> string list \<Rightarrow> string list \<Rightarrow> bool" where
  \<comment> \<open>the commands inside the namespace of a process\<close>
  "netns_policy w args cmd \<longleftrightarrow>
     (\<exists>i. rx_dollar NETNS_SHAPE i \<and> i \<in> set args \<and>
        ((\<exists>x. own_iface args x \<and> cmd = [ip_bin w, ''link'', ''set'', x, ''name'', i]) \<or>
         (\<exists>v c. validate_cidr v = Inr c \<and> v \<in> set args \<and> cmd = [ip_bin w, ''addr'', ''add'', c, ''dev'', i]) \<or>
         cmd = [ip_bin w, ''link'', ''set'', i, ''up''] \<or>
         cmd = [''cat'', ''/sys/class/net/'' @ i @ ''/address'']))"

definition chain_rules :: "string list \<Rightarrow> string \<Rightarrow> string list list" where
  \<comment> \<open>what is done to a chain of nova-ve as a whole\<close>
  "chain_rules chain hook = [[''flush'', ''chain''] @ chain, [''delete'', ''chain''] @ chain, [''add'', ''chain''] @ chain @ [hook]]"

definition nat_hook :: string where "nat_hook = ''{ type nat hook postrouting priority srcnat; policy accept; }''"
definition forward_hook :: string where "forward_hook = ''{ type filter hook forward priority filter; policy accept; }''"

definition rule_targets :: "string list \<Rightarrow> string \<Rightarrow> string \<Rightarrow> bool" where
  \<comment> \<open>the network and the outgoing interface of a rule are the ones the request names\<close>
  "rule_targets args c e \<longleftrightarrow> (\<exists>v. v \<in> set args \<and> validate_network_cidr v = Inr c) \<and> e \<in> set args \<and> rx_dollar HOST_IFACE_SHAPE e"

definition nft_policy :: "world \<Rightarrow> string list \<Rightarrow> string list \<Rightarrow> bool" where
  \<comment> \<open>the tables and the chains of nova-ve, and rules of Docker's user chain for the bridge of the request\<close>
  "nft_policy w args cmd \<longleftrightarrow>
     cmd \<in> {[''add'', ''table'', ''ip'', ''nova_ve''], [''add'', ''table'', ''ip'', ''nova_ve_filter'']} \<or>
     (\<exists>b. named_bridge args b \<and>
        (cmd \<in> set (chain_rules [''ip'', ''nova_ve'', nat_chain_name b] nat_hook) \<or>
         cmd \<in> set (chain_rules [''ip'', ''nova_ve_filter'', forward_chain_name b] forward_hook) \<or>
         (\<exists>c e. rule_targets args c e \<and>
            (cmd = [''add'', ''rule'', ''ip'', ''nova_ve'', nat_chain_name b, ''ip'', ''saddr'', c, ''oifname'', e, ''masquerade'',
                    ''comment'', quoted (''nova-ve '' @ b)] \<or>
             (\<exists>spec\<in>set (forward_rule_specs b c e).
                cmd = [''add'', ''rule'', ''ip'', ''nova_ve_filter'', forward_chain_name b] @ spec \<or>
                cmd = [''insert'', ''rule''] @ DOCKER_USER @ spec))) \<or>
         (\<exists>tr rc out h. child_of w tr ([nft_bin w, ''-a'', ''list'', ''chain''] @ DOCKER_USER) = Exited rc out \<and>
            h \<in> set (comment_handles (forward_rule_comments b) out) \<and> cmd = [''delete'', ''rule''] @ DOCKER_USER @ [''handle'', h])))"

definition nft_query :: "string list \<Rightarrow> bool" where
  "nft_query cmd \<longleftrightarrow> cmd = [''list'', ''chain'', ''ip'', ''filter'', ''DOCKER-USER''] \<or>
     cmd = [''-a'', ''list'', ''chain''] @ DOCKER_USER"

definition dnsmasq_pid :: "world \<Rightarrow> string \<Rightarrow> int \<Rightarrow> bool" where
  \<comment> \<open>the process the pid file of a bridge names, which runs dnsmasq as far as its command line can be read\<close>
  "dnsmasq_pid w b pid \<longleftrightarrow>
     (\<exists>tr s. read_of w tr (dnsmasq_pidfile w b) = Some s \<and> int_of_str (strip s) = Some pid) \<and>
     (\<forall>raw. proc_cmdline w pid = ProcBytes raw \<longrightarrow> split_on (CHR 0x00) raw = [] \<or> list_ex (contains ''dnsmasq'') (split_on (CHR 0x00) raw))"

fun policy :: "world \<Rightarrow> string \<Rightarrow> string list \<Rightarrow> action \<Rightarrow> bool" where
  "policy w verb args (Run argv) =
     ((\<exists>cmd. argv = ip_bin w # cmd \<and> ip_policy w verb args cmd) \<or>
      (\<exists>cmd. argv = nft_bin w # cmd \<and> nft_policy w args cmd) \<or>
      (\<exists>pid cmd. argv = [nsenter_bin w, ''-t'', dec_int pid, ''-n''] @ cmd \<and> authorized w args pid \<and> netns_policy w args cmd) \<or>
      (\<exists>b. argv = [dnsmasq_bin w, ''--conf-file='' @ dnsmasq_conf w b] \<and> named_bridge args b))"
| "policy w verb args (Capture argv) =
     (argv = [ip_bin w, ''route'', ''show'', ''default''] \<or>
      (\<exists>cmd. argv = nft_bin w # cmd \<and> (nft_query cmd \<or> nft_policy w args cmd)))"
| "policy w verb args (WriteFile path content) =
     (path = ip_forward_path w \<and> content = [CHR ''1'', newline] \<or> (\<exists>b. named_bridge args b \<and> path = dnsmasq_conf w b))"
| "policy w verb args (MkDirs path) = (\<exists>b. named_bridge args b \<and> path = dnsmasq_dir w b)"
| "policy w verb args (Unlink path) = (\<exists>b. named_bridge args b \<and> path = dnsmasq_pidfile w b)"
| "policy w verb args (Kill pid sig) =
     (verb \<in> {''dnsmasq-start'', ''dnsmasq-stop''} \<and> sig = 15 \<and> (\<exists>b. named_bridge args b \<and> dnsmasq_pid w b pid) \<or>
      verb = ''console-proxy-stop'' \<and> sig \<in> {15, 9, 0} \<and> 1 < pid \<and> named_pid args pid \<and>
       (\<exists>raw. proc_cmdline w pid = ProcBytes raw \<and> is_console_proxy raw))"
| "policy w verb args (KillPg pid sig) =
     (verb = ''qemu-process-signal'' \<and> sig \<in> {15, 9} \<and> authorized_qemu w args pid)"
| "policy w verb args (Spawn argv) =
     (verb = ''console-proxy-start'' \<and> (\<exists>pid lp tp. argv = [proxy_bin w, dec_int pid, dec_int lp, dec_int tp] \<and>
        (pid = 0 \<or> authorized w args pid) \<and> 1024 \<le> lp \<and> lp \<le> 65535 \<and> 1 \<le> tp \<and> tp \<le> 65535))"
| "policy w verb args (Print s) = True"

section \<open>What the validators establish\<close>

lemma check_regex_Inr: "check_regex v sh l = Inr x \<longleftrightarrow> x = v \<and> rx_dollar sh v"
  by (auto simp: check_regex_def)

lemma validated:
  "validate_bridge_name v = Inr x \<Longrightarrow> lab_bridge x \<and> owned x"
  "validate_host_bridge_name v = Inr x \<Longrightarrow> rx_dollar HOST_BRIDGE_SHAPE x"
  "validate_tap_name v = Inr x \<Longrightarrow> owned x"
  "validate_veth_name v l = Inr x \<Longrightarrow> owned x"
  "validate_iface_name v l = Inr x \<Longrightarrow> owned x"
  by (auto simp: validate_bridge_name_def validate_host_bridge_name_def validate_tap_name_def
      validate_veth_name_def validate_iface_name_def check_regex_Inr owned_def lab_bridge_def
      split: if_splits)

lemma validated_same:
  "validate_bridge_name v = Inr x \<Longrightarrow> x = v" "validate_host_bridge_name v = Inr x \<Longrightarrow> x = v"
  "validate_tap_name v = Inr x \<Longrightarrow> x = v" "validate_veth_name v l = Inr x \<Longrightarrow> x = v" "validate_iface_name v l = Inr x \<Longrightarrow> x = v"
  by (auto simp: validate_bridge_name_def validate_host_bridge_name_def validate_tap_name_def
      validate_veth_name_def validate_iface_name_def check_regex_Inr split: if_splits)

lemma registry_lookup_Some:
  "registry_lookup w pid = Some e \<Longrightarrow>
     e \<in> set (load_pid_registry w) \<and> num_of (jget0 e ''pid'') = Some pid"
proof -
  assume h: "registry_lookup w pid = Some e"
  then have "e \<in> set (load_pid_registry w)" "py_eq (jget0 e ''pid'') (JInt pid)"
    by (auto simp: registry_lookup_def find_Some_iff)
  then show ?thesis by (cases "jget0 e ''pid''") (auto split: if_splits)
qed

lemma authorize_pid_entry_Inr:
  assumes "authorize_pid_entry w v = Inr (pid, e)" and "v \<in> set args"
  shows "authorized w args pid \<and> e \<in> set (load_pid_registry w) \<and> num_of (jget0 e ''pid'') = Some pid"
proof -
  obtain q where q: "validate_pid_shape v = Inr q"
      and r: "(case registry_lookup w q of
         None \<Rightarrow> Inl (ValidationError ''pid_not_in_registry'')
       | Some e \<Rightarrow>
           if \<not> cgroup_or_comm_matches w q then Inl (ValidationError ''pid_cgroup_mismatch'')
           else Inr (q, e)) = Inr (pid, e)"
    using assms(1) unfolding authorize_pid_entry_def bindr_eq_Inr by blast
  from r have "registry_lookup w q = Some e" "cgroup_or_comm_matches w q" "q = pid"
    by (auto split: option.splits if_splits)
  moreover from q have "10 \<le> q" "q = int (undec (strip v))"
    by (auto simp: validate_pid_shape_def Let_def split: if_splits)
  ultimately show ?thesis
    using registry_lookup_Some [of w q e] assms(2) by (auto simp: authorized_def named_pid_def)
qed

lemma authorize_pid_Inr: "authorize_pid w v = Inr pid \<Longrightarrow> v \<in> set args \<Longrightarrow> authorized w args pid"
  by (auto simp: authorize_pid_def bindr_simps dest: authorize_pid_entry_Inr)

lemma validate_port_Inr: "validate_port v l = Inr n \<Longrightarrow> 1 \<le> n \<and> n \<le> 65535"
  by (auto simp: validate_port_def Let_def split: if_splits)

section \<open>Every handler stays inside the policy\<close>

lemmas handler_defs = ip_cmd_def nft_cmd_def nft_quiet_def nsenter_ip_netns_def
  nsenter_cat_address_def os_kill_def

lemma emits_links [emits_rules]:
  assumes "n \<in> set as"
  shows "emits (policy w v as) (cmd_bridge_add w n)" "emits (policy w v as) (cmd_bridge_del w n)"
    "emits (policy w v as) (cmd_tap_add w n)" "emits (policy w v as) (cmd_tap_del w n)"
    "emits (policy w v as) (cmd_link_del w n)" "emits (policy w v as) (cmd_link_set_nomaster w n)"
    "emits (policy w v as) (cmd_link_up w n)" "emits (policy w v as) (cmd_bridge_addr_add w n c)"
    "p \<in> set as \<Longrightarrow> emits (policy w v as) (cmd_veth_pair_add w n p)"
  using assms
  unfolding cmd_bridge_add_def cmd_bridge_del_def cmd_tap_add_def cmd_tap_del_def cmd_link_del_def
    cmd_veth_pair_add_def cmd_link_set_nomaster_def cmd_link_up_def cmd_bridge_addr_add_def handler_defs
  by (intro emits_rules; auto simp: ip_policy_def own_iface_def named_bridge_def dest: validated validated_same)+

lemma emits_link_master [emits_rules]:
  assumes "i \<in> set as" and "b \<in> set as"
  shows "v \<noteq> ''link-master-host'' \<Longrightarrow> emits (policy w v as) (cmd_link_master w i b)"
    "emits (policy w ''link-master-host'' as) (cmd_link_master_host w i b)"
    "emits (policy w v as) (cmd_link_netns w i b)"
  using assms
  unfolding cmd_link_master_def cmd_link_master_host_def cmd_link_netns_def handler_defs
  by (intro emits_rules; auto simp: ip_policy_def own_iface_def dest: validated validated_same authorize_pid_Inr)+

lemma emits_netns [emits_rules]:
  assumes "p \<in> set as" and "a \<in> set as"
  shows "b \<in> set as \<Longrightarrow> emits (policy w v as) (cmd_link_set_name_in_netns w p a b)"
    "b \<in> set as \<Longrightarrow> emits (policy w v as) (cmd_addr_add_in_netns w p a b)"
    "emits (policy w v as) (cmd_addr_up_in_netns w p a)"
    "emits (policy w v as) (cmd_read_iface_mac w p a)"
  using assms
  unfolding cmd_link_set_name_in_netns_def cmd_addr_add_in_netns_def cmd_addr_up_in_netns_def
    cmd_read_iface_mac_def handler_defs
  by (intro emits_rules; auto simp: netns_policy_def own_iface_def validate_netns_iface_def check_regex_Inr
      dest: authorize_pid_Inr validated validated_same)+

lemma emits_egress [emits_rules]:
  "emits (policy w v as) (cmd_default_egress w)"
  "emits (policy w v as) (cmd_ipv4_forward_enable w)"
  unfolding cmd_default_egress_def cmd_ipv4_forward_enable_def
  by (intro emits_rules; auto intro!: emits_rules split: option.splits list.splits)+

lemma nft_policy_intros:
  "nft_policy w as [''add'', ''table'', ''ip'', ''nova_ve'']"
  "nft_policy w as [''add'', ''table'', ''ip'', ''nova_ve_filter'']"
  "named_bridge as b \<Longrightarrow> cmd \<in> set (chain_rules [''ip'', ''nova_ve'', nat_chain_name b] nat_hook) \<Longrightarrow> nft_policy w as cmd"
  "named_bridge as b \<Longrightarrow> cmd \<in> set (chain_rules [''ip'', ''nova_ve_filter'', forward_chain_name b] forward_hook) \<Longrightarrow> nft_policy w as cmd"
  "named_bridge as b \<Longrightarrow> rule_targets as c e \<Longrightarrow> nft_policy w as [''add'', ''rule'', ''ip'', ''nova_ve'', nat_chain_name b,
     ''ip'', ''saddr'', c, ''oifname'', e, ''masquerade'', ''comment'', quoted (''nova-ve '' @ b)]"
  "named_bridge as b \<Longrightarrow> rule_targets as c e \<Longrightarrow> spec \<in> set (forward_rule_specs b c e) \<Longrightarrow>
     nft_policy w as ([''add'', ''rule'', ''ip'', ''nova_ve_filter'', forward_chain_name b] @ spec)"
  "named_bridge as b \<Longrightarrow> rule_targets as c e \<Longrightarrow> spec \<in> set (forward_rule_specs b c e) \<Longrightarrow>
     nft_policy w as ([''insert'', ''rule''] @ DOCKER_USER @ spec)"
  "named_bridge as b \<Longrightarrow> child_of w tr ([nft_bin w, ''-a'', ''list'', ''chain''] @ DOCKER_USER) = Exited rc out \<Longrightarrow>
     h \<in> set (comment_handles (forward_rule_comments b) out) \<Longrightarrow> nft_policy w as ([''delete'', ''rule''] @ DOCKER_USER @ [''handle'', h])"
  unfolding nft_policy_def by blast+

lemma chain_members:
  "[''flush'', ''chain'', ''ip'', t, ch] \<in> set (chain_rules [''ip'', t, ch] hook)"
  "[''delete'', ''chain'', ''ip'', t, ch] \<in> set (chain_rules [''ip'', t, ch] hook)"
  "[''add'', ''chain'', ''ip'', t, ch, hook] \<in> set (chain_rules [''ip'', t, ch] hook)"
  by (simp_all add: chain_rules_def)

lemma emits_nft_quiet [emits_rules]:
  "nft_policy w as cmd \<or> nft_query cmd \<Longrightarrow> emits (policy w v as) (nft_quiet w cmd)"
  unfolding nft_quiet_def by (intro emits_rules) auto

lemma emits_nft_cmd [emits_rules]:
  "nft_policy w as cmd \<Longrightarrow> emits (policy w v as) (nft_cmd w cmd)"
  unfolding nft_cmd_def by (intro emits_rules) auto

lemma emits_nft_each [emits_rules]:
  "(\<And>s. s \<in> set ss \<Longrightarrow> nft_policy w as (prefix @ s)) \<Longrightarrow> emits (policy w v as) (nft_each w prefix ss)"
proof (induction ss)
  case (Cons s ss)
  then show ?case unfolding nft_each.simps by (intro emits_rules) auto
qed (auto intro: emits_rules)

lemma emits_delete_handles:
  "(\<And>h. h \<in> set hs \<Longrightarrow> nft_policy w as ([''delete'', ''rule''] @ chain @ [''handle'', h])) \<Longrightarrow>
     emits (policy w v as) (nft_delete_handles w chain hs)"
proof (induction hs)
  case (Cons h hs)
  then show ?case unfolding nft_delete_handles.simps by (intro emits_rules) auto
qed (auto intro: emits_rules)

lemma emits_delete_by_comment [emits_rules]:
  assumes "named_bridge as b"
  shows "emits (policy w v as) (nft_delete_rules_by_comment w DOCKER_USER (forward_rule_comments b))"
  unfolding nft_delete_rules_by_comment_def
proof (rule emits_capture_andthen)
  show "policy w v as (Capture ([nft_bin w, ''-a'', ''list'', ''chain''] @ DOCKER_USER))" by (simp add: nft_query_def)
next
  fix tr rc out
  assume "child_of w tr ([nft_bin w, ''-a'', ''list'', ''chain''] @ DOCKER_USER) = Exited rc out"
  from nft_policy_intros(8) [OF assms this]
  show "emits (policy w v as) (case (rc, out) of (rc, out) \<Rightarrow>
      if rc \<noteq> 0 then ret rc else nft_delete_handles w DOCKER_USER (comment_handles (forward_rule_comments b) out))"
    by (auto intro!: emits_rules emits_delete_handles)
qed

lemma emits_docker_exists [emits_rules]: "emits (policy w v as) (docker_user_chain_exists w)"
  unfolding docker_user_chain_exists_def by (intro emits_rules) (auto simp: nft_query_def)

lemma validated_named: "validate_bridge_name x = Inr b \<Longrightarrow> x \<in> set as \<Longrightarrow> named_bridge as b"
  using validated(1) validated_same(1) by (fastforce simp: named_bridge_def)

lemma validated_targets:
  "validate_network_cidr c = Inr c' \<Longrightarrow> validate_host_iface e = Inr e' \<Longrightarrow> c \<in> set as \<Longrightarrow> e \<in> set as \<Longrightarrow> rule_targets as c' e'"
  by (auto simp: rule_targets_def validate_host_iface_def check_regex_Inr)

lemma chain_policy:
  "named_bridge as b \<Longrightarrow> nft_policy w as [''flush'', ''chain'', ''ip'', ''nova_ve'', nat_chain_name b]"
  "named_bridge as b \<Longrightarrow> nft_policy w as [''delete'', ''chain'', ''ip'', ''nova_ve'', nat_chain_name b]"
  "named_bridge as b \<Longrightarrow> nft_policy w as [''add'', ''chain'', ''ip'', ''nova_ve'', nat_chain_name b, nat_hook]"
  "named_bridge as b \<Longrightarrow> nft_policy w as [''flush'', ''chain'', ''ip'', ''nova_ve_filter'', forward_chain_name b]"
  "named_bridge as b \<Longrightarrow> nft_policy w as [''delete'', ''chain'', ''ip'', ''nova_ve_filter'', forward_chain_name b]"
  "named_bridge as b \<Longrightarrow> nft_policy w as [''add'', ''chain'', ''ip'', ''nova_ve_filter'', forward_chain_name b, forward_hook]"
  by (auto intro: nft_policy_intros(3,4) chain_members)

lemmas nft_rules = nft_policy_intros(1,2) chain_policy(1,2) chain_policy(3) [unfolded nat_hook_def] chain_policy(4,5)
  chain_policy(6) [unfolded forward_hook_def] nft_policy_intros(5) nft_policy_intros(6,7) [simplified]

lemma emits_nat [emits_rules]:
  assumes "b \<in> set as"
  shows "c \<in> set as \<Longrightarrow> e \<in> set as \<Longrightarrow> emits (policy w v as) (cmd_nat_apply w b c e)"
    "emits (policy w v as) (cmd_nat_remove w b)"
proof -
  show "emits (policy w v as) (cmd_nat_remove w b)"
    unfolding cmd_nat_remove_def
  proof (rule emits_lift_andthen)
    fix x assume "validate_bridge_name b = Inr x"
    then have "named_bridge as x" using assms by (rule validated_named)
    then show "emits (policy w v as) (andthen (nft_quiet w [''flush'', ''chain'', ''ip'', ''nova_ve'', nat_chain_name x])
        (\<lambda>_. andthen (nft_quiet w [''delete'', ''chain'', ''ip'', ''nova_ve'', nat_chain_name x]) (\<lambda>_. ret 0)))"
      by (intro emits_rules disjI1 nft_rules)
  qed
  assume args: "c \<in> set as" "e \<in> set as"
  show "emits (policy w v as) (cmd_nat_apply w b c e)"
    unfolding cmd_nat_apply_def
    apply (rule emits_lift_andthen)+
    apply (intro emits_rules disjI1 nft_rules)
    using validated_named [OF _ assms] validated_targets [OF _ _ args] by simp_all
qed

lemma emits_forward_apply_parts:
  "named_bridge as b \<Longrightarrow> rule_targets as c e \<Longrightarrow> emits (policy w v as) (forward_apply_docker w b (forward_rule_specs b c e))"
  "named_bridge as b \<Longrightarrow> rule_targets as c e \<Longrightarrow> emits (policy w v as) (forward_apply_own w b (forward_rule_specs b c e))"
  "named_bridge as b \<Longrightarrow> emits (policy w v as) (forward_remove_chain w b)"
  unfolding forward_apply_docker_def forward_apply_own_def forward_remove_chain_def Let_def
  by (intro emits_rules disjI1 nft_rules; simp add: nft_rules)+

lemma emits_forward [emits_rules]:
  assumes "b \<in> set as"
  shows "c \<in> set as \<Longrightarrow> e \<in> set as \<Longrightarrow> emits (policy w v as) (cmd_forward_apply w b c e)"
    "emits (policy w v as) (cmd_forward_remove w b c' e')"
proof -
  show "emits (policy w v as) (cmd_forward_remove w b c' e')"
    unfolding cmd_forward_remove_def
    by (intro emits_lift_andthen emits_rules emits_forward_apply_parts) (rule validated_named [OF _ assms], assumption)+
  assume args: "c \<in> set as" "e \<in> set as"
  show "emits (policy w v as) (cmd_forward_apply w b c e)"
    unfolding cmd_forward_apply_def
    apply (rule emits_lift_andthen)+
    apply (intro emits_rules emits_forward_apply_parts)
    using validated_named [OF _ assms] validated_targets [OF _ _ args] by simp_all
qed

lemma emits_os_kill [emits_rules]: "policy w v as (Kill pid sig) \<Longrightarrow> emits (policy w v as) (os_kill w pid sig)"
  unfolding os_kill_def by (intro emits_rules) (auto intro!: emits_rules split: kill_result.splits)

lemma emits_dnsmasq_stop_bridge [emits_rules]:
  assumes "v = ''dnsmasq-start'' \<or> v = ''dnsmasq-stop''" and "named_bridge as b"
  shows "emits (policy w v as) (dnsmasq_stop_bridge w b)"
  unfolding dnsmasq_stop_bridge_def Let_def
proof (rule emits_ask_andthen)
  fix tr
  let ?line = "\<lambda>pid. case proc_cmdline w pid of ProcBytes b \<Rightarrow> split_on (CHR 0x00) b | _ \<Rightarrow> []"
  have "policy w v as (Kill pid 15)"
    if "read_of w tr (dnsmasq_pidfile w b) = Some s" "int_of_str (strip s) = Some pid"
      "?line pid = [] \<or> list_ex (contains ''dnsmasq'') (?line pid)" for s pid
    using that assms by (force simp: dnsmasq_pid_def)
  then show "emits (policy w v as) (case Option.bind (read_of w tr (dnsmasq_pidfile w b)) (\<lambda>s. int_of_str (strip s)) of
      None \<Rightarrow> ret ()
    | Some pid \<Rightarrow>
        if ?line pid \<noteq> [] \<and> \<not> list_ex (contains ''dnsmasq'') (?line pid) then ret ()
        else andthen (os_kill w pid 15) (\<lambda>_. fs_act w (dnsmasq_pidfile w b) (Unlink (dnsmasq_pidfile w b))))"
    using assms(2) by (auto intro!: emits_rules split: option.split bind_splits simp del: policy.simps(6))
qed

lemma emits_dnsmasq_launch [emits_rules]:
  "named_bridge as b \<Longrightarrow> emits (policy w v as) (dnsmasq_launch w b g ds de)"
  unfolding dnsmasq_launch_def Let_def by (intro emits_rules) auto

lemma emits_dnsmasq [emits_rules]:
  "b \<in> set as \<Longrightarrow> emits (policy w ''dnsmasq-start'' as) (cmd_dnsmasq_start w b g ds de)"
  "b \<in> set as \<Longrightarrow> emits (policy w ''dnsmasq-stop'' as) (cmd_dnsmasq_stop w b)"
  unfolding cmd_dnsmasq_start_def cmd_dnsmasq_stop_def
  by (intro emits_rules; auto dest: validated_named)+

lemma emits_proxy_wait:
  "policy w v as (Kill pid 0) \<Longrightarrow> policy w v as (Kill pid 9) \<Longrightarrow> emits (policy w v as) (proxy_wait w pid n)"
  by (induction n) (auto intro!: emits_rules)

lemma spawn_policy:
  "pid = 0 \<or> authorized w as pid \<Longrightarrow> 1024 \<le> lp \<Longrightarrow> lp \<le> 65535 \<Longrightarrow> 1 \<le> tp \<Longrightarrow> tp \<le> 65535 \<Longrightarrow>
     policy w ''console-proxy-start'' as (Spawn [proxy_bin w, dec_int pid, dec_int lp, dec_int tp])"
  unfolding policy.simps by blast

lemma emits_console [emits_rules]:
  assumes "p \<in> set as"
  shows "emits (policy w ''console-proxy-start'' as) (cmd_console_proxy_start w p lp tp)"
    "emits (policy w ''console-proxy-stop'' as) (cmd_console_proxy_stop w p)"
proof -
  show "emits (policy w ''console-proxy-start'' as) (cmd_console_proxy_start w p lp tp)"
    unfolding cmd_console_proxy_start_def using assms
    by (intro emits_lift_andthen emits_if emits_pure emits_andthen [OF emits_act] spawn_policy)
      (auto intro!: emits_rules dest!: validate_port_Inr authorize_pid_Inr [of w p _ as] split: if_splits)
  show "emits (policy w ''console-proxy-stop'' as) (cmd_console_proxy_stop w p)"
    unfolding cmd_console_proxy_stop_def
    by (intro emits_rules)
      (use assms in \<open>auto simp: named_pid_def intro!: emits_rules emits_proxy_wait split: proc_read.splits if_splits\<close>)
qed

lemma emits_qemu_signal [emits_rules]:
  assumes "p \<in> set as"
  shows "emits (policy w ''qemu-process-signal'' as) (cmd_qemu_process_signal w p sig)"
proof -
  have k: "py_eq k (JStr s) \<Longrightarrow> k = JStr s" for k s
    by (cases k) (auto split: if_splits)
  show ?thesis
    unfolding cmd_qemu_process_signal_def
    by (intro emits_rules)
      (auto simp: authorized_qemu_def dest!: authorize_pid_entry_Inr [OF _ assms] k)
qed

lemmas emits_verbs = emits_links emits_link_master emits_netns emits_egress emits_nat emits_forward
  emits_dnsmasq emits_console emits_qemu_signal

lemma nth_args: "Suc 0 \<le> length as \<Longrightarrow> as ! 0 \<in> set as" "2 \<le> length as \<Longrightarrow> as ! 0 \<in> set as" "2 \<le> length as \<Longrightarrow> as ! Suc 0 \<in> set as"
  "3 \<le> length as \<Longrightarrow> as ! 0 \<in> set as" "3 \<le> length as \<Longrightarrow> as ! Suc 0 \<in> set as" "3 \<le> length as \<Longrightarrow> as ! 2 \<in> set as"
  "4 \<le> length as \<Longrightarrow> as ! 0 \<in> set as"
  by (auto intro!: nth_mem)

lemma handler_emits:
  assumes "parse_args w argv = Some (verb, as, f)"
  shows "emits (policy w verb as) (f as)"
proof -
  from assms obtain lo hi where "map_of (VERB_TABLE w) verb = Some (lo, hi, f)" "lo \<le> length as"
    by (auto simp: parse_args_def split: list.splits option.splits prod.splits if_splits)
  then have "(verb, lo, hi, f) \<in> set (VERB_TABLE w)" by (blast dest: map_of_SomeD)
  then show ?thesis
    using \<open>lo \<le> length as\<close> unfolding VERB_TABLE_def set_simps insert_iff empty_iff prod.inject
    by (elim disjE conjE) (simp_all add: emits_verbs nth_args)
qed

section \<open>A refusal has no effect\<close>

lemma never_refused_parts [quiet_rules]:
  "never_refused (ip_cmd w args)" "never_refused (nft_cmd w args)" "never_refused (nft_quiet w args)"
  "never_refused (nsenter_ip_netns w p args)" "never_refused (nsenter_cat_address w p i)"
  "never_refused (docker_user_chain_exists w)"
  unfolding ip_cmd_def nft_cmd_def nft_quiet_def nsenter_ip_netns_def nsenter_cat_address_def
    docker_user_chain_exists_def
  by (intro quiet_rules)+

lemma never_refused_os_kill [quiet_rules]: "never_refused (os_kill w p sig)"
proof -
  have "never_refused (case k of KillDone \<Rightarrow> ret True | KillNoProcess \<Rightarrow> ret False
      | KillRefused \<Rightarrow> raise Uncaught)" for k
    by (cases k) (auto intro: quiet_rules)
  then show ?thesis unfolding os_kill_def by (intro quiet_rules)
qed

lemma never_refused_loops [quiet_rules]:
  "never_refused (nft_each w prefix ss)" "never_refused (nft_delete_handles w chain hs)"
  "never_refused (proxy_wait w pid n)"
proof -
  show "never_refused (nft_each w prefix ss)" by (induction ss) (auto intro!: quiet_rules)
  show "never_refused (nft_delete_handles w chain hs)" by (induction hs) (auto intro!: quiet_rules)
  show "never_refused (proxy_wait w pid n)" by (induction n) (auto intro!: quiet_rules)
qed

lemma never_refused_blocks [quiet_rules]:
  "never_refused (nft_delete_rules_by_comment w chain cs)"
  "never_refused (forward_apply_docker w b specs)" "never_refused (forward_apply_own w b specs)"
  "never_refused (forward_remove_chain w b)" "never_refused (dnsmasq_launch w b g ds de)"
  unfolding nft_delete_rules_by_comment_def forward_apply_docker_def forward_apply_own_def
    forward_remove_chain_def dnsmasq_launch_def Let_def
  by (intro quiet_rules)+

lemma never_refused_dnsmasq_stop_bridge [quiet_rules]: "never_refused (dnsmasq_stop_bridge w b)"
  unfolding dnsmasq_stop_bridge_def Let_def
  by (intro quiet_rules) (auto intro!: quiet_rules split: option.splits)

lemma never_refused_cmds [quiet_rules]:
  "never_refused (cmd_ipv4_forward_enable w)"
  unfolding cmd_ipv4_forward_enable_def by (intro quiet_rules)

lemma quiet_of_parts [quiet_rules]:
  "quiet (ret x)" "quiet (ip_cmd w args)" "quiet (nsenter_ip_netns w p args)"
  "quiet (nsenter_cat_address w p i)" "quiet (cmd_ipv4_forward_enable w)"
  by (intro quiet_never quiet_rules)+

lemma quiet_effects:
  "never_refused m \<Longrightarrow> (\<And>x. never_refused (f x)) \<Longrightarrow> quiet (andthen m f)"
  by (intro quiet_never never_refused_andthen)

lemmas quiet_cmd_defs = cmd_bridge_add_def cmd_bridge_del_def cmd_tap_add_def cmd_tap_del_def
  cmd_link_del_def cmd_veth_pair_add_def cmd_link_master_def cmd_link_master_host_def
  cmd_link_set_nomaster_def cmd_link_netns_def cmd_link_up_def cmd_bridge_addr_add_def
  cmd_link_set_name_in_netns_def cmd_addr_add_in_netns_def cmd_addr_up_in_netns_def
  cmd_read_iface_mac_def

lemma quiet_link_verbs [quiet_rules]:
  "quiet (cmd_bridge_add w n)" "quiet (cmd_bridge_del w n)" "quiet (cmd_tap_add w n)"
  "quiet (cmd_tap_del w n)" "quiet (cmd_link_del w n)" "quiet (cmd_veth_pair_add w n p)"
  "quiet (cmd_link_master w n p)" "quiet (cmd_link_master_host w n p)"
  "quiet (cmd_link_set_nomaster w n)" "quiet (cmd_link_netns w n p)" "quiet (cmd_link_up w n)"
  "quiet (cmd_bridge_addr_add w n p)" "quiet (cmd_link_set_name_in_netns w n p q)"
  "quiet (cmd_addr_add_in_netns w n p q)" "quiet (cmd_addr_up_in_netns w n p)"
  "quiet (cmd_read_iface_mac w n p)"
  unfolding quiet_cmd_defs by (intro quiet_rules)+

lemma quiet_effect_verbs [quiet_rules]:
  "quiet (cmd_nat_apply w n p q)" "quiet (cmd_nat_remove w n)" "quiet (cmd_forward_apply w n p q)"
  "quiet (cmd_forward_remove w n a b)" "quiet (cmd_dnsmasq_start w n p q r)"
  "quiet (cmd_dnsmasq_stop w n)" "quiet (cmd_console_proxy_start w n p q)"
  unfolding cmd_nat_apply_def cmd_nat_remove_def cmd_forward_apply_def cmd_forward_remove_def
    cmd_dnsmasq_start_def cmd_dnsmasq_stop_def cmd_console_proxy_start_def
  by ((rule quiet_lift_andthen)+; (intro quiet_effects quiet_rules)?)+

lemma quiet_stop_verbs [quiet_rules]:
  "quiet (cmd_console_proxy_stop w n)" "quiet (cmd_qemu_process_signal w n p)"
proof -
  show "quiet (cmd_console_proxy_stop w n)"
    unfolding cmd_console_proxy_stop_def
    by (rule quiet_lift_andthen)
      (auto intro!: quiet_effects quiet_rules split: proc_read.splits)
  have "never_refused (if k = KillRefused then raise Uncaught else ret (0::int))" for k
    by (intro quiet_rules)
  then show "quiet (cmd_qemu_process_signal w n p)"
    unfolding cmd_qemu_process_signal_def
    by (intro quiet_lift_andthen quiet_case_prod quiet_if quiet_raise quiet_effects
        never_refused_andthen never_refused_pure)
qed

lemmas quiet_verbs = quiet_link_verbs quiet_effect_verbs quiet_stop_verbs quiet_of_parts(5)

lemma handler_quiet:
  assumes "parse_args w argv = Some (verb, as, f)" and "verb \<noteq> ''default-egress''"
  shows "quiet (f as)"
proof -
  from assms(1) obtain lo hi where "map_of (VERB_TABLE w) verb = Some (lo, hi, f)"
    by (auto simp: parse_args_def split: list.splits option.splits prod.splits if_splits)
  then have "(verb, lo, hi, f) \<in> set (VERB_TABLE w)" by (rule map_of_SomeD)
  then show ?thesis
    using assms(2) unfolding VERB_TABLE_def set_simps insert_iff empty_iff prod.inject
    by (elim disjE conjE) (simp_all add: quiet_verbs)
qed

lemma egress_refused:
  "fst (cmd_default_egress w []) = Inl (ValidationError l) \<Longrightarrow>
     snd (cmd_default_egress w []) = [Capture [ip_bin w, ''route'', ''show'', ''default'']]"
  by (auto simp: cmd_default_egress_def andthen_def run_capture_def ret_def raise_def lift_def act_def
      split: child.splits option.splits list.splits sum.splits if_splits)

section \<open>Properties\<close>

definition demo_world :: world where
  \<comment> \<open>a host for the examples: empty registry, no process entries, one DHCP pid file holding \<open>-1\<close>\<close>
  "demo_world =
     \<lparr>ip_bin = ''ip'', nsenter_bin = ''nsenter'', nft_bin = ''nft'', dnsmasq_bin = ''dnsmasq'',
      proxy_bin = ''proxy'', proxy_executable = True, runtime_root = ''/var/lib/nova-ve'',
      ip_forward_path = ''/proc/sys/net/ipv4/ip_forward'', pids_json = PidsMissing,
      proc_text = (\<lambda>_ _. []), proc_cmdline = (\<lambda>_. ProcGone),
      child_of = (\<lambda>_ _. Exited 0 []), kill_of = (\<lambda>_ _. KillDone), write_ok = (\<lambda>_ _. True),
      read_of = (\<lambda>_ _. Some (dec_int (- 1))), spawn_line = (\<lambda>_. ''4242'')\<rparr>"

definition demo_cfg :: host_cfg where
  "demo_cfg =
     \<lparr>env_instance_file = None, env_instance_dir = None,
      file_at = (\<lambda>_. FileText ''host-1''), blake2b_16 = (\<lambda>_. 0xbeef)\<rparr>"

lemma helper_main_trace:
  "parse_args w argv = Some (verb, as, f) \<Longrightarrow> snd (helper_main w argv) = snd (f as [])"
  by (auto simp: helper_main_def split: prod.splits sum.splits helper_exc.splits)

lemma helper_policy: "list_all (policy w verb args) (snd (helper_main w (verb # args)))"
proof (cases "parse_args w (verb # args)")
  case None
  then show ?thesis by (simp add: helper_main_def)
next
  case (Some t)
  then obtain f where p: "parse_args w (verb # args) = Some (verb, args, f)"
    by (cases t) (auto simp: parse_args_def split: option.splits prod.splits if_splits)
  then show ?thesis
    by (simp add: helper_main_trace emits_trace handler_emits)
qed

text \<open>
  C1. Whatever arguments the helper is started with, every action it performs is on the list the policy
  has for the verb and these arguments. On the host it works on interfaces with nova-ve names that the
  request names, and only \<open>link-master-host\<close> puts one on a host bridge. It enters the namespace of a
  process, or moves an interface there, only when the process is registered and passes the cgroup
  check, and runs four kinds of commands there. Rules go into the chains of the bridge of the
  request or, for that bridge, into Docker's user chain, from which it deletes only rules listed with
  the bridge's comment. The signals are: SIGTERM or SIGKILL to the group of a registered QEMU process;
  SIGTERM to the process in the DHCP pid file of the bridge, unless its command line can be read and is
  not dnsmasq's; 15, 0 and 9 to a process whose command line has the console proxy, which no registry
  confirms.
\<close>

theorem helper_stays_in_policy:
  "list_all (policy w verb args) (snd (helper_main w (verb # args)))"
  by (rule helper_policy)

text \<open>
  C39. Validation comes before every effect: when the handler of a verb refuses its request, the helper
  leaves with status 2 and has performed no action, but for \<open>default-egress\<close>, which then has only
  asked for the default route.
\<close>

theorem refusal_has_no_effect:
  assumes "parse_args w (verb # args) = Some (verb, as, f)" and "fst (f as []) = Inl (ValidationError l)"
  shows "helper_main w (verb # args) =
    (ExitCode 2, if verb = ''default-egress'' then [Capture [ip_bin w, ''route'', ''show'', ''default'']] else [])"
proof (cases "verb = ''default-egress''")
  case True
  then have "f as = cmd_default_egress w"
    using assms(1) by (auto simp: parse_args_def VERB_TABLE_def split: if_splits)
  moreover have "snd (cmd_default_egress w []) = [Capture [ip_bin w, ''route'', ''show'', ''default'']]"
    using assms(2) unfolding calculation by (rule egress_refused)
  ultimately have "f as [] = (Inl (ValidationError l), [Capture [ip_bin w, ''route'', ''show'', ''default'']])"
    using assms(2) by (simp add: prod_eq_iff)
  then show ?thesis using assms(1) True by (simp add: helper_main_def)
next
  case False
  have "quiet (f as)" using assms(1) False by (rule handler_quiet)
  then have "f as [] = (Inl (ValidationError l), [])"
    using assms(2) unfolding quiet_def by (metis prod.collapse)
  with assms(1) False show ?thesis by (simp add: helper_main_def)
qed

theorem refusal_has_no_effect_witness:
  "helper_main demo_world [''bridge-add'', ''br-eth0''] = (ExitCode 2, [])"
proof -
  have p: "parse_args demo_world [''bridge-add'', ''br-eth0''] =
      Some (''bridge-add'', [''br-eth0''], \<lambda>as. cmd_bridge_add demo_world (as ! 0))"
    by (simp add: parse_args_def VERB_TABLE_def)
  have "\<not> rx_dollar BRIDGE_SHAPE ''br-eth0''" by code_simp
  then have "fst (cmd_bridge_add demo_world ([''br-eth0''] ! 0) []) = Inl (ValidationError ''bridge_name'')"
    by (simp add: cmd_bridge_add_def raise_def validate_bridge_name_def check_regex_def)
  from refusal_has_no_effect [OF p this] show ?thesis by simp
qed

text \<open>
  The helper's name validators accept exactly the names of the advertised shape and, because
  their patterns end in \<open>$\<close>, each such name followed by one newline; the backend's own pattern,
  anchored by \<open>\Z\<close>, accepts only the former.
\<close>

theorem bridge_validator_language:
  "validate_bridge_name v = Inr v \<longleftrightarrow>
     rx_full BRIDGE_SHAPE v \<or> (\<exists>t. v = t @ [newline] \<and> rx_full BRIDGE_SHAPE t)"
  by (auto simp: validate_bridge_name_def check_regex_def rx_dollar_iff)

lemma check_full: "rx_full sh v \<Longrightarrow> check_regex v sh l = Inr v"
  by (simp add: check_regex_def rx_dollar_def)

text \<open>
  C40. Every name the backend derives for a network, and for the interfaces of a node numbered below
  1000 with interface indices below 100, passes the helper's validation unchanged.
\<close>

theorem generated_names_pass_validation:
  "(bridge_name h l (int n) = Inr s \<longrightarrow> validate_bridge_name s = Inr s) \<and>
   (d < 1000 \<and> i < 100 \<and> tap_name h l (int d) (int i) = Inr s \<longrightarrow> validate_tap_name s = Inr s) \<and>
   (d < 1000 \<and> i < 100 \<and> (veth_host_name h l (int d) (int i) = Inr s \<or>
      veth_peer_name h l (int d) (int i) = Inr s) \<longrightarrow> validate_veth_name s lbl = Inr s)"
proof (intro conjI impI)
  assume "bridge_name h l (int n) = Inr s"
  then show "validate_bridge_name s = Inr s"
    unfolding validate_bridge_name_def by (intro check_full bridge_name_shape)
next
  assume "d < 1000 \<and> i < 100 \<and> tap_name h l (int d) (int i) = Inr s"
  then show "validate_tap_name s = Inr s"
    unfolding validate_tap_name_def by (intro check_full) (blast intro: tap_name_shape)
next
  assume "d < 1000 \<and> i < 100 \<and> (veth_host_name h l (int d) (int i) = Inr s \<or>
      veth_peer_name h l (int d) (int i) = Inr s)"
  then have "rx_full VETH_SHAPE s" by (elim conjE disjE) (rule veth_name_shape; assumption)+
  then show "validate_veth_name s lbl = Inr s"
    unfolding validate_veth_name_def by (rule check_full)
qed

theorem generated_names_pass_validation_witness:
  "validate_bridge_name ''novebeefn7'' = Inr ''novebeefn7'' \<and>
   validate_tap_name ''nvebeefd12i3'' = Inr ''nvebeefd12i3'' \<and>
   validate_veth_name ''nvebeefd12i3h'' ''hostend'' = Inr ''nvebeefd12i3h''"
proof -
  have n: "bridge_name demo_cfg ''lab'' (int 7) = Inr ''novebeefn7''"
    "tap_name demo_cfg ''lab'' (int 12) (int 3) = Inr ''nvebeefd12i3''"
    "veth_host_name demo_cfg ''lab'' (int 12) (int 3) = Inr ''nvebeefd12i3h''"
    by code_simp+
  have b: "(12::nat) < 1000" "(3::nat) < 100" by simp_all
  have "validate_bridge_name ''novebeefn7'' = Inr ''novebeefn7''"
    by (rule generated_names_pass_validation [THEN conjunct1, THEN mp, OF n(1)])
  moreover have "validate_tap_name ''nvebeefd12i3'' = Inr ''nvebeefd12i3''"
    by (rule generated_names_pass_validation
          [where d = 12 and i = 3 and h = demo_cfg and l = "''lab''", THEN conjunct2, THEN conjunct1, THEN mp])
      (intro conjI b n(2))
  moreover have "validate_veth_name ''nvebeefd12i3h'' ''hostend'' = Inr ''nvebeefd12i3h''"
    by (rule generated_names_pass_validation
          [where d = 12 and i = 3 and h = demo_cfg and l = "''lab''", THEN conjunct2, THEN conjunct2, THEN mp])
      (intro conjI disjI1 b n(3))
  ultimately show ?thesis by blast
qed

text \<open>
  \<open>dnsmasq-stop\<close> takes the pid to terminate from a file and checks the process only when its
  command line can be read: for a pid whose \<open>/proc\<close> entry cannot be read, any number in the file
  is signalled, including the negative numbers that address process groups.
\<close>

theorem dnsmasq_stop_signals_unreadable_pid:
  assumes "validate_bridge_name b = Inr b"
    and "read_of w [] (dnsmasq_pidfile w b) = Some (dec_int pid)"
    and "proc_cmdline w pid = ProcGone"
  shows "Kill pid 15 \<in> set (snd (helper_main w [''dnsmasq-stop'', b]))"
proof -
  have st: "int_of_str (strip (dec_int pid)) = Some pid"
    using int_of_dec_int [of pid] by (simp add: int_of_str_def)
  have "parse_args w [''dnsmasq-stop'', b] = Some (''dnsmasq-stop'', [b], \<lambda>as. cmd_dnsmasq_stop w (as ! 0))"
    by (simp add: parse_args_def VERB_TABLE_def)
  then have "snd (helper_main w [''dnsmasq-stop'', b]) = snd (cmd_dnsmasq_stop w b [])"
    by (simp add: helper_main_trace)
  also have "Kill pid 15 \<in> set \<dots>"
    by (cases "kill_of w [] pid")
      (simp_all add: cmd_dnsmasq_stop_def dnsmasq_stop_bridge_def Let_def andthen_def lift_def
        ask_def act_def os_kill_def fs_act_def ret_def raise_def assms st)
  finally show ?thesis .
qed

theorem dnsmasq_stop_signals_unreadable_pid_witness:
  "Kill (- 1) 15 \<in> set (snd (helper_main demo_world [''dnsmasq-stop'', ''nove0000n1'']))"
proof (rule dnsmasq_stop_signals_unreadable_pid)
  have "rx_dollar BRIDGE_SHAPE ''nove0000n1''" by code_simp
  then show "validate_bridge_name ''nove0000n1'' = Inr ''nove0000n1''"
    by (simp add: validate_bridge_name_def check_regex_def)
qed (simp_all add: demo_world_def)

end
