(* ===== verification/Host_Net.thy ===== *)
theory Host_Net
  imports Helper_Safety
begin

text \<open>
  The backend's side of host networking (\<open>app/services/host_net.py\<close>): invocation of the
  privileged helper and the typed errors its exit statuses become, the ownership fingerprints
  of bridges, the driver-aware attach dispatch, best-effort deletion, and the sweeps that remove
  orphaned interfaces. A computation appends the calls it makes to a trace; \<open>host_env\<close> gives the
  helper's reply, the interface list and the fingerprint files after any trace.
\<close>

section \<open>Calls and their environment\<close>

datatype call =
    Helper string "string list"
  | LinkShow string
  | LinkList
  | FpRead string
  | FpWrite string json
  | FpUnlink string

datatype helper_reply = Reply int string string

datatype ip_show = IpMissing | IpExit int string

datatype fp_file = FpMissing | FpUnreadable | FpNotJson | FpJson json

record host_env =
  cfg :: host_cfg
  helper_says :: "call list \<Rightarrow> string \<Rightarrow> string list \<Rightarrow> helper_reply"
  link_show :: "call list \<Rightarrow> string \<Rightarrow> ip_show"
  link_list :: "call list \<Rightarrow> ip_show"
  fp_at :: "call list \<Rightarrow> string \<Rightarrow> fp_file"
  fp_write_ok :: "call list \<Rightarrow> string \<Rightarrow> bool"

type_synonym 'a host = "(call, host_error, 'a) traced"

section \<open>Invoking the helper\<close>

definition classify_helper_error :: "string \<Rightarrow> int \<Rightarrow> host_error" where
  "classify_helper_error stderr returncode =
     (if returncode = 2 then HostNetValidationError returncode stderr
      else if returncode = 3 then HostNetUnknown returncode stderr
      else (let low = lower stderr in
        if contains ''file exists'' low then HostNetEEXIST returncode stderr
        else if contains ''invalid argument'' low \<or> contains ''does not exist'' low
             \<or> contains ''no such'' low then HostNetEINVAL returncode stderr
        else HostNetUnknown returncode stderr))"

definition invoke_helper :: "host_env \<Rightarrow> string \<Rightarrow> string list \<Rightarrow> string host" where
  \<comment> \<open>returns the helper's standard output\<close>
  "invoke_helper h verb args tr =
     (case helper_says h tr verb args of
        Reply rc out err \<Rightarrow>
          (if rc \<noteq> 0 then Inl (classify_helper_error err rc) else Inr out, tr @ [Helper verb args]))"

definition run_helper :: "host_env \<Rightarrow> string \<Rightarrow> string list \<Rightarrow> unit host" where
  "run_helper h verb args = andthen (invoke_helper h verb args) (\<lambda>_. ret ())"

definition bridge_exists :: "host_env \<Rightarrow> string \<Rightarrow> bool host" where
  "bridge_exists h name tr =
     (Inr (case link_show h tr name of IpMissing \<Rightarrow> False | IpExit rc out \<Rightarrow> rc = 0),
      tr @ [LinkShow name])"

definition tap_exists :: "host_env \<Rightarrow> string \<Rightarrow> bool host" where
  "tap_exists h name tr =
     (Inr (case link_show h tr name of IpMissing \<Rightarrow> False | IpExit rc out \<Rightarrow> rc = 0),
      tr @ [LinkShow name])"

section \<open>Ownership fingerprints\<close>

definition bridge_fingerprint_read :: "host_env \<Rightarrow> string \<Rightarrow> json option host" where
  "bridge_fingerprint_read h name tr =
     (Inr (case fp_at h tr name of
             FpMissing \<Rightarrow> None
           | FpUnreadable \<Rightarrow> Some (JObj [(''_error'', JStr ''could not read fingerprint'')])
           | FpNotJson \<Rightarrow> Some (JObj [(''_error'', JStr ''invalid JSON'')])
           | FpJson v \<Rightarrow> Some (if is_obj v then v
                             else JObj [(''_error'', JStr ''expected JSON object''), (''_raw'', v)])),
      tr @ [FpRead name])"

definition fingerprint_payload :: "string \<Rightarrow> int \<Rightarrow> string \<Rightarrow> json" where
  "fingerprint_payload lab_id network_id now =
     JObj [(''lab_id'', JStr lab_id), (''network_id'', JInt network_id), (''created_at'', JStr now)]"

definition bridge_fingerprint_write ::
    "host_env \<Rightarrow> string \<Rightarrow> string \<Rightarrow> int \<Rightarrow> string \<Rightarrow> unit host" where
  \<comment> \<open>written to a temporary file and renamed: a failure leaves the old fingerprint\<close>
  "bridge_fingerprint_write h name lab_id network_id now =
     andthen (ask (\<lambda>tr. fp_write_ok h tr name)) (\<lambda>ok.
       if ok then act (FpWrite name (fingerprint_payload lab_id network_id now))
       else raise OSError)"

datatype fp_status = FpMatch | FpMismatch | FpAbsent

definition fingerprint_status :: "json option \<Rightarrow> string \<Rightarrow> int \<Rightarrow> fp_status" where
  "fingerprint_status payload lab_id network_id =
     (case payload of
        None \<Rightarrow> FpAbsent
      | Some p \<Rightarrow>
          if py_eq (jget0 p ''lab_id'') (JStr lab_id) \<and>
             py_eq (jget0 p ''network_id'') (JInt network_id)
          then FpMatch else FpMismatch)"

definition bridge_fingerprint_check :: "host_env \<Rightarrow> string \<Rightarrow> string \<Rightarrow> int \<Rightarrow> fp_status host" where
  "bridge_fingerprint_check h name lab_id network_id =
     andthen (bridge_fingerprint_read h name)
       (\<lambda>p. ret (fingerprint_status p lab_id network_id))"

definition bridge_fingerprint_remove :: "string \<Rightarrow> unit host" where
  "bridge_fingerprint_remove name = act (FpUnlink name)"

section \<open>Bridges and links\<close>

definition is_host_bridge_name :: "string \<Rightarrow> bool" where
  \<comment> \<open>\<open>RE_HOST_BRIDGE_NAME.match\<close>, anchored by \<open>\Z\<close>\<close>
  "is_host_bridge_name s \<longleftrightarrow> rx_full HOST_BRIDGE_SHAPE s"

definition bridge_add :: "host_env \<Rightarrow> string \<Rightarrow> unit host" where
  "bridge_add h name = run_helper h ''bridge-add'' [name]"

definition bridge_del :: "host_env \<Rightarrow> string \<Rightarrow> unit host" where
  "bridge_del h name =
     (if is_host_bridge_name name then raise (HostNetError 0 ''refusing bridge_del on host-owned bridge'')
      else andthen (run_helper h ''bridge-del'' [name]) (\<lambda>_. bridge_fingerprint_remove name))"

definition tap_add :: "host_env \<Rightarrow> string \<Rightarrow> unit host" where
  "tap_add h name = run_helper h ''tap-add'' [name]"

definition tap_del :: "host_env \<Rightarrow> string \<Rightarrow> unit host" where
  "tap_del h name = run_helper h ''tap-del'' [name]"

definition veth_pair_add :: "host_env \<Rightarrow> string \<Rightarrow> string \<Rightarrow> unit host" where
  "veth_pair_add h host_end peer_end = run_helper h ''veth-pair-add'' [host_end, peer_end]"

definition link_master :: "host_env \<Rightarrow> string \<Rightarrow> string \<Rightarrow> unit host" where
  "link_master h iface bridge = run_helper h ''link-master'' [iface, bridge]"

definition link_master_host :: "host_env \<Rightarrow> string \<Rightarrow> string \<Rightarrow> unit host" where
  "link_master_host h iface bridge = run_helper h ''link-master-host'' [iface, bridge]"

definition link_master_any :: "host_env \<Rightarrow> string \<Rightarrow> string \<Rightarrow> string option \<Rightarrow> unit host" where
  "link_master_any h iface bridge driver =
     (if is_host_bridge_name bridge then
        (if driver = Some ''bridge_cloud'' then link_master_host h iface bridge
         else raise (HostNetError 0 ''refusing to attach to host bridge without driver=bridge_cloud''))
      else link_master h iface bridge)"

definition link_set_nomaster :: "host_env \<Rightarrow> string \<Rightarrow> unit host" where
  "link_set_nomaster h iface = run_helper h ''link-set-nomaster'' [iface]"

definition link_netns :: "host_env \<Rightarrow> string \<Rightarrow> int \<Rightarrow> unit host" where
  "link_netns h iface pid = run_helper h ''link-netns'' [iface, dec_int pid]"

definition console_proxy_start :: "host_env \<Rightarrow> int \<Rightarrow> int \<Rightarrow> int \<Rightarrow> int host" where
  "console_proxy_start h node_pid listen_port target_port =
     andthen (invoke_helper h ''console-proxy-start''
                [dec_int node_pid, dec_int listen_port, dec_int target_port]) (\<lambda>out.
       let text = strip out in
       if \<not> isdigit text then raise (HostNetError 0 ''console-proxy-start did not return a pid'')
       else ret (int (undec text)))"

definition console_proxy_stop :: "host_env \<Rightarrow> int \<Rightarrow> unit host" where
  "console_proxy_stop h proxy_pid = run_helper h ''console-proxy-stop'' [dec_int proxy_pid]"

definition qemu_process_signal :: "host_env \<Rightarrow> int \<Rightarrow> string \<Rightarrow> unit host" where
  "qemu_process_signal h pid signal_name =
     (if signal_name \<noteq> ''term'' \<and> signal_name \<noteq> ''kill'' then raise ValueError
      else run_helper h ''qemu-process-signal'' [dec_int pid, signal_name])"

definition link_up :: "host_env \<Rightarrow> string \<Rightarrow> unit host" where
  "link_up h iface = run_helper h ''link-up'' [iface]"

definition bridge_addr_add :: "host_env \<Rightarrow> string \<Rightarrow> string \<Rightarrow> unit host" where
  "bridge_addr_add h name cidr = run_helper h ''bridge-addr-add'' [name, cidr]"

definition default_egress_iface :: "host_env \<Rightarrow> string host" where
  "default_egress_iface h = andthen (invoke_helper h ''default-egress'' []) (\<lambda>out. ret (strip out))"

definition ipv4_forward_enable :: "host_env \<Rightarrow> unit host" where
  "ipv4_forward_enable h = run_helper h ''ipv4-forward-enable'' []"

definition nat_apply :: "host_env \<Rightarrow> string \<Rightarrow> string \<Rightarrow> string \<Rightarrow> unit host" where
  "nat_apply h bridge cidr egress = run_helper h ''nat-apply'' [bridge, cidr, egress]"

definition nat_remove :: "host_env \<Rightarrow> string \<Rightarrow> unit host" where
  "nat_remove h bridge = run_helper h ''nat-remove'' [bridge]"

definition forward_apply :: "host_env \<Rightarrow> string \<Rightarrow> string \<Rightarrow> string \<Rightarrow> unit host" where
  "forward_apply h bridge cidr egress = run_helper h ''forward-apply'' [bridge, cidr, egress]"

definition forward_remove :: "host_env \<Rightarrow> string \<Rightarrow> string option \<Rightarrow> string option \<Rightarrow> unit host" where
  "forward_remove h bridge cidr egress =
     run_helper h ''forward-remove''
       (case (cidr, egress) of
          (Some c, Some e) \<Rightarrow> if c \<noteq> [] \<and> e \<noteq> [] then [bridge, c, e] else [bridge]
        | _ \<Rightarrow> [bridge])"

definition dnsmasq_start :: "host_env \<Rightarrow> string \<Rightarrow> string \<Rightarrow> string \<Rightarrow> string \<Rightarrow> int host" where
  "dnsmasq_start h bridge gateway dhcp_start dhcp_end =
     andthen (invoke_helper h ''dnsmasq-start'' [bridge, gateway, dhcp_start, dhcp_end]) (\<lambda>out.
       let text = strip out in ret (if isdigit text then int (undec text) else 0))"

definition dnsmasq_stop :: "host_env \<Rightarrow> string \<Rightarrow> unit host" where
  "dnsmasq_stop h bridge = run_helper h ''dnsmasq-stop'' [bridge]"

definition link_set_name_in_netns :: "host_env \<Rightarrow> int \<Rightarrow> string \<Rightarrow> string \<Rightarrow> unit host" where
  "link_set_name_in_netns h pid oldname newname =
     run_helper h ''link-set-name-in-netns'' [dec_int pid, oldname, newname]"

definition addr_up_in_netns :: "host_env \<Rightarrow> int \<Rightarrow> string \<Rightarrow> unit host" where
  "addr_up_in_netns h pid iface = run_helper h ''addr-up-in-netns'' [dec_int pid, iface]"

definition read_iface_mac :: "host_env \<Rightarrow> int \<Rightarrow> string \<Rightarrow> string host" where
  "read_iface_mac h pid iface =
     andthen (invoke_helper h ''read-iface-mac'' [dec_int pid, iface]) (\<lambda>out. ret (strip out))"

definition link_del :: "host_env \<Rightarrow> string \<Rightarrow> unit host" where
  "link_del h name = run_helper h ''link-del'' [name]"

fun is_EINVAL :: "host_error \<Rightarrow> bool" where
  "is_EINVAL (HostNetEINVAL _ _) = True"
| "is_EINVAL _ = False"

fun is_Validation :: "host_error \<Rightarrow> bool" where
  "is_Validation (HostNetValidationError _ _) = True"
| "is_Validation _ = False"

definition try_link_del :: "host_env \<Rightarrow> string \<Rightarrow> unit host" where
  "try_link_del h name =
     catch (link_del h name) (\<lambda>e.
       if is_EINVAL e then ret ()
       else if is_Validation e then raise e
       else if is_HostNetError e then ret () else raise e)"

definition try_bridge_del :: "host_env \<Rightarrow> string \<Rightarrow> unit host" where
  "try_bridge_del h name =
     catch (bridge_del h name) (\<lambda>e.
       if is_EINVAL e then ret () else if is_HostNetError e then ret () else raise e)"

section \<open>Orphan sweeps\<close>

definition SWEEP_IFACE_SHAPE :: "rx_atom list" where
  \<comment> \<open>\<open>^nve[0-9a-f]{4}d\d{1,3}i\d{1,2}[hp]?$\<close>\<close>
  "SWEEP_IFACE_SHAPE = TAP_SHAPE @ [Rx (\<lambda>c. c = CHR ''h'' \<or> c = CHR ''p'') 0 (Some 1)]"

fun split_colons :: "nat \<Rightarrow> string \<Rightarrow> string list" where
  \<comment> \<open>\<open>line.split(":", k)\<close>\<close>
  "split_colons 0 s = [s]"
| "split_colons (Suc k) s =
     (if CHR '':'' \<in> set s
      then takeWhile (\<lambda>c. c \<noteq> CHR '':'') s # split_colons k (tl (dropWhile (\<lambda>c. c \<noteq> CHR '':'') s))
      else [s])"

definition iface_of_line :: "string \<Rightarrow> string option" where
  "iface_of_line line =
     (let parts = split_colons 2 line in
      if length parts < 2 then None else Some (hd (split_on (CHR ''@'') (strip (parts ! 1)))))"

definition list_host_ifaces_prefixed :: "host_env \<Rightarrow> string \<Rightarrow> string list host" where
  "list_host_ifaces_prefixed h prefix tr =
     (Inr (case link_list h tr of
             IpMissing \<Rightarrow> []
           | IpExit rc out \<Rightarrow>
               if rc \<noteq> 0 then []
               else filter (starts_with prefix) (List.map_filter iface_of_line (splitlines out))),
      tr @ [LinkList])"

fun sweep_with :: "(string \<Rightarrow> unit host) \<Rightarrow> (string \<Rightarrow> bool) \<Rightarrow> string list \<Rightarrow> string list host" where
  \<comment> \<open>the loops over candidates: skip what is not selected, delete, record, log failures\<close>
  "sweep_with del sel [] = ret []"
| "sweep_with del sel (n # ns) =
     (if \<not> sel n then sweep_with del sel ns
      else andthen (catch (andthen (del n) (\<lambda>_. ret [n])) (\<lambda>e. ret [])) (\<lambda>r.
           andthen (sweep_with del sel ns) (\<lambda>rs. ret (r @ rs))))"

definition sweep_node_host_ifaces :: "host_env \<Rightarrow> string \<Rightarrow> int \<Rightarrow> string list host" where
  "sweep_node_host_ifaces h lab_id node_id =
     (case get_instance_id (cfg h) of
        Inl HostNetInstanceIdMissing \<Rightarrow> ret []
      | Inl e \<Rightarrow> raise e
      | Inr iid \<Rightarrow>
          andthen (list_host_ifaces_prefixed h
                     (''nve'' @ hex4 (lab_hash (cfg h) lab_id iid) @ ''d'' @ dec_int node_id @ ''i''))
            (sweep_with (try_link_del h) (rx_dollar SWEEP_IFACE_SHAPE)))"

definition sweep_lab_host_ifaces :: "host_env \<Rightarrow> string \<Rightarrow> string list host" where
  "sweep_lab_host_ifaces h lab_id =
     (case get_instance_id (cfg h) of
        Inl HostNetInstanceIdMissing \<Rightarrow> ret []
      | Inl e \<Rightarrow> raise e
      | Inr iid \<Rightarrow>
          andthen (list_host_ifaces_prefixed h (''nve'' @ hex4 (lab_hash (cfg h) lab_id iid)))
            (sweep_with (try_link_del h) (rx_dollar SWEEP_IFACE_SHAPE)))"

definition known_hashes :: "host_cfg \<Rightarrow> string \<Rightarrow> string list \<Rightarrow> string list" where
  "known_hashes c iid known = map (\<lambda>lab. hex4 (lab_hash c lab iid)) known"

definition sweep_orphan_bridges :: "host_env \<Rightarrow> string list \<Rightarrow> string list host" where
  "sweep_orphan_bridges h known =
     (case get_instance_id (cfg h) of
        Inl HostNetInstanceIdMissing \<Rightarrow> ret []
      | Inl e \<Rightarrow> raise e
      | Inr iid \<Rightarrow>
          andthen (list_host_ifaces_prefixed h ''nove'')
            (sweep_with (try_bridge_del h) (\<lambda>n. rx_dollar BRIDGE_SHAPE n \<and>
               take 4 (drop 4 n) \<notin> set (known_hashes (cfg h) iid known))))"

definition sweep_orphan_ifaces :: "host_env \<Rightarrow> string list \<Rightarrow> string list host" where
  "sweep_orphan_ifaces h known =
     (case get_instance_id (cfg h) of
        Inl HostNetInstanceIdMissing \<Rightarrow> ret []
      | Inl e \<Rightarrow> raise e
      | Inr iid \<Rightarrow>
          andthen (list_host_ifaces_prefixed h ''nve'')
            (sweep_with (try_link_del h) (\<lambda>n. rx_dollar SWEEP_IFACE_SHAPE n \<and>
               take 4 (drop 3 n) \<notin> set (known_hashes (cfg h) iid known))))"

end
