(* ===== verification/Host_Net_Safety.thy ===== *)
theory Host_Net_Safety
  imports Host_Net
begin

text \<open>
  What the backend asks of the privileged helper: which calls the attach dispatch, the bridge
  deletion guard and the orphan sweeps may make, and what follows for the host when the helper
  runs them.
\<close>

section \<open>Calls of the single operations\<close>

lemma emits_invoke_helper [emits_rules]:
  "P (Helper verb args) \<Longrightarrow> emits P (invoke_helper h verb args)"
  by (auto simp: emits_def invoke_helper_def split: helper_reply.splits)

lemma emits_run_helper [emits_rules]:
  "P (Helper verb args) \<Longrightarrow> emits P (run_helper h verb args)"
  unfolding run_helper_def by (intro emits_rules)

lemma emits_list_host_ifaces [emits_rules]: "P LinkList \<Longrightarrow> emits P (list_host_ifaces_prefixed h p)"
  by (simp add: emits_def list_host_ifaces_prefixed_def)

lemma emits_try_link_del [emits_rules]:
  "P (Helper ''link-del'' [n]) \<Longrightarrow> emits P (try_link_del h n)"
  unfolding try_link_del_def link_del_def by (intro emits_rules)

lemma emits_try_bridge_del [emits_rules]:
  "(\<not> is_host_bridge_name n \<Longrightarrow> P (Helper ''bridge-del'' [n]) \<and> P (FpUnlink n)) \<Longrightarrow>
     emits P (try_bridge_del h n)"
  unfolding try_bridge_del_def bridge_del_def bridge_fingerprint_remove_def
  by (intro emits_rules) auto

lemma emits_sweep_with:
  "(\<And>n. n \<in> set ns \<Longrightarrow> sel n \<Longrightarrow> emits P (del n)) \<Longrightarrow> emits P (sweep_with del sel ns)"
proof (induction ns)
  case Nil
  then show ?case by (auto intro: emits_rules)
next
  case (Cons n ns)
  then show ?case unfolding sweep_with.simps by (intro emits_rules) auto
qed

lemma sweep_with_result:
  "fst (sweep_with del sel ns tr) = Inr rs \<Longrightarrow> set rs \<subseteq> {n \<in> set ns. sel n}"
proof (induction ns arbitrary: tr rs)
  case Nil
  then show ?case by (simp add: ret_def)
next
  case (Cons n ns)
  show ?case
  proof (cases "sel n")
    case False
    with Cons show ?thesis by auto
  next
    case True
    obtain r tr1 where r: "catch (andthen (del n) (\<lambda>_. ret [n])) (\<lambda>e. ret []) tr = (r, tr1)"
      by fastforce
    then have "r = Inr [n] \<or> r = Inr []"
      by (auto simp: traced_defs split: prod.splits sum.splits)
    moreover obtain q tr2 where q: "sweep_with del sel ns tr1 = (q, tr2)" by fastforce
    ultimately show ?thesis
      using Cons.prems Cons.IH [of tr1] True r
      by (cases q) (force simp: andthen_def ret_def)+
  qed
qed

section \<open>Fingerprints\<close>

text \<open>
  A bridge whose fingerprint was written for a lab and a network is recognised as that lab's and
  that network's, and as no other's.
\<close>

theorem fingerprint_identifies_owner:
  "fingerprint_status (Some (fingerprint_payload lab_id network_id now)) lab' net' = FpMatch \<longleftrightarrow>
     lab' = lab_id \<and> net' = network_id"
  by (auto simp: fingerprint_status_def fingerprint_payload_def jget_def)

section \<open>Attaching to bridges\<close>

lemma link_master_any_calls:
  "emits (\<lambda>c. (c = Helper ''link-master'' [iface, bridge] \<and> \<not> is_host_bridge_name bridge) \<or>
      (c = Helper ''link-master-host'' [iface, bridge] \<and> is_host_bridge_name bridge \<and>
       driver = Some ''bridge_cloud'')) (link_master_any h iface bridge driver)"
  unfolding link_master_any_def link_master_def link_master_host_def
  by (intro emits_rules) auto

lemma lab_bridge_not_host: "lab_bridge b \<Longrightarrow> \<not> rx_full HOST_BRIDGE_SHAPE b"
proof
  assume b: "lab_bridge b" "rx_full HOST_BRIDGE_SHAPE b"
  then have "starts_with ''nove'' b"
    by (auto simp: lab_bridge_def rx_dollar_iff starts_with_iff dest!: bridge_hd)
  with b(2) show False by (auto dest: host_bridge_hd starts_nove_br)
qed

lemma owned_not_host: "owned n \<Longrightarrow> \<not> rx_full HOST_BRIDGE_SHAPE n"
proof
  assume n: "owned n" "rx_full HOST_BRIDGE_SHAPE n"
  then have "starts_with ''nove'' n \<or> starts_with ''nve'' n"
    by (auto simp: owned_def rx_dollar_iff starts_with_iff dest!: bridge_hd tap_hd veth_hd)
  with n(2) show False by (auto dest: host_bridge_hd starts_nove_br starts_nve_br)
qed

lemma policy_master:
  assumes "policy w verb args (Run [ip_bin w, ''link'', ''set'', i, ''master'', b])"
  shows "own_iface args i" "b \<in> set args" "verb \<noteq> ''link-master-host'' \<Longrightarrow> lab_bridge b"
  using assms by (auto simp: ip_policy_def nft_policy_def chain_rules_def DOCKER_USER_def split: if_splits)

text \<open>
  C24. Across the process boundary: whatever the backend's attach dispatch asks the privileged helper
  to run, a command that enslaves an interface to a host-owned bridge is executed only for a
  network whose driver is \<open>bridge_cloud\<close>, and it enslaves the interface that was asked for to the
  bridge that was asked for.
\<close>

theorem host_bridge_attach_needs_bridge_cloud:
  assumes "Helper verb args \<in> set (snd (link_master_any h iface bridge driver []))"
    and "Run [ip_bin w, ''link'', ''set'', i, ''master'', b] \<in> set (snd (helper_main w (verb # args)))"
    and "rx_full HOST_BRIDGE_SHAPE b"
  shows "driver = Some ''bridge_cloud'' \<and> is_host_bridge_name bridge \<and>
     verb = ''link-master-host'' \<and> args = [iface, bridge] \<and> i = iface \<and> b = bridge"
proof -
  have "list_all (\<lambda>c. (c = Helper ''link-master'' [iface, bridge] \<and> \<not> is_host_bridge_name bridge) \<or>
      (c = Helper ''link-master-host'' [iface, bridge] \<and> is_host_bridge_name bridge \<and>
       driver = Some ''bridge_cloud'')) (snd (link_master_any h iface bridge driver []))"
    by (rule emits_trace [OF link_master_any_calls])
  then have cases: "(verb = ''link-master'' \<and> args = [iface, bridge]) \<or>
      (verb = ''link-master-host'' \<and> args = [iface, bridge] \<and> is_host_bridge_name bridge \<and>
       driver = Some ''bridge_cloud'')"
    using assms(1) by (force simp: list_all_iff)
  have "policy w verb args (Run [ip_bin w, ''link'', ''set'', i, ''master'', b])"
    using helper_policy [of w verb args] assms(2) unfolding list_all_iff by blast
  note p = policy_master [OF this]
  have host: "verb = ''link-master-host''"
    using p(3) lab_bridge_not_host assms(3) by blast
  moreover have "i \<in> {iface, bridge}" "b \<in> {iface, bridge}" "owned i"
    using p(1,2) cases by (auto simp: own_iface_def)
  moreover have "\<not> owned b" "\<not> owned bridge"
    using owned_not_host assms(3) cases host by (auto simp: is_host_bridge_name_def)
  ultimately show ?thesis using cases by auto
qed

definition demo_links :: string where
  "demo_links = ''1: nvebeefd1i0: x
2: nvebeefd11i0@if7: y
3: novecafen3: z''"

definition demo_host :: host_env where
  \<comment> \<open>a backend host for the examples: one TAP each of nodes 1 and 11 of lab \<open>lab\<close>, one bridge of
    another lab; every helper call fails with status 4\<close>
  "demo_host =
     \<lparr>cfg = demo_cfg, helper_says = (\<lambda>_ _ _. Reply 4 [] ''boom''), link_show = (\<lambda>_ _. IpMissing),
      link_list = (\<lambda>_. IpExit 0 demo_links),
      fp_at = (\<lambda>_ _. FpMissing), fp_write_ok = (\<lambda>_ _. True)\<rparr>"

theorem host_bridge_attach_needs_bridge_cloud_witness:
  "Some ''bridge_cloud'' = Some ''bridge_cloud'' \<and> is_host_bridge_name ''br-eth1'' \<and>
     ''link-master-host'' = ''link-master-host'' \<and> [''nvebeefd1i0'', ''br-eth1''] = [''nvebeefd1i0'', ''br-eth1'']
     \<and> ''nvebeefd1i0'' = ''nvebeefd1i0'' \<and> ''br-eth1'' = ''br-eth1''"
proof (rule host_bridge_attach_needs_bridge_cloud
    [of _ _ demo_host "''nvebeefd1i0''" "''br-eth1''" _ demo_world "''nvebeefd1i0''" "''br-eth1''"])
  show "Helper ''link-master-host'' [''nvebeefd1i0'', ''br-eth1'']
      \<in> set (snd (link_master_any demo_host ''nvebeefd1i0'' ''br-eth1'' (Some ''bridge_cloud'') []))"
    by code_simp
  show "Run [ip_bin demo_world, ''link'', ''set'', ''nvebeefd1i0'', ''master'', ''br-eth1'']
      \<in> set (snd (helper_main demo_world (''link-master-host'' # [''nvebeefd1i0'', ''br-eth1''])))"
    by code_simp
  show "rx_full HOST_BRIDGE_SHAPE ''br-eth1''" by code_simp
qed

section \<open>Deleting bridges and orphans\<close>

lemma policy_del: "policy w verb args (Run [ip_bin w, ''link'', ''del'', n]) \<Longrightarrow> owned n"
  by (auto simp: ip_policy_def own_iface_def nft_policy_def chain_rules_def DOCKER_USER_def)

text \<open>
  C25. No path of the system deletes a host-owned bridge: neither \<open>bridge_del\<close> nor the best-effort
  variant sends the helper a \<open>bridge-del\<close> for a \<open>br-eth\<close> name, and no verb of the helper,
  whatever its arguments, runs \<open>ip link del\<close> on one.
\<close>

theorem host_bridges_never_deleted:
  "\<not> (\<exists>n. is_host_bridge_name n \<and>
     (Helper ''bridge-del'' [n] \<in> set (snd (bridge_del h name []) @ snd (try_bridge_del h name [])) \<or>
      Run [ip_bin w, ''link'', ''del'', n] \<in> set (snd (helper_main w (verb # args)))))"
proof -
  let ?P = "\<lambda>c. \<forall>n. c = Helper ''bridge-del'' [n] \<longrightarrow> \<not> is_host_bridge_name n"
  have "emits ?P (bridge_del h name)"
    unfolding bridge_del_def bridge_fingerprint_remove_def by (intro emits_rules) auto
  moreover have "emits ?P (try_bridge_del h name)"
    by (intro emits_try_bridge_del) auto
  ultimately have "list_all ?P (snd (bridge_del h name []) @ snd (try_bridge_del h name []))"
    by (simp add: emits_trace)
  then have "\<not> is_host_bridge_name n"
    if "Helper ''bridge-del'' [n] \<in> set (snd (bridge_del h name []) @ snd (try_bridge_del h name []))" for n
    using that unfolding list_all_iff by blast
  moreover have "\<not> is_host_bridge_name n"
    if "Run [ip_bin w, ''link'', ''del'', n] \<in> set (snd (helper_main w (verb # args)))" for n
    using that helper_policy [of w verb args] policy_del owned_not_host
    unfolding list_all_iff is_host_bridge_name_def by blast
  ultimately show ?thesis by blast
qed

lemma bridge_text_hash: "x < 65536 \<Longrightarrow> take 4 (drop 4 (bridge_text x n)) = hex4 x"
  by (simp add: bridge_text_def length_hex4)

lemma tap_text_hash: "x < 65536 \<Longrightarrow> take 4 (drop 3 (tap_text x d i @ s)) = hex4 x"
  by (simp add: tap_text_def length_hex4)

lemma sweep_orphan_bridges_calls:
  assumes "get_instance_id (cfg h) = Inr iid"
    and "Helper ''bridge-del'' [n] \<in> set (snd (sweep_orphan_bridges h known []))"
  shows "take 4 (drop 4 n) \<notin> set (known_hashes (cfg h) iid known)"
proof -
  have "emits (\<lambda>c. \<forall>n. c = Helper ''bridge-del'' [n] \<longrightarrow>
      take 4 (drop 4 n) \<notin> set (known_hashes (cfg h) iid known)) (sweep_orphan_bridges h known)"
    using assms(1) unfolding sweep_orphan_bridges_def
    by (simp, intro emits_andthen emits_list_host_ifaces emits_sweep_with emits_try_bridge_del) auto
  from emits_trace [OF this] assms(2) show ?thesis unfolding list_all_iff by blast
qed

lemma sweep_orphan_ifaces_calls:
  assumes "get_instance_id (cfg h) = Inr iid"
    and "Helper ''link-del'' [n] \<in> set (snd (sweep_orphan_ifaces h known []))"
  shows "take 4 (drop 3 n) \<notin> set (known_hashes (cfg h) iid known)"
proof -
  have "emits (\<lambda>c. \<forall>n. c = Helper ''link-del'' [n] \<longrightarrow>
      take 4 (drop 3 n) \<notin> set (known_hashes (cfg h) iid known)) (sweep_orphan_ifaces h known)"
    using assms(1) unfolding sweep_orphan_ifaces_def
    by (simp, intro emits_andthen emits_list_host_ifaces emits_sweep_with emits_try_link_del) auto
  from emits_trace [OF this] assms(2) show ?thesis unfolding list_all_iff by blast
qed

lemma known_hashes_mem:
  "lab \<in> set known \<Longrightarrow> hex4 (lab_hash c lab iid) \<in> set (known_hashes c iid known)"
  by (simp add: known_hashes_def)

lemma tap_or_veth_hash:
  assumes "get_instance_id (cfg h) = Inr iid"
    and "tap_name (cfg h) lab d i = Inr t \<or> veth_host_name (cfg h) lab d i = Inr t"
  shows "take 4 (drop 3 t) = hex4 (lab_hash (cfg h) lab iid)"
  using assms tap_text_hash [of "lab_hash (cfg h) lab iid" d i "[]"]
    tap_text_hash [of "lab_hash (cfg h) lab iid" d i "''h''"]
  by (auto simp: tap_name_def veth_host_name_def)

lemma bridge_name_hash:
  assumes "get_instance_id (cfg h) = Inr iid" and "bridge_name (cfg h) lab k = Inr b"
  shows "take 4 (drop 4 b) = hex4 (lab_hash (cfg h) lab iid)"
  using assms bridge_text_hash [of "lab_hash (cfg h) lab iid" k]
  by (auto simp: bridge_name_def)

lemma no_id_no_names:
  assumes "get_instance_id (cfg h) = Inl e"
  shows "bridge_name (cfg h) lab k = Inl e" "tap_name (cfg h) lab d i = Inl e"
    "veth_host_name (cfg h) lab d i = Inl e"
  using assms by (simp_all add: bridge_name_def tap_name_def veth_host_name_def named_def)

text \<open>
  C38. The orphan sweep never touches what a lab on disk owns: a bridge named for a known lab is not
  among the bridges it asks the helper to delete, and neither is a TAP or veth end of one.
\<close>

theorem sweeps_spare_known_labs:
  assumes "lab \<in> set known"
  shows "(bridge_name (cfg h) lab k = Inr b \<longrightarrow>
            Helper ''bridge-del'' [b] \<notin> set (snd (sweep_orphan_bridges h known []))) \<and>
         (tap_name (cfg h) lab d i = Inr t \<or> veth_host_name (cfg h) lab d i = Inr t \<longrightarrow>
            Helper ''link-del'' [t] \<notin> set (snd (sweep_orphan_ifaces h known [])))"
proof (cases "get_instance_id (cfg h)")
  case (Inl e)
  then show ?thesis by (simp add: no_id_no_names)
next
  case (Inr iid)
  show ?thesis
    using known_hashes_mem [OF assms, of "cfg h" iid] sweep_orphan_bridges_calls [OF Inr, of b known]
      sweep_orphan_ifaces_calls [OF Inr, of t known] tap_or_veth_hash [OF Inr, of lab d i t]
      bridge_name_hash [OF Inr, of lab k b] by metis
qed

theorem sweeps_spare_known_labs_witness:
  "bridge_name demo_cfg ''lab'' 3 = Inr ''novebeefn3'' \<and>
   Helper ''bridge-del'' [''novebeefn3''] \<notin> set (snd (sweep_orphan_bridges demo_host [''lab''] [])) \<and>
   Helper ''bridge-del'' [''novecafen3''] \<in> set (snd (sweep_orphan_bridges demo_host [''lab''] []))"
proof -
  have n: "bridge_name (cfg demo_host) ''lab'' 3 = Inr ''novebeefn3''" by code_simp
  have "Helper ''bridge-del'' [''novecafen3''] \<in> set (snd (sweep_orphan_bridges demo_host [''lab''] []))"
    by code_simp
  moreover have "''lab'' \<in> set [''lab'']" by simp
  note sweeps_spare_known_labs [OF this, THEN conjunct1, THEN mp, OF n]
  ultimately show ?thesis using n by (simp add: demo_host_def)
qed

section \<open>Sweeping a node\<close>

lemma takeWhile_split_on: "CHR ''i'' \<notin> set s \<Longrightarrow> CHR ''i'' \<notin> set t \<Longrightarrow>
   s @ CHR ''i'' # u = t @ CHR ''i'' # v \<longleftrightarrow> s = t \<and> u = v"
  by (rule sep_append_eq)

lemma node_prefix_inj:
  assumes "x < 65536" "y < 65536"
    and "starts_with (''nve'' @ hex4 x @ ''d'' @ dec_int d @ ''i'') (tap_text y e j @ s)"
  shows "x = y \<and> d = e"
  using assms by (auto simp: starts_with_iff tap_text_def length_hex4 hex4_inj
      sep_append_eq i_notin_dec_int)

lemma listed_prefix:
  "fst (list_host_ifaces_prefixed h p tr) = Inr ns \<Longrightarrow> list_all (starts_with p) ns"
  by (auto simp: list_host_ifaces_prefixed_def list_all_iff split: ip_show.splits if_splits)

lemma emits_listed:
  assumes "\<And>ns. list_all (starts_with p) ns \<Longrightarrow> emits P (f ns)" and "P LinkList"
  shows "emits P (andthen (list_host_ifaces_prefixed h p) f)"
  unfolding emits_def
proof
  fix tr
  obtain ns where ns: "list_host_ifaces_prefixed h p tr = (Inr ns, tr @ [LinkList])"
    by (simp add: list_host_ifaces_prefixed_def)
  then have "list_all (starts_with p) ns" using listed_prefix [of h p tr ns] by simp
  then obtain new where "snd (f ns (tr @ [LinkList])) = (tr @ [LinkList]) @ new" "list_all P new"
    using assms(1) [of ns] unfolding emits_def by blast
  then show "\<exists>new. snd (andthen (list_host_ifaces_prefixed h p) f tr) = tr @ new \<and> list_all P new"
    using ns assms(2) by (auto simp: andthen_def intro!: exI [of _ "LinkList # new"])
qed

lemma sweep_node_calls:
  assumes "get_instance_id (cfg h) = Inr iid"
    and "Helper ''link-del'' [n] \<in> set (snd (sweep_node_host_ifaces h lab d []))"
  shows "starts_with (''nve'' @ hex4 (lab_hash (cfg h) lab iid) @ ''d'' @ dec_int d @ ''i'') n"
proof -
  let ?p = "''nve'' @ hex4 (lab_hash (cfg h) lab iid) @ ''d'' @ dec_int d @ ''i''"
  have "emits (\<lambda>c. \<forall>n. c = Helper ''link-del'' [n] \<longrightarrow> starts_with ?p n)
      (sweep_node_host_ifaces h lab d)"
    unfolding sweep_node_host_ifaces_def assms(1) sum.case
    by (intro emits_listed emits_sweep_with emits_try_link_del) (auto simp: list_all_iff)
  from emits_trace [OF this] assms(2) show ?thesis unfolding list_all_iff by blast
qed

text \<open>
  Sweeping the interfaces of one node leaves those of every other node of the lab alone, also
  when one node number is a prefix of the other: an interface named for another node is not
  among the deletions.
\<close>

theorem node_sweep_spares_other_nodes:
  assumes "tap_name (cfg h) lab e j = Inr t \<or> veth_host_name (cfg h) lab e j = Inr t \<or>
      veth_peer_name (cfg h) lab e j = Inr t"
    and "d \<noteq> e"
  shows "Helper ''link-del'' [t] \<notin> set (snd (sweep_node_host_ifaces h lab d []))"
proof
  assume del: "Helper ''link-del'' [t] \<in> set (snd (sweep_node_host_ifaces h lab d []))"
  obtain iid s where i: "get_instance_id (cfg h) = Inr iid"
      and t: "t = tap_text (lab_hash (cfg h) lab iid) e j @ s"
    using assms(1) by (auto simp: tap_name_def veth_host_name_def veth_peer_name_def bindr_eq_Inr)
  then show False
    using node_prefix_inj sweep_node_calls [OF i del] assms(2) lab_hash_bound by blast
qed

theorem node_sweep_spares_other_nodes_witness:
  "Helper ''link-del'' [''nvebeefd11i0''] \<notin> set (snd (sweep_node_host_ifaces demo_host ''lab'' 1 [])) \<and>
   Helper ''link-del'' [''nvebeefd1i0''] \<in> set (snd (sweep_node_host_ifaces demo_host ''lab'' 1 []))"
proof
  have n: "tap_name (cfg demo_host) ''lab'' 11 0 = Inr ''nvebeefd11i0''" by code_simp
  show "Helper ''link-del'' [''nvebeefd11i0''] \<notin> set (snd (sweep_node_host_ifaces demo_host ''lab'' 1 []))"
    by (rule node_sweep_spares_other_nodes [where e = 11 and j = 0]) (simp_all add: n)
  show "Helper ''link-del'' [''nvebeefd1i0''] \<in> set (snd (sweep_node_host_ifaces demo_host ''lab'' 1 []))"
    by code_simp
qed

section \<open>What a sweep reports\<close>

lemma try_link_del_returns:
  assumes "\<forall>tr n. \<exists>rc out err. helper_says h tr ''link-del'' [n] = Reply rc out err \<and> rc \<noteq> 2"
  shows "\<exists>tr'. try_link_del h n tr = (Inr (), tr')"
proof -
  obtain rc out err where "helper_says h tr ''link-del'' [n] = Reply rc out err" "rc \<noteq> 2"
    using assms by blast
  then show ?thesis
    by (auto simp: try_link_del_def link_del_def run_helper_def invoke_helper_def catch_def
        andthen_def ret_def classify_helper_error_def Let_def)
qed

lemma sweep_with_all:
  assumes "\<And>n tr. \<exists>tr'. del n tr = (Inr (), tr')"
  shows "fst (sweep_with del sel ns tr) = Inr (filter sel ns)"
proof (induction ns arbitrary: tr)
  case Nil
  then show ?case by (simp add: ret_def)
next
  case (Cons n ns)
  obtain tr1 where "del n tr = (Inr (), tr1)" using assms by blast
  moreover obtain tr2 where "sweep_with del sel ns tr1 = (Inr (filter sel ns), tr2)"
    using Cons [of tr1] by (metis prod.collapse)
  ultimately show ?case using Cons by (simp add: catch_def andthen_def ret_def)
qed

text \<open>
  A lab sweep reports every candidate as removed, whether or not its deletion succeeded: for
  any replies of the helper other than a validation error, all of them failures included, the
  result is the list of the lab's interfaces in the order they were listed.
\<close>

theorem lab_sweep_reports_failed_deletions:
  assumes "get_instance_id (cfg h) = Inr iid"
    and "\<forall>tr n. \<exists>rc out err. helper_says h tr ''link-del'' [n] = Reply rc out err \<and> rc \<noteq> 2"
    and "link_list h [] = IpExit 0 out"
  shows "fst (sweep_lab_host_ifaces h lab []) =
     Inr (filter (\<lambda>n. starts_with (''nve'' @ hex4 (lab_hash (cfg h) lab iid)) n \<and>
        rx_dollar SWEEP_IFACE_SHAPE n) (List.map_filter iface_of_line (splitlines out)))"
  unfolding sweep_lab_host_ifaces_def assms(1) sum.case andthen_def
  using sweep_with_all [OF try_link_del_returns [OF assms(2)]] assms(3)
  by (simp add: list_host_ifaces_prefixed_def conj_commute)

theorem lab_sweep_reports_failed_deletions_witness:
  "fst (sweep_lab_host_ifaces demo_host ''lab'' []) = Inr [''nvebeefd1i0'', ''nvebeefd11i0'']"
proof -
  have iid: "get_instance_id (cfg demo_host) = Inr ''host-1''" by code_simp
  have r: "filter (\<lambda>n. starts_with (''nve'' @ hex4 (lab_hash (cfg demo_host) ''lab'' ''host-1'')) n \<and>
        rx_dollar SWEEP_IFACE_SHAPE n) (List.map_filter iface_of_line (splitlines demo_links)) = [''nvebeefd1i0'', ''nvebeefd11i0'']"
    by code_simp
  show ?thesis
    using lab_sweep_reports_failed_deletions [OF iid, of demo_links "''lab''"] r
    by (simp add: demo_host_def)
qed

section \<open>Lengths of names\<close>

text \<open>
  The veth name of a node numbered below 1000 fits the fourteen characters the code asserts,
  except exactly when the node has three digits and the interface two: then computing the name
  raises AssertionError.
\<close>

theorem veth_name_overflow:
  assumes "get_instance_id c = Inr iid" and "d < 1000" and "i < 100"
  shows "veth_host_name c lab (int d) (int i) = Inl AssertionError \<longleftrightarrow> 100 \<le> d \<and> 10 \<le> i"
proof -
  have "length (dec d) \<le> 3" "length (dec i) \<le> 2" "length (dec d) \<le> 2 \<longleftrightarrow> d < 100"
    "length (dec i) \<le> 1 \<longleftrightarrow> i < 10" "1 \<le> length (dec i)" "1 \<le> length (dec d)"
    using dec_length_le [of 3 d] dec_length_le [of 2 i] dec_length_le [of 2 d]
      dec_length_le [of 1 i] assms(2,3) by (simp_all add: Suc_le_eq)
  then show ?thesis
    using assms(1) length_tap_text [of "lab_hash c lab iid" d i]
    by (auto simp: veth_host_name_def named_def)
qed

theorem veth_name_overflow_witness:
  "veth_host_name demo_cfg ''lab'' (int 100) (int 10) = Inl AssertionError"
proof -
  have "get_instance_id demo_cfg = Inr ''host-1''" by code_simp
  from veth_name_overflow [OF this, of 100 10] show ?thesis by simp
qed

end
