(* ===== verification/Lab_Doc.thy ===== *)
theory Lab_Doc
  imports Py_Json
begin

text \<open>
  The lab document (\<open>app/services/lab_service.py\<close>): the legacy views a read adds to the JSON
  object (\<open>topology\<close>, the \<open>network_id\<close> of every interface, the \<open>count\<close> of every network), the
  conversion of a legacy topology to links, and the clean-up a write performs. Every access is
  the one of the code on an arbitrary JSON value; the exception it raises is the error side.

  The lemmas show that the derived views never reach the disk: writing what was read gives the
  document that was there, and that the counts are the numbers of link ends.
\<close>

section \<open>Legacy topology\<close>

definition link_list :: "json \<Rightarrow> py_exc + json list" where
  \<comment> \<open>\<open>data.get("links", []) or []\<close>, iterated\<close>
  "link_list data = piter (jor (jget data ''links'' (JList [])) (JList []))"

definition link_ends :: "json \<Rightarrow> py_exc + json \<times> json" where
  \<comment> \<open>\<open>link.get("from") or {}\<close> and \<open>link.get("to") or {}\<close>\<close>
  "link_ends link =
     bindr (pget link ''from'' JNull) (\<lambda>a. bindr (pget link ''to'' JNull) (\<lambda>b.
       Inr (jor a (JObj []), jor b (JObj []))))"

definition node_of :: "json \<Rightarrow> json \<Rightarrow> py_exc + json" where
  \<comment> \<open>\<open>nodes.get(str(endpoint.get("node_id"))) or {}\<close>\<close>
  "node_of nodes endpoint =
     bindr (pget endpoint ''node_id'' JNull) (\<lambda>i.
     bindr (pget nodes (py_str i) JNull) (\<lambda>n. Inr (jor n (JObj []))))"

definition text_field :: "json \<Rightarrow> string \<Rightarrow> string \<Rightarrow> py_exc + json" where
  \<comment> \<open>\<open>str(v.get(k, d) or d)\<close>\<close>
  "text_field v k d = bindr (pget v k (JStr d)) (\<lambda>x. Inr (JStr (py_str (jor x (JStr d)))))"

definition name_field :: "json \<Rightarrow> py_exc + json" where
  \<comment> \<open>\<open>str(node.get("name", ""))\<close>\<close>
  "name_field n = bindr (pget n ''name'' (JStr [])) (\<lambda>x. Inr (JStr (py_str x)))"

definition iface_field :: "json \<Rightarrow> int \<Rightarrow> py_exc + int" where
  \<comment> \<open>\<open>int(endpoint.get("interface_index", d))\<close>\<close>
  "iface_field ep d = bindr (pget ep ''interface_index'' (JInt d)) py_int"

definition topology_entry ::
    "json \<Rightarrow> json \<Rightarrow> int \<Rightarrow> string \<Rightarrow> json \<Rightarrow> string \<Rightarrow> json \<Rightarrow> json \<Rightarrow> json \<Rightarrow> py_exc + json" where
  "topology_entry src src_name src_if dst dst_name dst_type dst_if net link =
     bindr (text_field link ''label'' []) (\<lambda>l. bindr (text_field link ''color'' []) (\<lambda>c.
     bindr (text_field link ''width'' ''1'') (\<lambda>w.
       Inr (JObj [(''type'', JStr ''ethernet''), (''source'', JStr (''node'' @ py_str src)),
         (''source_node_name'', src_name), (''source_type'', JStr ''node''),
         (''source_label'', JStr []), (''source_interfaceId'', JInt src_if),
         (''destination'', JStr dst), (''destination_node_name'', dst_name),
         (''destination_type'', JStr dst_type), (''destination_label'', JStr []),
         (''destination_interfaceId'', dst_if), (''network_id'', net),
         (''label'', l), (''color'', c), (''width'', w)]))))"

definition topology_of_link :: "json \<Rightarrow> json \<Rightarrow> py_exc + json option" where
  "topology_of_link nodes link =
     bindr (link_ends link) (\<lambda>(a, b).
     bindr (pin ''node_id'' a) (\<lambda>an.
     bindr (if an then pin ''node_id'' b else Inr False) (\<lambda>bn.
       if an \<and> bn then
         bindr (node_of nodes a) (\<lambda>src. bindr (node_of nodes b) (\<lambda>dst.
         bindr (name_field src) (\<lambda>sn. bindr (iface_field a 0) (\<lambda>si.
         bindr (name_field dst) (\<lambda>dn. bindr (iface_field b 0) (\<lambda>di.
         bindr (topology_entry (jget0 a ''node_id'') sn si
                  (''node'' @ py_str (jget0 b ''node_id'')) dn ''node'' (JInt di) (JInt 0) link)
           (\<lambda>t. Inr (Some t))))))))
       else
         bindr (pin ''network_id'' b) (\<lambda>bw.
         let node_ep = (if an then a else b); net_ep = (if bw then b else a) in
         bindr (pin ''node_id'' node_ep) (\<lambda>hn.
         bindr (if hn then pin ''network_id'' net_ep else Inr False) (\<lambda>hw.
           if \<not> hn \<or> \<not> hw then Inr None
           else
             bindr (node_of nodes node_ep) (\<lambda>src.
             bindr (bindr (pget net_ep ''network_id'' (JInt 0)) py_int) (\<lambda>net.
             bindr (name_field src) (\<lambda>sn. bindr (iface_field node_ep 0) (\<lambda>si.
             bindr (topology_entry (jget0 node_ep ''node_id'') sn si
                      (''network'' @ dec_int net) (JStr []) ''network'' (JStr ''network'') (JInt net) link)
               (\<lambda>t. Inr (Some t))))))))))))"

definition nodes_of :: "json \<Rightarrow> json" where
  \<comment> \<open>\<open>data.get("nodes", {}) or {}\<close>\<close>
  "nodes_of data = jor (jget data ''nodes'' (JObj [])) (JObj [])"

definition derive_legacy_topology :: "json \<Rightarrow> py_exc + json" where
  "derive_legacy_topology data =
     bindr (link_list data) (\<lambda>ls. bindr (mapr (topology_of_link (nodes_of data)) ls) (\<lambda>ts.
       Inr (JList (List.map_filter id ts))))"

section \<open>Interface networks\<close>

definition zero_iface :: "json \<Rightarrow> json" where
  "zero_iface v = (if is_obj v then jset ''network_id'' (JInt 0) v else v)"

definition zero_node :: "json \<Rightarrow> py_exc + json" where
  \<comment> \<open>only a list can hold objects to change; iterating anything else must not fail\<close>
  "zero_node node =
     bindr (pget node ''interfaces'' (JList [])) (\<lambda>i.
     bindr (piter (jor i (JList []))) (\<lambda>_.
       Inr (case jfind node ''interfaces'' of
              Some (JList xs) \<Rightarrow> jset ''interfaces'' (JList (map zero_iface xs)) node
            | _ \<Rightarrow> node)))"

definition set_iface_network :: "int \<Rightarrow> json \<Rightarrow> json \<Rightarrow> py_exc + json" where
  \<comment> \<open>the body of the loop over the node ends of a link; the state is the dict of nodes\<close>
  "set_iface_network net ep nodes =
     bindr (node_of nodes ep) (\<lambda>node.
     bindr (pget node ''interfaces'' JNull) (\<lambda>i. let ifs = jor i (JList []) in
     bindr (iface_field ep (- 1)) (\<lambda>idx.
       if idx < 0 then Inr nodes
       else bindr (plen ifs) (\<lambda>n.
         if int n \<le> idx then Inr nodes
         else bindr (pindex ifs (nat idx)) (\<lambda>v.
           if is_obj v then
             Inr (jset (py_str (jget0 ep ''node_id''))
                    (jset ''interfaces''
                       (JList ((list_of ifs)[nat idx := jset ''network_id'' (JInt net) v])) node) nodes)
           else Inr nodes)))))"

definition classify_ends :: "json list \<Rightarrow> py_exc + (json list \<times> json option)" where
  \<comment> \<open>the node ends, and the last network end\<close>
  "classify_ends eps =
     forr (\<lambda>ep (ns, w). bindr (pin ''node_id'' ep) (\<lambda>n.
         if n then Inr (ns @ [ep], w)
         else bindr (pin ''network_id'' ep) (\<lambda>k. Inr (if k then (ns, Some ep) else (ns, w)))))
       eps ([], None)"

definition apply_link_network :: "json \<Rightarrow> json \<Rightarrow> py_exc + json" where
  "apply_link_network link nodes =
     bindr (link_ends link) (\<lambda>(a, b).
     bindr (classify_ends [a, b]) (\<lambda>(ns, w).
       case w of None \<Rightarrow> Inr nodes
       | Some we \<Rightarrow>
           bindr (bindr (pget we ''network_id'' (JInt 0)) py_int) (\<lambda>net.
             if net = 0 then Inr nodes else forr (set_iface_network net) ns nodes)))"

definition map_values :: "(json \<Rightarrow> 'e + json) \<Rightarrow> (string \<times> json) list \<Rightarrow> 'e + (string \<times> json) list" where
  "map_values f kvs = mapr (\<lambda>(k, v). bindr (f v) (\<lambda>v'. Inr (k, v'))) kvs"

definition derive_legacy_interface_network_ids :: "json \<Rightarrow> py_exc + json" where
  \<comment> \<open>an absent or empty \<open>nodes\<close> is a fresh dict nobody keeps\<close>
  "derive_legacy_interface_network_ids data =
     bindr (pitems (nodes_of data)) (\<lambda>kvs. bindr (map_values zero_node kvs) (\<lambda>kvs'.
     bindr (link_list data) (\<lambda>ls. bindr (forr apply_link_network ls (JObj kvs')) (\<lambda>nodes.
       Inr (if truthy (jget0 data ''nodes'') then jset ''nodes'' nodes data else data)))))"

section \<open>Network counts\<close>

definition count_end :: "json \<Rightarrow> (int \<Rightarrow> nat) \<Rightarrow> py_exc + (int \<Rightarrow> nat)" where
  "count_end ep c =
     (if is_obj ep \<and> jhas ep ''network_id'' then
        bindr (py_int (jget0 ep ''network_id'')) (\<lambda>n. Inr (if n = 0 then c else c(n := c n + 1)))
      else Inr c)"

definition count_link :: "json \<Rightarrow> (int \<Rightarrow> nat) \<Rightarrow> py_exc + (int \<Rightarrow> nat)" where
  "count_link link c = bindr (link_ends link) (\<lambda>(a, b). forr count_end [a, b] c)"

definition set_count :: "(int \<Rightarrow> nat) \<Rightarrow> string \<times> json \<Rightarrow> string \<times> json" where
  "set_count c p =
     (case p of (key, net) \<Rightarrow>
        (key, if is_obj net then
                (let n = (case py_int (jget net ''id'' (JStr key)) of Inl e \<Rightarrow> 0 | Inr i \<Rightarrow> i)
                 in jset ''count'' (JInt (int (c n))) net)
              else net))"

definition derive_network_counts :: "json \<Rightarrow> py_exc + json" where
  "derive_network_counts data =
     bindr (link_list data) (\<lambda>ls. bindr (forr count_link ls (\<lambda>_. 0)) (\<lambda>c.
     bindr (pitems (jor (jget0 data ''networks'') (JObj []))) (\<lambda>kvs.
       Inr (if truthy (jget0 data ''networks'')
            then jset ''networks'' (JObj (map (set_count c) kvs)) data else data))))"

section \<open>Reading\<close>

definition SCHEMA_VERSION :: int where
  "SCHEMA_VERSION = 2"

definition read_doc :: "json \<Rightarrow> py_exc + json" where
  \<comment> \<open>what \<open>read_lab_json_static\<close> makes of the parsed file\<close>
  "read_doc data =
     (if \<not> is_obj data \<or> \<not> py_eq (jget0 data ''schema'') (JInt SCHEMA_VERSION) then Inl PyValueError
      else bindr (derive_legacy_topology data) (\<lambda>t.
           bindr (derive_legacy_interface_network_ids (jset ''topology'' t data)) derive_network_counts))"

section \<open>Writing\<close>

definition node_number :: "string \<Rightarrow> int option" where
  "node_number v =
     (if starts_with ''node'' v \<and> isdigit (drop 4 v) then Some (int (undec (drop 4 v))) else None)"

definition int_or0 :: "json \<Rightarrow> string \<Rightarrow> py_exc + int" where
  \<comment> \<open>\<open>int(entry.get(k, 0) or 0)\<close>\<close>
  "int_or0 v k = py_int (jor (jget v k (JInt 0)) (JInt 0))"

definition link_to_network :: "json \<Rightarrow> int \<Rightarrow> int \<Rightarrow> int \<Rightarrow> json" where
  "link_to_network link n i net =
     jset ''to'' (JObj [(''network_id'', JInt net)])
       (jset ''from'' (JObj [(''node_id'', JInt n), (''interface_index'', JInt i)]) link)"

definition legacy_entry_to_link :: "nat \<Rightarrow> json \<Rightarrow> py_exc + json option" where
  "legacy_entry_to_link index entry =
     (if \<not> is_obj entry then Inr None
      else
        let src = node_number (py_str (jor (jget entry ''source'' (JStr [])) (JStr [])));
            dst = node_number (py_str (jor (jget entry ''destination'' (JStr [])) (JStr [])));
            dst_if = (case py_int (jget entry ''destination_interfaceId'' (JInt 0)) of Inl e \<Rightarrow> 0 | Inr i \<Rightarrow> i);
            src_if = py_int (jor (jget entry ''source_interfaceId'' (JInt 0)) (JInt 0))
        in
        bindr (int_or0 entry ''network_id'') (\<lambda>net.
        bindr (int_or0 entry ''source_delay'') (\<lambda>delay. bindr (int_or0 entry ''source_loss'') (\<lambda>loss.
        bindr (int_or0 entry ''source_bandwidth'') (\<lambda>bw. bindr (int_or0 entry ''source_jitter'') (\<lambda>jit.
        let link = JObj
          [(''id'', jor (jget0 entry ''id'') (JStr (''lnk_'' @ zpad 3 (dec (index + 1))))),
           (''style_override'', JNull),
           (''label'', JStr (py_str (jor (jget entry ''label'' (JStr [])) (JStr [])))),
           (''color'', JStr (py_str (jor (jget entry ''color'' (JStr [])) (JStr [])))),
           (''width'', JStr (py_str (jor (jget entry ''width'' (JStr ''1'')) (JStr ''1'')))),
           (''metrics'', JObj [(''delay_ms'', JInt delay), (''loss_pct'', JInt loss),
              (''bandwidth_kbps'', JInt bw), (''jitter_ms'', JInt jit)])]
        in
        (case (src, dst) of
           (Some s, Some d) \<Rightarrow>
             bindr src_if (\<lambda>i.
               if net = 0 then
                 Inr (Some (jset ''to'' (JObj [(''node_id'', JInt d), (''interface_index'', JInt dst_if)])
                       (jset ''from'' (JObj [(''node_id'', JInt s), (''interface_index'', JInt i)]) link)))
               else Inr (Some (link_to_network link s i net)))
         | (Some s, None) \<Rightarrow>
             if net = 0 then Inr None else bindr src_if (\<lambda>i. Inr (Some (link_to_network link s i net)))
         | (None, Some d) \<Rightarrow>
             Inr (if net = 0 then None else Some (link_to_network link d dst_if net))
         | (None, None) \<Rightarrow> Inr None)))))))"

definition legacy_topology_to_links :: "json \<Rightarrow> py_exc + json list" where
  "legacy_topology_to_links data =
     bindr (piter (jor (jget data ''topology'' (JList [])) (JList []))) (\<lambda>ts.
     bindr (mapr (\<lambda>(i, t). legacy_entry_to_link i t) (enumerate 0 ts)) (\<lambda>ls.
       Inr (List.map_filter id ls)))"

definition drop_keys :: "string list \<Rightarrow> json \<Rightarrow> json" where
  "drop_keys ks v = (if is_obj v then JObj (filter (\<lambda>(k, x). k \<notin> set ks) (obj_of v)) else v)"

definition strip_node :: "json \<Rightarrow> json" where
  "strip_node n =
     (case jfind n ''interfaces'' of
        Some (JList xs) \<Rightarrow> jset ''interfaces'' (JList (map (drop_keys [''network_id'']) xs)) n
      | _ \<Rightarrow> n)"

definition strip_nodes :: "json \<Rightarrow> json" where
  "strip_nodes c =
     (case jfind c ''nodes'' of
        Some (JObj kvs) \<Rightarrow> jset ''nodes'' (JObj (map (\<lambda>(k, v). (k, strip_node v)) kvs)) c
      | _ \<Rightarrow> c)"

definition strip_networks :: "json \<Rightarrow> json" where
  "strip_networks c =
     (case jfind c ''networks'' of
        Some (JObj kvs) \<Rightarrow>
          jset ''networks'' (JObj (map (\<lambda>(k, v). (k, drop_keys [''count''] v)) kvs)) c
      | _ \<Rightarrow> c)"

definition strip_legacy_fields :: "json \<Rightarrow> json" where
  "strip_legacy_fields data = strip_networks (strip_nodes (jdel ''topology'' data))"

definition has_v2_shape :: "json \<Rightarrow> bool" where
  "has_v2_shape d \<longleftrightarrow> is_obj d \<and> (jhas d ''links'' \<or> is_obj (jget0 d ''networks''))"

definition complete_doc :: "json \<Rightarrow> json" where
  \<comment> \<open>the defaults of a write and the schema version\<close>
  "complete_doc c =
     (let d = jdefault ''defaults'' (JObj [(''link_style'', JStr ''orthogonal'')])
               (jdefault ''viewport'' (JObj [(''x'', JInt 0), (''y'', JInt 0), (''zoom'', JFloat ''1.0'' 1 True)])
               (jdefault ''links'' (JList []) (jdefault ''schema'' (JInt SCHEMA_VERSION) c)))
      in if has_v2_shape d \<and> \<not> py_eq (jget0 d ''schema_version'') (JInt SCHEMA_VERSION)
         then jset ''schema_version'' (JInt SCHEMA_VERSION) d else d)"

definition write_doc :: "json \<Rightarrow> py_exc + json" where
  \<comment> \<open>what \<open>write_lab_json_static\<close> puts into the file for a dict\<close>
  "write_doc data =
     bindr (if jhas data ''topology'' \<and> \<not> truthy (jget0 data ''links'')
            then bindr (legacy_topology_to_links data) (\<lambda>ls. Inr (jset ''links'' (JList ls) data))
            else Inr data) (\<lambda>d. Inr (complete_doc (strip_legacy_fields d)))"

section \<open>Updates that cancel\<close>

lemma obj_set_set [simp]: "obj_set k v (obj_set k w kvs) = obj_set k v kvs"
  by (induction kvs) auto

lemma obj_set_same: "obj_get kvs k = Some v \<Longrightarrow> obj_set k v kvs = kvs"
  by (induction kvs) (auto split: if_splits)

lemma obj_set_commute:
  "k \<noteq> l \<Longrightarrow> obj_get kvs k = Some x \<Longrightarrow> obj_set k v (obj_set l w kvs) = obj_set l w (obj_set k v kvs)"
  by (induction kvs) auto

lemma obj_del_set [simp]:
  "obj_del k (obj_set k v kvs) = obj_del k kvs"
  "k \<noteq> l \<Longrightarrow> obj_del k (obj_set l v kvs) = obj_set l v (obj_del k kvs)"
  by (induction kvs) (auto simp: obj_del_def)

lemma jset_jset [simp]: "jset k v (jset k w d) = jset k v d"
  by (simp add: jset_def)

lemma jset_same: "jfind d k = Some v \<Longrightarrow> jset k v d = d"
  by (cases d) (simp_all add: jset_def jfind_def obj_set_same)

lemma jset_commute: "k \<noteq> l \<Longrightarrow> jfind d k = Some x \<Longrightarrow> jset k v (jset l w d) = jset l w (jset k v d)"
  by (cases d) (auto simp: jset_def jfind_def intro: obj_set_commute)

lemma jdel_jset [simp]:
  "jdel k (jset k v d) = jdel k d" "k \<noteq> l \<Longrightarrow> jdel k (jset l v d) = jset l v (jdel k d)"
  by (simp_all add: jset_def jdel_def)

lemma map_obj_set:
  "obj_get kvs k = Some w \<Longrightarrow> f v = f w \<Longrightarrow>
     map (\<lambda>(k, x). (k, f x)) (obj_set k v kvs) = map (\<lambda>(k, x). (k, f x)) kvs"
  by (induction kvs) (auto split: if_splits)

lemma drop_keys_jset [simp]: "k \<in> set ks \<Longrightarrow> is_obj v \<Longrightarrow> drop_keys ks (jset k x v) = drop_keys ks v"
  by (simp add: drop_keys_def jset_def filter_obj_set [where P = "\<lambda>k. k \<notin> set ks"])

lemma drop_keys_zero_iface [simp]: "drop_keys [''network_id''] (zero_iface v) = drop_keys [''network_id''] v"
  by (simp add: zero_iface_def)

section \<open>Stripping undoes the derived fields\<close>

lemma strip_node_interfaces:
  assumes "jfind n ''interfaces'' = Some (JList xs)"
    and "map (drop_keys [''network_id'']) ys = map (drop_keys [''network_id'']) xs"
  shows "strip_node (jset ''interfaces'' (JList ys) n) = strip_node n"
  using assms by (simp add: strip_node_def)

lemma strip_zero_node: "zero_node n = Inr n' \<Longrightarrow> strip_node n' = strip_node n"
  by (auto simp: zero_node_def bindr_simps strip_node_interfaces split: option.splits json.splits)

lemma strip_map_values:
  "map_values zero_node kvs = Inr kvs' \<Longrightarrow>
     map (\<lambda>(k, v). (k, strip_node v)) kvs' = map (\<lambda>(k, v). (k, strip_node v)) kvs"
  unfolding map_values_def
  by (induction kvs arbitrary: kvs') (auto simp: bindr_simps strip_zero_node)

definition same_nodes :: "(string \<times> json) list \<Rightarrow> json \<Rightarrow> bool" where
  "same_nodes kvs nodes \<longleftrightarrow> is_obj nodes \<and>
     map (\<lambda>(k, v). (k, strip_node v)) (obj_of nodes) = map (\<lambda>(k, v). (k, strip_node v)) kvs"

lemma jor_truthy: "jor a b = a \<or> (jor a b = b \<and> \<not> truthy a)"
  by (simp add: jor_def)

lemma set_iface_network_same:
  assumes r: "set_iface_network net ep nodes = Inr nodes'" and s: "same_nodes kvs nodes"
  shows "same_nodes kvs nodes'"
proof -
  obtain node0 where node0: "node_of nodes ep = Inr (jor node0 (JObj []))"
      "node0 = jget0 nodes (py_str (jget0 ep ''node_id''))"
    using r by (auto simp: set_iface_network_def node_of_def bindr_simps)
  define node where "node = jor node0 (JObj [])"
  define ifs where "ifs = jor (jget0 node ''interfaces'') (JList [])"
  show ?thesis
  proof (cases "nodes' = nodes")
    case False
    then obtain idx v where v: "pindex ifs idx = Inr v" "is_obj v" and
      n': "nodes' = jset (py_str (jget0 ep ''node_id''))
        (jset ''interfaces'' (JList ((list_of ifs)[idx := jset ''network_id'' (JInt net) v])) node) nodes"
      using r node0 unfolding set_iface_network_def node_def ifs_def
      by (auto simp: bindr_simps Let_def split: if_splits)
    from v obtain xs where xs: "ifs = JList xs" "idx < length xs" "v = xs ! idx"
      by (cases ifs) (auto split: if_splits)
    then have "jget0 node ''interfaces'' = JList xs"
      unfolding ifs_def using jor_truthy by (metis json.inject(5) list.size(3) not_less_zero)
    then have fi: "jfind node ''interfaces'' = Some (JList xs)"
      by (auto simp: jget_def split: option.splits)
    then have "node \<noteq> JObj []" by auto
    then have "node = node0" unfolding node_def using jor_truthy by metis
    then have "obj_get (obj_of nodes) (py_str (jget0 ep ''node_id'')) = Some node"
      using node0 fi by (auto simp: jget_def jfind_def split: option.splits)
    moreover have "map (drop_keys [''network_id'']) (xs[idx := jset ''network_id'' (JInt net) v])
        = map (drop_keys [''network_id'']) xs"
      using xs v(2) by (simp add: map_update) (metis list_update_id map_update)
    then have "strip_node (jset ''interfaces'' (JList (xs[idx := jset ''network_id'' (JInt net) v])) node)
        = strip_node node"
      by (rule strip_node_interfaces [OF fi])
    ultimately show ?thesis
      using s n' xs(1) by (simp add: same_nodes_def map_obj_set)
  qed (use s in simp)
qed

lemma apply_link_network_same:
  "apply_link_network link nodes = Inr nodes' \<Longrightarrow> same_nodes kvs nodes \<Longrightarrow> same_nodes kvs nodes'"
  by (auto simp: apply_link_network_def bindr_simps split: option.splits if_splits
      elim!: forr_inv intro: set_iface_network_same)

lemma derive_ids_cases:
  assumes "derive_legacy_interface_network_ids d = Inr r"
  shows "r = d \<or> (\<exists>kvs kvs'. jfind d ''nodes'' = Some (JObj kvs) \<and> r = jset ''nodes'' (JObj kvs') d \<and>
     map (\<lambda>(k, v). (k, strip_node v)) kvs' = map (\<lambda>(k, v). (k, strip_node v)) kvs)"
proof (cases "truthy (jget0 d ''nodes'')")
  case False
  then show ?thesis using assms by (auto simp: derive_legacy_interface_network_ids_def bindr_simps)
next
  case True
  then have n: "nodes_of d = jget0 d ''nodes''"
    by (auto simp: nodes_of_def jor_def jget_def split: option.splits)
  obtain kvs' ls nodes where k: "is_obj (nodes_of d)"
      "map_values zero_node (obj_of (nodes_of d)) = Inr kvs'"
      "forr apply_link_network ls (JObj kvs') = Inr nodes" "r = jset ''nodes'' nodes d"
    using assms True by (auto simp: derive_legacy_interface_network_ids_def bindr_simps)
  have "same_nodes (obj_of (nodes_of d)) nodes"
    by (rule forr_inv [OF k(3)])
      (auto simp: same_nodes_def [of _ "JObj _"] strip_map_values [OF k(2)] intro: apply_link_network_same)
  moreover have "jfind d ''nodes'' = Some (JObj (obj_of (nodes_of d)))"
    using k(1) n True by (auto simp: jget_def is_obj_iff split: option.splits)
  ultimately show ?thesis using k(4) by (auto simp: same_nodes_def is_obj_iff)
qed

lemma derive_counts_cases:
  assumes "derive_network_counts d = Inr r"
  shows "r = d \<or> (\<exists>kvs c. jfind d ''networks'' = Some (JObj kvs) \<and>
     r = jset ''networks'' (JObj (map (set_count c) kvs)) d)"
proof (cases "truthy (jget0 d ''networks'')")
  case False
  then show ?thesis using assms by (auto simp: derive_network_counts_def bindr_simps)
next
  case True
  then have n: "jor (jget0 d ''networks'') (JObj []) = jget0 d ''networks''" by (simp add: jor_def)
  with assms True obtain c where "is_obj (jget0 d ''networks'')"
      "r = jset ''networks'' (JObj (map (set_count c) (obj_of (jget0 d ''networks'')))) d"
    by (auto simp: derive_network_counts_def bindr_simps)
  moreover from this(1) True have "jfind d ''networks'' = Some (JObj (obj_of (jget0 d ''networks'')))"
    by (auto simp: jget_def is_obj_iff split: option.splits)
  ultimately show ?thesis by blast
qed

lemma drop_count: "(\<lambda>(k, v). (k, drop_keys [''count''] v)) (set_count c p) = (\<lambda>(k, v). (k, drop_keys [''count''] v)) p"
  by (cases p) (simp add: set_count_def Let_def)

lemma strip_nodes_jset:
  assumes "jfind d ''nodes'' = Some (JObj kvs)"
    and "map (\<lambda>(k, v). (k, strip_node v)) kvs' = map (\<lambda>(k, v). (k, strip_node v)) kvs"
  shows "strip_legacy_fields (jset ''nodes'' (JObj kvs') d) = strip_legacy_fields d"
  using assms by (simp add: strip_legacy_fields_def strip_nodes_def)

lemma strip_networks_jset:
  assumes "jfind d ''networks'' = Some (JObj kvs)"
    and "map (\<lambda>(k, v). (k, drop_keys [''count''] v)) kvs' = map (\<lambda>(k, v). (k, drop_keys [''count''] v)) kvs"
  shows "strip_legacy_fields (jset ''networks'' (JObj kvs') d) = strip_legacy_fields d"
proof -
  let ?c = "jdel ''topology'' d"
  have f: "jfind ?c ''networks'' = Some (JObj kvs)" using assms(1) by simp
  have "strip_nodes (jset ''networks'' (JObj kvs') ?c) = jset ''networks'' (JObj kvs') (strip_nodes ?c)"
    using jset_commute [of "''networks''" "''nodes''" ?c]  f
    by (auto simp: strip_nodes_def split: option.splits json.splits)
  moreover have "jfind (strip_nodes ?c) ''networks'' = Some (JObj kvs)"
    using f by (auto simp: strip_nodes_def split: option.splits json.splits)
  ultimately show ?thesis
    using assms by (simp add: strip_legacy_fields_def strip_networks_def)
qed

lemma read_doc_strip:
  assumes "read_doc d = Inr r"
  shows "strip_legacy_fields r = strip_legacy_fields d"
proof -
  obtain t r1 where t: "derive_legacy_interface_network_ids (jset ''topology'' t d) = Inr r1"
      "derive_network_counts r1 = Inr r"
    using assms by (auto simp: read_doc_def bindr_simps split: if_splits)
  have "strip_legacy_fields (jset ''topology'' t d) = strip_legacy_fields d"
    by (simp add: strip_legacy_fields_def)
  moreover have "strip_legacy_fields r1 = strip_legacy_fields (jset ''topology'' t d)"
    using derive_ids_cases [OF t(1)] strip_nodes_jset by blast
  moreover have "strip_legacy_fields r = strip_legacy_fields r1"
    using derive_counts_cases [OF t(2)] by (auto intro: strip_networks_jset simp: drop_count o_def)
  ultimately show ?thesis by simp
qed

lemma read_doc_keys:
  assumes "read_doc d = Inr r"
  shows "jfind r ''links'' = jfind d ''links''" "derive_legacy_topology d = Inr (jget0 r ''topology'')"
    "jhas r ''topology''"
proof -
  obtain t r1 where t: "derive_legacy_topology d = Inr t"
      "derive_legacy_interface_network_ids (jset ''topology'' t d) = Inr r1" "derive_network_counts r1 = Inr r"
    using assms by (auto simp: read_doc_def bindr_simps split: if_splits)
  show "jfind r ''links'' = jfind d ''links''" "derive_legacy_topology d = Inr (jget0 r ''topology'')"
    "jhas r ''topology''"
    using derive_ids_cases [OF t(2)] derive_counts_cases [OF t(3)] t(1) by (auto simp: jhas_def)
qed

lemma write_of_read:
  assumes "read_doc d = Inr r" and "jfind d ''links'' = Some (JList ls)" and "\<not> jhas d ''topology''"
  shows "write_doc r = write_doc d"
proof (cases "ls = []")
  case False
  then show ?thesis
    using assms read_doc_keys(1) [OF assms(1)]
    by (simp add: write_doc_def read_doc_strip [OF assms(1)] jget_def)
next
  case True
  have "derive_legacy_topology d = Inr (JList [])"
    using assms(2) True by (simp add: derive_legacy_topology_def link_list_def jget_def jor_def)
  then have "jget0 r ''topology'' = JList []"
    using read_doc_keys(2) [OF assms(1)] by simp
  then have "legacy_topology_to_links r = Inr []"
    using read_doc_keys(3) [OF assms(1)]
    by (auto simp: legacy_topology_to_links_def jget_def jor_def jhas_def split: option.splits)
  moreover have "jset ''links'' (JList []) r = r"
    using assms(2) True read_doc_keys(1) [OF assms(1)] by (simp add: jset_same)
  ultimately show ?thesis
    using assms True read_doc_keys [OF assms(1)]
    by (simp add: write_doc_def read_doc_strip [OF assms(1)] jget_def)
qed

text \<open>
  C27. Reading and writing back does not change a lab file: the topology, interface networks and
  counts a read derives are gone from the document a write produces, which is the one a write of
  the original produces.
\<close>

theorem read_write_round_trip:
  assumes "read_doc d = Inr r" and "jfind d ''links'' = Some (JList ls)" and "\<not> jhas d ''topology''"
  shows "write_doc r = write_doc d"
  using assms by (rule write_of_read)

definition demo_lab :: json where
  \<comment> \<open>one node whose first interface is linked to network 1, with a field a read would add stale\<close>
  "demo_lab = JObj [(''schema'', JInt 2), (''id'', JStr ''lab''),
     (''nodes'', JObj [(''1'', JObj [(''id'', JInt 1), (''name'', JStr ''r1''),
        (''interfaces'', JList [JObj [(''index'', JInt 0)], JObj [(''index'', JInt 1)]])])]),
     (''networks'', JObj [(''1'', JObj [(''id'', JInt 1), (''type'', JStr ''linux_bridge'')])]),
     (''links'', JList [JObj [(''id'', JStr ''lnk_001''),
        (''from'', JObj [(''node_id'', JInt 1), (''interface_index'', JInt 0)]),
        (''to'', JObj [(''network_id'', JInt 1)])]])]"

theorem read_write_round_trip_witness:
  "\<exists>r. read_doc demo_lab = Inr r \<and> r \<noteq> demo_lab \<and> write_doc r = write_doc demo_lab"
proof -
  define r where "r = (case read_doc demo_lab of Inr r \<Rightarrow> r | Inl _ \<Rightarrow> JNull)"
  have "case read_doc demo_lab of Inr r \<Rightarrow> jhas r ''topology'' | Inl _ \<Rightarrow> False" by code_simp
  then have r: "read_doc demo_lab = Inr r" "jhas r ''topology''"
    by (auto simp: r_def split: sum.splits)
  have l: "jfind demo_lab ''links'' = Some (JList (list_of (jget0 demo_lab ''links'')))" by code_simp
  have d: "\<not> jhas demo_lab ''topology''" by code_simp
  have "write_doc r = write_doc demo_lab" by (rule read_write_round_trip [OF r(1) l d])
  moreover have "r \<noteq> demo_lab" using r(2) d by blast
  ultimately show ?thesis using r(1) by blast
qed

section \<open>Counts\<close>

definition all_ends :: "json list \<Rightarrow> json list" where
  \<comment> \<open>the ends of the links in order\<close>
  "all_ends ls = concat (map (\<lambda>l. [jor (jget0 l ''from'') (JObj []), jor (jget0 l ''to'') (JObj [])]) ls)"

definition end_on :: "int \<Rightarrow> json \<Rightarrow> bool" where
  "end_on n ep \<longleftrightarrow> is_obj ep \<and> jhas ep ''network_id'' \<and> py_int (jget0 ep ''network_id'') = Inr n"

lemma count_end_spec:
  "count_end ep c = Inr c' \<Longrightarrow> n \<noteq> 0 \<Longrightarrow> c' n = c n + (if end_on n ep then 1 else 0)"
  by (auto simp: count_end_def end_on_def bindr_simps split: if_splits)

lemma count_links_spec:
  "forr count_link ls c = Inr c' \<Longrightarrow> n \<noteq> 0 \<Longrightarrow> c' n = c n + length (filter (end_on n) (all_ends ls))"
proof (induction ls arbitrary: c)
  case (Cons l ls)
  obtain c2 where c2: "count_link l c = Inr c2" and rest: "forr count_link ls c2 = Inr c'"
    using Cons.prems(1) by (auto simp: bindr_simps)
  then obtain a b c1 where ab: "link_ends l = Inr (a, b)" "count_end a c = Inr c1" "count_end b c1 = Inr c2"
    by (auto simp: bindr_simps count_link_def)
  have "a = jor (jget0 l ''from'') (JObj [])" "b = jor (jget0 l ''to'') (JObj [])"
    using ab(1) by (auto simp: link_ends_def bindr_simps)
  then show ?case
    using Cons.IH [OF rest Cons.prems(2)] count_end_spec [OF ab(2) Cons.prems(2)]
      count_end_spec [OF ab(3) Cons.prems(2)] by (simp add: all_ends_def)
qed (simp add: all_ends_def)

text \<open>
  After a read the \<open>count\<close> of a network is the number of link ends on it, counted over the
  links of the file.
\<close>

theorem network_count_is_link_ends:
  assumes "read_doc d = Inr r" and "link_list d = Inr ls"
    and "obj_get (obj_of (jget0 r ''networks'')) key = Some net" and "is_obj net"
    and "py_int (jget net ''id'' (JStr key)) = Inr n" and "n \<noteq> 0"
  shows "jget0 net ''count'' = JInt (int (length (filter (end_on n) (all_ends ls))))"
proof -
  obtain t r1 where t: "derive_legacy_interface_network_ids (jset ''topology'' t d) = Inr r1"
      "derive_network_counts r1 = Inr r"
    using assms(1) by (auto simp: read_doc_def bindr_simps split: if_splits)
  have "jfind r1 ''links'' = jfind d ''links''" using derive_ids_cases [OF t(1)] by auto
  then have "link_list r1 = Inr ls" using assms(2) by (simp add: link_list_def jget_def)
  then obtain c where c: "forr count_link ls (\<lambda>_. 0) = Inr c" and
      r: "r = (if truthy (jget0 r1 ''networks'')
            then jset ''networks'' (JObj (map (set_count c) (obj_of (jor (jget0 r1 ''networks'') (JObj []))))) r1 else r1)"
    using t(2) by (auto simp: derive_network_counts_def bindr_simps)
  have "truthy (jget0 r1 ''networks'')"
  proof (rule ccontr)
    assume "\<not> truthy (jget0 r1 ''networks'')"
    then have "obj_of (jget0 r ''networks'') = []" using r by (cases "jget0 r1 ''networks''") auto
    then show False using assms(3) by simp
  qed
  then have "jget0 r ''networks'' = JObj (map (set_count c) (obj_of (jor (jget0 r1 ''networks'') (JObj []))))"
    using r by (metis jget_jset)
  then have "obj_get (map (set_count c) (obj_of (jor (jget0 r1 ''networks'') (JObj [])))) key = Some net"
    using assms(3) by simp
  then have "(key, net) \<in> set (map (set_count c) (obj_of (jor (jget0 r1 ''networks'') (JObj []))))"
    by (rule obj_get_Some_in)
  then obtain net0 where "(key, net) = set_count c (key, net0)" "is_obj net0"
    using assms(4) by (auto simp: set_count_def Let_def split: if_splits)
  then have "net = jset ''count'' (JInt (int (c n))) net0"
    using assms(5) by (auto simp: set_count_def Let_def split: if_splits sum.splits)
  then show ?thesis using count_links_spec [OF c assms(6)] by simp
qed

theorem network_count_is_link_ends_witness:
  "\<exists>net. jget0 net ''count'' = JInt 1 \<and> is_obj net"
proof -
  define r where "r = (case read_doc demo_lab of Inr r \<Rightarrow> r | Inl _ \<Rightarrow> JNull)"
  define net where "net = jget0 (jget0 r ''networks'') ''1''"
  define ls where "ls = list_of (jget0 demo_lab ''links'')"
  have "case read_doc demo_lab of Inr r \<Rightarrow> True | Inl _ \<Rightarrow> False" by code_simp
  then have r: "read_doc demo_lab = Inr r" by (auto simp: r_def split: sum.splits)
  have ls: "link_list demo_lab = Inr ls" unfolding ls_def by code_simp
  have n: "obj_get (obj_of (jget0 r ''networks'')) ''1'' = Some net" "is_obj net"
    "py_int (jget net ''id'' (JStr ''1'')) = Inr 1"
    unfolding net_def r_def by code_simp+
  have "int (length (filter (end_on 1) (all_ends ls))) = 1" unfolding ls_def by code_simp
  with network_count_is_link_ends [OF r ls n] n(2) show ?thesis by auto
qed

section \<open>Legacy writes\<close>

text \<open>
  A topology put into a lab that has links is ignored: the document written is the same as
  without it, so links are neither removed nor added.
\<close>

theorem topology_ignored_when_linked:
  assumes "truthy (jget0 d ''links'')"
  shows "write_doc (jset ''topology'' t d) = write_doc d"
  using assms by (simp add: write_doc_def strip_legacy_fields_def)

theorem topology_ignored_when_linked_witness:
  "write_doc (jset ''topology'' (JList []) demo_lab) = write_doc demo_lab"
proof -
  have "truthy (jget0 demo_lab ''links'')" by code_simp
  then show ?thesis by (rule topology_ignored_when_linked)
qed

end
