(* ===== verification/Lab_Paths.thy ===== *)
theory Lab_Paths
  imports Iface_Names
begin

text \<open>
  Paths of lab files (\<open>app/services/lab_service.py\<close>): normalisation of the paths clients send,
  the file a path names below \<open>LABS_DIR\<close>, and the file name of a new lab. Resolution of symbolic
  links is the argument \<open>resolve\<close>.

  The lemmas show what a normalised path looks like, when normalising again changes it, that
  without symbolic links no accepted path leaves the labs directory, and that a built path
  always names a \<open>.json\<close> file.
\<close>

section \<open>Model\<close>

definition normalize_lab_path :: "string \<Rightarrow> py_exc + string" where
  \<comment> \<open>\<open>_normalize_relative_lab_path\<close>\<close>
  "normalize_lab_path raw =
     (let candidate = strip_char (CHR ''/'') (map (\<lambda>c. if c = CHR 0x5C then CHR ''/'' else c) (strip raw));
          parts = filter (\<lambda>p. p \<noteq> [] \<and> p \<noteq> ''.'') (split_on (CHR ''/'') candidate)
      in if parts = [] \<or> ''..'' \<in> set parts then Inl PyValueError
         else Inr (join_on (CHR ''/'') parts))"

definition lab_file_path :: "string \<Rightarrow> (string \<Rightarrow> string) \<Rightarrow> string \<Rightarrow> py_exc + string" where
  \<comment> \<open>\<open>_lab_file_path\<close>: \<open>labs_dir\<close> is the resolved setting\<close>
  "lab_file_path labs_dir resolve raw =
     bindr (normalize_lab_path raw) (\<lambda>q.
       let f = resolve (posix_path (labs_dir @ ''/'' @ q)) in
       if starts_with labs_dir f then Inr f else Inl PyValueError)"

definition is_alnum :: "char \<Rightarrow> bool" where
  "is_alnum c \<longleftrightarrow> is_alpha c \<or> is_digit c"

definition safe_lab_filename :: "string \<Rightarrow> string" where
  "safe_lab_filename name =
     (let d = (\<lambda>c. c = CHR ''-'' \<or> c = CHR ''_'');
          s = map (\<lambda>c. if is_alnum c \<or> d c then c else CHR ''-'') name;
          t = rev (dropWhile d (rev (dropWhile d s)))
      in if t = [] then ''lab'' else t)"

definition api_lab_path :: "string \<Rightarrow> py_exc + string" where
  "api_lab_path p = bindr (normalize_lab_path p) (\<lambda>q. Inr (''/'' @ q))"

definition build_relative_lab_path :: "string \<Rightarrow> string \<Rightarrow> string \<Rightarrow> py_exc + string" where
  \<comment> \<open>an absent \<open>path\<close> or \<open>filename\<close> is the empty string: the code tests truth only\<close>
  "build_relative_lab_path name path filename =
     (if filename \<noteq> [] then
        bindr (normalize_lab_path filename) (\<lambda>r. Inr (if ends_with ''.json'' r then r else r @ ''.json''))
      else (let generated = safe_lab_filename name @ ''.json'' in
        if path \<noteq> [] then
          bindr (normalize_lab_path path) (\<lambda>r.
            Inr (if ends_with ''.json'' r then r else r @ ''/'' @ generated))
        else Inr generated))"

section \<open>Normalised paths\<close>

definition normal_parts :: "string list \<Rightarrow> bool" where
  "normal_parts ps \<longleftrightarrow> ps \<noteq> [] \<and>
     (\<forall>p\<in>set ps. p \<noteq> [] \<and> p \<noteq> ''.'' \<and> p \<noteq> ''..'' \<and> CHR ''/'' \<notin> set p \<and> CHR 0x5C \<notin> set p)"

lemma set_dropWhile: "x \<in> set (dropWhile P xs) \<Longrightarrow> x \<in> set xs"
  by (induction xs) (auto split: if_splits)

lemma split_on_set: "w \<in> set (split_on d s) \<Longrightarrow> set w \<subseteq> set s"
  by (induction s arbitrary: w) (force split: if_splits list.splits)+

lemma normalize_parts:
  assumes "normalize_lab_path raw = Inr q"
  shows "\<exists>ps. normal_parts ps \<and> q = join_on (CHR ''/'') ps"
proof -
  let ?m = "map (\<lambda>c. if c = CHR 0x5C then CHR ''/'' else c) (strip raw)"
  let ?c = "strip_char (CHR ''/'') ?m"
  let ?ps = "filter (\<lambda>p. p \<noteq> [] \<and> p \<noteq> ''.'') (split_on (CHR ''/'') ?c)"
  have q: "?ps \<noteq> []" "''..'' \<notin> set ?ps" "q = join_on (CHR ''/'') ?ps"
    using assms by (auto simp: normalize_lab_path_def Let_def split: if_splits)
  have "CHR 0x5C \<notin> set ?m" by auto
  then have "CHR 0x5C \<notin> set ?c" unfolding strip_char_def by (auto dest!: set_dropWhile)
  then have "normal_parts ?ps"
    using q(1,2) unfolding normal_parts_def by (auto dest: split_on_set split_on_no_sep)
  with q(3) show ?thesis by blast
qed

lemma join_on_hd: "ps \<noteq> [] \<Longrightarrow> (\<forall>p\<in>set ps. p \<noteq> [] \<and> d \<notin> set p) \<Longrightarrow>
   join_on d ps \<noteq> [] \<and> hd (join_on d ps) \<noteq> d"
  by (induction d ps rule: join_on.induct) (auto simp: hd_append)

lemma join_on_last: "ps \<noteq> [] \<Longrightarrow> (\<forall>p\<in>set ps. p \<noteq> [] \<and> d \<notin> set p) \<Longrightarrow> last (join_on d ps) \<noteq> d"
proof (induction d ps rule: join_on.induct)
  case (3 d w v ws)
  then have "join_on d (v # ws) \<noteq> []" "last (join_on d (v # ws)) \<noteq> d"
    using join_on_hd [of "v # ws" d] by auto
  then show ?case by simp
qed auto

lemma strip_char_join:
  "ps \<noteq> [] \<Longrightarrow> (\<forall>p\<in>set ps. p \<noteq> [] \<and> d \<notin> set p) \<Longrightarrow> strip_char d (join_on d ps) = join_on d ps"
  using join_on_hd [of ps d] join_on_last [of ps d]
  by (simp add: strip_char_def dropWhile_idle hd_rev)

lemma set_join_on: "c \<in> set (join_on d ps) \<Longrightarrow> c = d \<or> (\<exists>p\<in>set ps. c \<in> set p)"
  by (induction d ps rule: join_on.induct) auto

lemma normalize_join:
  assumes "normal_parts ps" and "strip (join_on (CHR ''/'') ps) = join_on (CHR ''/'') ps"
  shows "normalize_lab_path (join_on (CHR ''/'') ps) = Inr (join_on (CHR ''/'') ps)"
proof -
  let ?q = "join_on (CHR ''/'') ps"
  have ps: "ps \<noteq> []" "\<forall>p\<in>set ps. p \<noteq> [] \<and> CHR ''/'' \<notin> set p" "\<forall>p\<in>set ps. CHR ''/'' \<notin> set p"
    using assms(1) by (auto simp: normal_parts_def)
  have "CHR 0x5C \<notin> set ?q"
    using set_join_on [of "CHR 0x5C" "CHR ''/''" ps] assms(1) by (auto simp: normal_parts_def)
  then have "map (\<lambda>c. if c = CHR 0x5C then CHR ''/'' else c) ?q = ?q"
    by (intro map_idI) auto
  moreover have "filter (\<lambda>p. p \<noteq> [] \<and> p \<noteq> ''.'') ps = ps" "''..'' \<notin> set ps"
    using assms(1) by (auto simp: normal_parts_def filter_id_conv)
  ultimately show ?thesis
    using ps by (simp add: normalize_lab_path_def Let_def assms(2) strip_char_join split_join)
qed

section \<open>Properties\<close>

text \<open>
  C37. An accepted path is a chain of proper names: it has no empty component, no \<open>.\<close>, no \<open>..\<close> and
  no backslash; and normalising it once more gives it back when it has no white space at its
  ends.
\<close>

theorem normalize_safe_and_stable:
  assumes "normalize_lab_path raw = Inr q"
  shows "(\<forall>p\<in>set (split_on (CHR ''/'') q). p \<noteq> [] \<and> p \<noteq> ''.'' \<and> p \<noteq> ''..'' \<and> CHR 0x5C \<notin> set p) \<and>
     (strip q = q \<longrightarrow> normalize_lab_path q = Inr q)"
proof -
  obtain ps where ps: "normal_parts ps" "q = join_on (CHR ''/'') ps"
    using normalize_parts [OF assms] by blast
  moreover have "split_on (CHR ''/'') q = ps"
    using ps by (auto simp: normal_parts_def split_join)
  ultimately show ?thesis using normalize_join by (auto simp: normal_parts_def)
qed

theorem normalize_safe_and_stable_witness:
  "normalize_lab_path '' //a/./b .json/ '' = Inr ''a/b .json'' \<and>
   normalize_lab_path ''a/b .json'' = Inr ''a/b .json''"
proof -
  have n: "normalize_lab_path '' //a/./b .json/ '' = Inr ''a/b .json''" by code_simp
  moreover have "strip ''a/b .json'' = ''a/b .json''" by code_simp
  ultimately show ?thesis using normalize_safe_and_stable [OF n] by blast
qed

lemma join_on_append:
  "xs \<noteq> [] \<Longrightarrow> ys \<noteq> [] \<Longrightarrow> join_on d (xs @ ys) = join_on d xs @ d # join_on d ys"
proof (induction d xs rule: join_on.induct)
  case (2 d w)
  then show ?case by (cases ys) auto
qed auto

lemma posix_path_join:
  assumes "normal_parts ps"
  shows "posix_path (''/'' @ join_on (CHR ''/'') ps) = ''/'' @ join_on (CHR ''/'') ps"
proof -
  let ?q = "join_on (CHR ''/'') ps"
  have ps: "ps \<noteq> []" "\<forall>p\<in>set ps. p \<noteq> [] \<and> CHR ''/'' \<notin> set p" "\<forall>p\<in>set ps. CHR ''/'' \<notin> set p"
    using assms by (auto simp: normal_parts_def)
  have "filter (\<lambda>w. w \<noteq> [] \<and> w \<noteq> ''.'') ps = ps"
    using assms by (auto simp: normal_parts_def filter_id_conv)
  then have "posix_parts (''/'' @ ?q) = ps"
    using ps by (simp add: posix_parts_def split_join)
  moreover have "posix_root (''/'' @ ?q) = ''/''"
    using join_on_hd [OF ps(1,2)] by (cases ?q) (auto simp: posix_root_def starts_with_def)
  ultimately show ?thesis by (simp add: posix_path_def)
qed

text \<open>
  Without symbolic links an accepted path names a file below the labs directory, whatever the
  client sent: the directory followed by a chain of proper names.
\<close>

theorem lab_file_below_labs_dir:
  assumes "normal_parts ds" and "labs_dir = ''/'' @ join_on (CHR ''/'') ds"
    and "lab_file_path labs_dir (\<lambda>f. f) raw = Inr f"
  shows "\<exists>ps. normal_parts ps \<and> f = labs_dir @ ''/'' @ join_on (CHR ''/'') ps"
proof -
  obtain q where q: "normalize_lab_path raw = Inr q" "f = posix_path (labs_dir @ ''/'' @ q)"
    using assms(3) by (auto simp: lab_file_path_def bindr_simps Let_def split: if_splits)
  then obtain ps where ps: "normal_parts ps" "q = join_on (CHR ''/'') ps"
    using normalize_parts by blast
  then have "labs_dir @ ''/'' @ q = ''/'' @ join_on (CHR ''/'') (ds @ ps)"
    using assms(1,2) by (simp add: join_on_append normal_parts_def)
  moreover have "normal_parts (ds @ ps)" using assms(1) ps(1) by (auto simp: normal_parts_def)
  ultimately have "f = labs_dir @ ''/'' @ q" using q(2) posix_path_join by metis
  with ps show ?thesis by blast
qed

theorem lab_file_below_labs_dir_witness:
  "lab_file_path ''/srv/labs'' (\<lambda>f. f) ''/etc/passwd'' = Inr ''/srv/labs/etc/passwd'' \<and>
   (\<exists>ps. normal_parts ps \<and> ''/srv/labs/etc/passwd'' = ''/srv/labs'' @ ''/'' @ join_on (CHR ''/'') ps)"
proof -
  have "lab_file_path ''/srv/labs'' (\<lambda>f. f) ''/etc/passwd'' = Inr ''/srv/labs/etc/passwd''"
    by code_simp
  moreover have "normal_parts [''srv'', ''labs'']" by code_simp
  moreover have "''/srv/labs'' = ''/'' @ join_on (CHR ''/'') [''srv'', ''labs'']" by simp
  ultimately show ?thesis using lab_file_below_labs_dir by blast
qed

section \<open>Built paths\<close>

lemma safe_lab_filename_chars:
  "safe_lab_filename name \<noteq> [] \<and> (\<forall>c\<in>set (safe_lab_filename name). is_alnum c \<or> c = CHR ''-'' \<or> c = CHR ''_'')"
proof -
  let ?ok = "\<lambda>c. is_alnum c \<or> c = CHR ''-'' \<or> c = CHR ''_''"
  define d where "d = (\<lambda>c. c = CHR ''-'' \<or> c = CHR ''_'')"
  define m where "m = map (\<lambda>c. if is_alnum c \<or> d c then c else CHR ''-'') name"
  define t where "t = rev (dropWhile d (rev (dropWhile d m)))"
  have "\<forall>c\<in>set m. ?ok c" by (auto simp: m_def d_def)
  moreover have "set t \<subseteq> set m" by (auto simp: t_def dest!: set_dropWhile)
  ultimately have "\<forall>c\<in>set t. ?ok c" by blast
  moreover have "safe_lab_filename name = (if t = [] then ''lab'' else t)"
    unfolding safe_lab_filename_def Let_def t_def m_def d_def by simp
  moreover have "\<forall>c\<in>set ''lab''. is_alnum c" by code_simp
  ultimately show ?thesis by (cases "t = []") simp_all
qed

lemma normal_parts_generated: "normal_parts [safe_lab_filename name @ ''.json'']"
proof -
  have "\<not> is_alnum (CHR ''/'')" "\<not> is_alnum (CHR 0x5C)"
    by (auto simp: is_alnum_def is_alpha_def is_digit_def between_def)
  then show ?thesis
    using safe_lab_filename_chars [of name] by (auto simp: normal_parts_def)
qed

lemma join_on_last_append:
  "ps \<noteq> [] \<Longrightarrow> join_on d ps @ s = join_on d (butlast ps @ [last ps @ s])"
proof (induction d ps rule: join_on.induct)
  case (3 d w v ws)
  then show ?case
    using join_on_append [of "[w]" "butlast (v # ws) @ [last (v # ws) @ s]" d] by simp
qed auto

lemma build_normal:
  assumes "build_relative_lab_path name path filename = Inr rel"
  shows "\<exists>ps. normal_parts ps \<and> rel = join_on (CHR ''/'') ps"
proof -
  have gen: "\<exists>ps. normal_parts ps \<and> safe_lab_filename name @ ''.json'' = join_on (CHR ''/'') ps"
    using normal_parts_generated by (metis join_on.simps(2))
  have ext: "\<exists>qs. normal_parts qs \<and> join_on (CHR ''/'') ps @ ''.json'' = join_on (CHR ''/'') qs"
    if "normal_parts ps" for ps
  proof -
    have "normal_parts (butlast ps @ [last ps @ ''.json''])"
      using that by (auto simp: normal_parts_def dest: in_set_butlastD)
    then show ?thesis using join_on_last_append that by (metis normal_parts_def)
  qed
  have sub: "\<exists>qs. normal_parts qs \<and>
      join_on (CHR ''/'') ps @ ''/'' @ safe_lab_filename name @ ''.json'' = join_on (CHR ''/'') qs"
    if "normal_parts ps" for ps
  proof -
    have "normal_parts (ps @ [safe_lab_filename name @ ''.json''])"
      using that normal_parts_generated [of name] by (auto simp: normal_parts_def)
    then show ?thesis
      using join_on_append [of ps "[safe_lab_filename name @ ''.json'']" "CHR ''/''"] that
      by (metis append_Cons append_Nil join_on.simps(2) list.distinct(1) normal_parts_def)
  qed
  show ?thesis
  proof (cases "filename = [] \<and> path = []")
    case True
    then show ?thesis using assms gen by (simp add: build_relative_lab_path_def Let_def)
  next
    case False
    then obtain raw r where r: "normalize_lab_path raw = Inr r"
        "rel = r \<or> rel = r @ ''.json'' \<or> rel = r @ ''/'' @ safe_lab_filename name @ ''.json''"
      using assms by (auto simp: build_relative_lab_path_def bindr_simps Let_def split: if_splits)
    then obtain ps where "normal_parts ps" "r = join_on (CHR ''/'') ps" using normalize_parts by blast
    with r(2) show ?thesis using ext sub by blast
  qed
qed

lemma build_json: "build_relative_lab_path name path filename = Inr rel \<Longrightarrow> ends_with ''.json'' rel"
  by (auto simp: build_relative_lab_path_def bindr_simps Let_def ends_with_def split: if_splits)

section \<open>The prefix test\<close>

text \<open>
  The test for escaping the labs directory is a prefix test on the text of the resolved path:
  a path whose resolution leaves the directory for a sibling whose name merely extends the
  directory's is accepted.
\<close>

theorem lab_file_sibling_accepted:
  assumes "normalize_lab_path raw = Inr q" and "resolve (posix_path (labs_dir @ ''/'' @ q)) = labs_dir @ s"
  shows "lab_file_path labs_dir resolve raw = Inr (labs_dir @ s)"
  using assms by (simp add: lab_file_path_def)

theorem lab_file_sibling_accepted_witness:
  "lab_file_path ''/srv/labs'' (\<lambda>f. if f = ''/srv/labs/link/x.json'' then ''/srv/labs-old/x.json'' else f)
     ''link/x.json'' = Inr (''/srv/labs'' @ ''-old/x.json'')"
proof -
  have "normalize_lab_path ''link/x.json'' = Inr ''link/x.json''" by code_simp
  moreover have "posix_path (''/srv/labs'' @ ''/'' @ ''link/x.json'') = ''/srv/labs/link/x.json''"
    by code_simp
  ultimately show ?thesis by (intro lab_file_sibling_accepted) auto
qed

end
