(* ===== verification/Nat_Cloud.thy ===== *)
theory Nat_Cloud
  imports Lab_Paths Ipv4
begin

text \<open>
  NAT-Cloud addressing (\<open>app/services/cloud_inventory_service.py\<close> and the configuration part of
  \<open>app/services/network_service.py\<close>). The inventory is derived from the lab files on disk, given
  as the list of their relative paths and parsed objects in directory order; a cloud is an owner
  record or a reference to one. Configuration of a new cloud picks or checks a subnet, the
  gateway and the DHCP range.

  The lemmas show that clouds offered for reuse do not overlap, what a normalised configuration
  guarantees, and that subnet allocation fails only when the pool is exhausted.
\<close>

datatype net_error = NetErr int string | NetPy py_exc

definition NAT_CLOUD_TYPE :: string where
  "NAT_CLOUD_TYPE = ''nat_cloud''"

definition NAT_CLOUD_STATIC_LAST_OFFSET :: nat where
  "NAT_CLOUD_STATIC_LAST_OFFSET = 99"

definition NAT_CLOUD_DHCP_FIRST_OFFSET :: nat where
  "NAT_CLOUD_DHCP_FIRST_OFFSET = 100"

section \<open>Validation\<close>

definition validate_net_cidr :: "json \<Rightarrow> net_error + ipnet" where
  \<comment> \<open>\<open>_validate_cidr\<close>; an IPv6 network is refused with the same status\<close>
  "validate_net_cidr v =
     (case v of
        JStr s \<Rightarrow>
          if strip s = [] then Inl (NetErr 422 ''config.cidr must be a non-empty string'')
          else (case parse_net (strip s) of
                  None \<Rightarrow> Inl (NetErr 422 ''config.cidr is not a valid CIDR'')
                | Some n \<Rightarrow> Inr n)
      | _ \<Rightarrow> Inl (NetErr 422 ''config.cidr must be a non-empty string''))"

definition validate_ipv4_text :: "json \<Rightarrow> net_error + ip" where
  \<comment> \<open>\<open>_validate_ipv4\<close>\<close>
  "validate_ipv4_text v =
     (case v of
        JStr s \<Rightarrow>
          if strip s = [] then Inl (NetErr 422 ''must be a non-empty IPv4 address'')
          else (case parse_ip (strip s) of
                  None \<Rightarrow> Inl (NetErr 422 ''is not a valid IPv4 address'')
                | Some a \<Rightarrow> Inr a)
      | _ \<Rightarrow> Inl (NetErr 422 ''must be a non-empty IPv4 address''))"

definition settings_nat_cloud_pool :: "string \<Rightarrow> net_error + ipnet" where
  "settings_nat_cloud_pool raw =
     (case parse_net (strip raw) of
        None \<Rightarrow> Inl (NetErr 500 ''NAT-Cloud pool is invalid'')
      | Some n \<Rightarrow>
          if 24 < snd n then Inl (NetErr 500 ''NAT-Cloud pool must be at least large enough'')
          else Inr n)"

section \<open>Inventory\<close>

record cloud_ref =
  ref_cloud_id :: string
  ref_lab_path :: string
  ref_lab_id :: string
  ref_lab_name :: string
  ref_network_id :: int
  ref_network_name :: string
  ref_network :: json
  is_reference :: bool

definition nat_cloud_id :: "string \<Rightarrow> int \<Rightarrow> string" where
  "nat_cloud_id lab n = ''nat-cloud:'' @ lab @ '':'' @ dec_int n"

definition config_of :: "json \<Rightarrow> json" where
  \<comment> \<open>\<open>network.get("config") or {}\<close>\<close>
  "config_of net = jor (jget0 net ''config'') (JObj [])"

definition config_get :: "json \<Rightarrow> string \<Rightarrow> json" where
  \<comment> \<open>\<open>config.get(k) if isinstance(config, dict) else None\<close>\<close>
  "config_get net k = (if is_obj (config_of net) then jget0 (config_of net) k else JNull)"

definition cloud_ref_of :: "string \<Rightarrow> string \<Rightarrow> string \<Rightarrow> string \<times> json \<Rightarrow> cloud_ref option" where
  "cloud_ref_of path lid lname p =
     (case p of (key, net) \<Rightarrow>
        if \<not> is_obj net \<or> py_str (jget net ''type'' (JStr [])) \<noteq> NAT_CLOUD_TYPE then None
        else (case py_int (jget net ''id'' (JStr key)) of
                Inl e \<Rightarrow> None
              | Inr n \<Rightarrow>
                  (let shared = config_get net ''shared_cloud_id'' in
                   Some \<lparr>ref_cloud_id = (if truthy shared then py_str shared else nat_cloud_id lid n),
                     ref_lab_path = path, ref_lab_id = lid, ref_lab_name = lname, ref_network_id = n,
                     ref_network_name = py_str (jor (jget0 net ''name'') (JStr (''Network '' @ dec_int n))),
                     ref_network = net, is_reference = truthy shared\<rparr>)))"

definition lab_cloud_refs :: "string \<times> json \<Rightarrow> cloud_ref list" where
  "lab_cloud_refs f =
     (case f of (path, data) \<Rightarrow>
        (let networks = jor (jget0 data ''networks'') (JObj []);
             lid = py_str (jor (jget0 data ''id'') (JStr path));
             meta = jor (jget0 data ''meta'') (JObj []);
             lname = (if is_obj meta then py_str (jor (jget0 meta ''name'') (JStr path)) else path)
         in if \<not> is_obj data \<or> \<not> truthy data \<or> \<not> is_obj networks then []
            else List.map_filter (cloud_ref_of path lid lname) (obj_of networks)))"

definition cloud_refs :: "(string \<times> json) list \<Rightarrow> cloud_ref list" where
  "cloud_refs files = concat (map lab_cloud_refs files)"

datatype warning = InvalidCidr | Overlaps string

type_synonym collisions = "(string \<times> ipnet) list \<times> (string \<Rightarrow> warning option)"

definition mark :: "string \<Rightarrow> ipnet \<Rightarrow> string \<times> ipnet \<Rightarrow> (string \<Rightarrow> warning option) \<Rightarrow> (string \<Rightarrow> warning option)" where
  "mark oid net p w =
     (if overlaps net (snd p) then w(oid \<mapsto> Overlaps (fst p), fst p \<mapsto> Overlaps oid) else w)"

definition collide :: "string \<Rightarrow> ipnet \<Rightarrow> collisions \<Rightarrow> collisions" where
  \<comment> \<open>compare with every owner so far, then record the owner's network\<close>
  "collide oid net s =
     (case s of (nets, w) \<Rightarrow> (obj_set oid net nets, fold (mark oid net) nets w))"

definition collide_owner :: "cloud_ref \<Rightarrow> collisions \<Rightarrow> collisions" where
  "collide_owner r s =
     (let cidr = config_get (ref_network r) ''cidr'' in
      if \<not> truthy cidr then s
      else (case parse_net (py_str cidr) of
              None \<Rightarrow> (fst s, (snd s)(ref_cloud_id r \<mapsto> InvalidCidr))
            | Some n \<Rightarrow> collide (ref_cloud_id r) n s))"

record cloud_item =
  item_ref :: cloud_ref
  safe_for_reuse :: bool
  item_warning :: "warning option"

definition collisions_of :: "cloud_ref list \<Rightarrow> collisions" where
  "collisions_of refs =
     fold collide_owner (filter (\<lambda>r. \<not> is_reference r) refs) ([], \<lambda>_. None)"

definition list_nat_clouds :: "(string \<times> json) list \<Rightarrow> cloud_item list" where
  "list_nat_clouds files =
     (let refs = cloud_refs files; w = snd (collisions_of refs)
      in map (\<lambda>r. \<lparr>item_ref = r, safe_for_reuse = (\<not> is_reference r \<and> w (ref_cloud_id r) = None),
                   item_warning = w (ref_cloud_id r)\<rparr>) refs)"

definition owner_cidrs :: "(string \<times> json) list \<Rightarrow> string option \<Rightarrow> ipnet list" where
  "owner_cidrs files exclude =
     List.map_filter (\<lambda>i.
       let r = item_ref i; cidr = config_get (ref_network r) ''cidr'' in
       if is_reference r \<or> (case exclude of None \<Rightarrow> False | Some x \<Rightarrow> x \<noteq> [] \<and> ref_cloud_id r = x) \<or> \<not> truthy cidr
       then None else parse_net (py_str cidr)) (list_nat_clouds files)"

definition find_nat_cloud_owner :: "(string \<times> json) list \<Rightarrow> string \<Rightarrow> cloud_ref option" where
  "find_nat_cloud_owner files cid =
     List.find (\<lambda>r. \<not> is_reference r \<and> ref_cloud_id r = cid) (cloud_refs files)"

definition references_to_cloud :: "(string \<times> json) list \<Rightarrow> string \<Rightarrow> cloud_ref list" where
  "references_to_cloud files cid = filter (\<lambda>r. is_reference r \<and> ref_cloud_id r = cid) (cloud_refs files)"

definition in_scope :: "string \<Rightarrow> cloud_ref \<Rightarrow> bool" where
  "in_scope scope r \<longleftrightarrow> ref_lab_path r = scope \<or> starts_with (scope @ ''/'') (ref_lab_path r)"

definition external_references :: "(string \<times> json) list \<Rightarrow> string \<Rightarrow> py_exc + cloud_ref list" where
  \<comment> \<open>\<open>external_reference_summaries_for_scope\<close>\<close>
  "external_references files raw =
     bindr (normalize_lab_path raw) (\<lambda>scope.
       let refs = cloud_refs files;
           owners = map ref_cloud_id (filter (\<lambda>r. \<not> is_reference r \<and> in_scope scope r) refs)
       in Inr (filter (\<lambda>r. is_reference r \<and> ref_cloud_id r \<in> set owners \<and> \<not> in_scope scope r) refs))"

definition no_external_references :: "(string \<times> json) list \<Rightarrow> string \<Rightarrow> net_error + unit" where
  \<comment> \<open>\<open>assert_no_external_nat_cloud_references_for_scope\<close>\<close>
  "no_external_references files raw =
     (case external_references files raw of
        Inl e \<Rightarrow> Inl (NetPy e)
      | Inr rs \<Rightarrow> if rs = [] then Inr () else
          Inl (NetErr 409 ''Cannot delete NAT-Cloud owner while it is used by another lab.''))"

section \<open>Configuration of a cloud\<close>

definition existing_network_cidrs :: "json \<Rightarrow> ipnet list" where
  "existing_network_cidrs networks =
     List.map_filter (\<lambda>(k, net).
       if \<not> is_obj net \<or> \<not> truthy (config_get net ''cidr'') then None
       else (case validate_net_cidr (config_get net ''cidr'') of Inl e \<Rightarrow> None | Inr n \<Rightarrow> Some n))
       (obj_of networks)"

definition allocate_nat_cloud_cidr :: "string \<Rightarrow> json \<Rightarrow> ipnet list \<Rightarrow> net_error + ipnet" where
  "allocate_nat_cloud_cidr pool networks extra =
     (let used = existing_network_cidrs networks @ extra in
      bindr (settings_nat_cloud_pool pool) (\<lambda>p.
        case List.find (\<lambda>c. \<not> list_ex (overlaps c) used) (subnets p 24) of
          Some c \<Rightarrow> Inr c
        | None \<Rightarrow> Inl (NetErr 409 ''NAT-Cloud subnet pool exhausted'')))"

definition given_ip :: "json \<Rightarrow> string \<Rightarrow> ip \<Rightarrow> net_error + ip" where
  "given_ip raw k dflt = (if truthy (jget0 raw k) then validate_ipv4_text (jget0 raw k) else Inr dflt)"

definition cloud_fields :: "json \<Rightarrow> ipnet \<Rightarrow> ip \<Rightarrow> ip \<Rightarrow> ip \<Rightarrow> json" where
  "cloud_fields raw cidr gateway lo hi =
     (let c = jupdate [(''cidr'', JStr (str_net cidr)), (''gateway'', JStr (str_ip gateway)),
                (''dhcp'', JBool (truthy (jget raw ''dhcp'' (JBool True)))),
                (''dhcp_start'', JStr (str_ip lo)), (''dhcp_end'', JStr (str_ip hi))] raw
      in if truthy (jget0 raw ''egress_interface'')
         then jset ''egress_interface'' (JStr (strip (py_str (jget0 raw ''egress_interface'')))) c else c)"

definition normalize_nat_cloud_config ::
    "string \<Rightarrow> json \<Rightarrow> json \<Rightarrow> ipnet list \<Rightarrow> net_error + json" where
  "normalize_nat_cloud_config pool raw networks host_used =
     bindr (if truthy (jget0 raw ''cidr'') then validate_net_cidr (jget0 raw ''cidr'')
            else allocate_nat_cloud_cidr pool networks host_used) (\<lambda>cidr.
     bindr (ensure (snd cidr \<le> 24) (NetErr 422 ''NAT-Cloud CIDR must be /24 or larger'')) (\<lambda>_.
     bindr (ensure (\<not> list_ex (overlaps cidr) (existing_network_cidrs networks @ host_used))
              (NetErr 409 ''NAT-Cloud CIDR overlaps existing network CIDR'')) (\<lambda>_.
     bindr (given_ip raw ''gateway'' (fst cidr + 1)) (\<lambda>gateway.
     bindr (ensure (in_net gateway cidr) (NetErr 422 ''config.gateway must be inside config.cidr'')) (\<lambda>_.
     bindr (ensure (gateway \<noteq> fst cidr \<and> gateway \<noteq> broadcast cidr)
              (NetErr 422 ''config.gateway cannot be the network or broadcast address'')) (\<lambda>_.
     bindr (given_ip raw ''dhcp_start'' (fst cidr + NAT_CLOUD_DHCP_FIRST_OFFSET)) (\<lambda>lo.
     bindr (given_ip raw ''dhcp_end'' (broadcast cidr - 1)) (\<lambda>hi.
     bindr (ensure (in_net lo cidr \<and> in_net hi cidr) (NetErr 422 ''DHCP range must be inside config.cidr'')) (\<lambda>_.
     bindr (ensure (lo \<le> hi) (NetErr 422 ''config.dhcp_start must be <= config.dhcp_end'')) (\<lambda>_.
     bindr (ensure (fst cidr + NAT_CLOUD_STATIC_LAST_OFFSET < lo)
              (NetErr 422 ''NAT-Cloud DHCP range must start after the reserved static range'')) (\<lambda>_.
       Inr (cloud_fields raw cidr gateway lo hi))))))))))))"

section \<open>Collisions\<close>

definition net_of :: "cloud_ref \<Rightarrow> ipnet option" where
  "net_of r = (let cidr = config_get (ref_network r) ''cidr'' in
     if truthy cidr then parse_net (py_str cidr) else None)"

lemma overlaps_sym: "overlaps n m \<longleftrightarrow> overlaps m n"
  by (auto simp: overlaps_def)

lemma fold_collide_mono: "w k \<noteq> None \<Longrightarrow> fold (mark oid net) nets w k \<noteq> None"
proof (induction nets arbitrary: w)
  case (Cons p nets)
  then have "mark oid net p w k \<noteq> None" by (simp add: mark_def)
  then show ?case using Cons.IH by simp
qed simp

lemma fold_collide_hit:
  "p \<in> set nets \<Longrightarrow> overlaps net (snd p) \<Longrightarrow> k = oid \<or> k = fst p \<Longrightarrow>
     fold (mark oid net) nets w k \<noteq> None"
proof (induction nets arbitrary: w)
  case (Cons q nets)
  show ?case
  proof (cases "q = p")
    case True
    then have "mark oid net q w k \<noteq> None" using Cons.prems by (auto simp: mark_def)
    then show ?thesis using fold_collide_mono by simp
  next
    case False
    then show ?thesis using Cons by simp
  qed
qed simp

lemma obj_set_fresh: "k \<notin> set (keys kvs) \<Longrightarrow> obj_set k v kvs = kvs @ [(k, v)]"
  by (induction kvs) auto

definition tracked :: "cloud_ref list \<Rightarrow> collisions \<Rightarrow> bool" where
  "tracked rs s \<longleftrightarrow>
     set (fst s) = {(ref_cloud_id r, n) |r n. r \<in> set rs \<and> net_of r = Some n} \<and>
     (\<forall>r1\<in>set rs. \<forall>r2\<in>set rs. \<forall>n1 n2. ref_cloud_id r1 \<noteq> ref_cloud_id r2 \<longrightarrow> net_of r1 = Some n1 \<longrightarrow>
        net_of r2 = Some n2 \<longrightarrow> overlaps n1 n2 \<longrightarrow> snd s (ref_cloud_id r1) \<noteq> None)"

lemma tracked_skip: "tracked rs s \<Longrightarrow> net_of r = None \<Longrightarrow> (\<And>k. snd s k \<noteq> None \<Longrightarrow> w k \<noteq> None) \<Longrightarrow>
   tracked (rs @ [r]) (fst s, w)"
  unfolding tracked_def by auto

lemma tracked_collide:
  assumes t: "tracked rs s" and fresh: "ref_cloud_id r \<notin> ref_cloud_id ` set rs" and n: "net_of r = Some n"
  shows "tracked (rs @ [r]) (collide (ref_cloud_id r) n s)"
proof -
  obtain nets w where s: "s = (nets, w)" by (cases s)
  have nets: "set nets = {(ref_cloud_id r, n) |r n. r \<in> set rs \<and> net_of r = Some n}"
    using t s by (simp add: tracked_def)
  then have "ref_cloud_id r \<notin> set (keys nets)" using fresh by force
  then have c1: "set (fst (collide (ref_cloud_id r) n s)) = insert (ref_cloud_id r, n) (set nets)"
    by (simp add: collide_def s obj_set_fresh)
  have mono: "snd s k \<noteq> None \<Longrightarrow> snd (collide (ref_cloud_id r) n s) k \<noteq> None" for k
    unfolding collide_def s prod.case snd_conv by (rule fold_collide_mono)
  have hit: "snd (collide (ref_cloud_id r) n s) k \<noteq> None"
    if "r' \<in> set rs" "net_of r' = Some m" "overlaps n m" "k = ref_cloud_id r \<or> k = ref_cloud_id r'" for r' m k
    unfolding collide_def s prod.case snd_conv
    by (rule fold_collide_hit [of "(ref_cloud_id r', m)"]) (use that nets in auto)
  show ?thesis
    unfolding tracked_def
  proof (intro conjI ballI allI impI)
    show "set (fst (collide (ref_cloud_id r) n s)) =
        {(ref_cloud_id r', m) |r' m. r' \<in> set (rs @ [r]) \<and> net_of r' = Some m}"
      using c1 nets n by auto
  next
    fix r1 r2 n1 n2
    assume h: "r1 \<in> set (rs @ [r])" "r2 \<in> set (rs @ [r])" "ref_cloud_id r1 \<noteq> ref_cloud_id r2"
      "net_of r1 = Some n1" "net_of r2 = Some n2" "overlaps n1 n2"
    show "snd (collide (ref_cloud_id r) n s) (ref_cloud_id r1) \<noteq> None"
    proof (cases "r1 \<in> set rs \<and> r2 \<in> set rs")
      case True
      then have "snd s (ref_cloud_id r1) \<noteq> None" using t h unfolding tracked_def by blast
      then show ?thesis by (rule mono)
    next
      case False
      then consider "r1 = r" "r2 \<in> set rs" | "r2 = r" "r1 \<in> set rs" using h by auto
      then show ?thesis
      proof cases
        case 1
        then show ?thesis using hit [of r2 n2] h n by auto
      next
        case 2
        then show ?thesis using hit [of r1 n1] h n overlaps_sym [of n1 n2] by auto
      qed
    qed
  qed
qed

lemma collide_owner_tracked:
  assumes "tracked rs s" and "ref_cloud_id r \<notin> ref_cloud_id ` set rs"
  shows "tracked (rs @ [r]) (collide_owner r s)"
proof (cases "net_of r")
  case None
  have "collide_owner r s = s \<or> collide_owner r s = (fst s, (snd s)(ref_cloud_id r \<mapsto> InvalidCidr))"
    using None by (auto simp: collide_owner_def net_of_def Let_def split: if_splits)
  then show ?thesis using tracked_skip [OF assms(1) None] by (metis (no_types, lifting) fun_upd_apply option.distinct(1) prod.collapse)
next
  case (Some n)
  then have "collide_owner r s = collide (ref_cloud_id r) n s"
    by (auto simp: collide_owner_def net_of_def Let_def split: if_splits)
  then show ?thesis using tracked_collide [OF assms Some] by simp
qed

lemma fold_collide_owner_tracked:
  "distinct (map ref_cloud_id rs) \<Longrightarrow> tracked rs (fold collide_owner rs ([], \<lambda>_. None))"
proof (induction rs rule: rev_induct)
  case Nil
  then show ?case by (simp add: tracked_def)
next
  case (snoc r rs)
  then show ?case by (auto intro: collide_owner_tracked)
qed

section \<open>Properties\<close>

text \<open>
  Two NAT clouds that the inventory offers for reuse never share an address, provided the owner
  records have different ids.
\<close>

theorem reusable_clouds_disjoint:
  assumes "distinct (map ref_cloud_id (filter (\<lambda>r. \<not> is_reference r) (cloud_refs files)))"
    and "i \<in> set (list_nat_clouds files)" "safe_for_reuse i" "net_of (item_ref i) = Some n"
    and "j \<in> set (list_nat_clouds files)" "safe_for_reuse j" "net_of (item_ref j) = Some m"
    and "ref_cloud_id (item_ref i) \<noteq> ref_cloud_id (item_ref j)"
  shows "\<not> (\<exists>a. in_net a n \<and> in_net a m)"
proof -
  let ?rs = "filter (\<lambda>r. \<not> is_reference r) (cloud_refs files)"
  have t: "tracked ?rs (collisions_of (cloud_refs files))"
    unfolding collisions_of_def by (rule fold_collide_owner_tracked [OF assms(1)])
  have "item_ref i \<in> set ?rs" "item_ref j \<in> set ?rs"
    "snd (collisions_of (cloud_refs files)) (ref_cloud_id (item_ref i)) = None"
    using assms(2,3,5,6) by (auto simp: list_nat_clouds_def Let_def)
  then have "\<not> overlaps n m" using t assms(4,7,8) unfolding tracked_def by blast
  moreover have "valid_net n" "valid_net m"
    using assms(4,7) parse_net_valid by (auto simp: net_of_def Let_def split: if_splits)
  ultimately show ?thesis using overlaps_iff_common by blast
qed

section \<open>What a configuration guarantees\<close>

lemma validate_net_cidr_Inr: "validate_net_cidr v = Inr n \<Longrightarrow> valid_net n"
  by (auto simp: validate_net_cidr_def parse_net_valid split: json.splits if_splits option.splits)

lemma validate_ipv4_Inr: "validate_ipv4_text v = Inr a \<Longrightarrow> valid_ip a"
  by (auto simp: validate_ipv4_text_def dest: parse_ip_Some split: json.splits if_splits option.splits)

lemma existing_cidrs_valid: "n \<in> set (existing_network_cidrs networks) \<Longrightarrow> valid_net n"
  by (auto simp: existing_network_cidrs_def List.map_filter_def validate_net_cidr_Inr
      split: if_splits sum.splits)

lemma pool_Inr: "settings_nat_cloud_pool raw = Inr p \<Longrightarrow> valid_net p \<and> snd p \<le> 24"
  by (auto simp: settings_nat_cloud_pool_def parse_net_valid split: option.splits if_splits)

lemma allocate_Inr:
  assumes "allocate_nat_cloud_cidr pool networks extra = Inr c"
  shows "valid_net c \<and> snd c = 24 \<and> \<not> list_ex (overlaps c) (existing_network_cidrs networks @ extra)"
proof -
  obtain p where p: "settings_nat_cloud_pool pool = Inr p"
      "List.find (\<lambda>c. \<not> list_ex (overlaps c) (existing_network_cidrs networks @ extra)) (subnets p 24) = Some c"
    using assms by (auto simp: allocate_nat_cloud_cidr_def bindr_simps Let_def split: option.splits)
  then have "c \<in> set (subnets p 24)" "\<not> list_ex (overlaps c) (existing_network_cidrs networks @ extra)"
    by (auto simp: find_Some_iff)
  then show ?thesis using subnets_valid [of p 24 c] pool_Inr [OF p(1)] by simp
qed

lemma disjoint_from:
  "valid_net c \<Longrightarrow> (\<forall>n\<in>set ns. valid_net n) \<Longrightarrow> \<not> list_ex (overlaps c) ns \<Longrightarrow>
     \<forall>n\<in>set ns. \<not> (\<exists>a. in_net a c \<and> in_net a n)"
  using overlaps_iff_common by (fastforce simp: list_ex_iff)

lemma jupdate_simps: "jupdate [] d = d" "jupdate ((k, v) # kvs) d = jupdate kvs (jset k v d)"
  by (simp_all add: jupdate_def)

definition demo_cloud_lab :: "string \<Rightarrow> string \<Rightarrow> string \<times> json" where
  \<comment> \<open>the file of a lab that owns one NAT cloud\<close>
  "demo_cloud_lab lid cidr = (lid @ ''.json'', JObj [(''id'', JStr lid), (''networks'', JObj
     [(''1'', JObj [(''id'', JInt 1), (''type'', JStr ''nat_cloud''),
        (''config'', JObj [(''cidr'', JStr cidr)])])])])"

definition demo_cloud_files :: "(string \<times> json) list" where
  "demo_cloud_files = [demo_cloud_lab ''a'' ''10.255.0.0/24'', demo_cloud_lab ''b'' ''10.255.1.0/24'',
     demo_cloud_lab ''c'' ''10.255.1.128/25'']"

theorem reusable_clouds_disjoint_witness:
  "map safe_for_reuse (list_nat_clouds demo_cloud_files) = [True, False, False] \<and>
   \<not> (\<exists>a. in_net a (184483840, 24) \<and> in_net a (184484352, 24))"
proof -
  let ?fs = "[demo_cloud_lab ''a'' ''10.255.0.0/24'', demo_cloud_lab ''b'' ''10.255.2.0/24'']"
  let ?i = "list_nat_clouds ?fs ! 0" and ?j = "list_nat_clouds ?fs ! 1"
  have l: "length (list_nat_clouds ?fs) = 2" by code_simp
  then have m: "?i \<in> set (list_nat_clouds ?fs)" "?j \<in> set (list_nat_clouds ?fs)" by simp_all
  have d: "distinct (map ref_cloud_id (filter (\<lambda>r. \<not> is_reference r) (cloud_refs ?fs)))" by code_simp
  have s: "safe_for_reuse ?i" "safe_for_reuse ?j" by code_simp+
  have n: "net_of (item_ref ?i) = Some (184483840, 24)" "net_of (item_ref ?j) = Some (184484352, 24)"
    by code_simp+
  have c: "ref_cloud_id (item_ref ?i) \<noteq> ref_cloud_id (item_ref ?j)" by code_simp
  have "map safe_for_reuse (list_nat_clouds demo_cloud_files) = [True, False, False]" by code_simp
  with reusable_clouds_disjoint [OF d m(1) s(1) n(1) m(2) s(2) n(2) c] show ?thesis by blast
qed

text \<open>
  A normalised configuration of a new NAT cloud describes a subnet of at least 256 addresses that
  shares no address with the networks of the lab or the clouds of the host, a gateway strictly
  inside it, and a non-empty DHCP range inside it above the static range of the allocator.
\<close>

theorem normalized_cloud_config:
  assumes "normalize_nat_cloud_config pool raw networks host_used = Inr cfg"
    and "\<forall>n\<in>set host_used. valid_net n"
  shows "\<exists>cidr gateway lo hi. jget0 cfg ''cidr'' = JStr (str_net cidr) \<and>
     jget0 cfg ''gateway'' = JStr (str_ip gateway) \<and>
     jget0 cfg ''dhcp_start'' = JStr (str_ip lo) \<and> jget0 cfg ''dhcp_end'' = JStr (str_ip hi) \<and>
     valid_net cidr \<and> 256 \<le> hosts_size (snd cidr) \<and>
     (\<forall>n\<in>set (existing_network_cidrs networks @ host_used). \<not> (\<exists>a. in_net a cidr \<and> in_net a n)) \<and>
     fst cidr < gateway \<and> gateway < broadcast cidr \<and>
     fst cidr + 99 < lo \<and> lo \<le> hi \<and> hi \<le> broadcast cidr"
proof -
  obtain cidr gateway lo hi where c:
      "(if truthy (jget0 raw ''cidr'') then validate_net_cidr (jget0 raw ''cidr'')
        else allocate_nat_cloud_cidr pool networks host_used) = Inr cidr" "snd cidr \<le> 24"
      "\<not> list_ex (overlaps cidr) (existing_network_cidrs networks @ host_used)"
      "in_net gateway cidr" "gateway \<noteq> fst cidr" "gateway \<noteq> broadcast cidr"
      "in_net lo cidr" "in_net hi cidr" "lo \<le> hi" "fst cidr + 99 < lo"
      "cfg = cloud_fields raw cidr gateway lo hi"
    using assms(1) unfolding normalize_nat_cloud_config_def bindr_eq_Inr ensure_simps
      NAT_CLOUD_STATIC_LAST_OFFSET_def by blast
  have v: "valid_net cidr"
    using c(1) validate_net_cidr_Inr allocate_Inr by (metis (full_types))
  have "\<forall>n\<in>set (existing_network_cidrs networks @ host_used). valid_net n"
    using assms(2) existing_cidrs_valid by auto
  then have d: "\<forall>n\<in>set (existing_network_cidrs networks @ host_used). \<not> (\<exists>a. in_net a cidr \<and> in_net a n)"
    using disjoint_from [OF v _ c(3)] by blast
  have b: "fst cidr < gateway" "gateway < broadcast cidr" "hi \<le> broadcast cidr"
    using c(4-8) unfolding in_net_interval [OF v] by auto
  have "jget0 cfg ''cidr'' = JStr (str_net cidr)" "jget0 cfg ''gateway'' = JStr (str_ip gateway)"
    "jget0 cfg ''dhcp_start'' = JStr (str_ip lo)" "jget0 cfg ''dhcp_end'' = JStr (str_ip hi)"
    by (simp_all add: c(11) cloud_fields_def jupdate_simps Let_def)
  with v d b hosts_size_le_24 [OF c(2)] c(9,10) show ?thesis by blast
qed

theorem normalized_cloud_config_witness:
  "\<exists>cfg. normalize_nat_cloud_config ''10.255.0.0/16'' (JObj []) (JObj []) [(184483840, 24)] = Inr cfg \<and>
     (\<exists>cidr gateway. jget0 cfg ''cidr'' = JStr (str_net cidr) \<and> jget0 cfg ''gateway'' = JStr (str_ip gateway) \<and>
        \<not> (\<exists>a. in_net a cidr \<and> in_net a (184483840, 24)) \<and> fst cidr < gateway)"
proof -
  define cfg where "cfg = (case normalize_nat_cloud_config ''10.255.0.0/16'' (JObj []) (JObj []) [(184483840, 24)]
    of Inr c \<Rightarrow> c | Inl _ \<Rightarrow> JNull)"
  have "case normalize_nat_cloud_config ''10.255.0.0/16'' (JObj []) (JObj []) [(184483840, 24)]
    of Inr c \<Rightarrow> True | Inl _ \<Rightarrow> False" by code_simp
  then have c: "normalize_nat_cloud_config ''10.255.0.0/16'' (JObj []) (JObj []) [(184483840, 24)] = Inr cfg"
    by (auto simp: cfg_def split: sum.splits)
  have "\<forall>n\<in>set [(184483840, 24)]. valid_net n" by code_simp
  from normalized_cloud_config [OF c this] c show ?thesis by (auto 0 4)
qed

text \<open>
  Subnet allocation is complete: with a valid pool it fails exactly when every /24 of the pool
  shares an address with a subnet in use.
\<close>

theorem allocation_fails_only_when_exhausted:
  assumes "settings_nat_cloud_pool pool = Inr p" and "\<forall>n\<in>set extra. valid_net n"
  shows "allocate_nat_cloud_cidr pool networks extra = Inl (NetErr 409 ''NAT-Cloud subnet pool exhausted'') \<longleftrightarrow>
     (\<forall>c\<in>set (subnets p 24). \<exists>n\<in>set (existing_network_cidrs networks @ extra). \<exists>a. in_net a c \<and> in_net a n)"
proof -
  have v: "\<forall>n\<in>set (existing_network_cidrs networks @ extra). valid_net n"
    using assms(2) existing_cidrs_valid by auto
  have s: "valid_net c" if "c \<in> set (subnets p 24)" for c
    using subnets_valid [OF _ _ _ that] pool_Inr [OF assms(1)] by simp
  have "list_ex (overlaps c) (existing_network_cidrs networks @ extra) \<longleftrightarrow>
      (\<exists>n\<in>set (existing_network_cidrs networks @ extra). \<exists>a. in_net a c \<and> in_net a n)"
    if "c \<in> set (subnets p 24)" for c
    using overlaps_iff_common [OF s [OF that]] v by (auto simp: list_ex_iff)
  then have "(\<forall>c\<in>set (subnets p 24). list_ex (overlaps c) (existing_network_cidrs networks @ extra)) \<longleftrightarrow>
      (\<forall>c\<in>set (subnets p 24). \<exists>n\<in>set (existing_network_cidrs networks @ extra). \<exists>a. in_net a c \<and> in_net a n)"
    by blast
  moreover have "allocate_nat_cloud_cidr pool networks extra = Inl (NetErr 409 ''NAT-Cloud subnet pool exhausted'') \<longleftrightarrow>
      List.find (\<lambda>c. \<not> list_ex (overlaps c) (existing_network_cidrs networks @ extra)) (subnets p 24) = None"
    using assms(1) unfolding allocate_nat_cloud_cidr_def Let_def by (simp split: option.splits)
  ultimately show ?thesis unfolding find_None_iff by blast
qed

theorem allocation_fails_only_when_exhausted_witness:
  "allocate_nat_cloud_cidr ''10.255.0.0/24'' (JObj []) [(184483840, 16)] =
     Inl (NetErr 409 ''NAT-Cloud subnet pool exhausted'')"
proof -
  have p: "settings_nat_cloud_pool ''10.255.0.0/24'' = Inr (184483840, 24)" by code_simp
  have v: "\<forall>n\<in>set [(184483840, 16)]. valid_net n" by code_simp
  have "in_net 184483840 (184483840, 24)" "in_net 184483840 (184483840, 16)" by code_simp+
  moreover have "set (subnets (184483840, 24) 24) = {(184483840, 24)}" by code_simp
  ultimately show ?thesis
    using allocation_fails_only_when_exhausted [OF p v, of "JObj []"] by auto
qed

end
