(* ===== verification/Lab_Store.thy ===== *)
theory Lab_Store
  imports Host_Net_Safety Lab_Doc Nat_Cloud
begin

text \<open>
  Lab files and the lab service (\<open>app/services/lab_service.py\<close>): reading and writing a lab through
  its path, creation, update and deletion of a lab with its database row, and the tear-down of
  the host networks of a lab that is deleted. The disk is the list of the lab files in directory
  order, by path relative to \<open>LABS_DIR\<close>; a file that does not parse is \<open>None\<close>. Symbolic links are
  not part of the disk.

  The lemmas show that tear-down leaves host-owned bridges and shared clouds alone and that no
  exception of the helper interrupts it, and what a created lab can be found under.
\<close>

section \<open>Disk\<close>

type_synonym disk = "(string \<times> json option) list"

definition read_lab :: "disk \<Rightarrow> string \<Rightarrow> py_exc + json" where
  \<comment> \<open>\<open>LabService.read_lab_json_static\<close>\<close>
  "read_lab d path =
     bindr (normalize_lab_path path) (\<lambda>p.
       case obj_get d p of
         None \<Rightarrow> Inl PyFileNotFound
       | Some None \<Rightarrow> Inl PyJSONDecodeError
       | Some (Some v) \<Rightarrow> read_doc v)"

definition write_lab :: "disk \<Rightarrow> string \<Rightarrow> json \<Rightarrow> py_exc + disk" where
  \<comment> \<open>\<open>LabService.write_lab_json_static\<close>\<close>
  "write_lab d path data =
     bindr (normalize_lab_path path) (\<lambda>p.
     bindr (write_doc data) (\<lambda>v. Inr (obj_set p (Some v) d)))"

definition parsed_files :: "disk \<Rightarrow> (string \<times> json) list" where
  \<comment> \<open>what a scan of the directory reads: files that do not parse are skipped\<close>
  "parsed_files d = List.map_filter (\<lambda>(p, v). map_option (\<lambda>j. (p, j)) v) (filter (\<lambda>(p, v). ends_with ''.json'' p) d)"

section \<open>Tear-down of the host networks of a lab\<close>

definition host_try :: "'a host \<Rightarrow> 'a \<Rightarrow> 'a host" where
  \<comment> \<open>\<open>try: m except HostNetError: log\<close>\<close>
  "host_try m dflt = catch m (\<lambda>e. if is_HostNetError e then ret dflt else raise e)"

definition lift_py :: "py_exc + 'a \<Rightarrow> 'a host" where
  "lift_py r = (case r of Inl e \<Rightarrow> raise (Py e) | Inr x \<Rightarrow> ret x)"

definition lab_bridge_of :: "host_env \<Rightarrow> string \<Rightarrow> string \<times> json \<Rightarrow> json" where
  \<comment> \<open>the recorded bridge, else the derived name, else nothing\<close>
  "lab_bridge_of h lab p =
     (case p of (key, net) \<Rightarrow>
        (let runtime = jor (jget0 net ''runtime'') (JObj []);
             b = (if is_obj runtime then jget0 runtime ''bridge_name'' else JNull)
         in if truthy b then b
            else (case int_of_str key of
                    None \<Rightarrow> JNull
                  | Some n \<Rightarrow> (case bridge_name (cfg h) lab n of Inl e \<Rightarrow> JNull | Inr s \<Rightarrow> JStr s))))"

definition net_type :: "json \<Rightarrow> string" where
  "net_type net = py_str (jget net ''type'' (JStr []))"

definition net_driver :: "json \<Rightarrow> json" where
  "net_driver net = (let r = jor (jget0 net ''runtime'') (JObj []) in if is_obj r then jget0 r ''driver'' else JNull)"

definition BRIDGE_CLOUD_TYPE :: string where
  "BRIDGE_CLOUD_TYPE = ''bridge_cloud''"

definition teardown_nat_cloud :: "host_env \<Rightarrow> string \<Rightarrow> json \<Rightarrow> unit host" where
  "teardown_nat_cloud h bridge net =
     andthen (lift_py (pget (config_of net) ''cidr'' JNull)) (\<lambda>c.
     andthen (lift_py (bindr (pget (jor (jget0 net ''runtime'') (JObj [])) ''egress_interface'' JNull) (\<lambda>e.
         Inr (py_str (jor (jor e (jget0 (config_of net) ''egress_interface'')) (JStr [])))))) (\<lambda>egress.
     andthen (host_try (dnsmasq_stop h bridge) ()) (\<lambda>_.
     andthen (host_try (forward_remove h bridge (Some (py_str (jor c (JStr [])))) (Some egress)) ()) (\<lambda>_.
       host_try (nat_remove h bridge) ()))))"

definition cleanup_network :: "host_env \<Rightarrow> string \<Rightarrow> string \<times> json \<Rightarrow> unit host" where
  \<comment> \<open>the body of the loop of \<open>_cleanup_lab_network_runtime\<close>; a truthy bridge that is not a
    string fails in the subprocess call\<close>
  "cleanup_network h lab p =
     (case p of (key, net) \<Rightarrow>
        if \<not> is_obj net then ret ()
        else (case lab_bridge_of h lab (key, net) of
                JStr bridge \<Rightarrow>
                  if bridge = [] then ret ()
                  else if net_type net = BRIDGE_CLOUD_TYPE \<or> net_driver net = JStr BRIDGE_CLOUD_TYPE then ret ()
                  else if net_type net = NAT_CLOUD_TYPE \<and> truthy (config_get net ''shared_cloud_id'') then ret ()
                  else if starts_with ''br-eth'' bridge then raise AssertionError
                  else andthen (if net_type net = NAT_CLOUD_TYPE then teardown_nat_cloud h bridge net else ret ())
                         (\<lambda>_. host_try (bridge_del h bridge) ())
              | b \<Rightarrow>
                  if \<not> truthy b \<or> net_type net = BRIDGE_CLOUD_TYPE \<or> net_driver net = JStr BRIDGE_CLOUD_TYPE
                     \<or> (net_type net = NAT_CLOUD_TYPE \<and> truthy (config_get net ''shared_cloud_id'')) then ret ()
                  else raise (Py PyTypeError)))"

fun for_each :: "('a \<Rightarrow> unit host) \<Rightarrow> 'a list \<Rightarrow> unit host" where
  "for_each f [] = ret ()"
| "for_each f (x # xs) = andthen (f x) (\<lambda>_. for_each f xs)"

definition cleanup_lab_network_runtime :: "host_env \<Rightarrow> json \<Rightarrow> string \<Rightarrow> unit host" where
  "cleanup_lab_network_runtime h data filename =
     (let networks = jor (jget data ''networks'' (JObj [])) (JObj []);
          lab = py_str (jor (jget0 data ''id'') (JStr filename))
      in if \<not> is_obj networks then ret () else for_each (cleanup_network h lab) (obj_of networks))"

section \<open>Labs and their rows\<close>

record lab_row =
  row_id :: string
  row_owner :: string
  row_filename :: string
  row_name :: string
  row_path :: string
  row_meta :: "(string \<times> json) list"

record labs =
  files :: disk
  rows :: "lab_row list"

datatype lab_error = LabPy py_exc | LabHost host_error | LabShared net_error

definition lab_meta :: "string \<Rightarrow> json \<Rightarrow> json" where
  "lab_meta name f =
     JObj [(''name'', JStr name), (''author'', jget f ''author'' (JStr [])),
       (''description'', jget f ''description'' (JStr [])), (''body'', jget f ''body'' (JStr [])),
       (''version'', jget f ''version'' (JStr ''0'')), (''scripttimeout'', jget f ''scripttimeout'' (JInt 300)),
       (''countdown'', jget f ''countdown'' (JInt 0)), (''linkwidth'', jget f ''linkwidth'' (JStr ''1'')),
       (''grid'', jget f ''grid'' (JBool True)), (''lock'', jget f ''lock'' (JBool False)),
       (''sat'', jget f ''sat'' (JStr ''-1''))]"

definition empty_lab_json :: "string \<Rightarrow> json \<Rightarrow> json" where
  "empty_lab_json lid meta =
     JObj [(''schema'', JInt SCHEMA_VERSION), (''id'', JStr lid), (''meta'', meta),
       (''viewport'', JObj [(''x'', JInt 0), (''y'', JInt 0), (''zoom'', JFloat ''1.0'' 1 True)]),
       (''nodes'', JObj []), (''networks'', JObj []), (''links'', JList []),
       (''defaults'', JObj [(''link_style'', JStr ''orthogonal'')]), (''textobjects'', JList []),
       (''lineobjects'', JList []), (''pictures'', JList []), (''tasks'', JList []), (''configsets'', JObj [])]"

definition db_fields :: "string list" where
  "db_fields = [''name'', ''author'', ''description'', ''body'', ''version'', ''scripttimeout'',
     ''countdown'', ''linkwidth'', ''grid'', ''lock'']"

definition get_lab_by_filename :: "labs \<Rightarrow> string \<Rightarrow> py_exc + lab_row option" where
  "get_lab_by_filename s filename =
     bindr (normalize_lab_path filename) (\<lambda>p. Inr (List.find (\<lambda>r. row_filename r = p) (rows s)))"

definition create_lab ::
    "labs \<Rightarrow> string \<Rightarrow> string \<Rightarrow> string \<Rightarrow> string \<Rightarrow> string \<Rightarrow> json \<Rightarrow> py_exc + lab_row \<times> labs" where
  \<comment> \<open>\<open>lid\<close> is the fresh UUID; an absent path or filename is the empty string\<close>
  "create_lab s lid owner name path filename given =
     bindr (build_relative_lab_path name path filename) (\<lambda>rel.
     bindr (normalize_lab_path rel) (\<lambda>p.
     bindr (ensure (obj_get (files s) p = None) PyFileExists) (\<lambda>_.
     bindr (api_lab_path rel) (\<lambda>api.
       let meta = lab_meta name given;
           row = \<lparr>row_id = lid, row_owner = owner, row_filename = rel, row_name = name, row_path = api,
                   row_meta = filter (\<lambda>(k, v). k \<in> set db_fields \<and> k \<noteq> ''name'') (obj_of meta)\<rparr>
       in Inr (row, s\<lparr>files := obj_set p (Some (empty_lab_json lid meta)) (files s), rows := rows s @ [row]\<rparr>)))))"

definition row_set :: "(string \<times> json) list \<Rightarrow> lab_row \<Rightarrow> lab_row" where
  \<comment> \<open>\<open>setattr\<close> of the given fields that are not None\<close>
  "row_set updates r =
     fold (\<lambda>(k, v) r.
       if k \<in> set db_fields \<and> v \<noteq> JNull then
         (if k = ''name'' then (case v of JStr n \<Rightarrow> r\<lparr>row_name := n\<rparr> | _ \<Rightarrow> r)
          else r\<lparr>row_meta := obj_set k v (row_meta r)\<rparr>)
       else r) updates r"

definition update_lab :: "labs \<Rightarrow> lab_row \<Rightarrow> (string \<times> json) list \<Rightarrow> py_exc + lab_row \<times> labs" where
  \<comment> \<open>the row is committed before the file is read: an error after that leaves the new row\<close>
  "update_lab s lab updates =
     (let lab' = row_set updates lab;
          s' = s\<lparr>rows := map (\<lambda>r. if row_id r = row_id lab then lab' else r) (rows s)\<rparr>
      in bindr (normalize_lab_path (row_filename lab)) (\<lambda>p.
           if obj_get (files s) p = None then Inr (lab', s')
           else bindr (read_lab (files s) (row_filename lab)) (\<lambda>data.
                bindr (forr (\<lambda>f d.
                    case obj_get updates f of
                      Some v \<Rightarrow> if v = JNull then Inr d
                        else (case jfind d ''meta'' of
                                None \<Rightarrow> Inl PyKeyError
                              | Some m \<Rightarrow> if is_obj m then Inr (jset ''meta'' (jset f v m) d) else Inl PyTypeError)
                    | None \<Rightarrow> Inr d) db_fields data) (\<lambda>data'.
                bindr (write_lab (files s) (row_filename lab) data') (\<lambda>d. Inr (lab', s'\<lparr>files := d\<rparr>))))))"

definition delete_lab :: "host_env \<Rightarrow> labs \<Rightarrow> lab_row \<Rightarrow> call list \<Rightarrow> (lab_error + labs) \<times> call list" where
  "delete_lab h s lab tr =
     (case normalize_lab_path (row_filename lab) of
        Inl e \<Rightarrow> (Inl (LabPy e), tr)
      | Inr p \<Rightarrow>
          (case no_external_references (parsed_files (files s)) (row_filename lab) of
             Inl e \<Rightarrow> (Inl (LabShared e), tr)
           | Inr u \<Rightarrow>
               (let gone = s\<lparr>files := obj_del p (files s), rows := filter (\<lambda>r. row_id r \<noteq> row_id lab) (rows s)\<rparr>
                in case obj_get (files s) p of
                     None \<Rightarrow> (Inr gone, tr)
                   | Some f \<Rightarrow>
                       (case read_lab (files s) (row_filename lab) of
                          Inl e \<Rightarrow>
                            if e \<in> {PyValueError, PyJSONDecodeError, PyFileNotFound} then (Inr gone, tr)
                            else (Inl (LabPy e), tr)
                        | Inr data \<Rightarrow>
                            (case cleanup_lab_network_runtime h data (row_filename lab) tr of
                               (Inl e, tr') \<Rightarrow> (Inl (LabHost e), tr')
                             | (Inr u', tr') \<Rightarrow> (Inr gone, tr'))))))"

section \<open>Tear-down\<close>

lemma emits_lift_py [emits_rules]: "emits P (lift_py r)"
  by (cases r) (auto simp: lift_py_def intro: emits_rules)

lemma emits_host_try [emits_rules]: "emits P m \<Longrightarrow> emits P (host_try m d)"
  unfolding host_try_def by (intro emits_rules)

lemma emits_for_each: "(\<And>x. x \<in> set xs \<Longrightarrow> emits P (f x)) \<Longrightarrow> emits P (for_each f xs)"
proof (induction xs)
  case (Cons x xs)
  then show ?case unfolding for_each.simps by (intro emits_andthen) auto
qed (auto intro: emits_rules)

lemma emits_teardown_nat_cloud:
  "(\<And>v a. v \<noteq> ''bridge-del'' \<Longrightarrow> P (Helper v a)) \<Longrightarrow> emits P (teardown_nat_cloud h b net)"
  unfolding teardown_nat_cloud_def dnsmasq_stop_def forward_remove_def nat_remove_def
  by (intro emits_rules) auto

lemma emits_bridge_del:
  "P (Helper ''bridge-del'' [n]) \<Longrightarrow> P (FpUnlink n) \<Longrightarrow> emits P (bridge_del h n)"
  unfolding bridge_del_def bridge_fingerprint_remove_def by (intro emits_rules)

lemma cleanup_network_calls:
  "emits (\<lambda>c. \<forall>n. c = Helper ''bridge-del'' [n] \<longrightarrow> \<not> starts_with ''br-eth'' n) (cleanup_network h lab p)"
proof (cases p)
  case (Pair key net)
  show ?thesis
  proof (cases "lab_bridge_of h lab (key, net)")
    case (JStr b)
    show ?thesis
      unfolding Pair cleanup_network_def prod.case JStr json.case
      by (intro emits_if emits_pure emits_andthen emits_teardown_nat_cloud emits_host_try emits_bridge_del) auto
  qed (auto simp: Pair cleanup_network_def intro!: emits_pure)
qed

text \<open>
  Deleting a lab never asks the helper to delete a host-owned bridge, and performs no call at all
  for a network of the Bridge-Cloud type or driver or for a reference to another lab's NAT cloud.
\<close>

theorem lab_cleanup_spares_host_bridges:
  "\<not> (\<exists>n. starts_with ''br-eth'' n \<and>
      Helper ''bridge-del'' [n] \<in> set (snd (cleanup_lab_network_runtime h data f []))) \<and>
   (net_type net = ''bridge_cloud'' \<or> net_driver net = JStr ''bridge_cloud'' \<or>
       (net_type net = ''nat_cloud'' \<and> truthy (config_get net ''shared_cloud_id'')) \<longrightarrow>
    snd (cleanup_network h lab (key, net) []) = [])"
proof
  let ?P = "\<lambda>c. \<forall>n. c = Helper ''bridge-del'' [n] \<longrightarrow> \<not> starts_with ''br-eth'' n"
  have "emits ?P (cleanup_lab_network_runtime h data f)"
    unfolding cleanup_lab_network_runtime_def Let_def
    by (intro emits_if emits_pure emits_for_each cleanup_network_calls)
  from emits_trace [OF this] show "\<not> (\<exists>n. starts_with ''br-eth'' n \<and>
      Helper ''bridge-del'' [n] \<in> set (snd (cleanup_lab_network_runtime h data f [])))"
    unfolding list_all_iff by blast
  show "net_type net = ''bridge_cloud'' \<or> net_driver net = JStr ''bridge_cloud'' \<or>
       (net_type net = ''nat_cloud'' \<and> truthy (config_get net ''shared_cloud_id'')) \<longrightarrow>
    snd (cleanup_network h lab (key, net) []) = []"
    by (auto simp: cleanup_network_def BRIDGE_CLOUD_TYPE_def NAT_CLOUD_TYPE_def ret_def raise_def
        split: json.splits)
qed

theorem lab_cleanup_spares_host_bridges_witness:
  "snd (cleanup_network demo_host ''a'' (''1'', JObj [(''type'', JStr ''bridge_cloud'')]) []) = []"
proof -
  have "net_type (JObj [(''type'', JStr ''bridge_cloud'')]) = ''bridge_cloud''" by code_simp
  then show ?thesis by (intro lab_cleanup_spares_host_bridges [THEN conjunct2, THEN mp] disjI1)
qed

text \<open>
  A network record whose recorded bridge looks host-owned but that lost its Bridge-Cloud marks
  stops the deletion of its lab with an AssertionError: the file and the row stay.
\<close>

theorem unmarked_host_bridge_blocks_deletion:
  assumes "is_obj net" and "jget0 net ''runtime'' = JObj rt" and "obj_get rt ''bridge_name'' = Some (JStr (''br-eth'' @ x))"
    and "net_type net \<noteq> ''bridge_cloud''" and "obj_get rt ''driver'' \<noteq> Some (JStr ''bridge_cloud'')"
    and "net_type net \<noteq> ''nat_cloud''"
  shows "cleanup_network h lab (key, net) tr = (Inl AssertionError, tr)"
proof -
  have "rt \<noteq> []" using assms(3) by auto
  then have "lab_bridge_of h lab (key, net) = JStr (''br-eth'' @ x)"
    using assms(2,3) by (simp add: lab_bridge_of_def jor_def jget_def jfind_def)
  moreover have "net_driver net \<noteq> JStr ''bridge_cloud''"
    using assms(2,5) \<open>rt \<noteq> []\<close> by (auto simp: net_driver_def jor_def Let_def jget_def jfind_def split: option.splits)
  ultimately show ?thesis
    using assms by (simp add: cleanup_network_def BRIDGE_CLOUD_TYPE_def NAT_CLOUD_TYPE_def raise_def starts_with_def)
qed

definition demo_unmarked :: labs where
  \<comment> \<open>one lab whose network lost its type and driver\<close>
  "demo_unmarked = \<lparr>files = [(''a.json'', Some (JObj [(''schema'', JInt 2), (''id'', JStr ''a''),
       (''networks'', JObj [(''1'', JObj [(''id'', JInt 1),
          (''runtime'', JObj [(''bridge_name'', JStr ''br-eth1'')])])])]))],
     rows = [\<lparr>row_id = ''u'', row_owner = ''o'', row_filename = ''a.json'', row_name = ''a'',
       row_path = ''/a.json'', row_meta = []\<rparr>]\<rparr>"

theorem unmarked_host_bridge_blocks_deletion_witness:
  "delete_lab demo_host demo_unmarked (hd (rows demo_unmarked)) [] = (Inl (LabHost AssertionError), []) \<and>
   cleanup_network demo_host ''a'' (''1'', JObj [(''id'', JInt 1),
     (''runtime'', JObj [(''bridge_name'', JStr (''br-eth'' @ ''1''))])]) [] = (Inl AssertionError, [])"
proof
  show "delete_lab demo_host demo_unmarked (hd (rows demo_unmarked)) [] = (Inl (LabHost AssertionError), [])"
    by code_simp
  show "cleanup_network demo_host ''a'' (''1'', JObj [(''id'', JInt 1),
     (''runtime'', JObj [(''bridge_name'', JStr (''br-eth'' @ ''1''))])]) [] = (Inl AssertionError, [])"
    by (rule unmarked_host_bridge_blocks_deletion [where rt = "[(''bridge_name'', JStr (''br-eth'' @ ''1''))]"])
      (simp_all add: net_type_def jget_def)
qed

section \<open>Created labs\<close>

lemma read_empty_lab:
  "\<exists>d. read_doc (empty_lab_json lid meta) = Inr d \<and> jget0 d ''id'' = JStr lid \<and> jget0 d ''links'' = JList []"
  by (simp add: read_doc_def empty_lab_json_def jget_def derive_legacy_topology_def link_list_def jor_def
      derive_legacy_interface_network_ids_def derive_network_counts_def nodes_of_def map_values_def
      pitems_def SCHEMA_VERSION_def List.map_filter_def jset_def)

text \<open>
  A created lab can be read and found: its file parses to a document with its id and no links,
  and when its file name has no white space at the ends, looking the name up in the database
  gives a row of that name.
\<close>

theorem created_lab_is_found:
  assumes "create_lab s lid owner name path filename given = Inr (row, s')"
  shows "(\<exists>d. read_lab (files s') (row_filename row) = Inr d \<and> jget0 d ''id'' = JStr lid \<and>
            jget0 d ''links'' = JList []) \<and>
     (strip (row_filename row) = row_filename row \<longrightarrow>
      (\<exists>r. get_lab_by_filename s' (row_filename row) = Inr (Some r) \<and> row_filename r = row_filename row))"
proof -
  obtain rel p where b: "build_relative_lab_path name path filename = Inr rel" "normalize_lab_path rel = Inr p"
      "row_filename row = rel" "rows s' = rows s @ [row]"
      "files s' = obj_set p (Some (empty_lab_json lid (lab_meta name given))) (files s)"
    using assms by (auto simp: create_lab_def bindr_simps Let_def)
  have "\<exists>d. read_lab (files s') rel = Inr d \<and> jget0 d ''id'' = JStr lid \<and> jget0 d ''links'' = JList []"
    using read_empty_lab [of lid "lab_meta name given"] by (simp add: read_lab_def b)
  moreover have "\<exists>r. get_lab_by_filename s' rel = Inr (Some r) \<and> row_filename r = rel" if "strip rel = rel"
  proof -
    have "normalize_lab_path rel = Inr rel"
      using build_normal [OF b(1)] normalize_join that by blast
    moreover obtain r where "List.find (\<lambda>r. row_filename r = rel) (rows s @ [row]) = Some r"
      using b(3) by (cases "List.find (\<lambda>r. row_filename r = rel) (rows s @ [row])") (auto simp: find_None_iff)
    moreover from this have "row_filename r = rel" by (auto simp: find_Some_iff)
    ultimately show ?thesis by (simp add: get_lab_by_filename_def b(4))
  qed
  ultimately show ?thesis unfolding b(3) by blast
qed

theorem created_lab_is_found_witness:
  "\<exists>row s'. create_lab \<lparr>files = [], rows = []\<rparr> ''u'' ''o'' ''My Lab'' ''team'' [] (JObj []) = Inr (row, s') \<and>
     row_filename row = ''team/My-Lab.json'' \<and>
     (\<exists>r. get_lab_by_filename s' (row_filename row) = Inr (Some r))"
proof -
  define res where "res = create_lab \<lparr>files = [], rows = []\<rparr> ''u'' ''o'' ''My Lab'' ''team'' [] (JObj [])"
  have "case res of Inr p \<Rightarrow> row_filename (fst p) = ''team/My-Lab.json'' | Inl e \<Rightarrow> False"
    unfolding res_def by code_simp
  then obtain row s' where r: "res = Inr (row, s')" "row_filename row = ''team/My-Lab.json''"
    by (cases res) auto
  have st: "strip ''team/My-Lab.json'' = ''team/My-Lab.json''" by code_simp
  from created_lab_is_found [OF r(1) [unfolded res_def]] r st show ?thesis
    unfolding res_def by auto
qed

text \<open>
  A path with white space after its leading slash is stored under a name that no lookup finds:
  the row keeps the space, the file does not, and normalisation removes it from every request.
\<close>

theorem spaced_lab_is_lost:
  "\<exists>row s'. create_lab \<lparr>files = [], rows = []\<rparr> lid owner name [] ''/ x'' given = Inr (row, s') \<and>
     rows s' = [row] \<and> row_filename row = '' x.json'' \<and> map fst (files s') = [''x.json''] \<and>
     get_lab_by_filename s' (row_filename row) = Inr None"
proof -
  have b: "build_relative_lab_path name [] ''/ x'' = Inr '' x.json''"
    "normalize_lab_path '' x.json'' = Inr ''x.json''"
    by code_simp+
  then show ?thesis
    by (simp add: create_lab_def api_lab_path_def get_lab_by_filename_def Let_def)
qed

end
