(* ===== verification/Mac_Registry.thy ===== *)
theory Mac_Registry
  imports Lab_Store
begin

text \<open>
  The registry of planned MAC addresses (\<open>app/services/mac_registry.py\<close>): a map from network and
  address to the interface that declared it, recomputed from a lab's links and nodes, with a
  collision test and a suggestion of a free address. The lock of the class makes its operations
  atomic; they are functions on the map here. The handler that sets the planned address of an
  interface (\<open>app/routers/labs.py\<close>) is modelled from the document it has read on.

  The lemmas show what recomputation keeps and replaces, that a suggested address is free
  whenever one of the prefix is, and that interfaces of different labs collide.
\<close>

type_synonym owner = "string \<times> int \<times> int"
type_synonym registry = "int \<times> string \<Rightarrow> owner option"

definition normalize_mac :: "string \<Rightarrow> string" where
  "normalize_mac mac = lower (strip mac)"

definition check_collision :: "registry \<Rightarrow> int \<Rightarrow> string option \<Rightarrow> owner option \<Rightarrow> owner option" where
  "check_collision reg net planned own =
     (case planned of None \<Rightarrow> None
      | Some m \<Rightarrow>
          (let mac = normalize_mac m in
           if mac = [] then None
           else (case reg (net, mac) of None \<Rightarrow> None
                 | Some existing \<Rightarrow> if own \<noteq> None \<and> own = Some existing then None else Some existing)))"

section \<open>Recomputation\<close>

definition pick_ends :: "json list \<Rightarrow> json option \<times> json option" where
  \<comment> \<open>the last node end and the last network end among the objects\<close>
  "pick_ends eps =
     fold (\<lambda>ep (n, w).
       if \<not> is_obj ep then (n, w)
       else if jhas ep ''network_id'' then (n, Some ep)
       else if jhas ep ''node_id'' then (Some ep, w) else (n, w)) eps (None, None)"

definition end_numbers :: "json \<Rightarrow> json \<Rightarrow> (int \<times> int \<times> int) option" where
  \<comment> \<open>the three conversions; a TypeError or ValueError skips the link\<close>
  "end_numbers node_ep net_ep =
     (case py_int (jget0 net_ep ''network_id'') of Inl e \<Rightarrow> None
      | Inr w \<Rightarrow> (case py_int (jget0 node_ep ''node_id'') of Inl e \<Rightarrow> None
      | Inr n \<Rightarrow> (case py_int (jget node_ep ''interface_index'' (JInt (- 1))) of Inl e \<Rightarrow> None
      | Inr i \<Rightarrow> Some (w, n, i))))"

definition planned_of :: "json \<Rightarrow> int \<Rightarrow> int \<Rightarrow> py_exc + string option" where
  \<comment> \<open>the normalised planned MAC of an interface, if it has one\<close>
  "planned_of nodes n i =
     bindr (pget nodes (dec_int n) JNull) (\<lambda>nd.
     bindr (pget (jor nd (JObj [])) ''interfaces'' JNull) (\<lambda>is0. let ifs = jor is0 (JList []) in
     bindr (plen ifs) (\<lambda>len.
       if int len \<le> i then Inr None
       else bindr (pindex ifs (nat i)) (\<lambda>v.
         if \<not> is_obj v \<or> \<not> truthy (jget0 v ''planned_mac'') then Inr None
         else (let mac = normalize_mac (py_str (jget0 v ''planned_mac'')) in
               Inr (if mac = [] then None else Some mac))))))"

definition declared_address :: "json \<Rightarrow> json \<Rightarrow> py_exc + ((int \<times> string) \<times> int \<times> int) option" where
  \<comment> \<open>the body of the loop over the links: the key, and the node and interface of the owner\<close>
  "declared_address nodes link =
     bindr (link_ends link) (\<lambda>(a, b).
       case pick_ends [a, b] of
         (Some ne, Some we) \<Rightarrow>
           (case end_numbers ne we of None \<Rightarrow> Inr None
            | Some (w, n, i) \<Rightarrow>
                if i < 0 then Inr None
                else bindr (planned_of nodes n i) (\<lambda>m.
                  Inr (map_option (\<lambda>mac. ((w, mac), (n, i))) m)))
       | _ \<Rightarrow> Inr None)"

definition fresh_entries :: "string \<Rightarrow> json \<Rightarrow> py_exc + ((int \<times> string) \<times> owner) list" where
  \<comment> \<open>in link order: a later entry replaces an earlier one of the same key\<close>
  "fresh_entries lab data =
     bindr (link_list data) (\<lambda>ls. bindr (mapr (declared_address (nodes_of data)) ls) (\<lambda>es.
       Inr (map (\<lambda>(k, n, i). (k, (lab, n, i))) (List.map_filter id es))))"

definition replace_lab :: "string \<Rightarrow> ((int \<times> string) \<times> owner) list \<Rightarrow> registry \<Rightarrow> registry" where
  \<comment> \<open>drop the lab's entries, then \<open>update(fresh)\<close>\<close>
  "replace_lab lab es reg =
     (\<lambda>k. case map_of (rev es) k of Some own \<Rightarrow> Some own
          | None \<Rightarrow> (case reg k of None \<Rightarrow> None | Some own \<Rightarrow> if fst own = lab then None else Some own))"

definition recompute_for_lab :: "registry \<Rightarrow> string \<Rightarrow> json \<Rightarrow> py_exc + registry" where
  \<comment> \<open>an error leaves the registry as it was\<close>
  "recompute_for_lab reg lab data = bindr (fresh_entries lab data) (\<lambda>es. Inr (replace_lab lab es reg))"

definition path_stem :: "string \<Rightarrow> string" where
  \<comment> \<open>\<open>Path(p).stem\<close> of a \<open>.json\<close> file\<close>
  "path_stem p = (let f = last (split_on (CHR ''/'') p) in take (length f - 5) f)"

fun rebuild_all :: "disk \<Rightarrow> string list \<Rightarrow> registry \<Rightarrow> registry \<times> py_exc option" where
  \<comment> \<open>the loop over the files; an error of \<open>recompute_for_lab\<close> ends it\<close>
  "rebuild_all d [] reg = (reg, None)"
| "rebuild_all d (p # ps) reg =
     (case read_lab d p of
        Inl e \<Rightarrow> if e \<in> {PyValueError, PyJSONDecodeError, PyFileNotFound} then rebuild_all d ps reg else (reg, Some e)
      | Inr data \<Rightarrow>
          (case recompute_for_lab reg (path_stem p) data of
             Inl e \<Rightarrow> (reg, Some e)
           | Inr reg' \<Rightarrow> rebuild_all d ps reg'))"

section \<open>Suggestion\<close>

definition int16_of_str :: "string \<Rightarrow> int option" where
  \<comment> \<open>\<open>int(s, 16)\<close> of a lower-case string\<close>
  "int16_of_str s =
     (let t = strip s;
          neg = starts_with ''-'' t;
          u = (if neg \<or> starts_with ''+'' t then tl t else t);
          prefixed = starts_with ''0x'' u;
          v = (if prefixed then drop 2 u else u);
          w = (if prefixed \<and> starts_with ''_'' v then tl v else v)
      in if list_all (\<lambda>p. p \<noteq> [] \<and> list_all is_hex p) (split_on (CHR ''_'') w)
         then (let n = int (base_val 16 (filter (\<lambda>c. c \<noteq> CHR ''_'') w)) in Some (if neg then - n else n))
         else None)"

definition start_of :: "string option \<Rightarrow> int" where
  \<comment> \<open>\<open>x << 16 | y << 8 | z\<close> of the last three octets\<close>
  "start_of base =
     (case base of None \<Rightarrow> 0
      | Some b \<Rightarrow>
          (let tail = split_on (CHR '':'') (normalize_mac b) in
           if b = [] \<or> length tail < 6 then 0
           else (case (int16_of_str (tail ! 3), int16_of_str (tail ! 4), int16_of_str (tail ! 5)) of
                   (Some x, Some y, Some z) \<Rightarrow> or (push_bit 16 x) (or (push_bit 8 y) z)
                 | _ \<Rightarrow> 0)))"

definition hex2 :: "nat \<Rightarrow> string" where
  "hex2 n = zpad 2 (base_str 16 n)"

definition tail_mac :: "nat \<Rightarrow> string" where
  \<comment> \<open>the address with the given 24-bit tail\<close>
  "tail_mac t = ''50:00:00:'' @ hex2 (t div 65536 mod 256) @ '':'' @ hex2 (t div 256 mod 256) @ '':'' @ hex2 (t mod 256)"

definition candidate_mac :: "int \<Rightarrow> string" where
  \<comment> \<open>\<open>(c >> 16) & 0xFF\<close> and so on: the first candidate is not masked\<close>
  "candidate_mac c = tail_mac (nat (take_bit 24 c))"

fun suggest_loop :: "registry \<Rightarrow> int \<Rightarrow> nat \<Rightarrow> int \<Rightarrow> string option" where
  "suggest_loop reg net 0 c = None"
| "suggest_loop reg net (Suc k) c =
     (if reg (net, candidate_mac c) = None then Some (candidate_mac c)
      else suggest_loop reg net k (take_bit 24 (c + 1)))"

definition suggest_mac :: "registry \<Rightarrow> int \<Rightarrow> string option \<Rightarrow> string" where
  "suggest_mac reg net base =
     (case suggest_loop reg net 16777216 (start_of base) of
        Some m \<Rightarrow> m | None \<Rightarrow> ''50:00:00:00:00:00'')"

section \<open>Suggested addresses\<close>

lemma suggest_loop_None:
  assumes "suggest_loop reg net k c = None" and "j < k"
  shows "reg (net, candidate_mac (c + int j)) \<noteq> None"
  using assms
proof (induction k arbitrary: c j)
  case (Suc k)
  show ?case
  proof (cases j)
    case 0
    then show ?thesis using Suc.prems by (auto split: if_splits)
  next
    case (Suc i)
    have "suggest_loop reg net k (take_bit 24 (c + 1)) = None" using Suc.prems by (auto split: if_splits)
    then have "reg (net, candidate_mac (take_bit 24 (c + 1) + int i)) \<noteq> None"
      using Suc.IH Suc.prems Suc by simp
    moreover have "take_bit 24 (take_bit 24 (c + 1) + int i) = take_bit 24 (c + int j)"
      using Suc by (simp add: take_bit_eq_mod mod_simps algebra_simps)
    ultimately show ?thesis by (simp add: candidate_mac_def)
  qed
qed simp

lemma suggest_loop_Some:
  "suggest_loop reg net k c = Some m \<Longrightarrow> reg (net, m) = None \<and> (\<exists>t<16777216. m = tail_mac t)"
proof (induction k arbitrary: c)
  case (Suc k)
  have "nat (take_bit 24 c) < 16777216" for c :: int
    by (simp add: take_bit_eq_mod nat_less_iff)
  then show ?case using Suc by (auto simp: candidate_mac_def split: if_splits)
qed simp

lemma suggest_loop_total:
  assumes "t < 16777216" and "reg (net, tail_mac t) = None"
  shows "suggest_loop reg net 16777216 c \<noteq> None"
proof
  assume n: "suggest_loop reg net 16777216 c = None"
  define j where "j = nat ((int t - c) mod 16777216)"
  have "j < 16777216" by (simp add: j_def nat_less_iff)
  then have "reg (net, candidate_mac (c + int j)) \<noteq> None" by (rule suggest_loop_None [OF n])
  moreover have "take_bit 24 (c + int j) = int t"
    using assms(1) by (simp add: j_def take_bit_eq_mod mod_simps)
  ultimately show False using assms(2) by (simp add: candidate_mac_def)
qed

section \<open>Setting a planned address\<close>

datatype patch_reply = PatchFail int string | MacTaken string | PatchDone json

definition interface_network_id :: "json \<Rightarrow> int \<Rightarrow> int \<Rightarrow> py_exc + int" where
  "interface_network_id data n i =
     bindr (pget (nodes_of data) (dec_int n) JNull) (\<lambda>nd.
     bindr (pget (jor nd (JObj [])) ''interfaces'' JNull) (\<lambda>is0. let ifs = jor is0 (JList []) in
     bindr (plen ifs) (\<lambda>len.
       if 0 \<le> i \<and> i < int len
       then bindr (pindex ifs (nat i)) (\<lambda>v.
         Inr (if is_obj v
              then (case py_int (jor (jget v ''network_id'' (JInt 0)) (JInt 0)) of Inl e \<Rightarrow> 0 | Inr w \<Rightarrow> w)
              else 0))
       else Inr 0)))"

definition find_interface :: "json \<Rightarrow> int \<Rightarrow> int \<Rightarrow> py_exc + (string + json)" where
  \<comment> \<open>the interface, or the message of the 404 reply\<close>
  "find_interface data n i =
     bindr (pget (nodes_of data) (dec_int n) JNull) (\<lambda>nd.
       if \<not> is_obj nd then Inr (Inl ''Node does not exist.'')
       else (let ifs = jor (jget0 nd ''interfaces'') (JList []) in
         bindr (plen ifs) (\<lambda>len.
           if \<not> (0 \<le> i \<and> i < int len) then Inr (Inl ''Interface does not exist.'')
           else bindr (pindex ifs (nat i)) (\<lambda>v.
             if is_obj v then Inr (Inr v) else Inr (Inl ''Interface does not exist.'')))))"

definition put_interface :: "int \<Rightarrow> int \<Rightarrow> json \<Rightarrow> json \<Rightarrow> json" where
  \<comment> \<open>the update of the interface dict in place\<close>
  "put_interface n i v data =
     (let nodes = jget0 data ''nodes''; nd = jget0 nodes (dec_int n);
          ifs = list_of (jget0 nd ''interfaces'')
      in jset ''nodes'' (jset (dec_int n) (jset ''interfaces'' (JList (ifs[nat i := v])) nd) nodes) data)"

definition planned_patch :: "registry \<Rightarrow> json \<Rightarrow> string \<Rightarrow> int \<Rightarrow> int \<Rightarrow> json \<Rightarrow> json \<Rightarrow> py_exc + (string + json)" where
  \<comment> \<open>the interface with its new address, or the suggestion of the 409 reply\<close>
  "planned_patch reg data p n i body v =
     (let new_mac = jget0 body ''planned_mac'' in
      if jhas body ''planned_mac'' \<and> truthy new_mac then
        (let mac = lower (strip (py_str new_mac)) in
         bindr (interface_network_id data n i) (\<lambda>w.
           if w \<noteq> 0 \<and> check_collision reg w (Some mac) (Some (p, n, i)) \<noteq> None
           then Inr (Inl (suggest_mac reg w (Some mac)))
           else Inr (Inr (jset ''planned_mac'' (JStr mac) v))))
      else if jhas body ''planned_mac'' \<and> new_mac = JNull then Inr (Inr (jset ''planned_mac'' JNull v))
      else Inr (Inr v))"

definition patch_interface ::
    "registry \<Rightarrow> disk \<Rightarrow> string \<Rightarrow> json \<Rightarrow> int \<Rightarrow> int \<Rightarrow> json \<Rightarrow> (disk \<times> registry) \<times> (py_exc + patch_reply)" where
  \<comment> \<open>\<open>patch_node_interface\<close> from the document read on; the reply carries the stored interface\<close>
  "patch_interface reg d p data n i body =
     (case find_interface data n i of
        Inl e \<Rightarrow> ((d, reg), Inl e)
      | Inr (Inl msg) \<Rightarrow> ((d, reg), Inr (PatchFail 404 msg))
      | Inr (Inr v) \<Rightarrow>
         (case planned_patch reg data p n i body v of
            Inl e \<Rightarrow> ((d, reg), Inl e)
          | Inr (Inl mac) \<Rightarrow> ((d, reg), Inr (MacTaken mac))
          | Inr (Inr v1) \<Rightarrow>
             (let v2 = (if jhas body ''port_position'' then jset ''port_position'' (jget0 body ''port_position'') v1 else v1);
                  data2 = jdel ''topology'' (put_interface n i v2 data)
              in case write_lab d p data2 of
                   Inl e \<Rightarrow> ((d, reg), Inl e)
                 | Inr d2 \<Rightarrow>
                    (case recompute_for_lab reg p data2 of
                       Inl e \<Rightarrow> ((d2, reg), Inl e)
                     | Inr reg2 \<Rightarrow> ((d2, reg2), Inr (PatchDone v2))))))"

section \<open>Normal form of addresses\<close>

lemma lower_idle: "\<forall>c\<in>set s. \<not> between (CHR ''A'') (CHR ''Z'') c \<Longrightarrow> lower s = s"
  by (induction s) (auto simp: lower_def to_lower_def)

definition mac_char :: "char \<Rightarrow> bool" where
  "mac_char c \<longleftrightarrow> is_hex c \<and> \<not> between (CHR ''A'') (CHR ''Z'') c \<or> c = CHR '':''"

lemma dchar_mac: "n < 16 \<Longrightarrow> mac_char (dchar n)"
  by (simp add: mac_char_def is_hex_dchar) (simp add: between_def ord_dchar)

lemma hex2_mac: "list_all mac_char (hex2 n)"
  unfolding hex2_def
  by (rule zpad_class) (simp add: mac_char_def is_hex_def between_def is_digit_def, rule base_str_class, simp_all add: dchar_mac)

lemma tail_mac_chars: "list_all mac_char (tail_mac t)"
  using hex2_mac by (simp add: tail_mac_def) (simp add: mac_char_def is_hex_def between_def is_digit_def)

lemma hex_not_space: "is_hex c \<Longrightarrow> \<not> is_space c"
  by (auto simp: is_hex_def is_digit_def between_def is_space_def)

lemma mac_char_not_space: "mac_char c \<Longrightarrow> \<not> is_space c"
  by (auto simp: mac_char_def hex_not_space) (simp add: is_space_def)

lemma mac_char_not_upper: "mac_char c \<Longrightarrow> \<not> between (CHR ''A'') (CHR ''Z'') c"
  by (auto simp: mac_char_def between_def)

lemma normalize_tail_mac: "normalize_mac (tail_mac t) = tail_mac t"
proof -
  have c: "\<forall>c\<in>set (tail_mac t). mac_char c" using tail_mac_chars by (simp add: list_all_iff)
  then have "strip (tail_mac t) = tail_mac t" by (intro strip_no_space) (simp add: mac_char_not_space)
  moreover have "lower (tail_mac t) = tail_mac t" using c by (intro lower_idle) (simp add: mac_char_not_upper)
  ultimately show ?thesis by (simp add: normalize_mac_def)
qed

text \<open>
  C31. While one of the addresses \<open>50:00:00:NN:NN:NN\<close> is free on a network, the suggestion is a
  free one of them, whatever the base address: the collision test accepts it for every owner.
\<close>

theorem suggested_mac_is_free:
  assumes "t < 2 ^ 24" and "reg (net, tail_mac t) = None"
  shows "\<exists>u<2 ^ 24. suggest_mac reg net base = tail_mac u \<and>
           check_collision reg net (Some (suggest_mac reg net base)) own = None"
proof -
  obtain m where m: "suggest_loop reg net 16777216 (start_of base) = Some m"
    using suggest_loop_total [of t reg net "start_of base"] assms by auto
  with suggest_loop_Some [OF m] show ?thesis
    by (fastforce simp: suggest_mac_def check_collision_def normalize_tail_mac Let_def)
qed

theorem suggested_mac_is_free_witness:
  "\<exists>u<2 ^ 24. suggest_mac ((\<lambda>_. None)((1, tail_mac 5) \<mapsto> (''lab'', 1, 0))) 1 (Some ''50:00:00:00:00:05'') = tail_mac u"
proof -
  have "tail_mac 6 \<noteq> tail_mac 5" by code_simp
  then have "((\<lambda>_. None)((1, tail_mac 5) \<mapsto> (''lab'', 1, 0))) (1 :: int, tail_mac 6) = (None :: owner option)"
    by simp
  with suggested_mac_is_free [of 6 "(\<lambda>_. None)((1, tail_mac 5) \<mapsto> (''lab'', 1, 0))" 1 "Some ''50:00:00:00:00:05''" None]
  show ?thesis by auto
qed

section \<open>Recomputed entries\<close>

lemma fresh_owner: "fresh_entries lab data = Inr es \<Longrightarrow> (k, own) \<in> set es \<Longrightarrow> fst own = lab"
  by (auto simp: fresh_entries_def bindr_simps)

lemma map_of_fresh: "fresh_entries lab data = Inr es \<Longrightarrow> map_of (rev es) k = Some own \<Longrightarrow> fst own = lab"
  by (auto dest!: map_of_SomeD dest: fresh_owner)

lemma fresh_keys:
  "fresh_entries lab data = Inr es \<Longrightarrow> \<exists>es'. fresh_entries lab' data = Inr es' \<and> map fst es' = map fst es"
  by (auto simp: fresh_entries_def bindr_simps)

lemma replace_lab_Some:
  "replace_lab lab es reg k = Some own \<longleftrightarrow>
     map_of (rev es) k = Some own \<or> (map_of (rev es) k = None \<and> reg k = Some own \<and> fst own \<noteq> lab)"
  by (auto simp: replace_lab_def split: option.splits)

lemma replace_lab_idem: "replace_lab lab es (replace_lab lab es reg) = replace_lab lab es reg"
  by (auto simp: replace_lab_def fun_eq_iff split: option.splits)

text \<open>
  Recomputing a lab touches entries of that lab only: whatever the registry holds
  afterwards is the lab's own or was there before; an entry of another lab stays unless the lab
  now declares the same address on the same network number; and recomputing again changes
  nothing.
\<close>

theorem recompute_replaces_own_entries:
  assumes "recompute_for_lab reg lab data = Inr reg'"
  shows "(reg' k = Some own \<longrightarrow> fst own = lab \<or> reg k = Some own)
       \<and> (reg k = Some own \<longrightarrow> fst own \<noteq> lab \<longrightarrow> reg' k = Some own \<or> (\<exists>o'. reg' k = Some o' \<and> fst o' = lab))
       \<and> recompute_for_lab reg' lab data = Inr reg'"
proof -
  obtain es where es: "fresh_entries lab data = Inr es" "reg' = replace_lab lab es reg"
    using assms by (auto simp: recompute_for_lab_def bindr_simps)
  have "reg' k = Some own \<longrightarrow> fst own = lab \<or> reg k = Some own"
    using map_of_fresh [OF es(1)] by (auto simp: es(2) replace_lab_Some)
  moreover have "reg k = Some own \<longrightarrow> fst own \<noteq> lab \<longrightarrow> reg' k = Some own \<or> (\<exists>o'. reg' k = Some o' \<and> fst o' = lab)"
    using map_of_fresh [OF es(1), of k] unfolding es(2) replace_lab_Some by (cases "map_of (rev es) k") auto
  ultimately show ?thesis using es by (simp add: recompute_for_lab_def replace_lab_idem)
qed

definition mac_doc :: json where
  \<comment> \<open>interface 0 of node 1 on network 1, with a planned address\<close>
  "mac_doc = JObj [(''schema'', JInt 2),
     (''nodes'', JObj [(''1'', JObj [(''interfaces'', JList [JObj [(''planned_mac'', JStr ''50:00:00:00:00:01'')]])])]),
     (''networks'', JObj [(''1'', JObj [(''id'', JInt 1)])]),
     (''links'', JList [JObj [(''id'', JStr ''lnk_001''),
        (''from'', JObj [(''node_id'', JInt 1), (''interface_index'', JInt 0)]), (''to'', JObj [(''network_id'', JInt 1)])]])]"

definition mac_entries :: "string \<Rightarrow> ((int \<times> string) \<times> owner) list" where
  "mac_entries lab = [((1, ''50:00:00:00:00:01''), (lab, 1, 0))]"

lemma mac_doc_entries: "fresh_entries lab mac_doc = Inr (mac_entries lab)"
proof -
  have "link_list mac_doc = Inr (list_of (jget0 mac_doc ''links''))" by code_simp
  moreover have "declared_address (nodes_of mac_doc) (hd (list_of (jget0 mac_doc ''links'')))
      = Inr (Some ((1, ''50:00:00:00:00:01''), (1, 0)))"
    by code_simp
  ultimately show ?thesis
    by (simp add: fresh_entries_def mac_entries_def mac_doc_def jget_def jfind_def List.map_filter_simps)
qed

theorem recompute_replaces_own_entries_witness:
  "\<exists>reg'. recompute_for_lab ((\<lambda>_. None)((1, ''aa'') \<mapsto> (''other'', 2, 0))) ''lab'' mac_doc = Inr reg' \<and>
     reg' (1, ''aa'') = Some (''other'', 2, 0)"
proof -
  define reg where "reg = ((\<lambda>_. None)((1, ''aa'') \<mapsto> (''other'', 2, 0)) :: registry)"
  have r: "recompute_for_lab reg ''lab'' mac_doc = Inr (replace_lab ''lab'' (mac_entries ''lab'') reg)"
    by (simp add: recompute_for_lab_def mac_doc_entries)
  have "replace_lab ''lab'' (mac_entries ''lab'') reg (1, ''aa'') \<noteq> Some (''lab'', 1, 0)"
    by (simp add: replace_lab_def mac_entries_def reg_def)
  with recompute_replaces_own_entries [OF r, of "(1, ''aa'')" "(''other'', 2, 0)"] r show ?thesis
    unfolding reg_def by (auto simp: replace_lab_def mac_entries_def)
qed

text \<open>
  Entries carry no lab in their key, so labs with the same network numbers take each other's
  addresses: after a second lab with the same document was recomputed and then emptied, the
  first lab's interfaces are registered nowhere, though nothing in that lab changed.
\<close>

theorem recompute_of_other_lab_forgets:
  assumes "recompute_for_lab reg a data = Inr r1" and "recompute_for_lab r1 b data = Inr r2"
    and "recompute_for_lab r2 b bare = Inr r3" and "link_list bare = Inr []" and "a \<noteq> b"
  shows "\<forall>k own. r3 k = Some own \<longrightarrow> fst own \<noteq> a \<and> fst own \<noteq> b"
proof -
  obtain ea where ea: "fresh_entries a data = Inr ea" "r1 = replace_lab a ea reg"
    using assms(1) by (auto simp: recompute_for_lab_def bindr_simps)
  obtain eb where eb: "fresh_entries b data = Inr eb" "r2 = replace_lab b eb r1"
    using assms(2) by (auto simp: recompute_for_lab_def bindr_simps)
  have r3: "r3 = replace_lab b [] r2"
    using assms(3,4) by (auto simp: recompute_for_lab_def fresh_entries_def bindr_simps List.map_filter_simps)
  have "map fst eb = map fst ea" using fresh_keys [OF ea(1), of b] eb(1) by auto
  then have keys: "map_of (rev eb) k = None \<longleftrightarrow> map_of (rev ea) k = None" for k
    by (metis map_of_eq_None_iff set_map set_rev)
  have "fst own \<noteq> a \<and> fst own \<noteq> b" if "r3 k = Some own" for k own
  proof -
    have r2: "r2 k = Some own" "fst own \<noteq> b" using that by (auto simp: r3 replace_lab_Some)
    then have "map_of (rev eb) k = None" "r1 k = Some own"
      using map_of_fresh [OF eb(1)] unfolding eb(2) replace_lab_Some by blast+
    then have "fst own \<noteq> a" using keys [of k] unfolding ea(2) replace_lab_Some by simp
    with r2 show ?thesis by blast
  qed
  then show ?thesis by blast
qed

theorem recompute_of_other_lab_forgets_witness:
  "\<exists>r1 r2 r3. recompute_for_lab (\<lambda>_. None) ''a'' mac_doc = Inr r1 \<and> r1 (1, ''50:00:00:00:00:01'') = Some (''a'', 1, 0)
     \<and> recompute_for_lab r1 ''b'' mac_doc = Inr r2 \<and> recompute_for_lab r2 ''b'' (JObj []) = Inr r3
     \<and> (\<forall>k own. r3 k = Some own \<longrightarrow> fst own \<noteq> ''a'')"
proof -
  have l: "link_list (JObj []) = Inr []" by code_simp
  define r1 r2 r3 where r: "r1 = replace_lab ''a'' (mac_entries ''a'') (\<lambda>_. None)"
    "r2 = replace_lab ''b'' (mac_entries ''b'') r1" "r3 = replace_lab ''b'' [] r2"
  have "recompute_for_lab (\<lambda>_. None) ''a'' mac_doc = Inr r1" "recompute_for_lab r1 ''b'' mac_doc = Inr r2"
    "recompute_for_lab r2 ''b'' (JObj []) = Inr r3"
    using l by (simp_all add: r recompute_for_lab_def mac_doc_entries, simp add: fresh_entries_def List.map_filter_simps)
  moreover from recompute_of_other_lab_forgets [OF this l] have "\<forall>k own. r3 k = Some own \<longrightarrow> fst own \<noteq> ''a''"
    by simp
  moreover have "r1 (1, ''50:00:00:00:00:01'') = Some (''a'', 1, 0)" by (simp add: r replace_lab_def mac_entries_def)
  ultimately show ?thesis by blast
qed

text \<open>
  The registry rebuilt from the labs directory knows a lab by the stem of its file name, the
  handlers by its path: after a rebuild, setting the address an interface already has is answered
  as a collision with itself.
\<close>

theorem rebuilt_registry_rejects_owner:
  "\<exists>reg data mac. rebuild_all [(''lab.json'', Some mac_doc)] [''lab.json''] (\<lambda>_. None) = (reg, None) \<and>
     read_lab [(''lab.json'', Some mac_doc)] ''lab.json'' = Inr data \<and>
     patch_interface reg [(''lab.json'', Some mac_doc)] ''lab.json'' data 1 0
       (JObj [(''planned_mac'', JStr ''50:00:00:00:00:01'')]) = (([(''lab.json'', Some mac_doc)], reg), Inr (MacTaken mac))"
proof -
  define d where "d = [(''lab.json'', Some mac_doc)]"
  define data where "data = (case read_doc mac_doc of Inr r \<Rightarrow> r | Inl _ \<Rightarrow> JNull)"
  define reg where "reg = replace_lab ''lab'' (mac_entries ''lab'') (\<lambda>_. None)"
  define body where "body = JObj [(''planned_mac'', JStr ''50:00:00:00:00:01'')]"
  have "case read_lab d ''lab.json'' of Inr r \<Rightarrow> r = data | Inl _ \<Rightarrow> False" unfolding d_def data_def by code_simp
  then have read: "read_lab d ''lab.json'' = Inr data" by (auto split: sum.splits)
  have "case fresh_entries ''lab'' data of Inr es \<Rightarrow> es = mac_entries ''lab'' | Inl _ \<Rightarrow> False"
    unfolding data_def by code_simp
  then have fresh: "fresh_entries ''lab'' data = Inr (mac_entries ''lab'')" by (auto split: sum.splits)
  have "path_stem ''lab.json'' = ''lab''" by code_simp
  then have rebuilt: "rebuild_all d [''lab.json''] (\<lambda>_. None) = (reg, None)"
    by (simp add: read recompute_for_lab_def fresh reg_def)
  have "case find_interface data 1 0 of Inr (Inr v) \<Rightarrow> True | _ \<Rightarrow> False" unfolding data_def by code_simp
  then obtain v where v: "find_interface data 1 0 = Inr (Inr v)" by (auto split: sum.splits)
  have w: "interface_network_id data 1 0 = Inr 1" unfolding data_def by code_simp
  have b: "jhas body ''planned_mac'' \<and> truthy (jget0 body ''planned_mac'')"
    "lower (strip (py_str (jget0 body ''planned_mac''))) = ''50:00:00:00:00:01''"
    unfolding body_def by code_simp+
  have n: "normalize_mac ''50:00:00:00:00:01'' = ''50:00:00:00:00:01''" by code_simp
  have "check_collision reg 1 (Some ''50:00:00:00:00:01'') (Some (''lab.json'', 1, 0)) \<noteq> None"
    by (simp add: check_collision_def n reg_def replace_lab_def mac_entries_def)
  then have "planned_patch reg data ''lab.json'' 1 0 body v
      = Inr (Inl (suggest_mac reg 1 (Some ''50:00:00:00:00:01'')))"
    by (simp add: planned_patch_def b w)
  then show ?thesis using read rebuilt v unfolding patch_interface_def d_def body_def by auto
qed

end
