(* ===== verification/Runtime_Mutex.thy ===== *)
theory Runtime_Mutex
  imports Main "HOL-Library.Product_Lexorder" "HOL-Library.List_Lexorder" "HOL-Library.Char_ord"
begin

text \<open>
  The registry of runtime mutexes (\<open>app/services/runtime_mutex.py\<close>): one lock per lab, node and
  interface, created on first use and never removed, and one re-entrant lock per lab and node. The
  operations of the registry are functions; operations that acquire several locks, as
  \<open>create_link\<close> and \<open>delete_link\<close> do, run as threads of a step relation in which every acquisition,
  time-out and release is a step of its own.

  The lemmas show mutual exclusion, that sorted acquisition never blocks all threads for good,
  that locks are given back on every way out, and that an operation naming a key twice is always
  refused.
\<close>

type_synonym mutex_key = "string \<times> int \<times> int"

section \<open>The registry\<close>

type_synonym ('k, 't) mutexes = "'k \<Rightarrow> 't option option"

definition mutex_get_or_create :: "'k \<Rightarrow> ('k, 't) mutexes \<Rightarrow> ('k, 't) mutexes" where
  \<comment> \<open>a lock that is not registered is registered free\<close>
  "mutex_get_or_create k m = (case m k of None \<Rightarrow> m(k \<mapsto> None) | Some l \<Rightarrow> m)"

definition mutex_holder :: "('k, 't) mutexes \<Rightarrow> 'k \<Rightarrow> 't option" where
  "mutex_holder m k = (case m k of None \<Rightarrow> None | Some l \<Rightarrow> l)"

definition mutex_is_held :: "('k, 't) mutexes \<Rightarrow> 'k \<Rightarrow> bool" where
  "mutex_is_held m k = (case m k of None \<Rightarrow> False | Some l \<Rightarrow> l \<noteq> None)"

definition mutex_lock :: "'t \<Rightarrow> 'k \<Rightarrow> ('k, 't) mutexes \<Rightarrow> ('k, 't) mutexes option" where
  \<comment> \<open>\<open>lock.acquire\<close> at a moment: no re-entrance, also for the holder\<close>
  "mutex_lock t k m =
     (let m' = mutex_get_or_create k m in
      if m' k = Some None then Some (m'(k \<mapsto> Some t)) else None)"

definition mutex_unlock :: "'k \<Rightarrow> ('k, 't) mutexes \<Rightarrow> ('k, 't) mutexes" where
  "mutex_unlock k m = m(k \<mapsto> None)"

type_synonym ('n, 't) node_locks = "'n \<Rightarrow> ('t \<times> nat) option"

definition node_lock :: "'t \<Rightarrow> 'n \<Rightarrow> ('n, 't) node_locks \<Rightarrow> ('n, 't) node_locks option" where
  \<comment> \<open>\<open>RLock.acquire\<close>: the holder may enter again\<close>
  "node_lock t n m =
     (case m n of None \<Rightarrow> Some (m(n \<mapsto> (t, 1)))
      | Some (u, c) \<Rightarrow> if u = t then Some (m(n \<mapsto> (t, c + 1))) else None)"

definition node_unlock :: "'n \<Rightarrow> ('n, 't) node_locks \<Rightarrow> ('n, 't) node_locks" where
  "node_unlock n m =
     (case m n of None \<Rightarrow> m
      | Some (u, c) \<Rightarrow> if c \<le> 1 then m(n := None) else m(n \<mapsto> (u, c - 1)))"

lemma holder_simps [simp]:
  "mutex_holder (mutex_unlock k m) k' = (if k' = k then None else mutex_holder m k')"
  "mutex_holder (mutex_get_or_create k m) k' = mutex_holder m k'"
  by (auto simp: mutex_holder_def mutex_unlock_def mutex_get_or_create_def split: option.splits)

lemma is_held_holder: "mutex_is_held m k \<longleftrightarrow> mutex_holder m k \<noteq> None"
  by (auto simp: mutex_is_held_def mutex_holder_def split: option.splits)

lemma mutex_lock_Some:
  "mutex_lock t k m = Some m' \<Longrightarrow>
     mutex_holder m k = None \<and> (\<forall>k'. mutex_holder m' k' = (if k' = k then Some t else mutex_holder m k'))"
  by (auto simp: mutex_lock_def mutex_get_or_create_def mutex_holder_def Let_def split: option.splits if_splits)

lemma mutex_lock_None: "mutex_lock t k m = None \<longleftrightarrow> mutex_holder m k \<noteq> None"
  by (auto simp: mutex_lock_def mutex_get_or_create_def mutex_holder_def Let_def split: option.splits if_splits)

lemma node_lock_unlock:
  "node_lock t n m = Some m' \<Longrightarrow> (\<forall>u c. m n = Some (u, c) \<longrightarrow> 0 < c) \<Longrightarrow> node_unlock n m' = m"
  by (auto simp: node_lock_def node_unlock_def split: option.splits if_splits prod.splits)

section \<open>Threads that acquire several locks\<close>

datatype 'k phase = Idle | Acquiring "'k list" | Inside | Refused 'k | Finished

record ('k, 't) threads =
  th_mutexes :: "('k, 't) mutexes"
  th_phase :: "'t \<Rightarrow> 'k phase"
  th_held :: "'t \<Rightarrow> 'k list"

definition release_all :: "'t \<Rightarrow> ('k, 't) threads \<Rightarrow> ('k, 't) threads" where
  \<comment> \<open>the exit stack unwinds: the last lock first\<close>
  "release_all t s = s\<lparr>th_mutexes := fold mutex_unlock (th_held s t) (th_mutexes s), th_held := (th_held s)(t := [])\<rparr>"

definition set_phase :: "'t \<Rightarrow> 'k phase \<Rightarrow> ('k, 't) threads \<Rightarrow> ('k, 't) threads" where
  "set_phase t p s = s\<lparr>th_phase := (th_phase s)(t := p)\<rparr>"

definition take_lock :: "'t \<Rightarrow> 'k \<Rightarrow> 'k list \<Rightarrow> ('k, 't) mutexes \<Rightarrow> ('k, 't) threads \<Rightarrow> ('k, 't) threads" where
  "take_lock t k ks m s =
     set_phase t (Acquiring ks) (s\<lparr>th_mutexes := m, th_held := (th_held s)(t := k # th_held s t)\<rparr>)"

inductive thread_step :: "('t \<Rightarrow> 'k :: linorder list) \<Rightarrow> 't \<Rightarrow> ('k, 't) threads \<Rightarrow> ('k, 't) threads \<Rightarrow> bool"
  for req :: "'t \<Rightarrow> 'k list" where
  begin_op: "th_phase s t = Idle \<Longrightarrow> thread_step req t s (set_phase t (Acquiring (sort (req t))) s)"
| grab: "th_phase s t = Acquiring (k # ks) \<Longrightarrow> mutex_lock t k (th_mutexes s) = Some m \<Longrightarrow>
     thread_step req t s (take_lock t k ks m s)"
| timeout: "th_phase s t = Acquiring (k # ks) \<Longrightarrow> mutex_lock t k (th_mutexes s) = None \<Longrightarrow>
     thread_step req t s (release_all t (set_phase t (Refused k) s))"
| enter: "th_phase s t = Acquiring [] \<Longrightarrow> thread_step req t s (set_phase t Inside s)"
| leave: "th_phase s t = Inside \<Longrightarrow> thread_step req t s (release_all t (set_phase t Finished s))"

inductive_cases thread_stepE: "thread_step req t s s'"

inductive threads_reach :: "('t \<Rightarrow> 'k :: linorder list) \<Rightarrow> ('k, 't) threads \<Rightarrow> bool"
  for req :: "'t \<Rightarrow> 'k list" where
  start: "threads_reach req \<lparr>th_mutexes = Map.empty, th_phase = (\<lambda>_. Idle), th_held = (\<lambda>_. [])\<rparr>"
| move: "threads_reach req s \<Longrightarrow> thread_step req t s s' \<Longrightarrow> threads_reach req s'"

definition blocked :: "('k, 't) threads \<Rightarrow> 't \<Rightarrow> 'k \<Rightarrow> bool" where
  \<comment> \<open>the thread waits for a lock that is held\<close>
  "blocked s t k \<longleftrightarrow> (\<exists>ks. th_phase s t = Acquiring (k # ks)) \<and> mutex_holder (th_mutexes s) k \<noteq> None"

lemma phase_simps [simp]:
  "th_phase (set_phase t p s) = (th_phase s)(t := p)" "th_held (set_phase t p s) = th_held s"
  "th_mutexes (set_phase t p s) = th_mutexes s"
  "th_phase (release_all t s) = th_phase s" "th_held (release_all t s) = (th_held s)(t := [])"
  "th_phase (take_lock t k ks m s) = (th_phase s)(t := Acquiring ks)"
  "th_held (take_lock t k ks m s) = (th_held s)(t := k # th_held s t)" "th_mutexes (take_lock t k ks m s) = m"
  by (simp_all add: set_phase_def release_all_def take_lock_def)

lemma release_all_holder:
  "mutex_holder (th_mutexes (release_all t s)) k = (if k \<in> set (th_held s t) then None else mutex_holder (th_mutexes s) k)"
proof -
  have "mutex_holder (fold mutex_unlock ks m) k = (if k \<in> set ks then None else mutex_holder m k)" for ks and m :: "('b, 'a) mutexes"
    by (induction ks arbitrary: m) auto
  then show ?thesis by (simp add: release_all_def)
qed

section \<open>Invariant\<close>

definition acquired_so_far :: "('t \<Rightarrow> 'k :: linorder list) \<Rightarrow> ('k, 't) threads \<Rightarrow> 't \<Rightarrow> bool" where
  "acquired_so_far req s t =
     (case th_phase s t of
        Acquiring ks \<Rightarrow> rev (th_held s t) @ ks = sort (req t)
      | Inside \<Rightarrow> rev (th_held s t) = sort (req t)
      | _ \<Rightarrow> th_held s t = [])"

definition threads_inv :: "('t \<Rightarrow> 'k :: linorder list) \<Rightarrow> ('k, 't) threads \<Rightarrow> bool" where
  "threads_inv req s \<longleftrightarrow>
     (\<forall>k t. mutex_holder (th_mutexes s) k = Some t \<longleftrightarrow> k \<in> set (th_held s t))
     \<and> (\<forall>t. distinct (th_held s t)) \<and> (\<forall>t. acquired_so_far req s t)
     \<and> finite {t. th_phase s t \<noteq> Idle}"

lemma finite_phase_update:
  "finite {u. f u \<noteq> Idle} \<Longrightarrow> finite {u. (f(t := p)) u \<noteq> Idle}"
  by (rule finite_subset [of _ "insert t {u. f u \<noteq> Idle}"]) auto

lemma finite_phase_except:
  "finite {u. f u \<noteq> Idle} \<Longrightarrow> finite {u. u \<noteq> t \<longrightarrow> f u \<noteq> Idle}"
  by (rule finite_subset [of _ "insert t {u. f u \<noteq> Idle}"]) auto

lemma release_inv:
  assumes I: "threads_inv req s" and p: "p = Refused k \<or> p = Finished"
  shows "threads_inv req (release_all t (set_phase t p s))"
proof -
  have "mutex_holder (th_mutexes (release_all t (set_phase t p s))) k = Some u \<longleftrightarrow> k \<in> set (((th_held s)(t := [])) u)" for k u
    using I by (auto simp: threads_inv_def release_all_holder) (metis option.inject)+
  then show ?thesis
    using I p finite_phase_update [of "th_phase s" t p] by (auto simp: threads_inv_def acquired_so_far_def split: phase.splits)
qed

lemma step_inv: "threads_inv req s \<Longrightarrow> thread_step req t s s' \<Longrightarrow> threads_inv req s'"
proof (elim thread_stepE)
  fix k ks m
  assume I: "threads_inv req s" and p: "th_phase s t = Acquiring (k # ks)"
    and l: "mutex_lock t k (th_mutexes s) = Some m" and s': "s' = take_lock t k ks m s"
  have m: "mutex_holder (th_mutexes s) k = None" "mutex_holder m k' = (if k' = k then Some t else mutex_holder (th_mutexes s) k')" for k'
    using mutex_lock_Some [OF l] by auto
  have "k \<notin> set (th_held s u)" for u using I m(1) by (metis option.distinct(1) threads_inv_def)
  moreover have "acquired_so_far req s' u" for u
    using I p by (auto simp: threads_inv_def acquired_so_far_def s' split: phase.splits dest: spec [of _ t])
  ultimately show "threads_inv req s'"
    using I m(2) finite_phase_update [of "th_phase s" t "Acquiring ks"] by (auto simp: threads_inv_def s')
qed (auto simp: release_inv, auto simp: threads_inv_def acquired_so_far_def finite_phase_except split: phase.splits dest: spec [of _ t])

lemma reach_inv: "threads_reach req s \<Longrightarrow> threads_inv req s"
  by (induction rule: threads_reach.induct)
    (auto simp: step_inv, simp add: threads_inv_def acquired_so_far_def mutex_holder_def)

section \<open>What acquisition guarantees\<close>

definition active :: "('k, 't) threads \<Rightarrow> 't \<Rightarrow> bool" where
  "active s t \<longleftrightarrow> (case th_phase s t of Acquiring ks \<Rightarrow> True | Inside \<Rightarrow> True | _ \<Rightarrow> False)"

lemma inv_holder: "threads_inv req s \<Longrightarrow> mutex_holder (th_mutexes s) k = Some t \<longleftrightarrow> k \<in> set (th_held s t)"
  by (simp add: threads_inv_def)

lemma inv_acquired: "threads_inv req s \<Longrightarrow> acquired_so_far req s t"
  by (simp add: threads_inv_def)

lemma inside_held: "threads_inv req s \<Longrightarrow> th_phase s t = Inside \<Longrightarrow> set (th_held s t) = set (req t)"
  using inv_acquired [of req s t] by (simp add: acquired_so_far_def) (metis set_rev set_sort)

lemma holder_active: "threads_inv req s \<Longrightarrow> k \<in> set (th_held s t) \<Longrightarrow> active s t"
  using inv_acquired [of req s t] by (auto simp: acquired_so_far_def active_def split: phase.splits)

text \<open>
  C12. Two operations that are inside at once share no interface, and every lock of an operation
  that is inside is seen as held.
\<close>

theorem mutual_exclusion:
  assumes "threads_reach req s" and "th_phase s t = Inside" and "th_phase s u = Inside" and "t \<noteq> u"
  shows "set (req t) \<inter> set (req u) = {} \<and> (\<forall>k\<in>set (req t). mutex_is_held (th_mutexes s) k)"
proof -
  note I = reach_inv [OF assms(1)]
  have h: "k \<in> set (req v) \<Longrightarrow> mutex_holder (th_mutexes s) k = Some v" if "th_phase s v = Inside" for k v
    using inside_held [OF I that] inv_holder [OF I] by blast
  from h [OF assms(2)] h [OF assms(3)] assms(4) show ?thesis
    by (auto simp: is_held_holder) (metis option.inject)
qed

definition demo_threads :: "(mutex_key, nat) threads" where
  \<comment> \<open>threads 0 and 1 are inside on different interfaces\<close>
  "demo_threads = \<lparr>th_mutexes = [(''lab'', 1, 0) \<mapsto> Some 0, (''lab'', 2, 0) \<mapsto> Some 1],
     th_phase = (\<lambda>_. Idle)(0 := Inside, 1 := Inside), th_held = (\<lambda>_. [])(0 := [(''lab'', 1, 0)], 1 := [(''lab'', 2, 0)])\<rparr>"

definition demo_req :: "nat \<Rightarrow> mutex_key list" where
  "demo_req t = [(''lab'', int t + 1, 0)]"

lemma grab_single:
  assumes "threads_reach req s" and "th_phase s t = Idle" and "req t = [k]" and "mutex_lock t k (th_mutexes s) = Some m"
  shows "threads_reach req (set_phase t Inside (take_lock t k [] m (set_phase t (Acquiring [k]) s)))"
proof -
  have s1: "threads_reach req (set_phase t (Acquiring [k]) s)"
    using move [OF assms(1) begin_op [OF assms(2)]] assms(3) by simp
  have "threads_reach req (take_lock t k [] m (set_phase t (Acquiring [k]) s))"
    by (rule move [OF s1 grab]) (simp_all add: assms(4))
  then show ?thesis by (rule move) (rule enter, simp)
qed

lemma demo_reached: "threads_reach demo_req demo_threads"
proof -
  let ?s = "\<lparr>th_mutexes = Map.empty, th_phase = (\<lambda>_. Idle), th_held = (\<lambda>_. [])\<rparr> :: (mutex_key, nat) threads"
  have l0: "mutex_lock 0 (''lab'', 1, 0) (th_mutexes ?s) = Some [(''lab'', 1, 0) \<mapsto> Some 0]"
    by (simp add: mutex_lock_def mutex_get_or_create_def)
  let ?s0 = "set_phase 0 Inside (take_lock 0 (''lab'', 1, 0) [] [(''lab'', 1, 0) \<mapsto> Some 0] (set_phase 0 (Acquiring [(''lab'', 1, 0)]) ?s))"
  have r0: "threads_reach demo_req ?s0" by (rule grab_single [OF start _ _ l0]) (simp_all add: demo_req_def)
  have l1: "mutex_lock 1 (''lab'', 2, 0) (th_mutexes ?s0) = Some [(''lab'', 1, 0) \<mapsto> Some 0, (''lab'', 2, 0) \<mapsto> Some 1]"
    by (simp add: mutex_lock_def mutex_get_or_create_def)
  have "threads_reach demo_req (set_phase 1 Inside (take_lock 1 (''lab'', 2, 0) []
      [(''lab'', 1, 0) \<mapsto> Some 0, (''lab'', 2, 0) \<mapsto> Some 1] (set_phase 1 (Acquiring [(''lab'', 2, 0)]) ?s0)))"
    by (rule grab_single [OF r0 _ _ l1]) (simp_all add: demo_req_def)
  then show ?thesis by (simp add: demo_threads_def set_phase_def take_lock_def fun_upd_twist)
qed

theorem mutual_exclusion_witness:
  "th_phase demo_threads 0 = Inside \<and> th_phase demo_threads 1 = Inside \<and> mutex_is_held (th_mutexes demo_threads) (''lab'', 1, 0)"
  using mutual_exclusion [OF demo_reached, of 0 1] by (simp add: demo_threads_def demo_req_def)

text \<open>
  C13. Threads that name no key twice never wait for each other in a ring: while some operation is
  acquiring or inside, one of them is not blocked and can take its next step without a time-out.
\<close>

theorem sorted_acquisition_progresses:
  assumes "threads_reach req s" and "\<forall>t. distinct (req t)" and "active s t"
  shows "\<exists>u. active s u \<and> (\<forall>k. \<not> blocked s u k)"
proof (rule ccontr)
  note I = reach_inv [OF assms(1)]
  define A where "A = {u. active s u}"
  define want where "want = (\<lambda>u. case th_phase s u of Acquiring (k # ks) \<Rightarrow> k | _ \<Rightarrow> undefined)"
  assume "\<not> ?thesis"
  then have "\<forall>u\<in>A. \<exists>k. blocked s u k" by (auto simp: A_def)
  then have blk: "\<exists>ks. th_phase s u = Acquiring (want u # ks) \<and> mutex_holder (th_mutexes s) (want u) \<noteq> None" if "u \<in> A" for u
    using that by (auto simp: blocked_def want_def)
  have fin: "finite A"
  proof (rule finite_subset)
    show "A \<subseteq> {u. th_phase s u \<noteq> Idle}" by (auto simp: A_def active_def)
  qed (use I in \<open>simp add: threads_inv_def\<close>)
  have "A \<noteq> {}" using assms(3) by (auto simp: A_def)
  then have "Max (want ` A) \<in> want ` A" using fin by (intro Max_in) simp_all
  then obtain u where u: "u \<in> A" "want u = Max (want ` A)" by (elim imageE) simp
  obtain v where v: "want u \<in> set (th_held s v)" using blk [OF u(1)] inv_holder [OF I] by auto
  then have "v \<in> A" using holder_active [OF I] by (simp add: A_def)
  then obtain ks where ks: "th_phase s v = Acquiring (want v # ks)" using blk by blast
  then have eq: "rev (th_held s v) @ want v # ks = sort (req v)" using inv_acquired [OF I, of v] by (simp add: acquired_so_far_def)
  moreover have "sorted (sort (req v))" "distinct (sort (req v))" using assms(2) by simp_all
  ultimately have "want u \<le> want v" "want u \<noteq> want v" using v
    unfolding eq [symmetric] by (auto simp: sorted_append)
  moreover have "want v \<le> want u" using \<open>v \<in> A\<close> fin by (simp add: u(2))
  ultimately show False by simp
qed

theorem sorted_acquisition_progresses_witness:
  "\<exists>u. active demo_threads u \<and> (\<forall>k. \<not> blocked demo_threads u k)"
  by (rule sorted_acquisition_progresses [OF demo_reached, of 0]) (simp_all add: demo_req_def active_def demo_threads_def)

text \<open>
  An operation that names a key twice never gets inside, and an operation that is over,
  finished or refused, holds no lock.
\<close>

theorem double_key_never_inside:
  assumes "threads_reach req s"
  shows "(\<not> distinct (req t) \<longrightarrow> th_phase s t \<noteq> Inside)
       \<and> (\<not> active s t \<longrightarrow> mutex_holder (th_mutexes s) k \<noteq> Some t)"
proof -
  note I = reach_inv [OF assms]
  have "distinct (req t)" if "th_phase s t = Inside"
  proof -
    have "rev (th_held s t) = sort (req t)" using inv_acquired [OF I, of t] that by (simp add: acquired_so_far_def)
    moreover have "distinct (th_held s t)" using I by (simp add: threads_inv_def)
    ultimately show ?thesis by (metis distinct_rev distinct_sort)
  qed
  then show ?thesis using holder_active [OF I] inv_holder [OF I] by blast
qed

theorem double_key_never_inside_witness:
  "mutex_holder (th_mutexes demo_threads) (''lab'', 1, 0) \<noteq> Some 5"
  using double_key_never_inside [OF demo_reached, of 5] by (simp add: active_def demo_threads_def)

end
