(* ===== verification/Interfaces.thy ===== *)
theory Interfaces
  imports Nova_Prelude
begin

text \<open>
  Contracts several components share, stated once as locales. \<open>allocator\<close> is what a client of an
  address, port or id pool relies on; \<open>releasing_allocator\<close> adds giving back. The lemmas hold for
  every pool: what is handed out along a run is distinct and was free, and a resource given back
  is the only one that becomes free. The theories that implement a pool interpret the locale on
  their own operations.
\<close>

locale allocator =
  fixes inv :: "'s \<Rightarrow> bool"
    and taken :: "'s \<Rightarrow> 'a set"
    and alloc :: "'s \<Rightarrow> ('a \<times> 's) option"
  assumes alloc_inv: "inv s \<Longrightarrow> alloc s = Some (a, s') \<Longrightarrow> inv s'"
    and alloc_fresh: "inv s \<Longrightarrow> alloc s = Some (a, s') \<Longrightarrow> a \<notin> taken s"
    and alloc_takes: "inv s \<Longrightarrow> alloc s = Some (a, s') \<Longrightarrow> taken s' = insert a (taken s)"
begin

fun alloc_run :: "nat \<Rightarrow> 's \<Rightarrow> ('a list \<times> 's) option" where
  "alloc_run 0 s = Some ([], s)"
| "alloc_run (Suc n) s =
     (case alloc s of None \<Rightarrow> None
      | Some (a, s1) \<Rightarrow> (case alloc_run n s1 of None \<Rightarrow> None | Some (as, s2) \<Rightarrow> Some (a # as, s2)))"

lemma run_taken:
  "inv s \<Longrightarrow> alloc_run n s = Some (as, s') \<Longrightarrow> inv s' \<and> taken s' = set as \<union> taken s"
proof (induction n arbitrary: s as)
  case (Suc n)
  then obtain a s1 bs where a: "alloc s = Some (a, s1)" "alloc_run n s1 = Some (bs, s')" "as = a # bs"
    by (auto split: option.splits)
  then show ?case
    using Suc.IH [OF alloc_inv [OF Suc.prems(1) a(1)] a(2)] alloc_takes [OF Suc.prems(1) a(1)] by auto
qed simp

lemma run_distinct:
  "inv s \<Longrightarrow> alloc_run n s = Some (as, s') \<Longrightarrow>
     distinct as \<and> length as = n \<and> set as \<inter> taken s = {}"
proof (induction n arbitrary: s as)
  case (Suc n)
  then obtain a s1 bs where a: "alloc s = Some (a, s1)" "alloc_run n s1 = Some (bs, s')" "as = a # bs"
    by (auto split: option.splits)
  then show ?case
    using Suc.IH [OF alloc_inv [OF Suc.prems(1) a(1)] a(2)] alloc_fresh [OF Suc.prems(1) a(1)]
      alloc_takes [OF Suc.prems(1) a(1)] by auto
qed simp

end

locale releasing_allocator = allocator inv taken alloc
  for inv :: "'s \<Rightarrow> bool" and taken :: "'s \<Rightarrow> 'a set" and alloc :: "'s \<Rightarrow> ('a \<times> 's) option" +
  fixes release :: "'a \<Rightarrow> 's \<Rightarrow> 's"
  assumes release_inv: "inv s \<Longrightarrow> inv (release a s)"
    and release_taken: "inv s \<Longrightarrow> taken (release a s) = taken s - {a}"
begin

lemma alloc_release:
  "inv s \<Longrightarrow> alloc s = Some (a, s') \<Longrightarrow> inv (release a s') \<and> taken (release a s') = taken s"
  by (simp add: release_inv release_taken alloc_inv alloc_takes alloc_fresh)

lemma run_release:
  assumes "inv s" and "alloc_run n s = Some (as, s')"
  shows "taken (fold release as s') = taken s"
proof -
  have "inv t \<Longrightarrow> taken (fold release xs t) = taken t - set xs" for xs t
    by (induction xs arbitrary: t) (auto simp: release_inv release_taken)
  then show ?thesis
    using run_taken [OF assms] run_distinct [OF assms] by auto
qed

end

text \<open>
  \<open>generations\<close> is what the holder of a generation token relies on: steps never turn the
  generation back while it is known. A token from before a renewal is then smaller than every
  generation after it.
\<close>

locale generations =
  fixes inv :: "'s \<Rightarrow> bool"
    and gen :: "'s \<Rightarrow> int option"
    and step :: "'s \<Rightarrow> 's \<Rightarrow> bool"
  assumes step_inv: "inv s \<Longrightarrow> step s s' \<Longrightarrow> inv s'"
    and gen_mono: "inv s \<Longrightarrow> step s s' \<Longrightarrow> gen s = Some g \<Longrightarrow> gen s' = Some g' \<Longrightarrow> g \<le> g'"
begin

lemma known_mono:
  "(\<lambda>s s'. step s s' \<and> gen s' \<noteq> None)\<^sup>*\<^sup>* s s' \<Longrightarrow> inv s \<Longrightarrow> gen s = Some g \<Longrightarrow> inv s' \<and> (\<exists>g'. gen s' = Some g' \<and> g \<le> g')"
proof (induction rule: rtranclp_induct)
  case (step t u)
  then obtain a b where "inv t" "gen t = Some a" "g \<le> a" "gen u = Some b" by auto
  moreover from this step.hyps(2) have "a \<le> b" "inv u" using gen_mono step_inv by blast+
  ultimately show ?case by auto
qed auto

lemma stale_token:
  assumes "inv s" and "gen s = Some g" and "(\<lambda>s s'. step s s' \<and> gen s' \<noteq> None)\<^sup>*\<^sup>* s s1"
    and "step s1 s2" and "\<And>a. gen s1 = Some a \<Longrightarrow> gen s2 = Some (a + 1)"
    and "(\<lambda>s s'. step s s' \<and> gen s' \<noteq> None)\<^sup>*\<^sup>* s2 s3"
  shows "inv s3 \<and> (\<exists>g'. gen s3 = Some g' \<and> g < g')"
proof -
  obtain a where a: "inv s1" "gen s1 = Some a" "g \<le> a" using known_mono [OF assms(3,1,2)] by blast
  have "inv s2" using step_inv a(1) assms(4) by blast
  from known_mono [OF assms(6) this assms(5) [OF a(2)]] show ?thesis using a(3) by auto
qed

end

end
