(* ===== verification/Link_Doc.thy ===== *)
theory Link_Doc
  imports Mac_Registry Runtime_Mutex Interfaces
begin

text \<open>
  Links in the lab document (\<open>app/services/link_utils.py\<close> and the helpers of
  \<open>app/services/link_service.py\<close>): ends and their canonical keys, reference counts, fresh link and
  network numbers, the records of a new link and of an implicit network, and the form in which
  links are returned.

  The lemmas give the order of the keys, the freshness of the numbers and the effect of adding
  records on the counts.
\<close>

section \<open>Ends\<close>

datatype endpoint = NetEp int | NodeEp int int

definition endpoint_le :: "endpoint \<Rightarrow> endpoint \<Rightarrow> bool" where
  \<comment> \<open>the order of the key tuples: \<open>"network"\<close> sorts before \<open>"node"\<close>\<close>
  "endpoint_le a b =
     (case a of
        NetEp m \<Rightarrow> (case b of NetEp n \<Rightarrow> m \<le> n | NodeEp x i \<Rightarrow> True)
      | NodeEp x i \<Rightarrow> (case b of NetEp n \<Rightarrow> False | NodeEp y j \<Rightarrow> x < y \<or> x = y \<and> i \<le> j))"

instantiation endpoint :: linorder
begin

definition less_eq_endpoint :: "endpoint \<Rightarrow> endpoint \<Rightarrow> bool" where
  "less_eq_endpoint = endpoint_le"

definition less_endpoint :: "endpoint \<Rightarrow> endpoint \<Rightarrow> bool" where
  "less_endpoint a b \<longleftrightarrow> a \<le> b \<and> \<not> b \<le> (a :: endpoint)"

instance
  by standard (auto simp: less_eq_endpoint_def endpoint_le_def less_endpoint_def split: endpoint.splits)

end

definition normalize_endpoint :: "json \<Rightarrow> py_exc + endpoint" where
  "normalize_endpoint raw =
     (if \<not> is_obj raw then Inl PyValueError
      else if jhas raw ''network_id'' then bindr (py_int (jget0 raw ''network_id'')) (\<lambda>n. Inr (NetEp n))
      else if jhas raw ''node_id'' then
        bindr (py_int (jget0 raw ''node_id'')) (\<lambda>n.
        bindr (py_int (jget raw ''interface_index'' (JInt 0))) (\<lambda>i. Inr (NodeEp n i)))
      else Inl PyValueError)"

fun endpoint_json :: "endpoint \<Rightarrow> json" where
  \<comment> \<open>the dict \<open>_normalize_endpoint\<close> returns\<close>
  "endpoint_json (NetEp n) = JObj [(''network_id'', JInt n)]"
| "endpoint_json (NodeEp n i) = JObj [(''node_id'', JInt n), (''interface_index'', JInt i)]"

definition link_pair_key :: "endpoint \<Rightarrow> endpoint \<Rightarrow> endpoint \<times> endpoint" where
  "link_pair_key a b = (min a b, max a b)"

fun node_key :: "endpoint \<Rightarrow> (int \<times> int) list" where
  "node_key (NetEp n) = []"
| "node_key (NodeEp n i) = [(n, i)]"

fun net_ids :: "endpoint \<Rightarrow> int list" where
  "net_ids (NetEp n) = [n]"
| "net_ids (NodeEp n i) = []"

lemma normalize_endpoint_json [simp]: "normalize_endpoint (endpoint_json e) = Inr e"
  by (cases e) (simp_all add: normalize_endpoint_def jget_def jhas_def)

lemma link_pair_key_eq:
  "link_pair_key a b = link_pair_key c d \<longleftrightarrow> (a = c \<and> b = d) \<or> (a = d \<and> b = c)"
  by (auto simp: link_pair_key_def min_def max_def split: if_splits)

section \<open>Counts and numbers\<close>

definition counts_end :: "int \<Rightarrow> json \<Rightarrow> py_exc + nat" where
  \<comment> \<open>\<open>isinstance(ep, dict) and int(ep.get("network_id", 0) or 0) == n\<close>\<close>
  "counts_end n ep =
     (if \<not> is_obj ep then Inr 0
      else bindr (py_int (jor (jget ep ''network_id'' (JInt 0)) (JInt 0))) (\<lambda>m. Inr (if m = n then 1 else 0)))"

definition counts_link :: "int \<Rightarrow> json \<Rightarrow> py_exc + nat" where
  "counts_link n l =
     bindr (pget l ''from'' JNull) (\<lambda>a. bindr (pget l ''to'' JNull) (\<lambda>b.
     bindr (counts_end n a) (\<lambda>x. bindr (counts_end n b) (\<lambda>y. Inr (x + y)))))"

definition refcount :: "json \<Rightarrow> int \<Rightarrow> py_exc + nat" where
  "refcount data n = bindr (link_list data) (\<lambda>ls. bindr (mapr (counts_link n) ls) (\<lambda>cs. Inr (sum_list cs)))"

definition link_number :: "string \<Rightarrow> nat" where
  \<comment> \<open>the number of an id of the form \<open>lnk_<digits>\<close>, else 0\<close>
  "link_number s = (if starts_with ''lnk_'' s \<and> isdigit (drop 4 s) then undec (drop 4 s) else 0)"

definition id_text :: "json \<Rightarrow> py_exc + string" where
  "id_text l = bindr (pget l ''id'' (JStr [])) (\<lambda>v. Inr (py_str (jor v (JStr []))))"

definition link_id_of :: "nat \<Rightarrow> string" where
  "link_id_of n = ''lnk_'' @ zpad 3 (dec n)"

definition next_number :: "nat list \<Rightarrow> nat" where
  "next_number ns = fold max ns 0 + 1"

definition next_link_id :: "json \<Rightarrow> py_exc + string" where
  "next_link_id data =
     bindr (link_list data) (\<lambda>ls. bindr (mapr id_text ls) (\<lambda>ids.
       Inr (link_id_of (next_number (map link_number ids)))))"

definition next_network_id :: "json \<Rightarrow> py_exc + int" where
  \<comment> \<open>keys that are not numbers are skipped\<close>
  "next_network_id data =
     bindr (pitems (jor (jget data ''networks'' (JObj [])) (JObj []))) (\<lambda>kvs.
       Inr (fold max (List.map_filter int_of_str (map fst kvs)) 0 + 1))"

section \<open>Records\<close>

definition no_metrics :: json where
  "no_metrics = JObj [(''delay_ms'', JInt 0), (''loss_pct'', JInt 0), (''bandwidth_kbps'', JInt 0), (''jitter_ms'', JInt 0)]"

definition build_link :: "string \<Rightarrow> endpoint \<Rightarrow> endpoint \<Rightarrow> json \<Rightarrow> json" where
  \<comment> \<open>with the defaults of the other parameters\<close>
  "build_link lid a b style =
     JObj [(''id'', JStr lid), (''from'', endpoint_json a), (''to'', endpoint_json b), (''style_override'', style),
       (''endpoint_positions'', JObj []), (''label'', JStr []), (''color'', JStr []), (''width'', JStr ''1''),
       (''metrics'', no_metrics)]"

definition build_implicit_network :: "int \<Rightarrow> json" where
  "build_implicit_network n =
     JObj [(''id'', JInt n), (''name'', JStr []), (''type'', JStr ''linux_bridge''), (''left'', JInt 0), (''top'', JInt 0),
       (''icon'', JStr ''01-Cloud-Default.svg''), (''width'', JInt 0), (''style'', JStr ''Solid''),
       (''linkstyle'', JStr ''Straight''), (''color'', JStr []), (''label'', JStr []), (''visibility'', JBool False),
       (''implicit'', JBool True), (''smart'', JInt (- 1)), (''config'', JObj [])]"

definition serialize_link :: "json \<Rightarrow> (string \<times> json) list" where
  "serialize_link l =
     [(''id'', jget0 l ''id''), (''from'', jget0 l ''from''), (''to'', jget0 l ''to''),
      (''style_override'', jget0 l ''style_override''), (''endpoint_positions'', jget l ''endpoint_positions'' (JObj [])),
      (''label'', jget l ''label'' (JStr [])), (''color'', jget l ''color'' (JStr [])), (''width'', jget l ''width'' (JStr ''1'')),
      (''metrics'', jget l ''metrics'' (JObj [])),
      (''runtime'', jget l ''runtime'' (JObj [(''attach_generation'', JInt 0)]))]"

definition link_with_state :: "json \<Rightarrow> json" where
  "link_with_state l = JObj (serialize_link l @ [(''state'', JStr ''configured'')])"

section \<open>Numbers are fresh\<close>

lemma fold_max_ge: "m \<le> fold max ns m" for m :: "'a :: linorder"
  by (induction ns arbitrary: m) (simp, metis fold_simps(2) max.bounded_iff)

lemma fold_max_le: "x \<in> set ns \<or> x = m \<Longrightarrow> x \<le> fold max ns m" for x :: "'a :: linorder"
proof (induction ns arbitrary: m)
  case (Cons a ns)
  then show ?case using fold_max_ge [of "max a m" ns] by (auto simp: le_max_iff_disj intro: order_trans)
qed simp

lemma next_number_above: "n \<in> set ns \<Longrightarrow> n < next_number ns"
  using fold_max_le [of n ns 0] by (simp add: next_number_def)

lemma link_number_of [simp]: "link_number (link_id_of n) = n"
proof -
  have "isdigit (zpad 3 (dec n))" "undec (zpad 3 (dec n)) = n" by simp_all
  then show ?thesis by (simp add: link_number_def link_id_of_def starts_with_def)
qed

lemma link_id_of_inj [simp]: "link_id_of m = link_id_of n \<longleftrightarrow> m = n"
  by (metis link_number_of)

lemma next_link_id_fresh: "s \<in> set ids \<Longrightarrow> link_id_of (next_number (map link_number ids)) \<noteq> s"
  using next_number_above [of "link_number s" "map link_number ids"] by auto

interpretation link_ids: allocator "\<lambda>_ :: string list. True" set
    "\<lambda>ids. Some (link_id_of (next_number (map link_number ids)), ids @ [link_id_of (next_number (map link_number ids))])"
  by unfold_locales (auto dest: next_link_id_fresh)

lemma next_network_id_fresh:
  assumes "next_network_id data = Inr n" and "jget data ''networks'' (JObj []) = JObj kvs"
  shows "dec_int n \<notin> set (keys kvs)" and "0 < n"
proof -
  have n: "n = fold max (List.map_filter int_of_str (map fst kvs)) 0 + 1"
    using assms by (auto simp: next_network_id_def jor_def pitems_def split: if_splits)
  have "i < n" if "i \<in> set (List.map_filter int_of_str (map fst kvs))" for i
    using fold_max_le [of i] that n by force
  moreover have "n \<in> set (List.map_filter int_of_str (map fst kvs))" if "dec_int n \<in> set (keys kvs)"
    using that by (force simp: List.map_filter_def)
  ultimately show "dec_int n \<notin> set (keys kvs)" by blast
  have "0 \<le> fold max (List.map_filter int_of_str (map fst kvs)) 0" by (rule fold_max_le) simp
  then show "0 < n" by (simp add: n)
qed

end
