(* ===== verification/Ws_Hub.thy ===== *)
theory Ws_Hub
  imports Py_Json
begin

text \<open>
  The event hub of the web sockets (\<open>app/services/ws_hub.py\<close>) and the socket session that uses it
  (\<open>app/routers/ws.py\<close>): per lab a ring of the last events with consecutive sequence numbers, the
  next number and the subscribed sockets. Every section under the hub's lock is one operation, and so
  is every single send, which the hub does after it has released the lock: an interleaving of
  publishers and sessions is a list of operations. The log records what is published and what each
  socket is sent.

  The lemmas tie the ring to the history of the lab, show that a replay is exactly what a client
  missed or asks for a snapshot, and what a subscribed socket receives.
\<close>

record ws_event =
  ev_seq :: int
  ev_type :: string
  ev_rev :: string
  ev_payload :: json

record 'w lab_hub =
  hub_ring :: "ws_event list"
  hub_next :: int
  hub_subs :: "'w set"

type_synonym 'w hub = "string \<Rightarrow> 'w lab_hub option"

definition fresh_lab_hub :: "'w lab_hub" where
  "fresh_lab_hub = \<lparr>hub_ring = [], hub_next = 1, hub_subs = {}\<rparr>"

definition get_or_create :: "'w hub \<Rightarrow> string \<Rightarrow> 'w lab_hub" where
  "get_or_create h lab = (case h lab of None \<Rightarrow> fresh_lab_hub | Some st \<Rightarrow> st)"

definition ring_append :: "nat \<Rightarrow> 'a list \<Rightarrow> 'a \<Rightarrow> 'a list" where
  \<comment> \<open>\<open>deque(maxlen=n).append(x)\<close>\<close>
  "ring_append n xs x = drop (Suc (length xs) - n) (xs @ [x])"

definition publish :: "nat \<Rightarrow> 'w hub \<Rightarrow> string \<Rightarrow> string \<Rightarrow> json \<Rightarrow> string \<Rightarrow> ws_event \<times> 'w set \<times> 'w hub" where
  \<comment> \<open>the section under the lock: the event, the sockets it goes to, the hub\<close>
  "publish n h lab ty payload rv =
     (let st = get_or_create h lab;
          ev = \<lparr>ev_seq = hub_next st, ev_type = ty, ev_rev = rv, ev_payload = payload\<rparr>
      in (ev, hub_subs st,
          h(lab \<mapsto> st\<lparr>hub_next := hub_next st + 1, hub_ring := ring_append n (hub_ring st) ev\<rparr>)))"

definition drop_dead :: "'w hub \<Rightarrow> string \<Rightarrow> 'w set \<Rightarrow> 'w hub" where
  \<comment> \<open>the second section of \<open>publish\<close>: sockets whose send failed are removed\<close>
  "drop_dead h lab dead =
     (case h lab of None \<Rightarrow> h | Some st \<Rightarrow> h(lab \<mapsto> st\<lparr>hub_subs := hub_subs st - dead\<rparr>))"

definition subscribe :: "'w hub \<Rightarrow> string \<Rightarrow> 'w \<Rightarrow> 'w hub" where
  "subscribe h lab ws =
     (let st = get_or_create h lab in h(lab \<mapsto> st\<lparr>hub_subs := insert ws (hub_subs st)\<rparr>))"

definition unsubscribe :: "'w hub \<Rightarrow> string \<Rightarrow> 'w \<Rightarrow> 'w hub" where
  "unsubscribe h lab ws = drop_dead h lab {ws}"

definition replay_since :: "'w hub \<Rightarrow> string \<Rightarrow> int \<Rightarrow> ws_event list \<times> bool" where
  "replay_since h lab last_seq =
     (case h lab of
        None \<Rightarrow> ([], False)
      | Some st \<Rightarrow>
          (case hub_ring st of
             [] \<Rightarrow> ([], False)
           | first # rest \<Rightarrow>
               if last_seq = 0 then (hub_ring st, False)
               else if last_seq + 1 < ev_seq first then ([], True)
               else (filter (\<lambda>ev. last_seq < ev_seq ev) (hub_ring st), False)))"

definition head_seq :: "'w hub \<Rightarrow> string \<Rightarrow> int" where
  "head_seq h lab =
     (case h lab of None \<Rightarrow> 0 | Some st \<Rightarrow> if hub_next st = 1 then 0 else hub_next st - 1)"

section \<open>Sessions interleaved\<close>

datatype 'w hub_op =
    Publish string string json string
  | Deliver string ws_event 'w bool
    \<comment> \<open>one \<open>send_json\<close> of a publisher; whether it went through\<close>
  | DropDead string "'w set"
  | Replay string 'w int
  | Subscribe string 'w
  | Unsubscribe string 'w

datatype 'w sent =
    Published string ws_event
  | Sent string ws_event 'w
  | Lost string ws_event 'w
  | Replayed string 'w "ws_event list" bool

type_synonym 'w sends = "(string \<times> ws_event \<times> 'w) set"
  \<comment> \<open>the sends that publishers have still to do\<close>

fun hub_step :: "nat \<Rightarrow> 'w hub_op \<Rightarrow> 'w hub \<times> 'w sends \<Rightarrow> ('w hub \<times> 'w sends) \<times> 'w sent list" where
  "hub_step n (Publish lab ty payload rv) (h, out) =
     (case publish n h lab ty payload rv of (ev, ws, h') \<Rightarrow> ((h', out \<union> (\<lambda>w. (lab, ev, w)) ` ws), [Published lab ev]))"
| "hub_step n (Deliver lab ev w ok) (h, out) =
     (if (lab, ev, w) \<in> out then ((h, out - {(lab, ev, w)}), [if ok then Sent lab ev w else Lost lab ev w]) else ((h, out), []))"
| "hub_step n (DropDead lab dead) (h, out) = ((drop_dead h lab dead, out), [])"
| "hub_step n (Replay lab ws q) (h, out) = ((h, out), [case replay_since h lab q of (evs, snap) \<Rightarrow> Replayed lab ws evs snap])"
| "hub_step n (Subscribe lab ws) (h, out) = ((subscribe h lab ws, out), [])"
| "hub_step n (Unsubscribe lab ws) (h, out) = ((unsubscribe h lab ws, out), [])"

fun hub_run :: "nat \<Rightarrow> 'w hub_op list \<Rightarrow> 'w hub \<times> 'w sends \<Rightarrow> ('w hub \<times> 'w sends) \<times> 'w sent list" where
  "hub_run n [] s = (s, [])"
| "hub_run n (c # cs) s =
     (case hub_step n c s of (s1, ss1) \<Rightarrow> (case hub_run n cs s1 of (s2, ss2) \<Rightarrow> (s2, ss1 @ ss2)))"

definition hub_start :: "'w hub \<times> 'w sends" where
  "hub_start = (Map.empty, {})"

definition history :: "string \<Rightarrow> 'w sent list \<Rightarrow> ws_event list" where
  \<comment> \<open>the events published for a lab\<close>
  "history lab ss = List.map_filter (\<lambda>s. case s of Published l ev \<Rightarrow> if l = lab then Some ev else None | _ \<Rightarrow> None) ss"

definition sent_to :: "string \<Rightarrow> 'w \<Rightarrow> 'w sent list \<Rightarrow> ws_event list" where
  \<comment> \<open>the events of a lab that publishers have sent to a socket\<close>
  "sent_to lab w ss = List.map_filter (\<lambda>s. case s of Sent l ev x \<Rightarrow> if l = lab \<and> x = w then Some ev else None | _ \<Rightarrow> None) ss"

definition lost_to :: "string \<Rightarrow> 'w \<Rightarrow> 'w sent list \<Rightarrow> ws_event list" where
  \<comment> \<open>the events whose send to the socket failed\<close>
  "lost_to lab w ss = List.map_filter (\<lambda>s. case s of Lost l ev x \<Rightarrow> if l = lab \<and> x = w then Some ev else None | _ \<Rightarrow> None) ss"

definition due_to :: "string \<Rightarrow> 'w \<Rightarrow> 'w sends \<Rightarrow> ws_event set" where
  "due_to lab w out = {ev. (lab, ev, w) \<in> out}"

section \<open>The ring is the end of the history\<close>

lemma log_simps [simp]:
  "history lab [] = []" "sent_to lab w [] = []" "lost_to lab w [] = []"
  "history lab (Published l ev # ss) = (if l = lab then ev # history lab ss else history lab ss)"
  "history lab (Sent l ev x # ss) = history lab ss" "history lab (Lost l ev x # ss) = history lab ss"
  "history lab (Replayed l x evs b # ss) = history lab ss"
  "sent_to lab w (Sent l ev x # ss) = (if l = lab \<and> x = w then ev # sent_to lab w ss else sent_to lab w ss)"
  "sent_to lab w (Published l ev # ss) = sent_to lab w ss" "sent_to lab w (Lost l ev x # ss) = sent_to lab w ss"
  "sent_to lab w (Replayed l x evs b # ss) = sent_to lab w ss"
  "lost_to lab w (Lost l ev x # ss) = (if l = lab \<and> x = w then ev # lost_to lab w ss else lost_to lab w ss)"
  "lost_to lab w (Published l ev # ss) = lost_to lab w ss" "lost_to lab w (Sent l ev x # ss) = lost_to lab w ss"
  "lost_to lab w (Replayed l x evs b # ss) = lost_to lab w ss"
  "history lab (ss @ ts) = history lab ss @ history lab ts"
  "sent_to lab w (ss @ ts) = sent_to lab w ss @ sent_to lab w ts"
  "lost_to lab w (ss @ ts) = lost_to lab w ss @ lost_to lab w ts"
  by (simp_all add: history_def sent_to_def lost_to_def List.map_filter_def)

definition ring_of :: "'w hub \<Rightarrow> string \<Rightarrow> ws_event list" where
  "ring_of h lab = hub_ring (get_or_create h lab)"

definition next_of :: "'w hub \<Rightarrow> string \<Rightarrow> int" where
  "next_of h lab = hub_next (get_or_create h lab)"

definition numbered :: "ws_event list \<Rightarrow> bool" where
  \<comment> \<open>the numbers are consecutive from 1\<close>
  "numbered evs \<longleftrightarrow> map ev_seq evs = map (\<lambda>i. int i + 1) [0..<length evs]"

definition hub_inv :: "nat \<Rightarrow> 'w hub \<Rightarrow> (string \<Rightarrow> ws_event list) \<Rightarrow> bool" where
  \<comment> \<open>the history is numbered, the ring holds its end\<close>
  "hub_inv n h hist \<longleftrightarrow> (\<forall>lab.
     numbered (hist lab)
     \<and> next_of h lab = int (length (hist lab)) + 1
     \<and> ring_of h lab = drop (length (hist lab) - n) (hist lab))"

lemma numbered_snoc [simp]: "numbered (evs @ [e]) \<longleftrightarrow> numbered evs \<and> ev_seq e = int (length evs) + 1"
  by (auto simp: numbered_def)

lemma numbered_nth: "numbered evs \<Longrightarrow> i < length evs \<Longrightarrow> ev_seq (evs ! i) = int i + 1"
  by (metis (no_types, lifting) add.left_neutral diff_zero length_map length_upt nth_map nth_upt numbered_def)

lemma unchanged_sections [simp]:
  "ring_of (drop_dead h lab dead) l = ring_of h l" "next_of (drop_dead h lab dead) l = next_of h l"
  "ring_of (subscribe h lab ws) l = ring_of h l" "next_of (subscribe h lab ws) l = next_of h l"
  by (auto simp: drop_dead_def subscribe_def Let_def ring_of_def next_of_def get_or_create_def split: option.splits)

lemma publish_effect:
  assumes "publish n h lab ty payload rv = (ev, ws, h')"
  shows "ev_seq ev = next_of h lab"
    and "next_of h' l = (if l = lab then next_of h lab + 1 else next_of h l)"
    and "ring_of h' l = (if l = lab then ring_append n (ring_of h lab) ev else ring_of h l)"
  using assms by (auto simp: publish_def Let_def next_of_def ring_of_def get_or_create_def)

lemma ring_append_drop: "ring_append n (drop (length xs - n) xs) x = drop (length (xs @ [x]) - n) (xs @ [x])"
  by (simp add: ring_append_def) (cases "n = 0"; cases "length xs \<le> n"; auto simp: Suc_diff_le drop_Cons')

lemma hub_step_inv:
  assumes "hub_inv n h hist" and "hub_step n c (h, out) = ((h', out'), ss)"
  shows "hub_inv n h' (\<lambda>lab. hist lab @ history lab ss)"
proof (cases c)
  case (Publish lab ty payload rv)
  then obtain ev ws where p: "publish n h lab ty payload rv = (ev, ws, h')" "ss = [Published lab ev]"
    using assms(2) by (auto split: prod.splits)
  show ?thesis
    using assms(1) publish_effect [OF p(1)] p(2) ring_append_drop [of n "hist lab"]
    by (auto simp: hub_inv_def)
qed (use assms in \<open>auto simp: hub_inv_def unsubscribe_def split: prod.splits if_splits\<close>)

lemma hub_run_inv:
  "hub_inv n h hist \<Longrightarrow> hub_run n cs (h, out) = ((h', out'), ss) \<Longrightarrow> hub_inv n h' (\<lambda>lab. hist lab @ history lab ss)"
proof (induction cs arbitrary: h out hist ss)
  case (Cons c cs)
  obtain h1 out1 s1 s2 where s: "hub_step n c (h, out) = ((h1, out1), s1)" "hub_run n cs (h1, out1) = ((h', out'), s2)" "ss = s1 @ s2"
    using Cons.prems(2) by (auto split: prod.splits)
  show ?case using Cons.IH [OF hub_step_inv [OF Cons.prems(1) s(1)] s(2)] s(3) by simp
qed simp

lemma hub_start_inv: "hub_inv n Map.empty (\<lambda>_. [])"
  by (simp add: hub_inv_def numbered_def next_of_def ring_of_def get_or_create_def fresh_lab_hub_def)

lemma hub_run_start:
  "hub_run n cs hub_start = ((h, out), ss) \<Longrightarrow> hub_inv n h (\<lambda>lab. history lab ss)"
  unfolding hub_start_def using hub_run_inv [OF hub_start_inv] by auto

section \<open>Replay\<close>

lemma hub_inv_get:
  assumes "hub_inv n h hist"
  shows "numbered (hist lab)" "ring_of h lab = drop (length (hist lab) - n) (hist lab)"
  using assms by (auto simp: hub_inv_def)

lemma replay_by_ring:
  "replay_since h lab q =
     (case ring_of h lab of [] \<Rightarrow> ([], False)
      | first # rest \<Rightarrow>
          if q = 0 then (ring_of h lab, False)
          else if q + 1 < ev_seq first then ([], True)
          else (filter (\<lambda>ev. q < ev_seq ev) (ring_of h lab), False))"
  by (auto simp: replay_since_def ring_of_def get_or_create_def fresh_lab_hub_def split: option.splits list.splits)

lemma filter_drop_newer:
  assumes "numbered evs" and "int k \<le> q"
  shows "filter (\<lambda>ev. q < ev_seq ev) (drop k evs) = filter (\<lambda>ev. q < ev_seq ev) evs"
proof -
  have "\<forall>e\<in>set (take k evs). \<not> q < ev_seq e"
  proof
    fix e assume "e \<in> set (take k evs)"
    then obtain i where "i < k" "i < length evs" "e = evs ! i" by (auto simp: in_set_conv_nth)
    then show "\<not> q < ev_seq e" using numbered_nth [OF assms(1)] assms(2) by simp
  qed
  then have "filter (\<lambda>ev. q < ev_seq ev) (take k evs) = []" by (simp add: filter_empty_conv)
  then show ?thesis by (metis append_Nil append_take_drop_id filter_append)
qed

text \<open>
  C28. Whatever publishers and sessions did before, in any interleaving: a client that has seen events up
  to \<open>q\<close> is replayed exactly the events after \<open>q\<close>, and is told to fetch a snapshot exactly when one of
  them has left the ring of the last \<open>n\<close>. A client without a state asks with 0: it is replayed the
  ring, and no snapshot is announced, even when events have left it.
\<close>

theorem replay_is_what_was_missed:
  assumes "hub_run n cs hub_start = ((h, out), ss)" and "0 < n"
  shows "replay_since h lab q =
     (let evs = history lab ss; gone = length evs - n in
      if q = 0 then (drop gone evs, False)
      else if evs \<noteq> [] \<and> q < int gone then ([], True)
      else (filter (\<lambda>ev. q < ev_seq ev) evs, False))"
proof (cases "history lab ss")
  case Nil
  then show ?thesis using hub_inv_get [OF hub_run_start [OF assms(1)], of lab] by (simp add: replay_by_ring)
next
  case (Cons e es)
  define evs where "evs = history lab ss"
  define k where "k = length evs - n"
  note I = hub_inv_get [OF hub_run_start [OF assms(1)], of lab, folded evs_def, folded k_def]
  have k: "k < length evs" using Cons assms(2) by (simp add: k_def evs_def)
  have r: "ring_of h lab = evs ! k # drop (Suc k) evs" using I(2) Cons_nth_drop_Suc [OF k] by simp
  have "ev_seq (evs ! k) = int k + 1" by (rule numbered_nth [OF I(1) k])
  then have "replay_since h lab q =
      (if q = 0 then (drop k evs, False) else if q < int k then ([], True) else (filter (\<lambda>ev. q < ev_seq ev) (drop k evs), False))"
    using r I(2) by (simp add: replay_by_ring)
  then show ?thesis
    using filter_drop_newer [OF I(1), of k q] Cons by (auto simp: Let_def not_less k_def evs_def)
qed

definition demo_ops :: "nat hub_op list" where
  "demo_ops = [Subscribe ''lab'' 1, Publish ''lab'' ''a'' JNull [], Publish ''lab'' ''b'' JNull [], DropDead ''lab'' {1},
     Publish ''lab'' ''c'' JNull []]"

definition demo_event :: "int \<Rightarrow> string \<Rightarrow> ws_event" where
  "demo_event q ty = \<lparr>ev_seq = q, ev_type = ty, ev_rev = [], ev_payload = JNull\<rparr>"

lemma demo_history: "history ''lab'' (snd (hub_run 2 demo_ops hub_start)) = [demo_event 1 ''a'', demo_event 2 ''b'', demo_event 3 ''c'']"
  by (simp add: demo_ops_def demo_event_def hub_start_def publish_def subscribe_def drop_dead_def get_or_create_def fresh_lab_hub_def
      Let_def split: prod.splits)

theorem replay_is_what_was_missed_witness:
  "replay_since (fst (fst (hub_run 2 demo_ops hub_start))) ''lab'' 2 = ([demo_event 3 ''c''], False)
   \<and> replay_since (fst (fst (hub_run 2 demo_ops hub_start))) ''lab'' 0 = ([demo_event 2 ''b'', demo_event 3 ''c''], False)"
proof -
  obtain h out ss where h: "hub_run 2 demo_ops hub_start = ((h, out), ss)" by (metis prod.collapse)
  then have "history ''lab'' ss = [demo_event 1 ''a'', demo_event 2 ''b'', demo_event 3 ''c'']" using demo_history by simp
  then show ?thesis using replay_is_what_was_missed [OF h, of "''lab''"] h by (simp add: demo_event_def)
qed

section \<open>Sessions\<close>

fun leaves :: "string \<Rightarrow> 'w \<Rightarrow> 'w hub_op \<Rightarrow> bool" where
  \<comment> \<open>operations that end the subscription of the socket\<close>
  "leaves lab w (DropDead l dead) \<longleftrightarrow> l = lab \<and> w \<in> dead"
| "leaves lab w (Unsubscribe l x) \<longleftrightarrow> l = lab \<and> x = w"
| "leaves lab w c \<longleftrightarrow> False"

definition subscribed :: "'w hub \<Rightarrow> string \<Rightarrow> 'w \<Rightarrow> bool" where
  "subscribed h lab w \<longleftrightarrow> w \<in> hub_subs (get_or_create h lab)"

lemma subscribe_subscribed: "subscribed (subscribe h lab w) lab w"
  by (simp add: subscribed_def subscribe_def get_or_create_def Let_def split: option.splits)

definition account :: "string \<Rightarrow> 'w \<Rightarrow> 'w sent list \<Rightarrow> 'w sends \<Rightarrow> ws_event set \<Rightarrow> bool" where
  \<comment> \<open>of a set of events each is sent, lost or still due, and only one of these, once\<close>
  "account lab w ss out evs \<longleftrightarrow>
     distinct (sent_to lab w ss @ lost_to lab w ss) \<and>
     set (sent_to lab w ss @ lost_to lab w ss) \<inter> due_to lab w out = {} \<and>
     set (sent_to lab w ss @ lost_to lab w ss) \<union> due_to lab w out = evs"

lemma publish_subscribed:
  assumes "publish n h l ty payload rv = (ev, ws, h')"
  shows "ws = hub_subs (get_or_create h l)" "subscribed h' lab w = subscribed h lab w"
  using assms by (cases "lab = l"; auto simp: publish_def subscribed_def get_or_create_def Let_def)+

lemma step_account:
  assumes "account lab w ss out (set (history lab ss))" and "subscribed h lab w" and "\<not> leaves lab w c"
    and "hub_step n c (h, out) = ((h', out'), ts)" and "\<And>e. e \<in> set (history lab ss) \<Longrightarrow> ev_seq e < next_of h lab"
  shows "account lab w (ss @ ts) out' (set (history lab (ss @ ts))) \<and> subscribed h' lab w
    \<and> (\<forall>e\<in>set (history lab (ss @ ts)). ev_seq e < next_of h' lab)"
proof (cases c)
  case (Publish l ty payload rv)
  then obtain ev ws where p: "publish n h l ty payload rv = (ev, ws, h')" "ts = [Published l ev]"
      "out' = out \<union> (\<lambda>w. (l, ev, w)) ` ws"
    using assms(4) by (auto split: prod.splits)
  have due: "due_to lab w out' = due_to lab w out \<union> (if l = lab then {ev} else {})"
    using publish_subscribed(1) [OF p(1)] assms(2) p(3) by (auto simp: due_to_def subscribed_def)
  have "l = lab \<Longrightarrow> ev \<notin> set (history lab ss)"
    using assms(5) publish_effect(1) [OF p(1)] by fastforce
  then have "account lab w (ss @ ts) out' (set (history lab (ss @ ts)))"
    using assms(1) p(2) due by (cases "l = lab") (auto simp: account_def)
  moreover have "\<forall>e\<in>set (history lab (ss @ ts)). ev_seq e < next_of h' lab"
    using assms(5) publish_effect(1,2) [OF p(1)] p(2) by (cases "l = lab") (auto dest!: less_SucI simp: less_le_trans add.commute, fastforce+)
  ultimately show ?thesis using assms(2) publish_subscribed(2) [OF p(1)] by blast
next
  case (Deliver l ev x ok)
  show ?thesis
  proof (cases "(l, ev, x) \<in> out")
    case True
    then have o: "out' = out - {(l, ev, x)}" "ts = [if ok then Sent l ev x else Lost l ev x]" "h' = h"
      using assms(4) Deliver by auto
    show ?thesis using assms(1,2,5) True by (cases "l = lab \<and> x = w") (auto simp: o account_def due_to_def)
  next
    case False
    then show ?thesis using assms Deliver by auto
  qed
qed (use assms in \<open>auto simp: subscribed_def subscribe_def unsubscribe_def drop_dead_def get_or_create_def next_of_def
       fresh_lab_hub_def Let_def account_def split: prod.splits option.splits if_splits\<close>)

lemma run_account:
  "account lab w ss out (set (history lab ss)) \<Longrightarrow> subscribed h lab w \<Longrightarrow> \<forall>c\<in>set cs. \<not> leaves lab w c \<Longrightarrow>
     hub_run n cs (h, out) = ((h', out'), ts) \<Longrightarrow> (\<And>e. e \<in> set (history lab ss) \<Longrightarrow> ev_seq e < next_of h lab) \<Longrightarrow>
     account lab w (ss @ ts) out' (set (history lab (ss @ ts)))"
proof (induction cs arbitrary: h out ss ts)
  case (Cons c cs)
  obtain h1 out1 s1 s2 where s: "hub_step n c (h, out) = ((h1, out1), s1)" "hub_run n cs (h1, out1) = ((h', out'), s2)" "ts = s1 @ s2"
    using Cons.prems(4) by (auto split: prod.splits)
  show ?case
    using step_account [OF Cons.prems(1,2) _ s(1) Cons.prems(5)] Cons.IH [of "ss @ s1" out1 h1 s2] Cons.prems(3) s(2,3) by simp
qed simp

text \<open>
  C29. From its subscription on until it leaves, a socket with no send outstanding gets every event that is
  published for its lab once: at any later moment, however publishers and sessions interleave, each of
  these events has been sent to it, or its send has failed, or a publisher has still to send it, and
  only one of the three. The sends come after the lock is released, so their order is not the order of
  publication, and events published before the subscription are left to the replay.
\<close>

theorem subscriber_gets_every_event_once:
  assumes "hub_run n (Subscribe lab w # cs) (h, out) = ((h', out'), ss)"
    and "due_to lab w out = {}" and "\<forall>c\<in>set cs. \<not> leaves lab w c"
  shows "distinct (sent_to lab w ss @ lost_to lab w ss)
    \<and> set (sent_to lab w ss @ lost_to lab w ss) \<inter> due_to lab w out' = {}
    \<and> set (sent_to lab w ss @ lost_to lab w ss) \<union> due_to lab w out' = set (history lab ss)"
proof -
  have "hub_run n cs (subscribe h lab w, out) = ((h', out'), ss)" using assms(1) by (auto split: prod.splits)
  from run_account [OF _ subscribe_subscribed assms(3) this, of "[]"] assms(2)
  show ?thesis by (simp add: account_def)
qed

definition demo_session :: "nat hub_op list" where
  "demo_session = [Publish ''lab'' ''a'' JNull [], Publish ''lab'' ''b'' JNull [], Deliver ''lab'' (demo_event 1 ''a'') 7 True]"

lemma demo_session_log:
  "history ''lab'' (snd (hub_run 2 (Subscribe ''lab'' 7 # demo_session) (Map.empty, {}))) = [demo_event 1 ''a'', demo_event 2 ''b'']"
  "sent_to ''lab'' 7 (snd (hub_run 2 (Subscribe ''lab'' 7 # demo_session) (Map.empty, {}))) = [demo_event 1 ''a'']"
  "lost_to ''lab'' 7 (snd (hub_run 2 (Subscribe ''lab'' 7 # demo_session) (Map.empty, {}))) = []"
  by (simp_all add: demo_session_def demo_event_def publish_def subscribe_def get_or_create_def fresh_lab_hub_def Let_def split: prod.splits)

theorem subscriber_gets_every_event_once_witness:
  "\<exists>h' out' ss. hub_run 2 (Subscribe ''lab'' 7 # demo_session) hub_start = ((h', out'), ss)
     \<and> sent_to ''lab'' 7 ss = [demo_event 1 ''a''] \<and> due_to ''lab'' 7 out' = {demo_event 2 ''b''}"
proof -
  obtain h' out' ss where r: "hub_run 2 (Subscribe ''lab'' 7 # demo_session) (Map.empty, {}) = ((h', out'), ss)" by (metis prod.collapse)
  have log: "history ''lab'' ss = [demo_event 1 ''a'', demo_event 2 ''b'']" "sent_to ''lab'' 7 ss = [demo_event 1 ''a'']" "lost_to ''lab'' 7 ss = []"
    using demo_session_log by (simp_all only: r snd_conv)
  have "\<forall>c\<in>set demo_session. \<not> leaves ''lab'' 7 c" "due_to ''lab'' 7 {} = {}" by (simp_all add: demo_session_def due_to_def)
  from subscriber_gets_every_event_once [OF r this(2,1)] log
  have "demo_event 1 ''a'' \<notin> due_to ''lab'' 7 out'" "{demo_event 1 ''a''} \<union> due_to ''lab'' 7 out' = {demo_event 1 ''a'', demo_event 2 ''b''}"
    by auto
  moreover have "demo_event 1 ''a'' \<noteq> demo_event 2 ''b''" by (simp add: demo_event_def)
  ultimately have "due_to ''lab'' 7 out' = {demo_event 2 ''b''}" by (metis Diff_insert_absorb insert_absorb insert_ident insert_is_Un singletonD)
  with r log show ?thesis by (auto simp: hub_start_def)
qed

text \<open>
  Two publishers whose sends interleave: the socket gets the later event first.
\<close>

theorem events_arrive_out_of_order:
  "map ev_seq (sent_to ''lab'' 7 (snd (hub_run 2
     [Subscribe ''lab'' (7::nat), Publish ''lab'' ''a'' JNull [], Publish ''lab'' ''b'' JNull [],
      Deliver ''lab'' (demo_event 2 ''b'') 7 True, Deliver ''lab'' (demo_event 1 ''a'') 7 True] hub_start))) = [2, 1]"
  by (simp add: demo_event_def hub_start_def publish_def subscribe_def get_or_create_def fresh_lab_hub_def Let_def split: prod.splits)

text \<open>
  The session of the router replays before it subscribes: an event published in between
  reaches neither the replay nor the socket.
\<close>

theorem event_between_replay_and_subscribe_is_lost:
  assumes "\<not> subscribed h lab w" and "due_to lab w out = {}"
    and "hub_run n [Replay lab w q, Publish lab ty payload rv, Subscribe lab w] (h, out) = ((h', out'), ss)"
  shows "\<exists>ev. history lab ss = [ev] \<and> ev_seq ev = next_of h lab \<and> due_to lab w out' = {} \<and> sent_to lab w ss = []
    \<and> (\<exists>snap. ss = [Replayed lab w (fst (replay_since h lab q)) snap, Published lab ev])"
  using assms by (auto simp: publish_def subscribed_def next_of_def due_to_def Let_def split: prod.splits)

theorem event_between_replay_and_subscribe_is_lost_witness:
  "\<exists>h' out' ss. hub_run 2 [Replay ''lab'' (7::nat) 1, Publish ''lab'' ''d'' JNull [], Subscribe ''lab'' 7] hub_start = ((h', out'), ss)
     \<and> length (history ''lab'' ss) = 1 \<and> due_to ''lab'' 7 out' = {}"
proof -
  obtain h' out' ss where s: "hub_run 2 [Replay ''lab'' (7::nat) 1, Publish ''lab'' ''d'' JNull [], Subscribe ''lab'' 7] (Map.empty, {})
      = ((h', out'), ss)"
    by (metis prod.collapse)
  have "\<not> subscribed Map.empty ''lab'' (7::nat)" by (simp add: subscribed_def get_or_create_def fresh_lab_hub_def)
  from event_between_replay_and_subscribe_is_lost [OF this _ s] have "length (history ''lab'' ss) = 1 \<and> due_to ''lab'' 7 out' = {}"
    by (auto simp: due_to_def)
  with s show ?thesis by (auto simp: hub_start_def)
qed

end
