(* ===== verification/Link_Topology.thy ===== *)
theory Link_Topology
  imports Link_Create "HOL-Library.Multiset"
begin

text \<open>
  The wiring of a lab as an abstract state: the list of links with their ids and ends, and the
  networks with the mark of the implicit ones. Creation and removal of a link are specified on it,
  and the document operations of \<open>app/services/link_service.py\<close> are shown to refine them.

  On the abstract state the lemmas show the invariants the specification keeps: an interface is
  on one link at most, ids are distinct, and an implicit network joins exactly two ends.
\<close>

section \<open>The abstract state\<close>

record topo =
  t_links :: "(string \<times> endpoint \<times> endpoint) list"
  t_nets :: "(string \<times> bool) list"

definition topo_ends :: "topo \<Rightarrow> endpoint list" where
  "topo_ends t = concat (map (\<lambda>(s, a, b). [a, b]) (t_links t))"

definition topo_ifaces :: "topo \<Rightarrow> (int \<times> int) list" where
  "topo_ifaces t = concat (map node_key (topo_ends t))"

definition topo_refs :: "topo \<Rightarrow> int \<Rightarrow> nat" where
  "topo_refs t n = length (filter (\<lambda>e. e = NetEp n) (topo_ends t))"

definition topo_implicit :: "topo \<Rightarrow> int \<Rightarrow> bool" where
  "topo_implicit t n \<longleftrightarrow> obj_get (t_nets t) (dec_int n) = Some True"

definition topo_link_id :: "topo \<Rightarrow> string" where
  "topo_link_id t = link_id_of (next_number (map (link_number \<circ> fst) (t_links t)))"

definition topo_network_id :: "topo \<Rightarrow> int" where
  "topo_network_id t = fold max (List.map_filter int_of_str (map fst (t_nets t))) 0 + 1"

definition topo_add :: "endpoint \<Rightarrow> endpoint \<Rightarrow> topo \<Rightarrow> topo" where
  "topo_add a b t = t\<lparr>t_links := t_links t @ [(topo_link_id t, a, b)]\<rparr>"

definition topo_create :: "topo \<Rightarrow> endpoint \<Rightarrow> endpoint \<Rightarrow> topo option" where
  "topo_create t a b =
     (if list_ex (\<lambda>(s, c, d). link_pair_key c d = link_pair_key a b) (t_links t)
         \<or> list_ex (\<lambda>k. k \<in> set (topo_ifaces t)) (node_key a @ node_key b) then None
      else case net_ids a @ net_ids b of
        [] \<Rightarrow> (let n = topo_network_id t in
               Some (topo_add b (NetEp n) (topo_add a (NetEp n) (t\<lparr>t_nets := obj_set (dec_int n) True (t_nets t)\<rparr>))))
      | n # _ \<Rightarrow>
          if obj_get (t_nets t) (dec_int n) = None then None
          else (let t1 = topo_add a b t in
                Some (if topo_implicit t1 n \<and> topo_refs t1 n = 3
                      then t1\<lparr>t_nets := obj_set (dec_int n) False (t_nets t1)\<rparr> else t1)))"

fun drop_first :: "('a \<Rightarrow> bool) \<Rightarrow> 'a list \<Rightarrow> 'a list" where
  "drop_first P [] = []"
| "drop_first P (x # xs) = (if P x then xs else x # drop_first P xs)"

definition on_net :: "int \<Rightarrow> string \<times> endpoint \<times> endpoint \<Rightarrow> bool" where
  "on_net n l = (case l of (s, a, b) \<Rightarrow> a = NetEp n \<or> b = NetEp n)"

definition topo_cascade :: "int \<Rightarrow> topo \<Rightarrow> topo" where
  \<comment> \<open>the other half of an implicit network goes with the first\<close>
  "topo_cascade n t =
     (if topo_implicit t n \<and> topo_refs t n = 1 then t\<lparr>t_links := drop_first (on_net n) (t_links t)\<rparr> else t)"

definition topo_gc :: "int \<Rightarrow> topo \<Rightarrow> topo" where
  "topo_gc n t =
     (if topo_implicit t n \<and> topo_refs t n = 0 then t\<lparr>t_nets := obj_del (dec_int n) (t_nets t)\<rparr> else t)"

definition topo_delete :: "topo \<Rightarrow> string \<Rightarrow> topo" where
  "topo_delete t s =
     (case List.find (\<lambda>l. fst l = s) (t_links t) of
        None \<Rightarrow> t
      | Some (s', a, b) \<Rightarrow>
          (let ns = net_ids a @ net_ids b
           in fold topo_gc ns (fold topo_cascade ns (t\<lparr>t_links := drop_first (\<lambda>l. fst l = s) (t_links t)\<rparr>))))"

section \<open>Invariants of the specification\<close>

definition topo_inv :: "topo \<Rightarrow> bool" where
  \<comment> \<open>distinct ids; an interface on one link at most; every link joins an interface and an existing
    network; an implicit network has two ends\<close>
  "topo_inv t \<longleftrightarrow>
     distinct (map fst (t_links t)) \<and> distinct (topo_ifaces t)
     \<and> (\<forall>(s, a, b)\<in>set (t_links t). length (net_ids a @ net_ids b) = 1)
     \<and> (\<forall>n. NetEp n \<in> set (topo_ends t) \<longrightarrow> obj_get (t_nets t) (dec_int n) \<noteq> None)
     \<and> (\<forall>n. topo_implicit t n \<longrightarrow> topo_refs t n = 2)"

lemma topo_invD:
  assumes "topo_inv t"
  shows "distinct (map fst (t_links t))" "distinct (topo_ifaces t)"
    "(s, a, b) \<in> set (t_links t) \<Longrightarrow> length (net_ids a @ net_ids b) = 1"
    "NetEp n \<in> set (topo_ends t) \<Longrightarrow> obj_get (t_nets t) (dec_int n) \<noteq> None"
    "topo_implicit t n \<Longrightarrow> topo_refs t n = 2"
  using assms unfolding topo_inv_def by auto

lemma topo_add_simps [simp]:
  "t_nets (topo_add a b t) = t_nets t" "t_links (topo_add a b t) = t_links t @ [(topo_link_id t, a, b)]"
  "topo_ends (topo_add a b t) = topo_ends t @ [a, b]" "topo_ifaces (topo_add a b t) = topo_ifaces t @ node_key a @ node_key b"
  "topo_refs (topo_add a b t) n = topo_refs t n + (if a = NetEp n then 1 else 0) + (if b = NetEp n then 1 else 0)"
  "topo_implicit (topo_add a b t) n = topo_implicit t n"
  by (simp_all add: topo_add_def topo_ends_def topo_ifaces_def topo_refs_def topo_implicit_def)

lemma topo_nets_simps [simp]:
  "topo_ends (t\<lparr>t_nets := x\<rparr>) = topo_ends t" "topo_ifaces (t\<lparr>t_nets := x\<rparr>) = topo_ifaces t"
  "topo_refs (t\<lparr>t_nets := x\<rparr>) n = topo_refs t n"
  by (simp_all add: topo_ends_def topo_ifaces_def topo_refs_def)

lemma topo_link_id_fresh: "topo_link_id t \<notin> set (map fst (t_links t))"
  using next_link_id_fresh [of _ "map fst (t_links t)"] by (auto simp: topo_link_id_def)

lemma topo_network_id_fresh: "obj_get (t_nets t) (dec_int (topo_network_id t)) = None"
proof -
  have "next_network_id (JObj [(''networks'', JObj (map (\<lambda>(k, v). (k, JBool v)) (t_nets t)))]) = Inr (topo_network_id t)"
    by (simp add: next_network_id_def jget_def jfind_def pitems_def jor_def topo_network_id_def comp_def case_prod_beta)
  then show ?thesis
    using next_network_id_fresh(1) [of _ "topo_network_id t" "map (\<lambda>(k, v). (k, JBool v)) (t_nets t)"]
    by (simp add: jget_def jfind_def obj_get_None_iff comp_def case_prod_beta image_image)
qed

lemma refs_positive: "0 < topo_refs t n \<longleftrightarrow> NetEp n \<in> set (topo_ends t)"
  by (auto simp: topo_refs_def filter_empty_conv)

lemma create_pair_inv:
  assumes I: "topo_inv t" and ab: "net_ids a = []" "net_ids b = []"
    and free: "distinct (topo_ifaces t @ node_key a @ node_key b)"
  defines "n \<equiv> topo_network_id t"
  shows "topo_inv (topo_add b (NetEp n) (topo_add a (NetEp n) (t\<lparr>t_nets := obj_set (dec_int n) True (t_nets t)\<rparr>)))"
proof -
  define t0 where "t0 = t\<lparr>t_nets := obj_set (dec_int n) True (t_nets t)\<rparr>"
  note I = topo_invD [OF I]
  have "obj_get (t_nets t) (dec_int n) = None" unfolding n_def by (rule topo_network_id_fresh)
  then have r0: "topo_refs t n = 0" using I(4) [of n] refs_positive [of t n] by auto
  have ends: "a \<noteq> NetEp k" "b \<noteq> NetEp k" for k using ab by auto
  have "topo_link_id t0 \<notin> fst ` set (t_links t0)" "topo_link_id (topo_add a (NetEp n) t0) \<notin> fst ` set (t_links (topo_add a (NetEp n) t0))"
    using topo_link_id_fresh [of t0] topo_link_id_fresh [of "topo_add a (NetEp n) t0"] by simp_all
  then have "distinct (map fst (t_links (topo_add b (NetEp n) (topo_add a (NetEp n) t0))))"
    using I(1) by (auto simp: t0_def)
  then show ?thesis
    using I(2-5) free ab ends r0 unfolding t0_def [symmetric] topo_inv_def
    by (auto simp: t0_def topo_implicit_def)
qed

lemma create_on_inv:
  assumes I: "topo_inv t" and ab: "net_ids a @ net_ids b = [n]" and n: "obj_get (t_nets t) (dec_int n) \<noteq> None"
    and free: "distinct (topo_ifaces t @ node_key a @ node_key b)"
  defines "t1 \<equiv> topo_add a b t"
  shows "topo_inv (if topo_implicit t1 n \<and> topo_refs t1 n = 3
                   then t1\<lparr>t_nets := obj_set (dec_int n) False (t_nets t1)\<rparr> else t1)"
proof -
  note I = topo_invD [OF I]
  have ends: "(a = NetEp n \<and> (\<forall>k. b \<noteq> NetEp k)) \<or> (b = NetEp n \<and> (\<forall>k. a \<noteq> NetEp k))"
    using ab by (cases a; cases b) auto
  have "distinct (map fst (t_links t1))" using I(1) topo_link_id_fresh [of t] by (simp add: t1_def)
  moreover have "distinct (topo_ifaces t1)" using free by (simp add: t1_def)
  moreover have "\<forall>(s, a, b)\<in>set (t_links t1). length (net_ids a @ net_ids b) = 1"
    using I(3) arg_cong [OF ab, of length] by (auto simp: t1_def)
  moreover have "\<forall>k. NetEp k \<in> set (topo_ends t1) \<longrightarrow> obj_get (t_nets t1) (dec_int k) \<noteq> None"
    using I(4) n ends by (auto simp: t1_def)
  moreover have "topo_refs t1 k = (if k = n then topo_refs t k + 1 else topo_refs t k)" for k
    using ends by (auto simp: t1_def)
  moreover have "t_nets t1 = t_nets t" by (simp add: t1_def)
  moreover note I(5) n
  ultimately show ?thesis unfolding topo_inv_def topo_implicit_def by (auto simp del: length_append)
qed

lemma topo_create_inv:
  assumes "topo_inv t" and "topo_create t a b = Some t'"
    and "length (net_ids a @ net_ids b) \<le> 1" and "distinct (node_key a @ node_key b)"
  shows "topo_inv t'"
proof -
  have free: "distinct (topo_ifaces t @ node_key a @ node_key b)"
    using assms(2,4) topo_invD(2) [OF assms(1)]
    by (auto simp: topo_create_def list_ex_iff split: if_splits)
  show ?thesis
  proof (cases "net_ids a @ net_ids b")
    case Nil
    then show ?thesis
      using assms(2) create_pair_inv [OF assms(1) _ _ free] by (auto simp: topo_create_def Let_def split: if_splits)
  next
    case (Cons n ns)
    then have ab: "net_ids a @ net_ids b = [n]" using assms(3) by auto
    then show ?thesis
      using assms(2) create_on_inv [OF assms(1) ab _ free] Cons
      by (auto simp: topo_create_def Let_def split: if_splits)
  qed
qed

lemma topo_refs_sum:
  "topo_refs t n = sum_list (map (\<lambda>(s, a, b). length (filter (\<lambda>e. e = NetEp n) [a, b])) (t_links t))"
proof -
  have "length (filter P (concat (map (\<lambda>(s, a, b). [a, b]) xs)))
      = sum_list (map (\<lambda>(s, a, b). length (filter P [a, b])) xs)" for P and xs :: "(string \<times> endpoint \<times> endpoint) list"
    by (induction xs) auto
  then show ?thesis by (simp add: topo_refs_def topo_ends_def)
qed

lemma topo_ifaces_links: "topo_ifaces t = concat (map (\<lambda>(s, c, d). node_key c @ node_key d) (t_links t))"
proof -
  have "concat (map node_key (concat (map (\<lambda>(s, a, b). [a, b]) xs))) = concat (map (\<lambda>(s, c, d). node_key c @ node_key d) xs)"
    for xs :: "(string \<times> endpoint \<times> endpoint) list" by (induction xs) auto
  then show ?thesis by (simp add: topo_ifaces_def topo_ends_def)
qed

lemma drop_first_subset: "set (drop_first P xs) \<subseteq> set xs"
  by (induction xs) auto

lemma distinct_drop_first: "distinct (map f xs) \<Longrightarrow> distinct (map f (drop_first P xs))"
  using drop_first_subset [of P] by (induction xs) (auto simp: image_iff)

lemma concat_drop_first:
  "distinct (concat (map f xs)) \<Longrightarrow> distinct (concat (map f (drop_first P xs)))"
proof (induction xs)
  case (Cons x xs)
  have "set (concat (map f (drop_first P xs))) \<subseteq> set (concat (map f xs))"
    using drop_first_subset [of P xs] by auto
  then show ?case using Cons by auto
qed simp

lemma drop_first_find:
  "List.find P xs = Some x \<Longrightarrow> mset xs = add_mset x (mset (drop_first P xs))"
  by (induction xs) auto

lemma topo_refs_mset: "topo_refs t n = sum_mset (image_mset (\<lambda>(s, a, b). length (filter (\<lambda>e. e = NetEp n) [a, b])) (mset (t_links t)))"
  by (simp only: topo_refs_sum sum_mset_sum_list [symmetric] mset_map)

lemma refs_drop:
  assumes "List.find P (t_links t) = Some (s, a, b)" and "net_ids a @ net_ids b = [m]"
  shows "topo_refs t n = topo_refs (t\<lparr>t_links := drop_first P (t_links t)\<rparr>) n + (if n = m then 1 else 0)"
proof -
  have "length (filter (\<lambda>e. e = NetEp n) [a, b]) = (if n = m then 1 else 0)"
    using assms(2) by (cases a; cases b) auto
  then show ?thesis by (simp add: topo_refs_mset drop_first_find [OF assms(1)])
qed

definition links_inv :: "topo \<Rightarrow> bool" where
  \<comment> \<open>the invariant without the pairing of implicit networks\<close>
  "links_inv t \<longleftrightarrow>
     distinct (map fst (t_links t)) \<and> distinct (topo_ifaces t)
     \<and> (\<forall>(s, a, b)\<in>set (t_links t). length (net_ids a @ net_ids b) = 1)
     \<and> (\<forall>n. NetEp n \<in> set (topo_ends t) \<longrightarrow> obj_get (t_nets t) (dec_int n) \<noteq> None)"

lemma topo_inv_split: "topo_inv t \<longleftrightarrow> links_inv t \<and> (\<forall>n. topo_implicit t n \<longrightarrow> topo_refs t n = 2)"
  by (auto simp: topo_inv_def links_inv_def)

lemma links_inv_drop:
  assumes "links_inv t"
  shows "links_inv (t\<lparr>t_links := drop_first P (t_links t)\<rparr>)"
proof -
  have "set (topo_ends (t\<lparr>t_links := drop_first P (t_links t)\<rparr>)) \<subseteq> set (topo_ends t)"
    using drop_first_subset [of P "t_links t"] by (auto simp: topo_ends_def)
  then show ?thesis
    using assms drop_first_subset [of P "t_links t"] distinct_drop_first [of fst "t_links t" P]
      concat_drop_first [of "\<lambda>(s, c, d). node_key c @ node_key d" "t_links t" P]
    by (auto simp: links_inv_def topo_ifaces_links)
qed

lemma find_on_net:
  assumes "links_inv t" and "0 < topo_refs t m"
  obtains s a b where "List.find (on_net m) (t_links t) = Some (s, a, b)" "net_ids a @ net_ids b = [m]"
proof (cases "List.find (on_net m) (t_links t)")
  case None
  then have "NetEp m \<notin> set (topo_ends t)" by (auto simp: find_None_iff on_net_def topo_ends_def)
  then show thesis using assms(2) by (simp add: refs_positive)
next
  case (Some l)
  obtain s a b where l: "l = (s, a, b)" by (cases l)
  then have "(s, a, b) \<in> set (t_links t)" "a = NetEp m \<or> b = NetEp m"
    using Some by (auto simp: find_Some_iff on_net_def in_set_conv_nth)
  then have "net_ids a @ net_ids b = [m]"
    using assms(1) by (cases a; cases b) (auto simp: links_inv_def)
  with Some l that show thesis by simp
qed

lemma topo_delete_inv:
  assumes "topo_inv t"
  shows "topo_inv (topo_delete t s)"
proof (cases "List.find (\<lambda>l. fst l = s) (t_links t)")
  case None
  then show ?thesis using assms by (simp add: topo_delete_def)
next
  case (Some l)
  obtain i a b where l: "l = (i, a, b)" by (cases l)
  have L: "links_inv t" and P: "\<And>n. topo_implicit t n \<Longrightarrow> topo_refs t n = 2" using assms by (auto simp: topo_inv_split)
  have "(i, a, b) \<in> set (t_links t)" using Some l by (auto simp: find_Some_iff in_set_conv_nth)
  then have one: "length (net_ids a @ net_ids b) = 1" using L by (auto simp: links_inv_def)
  then obtain m where m: "net_ids a @ net_ids b = [m]"
    by (auto simp only: One_nat_def length_Suc_conv length_0_conv)
  define t1 where "t1 = t\<lparr>t_links := drop_first (\<lambda>l. fst l = s) (t_links t)\<rparr>"
  have t1: "links_inv t1" "t_nets t1 = t_nets t" "topo_refs t n = topo_refs t1 n + (if n = m then 1 else 0)"
    "topo_implicit t1 n = topo_implicit t n" for n
    using links_inv_drop [OF L] refs_drop [OF Some [unfolded l] m] by (simp_all add: t1_def topo_implicit_def)
  have del: "topo_delete t s = topo_gc m (topo_cascade m t1)"
    by (simp add: topo_delete_def Some l m t1_def del: fold_append)
  show ?thesis
  proof (cases "topo_implicit t m")
    case False
    moreover have "topo_refs t1 n = 2" if "topo_implicit t n" for n
      using P [OF that] t1(3) [of n] that False by (cases "n = m") simp_all
    ultimately show ?thesis using t1(1,4) by (simp add: del topo_cascade_def topo_gc_def topo_inv_split)
  next
    case True
    then have r1: "topo_refs t1 m = 1" using P [of m] t1(3) [of m] by simp
    then obtain j c d where o: "List.find (on_net m) (t_links t1) = Some (j, c, d)" "net_ids c @ net_ids d = [m]"
      using find_on_net [OF t1(1), of m] by auto
    define t2 where "t2 = t1\<lparr>t_links := drop_first (on_net m) (t_links t1)\<rparr>"
    have t2: "links_inv t2" "t_nets t2 = t_nets t" "topo_refs t1 n = topo_refs t2 n + (if n = m then 1 else 0)" for n
      using links_inv_drop [OF t1(1)] refs_drop [OF o] t1(2) by (simp_all add: t2_def)
    have r2: "topo_refs t2 m = 0" using t2(3) [of m] r1 by simp
    then have gone: "NetEp m \<notin> set (topo_ends t2)" using refs_positive [of t2 m] by simp
    have "topo_delete t s = t2\<lparr>t_nets := obj_del (dec_int m) (t_nets t)\<rparr>"
      using True r1 r2 t1(2,4) t2(2) by (simp add: del topo_cascade_def topo_gc_def t2_def topo_implicit_def)
    moreover have "links_inv (t2\<lparr>t_nets := obj_del (dec_int m) (t_nets t)\<rparr>)"
      using t2(1,2) gone by (auto simp: links_inv_def topo_ifaces_def topo_ends_def)
    moreover have "topo_refs t2 n = 2" if "topo_implicit (t2\<lparr>t_nets := obj_del (dec_int m) (t_nets t)\<rparr>) n" for n
      using that P [of n] t1(3) [of n] t2(3) [of n] by (auto simp: topo_implicit_def split: if_splits)
    ultimately show ?thesis by (simp add: topo_inv_split)
  qed
qed

section \<open>The state of a document\<close>

definition parse_end :: "json \<Rightarrow> endpoint option" where
  "parse_end ep =
     (if is_obj ep \<and> \<not> (jhas ep ''node_id'' \<and> jhas ep ''network_id'')
      then case normalize_endpoint ep of Inl e \<Rightarrow> None | Inr x \<Rightarrow> Some x else None)"

definition parse_link :: "json \<Rightarrow> (string \<times> endpoint \<times> endpoint) option" where
  "parse_link l =
     (if \<not> is_obj l then None
      else case (jget0 l ''id'', parse_end (jget0 l ''from''), parse_end (jget0 l ''to'')) of
        (JStr s, Some a, Some b) \<Rightarrow> Some (s, a, b) | _ \<Rightarrow> None)"

definition net_mark :: "json \<Rightarrow> bool" where
  "net_mark net \<longleftrightarrow> jget0 net ''implicit'' = JBool True"

definition abs_topo :: "json \<Rightarrow> topo option" where
  \<comment> \<open>defined on documents whose links and networks are well formed\<close>
  "abs_topo data =
     (case (jget data ''links'' (JList []), jget data ''networks'' (JObj [])) of
        (JList ls, JObj nets) \<Rightarrow>
          if is_obj data \<and> list_all (\<lambda>(k, v). is_obj v) nets
          then map_option (\<lambda>xs. \<lparr>t_links = xs, t_nets = map (\<lambda>(k, v). (k, net_mark v)) nets\<rparr>) (those (map parse_link ls))
          else None
      | _ \<Rightarrow> None)"

section \<open>Readings of parsed links\<close>

lemma those_Some: "those xs = Some ys \<longleftrightarrow> xs = map Some ys"
  by (induction xs arbitrary: ys) (auto split: option.splits)

lemma parse_endD:
  "parse_end ep = Some e \<Longrightarrow> is_obj ep \<and> normalize_endpoint ep = Inr e \<and> map_option (\<lambda>k. [k]) (end_iface ep) = (case node_key e of [] \<Rightarrow> None | ks \<Rightarrow> Some ks)"
  by (auto simp: parse_end_def normalize_endpoint_def end_iface_def bindr_simps split: sum.splits if_splits)

lemma parse_end_json [simp]: "parse_end (endpoint_json e) = Some e"
  by (cases e) (simp_all add: parse_end_def normalize_endpoint_def jget_def jhas_def)

lemma parse_build_link [simp]: "parse_link (build_link s a b style) = Some (s, a, b)"
  by (simp add: parse_link_def build_link_def jget_def)

lemma int_of_empty [simp]: "int_of_str [] = None"
  by code_simp

lemma counts_parsed:
  assumes "parse_end ep = Some e" and "n \<noteq> 0"
  shows "counts_end n ep = Inr (if e = NetEp n then 1 else 0)"
proof (cases "jhas ep ''network_id''")
  case True
  then obtain m where m: "py_int (jget0 ep ''network_id'') = Inr m" "e = NetEp m"
    using assms(1) by (auto simp: parse_end_def normalize_endpoint_def bindr_simps split: sum.splits if_splits)
  have g: "jget ep ''network_id'' (JInt 0) = jget0 ep ''network_id''" using True by (auto simp: jget_def jhas_def)
  show ?thesis
  proof (cases "truthy (jget0 ep ''network_id'')")
    case True
    then show ?thesis using m parse_endD [OF assms(1)] by (simp add: counts_end_def g jor_def)
  next
    case False
    then have "m = 0" using m(1) by (cases "jget0 ep ''network_id''") (auto split: if_splits option.splits)
    with False m assms(2) parse_endD [OF assms(1)] show ?thesis by (simp add: counts_end_def g jor_def)
  qed
next
  case False
  then have "e \<noteq> NetEp n" using assms(1)
    by (auto simp: parse_end_def normalize_endpoint_def bindr_simps split: sum.splits if_splits)
  moreover have "jget ep ''network_id'' (JInt 0) = JInt 0" using False by (simp add: jget_def jhas_def)
  ultimately show ?thesis using assms(2) parse_endD [OF assms(1)] by (simp add: counts_end_def jor_def)
qed

lemma parse_linkD:
  assumes "parse_link l = Some (s, a, b)"
  shows "is_obj l" "id_text l = Inr s" "parse_end (jget0 l ''from'') = Some a" "parse_end (jget0 l ''to'') = Some b"
  using assms
  by (auto simp: parse_link_def id_text_def pget_def jor_def jget_def split: if_splits json.splits option.splits)

lemma counts_parsed_link:
  assumes "parse_link l = Some (s, a, b)" and "n \<noteq> 0"
  shows "counts_link n l = Inr (length (filter (\<lambda>e. e = NetEp n) [a, b]))"
  using parse_linkD [OF assms(1)] counts_parsed [OF _ assms(2)] by (simp add: counts_link_def pget_def)

lemma mapr_pure: "\<forall>x\<in>set xs. f x = Inr (g x) \<Longrightarrow> mapr f xs = Inr (map g xs)"
  by (induction xs) auto

lemma mapr_parsed:
  assumes "map parse_link ls = map Some xs" and "\<And>l s a b. parse_link l = Some (s, a, b) \<Longrightarrow> f l = Inr (g s a b)"
  shows "mapr f ls = Inr (map (\<lambda>(s, a, b). g s a b) xs)"
  using assms
proof (induction ls arbitrary: xs)
  case (Cons l ls)
  then obtain x ys where "xs = x # ys" by (cases xs) auto
  with Cons show ?case by (cases x) auto
qed simp

lemma scan_parsed:
  assumes "parse_link l = Some (s, c, d)"
  shows "(\<exists>e. scan_link a b l = Inl e) \<longleftrightarrow>
     link_pair_key c d = link_pair_key a b \<or> set (node_key c @ node_key d) \<inter> set (node_key a @ node_key b) \<noteq> {}"
proof -
  note P = parse_linkD [OF assms]
  note C = parse_endD [OF P(3)] and D = parse_endD [OF P(4)]
  have "set (List.map_filter end_iface [jget0 l ''from'', jget0 l ''to'']) = set (node_key c @ node_key d)"
    using C D by (cases c; cases d) (auto simp: List.map_filter_def)
  then have "List.find (\<lambda>k. k \<in> set (node_key a @ node_key b)) (List.map_filter end_iface [jget0 l ''from'', jget0 l ''to'']) = None
      \<longleftrightarrow> set (node_key c @ node_key d) \<inter> set (node_key a @ node_key b) = {}"
    by (auto simp: find_None_iff)
  then show ?thesis
    using P(1) C D by (auto simp: scan_link_def pget_def split: option.splits prod.splits)
qed

section \<open>Creation refines the specification\<close>

definition doc_of :: "json \<Rightarrow> json list \<Rightarrow> (string \<times> json) list \<Rightarrow> topo \<Rightarrow> bool" where
  \<comment> \<open>a document with both keys, its links and networks, and its abstract state\<close>
  "doc_of data ls nets t \<longleftrightarrow>
     is_obj data \<and> jfind data ''links'' = Some (JList ls) \<and> jfind data ''networks'' = Some (JObj nets)
     \<and> list_all (\<lambda>(k, v). is_obj v) nets \<and> map parse_link ls = map Some (t_links t)
     \<and> t_nets t = map (\<lambda>(k, v). (k, net_mark v)) nets"

lemma doc_of_abs: "doc_of data ls nets t \<Longrightarrow> abs_topo data = Some t"
  by (simp add: doc_of_def abs_topo_def jget_def those_Some [THEN iffD2])

lemma abs_topo_parts:
  assumes "abs_topo data = Some t"
  obtains ls nets where "jget data ''links'' (JList []) = JList ls" "jget data ''networks'' (JObj []) = JObj nets"
    "is_obj data" "list_all (\<lambda>(k, v). is_obj v) nets" "map parse_link ls = map Some (t_links t)"
    "t_nets t = map (\<lambda>(k, v). (k, net_mark v)) nets"
  using assms that by (auto simp: abs_topo_def those_Some split: json.splits if_splits)

lemma abs_topo_intro:
  "jget data ''links'' (JList []) = JList ls \<Longrightarrow> jget data ''networks'' (JObj []) = JObj nets \<Longrightarrow> is_obj data \<Longrightarrow>
     list_all (\<lambda>(k, v). is_obj v) nets \<Longrightarrow> map parse_link ls = map Some (t_links t) \<Longrightarrow>
     t_nets t = map (\<lambda>(k, v). (k, net_mark v)) nets \<Longrightarrow> abs_topo data = Some t"
  by (simp add: abs_topo_def those_Some [THEN iffD2])

lemma abs_doc_of:
  assumes "abs_topo data = Some t"
  obtains ls nets where "doc_of (jdefault ''links'' (JList []) (jdefault ''networks'' (JObj []) data)) ls nets t"
    and "jget data ''links'' (JList []) = JList ls" and "jget data ''networks'' (JObj []) = JObj nets"
proof -
  obtain ls nets xs where a: "jget data ''links'' (JList []) = JList ls" "jget data ''networks'' (JObj []) = JObj nets"
      "is_obj data" "list_all (\<lambda>(k, v). is_obj v) nets" "those (map parse_link ls) = Some xs"
      "t = \<lparr>t_links = xs, t_nets = map (\<lambda>(k, v). (k, net_mark v)) nets\<rparr>"
    using assms by (auto simp: abs_topo_def split: json.splits if_splits)
  have "doc_of (jdefault ''links'' (JList []) (jdefault ''networks'' (JObj []) data)) ls nets t"
    using a by (auto simp: doc_of_def jdefault_def jhas_def jget_def those_Some split: option.splits)
  then show thesis using a(1,2) that by blast
qed

lemma doc_of_gets:
  assumes "doc_of data ls nets t"
  shows "jget data ''links'' dflt = JList ls" "jget data ''networks'' dflt = JObj nets" "link_list data = Inr ls"
    and "map fst (t_nets t) = map fst nets"
  using assms by (auto simp: doc_of_def jget_def link_list_def jor_def)

lemma doc_of_add_link:
  "doc_of data ls nets t \<Longrightarrow> parse_link l = Some (s, a, b) \<Longrightarrow>
     doc_of (jset ''links'' (JList (ls @ [l])) data) (ls @ [l]) nets (t\<lparr>t_links := t_links t @ [(s, a, b)]\<rparr>)"
  by (simp add: doc_of_def)

lemma doc_of_set_net:
  "doc_of data ls nets t \<Longrightarrow> is_obj net \<Longrightarrow>
     doc_of (jset ''networks'' (JObj (obj_set k net nets)) data) ls (obj_set k net nets)
       (t\<lparr>t_nets := obj_set k (net_mark net) (t_nets t)\<rparr>)"
proof -
  have "map (\<lambda>(k, v). (k, net_mark v)) (obj_set k net xs) = obj_set k (net_mark net) (map (\<lambda>(k, v). (k, net_mark v)) xs)"
    for xs by (induction xs) auto
  moreover have "list_all (\<lambda>(k, v). is_obj v) xs \<Longrightarrow> is_obj net \<Longrightarrow> list_all (\<lambda>(k, v). is_obj v) (obj_set k net xs)" for xs
    by (induction xs) auto
  ultimately show "doc_of data ls nets t \<Longrightarrow> is_obj net \<Longrightarrow> ?thesis" by (simp add: doc_of_def)
qed

lemma next_link_parsed:
  assumes "doc_of data ls nets t"
  shows "next_link_id data = Inr (topo_link_id t)"
proof -
  have "mapr id_text ls = Inr (map (\<lambda>(s, a, b). s) (t_links t))"
    using assms by (intro mapr_parsed) (auto simp: doc_of_def dest: parse_linkD(2))
  then show ?thesis
    by (simp add: next_link_id_def doc_of_gets [OF assms] topo_link_id_def comp_def case_prod_beta)
qed

lemma next_network_parsed:
  assumes "doc_of data ls nets t"
  shows "next_network_id data = Inr (topo_network_id t)"
  using doc_of_gets [OF assms] by (simp add: next_network_id_def pitems_def jor_def topo_network_id_def)

lemma refcount_parsed:
  assumes "doc_of data ls nets t" and "n \<noteq> 0"
  shows "refcount data n = Inr (topo_refs t n)"
proof -
  have "mapr (counts_link n) ls = Inr (map (\<lambda>(s, a, b). length (filter (\<lambda>e. e = NetEp n) [a, b])) (t_links t))"
    using assms(1) by (intro mapr_parsed) (auto simp: doc_of_def counts_parsed_link [OF _ assms(2)])
  then show ?thesis by (simp add: refcount_def doc_of_gets [OF assms(1)] topo_refs_sum)
qed

lemma list_ex_meets: "list_ex (\<lambda>k. k \<in> A) ks \<longleftrightarrow> A \<inter> set ks \<noteq> {}"
  by (auto simp: list_ex_iff)

lemma scan_all_parsed:
  assumes "map parse_link ls = map Some xs"
  shows "(\<exists>e :: 'x link_error. forr (\<lambda>l u. scan_link a b l) ls () = Inl e) \<longleftrightarrow>
     list_ex (\<lambda>(s, c, d). link_pair_key c d = link_pair_key a b) xs
     \<or> list_ex (\<lambda>k. k \<in> set (concat (map (\<lambda>(s, c, d). node_key c @ node_key d) xs))) (node_key a @ node_key b)"
  using assms
proof (induction ls arbitrary: xs)
  case (Cons l ls)
  then obtain s c d ys where xs: "xs = (s, c, d) # ys" "parse_link l = Some (s, c, d)" "map parse_link ls = map Some ys"
    by (cases xs) auto
  have "(\<exists>e :: 'x link_error. forr (\<lambda>l u. scan_link a b l) (l # ls) () = Inl e)
      \<longleftrightarrow> (\<exists>e :: 'x link_error. scan_link a b l = Inl e) \<or> (\<exists>e :: 'x link_error. forr (\<lambda>l u. scan_link a b l) ls () = Inl e)"
    by (cases "scan_link a b l :: 'x link_error + unit") auto
  then show ?case
    unfolding scan_parsed [OF xs(2)] Cons.IH [OF xs(3)] xs(1) list_ex_meets by simp blast
qed (simp add: list_ex_iff)

lemma create_between_refines:
  assumes "doc_of data ls nets t"
  shows "\<exists>c. create_between_nodes data ls a b style = Inr c \<and>
     abs_topo (cr_data c) = Some (topo_add b (NetEp (topo_network_id t)) (topo_add a (NetEp (topo_network_id t))
       (t\<lparr>t_nets := obj_set (dec_int (topo_network_id t)) True (t_nets t)\<rparr>)))"
proof -
  define n where "n = topo_network_id t"
  define net where "net = build_implicit_network n"
  have net: "is_obj net" "net_mark net" by (simp_all add: net_def build_implicit_network_def net_mark_def jget_def)
  define data1 where "data1 = jset ''networks'' (JObj (obj_set (dec_int n) net nets)) data"
  define t1 where "t1 = t\<lparr>t_nets := obj_set (dec_int n) True (t_nets t)\<rparr>"
  have d1: "doc_of data1 ls (obj_set (dec_int n) net nets) t1"
    using doc_of_set_net [OF assms net(1), of "dec_int n"] net(2) by (simp add: data1_def t1_def)
  define l1 where "l1 = build_link (topo_link_id t1) a (NetEp n) style"
  define data2 where "data2 = jset ''links'' (JList (ls @ [l1])) data1"
  have d2: "doc_of data2 (ls @ [l1]) (obj_set (dec_int n) net nets) (topo_add a (NetEp n) t1)"
    using doc_of_add_link [OF d1] by (simp add: data2_def l1_def topo_add_def)
  define l2 where "l2 = build_link (topo_link_id (topo_add a (NetEp n) t1)) b (NetEp n) style"
  have d3: "doc_of (jset ''links'' (JList (ls @ [l1, l2])) data1) (ls @ [l1, l2]) (obj_set (dec_int n) net nets)
      (topo_add b (NetEp n) (topo_add a (NetEp n) t1))"
    using doc_of_add_link [OF d2, of l2 _ b "NetEp n"] by (simp add: l2_def topo_add_def data2_def)
  show ?thesis
    using doc_of_abs [OF d3] next_network_parsed [OF assms] next_link_parsed [OF d1] next_link_parsed [OF d2]
      doc_of_gets(2) [OF assms]
    by (simp add: create_between_nodes_def n_def [symmetric] net_def [symmetric] data1_def [symmetric]
        t1_def [symmetric] l1_def [symmetric] data2_def [symmetric] l2_def [symmetric])
qed

lemma promotion_parsed:
  assumes "doc_of data ls nets t" and "n \<noteq> 0" and "obj_get nets (dec_int n) = Some net"
  shows "promotion data n = Inr (if topo_implicit t n \<and> topo_refs t n = 3 then Some (promote n net) else None)"
proof -
  have "is_obj net" using assms(1,3) by (auto simp: doc_of_def list_all_iff dest!: obj_get_Some_in)
  moreover have "topo_implicit t n \<longleftrightarrow> net_mark net"
  proof -
    have "obj_get (map (\<lambda>(k, v). (k, net_mark v)) xs) k = map_option net_mark (obj_get xs k)" for xs k
      by (induction xs) auto
    then show ?thesis using assms(1,3) by (simp add: topo_implicit_def doc_of_def)
  qed
  moreover have "jget0 (JObj nets) (dec_int n) = net" using assms(3) by (simp add: jget_def jfind_def)
  ultimately show ?thesis
    using refcount_parsed [OF assms(1,2)] doc_of_gets(2) [OF assms(1)] by (simp add: promotion_def net_mark_def)
qed

lemma create_on_refines:
  assumes d: "doc_of data ls nets t" and n: "n \<noteq> 0"
  shows "(case create_on_network data ls a b n style of
       Inl e \<Rightarrow> obj_get (t_nets t) (dec_int n) = None
     | Inr c \<Rightarrow> obj_get (t_nets t) (dec_int n) \<noteq> None \<and> abs_topo (cr_data c) =
         Some (if topo_implicit (topo_add a b t) n \<and> topo_refs (topo_add a b t) n = 3
               then (topo_add a b t)\<lparr>t_nets := obj_set (dec_int n) False (t_nets t)\<rparr> else topo_add a b t))"
proof -
  have keys: "obj_get (t_nets t) (dec_int n) = None \<longleftrightarrow> obj_get nets (dec_int n) = None"
    using doc_of_gets(4) [OF d] by (simp add: obj_get_None_iff)
  show ?thesis
  proof (cases "obj_get nets (dec_int n)")
    case None
    then show ?thesis using keys doc_of_gets(2) [OF d] by (simp add: create_on_network_def jhas_def jfind_def)
  next
    case (Some net)
    define l where "l = build_link (topo_link_id t) a b style"
    define data1 where "data1 = jset ''links'' (JList (ls @ [l])) data"
    have d1: "doc_of data1 (ls @ [l]) nets (topo_add a b t)"
      using doc_of_add_link [OF d] by (simp add: data1_def l_def topo_add_def)
    have pr: "is_obj (promote n net)" "\<not> net_mark (promote n net)"
      by (simp_all add: promote_def net_mark_def Let_def)
    have d2: "doc_of (jset ''networks'' (JObj (obj_set (dec_int n) (promote n net) nets)) data1) (ls @ [l])
        (obj_set (dec_int n) (promote n net) nets)
        ((topo_add a b t)\<lparr>t_nets := obj_set (dec_int n) False (t_nets t)\<rparr>)"
      using doc_of_set_net [OF d1 pr(1), of "dec_int n"] pr(2) by (simp add: topo_add_def)
    show ?thesis
      using Some keys doc_of_gets(2) [OF d] doc_of_gets(2) [OF d1] next_link_parsed [OF d] promotion_parsed [OF d1 n Some]
        doc_of_abs [OF d1] doc_of_abs [OF d2]
      by (simp add: create_on_network_def jhas_def jfind_def l_def [symmetric] data1_def [symmetric] jset_def [of "dec_int n"])
  qed
qed

text \<open>
  On well-formed lab documents the creation of a link is the abstract operation: it fails
  exactly when that does, and the document it writes has the abstract state that results.
\<close>

theorem create_refines_topology:
  assumes "abs_topo data = Some t" and "0 \<notin> set (net_ids a @ net_ids b)"
  shows "case (plan_link data a b style :: 'x link_error + created) of
     Inl e \<Rightarrow> topo_create t a b = None
   | Inr c \<Rightarrow> topo_create t a b \<noteq> None \<and> abs_topo (cr_data c) = topo_create t a b"
proof -
  define data' where "data' = jdefault ''links'' (JList []) (jdefault ''networks'' (JObj []) data)"
  obtain ls nets where d: "doc_of data' ls nets t" using abs_doc_of [OF assms(1)] by (metis data'_def)
  have ls: "map parse_link ls = map Some (t_links t)" using d by (simp add: doc_of_def)
  have scan: "(\<exists>e :: 'x link_error. forr (\<lambda>l u. scan_link a b l) ls () = Inl e) \<longleftrightarrow>
      list_ex (\<lambda>(s, c, d). link_pair_key c d = link_pair_key a b) (t_links t)
      \<or> list_ex (\<lambda>k. k \<in> set (topo_ifaces t)) (node_key a @ node_key b)"
    unfolding topo_ifaces_links by (rule scan_all_parsed [OF ls])
  show ?thesis
  proof (cases "forr (\<lambda>l u. scan_link a b l) ls () :: 'x link_error + unit")
    case (Inl e)
    then have "topo_create t a b = None"
      unfolding topo_create_def using scan by simp
    then show ?thesis
      using Inl doc_of_gets(1) [OF d] by (simp add: plan_link_def data'_def [symmetric] list_value_def)
  next
    case (Inr u)
    then have free: "\<not> (list_ex (\<lambda>(s, c, d). link_pair_key c d = link_pair_key a b) (t_links t)
         \<or> list_ex (\<lambda>k. k \<in> set (topo_ifaces t)) (node_key a @ node_key b))"
      using scan by simp
    show ?thesis
    proof (cases "net_ids a @ net_ids b")
      case Nil
      then show ?thesis
        using Inr free create_between_refines [OF d, of a b style] doc_of_gets(1) [OF d]
        by (auto simp: plan_link_def data'_def [symmetric] list_value_def topo_create_def Let_def)
    next
      case (Cons n ns)
      then have "n \<noteq> 0" using assms(2) by auto
      from create_on_refines [where 'a = 'x, OF d this, of a b style] show ?thesis
        using Inr free Cons doc_of_gets(1) [OF d]
        by (auto simp: plan_link_def data'_def [symmetric] list_value_def topo_create_def Let_def topo_add_def
            split: sum.splits)
    qed
  qed
qed


section \<open>Ends and keys of a created link\<close>

lemma topo_network_id_pos: "0 < topo_network_id t"
proof -
  have "0 \<le> fold max (List.map_filter int_of_str (map fst (t_nets t))) (0 :: int)" by (rule fold_max_ge)
  then show ?thesis by (simp add: topo_network_id_def)
qed

lemma topo_create_ends:
  "topo_create t a b = Some t' \<Longrightarrow> e \<in> set (topo_ends t') \<Longrightarrow>
     e \<in> set (topo_ends t) \<or> e = a \<or> e = b \<or> e = NetEp (topo_network_id t)"
  by (auto simp: topo_create_def Let_def split: if_splits list.splits)

lemma default_has [simp]: "jhas (jdefault k v d) k' \<longleftrightarrow> k' = k \<or> jhas d k'"
  by (auto simp: jdefault_def)

lemma between_has_networks:
  assumes "create_between_nodes data ls a b style = Inr c"
  shows "jhas (cr_data c) ''networks''"
proof -
  obtain n where n: "next_network_id data = Inr n" using assms by (auto simp: create_between_nodes_def bindr_simps)
  obtain nets where nets: "jget0 data ''networks'' = JObj nets"
    using assms n by (cases "jget0 data ''networks''") (auto simp: create_between_nodes_def bindr_simps)
  show ?thesis using assms unfolding create_between_nodes_def n nets
    by (clarsimp simp: Let_def bindr_simps simp del: map_map)
qed

lemma on_network_has_networks:
  assumes "create_on_network data ls a b n style = Inr c" and "jhas data ''networks''"
  shows "jhas (cr_data c) ''networks''"
proof -
  have "jhas (cr_data c) ''networks'' \<or> (\<exists>lid. cr_data c = jset ''links'' (JList (ls @ [build_link lid a b style])) data)"
    using assms(1) unfolding create_on_network_def Let_def
    by (auto split: if_splits option.splits simp: bindr_simps)
  then show ?thesis using assms(2) by auto
qed

lemma plan_has_networks: "plan_link data a b style = Inr c \<Longrightarrow> jhas (cr_data c) ''networks''"
  by (cases "net_ids a @ net_ids b")
    (auto simp: plan_link_def Let_def bindr_simps intro: between_has_networks on_network_has_networks)

end
