(* ===== verification/Runtime_Monad.thy ===== *)
theory Runtime_Monad
  imports Host_Net
begin

text \<open>
  Code that acts on the host and on the records of running nodes: a computation takes the runtime
  state and the trace of host calls and returns an error or a value with both of them. Host
  computations are embedded with their trace.

  \<open>rt_calls P m\<close> says that \<open>m\<close> only makes host calls that satisfy \<open>P\<close>, whatever happens.
\<close>

datatype rt_error = RtHost host_error | RtNode string | RtQmp string | RtContention

type_synonym ('r, 'a) rt = "'r \<times> call list \<Rightarrow> (rt_error + 'a) \<times> 'r \<times> call list"

definition rt_ret :: "'a \<Rightarrow> ('r, 'a) rt" where
  "rt_ret x s = (Inr x, s)"

definition rt_raise :: "rt_error \<Rightarrow> ('r, 'a) rt" where
  "rt_raise e s = (Inl e, s)"

definition rt_bind :: "('r, 'a) rt \<Rightarrow> ('a \<Rightarrow> ('r, 'b) rt) \<Rightarrow> ('r, 'b) rt" where
  "rt_bind m f s = (case m s of (Inl e, s') \<Rightarrow> (Inl e, s') | (Inr x, s') \<Rightarrow> f x s')"

definition rt_try :: "('r, 'a) rt \<Rightarrow> (rt_error \<Rightarrow> ('r, 'a) rt) \<Rightarrow> ('r, 'a) rt" where
  \<comment> \<open>\<open>try: m except e: h(e)\<close>\<close>
  "rt_try m h s = (case m s of (Inl e, s') \<Rightarrow> h e s' | (Inr x, s') \<Rightarrow> (Inr x, s'))"

definition rt_host :: "'a host \<Rightarrow> ('r, 'a) rt" where
  "rt_host m s =
     (case m (snd s) of (Inl e, tr) \<Rightarrow> (Inl (RtHost e), fst s, tr) | (Inr x, tr) \<Rightarrow> (Inr x, fst s, tr))"

definition rt_py :: "py_exc + 'a \<Rightarrow> ('r, 'a) rt" where
  "rt_py r = (case r of Inl e \<Rightarrow> rt_raise (RtHost (Py e)) | Inr x \<Rightarrow> rt_ret x)"

definition rt_lift :: "host_error + 'a \<Rightarrow> ('r, 'a) rt" where
  "rt_lift r = (case r of Inl e \<Rightarrow> rt_raise (RtHost e) | Inr x \<Rightarrow> rt_ret x)"

fun rt_each :: "('a \<Rightarrow> ('r, unit) rt) \<Rightarrow> 'a list \<Rightarrow> ('r, unit) rt" where
  "rt_each f [] = rt_ret ()"
| "rt_each f (x # xs) = rt_bind (f x) (\<lambda>_. rt_each f xs)"

fun rt_map :: "('a \<Rightarrow> ('r, 'b) rt) \<Rightarrow> 'a list \<Rightarrow> ('r, 'b list) rt" where
  "rt_map f [] = rt_ret []"
| "rt_map f (x # xs) = rt_bind (f x) (\<lambda>y. rt_bind (rt_map f xs) (\<lambda>ys. rt_ret (y # ys)))"

fun rt_fold :: "('a \<Rightarrow> 's \<Rightarrow> ('r, 's) rt) \<Rightarrow> 'a list \<Rightarrow> 's \<Rightarrow> ('r, 's) rt" where
  "rt_fold f [] s = rt_ret s"
| "rt_fold f (x # xs) s = rt_bind (f x s) (rt_fold f xs)"

definition is_runtime_error :: "rt_error \<Rightarrow> bool" where
  \<comment> \<open>\<open>except (NodeRuntimeError, NodeRuntimeQMPTimeout, host_net.HostNetError)\<close>\<close>
  "is_runtime_error e = (case e of RtHost h \<Rightarrow> is_HostNetError h | RtNode _ \<Rightarrow> True | RtQmp _ \<Rightarrow> True | RtContention \<Rightarrow> False)"

definition is_host_net_error :: "rt_error \<Rightarrow> bool" where
  "is_host_net_error e = (case e of RtHost h \<Rightarrow> is_HostNetError h | _ \<Rightarrow> False)"

definition rt_ignore :: "(rt_error \<Rightarrow> bool) \<Rightarrow> ('r, unit) rt \<Rightarrow> ('r, unit) rt" where
  \<comment> \<open>\<open>try: m except ...: pass\<close>\<close>
  "rt_ignore p m = rt_try m (\<lambda>e. if p e then rt_ret () else rt_raise e)"

definition rt_read :: "('r \<Rightarrow> 'a) \<Rightarrow> ('r, 'a) rt" where
  "rt_read f s = (Inr (f (fst s)), s)"

definition rt_modify :: "('r \<Rightarrow> 'r) \<Rightarrow> ('r, unit) rt" where
  "rt_modify f s = (Inr (), f (fst s), snd s)"

lemmas rt_defs = rt_ret_def rt_raise_def rt_bind_def rt_try_def rt_host_def rt_py_def rt_lift_def

lemma rt_bind_ret [simp]: "rt_bind (rt_ret x) f = f x" "rt_bind (rt_raise e) f = rt_raise e"
  by (simp_all add: fun_eq_iff rt_defs)

lemma rt_bind_Inr:
  "rt_bind m f s = (Inr y, s') \<longleftrightarrow> (\<exists>x s1. m s = (Inr x, s1) \<and> f x s1 = (Inr y, s'))"
  by (auto simp: rt_bind_def split: prod.splits sum.splits)

section \<open>Which host calls a computation makes\<close>

named_theorems rt_rules \<open>which host calls a computation makes\<close>

definition rt_calls :: "(call \<Rightarrow> bool) \<Rightarrow> ('r, 'a) rt \<Rightarrow> bool" where
  "rt_calls P m \<longleftrightarrow> (\<forall>r tr. \<exists>new. snd (snd (m (r, tr))) = tr @ new \<and> list_all P new)"

lemma rt_calls_pure [rt_rules]:
  "rt_calls P (rt_ret x)" "rt_calls P (rt_raise e)" "rt_calls P (rt_py p)" "rt_calls P (rt_lift l)"
  by (auto simp: rt_calls_def rt_defs split: sum.splits)

lemma rt_calls_state [rt_rules]: "rt_calls P (rt_read f)" "rt_calls P (rt_modify g)"
  by (simp_all add: rt_calls_def rt_read_def rt_modify_def)

lemma rt_calls_host [rt_rules]:
  assumes "emits P m"
  shows "rt_calls P (rt_host m)"
  unfolding rt_calls_def
proof (intro allI)
  fix r tr
  have "snd (snd (rt_host m (r, tr))) = snd (m tr)" by (simp add: rt_host_def split: prod.splits sum.splits)
  then show "\<exists>new. snd (snd (rt_host m (r, tr))) = tr @ new \<and> list_all P new"
    using assms by (simp add: emits_def)
qed

lemma rt_calls_then:
  assumes "rt_calls P m" and "\<And>x. rt_calls P (f x)" and "\<And>e. rt_calls P (g e)"
  shows "\<exists>new. snd (snd (case m (r, tr) of (Inl e, s') \<Rightarrow> g e s' | (Inr x, s') \<Rightarrow> f x s')) = tr @ new \<and> list_all P new"
proof -
  obtain new where new: "snd (snd (m (r, tr))) = tr @ new" "list_all P new"
    using assms(1) unfolding rt_calls_def by blast
  obtain v r' where v: "m (r, tr) = (v, r', tr @ new)" using new(1) by (metis prod.collapse)
  show ?thesis
  proof (cases v)
    case (Inl e)
    obtain n2 where "snd (snd (g e (r', tr @ new))) = (tr @ new) @ n2" "list_all P n2"
      using assms(3) [of e] unfolding rt_calls_def by blast
    then show ?thesis using v Inl new(2) by (intro exI [of _ "new @ n2"]) simp
  next
    case (Inr x)
    obtain n2 where "snd (snd (f x (r', tr @ new))) = (tr @ new) @ n2" "list_all P n2"
      using assms(2) [of x] unfolding rt_calls_def by blast
    then show ?thesis using v Inr new(2) by (intro exI [of _ "new @ n2"]) simp
  qed
qed

lemma rt_bind_alt: "rt_bind m f s = (case m s of (Inl e, s') \<Rightarrow> rt_raise e s' | (Inr x, s') \<Rightarrow> f x s')"
  by (auto simp: rt_bind_def rt_raise_def split: prod.splits sum.splits)

lemma rt_try_alt: "rt_try m h s = (case m s of (Inl e, s') \<Rightarrow> h e s' | (Inr x, s') \<Rightarrow> rt_ret x s')"
  by (auto simp: rt_try_def rt_ret_def split: prod.splits sum.splits)

lemma rt_calls_bind [rt_rules]:
  "rt_calls P m \<Longrightarrow> (\<And>x. rt_calls P (f x)) \<Longrightarrow> rt_calls P (rt_bind m f)"
  unfolding rt_calls_def [of _ "rt_bind m f"] rt_bind_alt by (intro allI rt_calls_then rt_calls_pure)

lemma rt_calls_try [rt_rules]:
  "rt_calls P m \<Longrightarrow> (\<And>e. rt_calls P (h e)) \<Longrightarrow> rt_calls P (rt_try m h)"
  unfolding rt_calls_def [of _ "rt_try m h"] rt_try_alt by (intro allI rt_calls_then rt_calls_pure)

lemma rt_calls_if [rt_rules]:
  "(b \<Longrightarrow> rt_calls P m) \<Longrightarrow> (\<not> b \<Longrightarrow> rt_calls P n) \<Longrightarrow> rt_calls P (if b then m else n)"
  by simp

lemma rt_calls_ignore [rt_rules]: "rt_calls P m \<Longrightarrow> rt_calls P (rt_ignore p m)"
  by (auto simp: rt_ignore_def intro!: rt_rules)

lemma rt_calls_each [rt_rules]: "(\<And>x. x \<in> set xs \<Longrightarrow> rt_calls P (f x)) \<Longrightarrow> rt_calls P (rt_each f xs)"
  by (induction xs) (auto intro!: rt_rules)

lemma rt_calls_map [rt_rules]: "(\<And>x. x \<in> set xs \<Longrightarrow> rt_calls P (f x)) \<Longrightarrow> rt_calls P (rt_map f xs)"
  by (induction xs) (auto intro!: rt_rules)

lemma rt_calls_fold [rt_rules]: "(\<And>x s. x \<in> set xs \<Longrightarrow> rt_calls P (f x s)) \<Longrightarrow> rt_calls P (rt_fold f xs s)"
  by (induction xs arbitrary: s) (auto intro!: rt_rules)

section \<open>What a computation leaves alone\<close>

definition rt_keeps :: "('r \<Rightarrow> 'x) \<Rightarrow> ('r, 'a) rt \<Rightarrow> bool" where
  \<comment> \<open>a part of the state the computation does not change\<close>
  "rt_keeps g m \<longleftrightarrow> (\<forall>st tr. g (fst (snd (m (st, tr)))) = g st)"

lemma rt_keeps_pure [rt_rules]:
  "rt_keeps g (rt_ret x)" "rt_keeps g (rt_raise e)" "rt_keeps g (rt_py p)" "rt_keeps g (rt_lift l)"
  "rt_keeps g (rt_read f)" "rt_keeps g (rt_host m)"
  by (auto simp: rt_keeps_def rt_defs rt_read_def split: sum.splits prod.splits)

lemma rt_keeps_bind [rt_rules]:
  assumes "rt_keeps g m" and "\<And>x. rt_keeps g (f x)"
  shows "rt_keeps g (rt_bind m f)"
  unfolding rt_keeps_def
proof (intro allI)
  fix st tr
  obtain v st1 tr1 where "m (st, tr) = (v, st1, tr1)" by (cases "m (st, tr)") auto
  moreover from this have "g st1 = g st" using assms(1) unfolding rt_keeps_def by (metis fst_conv snd_conv)
  ultimately show "g (fst (snd (rt_bind m f (st, tr)))) = g st"
    using assms(2) unfolding rt_keeps_def by (cases v) (auto simp: rt_bind_def)
qed

lemma rt_keeps_try [rt_rules]:
  assumes "rt_keeps g m" and "\<And>e. rt_keeps g (h e)"
  shows "rt_keeps g (rt_try m h)"
  unfolding rt_keeps_def
proof (intro allI)
  fix st tr
  obtain v st1 tr1 where "m (st, tr) = (v, st1, tr1)" by (cases "m (st, tr)") auto
  moreover from this have "g st1 = g st" using assms(1) unfolding rt_keeps_def by (metis fst_conv snd_conv)
  ultimately show "g (fst (snd (rt_try m h (st, tr)))) = g st"
    using assms(2) unfolding rt_keeps_def by (cases v) (auto simp: rt_try_def)
qed

lemma rt_keeps_if [rt_rules]:
  "(b \<Longrightarrow> rt_keeps g m) \<Longrightarrow> (\<not> b \<Longrightarrow> rt_keeps g n) \<Longrightarrow> rt_keeps g (if b then m else n)"
  by simp

lemma rt_keeps_each [rt_rules]: "(\<And>x. x \<in> set xs \<Longrightarrow> rt_keeps g (f x)) \<Longrightarrow> rt_keeps g (rt_each f xs)"
  by (induction xs) (auto intro!: rt_rules)

lemma rt_keeps_map [rt_rules]: "(\<And>x. x \<in> set xs \<Longrightarrow> rt_keeps g (f x)) \<Longrightarrow> rt_keeps g (rt_map f xs)"
  by (induction xs) (auto intro!: rt_rules)

lemma rt_bind_cases:
  assumes "rt_bind m f s = (v, s')"
  obtains (failed) e where "m s = (Inl e, s')" "v = Inl e"
        | (went_on) x s1 where "m s = (Inr x, s1)" "f x s1 = (v, s')"
  using assms by (auto simp: rt_bind_def split: prod.splits sum.splits)

lemma rt_kept:
  "rt_keeps id m \<Longrightarrow> m (st, tr) = (v, st', tr') \<Longrightarrow> st' = st"
  unfolding rt_keeps_def by (metis fst_conv id_apply snd_conv)

lemma rt_bind_kept:
  assumes "rt_bind m f (st, tr) = (v, st', tr')" and "rt_keeps id m"
  shows "(\<exists>e. v = Inl e \<and> st' = st) \<or> (\<exists>x tr1. m (st, tr) = (Inr x, st, tr1) \<and> f x (st, tr1) = (v, st', tr'))"
  using assms(1)
proof (cases rule: rt_bind_cases)
  case (went_on x s1)
  then show ?thesis using rt_kept [OF assms(2), of st tr "Inr x" "fst s1" "snd s1"] by (cases s1) auto
qed (use rt_kept [OF assms(2)] in blast)

lemma rt_keptE:
  assumes "rt_bind m f (st, tr) = (v, st', tr')" and "rt_keeps id m"
  obtains e where "v = Inl e" "st' = st" | x tr1 where "f x (st, tr1) = (v, st', tr')"
  using rt_bind_kept [OF assms] by blast

end
