(* ===== verification/Link_Attach.thy ===== *)
theory Link_Attach
  imports Link_Topology Runtime_Monad
begin

text \<open>
  The hot-attach pass of a link creation (\<open>LinkService._hot_attach_running_endpoints\<close>): the ends
  on running nodes, their bridges and the provisioning of missing ones, the healing of stale
  attachments, the attach calls with the generation stamps they leave in the document, and the
  sweep after the first failure. The operations of the node runtime service are parameters.

  The lemmas show that stamping does not change the wiring.
\<close>

record 'r node_ops =
  op_record :: "string \<Rightarrow> int \<Rightarrow> bool \<Rightarrow> ('r, json option) rt"
  op_attach_docker :: "string \<Rightarrow> int \<Rightarrow> int \<Rightarrow> int \<Rightarrow> string \<Rightarrow> ('r, json) rt"
  op_attach_qemu :: "string \<Rightarrow> int \<Rightarrow> int \<Rightarrow> int \<Rightarrow> string \<Rightarrow> ('r, json) rt"
  op_detach_docker :: "string \<Rightarrow> int \<Rightarrow> int \<Rightarrow> int option \<Rightarrow> ('r, unit) rt"
  op_detach_qemu :: "string \<Rightarrow> int \<Rightarrow> int \<Rightarrow> int option \<Rightarrow> ('r, unit) rt"
  op_set_nic_link :: "string \<Rightarrow> int \<Rightarrow> int \<Rightarrow> bool \<Rightarrow> ('r, unit) rt"
  op_qmp :: "string \<Rightarrow> string \<Rightarrow> json \<Rightarrow> ('r, unit) rt"
  op_persist :: "json \<Rightarrow> ('r, unit) rt"
  op_reconcile :: "string \<Rightarrow> json \<Rightarrow> json \<Rightarrow> ('r, unit) rt"
  op_now :: string

section \<open>Targets\<close>

definition link_target :: "json \<Rightarrow> py_exc + (int \<times> int \<times> int) option" where
  \<comment> \<open>node, interface and network of a link between a node and a network\<close>
  "link_target l =
     bindr (pget l ''from'' JNull) (\<lambda>a. bindr (pget l ''to'' JNull) (\<lambda>b.
       Inr (case pick_ends [a, b] of
         (Some ne, Some we) \<Rightarrow>
           (case (py_int (jget0 ne ''node_id''), py_int (jget ne ''interface_index'' (JInt 0)), py_int (jget0 we ''network_id'')) of
              (Inr n, Inr i, Inr w) \<Rightarrow> Some (n, i, w) | _ \<Rightarrow> None)
       | _ \<Rightarrow> None)))"

definition candidate :: "'r node_ops \<Rightarrow> string \<Rightarrow> json \<Rightarrow> ('r, (int \<times> int \<times> int \<times> string) option) rt" where
  \<comment> \<open>only nodes of a kind with hot attach that are running\<close>
  "candidate ops lab l =
     rt_bind (rt_py (link_target l)) (\<lambda>t.
       case t of None \<Rightarrow> rt_ret None
       | Some (n, i, w) \<Rightarrow> rt_bind (op_record ops lab n False) (\<lambda>r.
           case r of None \<Rightarrow> rt_ret None
           | Some runtime \<Rightarrow>
               (let kind = py_str (jor (jget0 runtime ''kind'') (JStr [])) in
                rt_ret (if kind = ''docker'' \<or> kind = ''qemu'' then Some (n, i, w, kind) else None))))"

definition networks_of :: "json \<Rightarrow> json" where
  "networks_of data = jor (jget0 data ''networks'') (JObj [])"

definition recorded_bridge :: "json \<Rightarrow> py_exc + string option" where
  \<comment> \<open>\<open>record.runtime.bridge_name\<close> when it is a non-empty string\<close>
  "recorded_bridge net =
     (if \<not> is_obj net then Inr None
      else bindr (pget (jor (jget0 net ''runtime'') (JObj [])) ''bridge_name'' JNull) (\<lambda>b.
        Inr (case b of JStr s \<Rightarrow> if s = [] then None else Some s | _ \<Rightarrow> None)))"

definition resolve_bridge_name ::
    "host_cfg \<Rightarrow> string \<Rightarrow> int \<Rightarrow> json \<Rightarrow> (int \<times> string) option \<Rightarrow> ('r, string) rt" where
  "resolve_bridge_name c lab n networks implicit =
     (if map_option fst implicit = Some n then rt_ret (snd (the implicit))
      else rt_bind (rt_py (bindr (pget networks (dec_int n) JNull) recorded_bridge)) (\<lambda>b.
        case b of Some s \<Rightarrow> rt_ret s | None \<Rightarrow> rt_lift (bridge_name c lab n)))"

type_synonym target = "int \<times> int \<times> int \<times> string \<times> string"

definition attach_targets ::
    "'r node_ops \<Rightarrow> host_env \<Rightarrow> string \<Rightarrow> json \<Rightarrow> (int \<times> string) option \<Rightarrow> (int \<times> int \<times> int \<times> string) list \<Rightarrow> ('r, target list) rt" where
  "attach_targets ops h lab data implicit pending =
     rt_map (\<lambda>(n, i, w, kind).
       rt_bind (resolve_bridge_name (cfg h) lab w (networks_of data) implicit) (\<lambda>b. rt_ret (n, i, w, b, kind))) pending"

section \<open>Provisioning of bridges\<close>

definition ensure_bridge :: "host_env \<Rightarrow> string \<Rightarrow> ('r, bool) rt" where
  \<comment> \<open>true when the bridge was added\<close>
  "ensure_bridge h b =
     rt_bind (rt_host (bridge_exists h b)) (\<lambda>there.
       if there then rt_ret False else rt_bind (rt_host (bridge_add h b)) (\<lambda>_. rt_ret True))"

definition network_driver :: "json \<Rightarrow> int \<Rightarrow> py_exc + json" where
  "network_driver data n =
     bindr (pget (networks_of data) (dec_int n) JNull) (\<lambda>r.
     bindr (pget (jor r (JObj [])) ''runtime'' JNull) (\<lambda>rt. pget (jor rt (JObj [])) ''driver'' JNull))"

definition provision_explicit ::
    "'r node_ops \<Rightarrow> host_env \<Rightarrow> string \<Rightarrow> json \<Rightarrow> int option \<Rightarrow> target \<Rightarrow> string list \<times> string list \<Rightarrow> ('r, string list \<times> string list) rt" where
  \<comment> \<open>one round of the loop over the targets: the bridges seen and the bridges added\<close>
  "provision_explicit ops h lab data implicit_id tgt acc =
     (case (tgt, acc) of ((n, i, w, b, kind), (seen, added)) \<Rightarrow>
        if implicit_id = Some w \<or> b \<in> set seen then rt_ret (seen, added)
        else rt_bind (rt_py (network_driver data w)) (\<lambda>driver.
          if py_eq driver (JStr BRIDGE_CLOUD_TYPE)
          then rt_bind (rt_host (bridge_exists h b)) (\<lambda>there.
                 if there then rt_ret (seen @ [b], added)
                 else rt_raise (RtHost (HostNetError 0 (''host bridge '' @ py_repr (JStr b) @ '' missing''))))
          else rt_bind (ensure_bridge h b) (\<lambda>new.
                 if \<not> new then rt_ret (seen @ [b], added)
                 else rt_bind (rt_ignore is_host_net_error
                        (rt_host (bridge_fingerprint_write h b lab w (op_now ops)))) (\<lambda>_.
                      rt_ret (seen @ [b], added @ [b])))))"

definition provision_bridges ::
    "'r node_ops \<Rightarrow> host_env \<Rightarrow> string \<Rightarrow> json \<Rightarrow> (int \<times> string) option \<Rightarrow> target list \<Rightarrow> ('r, string list) rt" where
  \<comment> \<open>the bridges added by this pass\<close>
  "provision_bridges ops h lab data implicit tgts =
     rt_bind (case implicit of
         None \<Rightarrow> rt_ret []
       | Some (m, b) \<Rightarrow>
           if list_ex (\<lambda>(n, i, w, b', k). w = m) tgts
           then rt_bind (ensure_bridge h b) (\<lambda>new. rt_ret (if new then [b] else [])) else rt_ret []) (\<lambda>added0.
     rt_bind (rt_fold (provision_explicit ops h lab data (map_option fst implicit)) tgts ([], added0)) (\<lambda>(seen, added).
       rt_ret added))"

section \<open>Healing of stale attachments\<close>

definition end_wires :: "int \<Rightarrow> int \<Rightarrow> int \<Rightarrow> json \<Rightarrow> bool \<times> bool" where
  \<comment> \<open>whether an end is the interface and whether it is the network; unreadable numbers are neither\<close>
  "end_wires n i w ep =
     (if \<not> is_obj ep then (False, False)
      else if jhas ep ''node_id'' then
        (py_int (jget0 ep ''node_id'') = Inr n \<and> py_int (jget ep ''interface_index'' (JInt 0)) = Inr i, False)
      else if jhas ep ''network_id'' then (False, py_int (jget0 ep ''network_id'') = Inr w)
      else (False, False))"

definition link_references_endpoint :: "json \<Rightarrow> int \<Rightarrow> int \<Rightarrow> int \<Rightarrow> py_exc + bool" where
  "link_references_endpoint data n i w =
     bindr (link_list data) (\<lambda>ls. Inr (list_ex (\<lambda>l.
       is_obj l \<and> (let x = end_wires n i w (jget0 l ''from''); y = end_wires n i w (jget0 l ''to'')
                    in (fst x \<or> fst y) \<and> (snd x \<or> snd y))) ls))"

definition stale_network :: "json \<Rightarrow> int \<Rightarrow> int \<Rightarrow> int \<Rightarrow> json \<Rightarrow> py_exc + int option" where
  \<comment> \<open>the network of an attachment entry that no link backs\<close>
  "stale_network data n i w entry =
     bindr (pget entry ''interface_index'' (JInt (- 1))) (\<lambda>vi.
     bindr (pget entry ''network_id'' (JInt (- 1))) (\<lambda>vw.
       case (py_int vi, py_int vw) of
         (Inr j, Inr m) \<Rightarrow>
           if j \<noteq> i \<or> m = w then Inr None
           else bindr (link_references_endpoint data n i m) (\<lambda>used. Inr (if used then None else Some m))
       | _ \<Rightarrow> Inr None))"

definition heal_target :: "'r node_ops \<Rightarrow> string \<Rightarrow> json \<Rightarrow> target \<Rightarrow> ('r, unit) rt" where
  "heal_target ops lab data tgt =
     (case tgt of (n, i, w, b, kind) \<Rightarrow>
        rt_bind (op_record ops lab n True) (\<lambda>r.
          case r of None \<Rightarrow> rt_ret ()
          | Some runtime \<Rightarrow>
              rt_bind (rt_py (bindr (piter (jor (jget0 runtime ''interface_attachments'') (JList [])))
                 (mapr (stale_network data n i w)))) (\<lambda>stale.
              rt_each (\<lambda>m. rt_ignore is_runtime_error
                 (if kind = ''docker'' then op_detach_docker ops lab n i None else op_detach_qemu ops lab n i None))
                (List.map_filter id stale))))"

section \<open>Generation stamps\<close>

definition stamps_node :: "int \<Rightarrow> int \<Rightarrow> json \<Rightarrow> py_exc + bool" where
  "stamps_node n i ep =
     (if \<not> is_obj ep \<or> \<not> jhas ep ''node_id'' then Inr False
      else bindr (py_int (jget0 ep ''node_id'')) (\<lambda>m.
        if m \<noteq> n then Inr False
        else bindr (py_int (jget ep ''interface_index'' (JInt (- 1)))) (\<lambda>j. Inr (j = i))))"

definition stamps_network :: "int \<Rightarrow> json \<Rightarrow> py_exc + bool" where
  "stamps_network w ep =
     (if \<not> is_obj ep \<or> \<not> jhas ep ''network_id'' then Inr False
      else bindr (py_int (jget0 ep ''network_id'')) (\<lambda>m. Inr (m = w)))"

definition stamps_link :: "int \<Rightarrow> int \<Rightarrow> int \<Rightarrow> json \<Rightarrow> py_exc + bool" where
  "stamps_link n i w l =
     bindr (pget l ''from'' JNull) (\<lambda>a. bindr (pget l ''to'' JNull) (\<lambda>b.
     bindr (stamps_node n i a) (\<lambda>na. bindr (stamps_network w a) (\<lambda>wa.
     bindr (stamps_node n i b) (\<lambda>nb. bindr (stamps_network w b) (\<lambda>wb.
       Inr ((na \<or> nb) \<and> (wa \<or> wb))))))))"

definition set_stamp :: "string \<Rightarrow> int \<Rightarrow> json \<Rightarrow> py_exc + json" where
  \<comment> \<open>\<open>v.setdefault("runtime", {})[field] = generation\<close>\<close>
  "set_stamp f g v =
     (let r = jget v ''runtime'' (JObj []) in
      if is_obj r then Inr (jset ''runtime'' (jset f (JInt g) r) v) else Inl PyTypeError)"

fun stamp_links :: "int \<Rightarrow> int \<Rightarrow> int \<Rightarrow> int \<Rightarrow> json list \<Rightarrow> py_exc + json list" where
  \<comment> \<open>the first matching link\<close>
  "stamp_links n i w g [] = Inr []"
| "stamp_links n i w g (l # ls) =
     bindr (stamps_link n i w l) (\<lambda>m.
       if m then bindr (set_stamp ''attach_generation'' g l) (\<lambda>l'. Inr (l' # ls))
       else bindr (stamp_links n i w g ls) (\<lambda>ls'. Inr (l # ls')))"

fun stamp_ifaces :: "int \<Rightarrow> int \<Rightarrow> json list \<Rightarrow> py_exc + json list" where
  \<comment> \<open>the first interface with the index\<close>
  "stamp_ifaces i g [] = Inr []"
| "stamp_ifaces i g (v # vs) =
     (if \<not> is_obj v then bindr (stamp_ifaces i g vs) (\<lambda>vs'. Inr (v # vs'))
      else bindr (py_int (jget v ''index'' (JInt (- 1)))) (\<lambda>j.
        if j = i then bindr (set_stamp ''current_attach_generation'' g v) (\<lambda>v'. Inr (v' # vs))
        else bindr (stamp_ifaces i g vs) (\<lambda>vs'. Inr (v # vs'))))"

definition stamp_node :: "int \<Rightarrow> int \<Rightarrow> int \<Rightarrow> json \<Rightarrow> py_exc + json" where
  "stamp_node n i g data =
     (let nodes = jor (jget0 data ''nodes'') (JObj []) in
      bindr (pget nodes (dec_int n) JNull) (\<lambda>nd.
        if \<not> is_obj nd then Inr data
        else (case jor (jget0 nd ''interfaces'') (JList []) of
           JList vs \<Rightarrow> bindr (stamp_ifaces i g vs) (\<lambda>vs'.
             Inr (if vs' = vs then data
                  else jset ''nodes'' (jset (dec_int n) (jset ''interfaces'' (JList vs') nd) nodes) data))
         | v \<Rightarrow> bindr (piter v) (\<lambda>_. Inr data))))"

definition stamp_link_attach_generation :: "json \<Rightarrow> int \<Rightarrow> int \<Rightarrow> int \<Rightarrow> int \<Rightarrow> py_exc + json" where
  "stamp_link_attach_generation data n i w g =
     bindr (link_list data) (\<lambda>ls.
     bindr (stamp_links n i w g ls) (\<lambda>ls'.
       stamp_node n i g (if ls' = ls then data else jset ''links'' (JList ls') data)))"

section \<open>Attaching\<close>

record attach_state =
  as_data :: json
  as_attached :: "(int \<times> int \<times> string) list"
  as_raise :: "string list"

definition attach_one :: "'r node_ops \<Rightarrow> string \<Rightarrow> target \<Rightarrow> attach_state \<Rightarrow> ('r, rt_error option \<times> attach_state) rt" where
  \<comment> \<open>one round of the loop: an error comes with what was attached before it\<close>
  "attach_one ops lab tgt st s =
     (case tgt of (n, i, w, b, kind) \<Rightarrow>
       (case (if kind = ''docker'' then op_attach_docker ops lab n w i b else op_attach_qemu ops lab n w i b) s of
          (Inl e, s1) \<Rightarrow> (Inr (Some e, st), s1)
        | (Inr attachment, s1) \<Rightarrow>
            (let st1 = st\<lparr>as_attached := as_attached st @ [(n, i, kind)],
                          as_raise := (if b \<in> set (as_raise st) then as_raise st else as_raise st @ [b])\<rparr>
             in case bindr (pget attachment ''attach_generation'' (JInt 0)) (\<lambda>v. bindr (py_int v) (\<lambda>g.
                    stamp_link_attach_generation (as_data st1) n i w g)) of
                  Inl e \<Rightarrow> (Inr (Some (RtHost (Py e)), st1), s1)
                | Inr data \<Rightarrow>
                    (let st2 = st1\<lparr>as_data := data\<rparr>
                     in if kind \<noteq> ''qemu'' then (Inr (None, st2), s1)
                        else case op_set_nic_link ops lab n i True s1 of
                               (Inl e, s2) \<Rightarrow> (Inr (Some e, st2), s2)
                             | (Inr u, s2) \<Rightarrow> (Inr (None, st2), s2)))))"

fun attach_all :: "'r node_ops \<Rightarrow> string \<Rightarrow> target list \<Rightarrow> attach_state \<Rightarrow> ('r, rt_error option \<times> attach_state) rt" where
  "attach_all ops lab [] st = rt_ret (None, st)"
| "attach_all ops lab (t # ts) st =
     rt_bind (attach_one ops lab t st) (\<lambda>(e, st1).
       case e of None \<Rightarrow> attach_all ops lab ts st1 | Some e \<Rightarrow> rt_ret (Some e, st1))"

section \<open>The sweep after a failure\<close>

definition without_iface :: "int \<Rightarrow> json \<Rightarrow> py_exc + json" where
  \<comment> \<open>the attachment entries of other interfaces\<close>
  "without_iface i runtime =
     bindr (piter (jor (jget0 runtime ''interface_attachments'') (JList []))) (\<lambda>xs.
     bindr (mapr (\<lambda>a. bindr (pget a ''interface_index'' (JInt (- 1))) (\<lambda>v. bindr (py_int v) (\<lambda>j. Inr (a, j)))) xs) (\<lambda>ys.
       Inr (JList (map fst (filter (\<lambda>(a, j). j \<noteq> i) ys)))))"

definition without_name :: "string \<Rightarrow> string \<Rightarrow> json \<Rightarrow> py_exc + json" where
  "without_name field name runtime =
     bindr (piter (jor (jget0 runtime field) (JList []))) (\<lambda>xs.
       Inr (JList (filter (\<lambda>x. \<not> py_eq x (JStr name)) xs)))"

definition forget_attachment :: "'r node_ops \<Rightarrow> int \<Rightarrow> string \<Rightarrow> string \<Rightarrow> json \<Rightarrow> ('r, unit) rt" where
  "forget_attachment ops i field name runtime =
     rt_bind (rt_py (without_iface i runtime)) (\<lambda>atts.
     rt_bind (rt_py (without_name field name runtime)) (\<lambda>names.
       op_persist ops (jset field names (jset ''interface_attachments'' atts runtime))))"

definition detach_attached :: "'r node_ops \<Rightarrow> host_env \<Rightarrow> string \<Rightarrow> int \<times> int \<times> string \<Rightarrow> ('r, unit) rt" where
  "detach_attached ops h lab att =
     (case att of (n, i, kind) \<Rightarrow>
        if kind = ''docker'' then
          rt_bind (rt_lift (veth_host_name (cfg h) lab n i)) (\<lambda>host_end.
          rt_bind (rt_host (try_link_del h host_end)) (\<lambda>_.
          rt_bind (op_record ops lab n False) (\<lambda>r.
            case r of None \<Rightarrow> rt_ret ()
            | Some runtime \<Rightarrow> forget_attachment ops i ''veth_host_ends'' host_end runtime)))
        else if kind = ''qemu'' then
          rt_bind (op_record ops lab n False) (\<lambda>r.
            case r of None \<Rightarrow> rt_ret ()
            | Some runtime \<Rightarrow>
                rt_bind (rt_lift (tap_name (cfg h) lab n i)) (\<lambda>tap.
                rt_bind (case jor (jget0 runtime ''qmp_socket'') (JStr []) of
                     JStr sock \<Rightarrow>
                       if sock = [] then rt_ret ()
                       else rt_bind (rt_ignore (\<lambda>_. True) (op_qmp ops sock ''device_del'' (JObj [(''id'', JStr (''dev'' @ dec_int i))]))) (\<lambda>_.
                            rt_ignore (\<lambda>_. True) (op_qmp ops sock ''netdev_del'' (JObj [(''id'', JStr (''net'' @ dec_int i))])))
                   | _ \<Rightarrow> rt_ret ()) (\<lambda>_.
                rt_bind (rt_ignore (\<lambda>_. True) (rt_host (link_set_nomaster h tap))) (\<lambda>_.
                rt_bind (rt_host (try_link_del h tap)) (\<lambda>_.
                  forget_attachment ops i ''tap_names'' tap runtime)))))
        else rt_ret ())"

definition sweep_failed :: "'r node_ops \<Rightarrow> host_env \<Rightarrow> string \<Rightarrow> (int \<times> int \<times> string) list \<Rightarrow> string list \<Rightarrow> ('r, unit) rt" where
  "sweep_failed ops h lab attached added =
     rt_bind (rt_each (detach_attached ops h lab) attached) (\<lambda>_.
       rt_each (\<lambda>b. rt_ignore is_host_net_error (rt_host (bridge_del h b))) added)"

section \<open>The pass\<close>

definition attach_lab_id :: "string \<Rightarrow> json \<Rightarrow> string" where
  "attach_lab_id path data = py_str (jor (jget0 data ''id'') (JStr path))"

definition hot_attach :: "'r node_ops \<Rightarrow> host_env \<Rightarrow> string \<Rightarrow> json \<Rightarrow> int option \<Rightarrow> json list \<Rightarrow> ('r, json \<times> bool) rt" where
  \<comment> \<open>the document with its stamps, and whether there are any\<close>
  "hot_attach ops h path data implicit links =
     (let lab = attach_lab_id path data in
      rt_bind (rt_map (candidate ops lab) links) (\<lambda>cands.
      let pending = List.map_filter id cands in
      if pending = [] then rt_ret (data, False)
      else
        rt_bind (case implicit of None \<Rightarrow> rt_ret None
                 | Some m \<Rightarrow> rt_bind (rt_lift (bridge_name (cfg h) lab m)) (\<lambda>b. rt_ret (Some (m, b)))) (\<lambda>resolved.
        rt_bind (attach_targets ops h lab data resolved pending) (\<lambda>tgts.
        rt_bind (provision_bridges ops h lab data resolved tgts) (\<lambda>added.
        rt_bind (rt_each (heal_target ops lab data) tgts) (\<lambda>_.
        rt_bind (attach_all ops lab tgts \<lparr>as_data = data, as_attached = [], as_raise = []\<rparr>) (\<lambda>(failed, st).
          case failed of
            Some e \<Rightarrow>
              if is_runtime_error e
              then rt_bind (sweep_failed ops h lab (as_attached st) added) (\<lambda>_. rt_raise e)
              else rt_raise e
          | None \<Rightarrow>
              rt_bind (rt_each (\<lambda>b. rt_ignore is_host_net_error (rt_host (link_up h b))) (as_raise st)) (\<lambda>_.
                rt_ret (as_data st, as_attached st \<noteq> [])))))))))"

section \<open>Stamps leave the wiring\<close>

lemma parse_link_runtime [simp]: "is_obj l \<Longrightarrow> parse_link (jset ''runtime'' v l) = parse_link l"
  by (simp add: parse_link_def)

lemma stamp_links_parsed:
  "stamp_links n i w g ls = Inr ls' \<Longrightarrow> map parse_link ls' = map parse_link ls"
proof (induction ls arbitrary: ls')
  case (Cons l ls)
  show ?case
  proof (cases "stamps_link n i w l = Inr True")
    case True
    then have "is_obj l" by (auto simp: stamps_link_def bindr_simps)
    then show ?thesis using Cons.prems True by (auto simp: set_stamp_def Let_def bindr_simps split: if_splits)
  qed (use Cons in \<open>auto simp: bindr_simps split: if_splits\<close>)
qed simp

lemma abs_topo_nodes [simp]: "is_obj data \<Longrightarrow> abs_topo (jset ''nodes'' v data) = abs_topo data"
  by (auto simp: abs_topo_def split: json.splits)

definition wiring_is :: "topo \<Rightarrow> bool \<Rightarrow> json \<Rightarrow> bool" where
  \<comment> \<open>the abstract state of a document and whether it has the networks key\<close>
  "wiring_is t b data \<longleftrightarrow> abs_topo data = Some t \<and> jhas data ''networks'' = b"

lemma stamp_node_wiring: "stamp_node n i g data = Inr data' \<Longrightarrow> is_obj data \<Longrightarrow> wiring_is t b data \<Longrightarrow> wiring_is t b data'"
  by (auto simp: stamp_node_def Let_def bindr_simps wiring_is_def split: json.splits if_splits)

lemma stamp_wiring:
  assumes "stamp_link_attach_generation data n i w g = Inr data'" and "wiring_is t b data"
  shows "wiring_is t b data'"
proof -
  obtain ls ls' where l: "link_list data = Inr ls" "stamp_links n i w g ls = Inr ls'"
      "stamp_node n i g (if ls' = ls then data else jset ''links'' (JList ls') data) = Inr data'"
    using assms(1) by (auto simp: stamp_link_attach_generation_def bindr_simps)
  obtain ls0 nets where d: "jget data ''links'' (JList []) = JList ls0" "jget data ''networks'' (JObj []) = JObj nets" "is_obj data"
    using assms(2) by (auto simp: wiring_is_def abs_topo_def split: json.splits if_splits)
  then have "ls0 = ls" using l(1) by (auto simp: link_list_def jor_def split: if_splits)
  then have "abs_topo (jset ''links'' (JList ls') data) = abs_topo data"
    using d stamp_links_parsed [OF l(2)] by (simp add: abs_topo_def)
  then have "wiring_is t b (if ls' = ls then data else jset ''links'' (JList ls') data)"
    using assms(2) by (simp add: wiring_is_def)
  then show ?thesis using stamp_node_wiring [OF l(3)] d(3) by auto
qed

lemma attach_one_wiring:
  "attach_one ops lab tgt st s = (Inr (e, st'), s') \<Longrightarrow> wiring_is t b (as_data st) \<Longrightarrow> wiring_is t b (as_data st')"
  by (auto simp: attach_one_def Let_def bindr_simps stamp_wiring split: prod.splits sum.splits if_splits)

lemma attach_all_wiring:
  "attach_all ops lab ts st s = (Inr (e, st'), s') \<Longrightarrow> wiring_is t b (as_data st) \<Longrightarrow> wiring_is t b (as_data st')"
  by (induction ts arbitrary: st s)
    (auto simp: rt_ret_def rt_bind_Inr dest: attach_one_wiring split: option.splits prod.splits)

lemma hot_attach_wiring:
  assumes "hot_attach ops h path data implicit links s = (Inr (data', stamped), s')" and "wiring_is t b data"
  shows "wiring_is t b data'"
proof -
  define st0 where "st0 = \<lparr>as_data = data, as_attached = [], as_raise = []\<rparr>"
  have "wiring_is t b (as_data st0)" using assms(2) by (simp add: st0_def)
  then show ?thesis
    using assms(1,2) unfolding hot_attach_def Let_def st0_def [symmetric]
    by (auto simp: rt_bind_Inr rt_ret_def rt_raise_def dest: attach_all_wiring split: if_splits option.splits prod.splits)
qed

end
