(* ===== verification/Link_Remove.thy ===== *)
theory Link_Remove
  imports Link_Topology
begin

text \<open>
  Removal of a link from the lab document (the fourth phase of \<open>LinkService.delete_link\<close>): the
  link goes, the other half of an implicit network that is left with one end goes with it, and
  implicit networks without ends are collected. The edit of a link's presentation
  (\<open>patch_link\<close>) is here too.

  The lemmas show that removal refines the abstract operation and that an edit leaves the wiring.
\<close>

section \<open>Removal\<close>

definition has_id :: "string \<Rightarrow> json \<Rightarrow> py_exc + bool" where
  "has_id lid l = bindr (pget l ''id'' JNull) (\<lambda>v. Inr (py_str v = lid))"

fun split_first :: "('a \<Rightarrow> 'e + bool) \<Rightarrow> 'a list \<Rightarrow> 'e + ('a \<times> 'a list) option" where
  \<comment> \<open>the first match and the list without it; the test may fail before\<close>
  "split_first p [] = Inr None"
| "split_first p (x # xs) =
     bindr (p x) (\<lambda>b. if b then Inr (Some (x, xs))
       else bindr (split_first p xs) (\<lambda>r. Inr (map_option (\<lambda>(y, ys). (y, x # ys)) r)))"

definition referenced_network :: "json \<Rightarrow> py_exc + int list" where
  "referenced_network ep =
     (if is_obj ep \<and> jhas ep ''network_id'' then bindr (py_int (jget0 ep ''network_id'')) (\<lambda>n. Inr [n]) else Inr [])"

definition referenced_networks :: "json \<Rightarrow> py_exc + int list" where
  "referenced_networks l =
     bindr (pget l ''from'' JNull) (\<lambda>a. bindr (pget l ''to'' JNull) (\<lambda>b.
     bindr (referenced_network a) (\<lambda>x. bindr (referenced_network b) (\<lambda>y. Inr (x @ y)))))"

definition on_network :: "int \<Rightarrow> json \<Rightarrow> py_exc + bool" where
  \<comment> \<open>whether a link has an end on the network; the ends are read in order\<close>
  "on_network n l =
     (if \<not> is_obj l then Inr False
      else bindr (referenced_network (jget0 l ''from'')) (\<lambda>x.
        if x = [n] then Inr True
        else bindr (referenced_network (jget0 l ''to'')) (\<lambda>y. Inr (y = [n]))))"

definition is_implicit :: "json \<Rightarrow> int \<Rightarrow> py_exc + bool" where
  "is_implicit networks n =
     bindr (pget networks (dec_int n) JNull) (\<lambda>r. Inr (is_obj r \<and> jget0 r ''implicit'' = JBool True))"

definition deleted_event :: "string \<Rightarrow> string \<times> json" where
  "deleted_event lid = (''link_deleted'', JObj [(''link_id'', JStr lid)])"

type_synonym events = "(string \<times> json) list"

definition cascade_link :: "json \<Rightarrow> int \<Rightarrow> json \<times> events \<Rightarrow> py_exc + json \<times> events" where
  \<comment> \<open>one round of the loop that drops the other half of an implicit network\<close>
  "cascade_link networks n acc =
     (case acc of (data, evs) \<Rightarrow>
        bindr (is_implicit networks n) (\<lambda>imp.
          if \<not> imp then Inr (data, evs)
          else bindr (refcount data n) (\<lambda>c.
            if c \<noteq> 1 then Inr (data, evs)
            else bindr (link_list data) (\<lambda>ls. bindr (split_first (on_network n) ls) (\<lambda>r.
              Inr (case r of None \<Rightarrow> (data, evs)
                | Some (l, rest) \<Rightarrow>
                    (jset ''links'' (JList rest) data, evs @ [deleted_event (py_str (jget0 l ''id''))])))))))"

definition collect_network :: "json \<Rightarrow> int \<Rightarrow> json \<times> json option \<times> events \<Rightarrow> py_exc + json \<times> json option \<times> events" where
  \<comment> \<open>one round of the loop that drops implicit networks without ends\<close>
  "collect_network data n acc =
     (case acc of (networks, gone, evs) \<Rightarrow>
        bindr (is_implicit networks n) (\<lambda>imp.
          if \<not> imp then Inr (networks, gone, evs)
          else bindr (refcount data n) (\<lambda>c.
            if c \<noteq> 0 then Inr (networks, gone, evs)
            else (let r = jget0 networks (dec_int n) in
              Inr (jdel (dec_int n) networks, Some r, evs @ [(''network_deleted'', JObj [(''network'', r)])])))))"

definition remove_link :: "json \<Rightarrow> string \<Rightarrow> py_exc + (json \<times> json option \<times> events) option" where
  \<comment> \<open>\<open>None\<close> when the link is not there any more\<close>
  "remove_link data lid =
     bindr (link_list data) (\<lambda>ls.
     let networks = jor (jget data ''networks'' (JObj [])) (JObj []) in
     bindr (split_first (has_id lid) ls) (\<lambda>r.
       case r of
         None \<Rightarrow> Inr None
       | Some (l, rest) \<Rightarrow>
           bindr (referenced_networks l) (\<lambda>ns.
           bindr (forr (cascade_link networks) ns (jset ''links'' (JList rest) data, [])) (\<lambda>(data1, evs1).
           bindr (forr (collect_network data1) ns (networks, None, evs1)) (\<lambda>(networks', gone, evs2).
             Inr (Some (jdel ''topology'' (jset ''networks'' networks' data1), gone, evs2 @ [deleted_event lid])))))))"

section \<open>Edits\<close>

definition PATCH_FIELDS :: "string list" where
  "PATCH_FIELDS = [''style_override'', ''endpoint_positions'', ''label'', ''color'', ''width'', ''metrics'']"

definition patched :: "(string \<times> json) list \<Rightarrow> json \<Rightarrow> json" where
  "patched patch l = fold (\<lambda>(k, v) l. if k \<in> set PATCH_FIELDS then jset k v l else l) patch l"

fun edit_first :: "('a \<Rightarrow> 'e + bool) \<Rightarrow> ('a \<Rightarrow> 'a) \<Rightarrow> 'a list \<Rightarrow> 'e + ('a \<times> 'a list) option" where
  "edit_first p f [] = Inr None"
| "edit_first p f (x # xs) =
     bindr (p x) (\<lambda>b. if b then Inr (Some (f x, f x # xs))
       else bindr (edit_first p f xs) (\<lambda>r. Inr (map_option (\<lambda>(y, ys). (y, x # ys)) r)))"

definition edit_link :: "json \<Rightarrow> string \<Rightarrow> (string \<times> json) list \<Rightarrow> py_exc + (json \<times> json) option" where
  \<comment> \<open>the edited link and the document to write\<close>
  "edit_link data lid patch =
     bindr (link_list data) (\<lambda>ls. bindr (edit_first (has_id lid) (patched patch) ls) (\<lambda>r.
       Inr (map_option (\<lambda>(l, ls'). (l, jdel ''topology'' (jset ''links'' (JList ls') data))) r)))"

section \<open>Removal refines the specification\<close>

lemma split_first_parsed:
  assumes "map parse_link ls = map Some xs"
    and "\<And>l x. parse_link l = Some x \<Longrightarrow> p l = Inr (q x)"
  shows "case List.find q xs of
       None \<Rightarrow> split_first p ls = Inr None
     | Some x \<Rightarrow> \<exists>l rest. split_first p ls = Inr (Some (l, rest)) \<and> parse_link l = Some x \<and>
         map parse_link rest = map Some (drop_first q xs)"
  using assms(1)
proof (induction ls arbitrary: xs)
  case (Cons l ls)
  then obtain x ys where xs: "xs = x # ys" "parse_link l = Some x" "map parse_link ls = map Some ys" by (cases xs) auto
  show ?case using Cons.IH [OF xs(3)] xs assms(2) [OF xs(2)] by (auto split: option.splits)
qed simp

lemma has_id_parsed: "parse_link l = Some x \<Longrightarrow> has_id lid l = Inr (fst x = lid)"
  by (auto simp: parse_link_def has_id_def pget_def split: if_splits json.splits option.splits)

lemma referenced_parsed: "parse_end ep = Some e \<Longrightarrow> referenced_network ep = Inr (net_ids e)"
  by (auto simp: parse_end_def normalize_endpoint_def referenced_network_def bindr_simps split: sum.splits if_splits)

lemma referenced_link_parsed: "parse_link l = Some (s, a, b) \<Longrightarrow> referenced_networks l = Inr (net_ids a @ net_ids b)"
  using parse_linkD [of l s a b] by (simp add: referenced_networks_def pget_def referenced_parsed)

lemma on_network_parsed: "parse_link l = Some x \<Longrightarrow> on_network n l = Inr (on_net n x)"
proof -
  assume p: "parse_link l = Some x"
  obtain s a b where x: "x = (s, a, b)" by (cases x)
  have "net_ids e = [n] \<longleftrightarrow> e = NetEp n" for e by (cases e) auto
  then show ?thesis
    using parse_linkD [OF p [unfolded x]] by (auto simp: on_network_def referenced_parsed on_net_def x)
qed

lemma is_implicit_parsed:
  assumes "t_nets t = map (\<lambda>(k, v). (k, net_mark v)) nets" and "list_all (\<lambda>(k, v). is_obj v) nets"
  shows "is_implicit (JObj nets) n = Inr (topo_implicit t n)"
proof -
  have "obj_get (map (\<lambda>(k, v). (k, net_mark v)) xs) k = map_option net_mark (obj_get xs k)" for xs k
    by (induction xs) auto
  moreover have "is_obj r" if "obj_get nets (dec_int n) = Some r" for r
    using that assms(2) by (auto simp: list_all_iff dest!: obj_get_Some_in)
  ultimately show ?thesis
    by (auto simp: is_implicit_def topo_implicit_def assms(1) net_mark_def jget_def [of "JObj nets"] jfind_def split: option.splits)
qed

lemma drop_first_None: "List.find P xs = None \<Longrightarrow> drop_first P xs = xs"
  by (induction xs) (auto split: if_splits)

lemma cascade_parsed:
  assumes d: "doc_of data ls nets t" and n: "n \<noteq> 0"
  shows "\<exists>data' ls' evs'. cascade_link (JObj nets) n (data, evs) = Inr (data', evs') \<and> doc_of data' ls' nets (topo_cascade n t)"
proof (cases "topo_implicit t n \<and> topo_refs t n = 1")
  case False
  have "is_implicit (JObj nets) n = Inr (topo_implicit t n)" using d by (intro is_implicit_parsed) (auto simp: doc_of_def)
  with False show ?thesis using d refcount_parsed [OF d n] by (auto simp: cascade_link_def topo_cascade_def)
next
  case True
  have i: "is_implicit (JObj nets) n = Inr True"
    using d True by (subst is_implicit_parsed [of t]) (auto simp: doc_of_def)
  have ls: "map parse_link ls = map Some (t_links t)" using d by (simp add: doc_of_def)
  show ?thesis
  proof (cases "List.find (on_net n) (t_links t)")
    case None
    then have "drop_first (on_net n) (t_links t) = t_links t" by (rule drop_first_None)
    then show ?thesis
      using split_first_parsed [OF ls, of "on_network n" "on_net n", OF on_network_parsed] None i d refcount_parsed [OF d n] doc_of_gets(3) [OF d] True
      by (auto simp: cascade_link_def topo_cascade_def)
  next
    case (Some x)
    then obtain l rest where r: "split_first (on_network n) ls = Inr (Some (l, rest))"
        "map parse_link rest = map Some (drop_first (on_net n) (t_links t))"
      using split_first_parsed [OF ls, of "on_network n" "on_net n", OF on_network_parsed] by auto
    have "doc_of (jset ''links'' (JList rest) data) rest nets (topo_cascade n t)"
      using d r(2) True by (simp add: doc_of_def topo_cascade_def)
    then show ?thesis
      using r(1) i refcount_parsed [OF d n] doc_of_gets(3) [OF d] True by (auto simp: cascade_link_def)
  qed
qed

lemma cascades_parsed:
  "doc_of data ls nets t \<Longrightarrow> 0 \<notin> set ns \<Longrightarrow>
     \<exists>data' ls' evs'. forr (cascade_link (JObj nets)) ns (data, evs) = Inr (data', evs') \<and> doc_of data' ls' nets (fold topo_cascade ns t)"
proof (induction ns arbitrary: data ls evs t)
  case (Cons n ns)
  obtain data1 ls1 evs1 where "cascade_link (JObj nets) n (data, evs) = Inr (data1, evs1)" "doc_of data1 ls1 nets (topo_cascade n t)"
    using cascade_parsed [OF Cons.prems(1), of n evs] Cons.prems(2) by auto
  then show ?case using Cons.IH [of data1 ls1 "topo_cascade n t" evs1] Cons.prems(2) by simp
qed auto

lemma net_mark_del:
  "map (\<lambda>(k, v). (k, net_mark v)) (obj_del k nets) = obj_del k (map (\<lambda>(k, v). (k, net_mark v)) nets)"
  by (induction nets) (auto simp: obj_del_def)

definition nets_of :: "(string \<times> json) list \<Rightarrow> topo \<Rightarrow> bool" where
  "nets_of nets t \<longleftrightarrow> list_all (\<lambda>(k, v). is_obj v) nets \<and> t_nets t = map (\<lambda>(k, v). (k, net_mark v)) nets"

lemma collect_parsed:
  assumes "\<And>n. n \<noteq> 0 \<Longrightarrow> refcount data n = Inr (topo_refs t n)" and "nets_of nets t" and "n \<noteq> 0"
  shows "\<exists>nets' gone' evs'. collect_network data n (JObj nets, gone, evs) = Inr (JObj nets', gone', evs') \<and> nets_of nets' (topo_gc n t)"
proof -
  have "is_implicit (JObj nets) n = Inr (topo_implicit t n)" using assms(2) by (intro is_implicit_parsed) (auto simp: nets_of_def)
  moreover have "list_all (\<lambda>(k, v). is_obj v) (obj_del k nets)" for k
    using assms(2) by (auto simp: nets_of_def obj_del_def list_all_iff)
  ultimately show ?thesis
    using assms by (auto simp: collect_network_def topo_gc_def Let_def nets_of_def net_mark_del jdel_def)
qed

lemma topo_gc_links [simp]: "t_links (topo_gc n t) = t_links t" "topo_refs (topo_gc n t) m = topo_refs t m"
  by (simp_all add: topo_gc_def)

lemma collects_parsed:
  "(\<And>n. n \<noteq> 0 \<Longrightarrow> refcount data n = Inr (topo_refs t n)) \<Longrightarrow> nets_of nets t \<Longrightarrow> 0 \<notin> set ns \<Longrightarrow>
     \<exists>nets' gone' evs'. forr (collect_network data) ns (JObj nets, gone, evs) = Inr (JObj nets', gone', evs')
       \<and> nets_of nets' (fold topo_gc ns t)"
proof (induction ns arbitrary: nets gone evs t)
  case (Cons n ns)
  obtain nets1 gone1 evs1 where "collect_network data n (JObj nets, gone, evs) = Inr (JObj nets1, gone1, evs1)" "nets_of nets1 (topo_gc n t)"
    using collect_parsed [OF Cons.prems(1,2), of n gone evs] Cons.prems(3) by auto
  then show ?case using Cons.IH [of "topo_gc n t" nets1 gone1 evs1] Cons.prems by simp
qed auto

lemma doc_of_refs: "doc_of data ls nets t \<Longrightarrow> n \<noteq> 0 \<Longrightarrow> refcount data n = Inr (topo_refs t n)"
  by (rule refcount_parsed)

lemma gcs_links: "t_links (fold topo_gc ns t) = t_links t"
  by (induction ns arbitrary: t) simp_all

lemma remove_refines:
  assumes "abs_topo data = Some t" and "NetEp 0 \<notin> set (topo_ends t)" and "jhas data ''networks''"
  shows "case remove_link data lid of
     Inl e \<Rightarrow> False
   | Inr None \<Rightarrow> List.find (\<lambda>l. fst l = lid) (t_links t) = None
   | Inr (Some (data', gone, evs)) \<Rightarrow> abs_topo data' = Some (topo_delete t lid)"
proof -
  obtain ls nets xs where a: "jget data ''links'' (JList []) = JList ls" "jget data ''networks'' (JObj []) = JObj nets"
      "is_obj data" "list_all (\<lambda>(k, v). is_obj v) nets" "map parse_link ls = map Some (t_links t)"
      "t_nets t = map (\<lambda>(k, v). (k, net_mark v)) nets"
    using assms(1) by (auto simp: abs_topo_def those_Some split: json.splits if_splits)
  have nf: "jfind data ''networks'' = Some (JObj nets)" using a(2) assms(3) by (auto simp: jhas_def jget_def)
  have ll: "link_list data = Inr ls" "jor (jget data ''networks'' (JObj [])) (JObj []) = JObj nets"
    using a(1,2) by (simp_all add: link_list_def jor_def)
  note sp = split_first_parsed [OF a(5), of "has_id lid" "\<lambda>x. fst x = lid", OF has_id_parsed]
  show ?thesis
  proof (cases "List.find (\<lambda>x. fst x = lid) (t_links t)")
    case None
    then show ?thesis using sp ll by (simp add: remove_link_def)
  next
    case (Some x)
    then obtain l rest where r: "split_first (has_id lid) ls = Inr (Some (l, rest))" "parse_link l = Some x"
        "map parse_link rest = map Some (drop_first (\<lambda>x. fst x = lid) (t_links t))"
      using sp by auto
    obtain i c d where x: "x = (i, c, d)" by (cases x)
    define ns where "ns = net_ids c @ net_ids d"
    define t1 where "t1 = t\<lparr>t_links := drop_first (\<lambda>x. fst x = lid) (t_links t)\<rparr>"
    have "(i, c, d) \<in> set (t_links t)" using Some x by (auto simp: find_Some_iff in_set_conv_nth)
    then have "set [c, d] \<subseteq> set (topo_ends t)" by (force simp: topo_ends_def)
    then have ns: "0 \<notin> set ns" using assms(2) by (cases c; cases d) (auto simp: ns_def)
    have d1: "doc_of (jset ''links'' (JList rest) data) rest nets t1"
      using a(3,4,6) nf r(3) by (simp add: doc_of_def t1_def)
    obtain data1 ls1 evs1 where c1: "forr (cascade_link (JObj nets)) ns (jset ''links'' (JList rest) data, []) = Inr (data1, evs1)"
        "doc_of data1 ls1 nets (fold topo_cascade ns t1)"
      using cascades_parsed [OF d1 ns, of "[]"] by auto
    have "nets_of nets (fold topo_cascade ns t1)" using c1(2) by (simp add: doc_of_def nets_of_def)
    then obtain nets2 gone2 evs2 where c2: "forr (collect_network data1) ns (JObj nets, None, evs1) = Inr (JObj nets2, gone2, evs2)"
        "nets_of nets2 (fold topo_gc ns (fold topo_cascade ns t1))"
      using collects_parsed [OF doc_of_refs [OF c1(2)] _ ns, of nets None evs1] by auto
    have "doc_of (jdel ''topology'' (jset ''networks'' (JObj nets2) data1)) ls1 nets2 (fold topo_gc ns (fold topo_cascade ns t1))"
      using c1(2) c2(2) by (simp add: doc_of_def nets_of_def gcs_links)
    from doc_of_abs [OF this] have "abs_topo (jdel ''topology'' (jset ''networks'' (JObj nets2) data1)) = Some (topo_delete t lid)"
      by (simp add: topo_delete_def Some x ns_def t1_def Let_def del: fold_append)
    then show ?thesis
      using r(1) ll referenced_link_parsed [OF r(2) [unfolded x]] c1(1) c2(1) by (simp add: remove_link_def ns_def del: fold_append)
  qed
qed

section \<open>Edits leave the wiring\<close>

lemma patched_parsed: "is_obj l \<Longrightarrow> is_obj (patched patch l) \<and> parse_link (patched patch l) = parse_link l"
proof (induction patch arbitrary: l)
  case (Cons kv patch)
  obtain k v where kv: "kv = (k, v)" by (cases kv)
  have "parse_link (jset k v l) = parse_link l" if "k \<in> set PATCH_FIELDS"
    using that Cons.prems by (auto simp: parse_link_def PATCH_FIELDS_def)
  then show ?case using Cons.IH [of "if k \<in> set PATCH_FIELDS then jset k v l else l"] Cons.prems kv
    by (auto simp: patched_def)
qed (simp add: patched_def)

lemma edit_first_parsed:
  "edit_first (has_id lid) (patched patch) ls = Inr (Some (l, ls')) \<Longrightarrow> map parse_link ls' = map parse_link ls"
proof (induction ls arbitrary: ls')
  case (Cons x ls)
  then show ?case using patched_parsed [of x patch] by (auto simp: bindr_simps has_id_def split: if_splits)
qed simp

lemma edit_keeps_topo:
  assumes "edit_link data lid patch = Inr (Some (l, data'))" and "abs_topo data = Some t"
  shows "abs_topo data' = Some t"
proof -
  obtain ls ls' where e: "link_list data = Inr ls" "edit_first (has_id lid) (patched patch) ls = Inr (Some (l, ls'))"
      "data' = jdel ''topology'' (jset ''links'' (JList ls') data)"
    using assms(1) by (auto simp: edit_link_def bindr_simps)
  obtain ls0 where d: "jget data ''links'' (JList []) = JList ls0" "is_obj data"
    using assms(2) by (auto simp: abs_topo_def split: json.splits if_splits)
  then have "ls0 = ls" using e(1) by (auto simp: link_list_def jor_def split: if_splits)
  then show ?thesis
    using d assms(2) edit_first_parsed [OF e(2)] by (auto simp: e(3) abs_topo_def split: json.splits if_splits)
qed

section \<open>Files keep the wiring\<close>

lemma abs_topo_cong:
  assumes "is_obj d'" and "is_obj d" and "jget d' ''links'' (JList []) = jget d ''links'' (JList [])"
    and "jget d' ''networks'' (JObj []) = jget d ''networks'' (JObj [])"
  shows "abs_topo d' = abs_topo d"
  using assms(1,2) unfolding abs_topo_def assms(3,4) by (simp split: json.split)

lemma abs_topo_networks:
  assumes "is_obj d'" and "is_obj d" and "jget d' ''links'' (JList []) = jget d ''links'' (JList [])"
    and "jget d ''networks'' (JObj []) = JObj nets" and "jget d' ''networks'' (JObj []) = JObj (map (\<lambda>(k, v). (k, f k v)) nets)"
    and "\<And>k v. is_obj (f k v) = is_obj v" and "\<And>k v. net_mark (f k v) = net_mark v"
  shows "abs_topo d' = abs_topo d"
proof -
  have "list_all (\<lambda>(k, v). is_obj v) (map (\<lambda>(k, v). (k, f k v)) nets) = list_all (\<lambda>(k, v). is_obj v) nets"
    using assms(6) by (induction nets) auto
  moreover have "map (\<lambda>(k, v). (k, net_mark v)) (map (\<lambda>(k, v). (k, f k v)) nets) = map (\<lambda>(k, v). (k, net_mark v)) nets"
    using assms(7) by auto
  ultimately show ?thesis
    using assms(1,2) unfolding abs_topo_def assms(3,4,5) by (simp del: map_map split: json.split)
qed

lemma abs_topo_jset: "is_obj d \<Longrightarrow> k \<noteq> ''links'' \<Longrightarrow> k \<noteq> ''networks'' \<Longrightarrow> abs_topo (jset k v d) = abs_topo d"
  by (rule abs_topo_cong) simp_all

lemma abs_topo_jdel: "is_obj d \<Longrightarrow> k \<noteq> ''links'' \<Longrightarrow> k \<noteq> ''networks'' \<Longrightarrow> abs_topo (jdel k d) = abs_topo d"
  by (rule abs_topo_cong) simp_all

lemma is_obj_default [simp]: "is_obj d \<Longrightarrow> is_obj (jdefault k v d)"
  by (simp add: jdefault_def)

lemma abs_topo_default: "is_obj d \<Longrightarrow> k \<noteq> ''links'' \<Longrightarrow> k \<noteq> ''networks'' \<Longrightarrow> abs_topo (jdefault k v d) = abs_topo d"
  by (simp add: jdefault_def abs_topo_jset)

lemma abs_topo_default_links: "is_obj d \<Longrightarrow> abs_topo (jdefault ''links'' (JList []) d) = abs_topo d"
  by (rule abs_topo_cong) (auto simp: jdefault_def jhas_def jget_def split: option.splits)

lemma abs_topo_default_nets: "is_obj d \<Longrightarrow> abs_topo (jdefault ''networks'' (JObj []) d) = abs_topo d"
  by (rule abs_topo_cong) (auto simp: jdefault_def jhas_def jget_def split: option.splits)

lemma abs_topo_complete:
  assumes "is_obj d"
  shows "abs_topo (complete_doc d) = abs_topo d"
proof -
  define e where "e = jdefault ''defaults'' (JObj [(''link_style'', JStr ''orthogonal'')])
         (jdefault ''viewport'' (JObj [(''x'', JInt 0), (''y'', JInt 0), (''zoom'', JFloat ''1.0'' 1 True)])
           (jdefault ''links'' (JList []) (jdefault ''schema'' (JInt SCHEMA_VERSION) d)))"
  have "is_obj e" "abs_topo e = abs_topo d"
    using assms by (simp_all add: e_def abs_topo_default abs_topo_default_links)
  then show ?thesis unfolding complete_doc_def Let_def e_def [symmetric] by (simp add: abs_topo_jset)
qed

lemma net_mark_drop: "net_mark (drop_keys [''count''] v) = net_mark v" "is_obj (drop_keys ks v) = is_obj v"
  by (auto simp: net_mark_def drop_keys_def is_obj_iff jget_def jfind_def obj_get_filter)

lemma is_obj_strip [simp]: "is_obj d \<Longrightarrow> is_obj (strip_nodes d)" "is_obj d \<Longrightarrow> is_obj (strip_networks d)"
  by (auto simp: strip_nodes_def strip_networks_def split: option.splits json.splits)

lemma abs_topo_strip_networks:
  assumes "is_obj d"
  shows "abs_topo (strip_networks d) = abs_topo d"
proof (cases "\<exists>kvs. jfind d ''networks'' = Some (JObj kvs)")
  case True
  then obtain kvs where "jfind d ''networks'' = Some (JObj kvs)" by blast
  then show ?thesis
    using assms by (intro abs_topo_networks [of _ _ kvs "\<lambda>k v. drop_keys [''count''] v"])
      (auto simp: strip_networks_def jget_def net_mark_drop)
qed (auto simp: strip_networks_def split: option.splits json.splits)

lemma abs_topo_strip: "is_obj d \<Longrightarrow> abs_topo (strip_legacy_fields d) = abs_topo d"
proof -
  assume d: "is_obj d"
  have "abs_topo (strip_nodes (jdel ''topology'' d)) = abs_topo (jdel ''topology'' d)"
    by (auto simp: strip_nodes_def abs_topo_jset split: option.splits json.splits)
  then show ?thesis using d by (simp add: strip_legacy_fields_def abs_topo_strip_networks abs_topo_jdel)
qed

lemma write_plain: "write_doc (jdel ''topology'' d) = Inr (complete_doc (strip_legacy_fields (jdel ''topology'' d)))"
  by (simp add: write_doc_def)

lemma abs_topo_write:
  assumes "write_doc (jdel ''topology'' d) = Inr v" and "is_obj d"
  shows "abs_topo v = abs_topo d"
proof -
  have "is_obj (strip_legacy_fields (jdel ''topology'' d))" by (simp add: strip_legacy_fields_def)
  then show ?thesis
    using assms by (auto simp: write_plain abs_topo_complete abs_topo_strip abs_topo_jdel)
qed

lemma abs_topo_read:
  assumes "read_doc v = Inr r"
  shows "abs_topo r = abs_topo v \<and> is_obj r \<and> (jhas v ''networks'' \<longrightarrow> jhas r ''networks'')"
proof -
  obtain t r1 where t: "is_obj v" "derive_legacy_interface_network_ids (jset ''topology'' t v) = Inr r1"
      "derive_network_counts r1 = Inr r"
    using assms by (auto simp: read_doc_def bindr_simps split: if_splits)
  have r1: "is_obj r1" "abs_topo r1 = abs_topo v" "jhas r1 ''networks'' = jhas v ''networks''"
    using derive_ids_cases [OF t(2)] t(1) by (auto simp: abs_topo_jset)
  from derive_counts_cases [OF t(3)] show ?thesis
  proof
    assume "\<exists>kvs c. jfind r1 ''networks'' = Some (JObj kvs) \<and> r = jset ''networks'' (JObj (map (set_count c) kvs)) r1"
    then obtain kvs c where k: "jfind r1 ''networks'' = Some (JObj kvs)" "r = jset ''networks'' (JObj (map (set_count c) kvs)) r1"
      by blast
    have sc: "set_count c = (\<lambda>(k, v). (k, snd (set_count c (k, v))))"
      by (auto simp: fun_eq_iff set_count_def Let_def split: sum.splits)
    have "abs_topo r = abs_topo r1"
      using r1(1) k sc by (intro abs_topo_networks [of _ _ kvs "\<lambda>k v. snd (set_count c (k, v))"])
        (auto simp: jget_def set_count_def Let_def net_mark_def split: sum.splits)
    then show ?thesis using r1 k by simp
  qed (use r1 in auto)
qed

end
