(* ===== verification/Ipam.thy ===== *)
theory Ipam
  imports Lab_Store Interfaces
begin

text \<open>
  The free-list address allocator of lab networks (\<open>_allocate_ip\<close>, \<open>_release_ip\<close> and their helpers
  in \<open>app/services/network_service.py\<close>). \<open>reserve_ip\<close> and \<open>release_ip\<close> are the parts that work on
  one network record; \<open>allocate_ip\<close> and \<open>release_ip_at\<close> find the record that owns the addresses,
  possibly in another lab, and write the lab file.

  The lemmas show that the lowest free address is handed out, never twice, inside the static
  range of a NAT cloud, that releasing undoes an allocation, and where the gateway is not
  protected. \<open>lease_pool\<close> interprets the allocator interface on these operations.
\<close>

section \<open>Model\<close>

definition DEFAULT_FIRST_OFFSET :: int where
  "DEFAULT_FIRST_OFFSET = 2"

definition net_py :: "py_exc + 'a \<Rightarrow> net_error + 'a" where
  "net_py r = (case r of Inl e \<Rightarrow> Inl (NetPy e) | Inr x \<Rightarrow> Inr x)"

definition runtime_of :: "json \<Rightarrow> json" where
  \<comment> \<open>\<open>network.setdefault("runtime", {})\<close>\<close>
  "runtime_of net = jget net ''runtime'' (JObj [])"

definition addr_of :: "json \<Rightarrow> ip option" where
  "addr_of v = (case v of JStr s \<Rightarrow> parse_ip s | _ \<Rightarrow> None)"

definition used_in :: "ipnet \<Rightarrow> json list \<Rightarrow> ip list" where
  \<comment> \<open>the entries that parse and live in the network\<close>
  "used_in net es = filter (\<lambda>a. in_net a net) (List.map_filter addr_of es)"

definition ip_limit :: "json \<Rightarrow> ipnet \<Rightarrow> ip" where
  \<comment> \<open>one past the last address of the walk\<close>
  "ip_limit network net =
     (if net_type network = NAT_CLOUD_TYPE
      then min (broadcast net) (fst net + NAT_CLOUD_STATIC_LAST_OFFSET + 1) else broadcast net)"

definition clamp_offset :: "int \<Rightarrow> nat" where
  "clamp_offset i = (if i < 1 then 1 else nat i)"

definition sorted_set :: "nat set \<Rightarrow> nat list" where
  \<comment> \<open>\<open>sorted(used)\<close>\<close>
  "sorted_set A = sorted_list_of_set A"

lemma sorted_set_simps [simp]:
  "finite A \<Longrightarrow> set (sorted_set A) = A" "sorted (sorted_set A)" "distinct (sorted_set A)"
  by (simp_all add: sorted_set_def)

lemma sorted_set_set: "sorted as \<Longrightarrow> distinct as \<Longrightarrow> sorted_set (set as) = as"
  by (simp add: sorted_set_def sorted_list_of_set.idem_if_sorted_distinct)

definition reserve_ip :: "json \<Rightarrow> net_error + ip \<times> json" where
  \<comment> \<open>\<open>_allocate_ip\<close> on the network record\<close>
  "reserve_ip network =
     (if \<not> truthy (config_get network ''cidr'')
      then Inl (NetErr 422 ''Network has no config.cidr; allocate_ip not applicable.'')
      else bindr (validate_net_cidr (config_get network ''cidr'')) (\<lambda>net.
        let runtime = runtime_of network in
        bindr (net_py (pget runtime ''used_ips'' JNull)) (\<lambda>u.
        bindr (net_py (piter (jor u (JList [])))) (\<lambda>es.
        bindr (net_py (py_int (jor (jget0 runtime ''first_offset'') (JInt DEFAULT_FIRST_OFFSET)))) (\<lambda>off.
          let used = used_in net es; first = clamp_offset off in
          (case List.find (\<lambda>a. a \<notin> set used) [fst net + first ..< ip_limit network net] of
             None \<Rightarrow> Inl (NetErr 409 ''subnet exhausted, please widen CIDR'')
           | Some a \<Rightarrow>
               Inr (a, jset ''runtime''
                 (jdefault ''first_offset'' (JInt (int first))
                   (jset ''used_ips'' (JList (map (\<lambda>x. JStr (str_ip x)) (sorted_set (set (a # used)))))
                     runtime)) network)))))))"

definition ip_key :: "json \<Rightarrow> nat" where
  \<comment> \<open>the sort key: \<open>IPv4Address\<close> also takes a number in range\<close>
  "ip_key v =
     (case v of
        JStr s \<Rightarrow> (case parse_ip s of None \<Rightarrow> 0 | Some a \<Rightarrow> a)
      | JInt i \<Rightarrow> (if 0 \<le> i \<and> i < 4294967296 then nat i else 0)
      | JBool b \<Rightarrow> (if b then 1 else 0)
      | _ \<Rightarrow> 0)"

fun remove_first :: "('a \<Rightarrow> bool) \<Rightarrow> 'a list \<Rightarrow> 'a list" where
  "remove_first P [] = []"
| "remove_first P (x # xs) = (if P x then xs else x # remove_first P xs)"

definition release_ip :: "string \<Rightarrow> json \<Rightarrow> py_exc + json option" where
  \<comment> \<open>\<open>_release_ip_from_owner\<close> on the network record; None: nothing to release\<close>
  "release_ip ip network =
     (let runtime = jor (jget0 network ''runtime'') (JObj []) in
      bindr (pget runtime ''used_ips'' JNull) (\<lambda>u.
      bindr (piter (jor u (JList []))) (\<lambda>used.
        let hit = (\<lambda>v. py_eq v (JStr ip)) in
        if \<not> list_ex hit used then Inr None
        else Inr (Some (jset ''runtime''
               (jset ''used_ips'' (JList (sort_key ip_key (remove_first hit used))) runtime) network)))))"

section \<open>The record that owns the addresses\<close>

definition network_at :: "json \<Rightarrow> int \<Rightarrow> json" where
  "network_at data n = jget0 (jor (jget data ''networks'' (JObj [])) (JObj [])) (dec_int n)"

definition shared_id :: "json \<Rightarrow> string" where
  "shared_id net = strip (py_str (jor (config_get net ''shared_cloud_id'') (JStr [])))"

definition ipam_target :: "disk \<Rightarrow> string \<Rightarrow> int \<Rightarrow> net_error + string \<times> int" where
  "ipam_target d path n =
     bindr (net_py (normalize_lab_path path)) (\<lambda>p.
     bindr (net_py (read_lab d p)) (\<lambda>data.
       let net = network_at data n in
       if \<not> is_obj net then Inl (NetErr 404 ''Network does not exist.'')
       else if shared_id net = [] then Inr (p, n)
       else (case find_nat_cloud_owner (parsed_files d) (shared_id net) of
               None \<Rightarrow> Inl (NetErr 409 ''NAT-Cloud owner is missing; cannot allocate from shared cloud.'')
             | Some r \<Rightarrow> Inr (ref_lab_path r, ref_network_id r))))"

definition put_network :: "json \<Rightarrow> int \<Rightarrow> json \<Rightarrow> json" where
  \<comment> \<open>\<open>networks[str(id)] = network; data["networks"] = networks; data.pop("topology")\<close>\<close>
  "put_network data n net =
     jdel ''topology'' (jset ''networks''
       (jset (dec_int n) net (jor (jget data ''networks'' (JObj [])) (JObj []))) data)"

definition allocate_ip :: "disk \<Rightarrow> string \<Rightarrow> int \<Rightarrow> net_error + string \<times> disk" where
  "allocate_ip d path n =
     bindr (ipam_target d path n) (\<lambda>(p, m).
     bindr (net_py (read_lab d p)) (\<lambda>data.
       let net = network_at data m in
       if \<not> is_obj net then Inl (NetErr 404 ''Network does not exist.'')
       else bindr (reserve_ip net) (\<lambda>(a, net').
            bindr (net_py (write_lab d p (put_network data m net'))) (\<lambda>d'. Inr (str_ip a, d')))))"

definition release_ip_at :: "disk \<Rightarrow> string \<Rightarrow> int \<Rightarrow> string \<Rightarrow> net_error + bool \<times> disk" where
  "release_ip_at d path n ip =
     bindr (ipam_target d path n) (\<lambda>(p, m).
     bindr (net_py (read_lab d p)) (\<lambda>data.
       let net = network_at data m in
       if \<not> is_obj net then Inr (False, d)
       else bindr (net_py (release_ip ip net)) (\<lambda>r.
         case r of None \<Rightarrow> Inr (False, d)
         | Some net' \<Rightarrow> bindr (net_py (write_lab d p (put_network data m net'))) (\<lambda>d'. Inr (True, d')))))"

section \<open>Leases of a record\<close>

definition leases :: "json \<Rightarrow> ip list" where
  \<comment> \<open>the addresses of \<open>used_ips\<close>\<close>
  "leases network = List.map_filter addr_of (list_of (jget0 (runtime_of network) ''used_ips''))"

definition canonical :: "json \<Rightarrow> bool" where
  \<comment> \<open>a record with a valid subnet whose list is sorted, without repetition and inside it: what
    creation and every operation leave\<close>
  "canonical network \<longleftrightarrow>
     is_obj network \<and> is_obj (runtime_of network) \<and>
     (\<exists>net as. validate_net_cidr (config_get network ''cidr'') = Inr net \<and>
        jget0 (runtime_of network) ''used_ips'' = JList (map (\<lambda>a. JStr (str_ip a)) as) \<and>
        sorted as \<and> distinct as \<and> (\<forall>a\<in>set as. in_net a net \<and> valid_ip a)) \<and>
     (\<exists>off. jget0 (runtime_of network) ''first_offset'' = JInt off)"

lemma config_get_runtime [simp]: "config_get (jset ''runtime'' v n) k = config_get n k"
  by (simp add: config_get_def config_of_def)

lemma net_type_runtime [simp]: "net_type (jset ''runtime'' v n) = net_type n"
  by (simp add: net_type_def)

lemma runtime_of_jset [simp]: "runtime_of (jset ''runtime'' v n) = v"
  by (simp add: runtime_of_def)

lemma addr_of_str [simp]: "valid_ip a \<Longrightarrow> addr_of (JStr (str_ip a)) = Some a"
  by (simp add: addr_of_def)

lemma map_filter_addr: "(\<forall>a\<in>set as. valid_ip a) \<Longrightarrow> List.map_filter addr_of (map (\<lambda>a. JStr (str_ip a)) as) = as"
  by (induction as) (simp_all add: List.map_filter_def)

lemma leases_eq:
  "jget0 (runtime_of n) ''used_ips'' = JList (map (\<lambda>a. JStr (str_ip a)) as) \<Longrightarrow> \<forall>a\<in>set as. valid_ip a \<Longrightarrow>
     leases n = as"
  by (simp add: leases_def map_filter_addr)

lemma truthy_cidr: "validate_net_cidr v = Inr net \<Longrightarrow> truthy v"
  by (auto simp: validate_net_cidr_def strip_def lstrip_def rstrip_def split: json.splits if_splits)

lemma canonicalE:
  assumes "canonical n"
  obtains net off where "validate_net_cidr (config_get n ''cidr'') = Inr net" "valid_net net"
    "jget0 (runtime_of n) ''used_ips'' = JList (map (\<lambda>a. JStr (str_ip a)) (leases n))"
    "sorted (leases n)" "distinct (leases n)" "\<forall>a\<in>set (leases n). in_net a net \<and> valid_ip a"
    "jget0 (runtime_of n) ''first_offset'' = JInt off" "is_obj n" "is_obj (runtime_of n)"
proof -
  obtain net as off where c: "validate_net_cidr (config_get n ''cidr'') = Inr net"
      "jget0 (runtime_of n) ''used_ips'' = JList (map (\<lambda>a. JStr (str_ip a)) as)"
      "sorted as" "distinct as" "\<forall>a\<in>set as. in_net a net \<and> valid_ip a"
      "jget0 (runtime_of n) ''first_offset'' = JInt off" "is_obj n" "is_obj (runtime_of n)"
    using assms by (auto simp: canonical_def)
  moreover have "leases n = as" using c(2,5) leases_eq by blast
  ultimately show ?thesis using that [of net off] validate_net_cidr_Inr by simp
qed

lemma used_in_canonical:
  assumes "\<forall>a\<in>set as. in_net a net \<and> valid_ip a"
  shows "used_in net (map (\<lambda>a. JStr (str_ip a)) as) = as"
  using assms by (simp add: used_in_def map_filter_addr filter_id_conv)

definition first_of :: "json \<Rightarrow> nat" where
  \<comment> \<open>the offset the walk starts at\<close>
  "first_of n =
     (case jget0 (runtime_of n) ''first_offset'' of
        JInt i \<Rightarrow> clamp_offset (if i = 0 then DEFAULT_FIRST_OFFSET else i) | _ \<Rightarrow> 0)"

definition with_leases :: "json \<Rightarrow> ip list \<Rightarrow> json" where
  "with_leases n as =
     jset ''runtime'' (jset ''used_ips'' (JList (map (\<lambda>x. JStr (str_ip x)) as)) (runtime_of n)) n"

lemma reserve_ip_canonical:
  assumes "canonical n" and "validate_net_cidr (config_get n ''cidr'') = Inr net"
  shows "reserve_ip n =
     (case List.find (\<lambda>a. a \<notin> set (leases n)) [fst net + first_of n ..< ip_limit n net] of
        None \<Rightarrow> Inl (NetErr 409 ''subnet exhausted, please widen CIDR'')
      | Some a \<Rightarrow> Inr (a, with_leases n (sorted_set (insert a (set (leases n))))))"
proof -
  obtain off where c: "jget0 (runtime_of n) ''used_ips'' = JList (map (\<lambda>a. JStr (str_ip a)) (leases n))"
      "\<forall>a\<in>set (leases n). in_net a net \<and> valid_ip a"
      "jget0 (runtime_of n) ''first_offset'' = JInt off" "is_obj (runtime_of n)"
    using assms by (metis Inr_inject canonicalE)
  have h: "jhas (runtime_of n) ''first_offset''"
    using c(3) by (auto simp: jhas_def jget_def split: option.splits)
  have u: "jor (JList (map (\<lambda>a. JStr (str_ip a)) (leases n))) (JList []) = JList (map (\<lambda>a. JStr (str_ip a)) (leases n))"
    by (auto simp: jor_def)
  have f: "clamp_offset (case (if off = 0 then JInt DEFAULT_FIRST_OFFSET else JInt off) of JInt i \<Rightarrow> i | _ \<Rightarrow> 0) = first_of n"
    by (simp add: first_of_def c(3))
  have g: "net_py (py_int (jor (JInt off) (JInt DEFAULT_FIRST_OFFSET))) =
      Inr (if off = 0 then DEFAULT_FIRST_OFFSET else off)"
    by (simp add: net_py_def jor_def)
  show ?thesis
    using truthy_cidr [OF assms(2)] c(4) h f
    unfolding reserve_ip_def Let_def assms(2) c(1,3) u g used_in_canonical [OF c(2)]
    by (simp add: pget_def c net_py_def jdefault_def with_leases_def u used_in_canonical first_of_def split: option.splits)
qed

lemma with_leases_canonical:
  assumes "canonical n" and "validate_net_cidr (config_get n ''cidr'') = Inr net"
    and "sorted as" "distinct as" "\<forall>a\<in>set as. in_net a net \<and> valid_ip a"
  shows "canonical (with_leases n as) \<and> leases (with_leases n as) = as"
proof
  obtain off where "jget0 (runtime_of n) ''first_offset'' = JInt off" using assms(1) canonicalE by blast
  then show "canonical (with_leases n as)"
    using assms(2-5) unfolding canonical_def with_leases_def
    by (auto intro!: exI [of _ net] exI [of _ as])
  show "leases (with_leases n as) = as"
    using assms(5) by (intro leases_eq) (simp_all add: with_leases_def)
qed

lemma ip_limit_le: "ip_limit n net \<le> broadcast net"
  by (simp add: ip_limit_def)

lemma in_walk:
  assumes "valid_net net" "a \<in> set [fst net + k ..< ip_limit n net]"
  shows "in_net a net \<and> valid_ip a"
  using assms ip_limit_le [of n net] broadcast_valid [of net]
  by (auto simp: in_net_interval valid_ip_def)

lemma reserve_ip_step:
  assumes "canonical n" and "reserve_ip n = Inr (a, n')"
  shows "\<exists>net. validate_net_cidr (config_get n ''cidr'') = Inr net \<and>
     fst net + first_of n \<le> a \<and> a < ip_limit n net \<and> a \<notin> set (leases n) \<and>
     (\<forall>b. fst net + first_of n \<le> b \<and> b < a \<longrightarrow> b \<in> set (leases n)) \<and>
     n' = with_leases n (sorted_set (insert a (set (leases n)))) \<and>
     canonical n' \<and> leases n' = sorted_set (insert a (set (leases n)))"
proof -
  obtain net where net: "validate_net_cidr (config_get n ''cidr'') = Inr net" "valid_net net"
      "\<forall>a\<in>set (leases n). in_net a net \<and> valid_ip a"
    using canonicalE [OF assms(1)] by blast
  let ?w = "[fst net + first_of n ..< ip_limit n net]"
  have f: "List.find (\<lambda>a. a \<notin> set (leases n)) ?w = Some a"
      and n': "n' = with_leases n (sorted_set (insert a (set (leases n))))"
    using assms(2) unfolding reserve_ip_canonical [OF assms(1) net(1)] by (auto split: option.splits)
  from f obtain i where i: "i < length ?w" "?w ! i = a" "a \<notin> set (leases n)"
      "\<forall>j<i. ?w ! j \<in> set (leases n)"
    by (auto simp: find_Some_iff)
  have b: "\<forall>b. fst net + first_of n \<le> b \<and> b < a \<longrightarrow> b \<in> set (leases n)"
  proof (intro allI impI)
    fix b
    assume "fst net + first_of n \<le> b \<and> b < a"
    then have "b - (fst net + first_of n) < i" "?w ! (b - (fst net + first_of n)) = b"
      using i(1,2) by auto
    then show "b \<in> set (leases n)" using i(4) by metis
  qed
  have a: "fst net + first_of n \<le> a" "a < ip_limit n net" using i(1,2) by auto
  then have "in_net a net \<and> valid_ip a" using in_walk [OF net(2)] by simp
  then have "\<forall>x\<in>set (sorted_set (insert a (set (leases n)))). in_net x net \<and> valid_ip x"
    using net(3) by simp
  from with_leases_canonical [OF assms(1) net(1) _ _ this] show ?thesis
    using net(1) a b i(3) n' by simp
qed

lemma sort_key_leases:
  "(\<forall>a\<in>set as. valid_ip a) \<Longrightarrow> sorted as \<Longrightarrow>
     sort_key ip_key (map (\<lambda>a. JStr (str_ip a)) as) = map (\<lambda>a. JStr (str_ip a)) as"
proof (rule sort_key_id_if_sorted)
  assume v: "\<forall>a\<in>set as. valid_ip a" and s: "sorted as"
  have "map ip_key (map (\<lambda>a. JStr (str_ip a)) as) = as"
    using v by (simp add: comp_def ip_key_def map_idI)
  with s show "sorted (map ip_key (map (\<lambda>a. JStr (str_ip a)) as))" by simp
qed

lemma remove_first_map:
  "(\<forall>b\<in>set as. valid_ip b) \<Longrightarrow> valid_ip a \<Longrightarrow>
     remove_first (\<lambda>v. py_eq v (JStr (str_ip a))) (map (\<lambda>b. JStr (str_ip b)) as) =
     map (\<lambda>b. JStr (str_ip b)) (remove_first (\<lambda>b. b = a) as)"
  by (induction as) (auto simp: str_ip_inj)

lemma remove_first_distinct: "distinct as \<Longrightarrow> remove_first (\<lambda>b. b = a) as = filter (\<lambda>b. b \<noteq> a) as"
  by (induction as) (auto intro!: filter_True [symmetric])

lemma release_ip_canonical:
  assumes "canonical n" and "valid_ip a"
  shows "release_ip (str_ip a) n =
     Inr (if a \<in> set (leases n) then Some (with_leases n (filter (\<lambda>b. b \<noteq> a) (leases n))) else None)"
proof -
  from assms(1) obtain net where c: "jget0 (runtime_of n) ''used_ips'' = JList (map (\<lambda>a. JStr (str_ip a)) (leases n))"
      "sorted (leases n)" "distinct (leases n)" "\<forall>a\<in>set (leases n). valid_ip a" "is_obj (runtime_of n)"
    by (metis canonicalE)
  have ne: "runtime_of n \<noteq> JObj []" using c(1) by (auto simp: jget_def)
  then have r: "jor (jget0 n ''runtime'') (JObj []) = runtime_of n"
    using c(5) by (cases "jfind n ''runtime''") (auto simp: runtime_of_def jor_def jget_def is_obj_iff split: json.splits)
  have u: "jor (JList (map (\<lambda>a. JStr (str_ip a)) (leases n))) (JList []) = JList (map (\<lambda>a. JStr (str_ip a)) (leases n))"
    by (auto simp: jor_def)
  have x: "list_ex (\<lambda>v. py_eq v (JStr (str_ip a))) (map (\<lambda>a. JStr (str_ip a)) (leases n)) \<longleftrightarrow> a \<in> set (leases n)"
    using c(4) assms(2) by (auto simp: list_ex_iff str_ip_inj)
  have s: "sort_key ip_key (remove_first (\<lambda>v. py_eq v (JStr (str_ip a))) (map (\<lambda>a. JStr (str_ip a)) (leases n))) =
      map (\<lambda>a. JStr (str_ip a)) (filter (\<lambda>b. b \<noteq> a) (leases n))"
    using c assms(2) by (simp add: remove_first_map remove_first_distinct sort_key_leases sorted_wrt_filter)
  show ?thesis
    unfolding release_ip_def Let_def r
    by (simp add: pget_def c(1,5) u x s with_leases_def)
qed

lemma release_step:
  assumes "canonical n" and "valid_ip a" and "release_ip (str_ip a) n = Inr (Some n')"
  shows "canonical n' \<and> leases n' = filter (\<lambda>b. b \<noteq> a) (leases n) \<and> a \<in> set (leases n)"
proof -
  obtain net where net: "validate_net_cidr (config_get n ''cidr'') = Inr net"
      "sorted (leases n)" "distinct (leases n)" "\<forall>a\<in>set (leases n). in_net a net \<and> valid_ip a"
    using canonicalE [OF assms(1)] by blast
  have "n' = with_leases n (filter (\<lambda>b. b \<noteq> a) (leases n))" "a \<in> set (leases n)"
    using assms release_ip_canonical by (auto split: if_splits)
  moreover have "\<forall>x\<in>set (filter (\<lambda>b. b \<noteq> a) (leases n)). in_net x net \<and> valid_ip x" using net(4) by simp
  ultimately show ?thesis
    using with_leases_canonical [OF assms(1) net(1)] net(2,3) by (simp add: sorted_wrt_filter)
qed

section \<open>The allocator interface\<close>

definition lease_alloc :: "json \<Rightarrow> (ip \<times> json) option" where
  "lease_alloc n = (case reserve_ip n of Inl e \<Rightarrow> None | Inr p \<Rightarrow> Some p)"

definition lease_release :: "ip \<Rightarrow> json \<Rightarrow> json" where
  "lease_release a n =
     (if valid_ip a then (case release_ip (str_ip a) n of Inr (Some n') \<Rightarrow> n' | _ \<Rightarrow> n) else n)"

fun lease_run :: "nat \<Rightarrow> json \<Rightarrow> (ip list \<times> json) option" where
  \<comment> \<open>allocations one after the other\<close>
  "lease_run 0 n = Some ([], n)"
| "lease_run (Suc k) n =
     (case reserve_ip n of Inl e \<Rightarrow> None
      | Inr (a, n1) \<Rightarrow> (case lease_run k n1 of None \<Rightarrow> None | Some (as, n2) \<Rightarrow> Some (a # as, n2)))"

lemma lease_alloc_Some: "lease_alloc n = Some (a, n') \<longleftrightarrow> reserve_ip n = Inr (a, n')"
  by (auto simp: lease_alloc_def split: sum.splits)

lemma valid_leased: "canonical n \<Longrightarrow> a \<in> set (leases n) \<Longrightarrow> valid_ip a"
  by (metis canonicalE)

interpretation lease_pool: releasing_allocator canonical "\<lambda>n. set (leases n)" lease_alloc lease_release
proof
  fix n n' a
  assume "canonical n" "lease_alloc n = Some (a, n')"
  then show "canonical n'" "a \<notin> set (leases n)" "set (leases n') = insert a (set (leases n))"
    using reserve_ip_step [of n a n'] by (auto simp: lease_alloc_Some)
next
  fix n a
  assume n: "canonical n"
  have "lease_release a n = n \<and> a \<notin> set (leases n) \<or>
      canonical (lease_release a n) \<and> leases (lease_release a n) = filter (\<lambda>b. b \<noteq> a) (leases n)"
  proof (cases "valid_ip a \<and> a \<in> set (leases n)")
    case True
    then obtain n' where n': "release_ip (str_ip a) n = Inr (Some n')"
      using release_ip_canonical [OF n] by auto
    then show ?thesis using release_step [OF n _ n'] True by (simp add: lease_release_def)
  next
    case False
    then have "lease_release a n = n"
      using release_ip_canonical [OF n] by (auto simp: lease_release_def)
    then show ?thesis using False valid_leased [OF n] by blast
  qed
  then show "canonical (lease_release a n)" "set (leases (lease_release a n)) = set (leases n) - {a}"
    using n by auto
qed

lemma lease_run_eq: "lease_run k n = lease_pool.alloc_run k n"
  by (induction k arbitrary: n) (auto simp: lease_alloc_def split: sum.splits option.splits)

section \<open>Properties\<close>

text \<open>
  The allocator hands out the lowest free address: it lies in the network's walk, was not leased,
  every address of the walk below it is leased, and afterwards the leases are the old ones and
  it, sorted.
\<close>

theorem reserve_lowest_free:
  assumes "canonical n" and "reserve_ip n = Inr (a, n')"
  shows "\<exists>net. validate_net_cidr (config_get n ''cidr'') = Inr net \<and>
     fst net + first_of n \<le> a \<and> a < ip_limit n net \<and> a \<notin> set (leases n) \<and>
     (\<forall>b. fst net + first_of n \<le> b \<and> b < a \<longrightarrow> b \<in> set (leases n)) \<and>
     leases n' = sorted_set (insert a (set (leases n))) \<and> canonical n'"
  using reserve_ip_step [OF assms] by blast

definition demo_net :: "string \<Rightarrow> ip list \<Rightarrow> json" where
  \<comment> \<open>a network record with the given type and leases in \<open>10.255.0.0/24\<close>\<close>
  "demo_net ty as = JObj [(''id'', JInt 1), (''type'', JStr ty),
     (''config'', JObj [(''cidr'', JStr ''10.255.0.0/24'')]),
     (''runtime'', JObj [(''used_ips'', JList (map (\<lambda>a. JStr (str_ip a)) as)), (''first_offset'', JInt 2)])]"

lemma demo_net_fields:
  "validate_net_cidr (config_get (demo_net ty as) ''cidr'') = Inr (184483840, 24)"
  "first_of (demo_net ty as) = 2" "net_type (demo_net ty as) = ty"
  "jget0 (runtime_of (demo_net ty as)) ''used_ips'' = JList (map (\<lambda>a. JStr (str_ip a)) as)"
proof -
  have "validate_net_cidr (JStr ''10.255.0.0/24'') = Inr (184483840, 24)" by code_simp
  then show "validate_net_cidr (config_get (demo_net ty as) ''cidr'') = Inr (184483840, 24)"
    by (simp add: demo_net_def config_get_def config_of_def jget_def jor_def)
qed (simp_all add: demo_net_def first_of_def runtime_of_def net_type_def jget_def clamp_offset_def)

lemma demo_net_canonical:
  assumes "sorted as" "distinct as" "\<forall>a\<in>set as. in_net a (184483840, 24) \<and> valid_ip a"
  shows "canonical (demo_net ty as)"
proof -
  have "validate_net_cidr (JStr ''10.255.0.0/24'') = Inr (184483840, 24)" by code_simp
  then show ?thesis using assms
    by (auto simp: canonical_def demo_net_def config_get_def config_of_def runtime_of_def jget_def jor_def)
qed

theorem reserve_lowest_free_witness:
  "reserve_ip (demo_net ''linux_bridge'' [184483842, 184483844]) =
     Inr (184483843, with_leases (demo_net ''linux_bridge'' [184483842, 184483844])
       [184483842, 184483843, 184483844]) \<and>
   184483843 \<notin> set (leases (demo_net ''linux_bridge'' [184483842, 184483844]))"
proof -
  let ?n = "demo_net ''linux_bridge'' [184483842, 184483844]"
  have "\<forall>a\<in>set [184483842, 184483844]. in_net a (184483840, 24) \<and> valid_ip a" by code_simp
  then have c: "canonical ?n" by (intro demo_net_canonical) simp_all
  have r: "reserve_ip ?n = Inr (184483843, with_leases ?n [184483842, 184483843, 184483844])"
    by code_simp
  from reserve_lowest_free [OF c r] r show ?thesis by blast
qed

text \<open>
  Allocation fails only when it must: on a canonical record the subnet counts as exhausted exactly
  when every address from the first offset to the last usable one is leased.
\<close>

theorem reserve_fails_only_when_exhausted:
  assumes "canonical n" and "validate_net_cidr (config_get n ''cidr'') = Inr net"
  shows "reserve_ip n = Inl (NetErr 409 ''subnet exhausted, please widen CIDR'') \<longleftrightarrow>
     {fst net + first_of n ..< ip_limit n net} \<subseteq> set (leases n)"
proof -
  have "List.find (\<lambda>a. a \<notin> set (leases n)) [fst net + first_of n ..< ip_limit n net] = None \<longleftrightarrow>
      {fst net + first_of n ..< ip_limit n net} \<subseteq> set (leases n)"
    unfolding find_None_iff by auto
  then show ?thesis unfolding reserve_ip_canonical [OF assms] by (auto split: option.splits)
qed

theorem reserve_fails_only_when_exhausted_witness:
  "reserve_ip (demo_net ''nat_cloud'' [184483842 ..< 184483940]) =
     Inl (NetErr 409 ''subnet exhausted, please widen CIDR'')"
proof -
  let ?n = "demo_net ''nat_cloud'' [184483842 ..< 184483940]"
  have "valid_net (184483840, 24)" "broadcast (184483840, 24) = 184484095" by code_simp+
  then have a: "\<forall>a\<in>set [184483842 ..< 184483940]. in_net a (184483840, 24) \<and> valid_ip a"
    unfolding set_upt by (auto simp: in_net_interval valid_ip_def)
  have c: "canonical ?n" by (rule demo_net_canonical [OF sorted_upt distinct_upt a])
  have l: "leases ?n = [184483842 ..< 184483940]"
    by (rule leases_eq [OF demo_net_fields(4)]) (use a in blast)
  have f: "ip_limit ?n (184483840, 24) = 184483940"
    by (simp add: demo_net_fields ip_limit_def NAT_CLOUD_TYPE_def NAT_CLOUD_STATIC_LAST_OFFSET_def
        \<open>broadcast (184483840, 24) = 184484095\<close>)
  show ?thesis
    unfolding reserve_fails_only_when_exhausted [OF c demo_net_fields(1)] l f demo_net_fields(2) set_upt
    by (simp only: fst_conv) simp
qed

text \<open>
  C30. Successive allocations without a release never hand out an address twice, nor one that was
  leased before.
\<close>

theorem leases_never_repeat:
  assumes "canonical n" and "lease_run k n = Some (as, n')"
  shows "distinct as \<and> length as = k \<and> set as \<inter> set (leases n) = {}"
  using assms lease_pool.run_distinct by (simp add: lease_run_eq)

theorem leases_never_repeat_witness:
  "\<exists>as n'. lease_run 3 (demo_net ''linux_bridge'' [184483843]) = Some (as, n') \<and> distinct as \<and> length as = 3"
proof -
  have "\<forall>a\<in>set [184483843]. in_net a (184483840, 24) \<and> valid_ip a" by code_simp
  then have c: "canonical (demo_net ''linux_bridge'' [184483843])" by (intro demo_net_canonical) simp_all
  have "case lease_run 3 (demo_net ''linux_bridge'' [184483843]) of None \<Rightarrow> False | Some p \<Rightarrow> True" by code_simp
  then obtain as n' where "lease_run 3 (demo_net ''linux_bridge'' [184483843]) = Some (as, n')"
    by (auto split: option.splits)
  with leases_never_repeat [OF c this] show ?thesis by blast
qed

text \<open>
  Releasing an address undoes its allocation: the list of leases is what it was, and the next
  allocation hands out the same address.
\<close>

theorem release_undoes_reserve:
  assumes "canonical n" and "reserve_ip n = Inr (a, n')"
  shows "\<exists>n''. release_ip (str_ip a) n' = Inr (Some n'') \<and> leases n'' = leases n \<and>
     (\<exists>n3. reserve_ip n'' = Inr (a, n3))"
proof -
  obtain net where s: "validate_net_cidr (config_get n ''cidr'') = Inr net" "a \<notin> set (leases n)" "canonical n'"
      "leases n' = sorted_set (insert a (set (leases n)))"
      "n' = with_leases n (sorted_set (insert a (set (leases n))))"
    using reserve_ip_step [OF assms] by blast
  have v: "valid_ip a" using valid_leased [OF s(3)] s(4) by simp
  then obtain n'' where n'': "release_ip (str_ip a) n' = Inr (Some n'')"
      "n'' = with_leases n' (filter (\<lambda>b. b \<noteq> a) (leases n'))"
    using release_ip_canonical [OF s(3) v] s(4) by simp
  then have r: "canonical n''" "leases n'' = filter (\<lambda>b. b \<noteq> a) (leases n')"
    using release_step [OF s(3) v] by blast+
  have so: "sorted (leases n)" "distinct (leases n)" using canonicalE [OF assms(1)] by blast+
  have "sorted (leases n'')" "distinct (leases n'')" "set (leases n'') = set (leases n)"
    using r(2) s(2,4) by (auto simp: sorted_wrt_filter)
  then have l: "leases n'' = leases n" using so sorted_distinct_set_unique by blast
  have "validate_net_cidr (config_get n'' ''cidr'') = Inr net" "first_of n'' = first_of n"
    "ip_limit n'' net = ip_limit n net"
    using s(1) by (simp_all add: n''(2) s(5) with_leases_def first_of_def ip_limit_def)
  then have "\<exists>n3. reserve_ip n'' = Inr (a, n3)"
    using assms(2) l unfolding reserve_ip_canonical [OF assms(1) s(1)]
    by (subst reserve_ip_canonical [OF r(1)]) (auto split: option.splits)
  with n''(1) l show ?thesis by blast
qed

theorem release_undoes_reserve_witness:
  "\<exists>n' n''. reserve_ip (demo_net ''nat_cloud'' [184483842]) = Inr (184483843, n') \<and>
     release_ip ''10.255.0.3'' n' = Inr (Some n'') \<and> leases n'' = [184483842]"
proof -
  let ?n = "demo_net ''nat_cloud'' [184483842]"
  have "\<forall>a\<in>set [184483842]. in_net a (184483840, 24) \<and> valid_ip a" by code_simp
  then have c: "canonical ?n" by (intro demo_net_canonical) simp_all
  have "case reserve_ip ?n of Inr p \<Rightarrow> fst p = 184483843 | Inl e \<Rightarrow> False" by code_simp
  then obtain n' where r: "reserve_ip ?n = Inr (184483843, n')" by (cases "reserve_ip ?n") auto
  have "str_ip 184483843 = ''10.255.0.3''" "leases ?n = [184483842]" by code_simp+
  with release_undoes_reserve [OF c r] r show ?thesis by metis
qed

text \<open>
  The allocator does not protect the gateway of a NAT cloud: with a configured gateway inside the
  static range, which normalisation accepts, the first lease is the gateway's own address.
\<close>

theorem gateway_is_leased:
  "\<exists>conf a n'. normalize_nat_cloud_config ''10.255.0.0/16'' (JObj [(''gateway'', JStr ''10.255.0.2'')]) (JObj []) [] = Inr conf \<and>
     reserve_ip (JObj [(''id'', JInt 1), (''type'', JStr ''nat_cloud''), (''config'', conf),
       (''runtime'', JObj [(''used_ips'', JList []), (''first_offset'', JInt 2)])]) = Inr (a, n') \<and>
     jget0 conf ''gateway'' = JStr (str_ip a)"
proof -
  define r where "r = normalize_nat_cloud_config ''10.255.0.0/16'' (JObj [(''gateway'', JStr ''10.255.0.2'')]) (JObj []) []"
  define net where "net = (\<lambda>conf. JObj [(''id'', JInt 1), (''type'', JStr ''nat_cloud''), (''config'', conf),
       (''runtime'', JObj [(''used_ips'', JList []), (''first_offset'', JInt 2)])])"
  have "case r of Inl e \<Rightarrow> False | Inr conf \<Rightarrow>
      (case reserve_ip (net conf) of Inl e \<Rightarrow> False | Inr p \<Rightarrow> jget0 conf ''gateway'' = JStr (str_ip (fst p)))"
    unfolding r_def net_def by code_simp
  then obtain conf p where "r = Inr conf" "reserve_ip (net conf) = Inr p" "jget0 conf ''gateway'' = JStr (str_ip (fst p))"
    by (auto split: sum.splits)
  then show ?thesis unfolding r_def net_def by (metis prod.collapse)
qed

end
