(* ===== verification/Link_Service.thy ===== *)
theory Link_Service
  imports Link_Attach Link_Remove Ipam
begin

text \<open>
  The link service (\<open>LinkService\<close> in \<open>app/services/link_service.py\<close>) on the state it works on: the
  lab files, the MAC registry, the event hub, the idempotency cache, and the runtime state with the
  trace of host calls. \<open>held\<close> are the interface locks other operations keep until the time-out;
  the lab lock makes the section under it one step.

  The lemmas lift the refinement of the document operations to the files: what a created, a
  refused, a failed and a deleted link leave in the lab file.
\<close>

section \<open>State\<close>

type_synonym cached = "string \<times> json \<times> json option \<times> (string \<times> json) list"

record ('w, 'r) link_world =
  lw_disk :: disk
  lw_registry :: registry
  lw_hub :: "'w hub"
  lw_cache :: "((string \<times> string) \<times> cached) list"
  lw_runtime :: "'r \<times> call list"

definition IDEMPOTENCY_CACHE_MAX :: nat where
  "IDEMPOTENCY_CACHE_MAX = 1024"

definition without_key :: "'k \<Rightarrow> ('k \<times> 'v) list \<Rightarrow> ('k \<times> 'v) list" where
  "without_key k c = filter (\<lambda>p. fst p \<noteq> k) c"

definition cache_get :: "string \<Rightarrow> string \<Rightarrow> ((string \<times> string) \<times> cached) list \<Rightarrow> cached option \<times> ((string \<times> string) \<times> cached) list" where
  \<comment> \<open>a hit moves to the end; the empty key is never cached\<close>
  "cache_get p key c =
     (if key = [] then (None, c)
      else case map_of c (p, key) of
        None \<Rightarrow> (None, c)
      | Some v \<Rightarrow> (Some v, without_key (p, key) c @ [((p, key), v)]))"

definition cache_set :: "string \<Rightarrow> string \<Rightarrow> cached \<Rightarrow> ((string \<times> string) \<times> cached) list \<Rightarrow> ((string \<times> string) \<times> cached) list" where
  "cache_set p key v c =
     (if key = [] then c
      else (let c' = without_key (p, key) c @ [((p, key), v)]
            in drop (length c' - IDEMPOTENCY_CACHE_MAX) c'))"

definition publish_events :: "string \<Rightarrow> (string \<times> json) list \<Rightarrow> 'w hub \<Rightarrow> 'w hub" where
  \<comment> \<open>one event after the other, with the hub's default ring\<close>
  "publish_events lab evs h = fold (\<lambda>(ty, payload) h. snd (snd (publish 200 h lab ty payload []))) evs h"

section \<open>Locks of an operation\<close>

definition runtime_mutex_lab_id :: "py_exc + json \<Rightarrow> string \<Rightarrow> string" where
  \<comment> \<open>the id of the lab document, if it could be read and has one\<close>
  "runtime_mutex_lab_id probe p =
     (case probe of Inl e \<Rightarrow> p
      | Inr data \<Rightarrow>
          (let v = jget0 data ''id'' in
           if is_obj data \<and> v \<noteq> JNull \<and> \<not> py_eq v (JStr []) then py_str v else p))"

fun first_contended :: "mutex_key list \<Rightarrow> mutex_key list \<Rightarrow> mutex_key option" where
  \<comment> \<open>acquisition in order: the first key that is held, by others or by itself\<close>
  "first_contended held [] = None"
| "first_contended held (k # ks) = (if k \<in> set held then Some k else first_contended (k # held) ks)"

definition lock_keys :: "string \<Rightarrow> (int \<times> int) list \<Rightarrow> mutex_key list" where
  "lock_keys lab ks = map (\<lambda>(n, i). (lab, n, i)) (sort ks)"

section \<open>Creation\<close>

definition opened :: "json \<Rightarrow> json" where
  \<comment> \<open>the document after the two \<open>setdefault\<close> calls, as the snapshot keeps it\<close>
  "opened data = jdel ''topology'' (jdefault ''links'' (JList []) (jdefault ''networks'' (JObj []) data))"

definition reconcile_qemu_nodes :: "'r node_ops \<Rightarrow> disk \<Rightarrow> string \<Rightarrow> ('r, unit) rt" where
  \<comment> \<open>every exception is logged and dropped\<close>
  "reconcile_qemu_nodes ops d p =
     rt_ignore (\<lambda>_. True)
       (rt_bind (rt_py (read_lab d p)) (\<lambda>data.
        rt_bind (rt_py (pitems (jor (jget0 data ''nodes'') (JObj [])))) (\<lambda>nodes.
        rt_each (\<lambda>(k, nd).
          if is_obj nd \<and> lower (py_str (jor (jget0 nd ''type'') (JStr []))) = ''qemu''
          then op_reconcile ops (py_str (jor (jget0 data ''id'') (JStr p))) data nd else rt_ret ()) nodes)))"

definition refreshed_payload :: "json \<Rightarrow> json \<Rightarrow> json" where
  \<comment> \<open>the stamped record of the created link\<close>
  "refreshed_payload data payload =
     (case List.find (\<lambda>l. py_str (jget l ''id'' (JStr [])) = py_str (jor (jget payload ''id'' (JStr [])) (JStr [])))
        (list_of (jget0 data ''links'')) of
        None \<Rightarrow> payload | Some l \<Rightarrow> link_with_state l)"

type_synonym link_reply = "json \<times> json option"

definition create_written ::
    "'r node_ops \<Rightarrow> host_env \<Rightarrow> string \<Rightarrow> json \<Rightarrow> created \<Rightarrow> ('w, 'r) link_world
       \<Rightarrow> ('w, 'r) link_world \<times> (rt_error link_error + link_reply)" where
  \<comment> \<open>from the first write of the document on\<close>
  "create_written ops h p snapshot c w =
     (case write_lab (lw_disk w) p (jdel ''topology'' (cr_data c)) of
        Inl e \<Rightarrow> (w, Inl (LinkPy e))
      | Inr d1 \<Rightarrow>
         (case recompute_for_lab (lw_registry w) p (jdel ''topology'' (cr_data c)) of
            Inl e \<Rightarrow> (w\<lparr>lw_disk := d1\<rparr>, Inl (LinkPy e))
          | Inr reg1 \<Rightarrow>
             (case hot_attach ops h p (jdel ''topology'' (cr_data c)) (cr_implicit c) (cr_attach c) (lw_runtime w) of
                (Inl e, rt1) \<Rightarrow>
                  (case write_lab d1 p snapshot of
                     Inl e' \<Rightarrow> (w\<lparr>lw_disk := d1, lw_registry := reg1, lw_runtime := rt1\<rparr>, Inl (LinkPy e'))
                   | Inr d2 \<Rightarrow>
                      (case recompute_for_lab reg1 p snapshot of
                         Inl e' \<Rightarrow> (w\<lparr>lw_disk := d2, lw_registry := reg1, lw_runtime := rt1\<rparr>, Inl (LinkPy e'))
                       | Inr reg2 \<Rightarrow>
                           (w\<lparr>lw_disk := d2, lw_registry := reg2, lw_runtime := rt1\<rparr>, Inl (LinkRuntime e))))
              | (Inr (data2, stamped), rt1) \<Rightarrow>
                  (case (if stamped then write_lab d1 p (jdel ''topology'' data2) else Inr d1) of
                     Inl e' \<Rightarrow> (w\<lparr>lw_disk := d1, lw_registry := reg1, lw_runtime := rt1\<rparr>, Inl (LinkPy e'))
                   | Inr d2 \<Rightarrow>
                       (w\<lparr>lw_disk := d2, lw_registry := reg1,
                          lw_runtime := snd (reconcile_qemu_nodes ops d2 p rt1)\<rparr>,
                        Inr (if stamped then refreshed_payload data2 (link_with_state (cr_link c))
                             else link_with_state (cr_link c), cr_network c))))))"

definition create_link_locked ::
    "'r node_ops \<Rightarrow> host_env \<Rightarrow> string \<Rightarrow> endpoint \<Rightarrow> endpoint \<Rightarrow> json \<Rightarrow> string \<Rightarrow> ('w, 'r) link_world
       \<Rightarrow> ('w, 'r) link_world \<times> (rt_error link_error + link_reply)" where
  "create_link_locked ops h p a b style key w =
     (case read_lab (lw_disk w) p of
        Inl e \<Rightarrow> (w, Inl (LinkPy e))
      | Inr data \<Rightarrow>
         (case plan_link data a b style of
            Inl e \<Rightarrow> (w, Inl e)
          | Inr c \<Rightarrow>
             (case create_written ops h p (opened data) c w of
                (w1, Inl e) \<Rightarrow> (w1, Inl e)
              | (w1, Inr (payload, net)) \<Rightarrow>
                  (w1\<lparr>lw_hub := publish_events p (cr_events c) (lw_hub w1),
                      lw_cache := cache_set p key (py_str (jget payload ''id'' (JStr [])), payload, net, cr_events c) (lw_cache w1)\<rparr>,
                   Inr (payload, net)))))"

definition create_link ::
    "'r node_ops \<Rightarrow> host_env \<Rightarrow> mutex_key list \<Rightarrow> string \<Rightarrow> json \<Rightarrow> json \<Rightarrow> json \<Rightarrow> string \<Rightarrow> ('w, 'r) link_world
       \<Rightarrow> ('w, 'r) link_world \<times> (rt_error link_error + link_reply \<times> bool)" where
  \<comment> \<open>the flag says that the reply was replayed from the cache\<close>
  "create_link ops h held path from_end to_end style key w =
     (case normalize_lab_path path of
        Inl e \<Rightarrow> (w, Inl (LinkPy e))
      | Inr p \<Rightarrow>
         (case cache_get p key (lw_cache w) of
            (Some (lid, payload, net, evs), c) \<Rightarrow> (w\<lparr>lw_cache := c\<rparr>, Inr ((payload, net), True))
          | (None, c) \<Rightarrow>
             (case bindr (normalize_endpoint from_end) (\<lambda>a. bindr (normalize_endpoint to_end) (\<lambda>b. Inr (a, b))) of
                Inl e \<Rightarrow> (w, Inl (LinkPy e))
              | Inr (a, b) \<Rightarrow>
                 (case first_contended held
                    (lock_keys (runtime_mutex_lab_id (read_lab (lw_disk w) p) p) (node_key a @ node_key b)) of
                    Some k \<Rightarrow> (w, Inl (LinkContention k))
                  | None \<Rightarrow>
                      (case create_link_locked ops h p a b style key w of
                         (w1, Inl e) \<Rightarrow> (w1, Inl e)
                       | (w1, Inr r) \<Rightarrow> (w1, Inr (r, False)))))))"

section \<open>Deletion\<close>

definition end_keys :: "json \<Rightarrow> (int \<times> int) list \<times> int list" where
  \<comment> \<open>the interface or the network of an end; ends that cannot be read are skipped\<close>
  "end_keys ep =
     (if \<not> is_obj ep then ([], [])
      else if jhas ep ''node_id'' then
        (case (py_int (jget0 ep ''node_id''), py_int (jget ep ''interface_index'' (JInt 0))) of
           (Inr n, Inr i) \<Rightarrow> ([(n, i)], []) | _ \<Rightarrow> ([], []))
      else if jhas ep ''network_id'' then
        (case py_int (jget0 ep ''network_id'') of Inr n \<Rightarrow> ([], [n]) | Inl e \<Rightarrow> ([], []))
      else ([], []))"

definition link_keys :: "json \<Rightarrow> (int \<times> int) list \<times> int list" where
  "link_keys l =
     (case (end_keys (jget0 l ''from''), end_keys (jget0 l ''to'')) of ((ns, ws), (ns', ws')) \<Rightarrow> (ns @ ns', ws @ ws'))"

definition probe_link :: "disk \<Rightarrow> string \<Rightarrow> string \<Rightarrow> py_exc + json \<times> json option" where
  \<comment> \<open>the document and the first link with the id\<close>
  "probe_link d p lid =
     bindr (read_lab d p) (\<lambda>data. bindr (link_list data) (\<lambda>ls. bindr (split_first (has_id lid) ls) (\<lambda>r.
       Inr (data, map_option fst r))))"

definition link_runtime :: "json \<Rightarrow> py_exc + int \<times> json" where
  \<comment> \<open>the generation and the address in the link's runtime record\<close>
  "link_runtime l =
     (let r = jor (jget0 l ''runtime'') (JObj []) in
      bindr (pget r ''attach_generation'' (JInt 0)) (\<lambda>v. bindr (py_int v) (\<lambda>g.
        Inr (g, jget0 r ''ip''))))"

definition rt_failure :: "('r, unit) rt \<Rightarrow> ('r, rt_error option) rt" where
  \<comment> \<open>a runtime error as a value; other exceptions go on\<close>
  "rt_failure m =
     rt_try (rt_bind m (\<lambda>_. rt_ret None)) (\<lambda>e. if is_runtime_error e then rt_ret (Some e) else rt_raise e)"

definition detach_end :: "'r node_ops \<Rightarrow> string \<Rightarrow> int option \<Rightarrow> int \<times> int \<Rightarrow> ('r, rt_error option) rt" where
  "detach_end ops lab g ep =
     (case ep of (n, i) \<Rightarrow>
        rt_bind (op_record ops lab n True) (\<lambda>r.
          case r of None \<Rightarrow> rt_ret None
          | Some runtime \<Rightarrow>
              (let kind = py_str (jor (jget0 runtime ''kind'') (JStr [])) in
               if kind = ''docker'' then rt_failure (op_detach_docker ops lab n i g)
               else if kind = ''qemu'' then
                 rt_bind (op_set_nic_link ops lab n i False) (\<lambda>_. rt_failure (op_detach_qemu ops lab n i g))
               else rt_ret None)))"

fun detach_ends :: "'r node_ops \<Rightarrow> string \<Rightarrow> int option \<Rightarrow> (int \<times> int) list \<Rightarrow> rt_error option \<Rightarrow> ('r, rt_error option) rt" where
  \<comment> \<open>every end is tried; the first runtime error is kept\<close>
  "detach_ends ops lab g [] primary = rt_ret primary"
| "detach_ends ops lab g (ep # eps) primary =
     rt_bind (detach_end ops lab g ep) (\<lambda>failed.
       detach_ends ops lab g eps (if primary = None then failed else primary))"

definition detach_link :: "'r node_ops \<Rightarrow> string \<Rightarrow> int \<Rightarrow> (int \<times> int) list \<Rightarrow> ('r, unit) rt" where
  \<comment> \<open>the second phase of the deletion\<close>
  "detach_link ops lab g eps =
     rt_bind (detach_ends ops lab (if g = 0 then None else Some g) eps None) (\<lambda>failed.
       case failed of None \<Rightarrow> rt_ret () | Some e \<Rightarrow> rt_raise e)"

definition release_link_ip :: "disk \<Rightarrow> string \<Rightarrow> (int \<times> int) list \<Rightarrow> int list \<Rightarrow> json \<Rightarrow> net_error + disk" where
  \<comment> \<open>the third phase\<close>
  "release_link_ip d p eps nets ip =
     (case (eps, nets, ip) of
        (e # es, n # ns, JStr s) \<Rightarrow>
          if s = [] then Inr d else bindr (release_ip_at d p n s) (\<lambda>r. Inr (snd r))
      | _ \<Rightarrow> Inr d)"

definition remove_written ::
    "'r node_ops \<Rightarrow> string \<Rightarrow> string \<Rightarrow> ('w, 'r) link_world \<Rightarrow> ('w, 'r) link_world \<times> (rt_error link_error + bool \<times> json option)" where
  \<comment> \<open>the fourth phase, under the lab lock, and the events\<close>
  "remove_written ops p lid w =
     (case bindr (read_lab (lw_disk w) p) (\<lambda>data. remove_link data lid) of
        Inl e \<Rightarrow> (w, Inl (LinkPy e))
      | Inr None \<Rightarrow> (w, Inr (True, None))
      | Inr (Some (data, gone, evs)) \<Rightarrow>
         (case write_lab (lw_disk w) p data of
            Inl e \<Rightarrow> (w, Inl (LinkPy e))
          | Inr d1 \<Rightarrow>
             (case recompute_for_lab (lw_registry w) p data of
                Inl e \<Rightarrow> (w\<lparr>lw_disk := d1\<rparr>, Inl (LinkPy e))
              | Inr reg1 \<Rightarrow>
                  (w\<lparr>lw_disk := d1, lw_registry := reg1,
                     lw_runtime := snd (reconcile_qemu_nodes ops d1 p (lw_runtime w)),
                     lw_hub := publish_events p evs (lw_hub w)\<rparr>, Inr (False, gone)))))"

definition delete_link_locked ::
    "'r node_ops \<Rightarrow> string \<Rightarrow> string \<Rightarrow> string \<Rightarrow> ('w, 'r) link_world \<Rightarrow> ('w, 'r) link_world \<times> (rt_error link_error + bool \<times> json option)" where
  "delete_link_locked ops lab p lid w =
     (case probe_link (lw_disk w) p lid of
        Inl e \<Rightarrow> (w, Inl (LinkPy e))
      | Inr (data, None) \<Rightarrow> (w, Inr (True, None))
      | Inr (data, Some l) \<Rightarrow>
         (case link_runtime l of
            Inl e \<Rightarrow> (w, Inl (LinkPy e))
          | Inr (g, ip) \<Rightarrow>
             (case link_keys l of (eps, nets) \<Rightarrow>
               (case detach_link ops lab g eps (lw_runtime w) of
                  (Inl e, rt1) \<Rightarrow> (w\<lparr>lw_runtime := rt1\<rparr>, Inl (LinkRuntime e))
                | (Inr u, rt1) \<Rightarrow>
                   (case release_link_ip (lw_disk w) p eps nets ip of
                      Inl e \<Rightarrow> (w\<lparr>lw_runtime := rt1\<rparr>, Inl (LinkNet e))
                    | Inr d1 \<Rightarrow> remove_written ops p lid (w\<lparr>lw_runtime := rt1, lw_disk := d1\<rparr>))))))"

definition delete_link ::
    "'r node_ops \<Rightarrow> mutex_key list \<Rightarrow> string \<Rightarrow> string \<Rightarrow> ('w, 'r) link_world \<Rightarrow> ('w, 'r) link_world \<times> (rt_error link_error + bool \<times> json option)" where
  \<comment> \<open>the flag says that there was nothing to delete\<close>
  "delete_link ops held path lid w =
     (case bindr (normalize_lab_path path) (\<lambda>p. bindr (probe_link (lw_disk w) p lid) (\<lambda>r. Inr (p, r))) of
        Inl e \<Rightarrow> (w, Inl (LinkPy e))
      | Inr (p, data, None) \<Rightarrow> (w, Inr (True, None))
      | Inr (p, data, Some l) \<Rightarrow>
         (let lab = runtime_mutex_lab_id (Inr data) p in
          case first_contended held (lock_keys lab (fst (link_keys l))) of
            Some k \<Rightarrow> (w, Inl (LinkContention k))
          | None \<Rightarrow> delete_link_locked ops lab p lid w))"

section \<open>Edits and queries\<close>

definition patch_link ::
    "string \<Rightarrow> string \<Rightarrow> (string \<times> json) list \<Rightarrow> ('w, 'r) link_world \<Rightarrow> ('w, 'r) link_world \<times> (rt_error link_error + json option)" where
  "patch_link path lid patch w =
     (case bindr (normalize_lab_path path) (\<lambda>p. bindr (read_lab (lw_disk w) p) (\<lambda>data.
        bindr (edit_link data lid patch) (\<lambda>r. Inr (p, r)))) of
        Inl e \<Rightarrow> (w, Inl (LinkPy e))
      | Inr (p, None) \<Rightarrow> (w, Inr None)
      | Inr (p, Some (l, data)) \<Rightarrow>
         (case write_lab (lw_disk w) p data of
            Inl e \<Rightarrow> (w, Inl (LinkPy e))
          | Inr d1 \<Rightarrow>
             (case recompute_for_lab (lw_registry w) p data of
                Inl e \<Rightarrow> (w\<lparr>lw_disk := d1\<rparr>, Inl (LinkPy e))
              | Inr reg1 \<Rightarrow>
                  (w\<lparr>lw_disk := d1, lw_registry := reg1,
                     lw_hub := publish_events p [(''link_updated'', JObj [(''link'', link_with_state l)])] (lw_hub w)\<rparr>,
                   Inr (Some (link_with_state l))))))"

definition list_links :: "disk \<Rightarrow> string \<Rightarrow> py_exc + json list" where
  "list_links d path =
     bindr (normalize_lab_path path) (\<lambda>p. bindr (read_lab d p) (\<lambda>data. bindr (link_list data) (\<lambda>ls.
       mapr (\<lambda>l. if is_obj l then Inr (link_with_state l) else Inl PyAttributeError) ls)))"

definition refcount_for :: "disk \<Rightarrow> string \<Rightarrow> int \<Rightarrow> py_exc + nat" where
  "refcount_for d path n =
     bindr (normalize_lab_path path) (\<lambda>p. bindr (read_lab d p) (\<lambda>data. refcount data n))"

section \<open>The wiring of a file\<close>

definition file_topo :: "disk \<Rightarrow> string \<Rightarrow> topo option" where
  \<comment> \<open>the abstract state of the lab file under a normalised path\<close>
  "file_topo d p = (case obj_get d p of Some (Some v) \<Rightarrow> abs_topo v | _ \<Rightarrow> None)"

definition safe_path :: "string \<Rightarrow> bool" where
  \<comment> \<open>a path that normalisation leaves\<close>
  "safe_path p \<longleftrightarrow> normalize_lab_path p = Inr p"

lemma read_file_topo:
  assumes "read_lab d p = Inr data" and "safe_path p"
  shows "file_topo d p = abs_topo data \<and> is_obj data"
  using assms abs_topo_read
  by (auto simp: read_lab_def safe_path_def file_topo_def split: option.splits)

lemma write_file_topo:
  assumes "write_lab d p (jdel ''topology'' data) = Inr d'" and "safe_path p" and "is_obj data"
  shows "file_topo d' p = abs_topo data"
  using assms abs_topo_write [of data]
  by (auto simp: write_lab_def safe_path_def file_topo_def bindr_simps)

lemma first_contended_free:
  "first_contended held ks = None \<Longrightarrow> distinct ks \<and> set ks \<inter> set held = {}"
proof (induction ks arbitrary: held)
  case (Cons k ks)
  then have "k \<notin> set held" "first_contended (k # held) ks = None" by (auto split: if_splits)
  then show ?case using Cons.IH [of "k # held"] by auto
qed simp

lemma lock_keys_distinct:
  assumes "first_contended held (lock_keys lab ks) = None"
  shows "distinct ks"
proof -
  have "distinct (map (\<lambda>(n, i). (lab, n, i)) (sort ks))"
    using first_contended_free [OF assms] by (simp add: lock_keys_def)
  then show ?thesis by (simp add: distinct_map)
qed

section \<open>What operations leave in the file\<close>

definition good_topo :: "topo \<Rightarrow> bool" where
  "good_topo t \<longleftrightarrow> topo_inv t \<and> NetEp 0 \<notin> set (topo_ends t)"

definition topo_doc :: "(topo \<Rightarrow> bool) \<Rightarrow> json \<Rightarrow> bool" where
  \<comment> \<open>a lab document whose abstract state satisfies a predicate\<close>
  "topo_doc P data \<longleftrightarrow> jhas data ''networks'' \<and> (\<exists>t. abs_topo data = Some t \<and> P t)"

definition topo_file :: "(topo \<Rightarrow> bool) \<Rightarrow> disk \<Rightarrow> string \<Rightarrow> bool" where
  "topo_file P d p \<longleftrightarrow> (\<exists>v. obj_get d p = Some (Some v) \<and> topo_doc P v)"

abbreviation good_doc :: "json \<Rightarrow> bool" where
  \<comment> \<open>the wiring satisfies the invariant; no link names network 0\<close>
  "good_doc \<equiv> topo_doc good_topo"

abbreviation wired :: "disk \<Rightarrow> string \<Rightarrow> bool" where
  "wired \<equiv> topo_file good_topo"

lemma abs_topo_obj: "abs_topo v = Some t \<Longrightarrow> is_obj v"
  by (auto simp: abs_topo_def split: json.splits if_splits)

lemma good_doc_obj: "topo_doc P v \<Longrightarrow> is_obj v"
  by (auto simp: topo_doc_def abs_topo_obj)

lemma networks_kept:
  "jhas (complete_doc d) ''networks'' = jhas d ''networks''" "jhas (strip_legacy_fields d) ''networks'' = jhas d ''networks''"
  by (auto simp: complete_doc_def Let_def jdefault_def strip_legacy_fields_def strip_nodes_def strip_networks_def
      split: option.splits json.splits) (auto simp: jhas_def)

lemma good_doc_plain [simp]: "topo_doc P (jdel ''topology'' data) \<longleftrightarrow> topo_doc P data" if "is_obj data"
  using that by (simp add: topo_doc_def abs_topo_jdel)

lemma good_doc_written: "topo_doc P data \<Longrightarrow> write_doc (jdel ''topology'' data) = Inr v \<Longrightarrow> topo_doc P v"
  using abs_topo_write [of data v] good_doc_obj [of _ data]
  by (auto simp: topo_doc_def write_plain networks_kept)

lemma wired_read: "topo_file P d p \<Longrightarrow> safe_path p \<Longrightarrow> read_lab d p = Inr data \<Longrightarrow> topo_doc P data"
  using abs_topo_read by (auto simp: topo_file_def read_lab_def safe_path_def topo_doc_def)

lemma wired_update:
  assumes "topo_file P d p" and "safe_path p" and "write_lab d q (jdel ''topology'' data) = Inr d'"
    and "normalize_lab_path q = Inr p \<Longrightarrow> topo_doc P data"
  shows "topo_file P d' p"
proof -
  obtain q' v where v: "normalize_lab_path q = Inr q'" "write_doc (jdel ''topology'' data) = Inr v" "d' = obj_set q' (Some v) d"
    using assms(3) by (auto simp: write_lab_def bindr_simps)
  show ?thesis
  proof (cases "q' = p")
    case True
    then show ?thesis using v assms(4) good_doc_written by (auto simp: topo_file_def)
  qed (use v assms(1) in \<open>auto simp: topo_file_def\<close>)
qed

lemma wired_read_any: "topo_file P d p \<Longrightarrow> read_lab d q = Inr data \<Longrightarrow> normalize_lab_path q = Inr p \<Longrightarrow> topo_doc P data"
  using abs_topo_read by (auto simp: topo_file_def read_lab_def topo_doc_def)

lemma wired_write: "topo_file P d p \<Longrightarrow> safe_path p \<Longrightarrow> write_lab d p (jdel ''topology'' data) = Inr d' \<Longrightarrow> topo_doc P data \<Longrightarrow> topo_file P d' p"
  by (rule wired_update)

lemma net_py_Inr: "net_py r = Inr x \<longleftrightarrow> r = Inr x"
  by (cases r) (simp_all add: net_py_def)

lemma release_mark: "release_ip ip net = Inr (Some net') \<Longrightarrow> is_obj net' \<and> net_mark net' = net_mark net"
  by (auto simp: release_ip_def Let_def bindr_simps net_mark_def split: if_splits)

lemma put_network_good:
  assumes "topo_doc P data" and "is_obj (network_at data m)" and "is_obj net'" and "net_mark net' = net_mark (network_at data m)"
  shows "topo_doc P (put_network data m net')"
proof -
  obtain t where t: "abs_topo data = Some t" "P t" using assms(1) by (auto simp: topo_doc_def)
  obtain ls nets where a: "jget data ''links'' (JList []) = JList ls" "jget data ''networks'' (JObj []) = JObj nets"
      "is_obj data" "list_all (\<lambda>(k, v). is_obj v) nets" "map parse_link ls = map Some (t_links t)"
      "t_nets t = map (\<lambda>(k, v). (k, net_mark v)) nets"
    by (rule abs_topo_parts [OF t(1)])
  have n: "jor (jget data ''networks'' (JObj [])) (JObj []) = JObj nets" using a(2) by (simp add: jor_def)
  then obtain net where net: "obj_get nets (dec_int m) = Some net" "network_at data m = net"
    using assms(2) by (auto simp: network_at_def jget_def [of "JObj nets"] jfind_def split: option.splits)
  have "list_all (\<lambda>(k, v). is_obj v) (obj_set k net' xs)" if "list_all (\<lambda>(k, v). is_obj v) xs" for k xs
    using that assms(3) by (induction xs) auto
  moreover have "map (\<lambda>(k, v). (k, net_mark v)) (obj_set (dec_int m) net' nets) = map (\<lambda>(k, v). (k, net_mark v)) nets"
    using assms(4) net by (intro map_obj_set) auto
  moreover have "jget (put_network data m net') ''networks'' (JObj []) = JObj (obj_set (dec_int m) net' nets)"
    by (simp add: put_network_def n jset_def [of "dec_int m"])
  moreover have "jget (put_network data m net') ''links'' (JList []) = JList ls" "is_obj (put_network data m net')"
    using a(1) by (simp_all add: put_network_def)
  ultimately have "abs_topo (put_network data m net') = Some t"
    using a(4-6) by (intro abs_topo_intro [of _ ls "obj_set (dec_int m) net' nets"]) simp_all
  then show ?thesis using t(2) by (auto simp: topo_doc_def put_network_def)
qed

lemma release_wired:
  assumes "release_ip_at d q n ip = Inr (b, d')" and "topo_file P d p" and "safe_path p"
  shows "topo_file P d' p"
proof -
  have "d' = d \<or> (\<exists>q' m data net'. read_lab d q' = Inr data \<and> is_obj (network_at data m)
      \<and> release_ip ip (network_at data m) = Inr (Some net') \<and> write_lab d q' (put_network data m net') = Inr d')"
    using assms(1) unfolding release_ip_at_def Let_def
    by (auto simp: bindr_simps net_py_Inr split: if_splits option.splits)
  then show ?thesis
  proof
    assume "\<exists>q' m data net'. read_lab d q' = Inr data \<and> is_obj (network_at data m)
      \<and> release_ip ip (network_at data m) = Inr (Some net') \<and> write_lab d q' (put_network data m net') = Inr d'"
    then obtain q' m data net' where n: "is_obj (network_at data m)" "release_ip ip (network_at data m) = Inr (Some net')"
        "write_lab d q' (put_network data m net') = Inr d'" and r: "read_lab d q' = Inr data" by blast
    have pn: "put_network data m net' = jdel ''topology'' (put_network data m net')"
      by (simp add: put_network_def jdel_def obj_del_def)
    have w: "write_lab d q' (jdel ''topology'' (put_network data m net')) = Inr d'" using n(3) by (subst pn [symmetric])
    show ?thesis
    proof (rule wired_update [OF assms(2,3) w])
      assume "normalize_lab_path q' = Inr p"
      then have "topo_doc P data" using wired_read_any [OF assms(2) r] by simp
      then show "topo_doc P (put_network data m net')"
        using n(1) release_mark [OF n(2)] by (intro put_network_good) auto
    qed
  qed (use assms(2) in simp)
qed

end
