(* ===== verification/Network_Service.thy ===== *)
theory Network_Service
  imports Link_Service
begin

text \<open>
  Networks of a lab (\<open>NetworkService\<close> in \<open>app/services/network_service.py\<close>): the runtime of a NAT
  cloud, creation with its two-step commit and rollback, deletion, edits and the listing. The
  operations act on the same world as those of the link service. Messages of errors are shortened
  to their fixed parts.
\<close>

datatype net_fail = NsErr net_error | NsHost host_error

abbreviation ns_err :: "int \<Rightarrow> string \<Rightarrow> net_fail" where
  "ns_err code msg \<equiv> NsErr (NetErr code msg)"

definition ns_py :: "py_exc + 'a \<Rightarrow> net_fail + 'a" where
  "ns_py r = (case r of Inl e \<Rightarrow> Inl (NsErr (NetPy e)) | Inr x \<Rightarrow> Inr x)"

definition ns_net :: "net_error + 'a \<Rightarrow> net_fail + 'a" where
  "ns_net r = (case r of Inl e \<Rightarrow> Inl (NsErr e) | Inr x \<Rightarrow> Inr x)"

lemma ns_simps [simp]:
  "ns_py (Inl e) = Inl (NsErr (NetPy e))" "ns_py (Inr x) = Inr x" "ns_net (Inl e') = Inl (NsErr e')" "ns_net (Inr x) = Inr x"
  by (simp_all add: ns_py_def ns_net_def)

lemma ns_Inr [bindr_simps]: "ns_py r = Inr x \<longleftrightarrow> r = Inr x" "ns_net r' = Inr x \<longleftrightarrow> r' = Inr x"
  by (cases r; simp) (cases r'; simp)

type_synonym 'a net_host = "(call, net_fail, 'a) traced"

definition on_host :: "'a host \<Rightarrow> 'a net_host" where
  "on_host m tr = (case m tr of (Inl e, tr') \<Rightarrow> (Inl (NsHost e), tr') | (Inr x, tr') \<Rightarrow> (Inr x, tr'))"

definition need :: "json \<Rightarrow> string \<Rightarrow> py_exc + json" where
  \<comment> \<open>\<open>d[k]\<close> for a dictionary\<close>
  "need d k = (case jfind d k of None \<Rightarrow> Inl PyKeyError | Some v \<Rightarrow> Inr v)"

section \<open>Names\<close>

definition network_excluded :: "int option \<Rightarrow> string \<times> json \<Rightarrow> bool" where
  "network_excluded ex p =
     (case (ex, p) of (Some n, (key, net)) \<Rightarrow> py_int (jget net ''id'' (JStr key)) = Inr n | _ \<Rightarrow> False)"

definition carries_name :: "string \<Rightarrow> json \<Rightarrow> bool" where
  "carries_name target net =
     (case jget0 net ''name'' of JStr s \<Rightarrow> lower (strip s) = target | _ \<Rightarrow> False)"

definition network_name_in_use :: "json \<Rightarrow> string \<Rightarrow> int option \<Rightarrow> py_exc + bool" where
  "network_name_in_use networks name ex =
     (let target = lower (strip name) in
      if target = [] then Inr False
      else bindr (pitems networks) (\<lambda>kvs. Inr (list_ex (\<lambda>(key, net).
        is_obj net \<and> jget0 net ''implicit'' \<noteq> JBool True \<and> \<not> network_excluded ex (key, net) \<and> carries_name target net) kvs)))"

section \<open>Runtime of a NAT cloud\<close>

definition bridge_gateway_cidr :: "json \<Rightarrow> net_error + string" where
  "bridge_gateway_cidr config =
     bindr (validate_net_cidr (jget0 config ''cidr'')) (\<lambda>c. bindr (validate_ipv4_text (jget0 config ''gateway'')) (\<lambda>g.
       Inr (str_ip g @ ''/'' @ dec (snd c))))"

definition nat_prepare :: "host_env \<Rightarrow> json \<Rightarrow> (string \<times> string \<times> json) net_host" where
  \<comment> \<open>the gateway with its prefix length, the egress interface, and the network that records it\<close>
  "nat_prepare h network =
     (let config = config_of network in
      if \<not> is_obj config then raise (ns_err 422 ''NAT-Cloud config must be an object.'')
      else andthen (lift (ns_net (bridge_gateway_cidr config))) (\<lambda>gw.
        let given = strip (py_str (jor (jget0 config ''egress_interface'') (JStr []))) in
        andthen (if given \<noteq> [] then ret given else on_host (default_egress_iface h)) (\<lambda>egress.
          if egress = [] then raise (ns_err 409 ''Host has no default-route interface for NAT-Cloud egress.'')
          else if \<not> is_obj (runtime_of network) then raise (NsErr (NetPy PyTypeError))
          else ret (gw, egress, jset ''runtime'' (jset ''egress_interface'' (JStr egress) (runtime_of network)) network))))"

definition put_changed :: "(string \<times> json) list \<Rightarrow> json \<Rightarrow> json \<times> bool" where
  \<comment> \<open>sets the fields that differ and says whether there were any\<close>
  "put_changed kvs runtime =
     fold (\<lambda>(k, v) (r, ch). if py_eq (jget0 r k) v then (r, ch) else (jset k v r, True)) kvs (runtime, False)"

definition nat_start :: "host_env \<Rightarrow> string \<Rightarrow> string \<Rightarrow> string \<Rightarrow> json \<Rightarrow> (json \<times> bool) net_host" where
  \<comment> \<open>the host side and the desired runtime record\<close>
  "nat_start h bridge gw egress network =
     (let config = config_of network; cidr = py_str (jget0 config ''cidr''); gateway = py_str (jget0 config ''gateway'');
          dhcp = truthy (jget config ''dhcp'' (JBool True))
      in andthen (on_host (bridge_addr_add h bridge gw)) (\<lambda>_.
         andthen (on_host (link_up h bridge)) (\<lambda>_.
         andthen (on_host (ipv4_forward_enable h)) (\<lambda>_.
         andthen (on_host (nat_apply h bridge cidr egress)) (\<lambda>_.
         andthen (on_host (forward_apply h bridge cidr egress)) (\<lambda>_.
         andthen (if dhcp
             then andthen (lift (ns_py (need config ''dhcp_start''))) (\<lambda>lo.
                  andthen (lift (ns_py (need config ''dhcp_end''))) (\<lambda>hi.
                    on_host (dnsmasq_start h bridge gateway (py_str lo) (py_str hi))))
             else andthen (on_host (dnsmasq_stop h bridge)) (\<lambda>_. ret 0)) (\<lambda>pid.
         andthen (lift (ns_py (need config ''dhcp_start''))) (\<lambda>lo.
         andthen (lift (ns_py (need config ''dhcp_end''))) (\<lambda>hi.
           case put_changed [(''bridge_name'', JStr bridge), (''driver'', JStr NAT_CLOUD_TYPE), (''gateway'', JStr gateway),
               (''egress_interface'', JStr egress), (''dhcp'', JBool dhcp), (''dhcp_start'', JStr (py_str lo)),
               (''dhcp_end'', JStr (py_str hi)), (''dhcp_pid'', JInt pid), (''nat'', JStr ''nftables'')] (runtime_of network) of
             (r, changed) \<Rightarrow> ret (jset ''runtime'' r network, changed))))))))))"

definition ensure_nat_cloud_runtime :: "host_env \<Rightarrow> json \<Rightarrow> string \<Rightarrow> call list \<Rightarrow> ((net_fail + bool) \<times> json) \<times> call list" where
  \<comment> \<open>the network as it is left, also after an error\<close>
  "ensure_nat_cloud_runtime h network bridge tr =
     (case nat_prepare h network tr of
        (Inl e, tr1) \<Rightarrow> ((Inl e, network), tr1)
      | (Inr (gw, egress, net1), tr1) \<Rightarrow>
          (case nat_start h bridge gw egress net1 tr1 of
             (Inl e, tr2) \<Rightarrow> ((Inl e, net1), tr2)
           | (Inr (net2, changed), tr2) \<Rightarrow> ((Inr changed, net2), tr2)))"

section \<open>Creation\<close>

definition type_of :: "json \<Rightarrow> string" where
  "type_of d = py_str (jor (jget d ''type'' (JStr ''linux_bridge'')) (JStr ''linux_bridge''))"

definition request_config :: "json \<Rightarrow> json" where
  "request_config request = (if is_obj (config_of request) then config_of request else JObj [])"

definition as_dict :: "json \<Rightarrow> py_exc + json" where
  \<comment> \<open>\<open>dict(v)\<close> for a JSON value other than a list of pairs\<close>
  "as_dict v =
     (case v of JObj kvs \<Rightarrow> Inr v | JStr s \<Rightarrow> if s = [] then Inr (JObj []) else Inl PyValueError
      | JList xs \<Rightarrow> if xs = [] then Inr (JObj []) else Inl PyTypeError | _ \<Rightarrow> Inl PyTypeError)"

definition shared_config :: "(string \<times> json) list \<Rightarrow> string \<Rightarrow> net_error + json \<times> json" where
  \<comment> \<open>\<open>_normalize_shared_nat_cloud_config\<close>: the owner's configuration and runtime\<close>
  "shared_config fs cid =
     (case find_nat_cloud_owner fs cid of
        None \<Rightarrow> Inl (NetErr 404 ''NAT-Cloud shared_cloud_id does not reference an existing owner.'')
      | Some owner \<Rightarrow>
          if list_ex (\<lambda>i. ref_cloud_id (item_ref i) = cid \<and> \<not> safe_for_reuse i) (list_nat_clouds fs)
          then Inl (NetErr 409 ''NAT-Cloud owner is not safe to reuse'')
          else if \<not> is_obj (config_of (ref_network owner)) \<or> \<not> truthy (jget0 (config_of (ref_network owner)) ''cidr'')
          then Inl (NetErr 409 ''NAT-Cloud owner is missing reusable configuration.'')
          else bindr (net_py (as_dict (jor (jget0 (ref_network owner) ''runtime'') (JObj [])))) (\<lambda>r.
            Inr (jset ''shared_cloud_id'' (JStr cid) (config_of (ref_network owner)), r)))"

definition plan_config :: "string \<Rightarrow> (string \<times> json) list \<Rightarrow> string \<Rightarrow> json \<Rightarrow> json \<Rightarrow> net_error + json \<times> json \<times> string" where
  \<comment> \<open>the configuration to store, the runtime of a shared owner, and the owner's id\<close>
  "plan_config pool fs ty raw networks =
     (if ty \<noteq> NAT_CLOUD_TYPE then Inr (raw, JObj [], [])
      else (let cid = (case jget0 raw ''shared_cloud_id'' of JNull \<Rightarrow> [] | v \<Rightarrow> strip (py_str v))
            in if cid \<noteq> [] then bindr (shared_config fs cid) (\<lambda>(c, r). Inr (c, r, cid))
               else bindr (normalize_nat_cloud_config pool raw networks (owner_cidrs fs None)) (\<lambda>c. Inr (c, JObj [], []))))"

definition host_bridge_of :: "host_env \<Rightarrow> string \<Rightarrow> json \<Rightarrow> string option net_host" where
  \<comment> \<open>the checked bridge of a Bridge-Cloud\<close>
  "host_bridge_of h ty config =
     (if ty \<noteq> BRIDGE_CLOUD_TYPE then ret None
      else case jget0 config ''host_bridge'' of
        JStr b \<Rightarrow>
          if \<not> is_host_bridge_name b then raise (ns_err 400 ''config.host_bridge must match ^br-eth[0-9]+$'')
          else andthen (on_host (bridge_exists h b)) (\<lambda>there.
            if there then ret (Some b) else raise (ns_err 404 ''Host bridge not found.''))
      | _ \<Rightarrow> raise (ns_err 400 ''config.host_bridge must match ^br-eth[0-9]+$''))"

definition fresh_network_id :: "(string \<times> json) list \<Rightarrow> int" where
  "fresh_network_id kvs = int (next_number (map undec (filter isdigit (map fst kvs))))"

definition network_bridge :: "host_env \<Rightarrow> string \<Rightarrow> int \<Rightarrow> string option \<Rightarrow> string \<Rightarrow> json \<Rightarrow> host_error + json" where
  \<comment> \<open>the bridge to record: the host's own, the owner's, or the derived name\<close>
  "network_bridge h lab n host_bridge cid owner_runtime =
     (case host_bridge of Some b \<Rightarrow> Inr (JStr b)
      | None \<Rightarrow>
          if cid \<noteq> [] \<and> truthy (jget0 owner_runtime ''bridge_name'') then Inr (jget0 owner_runtime ''bridge_name'')
          else bindr (bridge_name (cfg h) lab n) (\<lambda>b. Inr (JStr b)))"

definition network_record :: "int \<Rightarrow> string \<Rightarrow> string \<Rightarrow> int \<Rightarrow> int \<Rightarrow> json \<Rightarrow> json \<Rightarrow> string \<Rightarrow> json" where
  "network_record n name ty x y config bridge now =
     JObj [(''id'', JInt n), (''name'', JStr name), (''type'', JStr ty), (''left'', JInt x), (''top'', JInt y),
       (''icon'', JStr ''01-Cloud-Default.svg''), (''width'', JInt 0), (''style'', JStr ''Solid''),
       (''linkstyle'', JStr ''Straight''), (''color'', JStr []), (''label'', JStr []), (''visibility'', JBool True),
       (''implicit'', JBool False), (''smart'', JInt (- 1)), (''config'', config),
       (''runtime'', JObj [(''bridge_name'', bridge),
          (''driver'', JStr (if ty = NAT_CLOUD_TYPE \<or> ty = BRIDGE_CLOUD_TYPE then ty else ''linux_bridge'')),
          (''created_at'', JStr now), (''used_ips'', JList []),
          (''first_offset'', JInt (if ty = NAT_CLOUD_TYPE then 2 else DEFAULT_FIRST_OFFSET))])]"

definition cloud_runtime :: "json \<Rightarrow> bool \<Rightarrow> json \<Rightarrow> py_exc + json" where
  \<comment> \<open>the update of the runtime record of a NAT cloud\<close>
  "cloud_runtime config shared runtime =
     bindr (need config ''gateway'') (\<lambda>g. bindr (need config ''dhcp_start'') (\<lambda>lo. bindr (need config ''dhcp_end'') (\<lambda>hi.
       Inr (jupdate [(''gateway'', g), (''dhcp'', jget config ''dhcp'' (JBool True)), (''dhcp_start'', lo), (''dhcp_end'', hi),
         (''shared_owner'', JBool (\<not> shared)), (''shared_reference'', JBool shared)] runtime))))"

definition provision_bridge :: "host_env \<Rightarrow> string \<Rightarrow> string \<Rightarrow> int \<Rightarrow> string \<Rightarrow> unit net_host" where
  \<comment> \<open>the bridge of the lab itself: a foreign one is refused, a new one is marked or removed again\<close>
  "provision_bridge h bridge lab n now =
     andthen (on_host (bridge_exists h bridge)) (\<lambda>there.
       if there then andthen (on_host (bridge_fingerprint_check h bridge lab n)) (\<lambda>st.
         if st = FpMatch then ret ()
         else andthen (on_host (bridge_fingerprint_read h bridge)) (\<lambda>_. raise (NsHost HostNetBridgeOwnershipError)))
       else andthen (on_host (bridge_add h bridge)) (\<lambda>_.
         catch (on_host (bridge_fingerprint_write h bridge lab n now)) (\<lambda>e.
           andthen (on_host (host_try (bridge_del h bridge) ())) (\<lambda>_. raise e))))"

definition own_cloud :: "string \<Rightarrow> string \<Rightarrow> bool" where
  "own_cloud ty cid \<longleftrightarrow> ty = NAT_CLOUD_TYPE \<and> cid = []"

definition provision :: "host_env \<Rightarrow> string \<Rightarrow> string \<Rightarrow> string \<Rightarrow> string \<Rightarrow> int \<Rightarrow> string \<Rightarrow> json \<Rightarrow> call list \<Rightarrow> ((net_fail + unit) \<times> json) \<times> call list" where
  \<comment> \<open>after the first write: the result, and the network as it is left\<close>
  "provision h ty cid bridge lab n now network tr =
     (case (if ty = BRIDGE_CLOUD_TYPE \<or> ty = NAT_CLOUD_TYPE \<and> cid \<noteq> [] then ret () else provision_bridge h bridge lab n now) tr of
        (Inl e, tr1) \<Rightarrow> ((Inl e, network), tr1)
      | (Inr u, tr1) \<Rightarrow>
          if \<not> own_cloud ty cid then ((Inr (), network), tr1)
          else (case ensure_nat_cloud_runtime h network bridge tr1 of
                  ((Inl e, net1), tr2) \<Rightarrow> ((Inl e, net1), tr2)
                | ((Inr ch, net1), tr2) \<Rightarrow> ((Inr (), net1), tr2)))"

definition rolls_back :: "net_fail \<Rightarrow> bool" where
  \<comment> \<open>the exceptions whose handlers restore the file\<close>
  "rolls_back e =
     (case e of NsErr (NetErr c m) \<Rightarrow> True | NsErr (NetPy x) \<Rightarrow> False | NsHost x \<Rightarrow> is_HostNetError x \<or> x = OSError)"

definition reported :: "net_fail \<Rightarrow> net_fail" where
  \<comment> \<open>what the handlers raise\<close>
  "reported e =
     (case e of NsHost x \<Rightarrow> if x = HostNetBridgeOwnershipError then e else ns_err 409 ''Failed to provision bridge''
      | NsErr x \<Rightarrow> e)"

definition cleans_cloud :: "net_fail \<Rightarrow> bool" where
  \<comment> \<open>the runtime of an own cloud is taken down, except after an ownership error\<close>
  "cleans_cloud e \<longleftrightarrow> e \<noteq> NsHost HostNetBridgeOwnershipError"

record new_network =
  nn_data :: json
  nn_lab :: string
  nn_id :: int
  nn_type :: string
  nn_cid :: string
  nn_bridge :: json
  nn_record :: json

definition new_data :: "new_network \<Rightarrow> json \<Rightarrow> json" where
  \<comment> \<open>the document with the network under its number\<close>
  "new_data c net =
     jdel ''topology'' (jset ''networks'' (jset (dec_int (nn_id c)) net (jget (nn_data c) ''networks'' (JObj []))) (nn_data c))"

definition old_data :: "new_network \<Rightarrow> json \<Rightarrow> json" where
  \<comment> \<open>what a rollback writes\<close>
  "old_data c net =
     (let d = new_data c net in jset ''networks'' (jdel (dec_int (nn_id c)) (jget0 d ''networks'')) d)"

definition plan_network ::
    "host_env \<Rightarrow> string \<Rightarrow> string \<Rightarrow> disk \<Rightarrow> string \<Rightarrow> json \<Rightarrow> new_network net_host" where
  \<comment> \<open>up to the first write\<close>
  "plan_network h pool now d p request =
     (let raw = request_config request; ty = type_of request; name = strip (py_str (jor (jget0 request ''name'') (JStr [])))
      in andthen (lift (ns_net (if truthy (jget0 raw ''cidr'') \<and> ty \<noteq> NAT_CLOUD_TYPE
                                then bindr (validate_net_cidr (jget0 raw ''cidr'')) (\<lambda>_. Inr ()) else Inr ()))) (\<lambda>_.
         if name = [] then raise (ns_err 422 ''Network name must be non-empty.'')
         else andthen (lift (ns_py (read_lab d p))) (\<lambda>data0.
           let lab = py_str (jor (jget0 data0 ''id'') (JStr p)); data = jdefault ''networks'' (JObj []) data0;
               networks = jget0 data ''networks''
           in andthen (lift (ns_py (network_name_in_use networks name None))) (\<lambda>used.
              if used then raise (ns_err 409 ''A network with this name already exists in this lab.'')
              else andthen (lift (ns_net (plan_config pool (parsed_files d) ty raw networks))) (\<lambda>(config, owner_runtime, cid).
                andthen (host_bridge_of h ty config) (\<lambda>hb.
                let n = fresh_network_id (obj_of networks) in
                andthen (on_host (lift (network_bridge h lab n hb cid owner_runtime))) (\<lambda>bridge.
                andthen (lift (ns_py (py_int (jget request ''left'' (JInt 0))))) (\<lambda>x.
                andthen (lift (ns_py (py_int (jget request ''top'' (JInt 0))))) (\<lambda>y.
                let net = network_record n name ty x y config bridge now in
                andthen (if ty = NAT_CLOUD_TYPE
                    then andthen (lift (ns_py (cloud_runtime config (cid \<noteq> []) (runtime_of net)))) (\<lambda>r. ret (jset ''runtime'' r net))
                    else ret net) (\<lambda>net1.
                  ret \<lparr>nn_data = data, nn_lab = lab, nn_id = n, nn_type = ty, nn_cid = cid, nn_bridge = bridge, nn_record = net1\<rparr>))))))))))"

definition network_created ::
    "host_env \<Rightarrow> string \<Rightarrow> string \<Rightarrow> new_network \<Rightarrow> ('w, 'r) link_world \<Rightarrow> ('w, 'r) link_world \<times> (net_fail + json)" where
  \<comment> \<open>from the first write on\<close>
  "network_created h now p c w =
     (case write_lab (lw_disk w) p (new_data c (nn_record c)) of
        Inl e \<Rightarrow> (w, Inl (NsErr (NetPy e)))
      | Inr d1 \<Rightarrow>
         (case provision h (nn_type c) (nn_cid c) (py_str (nn_bridge c)) (nn_lab c) (nn_id c) now (nn_record c) (snd (lw_runtime w)) of
            ((Inl e, net), tr) \<Rightarrow>
              (let w1 = w\<lparr>lw_disk := d1, lw_runtime := (fst (lw_runtime w), tr)\<rparr> in
               if \<not> rolls_back e then (w1, Inl e)
               else (case write_lab d1 p (old_data c net) of
                  Inl e' \<Rightarrow> (w1, Inl (NsErr (NetPy e')))
                | Inr d2 \<Rightarrow>
                   (case (if own_cloud (nn_type c) (nn_cid c) \<and> cleans_cloud e
                          then teardown_nat_cloud h (py_str (nn_bridge c)) net else ret ()) tr of
                      (Inl x, tr') \<Rightarrow> (w1\<lparr>lw_disk := d2, lw_runtime := (fst (lw_runtime w), tr')\<rparr>, Inl (NsHost x))
                    | (Inr u, tr') \<Rightarrow> (w1\<lparr>lw_disk := d2, lw_runtime := (fst (lw_runtime w), tr')\<rparr>, Inl (reported e)))))
          | ((Inr u, net), tr) \<Rightarrow>
              (let w1 = w\<lparr>lw_disk := d1, lw_runtime := (fst (lw_runtime w), tr)\<rparr> in
               case (if own_cloud (nn_type c) (nn_cid c) then write_lab d1 p (new_data c net) else Inr d1) of
                 Inl e \<Rightarrow> (w1, Inl (NsErr (NetPy e)))
               | Inr d2 \<Rightarrow>
                  (case recompute_for_lab (lw_registry w) p (new_data c net) of
                     Inl e \<Rightarrow> (w1\<lparr>lw_disk := d2\<rparr>, Inl (NsErr (NetPy e)))
                   | Inr reg \<Rightarrow>
                      (let payload = jset ''count'' (JInt 0) net in
                       (w1\<lparr>lw_disk := d2, lw_registry := reg,
                          lw_hub := publish_events p [(''network_created'', JObj [(''network'', payload)])] (lw_hub w)\<rparr>,
                        Inr payload))))))"

definition create_network ::
    "host_env \<Rightarrow> string \<Rightarrow> string \<Rightarrow> string \<Rightarrow> json \<Rightarrow> ('w, 'r) link_world \<Rightarrow> ('w, 'r) link_world \<times> (net_fail + json)" where
  "create_network h pool now path request w =
     (case normalize_lab_path path of
        Inl e \<Rightarrow> (w, Inl (NsErr (NetPy e)))
      | Inr p \<Rightarrow>
         (case plan_network h pool now (lw_disk w) p request (snd (lw_runtime w)) of
            (Inl e, tr) \<Rightarrow> (w\<lparr>lw_runtime := (fst (lw_runtime w), tr)\<rparr>, Inl e)
          | (Inr c, tr) \<Rightarrow> network_created h now p c (w\<lparr>lw_runtime := (fst (lw_runtime w), tr)\<rparr>)))"

section \<open>Deletion\<close>

definition networks_of_doc :: "json \<Rightarrow> json" where
  \<comment> \<open>\<open>data.get("networks", {}) or {}\<close>\<close>
  "networks_of_doc data = jor (jget data ''networks'' (JObj [])) (JObj [])"

definition owner_in_use :: "(string \<times> json) list \<Rightarrow> string \<Rightarrow> int \<Rightarrow> bool" where
  \<comment> \<open>other labs reference the cloud this network owns\<close>
  "owner_in_use fs p n =
     (case List.find (\<lambda>r. ref_lab_path r = p \<and> ref_network_id r = n \<and> \<not> is_reference r) (cloud_refs fs) of
        None \<Rightarrow> False | Some r \<Rightarrow> references_to_cloud fs (ref_cloud_id r) \<noteq> [])"

definition deletable :: "(string \<times> json) list \<Rightarrow> string \<Rightarrow> json \<Rightarrow> int \<Rightarrow> net_fail + json" where
  \<comment> \<open>the record of a network that may go\<close>
  "deletable fs p data n =
     bindr (ns_py (pget (networks_of_doc data) (dec_int n) JNull)) (\<lambda>net.
       if \<not> is_obj net \<or> jget0 net ''implicit'' = JBool True then Inl (ns_err 404 ''Network does not exist.'')
       else bindr (ns_py (refcount data n)) (\<lambda>c.
         if 0 < c then Inl (ns_err 409 ''Cannot delete network with active attachments.'')
         else if net_type net = NAT_CLOUD_TYPE \<and> shared_id net = [] \<and> owner_in_use fs p n
         then Inl (ns_err 409 ''Cannot delete NAT-Cloud owner while it is used by another lab.'')
         else Inr net))"

definition without_network :: "json \<Rightarrow> int \<Rightarrow> json" where
  "without_network data n = jdel ''topology'' (jset ''networks'' (jdel (dec_int n) (networks_of_doc data)) data)"

definition teardown_network :: "host_env \<Rightarrow> string \<Rightarrow> int \<Rightarrow> json \<Rightarrow> unit host" where
  \<comment> \<open>host-owned bridges and the owner's bridge of a shared cloud stay\<close>
  "teardown_network h lab n net =
     andthen (lift_py (pget (jor (jget0 net ''runtime'') (JObj [])) ''bridge_name'' JNull)) (\<lambda>recorded.
       let bridge = (if truthy recorded then recorded
                     else case bridge_name (cfg h) lab n of Inl e \<Rightarrow> JNull | Inr b \<Rightarrow> JStr b)
       in if \<not> truthy bridge \<or> net_type net = BRIDGE_CLOUD_TYPE \<or> net_driver net = JStr BRIDGE_CLOUD_TYPE
             \<or> net_type net = NAT_CLOUD_TYPE \<and> shared_id net \<noteq> [] then ret ()
          else (case bridge of
            JStr b \<Rightarrow>
              andthen (if net_type net = NAT_CLOUD_TYPE then teardown_nat_cloud h b net else ret ()) (\<lambda>_.
                host_try (bridge_del h b) ())
          | _ \<Rightarrow> raise (Py PyTypeError)))"

definition delete_network ::
    "host_env \<Rightarrow> string \<Rightarrow> int \<Rightarrow> ('w, 'r) link_world \<Rightarrow> ('w, 'r) link_world \<times> (net_fail + json)" where
  "delete_network h path n w =
     (case bindr (ns_py (normalize_lab_path path)) (\<lambda>p. bindr (ns_py (read_lab (lw_disk w) p)) (\<lambda>data.
        bindr (deletable (parsed_files (lw_disk w)) p data n) (\<lambda>net.
        bindr (ns_py (write_lab (lw_disk w) p (without_network data n))) (\<lambda>d1. Inr (p, data, net, d1))))) of
        Inl e \<Rightarrow> (w, Inl e)
      | Inr (p, data, net, d1) \<Rightarrow>
         (case recompute_for_lab (lw_registry w) p (without_network data n) of
            Inl e \<Rightarrow> (w\<lparr>lw_disk := d1\<rparr>, Inl (NsErr (NetPy e)))
          | Inr reg \<Rightarrow>
             (case teardown_network h (py_str (jor (jget0 data ''id'') (JStr p))) n net (snd (lw_runtime w)) of
                (Inl e, tr) \<Rightarrow>
                  (w\<lparr>lw_disk := d1, lw_registry := reg, lw_runtime := (fst (lw_runtime w), tr)\<rparr>, Inl (NsHost e))
              | (Inr u, tr) \<Rightarrow>
                  (w\<lparr>lw_disk := d1, lw_registry := reg, lw_runtime := (fst (lw_runtime w), tr),
                     lw_hub := publish_events p [(''network_deleted'', JObj [(''network'', net)])] (lw_hub w)\<rparr>, Inr net))))"

section \<open>Edits\<close>

definition set_name :: "json \<Rightarrow> int \<Rightarrow> json \<Rightarrow> json \<Rightarrow> net_fail + json \<times> bool" where
  \<comment> \<open>the network with its new name, and whether it is promoted\<close>
  "set_name networks n v net =
     (let implicit = (jget0 net ''implicit'' = JBool True) in
      if v = JNull then (if implicit then Inr (net, False) else Inl (ns_err 422 ''cannot un-name a promoted bridge''))
      else (let name = strip (py_str v) in
        bindr (if name = [] then Inr False else ns_py (network_name_in_use networks name (Some n))) (\<lambda>used.
          if used then Inl (ns_err 409 ''A network with this name already exists in this lab.'')
          else if name \<noteq> [] \<and> implicit
          then Inr (jset ''visibility'' (JBool True) (jset ''implicit'' (JBool False) (jset ''name'' (JStr name) net)), True)
          else Inr (jset ''name'' (JStr name) net, False))))"

definition patch_refused :: "json \<Rightarrow> json \<Rightarrow> bool" where
  \<comment> \<open>type to or from Bridge-Cloud, a host bridge, the configuration of a Bridge-Cloud, service fields\<close>
  "patch_refused net patch \<longleftrightarrow>
     (let ty = type_of net; new_ty = jget0 patch ''type''; new_config = jget0 patch ''config'' in
      (new_ty \<noteq> JNull \<and> new_ty \<noteq> JStr ty \<and> (new_ty = JStr BRIDGE_CLOUD_TYPE \<or> ty = BRIDGE_CLOUD_TYPE))
      \<or> (is_obj new_config \<and> jhas new_config ''host_bridge'' \<and> ty \<noteq> BRIDGE_CLOUD_TYPE)
      \<or> (ty = BRIDGE_CLOUD_TYPE \<and> jhas patch ''config'')
      \<or> (\<exists>k\<in>set [''runtime'', ''id'', ''implicit'']. jhas patch k))"

definition NETWORK_FIELDS :: "string list" where
  "NETWORK_FIELDS = [''type'', ''left'', ''top'', ''icon'', ''visibility'', ''config'']"

definition set_fields :: "json \<Rightarrow> json \<Rightarrow> json" where
  "set_fields patch net =
     fold (\<lambda>k net. if jget0 patch k \<noteq> JNull then jset k (jget0 patch k) net else net) NETWORK_FIELDS net"

definition edit_network :: "json \<Rightarrow> int \<Rightarrow> json \<Rightarrow> net_fail + json \<times> bool" where
  "edit_network data n patch =
     bindr (ns_py (pget (networks_of_doc data) (dec_int n) JNull)) (\<lambda>net.
       if \<not> is_obj net then Inl (ns_err 404 ''Network does not exist.'')
       else bindr (if jhas patch ''name'' then set_name (networks_of_doc data) n (jget0 patch ''name'') net else Inr (net, False))
         (\<lambda>(net1, promoted).
           if patch_refused net patch then Inl (ns_err 422 ''PATCH cannot make this change.'')
           else Inr (set_fields patch net1, promoted)))"

definition patch_network ::
    "string \<Rightarrow> int \<Rightarrow> json \<Rightarrow> ('w, 'r) link_world \<Rightarrow> ('w, 'r) link_world \<times> (net_fail + json \<times> string)" where
  "patch_network path n patch w =
     (case bindr (ns_py (normalize_lab_path path)) (\<lambda>p. bindr (ns_py (read_lab (lw_disk w) p)) (\<lambda>data.
        bindr (edit_network data n patch) (\<lambda>(net, promoted).
        bindr (ns_py (write_lab (lw_disk w) p (put_network data n net))) (\<lambda>d1. Inr (p, data, net, promoted, d1))))) of
        Inl e \<Rightarrow> (w, Inl e)
      | Inr (p, data, net, promoted, d1) \<Rightarrow>
         (case recompute_for_lab (lw_registry w) p (put_network data n net) of
            Inl e \<Rightarrow> (w\<lparr>lw_disk := d1\<rparr>, Inl (NsErr (NetPy e)))
          | Inr reg \<Rightarrow>
             (case refcount (put_network data n net) n of
                Inl e \<Rightarrow> (w\<lparr>lw_disk := d1, lw_registry := reg\<rparr>, Inl (NsErr (NetPy e)))
              | Inr c \<Rightarrow>
                  (let payload = jset ''count'' (JInt (int c)) net;
                       event = (if promoted then ''network_promoted'' else ''network_updated'') in
                   (w\<lparr>lw_disk := d1, lw_registry := reg,
                      lw_hub := publish_events p [(event, JObj [(''network'', payload)])] (lw_hub w)\<rparr>, Inr (payload, event))))))"

section \<open>Listing\<close>

definition listed :: "bool \<Rightarrow> json \<Rightarrow> string \<times> json \<Rightarrow> (string \<times> json) list \<Rightarrow> py_exc + (string \<times> json) list" where
  \<comment> \<open>one round of the loop\<close>
  "listed hidden data p out =
     (case p of (key, net) \<Rightarrow>
        if \<not> is_obj net \<or> \<not> hidden \<and> (jget0 net ''implicit'' = JBool True \<or> jget0 net ''visibility'' = JBool False) then Inr out
        else (case py_int (jget net ''id'' (JStr key)) of
                Inl e \<Rightarrow> Inr out
              | Inr n \<Rightarrow> bindr (refcount data n) (\<lambda>c. Inr (obj_set (dec_int n) (jset ''count'' (JInt (int c)) net) out))))"

definition list_networks :: "disk \<Rightarrow> string \<Rightarrow> bool \<Rightarrow> py_exc + (string \<times> json) list" where
  "list_networks d path hidden =
     bindr (normalize_lab_path path) (\<lambda>p. bindr (read_lab d p) (\<lambda>data.
       bindr (pitems (networks_of_doc data)) (\<lambda>kvs. forr (listed hidden data) kvs [])))"

end
