(* ===== verification/Link_Wiring.thy ===== *)
theory Link_Wiring
  imports Link_Service
begin

text \<open>
  Every request of the link service, refused and failed ones included, keeps the wiring of a lab
  file: no interface on two links, no link to a missing network, and two ends on every implicit
  network. A link of a creation has at most one network end (\<open>one_network\<close>). The end of the theory
  holds a small lab the examples start from.
\<close>

section \<open>Created links\<close>

lemma good_opened: "good_doc data \<Longrightarrow> good_doc (jdefault ''links'' (JList []) (jdefault ''networks'' (JObj []) data))"
  using good_doc_obj [of _ data] by (auto simp: topo_doc_def abs_topo_default_links abs_topo_default_nets)

lemma net_ids_mem: "k \<in> set (net_ids a) \<longleftrightarrow> a = NetEp k"
  by (cases a) auto

lemma planned_good:
  assumes "plan_link data a b style = (Inr c :: rt_error link_error + created)" and "good_doc data"
    and "length (net_ids a @ net_ids b) \<le> 1" and "0 \<notin> set (net_ids a @ net_ids b)" and "distinct (node_key a @ node_key b)"
  shows "good_doc (cr_data c)"
proof -
  obtain t where t: "abs_topo data = Some t" "topo_inv t" "NetEp 0 \<notin> set (topo_ends t)"
    using assms(2) by (auto simp: topo_doc_def good_topo_def)
  from create_refines_topology [where 'x = rt_error, OF t(1) assms(4), of style]
  obtain t' where t': "topo_create t a b = Some t'" "abs_topo (cr_data c) = Some t'" by (auto simp: assms(1))
  have "topo_inv t'" by (rule topo_create_inv [OF t(2) t'(1) assms(3,5)])
  moreover have "NetEp 0 \<notin> set (topo_ends t')"
    using topo_create_ends [OF t'(1), of "NetEp 0"] t(3) assms(4) topo_network_id_pos [of t] by (auto simp: net_ids_mem)
  ultimately show ?thesis using t'(2) plan_has_networks [OF assms(1)] by (auto simp: topo_doc_def good_topo_def)
qed

lemma attached_good:
  assumes "hot_attach ops h p (jdel ''topology'' data) m ls s = (Inr (data2, stamped), s')" and "good_doc data"
  shows "good_doc data2"
proof -
  obtain t where t: "wiring_is t True (jdel ''topology'' data)" "good_topo t"
    using good_doc_plain [of data] good_doc_obj [OF assms(2)] assms(2) by (auto simp: topo_doc_def wiring_is_def)
  from hot_attach_wiring [OF assms(1) t(1)] t(2) show ?thesis by (auto simp: topo_doc_def wiring_is_def)
qed

lemma create_written_wired:
  assumes "create_written ops h q (opened data) c w = (w', r)" and "wired (lw_disk w) p" and "safe_path p"
    and good: "normalize_lab_path q = Inr p \<Longrightarrow> good_doc (cr_data c) \<and> good_doc data"
  shows "wired (lw_disk w') p"
proof -
  note put = wired_update [OF _ assms(3)]
  show ?thesis
  proof (cases "write_lab (lw_disk w) q (jdel ''topology'' (cr_data c))")
    case (Inl e)
    then show ?thesis using assms(1,2) by (auto simp: create_written_def)
  next
    case d1: (Inr d1)
    then have w1: "wired d1 p" using put assms(2) good by blast
    have restored: "wired d2 p" if "write_lab d1 q (opened data) = Inr d2" for d2
      using put [OF w1] that good_opened good by (simp add: opened_def)
    have marked: "wired d2 p"
      if "hot_attach ops h q (jdel ''topology'' (cr_data c)) (cr_implicit c) (cr_attach c) (lw_runtime w) = (Inr (data2, b), s)"
        and "(if b then write_lab d1 q (jdel ''topology'' data2) else Inr d1) = Inr d2" for data2 b s d2
      using that(2) put [OF w1] attached_good [OF that(1)] good w1 by (auto split: if_splits)
    show ?thesis
      using assms(1) w1 restored marked unfolding create_written_def d1
      by (auto split: sum.splits prod.splits)
  qed
qed

lemma create_locked_wired:
  assumes "create_link_locked ops h q a b style key w = (w', r)" and "wired (lw_disk w) p" and "safe_path p"
    and "length (net_ids a @ net_ids b) \<le> 1" and "0 \<notin> set (net_ids a @ net_ids b)" and "distinct (node_key a @ node_key b)"
  shows "wired (lw_disk w') p"
proof -
  have "wired (lw_disk w1) p" if "read_lab (lw_disk w) q = Inr data" "plan_link data a b style = (Inr c :: rt_error link_error + created)"
      "create_written ops h q (opened data) c w = (w1, r1)" for data c w1 r1
    using create_written_wired [OF that(3) assms(2,3)] planned_good [OF that(2) _ assms(4-6)]
      wired_read_any [OF assms(2) that(1)] by blast
  then show ?thesis
    using assms(1,2) unfolding create_link_locked_def
    by (auto split: sum.splits prod.splits)
qed

lemma create_link_wired:
  assumes "create_link ops h held path f t style key w = (w', r)" and "wired (lw_disk w) p" and "safe_path p"
    and "\<And>a b. normalize_endpoint f = Inr a \<Longrightarrow> normalize_endpoint t = Inr b \<Longrightarrow>
      length (net_ids a @ net_ids b) \<le> 1 \<and> 0 \<notin> set (net_ids a @ net_ids b)"
  shows "wired (lw_disk w') p"
proof -
  have "wired (lw_disk w1) p" if "normalize_endpoint f = Inr a" "normalize_endpoint t = Inr b"
      "first_contended held (lock_keys lab (node_key a @ node_key b)) = None"
      "create_link_locked ops h q a b style key w = (w1, r1)" for a b lab q w1 r1
    using create_locked_wired [OF that(4) assms(2,3)] assms(4) [OF that(1,2)] lock_keys_distinct [OF that(3)] by blast
  then show ?thesis
    using assms(1,2) unfolding create_link_def
    by (auto simp: bindr_simps split: sum.splits prod.splits option.splits)
qed

section \<open>Removed and edited links\<close>

lemma jdel_twice [simp]: "jdel k (jdel k d) = jdel k d"
  by (cases d) (simp_all add: jdel_def obj_del_def)

lemma topo_ends_mono: "set (t_links t) \<subseteq> set (t_links t') \<Longrightarrow> set (topo_ends t) \<subseteq> set (topo_ends t')"
  by (auto simp: topo_ends_def)

lemma cascades_subset: "set (t_links (fold topo_cascade ns t)) \<subseteq> set (t_links t)"
proof (induction ns arbitrary: t)
  case (Cons n ns)
  have "set (t_links (topo_cascade n t)) \<subseteq> set (t_links t)"
    using drop_first_subset [of "on_net n" "t_links t"] by (simp add: topo_cascade_def)
  then show ?case using Cons.IH [of "topo_cascade n t"] by auto
qed simp

lemma topo_delete_subset: "set (t_links (topo_delete t s)) \<subseteq> set (t_links t)"
proof (cases "List.find (\<lambda>l. fst l = s) (t_links t)")
  case (Some x)
  obtain s' a b where x: "x = (s', a, b)" by (cases x)
  show ?thesis
    using cascades_subset [of "net_ids a @ net_ids b" "t\<lparr>t_links := drop_first (\<lambda>l. fst l = s) (t_links t)\<rparr>"]
      drop_first_subset [of "\<lambda>l. fst l = s" "t_links t"] Some
    by (simp add: topo_delete_def x Let_def gcs_links)
qed (simp add: topo_delete_def)

lemma topo_delete_ends: "set (topo_ends (topo_delete t s)) \<subseteq> set (topo_ends t)"
  by (rule topo_ends_mono [OF topo_delete_subset])

lemma topo_delete_good: "good_topo t \<Longrightarrow> good_topo (topo_delete t s)"
  using topo_delete_inv [of t s] topo_delete_ends [of t s] by (auto simp: good_topo_def)

lemma removed_good:
  assumes "remove_link data lid = Inr (Some (data', gone, evs))" and "good_doc data"
  shows "\<exists>data0. data' = jdel ''topology'' data0 \<and> good_doc data0"
proof -
  obtain t where t: "abs_topo data = Some t" "good_topo t" "jhas data ''networks''"
    using assms(2) by (auto simp: topo_doc_def)
  then have "abs_topo data' = Some (topo_delete t lid)"
    using remove_refines [OF t(1) _ t(3), of lid] assms(1) by (auto simp: good_topo_def)
  moreover obtain data1 nets where "data' = jdel ''topology'' (jset ''networks'' nets data1)"
    using assms(1) by (auto simp: remove_link_def Let_def bindr_simps split: option.splits)
  ultimately show ?thesis
    using topo_delete_good [OF t(2), of lid] by (intro exI [of _ data']) (simp add: topo_doc_def)
qed

lemma wired_updated:
  assumes "wired d p" and "safe_path p" and "write_lab d q data' = Inr d'"
    and "normalize_lab_path q = Inr p \<Longrightarrow> \<exists>data0. data' = jdel ''topology'' data0 \<and> good_doc data0"
  shows "wired d' p"
proof (cases "normalize_lab_path q = Inr p")
  case True
  then show ?thesis using assms wired_update [OF assms(1,2)] by blast
next
  case False
  then show ?thesis using assms(1,3) by (auto simp: write_lab_def bindr_simps topo_file_def)
qed

lemma edited_good:
  assumes "edit_link data lid patch = Inr (Some (l, data'))" and "good_doc data"
  shows "\<exists>data0. data' = jdel ''topology'' data0 \<and> good_doc data0"
proof -
  obtain t where t: "abs_topo data = Some t" "good_topo t" "jhas data ''networks''"
    using assms(2) by (auto simp: topo_doc_def)
  obtain ls where ls: "data' = jdel ''topology'' (jset ''links'' ls data)"
    using assms(1) by (auto simp: edit_link_def bindr_simps)
  show ?thesis
    using t ls edit_keeps_topo [OF assms(1) t(1)]
    by (intro exI [of _ data']) (simp add: topo_doc_def)
qed

lemma remove_written_wired:
  assumes "remove_written ops q lid w = (w', r)" and "wired (lw_disk w) p" and "safe_path p"
  shows "wired (lw_disk w') p"
proof -
  have "wired d1 p" if "read_lab (lw_disk w) q = Inr data" "remove_link data lid = Inr (Some (data', gone, evs))"
      "write_lab (lw_disk w) q data' = Inr d1" for data data' gone evs d1
    using wired_updated [OF assms(2,3) that(3)] removed_good [OF that(2)] wired_read_any [OF assms(2) that(1)] by blast
  then show ?thesis
    using assms(1,2) unfolding remove_written_def
    by (auto split: sum.splits option.splits prod.splits simp: bindr_simps)
qed

lemma release_link_wired:
  "release_link_ip d q eps nets ip = Inr d' \<Longrightarrow> wired d p \<Longrightarrow> safe_path p \<Longrightarrow> wired d' p"
  by (auto simp: release_link_ip_def bindr_simps split: list.splits json.splits if_splits dest: release_wired)

lemma delete_locked_wired:
  assumes "delete_link_locked ops lab q lid w = (w', r)" and "wired (lw_disk w) p" and "safe_path p"
  shows "wired (lw_disk w') p"
proof -
  have "wired (lw_disk w') p"
    if "release_link_ip (lw_disk w) q eps nets ip = Inr d1" "remove_written ops q lid (w\<lparr>lw_runtime := rt1, lw_disk := d1\<rparr>) = (w', r)"
    for eps nets ip d1 rt1
    using remove_written_wired [OF that(2) _ assms(3)] release_link_wired [OF that(1) assms(2,3)] by simp
  then show ?thesis
    using assms(1,2) unfolding delete_link_locked_def
    by (auto split: sum.splits option.splits prod.splits dest: release_link_wired [OF _ _ assms(3)])
qed

lemma delete_link_wired:
  assumes "delete_link ops held path lid w = (w', r)" and "wired (lw_disk w) p" and "safe_path p"
  shows "wired (lw_disk w') p"
  using assms unfolding delete_link_def Let_def
  by (auto split: sum.splits option.splits prod.splits dest: delete_locked_wired)

lemma patch_link_wired:
  assumes "patch_link path lid patch w = (w', r)" and "wired (lw_disk w) p" and "safe_path p"
  shows "wired (lw_disk w') p"
proof -
  have "wired d1 p" if "read_lab (lw_disk w) q = Inr data" "edit_link data lid patch = Inr (Some (l, data'))"
      "write_lab (lw_disk w) q data' = Inr d1" for q data data' l d1
    using wired_updated [OF assms(2,3) that(3)] edited_good [OF that(2)] wired_read_any [OF assms(2) that(1)] by blast
  then show ?thesis
    using assms(1,2) unfolding patch_link_def
    by (auto split: sum.splits option.splits prod.splits simp: bindr_simps)
qed

section \<open>Requests of links with one network end\<close>

definition one_network :: "json \<Rightarrow> json \<Rightarrow> bool" where
  \<comment> \<open>at most one end is a network, and it is not network 0\<close>
  "one_network f t =
     (case (normalize_endpoint f, normalize_endpoint t) of
        (Inr a, Inr b) \<Rightarrow> length (net_ids a @ net_ids b) \<le> 1 \<and> 0 \<notin> set (net_ids a @ net_ids b)
      | _ \<Rightarrow> True)"

definition idle_ops :: "unit node_ops" where
  \<comment> \<open>a runtime without running nodes\<close>
  "idle_ops =
     \<lparr>op_record = \<lambda>lab n b. rt_ret None, op_attach_docker = \<lambda>lab n i g b. rt_ret JNull, op_attach_qemu = \<lambda>lab n i g b. rt_ret JNull,
      op_detach_docker = \<lambda>lab n i g. rt_ret (), op_detach_qemu = \<lambda>lab n i g. rt_ret (), op_set_nic_link = \<lambda>lab n i b. rt_ret (),
      op_qmp = \<lambda>a b c. rt_ret (), op_persist = \<lambda>r. rt_ret (), op_reconcile = \<lambda>lab d n. rt_ret (), op_now = ''now''\<rparr>"

definition bare_lab :: json where
  \<comment> \<open>a lab document without nodes as the backend writes it\<close>
  "bare_lab = JObj [(''schema'', JInt 2), (''id'', JStr ''lab''), (''nodes'', JObj []), (''networks'', JObj []), (''links'', JList []),
     (''viewport'', JObj [(''x'', JInt 0), (''y'', JInt 0), (''zoom'', JFloat ''1.0'' 1 True)]),
     (''defaults'', JObj [(''link_style'', JStr ''orthogonal'')]), (''schema_version'', JInt 2)]"

definition demo_links :: "(nat, unit) link_world" where
  "demo_links = \<lparr>lw_disk = [(''a.json'', Some bare_lab)], lw_registry = (\<lambda>_. None), lw_hub = (\<lambda>_. None), lw_cache = [], lw_runtime = ((), [])\<rparr>"

definition node_end :: "int \<Rightarrow> int \<Rightarrow> json" where
  "node_end n i = JObj [(''node_id'', JInt n), (''interface_index'', JInt i)]"

lemma bare_topo: "abs_topo bare_lab = Some \<lparr>t_links = [], t_nets = []\<rparr>"
  by (simp add: abs_topo_def bare_lab_def jget_def jfind_def)

lemma demo_links_wired: "wired (lw_disk demo_links) ''a.json''" "safe_path ''a.json''"
proof -
  have "good_doc bare_lab"
    unfolding topo_doc_def bare_topo
    by (auto simp: bare_lab_def jhas_def jfind_def good_topo_def topo_inv_def topo_ifaces_def topo_ends_def topo_implicit_def)
  then show "wired (lw_disk demo_links) ''a.json''" by (simp add: topo_file_def demo_links_def)
  show "safe_path ''a.json''" unfolding safe_path_def by code_simp
qed

end
