(* ===== verification/Link_Results.thy ===== *)
theory Link_Results
  imports Link_Wiring
begin

text \<open>
  What the replies of the link service say about the lab file: creation and deletion refine the
  abstract topology of \<open>Link_Topology\<close>, refusals and failed attachments leave the file as it was,
  and a repeated request is answered from the cache.
\<close>

section \<open>Creation refines the specification\<close>

lemma written_topo:
  assumes "create_written ops h p snapshot c w = (w', Inr r)" and "safe_path p" and "abs_topo (cr_data c) = Some t'"
  shows "file_topo (lw_disk w') p = Some t'"
proof -
  have o: "is_obj (cr_data c)" using abs_topo_obj [OF assms(3)] .
  obtain d1 where d1: "write_lab (lw_disk w) p (jdel ''topology'' (cr_data c)) = Inr d1"
    using assms(1) by (auto simp: create_written_def split: sum.splits)
  have w1: "file_topo d1 p = Some t'" using write_file_topo [OF d1 assms(2) o] assms(3) by simp
  have "file_topo d2 p = Some t'"
    if "hot_attach ops h p (jdel ''topology'' (cr_data c)) (cr_implicit c) (cr_attach c) (lw_runtime w) = (Inr (data2, b), s)"
      and "(if b then write_lab d1 p (jdel ''topology'' data2) else Inr d1) = Inr d2" for data2 b s d2
  proof (cases b)
    case True
    have "wiring_is t' (jhas (cr_data c) ''networks'') data2"
      using hot_attach_wiring [OF that(1), of t'] o assms(3) by (simp add: wiring_is_def abs_topo_jdel)
    then have "abs_topo data2 = Some t'" by (simp add: wiring_is_def)
    then show ?thesis using write_file_topo [of d1 p data2 d2] that(2) True assms(2) abs_topo_obj by auto
  qed (use that(2) w1 in simp)
  then show ?thesis using assms(1) unfolding create_written_def d1 by (auto split: sum.splits prod.splits)
qed

text \<open>
  C2. When a link is created (and its reply is not a replay), the lab file afterwards holds the
  abstract topology the specification gives for its two ends, which allows them: no duplicate of a
  link in either direction, no interface on two links, an existing network.
\<close>
theorem created_link_refines:
  assumes "create_link ops h held path f t style key w = (w', Inr (reply, False))"
    and "normalize_lab_path path = Inr p" and "safe_path p" and "file_topo (lw_disk w) p = Some s"
    and "normalize_endpoint f = Inr a" and "normalize_endpoint t = Inr b" and "0 \<notin> set (net_ids a @ net_ids b)"
  shows "topo_create s a b \<noteq> None \<and> file_topo (lw_disk w') p = topo_create s a b"
proof -
  obtain w1 where w1: "create_link_locked ops h p a b style key w = (w1, Inr reply)" "w' = w1"
    using assms(1,2,5,6) by (auto simp: create_link_def bindr_simps split: prod.splits option.splits sum.splits)
  obtain data c w2 r where c: "read_lab (lw_disk w) p = Inr data" "plan_link data a b style = (Inr c :: rt_error link_error + created)"
      "create_written ops h p (opened data) c w = (w2, Inr r)" "lw_disk w1 = lw_disk w2"
    using w1(1) by (auto simp: create_link_locked_def split: sum.splits prod.splits)
  have "abs_topo data = Some s" using read_file_topo [OF c(1) assms(3)] assms(4) by simp
  from create_refines_topology [where 'x = rt_error, OF this assms(7), of style]
  obtain s' where "topo_create s a b = Some s'" "abs_topo (cr_data c) = Some s'" by (auto simp: c(2))
  then show ?thesis using written_topo [OF c(3) assms(3)] c(4) w1(2) by simp
qed

lemma create_written_errors:
  "create_written ops h p snapshot c w = (w', Inl e) \<Longrightarrow> (\<exists>x. e = LinkPy x) \<or> (\<exists>x. e = LinkRuntime x)"
  by (auto simp: create_written_def split: sum.splits prod.splits if_splits)

definition refusal :: "rt_error link_error \<Rightarrow> bool" where
  \<comment> \<open>the errors the routers turn into conflicts\<close>
  "refusal e \<longleftrightarrow> (case e of DuplicateLink l \<Rightarrow> True | InterfaceAttached l n i \<Rightarrow> True | NoSuchNetwork n \<Rightarrow> True | _ \<Rightarrow> False)"

text \<open>
  C21. A link that is refused as a duplicate, for an interface in use or for a missing network
  changes nothing at all, and the specification does not allow it.
\<close>
theorem refused_link_is_not_allowed:
  assumes "create_link ops h held path f t style key w = (w', Inl e)" and "refusal e"
    and "normalize_lab_path path = Inr p" and "safe_path p" and "file_topo (lw_disk w) p = Some s"
    and "normalize_endpoint f = Inr a" and "normalize_endpoint t = Inr b" and "0 \<notin> set (net_ids a @ net_ids b)"
  shows "w' = w \<and> topo_create s a b = None"
proof -
  have locked: "create_link_locked ops h p a b style key w = (w', Inl e)"
    using assms(1,2,3,6,7) by (auto simp: create_link_def bindr_simps refusal_def split: prod.splits option.splits sum.splits)
  obtain data where data: "read_lab (lw_disk w) p = Inr data"
    using locked assms(2) by (auto simp: create_link_locked_def refusal_def split: sum.splits)
  have "plan_link data a b style = Inl e \<and> w' = w"
    using locked data assms(2)
    by (auto simp: create_link_locked_def refusal_def dest!: create_written_errors split: sum.splits prod.splits)
  moreover have "abs_topo data = Some s" using read_file_topo [OF data assms(4)] assms(5) by simp
  ultimately show ?thesis
    using create_refines_topology [where 'x = rt_error, of data s a b style] assms(8) by auto
qed

section \<open>Failed attachments\<close>

definition as_written :: "json \<Rightarrow> bool" where
  \<comment> \<open>a lab document as the backend writes it\<close>
  "as_written v \<longleftrightarrow> write_doc (jdel ''topology'' v) = Inr v \<and> jhas v ''links'' \<and> jhas v ''networks''"

lemma forr_InlE: "forr f xs s = Inl e \<Longrightarrow> \<exists>x u. x \<in> set xs \<and> f x u = Inl e"
proof (induction xs arbitrary: s)
  case (Cons x xs)
  show ?case
  proof (cases "f x s")
    case (Inr s')
    then show ?thesis using Cons.prems Cons.IH [of s'] by auto
  qed (use Cons.prems in auto)
qed simp

lemma link_py_no_runtime [simp]: "link_py r \<noteq> Inl (LinkRuntime e)"
  by (cases r) simp_all

lemma plan_no_runtime: "plan_link data a b style \<noteq> Inl (LinkRuntime e)"
proof -
  have "scan_link a b l \<noteq> Inl (LinkRuntime e)" for l
    by (auto simp: scan_link_def bindr_simps split: sum.splits option.splits if_splits)
  then have "forr (\<lambda>l u. scan_link a b l) ls () \<noteq> Inl (LinkRuntime e)" for ls by (auto dest: forr_InlE)
  moreover have "create_on_network d ls a b n style \<noteq> Inl (LinkRuntime e)" for d ls n
    by (auto simp: create_on_network_def Let_def bindr_simps split: if_splits)
  ultimately show ?thesis by (auto simp: plan_link_def Let_def bindr_simps split: list.splits)
qed

lemma opened_restores:
  assumes "read_doc v = Inr data" and "as_written v"
  shows "write_doc (opened data) = Inr v"
proof -
  have "jhas data ''links''" using assms read_doc_keys(1) [OF assms(1)] by (simp add: as_written_def jhas_def)
  moreover have "jhas data ''networks''" using assms abs_topo_read [OF assms(1)] by (simp add: as_written_def)
  ultimately have "opened data = jdel ''topology'' data" by (simp add: opened_def jdefault_def)
  moreover have "strip_legacy_fields (jdel ''topology'' data) = strip_legacy_fields (jdel ''topology'' v)"
    using read_doc_strip [OF assms(1)] by (simp add: strip_legacy_fields_def)
  ultimately show ?thesis using assms(2) by (simp add: write_plain as_written_def)
qed

text \<open>
  C20. When a running node cannot be attached, the creation is undone: the lab file is what it was,
  byte for byte of the document, no event is published and nothing is cached.
\<close>
theorem failed_attachment_restores_file:
  assumes "create_link ops h held path f t style key w = (w', Inl (LinkRuntime e))"
    and "normalize_lab_path path = Inr p" and "safe_path p"
    and "obj_get (lw_disk w) p = Some (Some v)" and "as_written v"
  shows "obj_get (lw_disk w') p = Some (Some v) \<and> lw_hub w' = lw_hub w \<and> lw_cache w' = lw_cache w"
proof -
  obtain a b where locked: "create_link_locked ops h p a b style key w = (w', Inl (LinkRuntime e))"
    using assms(1,2) by (auto simp: create_link_def bindr_simps split: prod.splits option.splits sum.splits)
  obtain data c where data: "read_lab (lw_disk w) p = Inr data"
      and c: "create_written ops h p (opened data) c w = (w', Inl (LinkRuntime e))"
    using locked by (auto simp: create_link_locked_def plan_no_runtime split: sum.splits prod.splits)
  have "read_doc v = Inr data" using data assms(3,4) by (simp add: read_lab_def safe_path_def)
  then have restored: "write_doc (opened data) = Inr v" using assms(5) by (rule opened_restores)
  show ?thesis
    using c restored assms(3) 
    by (auto simp: create_written_def write_lab_def safe_path_def split: sum.splits prod.splits if_splits)
qed


section \<open>Deletion refines the specification\<close>

lemma probe_parsed:
  assumes "probe_link d p lid = Inr (data, r)" and "safe_path p" and "topo_file P d p"
  shows "\<exists>t. abs_topo data = Some t \<and> P t \<and> (r = None \<longleftrightarrow> List.find (\<lambda>l. fst l = lid) (t_links t) = None)"
proof -
  obtain ls rest where ls: "read_lab d p = Inr data" "link_list data = Inr ls" "split_first (has_id lid) ls = Inr rest" "r = map_option fst rest"
    using assms(1) by (auto simp: probe_link_def bindr_simps)
  obtain t where t: "abs_topo data = Some t" "P t" using wired_read [OF assms(3,2) ls(1)] by (auto simp: topo_doc_def)
  obtain ls0 nets where a: "jget data ''links'' (JList []) = JList ls0" "map parse_link ls0 = map Some (t_links t)"
    using abs_topo_parts [OF t(1)] by metis
  have "ls0 = ls" using ls(2) a(1) by (auto simp: link_list_def jor_def split: if_splits)
  then have "rest = None \<longleftrightarrow> List.find (\<lambda>x. fst x = lid) (t_links t) = None"
    using split_first_parsed [OF a(2), of "has_id lid" "\<lambda>x. fst x = lid", OF has_id_parsed] ls(3)
    by (auto split: option.splits)
  then show ?thesis using t ls(4) by auto
qed

lemma topo_delete_none: "List.find (\<lambda>l. fst l = lid) (t_links t) = None \<Longrightarrow> topo_delete t lid = t"
  by (simp add: topo_delete_def)

lemma topo_file_read:
  assumes "topo_file P d p" and "safe_path p" and "read_lab d p = Inr data"
  obtains t where "abs_topo data = Some t" "P t" "jhas data ''networks''"
  using wired_read [OF assms] by (auto simp: topo_doc_def)

lemma remove_written_topo:
  assumes "remove_written ops p lid w = (w', Inr r)" and "safe_path p" and "topo_file (\<lambda>t. t = s) (lw_disk w) p"
    and "NetEp 0 \<notin> set (topo_ends s)"
  shows "file_topo (lw_disk w') p = Some (topo_delete s lid)"
proof -
  obtain data rr where data: "read_lab (lw_disk w) p = Inr data" "remove_link data lid = Inr rr"
    using assms(1) by (auto simp: remove_written_def bindr_simps split: sum.splits)
  obtain t where t: "abs_topo data = Some s" "jhas data ''networks''"
    using topo_file_read [OF assms(3,2) data(1)] by metis
  note rem = remove_refines [OF t(1) assms(4) t(2), of lid]
  show ?thesis
  proof (cases rr)
    case None
    then show ?thesis
      using assms(1) data rem topo_delete_none read_file_topo [OF data(1) assms(2)] t(1)
      by (auto simp: remove_written_def)
  next
    case (Some x)
    obtain data' gone evs where x: "x = (data', gone, evs)" by (cases x)
    obtain d1 where d1: "write_lab (lw_disk w) p data' = Inr d1" "lw_disk w' = d1"
      using assms(1) data Some x by (auto simp: remove_written_def split: sum.splits)
    have "jdel ''topology'' data' = data'"
      using data(2) Some x by (auto simp: remove_link_def Let_def bindr_simps split: option.splits)
    moreover have "abs_topo data' = Some (topo_delete s lid)" using rem data(2) Some x by simp
    ultimately show ?thesis
      using write_file_topo [of "lw_disk w" p data' d1] d1 assms(2) abs_topo_obj by auto
  qed
qed

lemma release_link_topo:
  "release_link_ip d p eps nets ip = Inr d' \<Longrightarrow> topo_file P d q \<Longrightarrow> safe_path q \<Longrightarrow> topo_file P d' q"
  by (auto simp: release_link_ip_def bindr_simps split: list.splits json.splits if_splits dest: release_wired)

text \<open>
  C3. Deleting a link leaves in the lab file what the specification says: the link is gone, with
  it the other half and the record of an implicit network that has no other ends; an unknown link
  changes nothing.
\<close>
theorem deleted_link_refines:
  assumes "delete_link ops held path lid w = (w', Inr reply)"
    and "normalize_lab_path path = Inr p" and "safe_path p"
    and "topo_file (\<lambda>t. t = s) (lw_disk w) p" and "NetEp 0 \<notin> set (topo_ends s)"
  shows "file_topo (lw_disk w') p = Some (topo_delete s lid)"
proof -
  have stays: "file_topo (lw_disk w) p = Some s"
    using assms(4) by (auto simp: topo_file_def topo_doc_def file_topo_def)
  have unknown: "file_topo (lw_disk w) p = Some (topo_delete s lid)" if "probe_link (lw_disk w) p lid = Inr (data, None)" for data
    using probe_parsed [OF that assms(3,4)] topo_delete_none stays by auto
  have "file_topo (lw_disk w1) p = Some (topo_delete s lid)"
    if "release_link_ip (lw_disk w) p eps nets ip = Inr d1" "remove_written ops p lid (w\<lparr>lw_runtime := rt1, lw_disk := d1\<rparr>) = (w1, Inr r)"
    for eps nets ip d1 rt1 w1 r
    using remove_written_topo [OF that(2) assms(3) _ assms(5)] release_link_topo [OF that(1) assms(4,3)] by simp
  then have locked: "file_topo (lw_disk w1) p = Some (topo_delete s lid)"
    if "delete_link_locked ops lab p lid w = (w1, Inr r)" for lab w1 r
    using that unknown unfolding delete_link_locked_def
    by (auto split: sum.splits option.splits prod.splits)
  show ?thesis
    using assms(1,2) unknown locked unfolding delete_link_def Let_def
    by (auto simp: bindr_simps split: sum.splits option.splits prod.splits)
qed

text \<open>
  When the detachment of an end fails, the deletion stops there: no file, registry entry,
  cached reply or event is changed, only the state of the host.
\<close>
theorem failed_detach_keeps_link:
  assumes "delete_link ops held path lid w = (w', Inl (LinkRuntime e))"
  shows "w' = w\<lparr>lw_runtime := lw_runtime w'\<rparr>"
proof -
  have "\<nexists>d x. remove_written ops p lid d = (x, Inl (LinkRuntime e))" for p
    by (auto simp: remove_written_def split: sum.splits option.splits prod.splits)
  then show ?thesis
    using assms unfolding delete_link_def delete_link_locked_def Let_def
    by (auto split: sum.splits option.splits prod.splits)
qed

section \<open>Replays\<close>



section \<open>Unusual ends\<close>

text \<open>
  A link from an interface to itself is refused as contention: the second acquisition of the
  interface lock waits for the first until the time-out.
\<close>
theorem self_link_contends:
  assumes "normalize_lab_path path = Inr p" and "fst (cache_get p key (lw_cache w)) = None"
    and "normalize_endpoint f = Inr (NodeEp n i)" and "normalize_endpoint t = Inr (NodeEp n i)"
  shows "\<exists>lab. create_link ops h held path f t style key w = (w, Inl (LinkContention (lab, n, i)))"
proof -
  have "first_contended held (lock_keys lab [(n, i), (n, i)]) = Some (lab, n, i)" for lab by (simp add: lock_keys_def)
  then show ?thesis using assms by (cases "cache_get p key (lw_cache w)") (auto simp: create_link_def)
qed

text \<open>
  A link between two implicit networks promotes the first one only: the other stays implicit with
  three ends. The wiring invariant therefore holds for links with at most one network end.
\<close>
theorem second_network_not_promoted:
  "\<exists>s s'. topo_inv s \<and> topo_create s (NetEp 1) (NetEp 2) = Some s' \<and> topo_implicit s' 2 \<and> topo_refs s' 2 = 3"
proof -
  define s where "s = \<lparr>t_links = [(''a'', NodeEp 1 0, NetEp 1), (''b'', NodeEp 2 0, NetEp 1), (''c'', NodeEp 3 0, NetEp 2), (''d'', NodeEp 4 0, NetEp 2)],
    t_nets = [(''1'', True), (''2'', True)]\<rparr>"
  have d: "''1'' = dec_int 1" "''2'' = dec_int 2" and d': "dec (Suc 0) = ''1''" "dec 2 = ''2''" by code_simp+
  have inj: "dec_int n = ''1'' \<longleftrightarrow> n = 1" "dec_int n = ''2'' \<longleftrightarrow> n = 2" for n unfolding d by (simp_all only: dec_int_inj)
  have "topo_inv s" by (auto simp: topo_inv_def s_def topo_ifaces_def topo_ends_def topo_implicit_def topo_refs_def inj d' inj [THEN eq_sym_conv [THEN trans]] split: if_splits)
  moreover have "\<exists>s'. topo_create s (NetEp 1) (NetEp 2) = Some s' \<and> topo_implicit s' 2 \<and> topo_refs s' 2 = 3"
    by (simp add: topo_create_def s_def topo_ifaces_def topo_ends_def topo_implicit_def topo_refs_def Let_def d' topo_add_def link_pair_key_def
        min_def max_def)
  ultimately show ?thesis by blast
qed

section \<open>Witnesses\<close>

definition busy_ops :: "unit node_ops" where
  \<comment> \<open>every node runs in a container that cannot be detached\<close>
  "busy_ops = idle_ops
     \<lparr>op_record := \<lambda>lab n b. rt_ret (Some (JObj [(''kind'', JStr ''docker'')])),
      op_detach_docker := \<lambda>lab n i g. rt_raise (RtNode ''detach'')\<rparr>"

lemma demo_path: "normalize_lab_path ''a.json'' = Inr ''a.json''"
  using demo_links_wired(2) by (simp add: safe_path_def)

lemma demo_ends: "normalize_endpoint (node_end n i) = Inr (NodeEp n i)"
  by (simp add: node_end_def normalize_endpoint_def jget_def jhas_def)

lemma demo_file: "file_topo (lw_disk demo_links) ''a.json'' = Some \<lparr>t_links = [], t_nets = []\<rparr>"
  by (simp add: file_topo_def demo_links_def bare_topo)

definition demo_data :: json where
  "demo_data = projr (read_lab (lw_disk demo_links) ''a.json'')"

definition demo_plan :: created where
  "demo_plan = projr (plan_link demo_data (NodeEp 1 0) (NodeEp 2 0) JNull :: rt_error link_error + created)"

lemma not_isl: "\<not> isl r \<Longrightarrow> r = Inr (projr r)"
  by (cases r) simp_all

lemma demo_plans:
  "read_lab (lw_disk demo_links) ''a.json'' = Inr demo_data"
  "plan_link demo_data (NodeEp 1 0) (NodeEp 2 0) JNull = (Inr demo_plan :: rt_error link_error + created)"
  unfolding demo_data_def demo_plan_def by (rule not_isl, code_simp)+

lemma demo_entries:
  "\<exists>es. fresh_entries ''a.json'' (jdel ''topology'' (cr_data demo_plan)) = Inr es"
  "\<exists>es. fresh_entries ''a.json'' (opened demo_data) = Inr es"
proof -
  have "\<not> isl (fresh_entries ''a.json'' (jdel ''topology'' (cr_data demo_plan)))" "\<not> isl (fresh_entries ''a.json'' (opened demo_data))"
    by code_simp+
  then show "\<exists>es. fresh_entries ''a.json'' (jdel ''topology'' (cr_data demo_plan)) = Inr es"
    "\<exists>es. fresh_entries ''a.json'' (opened demo_data) = Inr es" by (blast dest: not_isl)+
qed

abbreviation demo_attach :: "unit node_ops \<Rightarrow> (rt_error + json \<times> bool) \<times> unit \<times> call list" where
  "demo_attach ops \<equiv> hot_attach ops demo_host ''a.json'' (jdel ''topology'' (cr_data demo_plan)) (cr_implicit demo_plan) (cr_attach demo_plan) ((), [])"

lemma demo_result:
  "snd (create_link ops demo_host [] ''a.json'' (node_end 1 0) (node_end 2 0) JNull ''k'' demo_links) =
     (case demo_attach ops of
        (Inl e, s) \<Rightarrow> Inl (LinkRuntime e)
      | (Inr (d, b), s) \<Rightarrow>
          Inr ((if b then refreshed_payload d (link_with_state (cr_link demo_plan)) else link_with_state (cr_link demo_plan),
                cr_network demo_plan), False))"
proof -
  obtain es es' where es: "fresh_entries ''a.json'' (jdel ''topology'' (cr_data demo_plan)) = Inr es"
      "fresh_entries ''a.json'' (opened demo_data) = Inr es'" using demo_entries by blast
  have "write_lab d ''a.json'' (jdel ''topology'' x) = Inr (obj_set ''a.json'' (Some (complete_doc (strip_legacy_fields (jdel ''topology'' x)))) d)" for d x
    by (simp add: write_lab_def demo_path write_plain)
  moreover have "write_lab d ''a.json'' (opened x) = Inr (obj_set ''a.json'' (Some (complete_doc (strip_legacy_fields (opened x)))) d)" for d x
    unfolding opened_def by (simp add: write_lab_def demo_path write_plain)
  moreover have "first_contended [] (lock_keys lab [(1, 0), (2, 0)]) = None" for lab by (simp add: lock_keys_def)
  moreover have "lw_cache demo_links = []" "lw_runtime demo_links = ((), [])" by (simp_all add: demo_links_def)
  ultimately show ?thesis
    by (auto simp: create_link_def create_link_locked_def create_written_def demo_path demo_ends demo_plans es recompute_for_lab_def
        cache_get_def split: prod.split sum.split)
qed

lemma demo_attaches:
  "\<exists>d s. demo_attach idle_ops = (Inr (d, False), s)" "\<exists>e s. demo_attach busy_ops = (Inl e, s)"
proof -
  have "case demo_attach idle_ops of (Inr (d, b), s) \<Rightarrow> \<not> b | (Inl e, s) \<Rightarrow> False" by code_simp
  then show "\<exists>d s. demo_attach idle_ops = (Inr (d, False), s)" by (auto split: prod.splits sum.splits)
  have "case demo_attach busy_ops of (Inr (d, b), s) \<Rightarrow> False | (Inl e, s) \<Rightarrow> True" by code_simp
  then show "\<exists>e s. demo_attach busy_ops = (Inl e, s)" by (auto split: prod.splits sum.splits)
qed

definition demo_create :: "(nat, unit) link_world \<times> (rt_error link_error + link_reply \<times> bool)" where
  "demo_create = create_link idle_ops demo_host [] ''a.json'' (node_end 1 0) (node_end 2 0) JNull ''k'' demo_links"

lemma demo_created:
  obtains reply where "demo_create = (fst demo_create, Inr (reply, False))"
proof -
  obtain r where "snd demo_create = Inr (r, False)"
    using demo_result [of idle_ops] demo_attaches(1) by (auto simp: demo_create_def)
  then show ?thesis using that surjective_pairing [of demo_create] by metis
qed

theorem created_link_refines_witness:
  "file_topo (lw_disk (fst demo_create)) ''a.json'' = topo_create \<lparr>t_links = [], t_nets = []\<rparr> (NodeEp 1 0) (NodeEp 2 0)"
proof -
  obtain reply where "demo_create = (fst demo_create, Inr (reply, False))" by (rule demo_created)
  from created_link_refines [OF this [unfolded demo_create_def] demo_path demo_links_wired(2) demo_file demo_ends demo_ends]
  show ?thesis by (simp add: demo_create_def)
qed


theorem refused_link_is_not_allowed_witness:
  "fst (create_link idle_ops demo_host [] ''a.json'' (node_end 1 0) (JObj [(''network_id'', JInt 7)]) JNull ''k'' demo_links) = demo_links"
proof -
  let ?r = "create_link idle_ops demo_host [] ''a.json'' (node_end 1 0) (JObj [(''network_id'', JInt 7)]) JNull ''k'' demo_links"
  have "case snd ?r of Inl e \<Rightarrow> refusal e | Inr x \<Rightarrow> False" by code_simp
  then obtain e where e: "?r = (fst ?r, Inl e)" "refusal e" by (cases ?r) (auto split: sum.splits)
  have n: "normalize_endpoint (JObj [(''network_id'', JInt 7)]) = Inr (NetEp 7)"
    by (simp add: normalize_endpoint_def jget_def jhas_def)
  from refused_link_is_not_allowed [OF e demo_path demo_links_wired(2) demo_file demo_ends n] show ?thesis by simp
qed

definition linked_lab :: json where
  "linked_lab = JObj [(''schema'', JInt 2), (''id'', JStr ''lab''), (''nodes'', JObj []),
     (''networks'', JObj [(''1'', JObj [(''id'', JInt 1), (''implicit'', JBool False)])]),
     (''links'', JList [JObj [(''id'', JStr ''lnk_001''), (''from'', node_end 1 0), (''to'', JObj [(''network_id'', JInt 1)])]])]"

definition linked_world :: "(nat, unit) link_world" where
  "linked_world = demo_links\<lparr>lw_disk := [(''a.json'', Some linked_lab)]\<rparr>"

definition one_link :: topo where
  "one_link = \<lparr>t_links = [(''lnk_001'', NodeEp 1 0, NetEp 1)], t_nets = [(''1'', False)]\<rparr>"

lemma linked_topo: "topo_file (\<lambda>t. t = one_link) (lw_disk linked_world) ''a.json''"
  by (simp add: topo_file_def topo_doc_def linked_world_def linked_lab_def jhas_def jfind_def abs_topo_def jget_def
      parse_link_def parse_end_def demo_ends normalize_endpoint_def net_mark_def one_link_def)
    (simp add: node_end_def)

theorem failed_attachment_restores_file_witness:
  "obj_get (lw_disk (fst (create_link busy_ops demo_host [] ''a.json'' (node_end 1 0) (node_end 2 0) JNull ''k'' demo_links))) ''a.json''
     = Some (Some bare_lab)"
proof -
  let ?r = "create_link busy_ops demo_host [] ''a.json'' (node_end 1 0) (node_end 2 0) JNull ''k'' demo_links"
  obtain e where "snd ?r = Inl (LinkRuntime e)" using demo_result [of busy_ops] demo_attaches(2) by auto
  then have e: "?r = (fst ?r, Inl (LinkRuntime e))" using surjective_pairing [of ?r] by metis
  have v: "obj_get (lw_disk demo_links) ''a.json'' = Some (Some bare_lab)" by (simp add: demo_links_def)
  have w: "as_written bare_lab" unfolding as_written_def by code_simp
  from failed_attachment_restores_file [OF e demo_path demo_links_wired(2) v w] show ?thesis by simp
qed

theorem deleted_link_refines_witness:
  "file_topo (lw_disk (fst (delete_link idle_ops [] ''a.json'' ''lnk_001'' linked_world))) ''a.json'' = Some \<lparr>t_links = [], t_nets = [(''1'', False)]\<rparr>"
proof -
  let ?r = "delete_link idle_ops [] ''a.json'' ''lnk_001'' linked_world"
  have "case snd ?r of Inr x \<Rightarrow> True | Inl e \<Rightarrow> False" by code_simp
  then obtain x where e: "?r = (fst ?r, Inr x)" by (cases ?r) (auto split: sum.splits)
  have z: "NetEp 0 \<notin> set (topo_ends one_link)" by (simp add: one_link_def topo_ends_def)
  from deleted_link_refines [OF e demo_path demo_links_wired(2) linked_topo z] show ?thesis
    by (simp add: topo_delete_def one_link_def topo_cascade_def topo_gc_def topo_implicit_def)
qed

theorem failed_detach_keeps_link_witness:
  "lw_disk (fst (delete_link busy_ops [] ''a.json'' ''lnk_001'' linked_world)) = lw_disk linked_world"
proof -
  let ?r = "delete_link busy_ops [] ''a.json'' ''lnk_001'' linked_world"
  have "case snd ?r of Inl (LinkRuntime e) \<Rightarrow> True | _ \<Rightarrow> False" by code_simp
  then obtain e where e: "?r = (fst ?r, Inl (LinkRuntime e))"
    by (cases ?r) (auto split: sum.splits link_error.splits)
  from arg_cong [OF failed_detach_keeps_link [OF e], of lw_disk] show ?thesis by simp
qed

end
