(* ===== verification/Network_Wiring.thy ===== *)
theory Network_Wiring
  imports Network_Service Link_Results
begin

text \<open>
  Networks and links together: what the requests on networks do to the abstract topology of a lab
  file, and the invariant every sequence of requests on links and networks keeps.
\<close>

section \<open>Changes of the networks of a document\<close>

lemma good_topo_nets:
  assumes "good_topo t" and "t_links t' = t_links t"
    and "\<And>k. NetEp k \<in> set (topo_ends t) \<Longrightarrow> obj_get (t_nets t') (dec_int k) \<noteq> None"
    and "\<And>k. topo_implicit t' k \<Longrightarrow> topo_implicit t k"
  shows "good_topo t'"
proof -
  have "topo_ends t' = topo_ends t" using assms(2) by (simp add: topo_ends_def)
  then show ?thesis
    using assms by (auto simp: good_topo_def topo_inv_def topo_ifaces_def topo_refs_def)
qed

lemma marks_obj_set: "map (\<lambda>(k, v). (k, f v)) (obj_set k v kvs) = obj_set k (f v) (map (\<lambda>(k, v). (k, f v)) kvs)"
  by (induction kvs) auto

lemma marks_obj_del: "map (\<lambda>(k, v). (k, f v)) (obj_del k kvs) = obj_del k (map (\<lambda>(k, v). (k, f v)) kvs)"
  by (induction kvs) (auto simp: obj_del_def)

lemma objs_obj_set: "list_all (\<lambda>(k, v). is_obj v) kvs \<Longrightarrow> is_obj net \<Longrightarrow> list_all (\<lambda>(k, v). is_obj v) (obj_set k net kvs)"
  by (induction kvs) auto

lemma objs_obj_del: "list_all (\<lambda>(k, v). is_obj v) kvs \<Longrightarrow> list_all (\<lambda>(k, v). is_obj v) (obj_del k kvs)"
  by (auto simp: list_all_iff obj_del_def)

lemma abs_topo_nets:
  assumes "abs_topo data = Some t" and "jget data ''networks'' (JObj []) = JObj nets"
    and "list_all (\<lambda>(k, v). is_obj v) nets'"
  shows "abs_topo (jset ''networks'' (JObj nets') data) = Some (t\<lparr>t_nets := map (\<lambda>(k, v). (k, net_mark v)) nets'\<rparr>)"
proof -
  obtain ls nets where "jget data ''links'' (JList []) = JList ls" "is_obj data" "map parse_link ls = map Some (t_links t)"
    using abs_topo_parts [OF assms(1)] by metis
  then show ?thesis using assms(3) by (intro abs_topo_intro [of _ ls nets']) simp_all
qed

lemma t_nets_marks:
  assumes "abs_topo data = Some t" and "jget data ''networks'' (JObj []) = JObj nets"
  shows "t_nets t = map (\<lambda>(k, v). (k, net_mark v)) nets" "list_all (\<lambda>(k, v). is_obj v) nets"
  using abs_topo_parts [OF assms(1)] assms(2) by (metis json.inject(6))+

lemma nets_of_topo:
  assumes "abs_topo data = Some t"
  obtains nets where "jget data ''networks'' (JObj []) = JObj nets" "networks_of_doc data = JObj nets"
    "t_nets t = map (\<lambda>(k, v). (k, net_mark v)) nets" "list_all (\<lambda>(k, v). is_obj v) nets" "is_obj data"
proof -
  obtain nets where "jget data ''networks'' (JObj []) = JObj nets" "is_obj data" using abs_topo_parts [OF assms] by metis
  then show ?thesis using that t_nets_marks [OF assms] by (simp add: networks_of_doc_def jor_def)
qed

lemma marked_get: "obj_get (map (\<lambda>(k, v). (k, f v)) kvs) k = map_option f (obj_get kvs k)"
  by (induction kvs) auto

section \<open>Created networks\<close>

lemma fresh_network_key: "obj_get kvs (dec_int (fresh_network_id kvs)) = None"
proof -
  let ?n = "next_number (map undec (filter isdigit (map fst kvs)))"
  have "dec ?n \<noteq> k" if "k \<in> set (map fst kvs)" for k
  proof
    assume k: "dec ?n = k"
    then have "?n \<in> set (map undec (filter isdigit (map fst kvs)))" using that isdigit_dec [of ?n] undec_dec [of ?n] by force
    then show False using next_number_above by blast
  qed
  then show ?thesis by (auto simp: fresh_network_id_def obj_get_None_iff)
qed

definition plain_network :: "json \<Rightarrow> bool" where
  \<comment> \<open>a record that is not marked as implicit\<close>
  "plain_network net \<longleftrightarrow> is_obj net \<and> \<not> net_mark net"

lemma plain_runtime [simp]: "is_obj net \<Longrightarrow> plain_network (jset ''runtime'' r net) = plain_network net"
  by (simp add: plain_network_def net_mark_def)

lemma planned_plain:
  assumes "plan_network h pool now d p request tr = (Inr c, tr')"
  shows "plain_network (nn_record c) \<and> (\<exists>data0. read_lab d p = Inr data0 \<and> nn_data c = jdefault ''networks'' (JObj []) data0
    \<and> nn_id c = fresh_network_id (obj_of (jget0 (nn_data c) ''networks'')))"
proof -
  have rec: "plain_network (network_record n nm ty x y cf b nw)" for n nm ty x y cf b nw
    by (simp add: plain_network_def network_record_def net_mark_def jget_def jfind_def)
  have obj: "is_obj (network_record n nm ty x y cf b nw)" for n nm ty x y cf b nw by (simp add: network_record_def)
  show ?thesis
    using assms unfolding plan_network_def Let_def
    by (auto simp: andthen_Inr traced_defs bindr_simps rec obj split: if_splits sum.splits prod.splits)
qed

lemma ensured_plain:
  "ensure_nat_cloud_runtime h net b tr = ((r, net'), tr') \<Longrightarrow> plain_network net \<Longrightarrow> plain_network net'"
  by (auto simp: ensure_nat_cloud_runtime_def nat_prepare_def nat_start_def Let_def andthen_Inr traced_defs plain_network_def net_mark_def
      split: prod.splits sum.splits if_splits)


lemma provisioned_plain:
  "provision h ty cid b lab n now net tr = ((r, net'), tr') \<Longrightarrow> plain_network net \<Longrightarrow> plain_network net'"
  by (auto simp: provision_def split: prod.splits sum.splits if_splits dest: ensured_plain)

lemma obj_del_of_set: "obj_del k (obj_set k v kvs) = obj_del k kvs"
  by (induction kvs) (auto simp: obj_del_def)

lemma new_data_good:
  assumes "good_doc data0" and "nn_data c = jdefault ''networks'' (JObj []) data0"
    and "nn_id c = fresh_network_id (obj_of (jget0 (nn_data c) ''networks''))" and "plain_network net"
  shows "good_doc (new_data c net)" "\<exists>t. abs_topo data0 = Some t \<and> abs_topo (old_data c net) = Some t"
proof -
  obtain t where t: "abs_topo data0 = Some t" "good_topo t" "jhas data0 ''networks''" using assms(1) by (auto simp: topo_doc_def)
  have nd: "nn_data c = data0" using assms(2) t(3) by (simp add: jdefault_def)
  obtain nets where n: "jget data0 ''networks'' (JObj []) = JObj nets" "t_nets t = map (\<lambda>(k, v). (k, net_mark v)) nets"
      "list_all (\<lambda>(k, v). is_obj v) nets" "is_obj data0" using nets_of_topo [OF t(1)] by metis
  have nf: "jget0 data0 ''networks'' = JObj nets" using n(1) t(3) by (auto simp: jget_def jhas_def)
  let ?k = "dec_int (nn_id c)" and ?D = "jdel ''topology'' data0"
  have fresh: "obj_get nets ?k = None" using fresh_network_key [of nets] assms(3) nf by (simp add: nd)
  have D: "abs_topo ?D = Some t" "jget ?D ''networks'' (JObj []) = JObj nets" using t(1) n(1,4) by (simp_all add: abs_topo_jdel)
  note put = abs_topo_nets [OF D]
  define t' where "t' = t\<lparr>t_nets := obj_set ?k False (t_nets t)\<rparr>"
  have "abs_topo (jset ''networks'' (JObj (obj_set ?k net nets)) ?D) = Some t'"
    using put [of "obj_set ?k net nets"] objs_obj_set [OF n(3)] assms(4) n(2) by (simp add: t'_def marks_obj_set plain_network_def)
  moreover have "good_topo t'"
    using topo_invD(4) [of t] t(2)
    by (intro good_topo_nets [OF t(2)]) (auto simp: t'_def topo_implicit_def good_topo_def split: if_splits)
  ultimately show "good_doc (new_data c net)"
    by (auto simp: new_data_def nd n(1) jset_eq topo_doc_def)
  have "obj_del ?k nets = nets" using fresh by (force simp: obj_del_def filter_id_conv obj_get_None_iff)
  then have "jdel ?k (JObj (obj_set ?k net nets)) = JObj nets" by (simp add: jdel_def obj_del_of_set)
  then have "old_data c net = jset ''networks'' (JObj nets) ?D"
    by (simp add: old_data_def Let_def new_data_def nd n(1) jset_eq)
  then show "\<exists>t. abs_topo data0 = Some t \<and> abs_topo (old_data c net) = Some t"
    using put [of nets] n(2,3) t(1) by simp
qed


lemma old_data_good:
  assumes "good_doc data0" and "nn_data c = jdefault ''networks'' (JObj []) data0"
    and "nn_id c = fresh_network_id (obj_of (jget0 (nn_data c) ''networks''))" and "plain_network net"
  shows "good_doc (old_data c net)"
  using new_data_good(2) [OF assms] assms(1) by (auto simp: topo_doc_def old_data_def Let_def)

lemma data_without_topology: "jdel ''topology'' (new_data c net) = new_data c net" "jdel ''topology'' (old_data c net) = old_data c net"
  by (simp_all add: new_data_def old_data_def Let_def)

lemma network_created_wired:
  assumes "network_created h now q c w = (w', r)" and "wired (lw_disk w) p" and "safe_path p"
    and plain: "plain_network (nn_record c)"
    and data: "normalize_lab_path q = Inr p \<Longrightarrow> \<exists>data0. good_doc data0 \<and> nn_data c = jdefault ''networks'' (JObj []) data0
      \<and> nn_id c = fresh_network_id (obj_of (jget0 (nn_data c) ''networks''))"
  shows "wired (lw_disk w') p"
proof -
  have good: "good_doc (new_data c net) \<and> good_doc (old_data c net)" if "normalize_lab_path q = Inr p" "plain_network net" for net
    using data [OF that(1)] new_data_good(1) [OF _ _ _ that(2)] old_data_good [OF _ _ _ that(2)] by blast
  have new: "wired d' p" if "wired d p" "write_lab d q (new_data c net) = Inr d'" "plain_network net" for d d' net
    by (rule wired_update [OF that(1) assms(3), of q "new_data c net"]) (use that good in \<open>auto simp: data_without_topology\<close>)
  have old: "wired d' p" if "wired d p" "write_lab d q (old_data c net) = Inr d'" "plain_network net" for d d' net
    by (rule wired_update [OF that(1) assms(3), of q "old_data c net"]) (use that good in \<open>auto simp: data_without_topology\<close>)
  show ?thesis
  proof (cases "write_lab (lw_disk w) q (new_data c (nn_record c))")
    case (Inl e)
    then show ?thesis using assms(1,2) by (simp add: network_created_def)
  next
    case d1: (Inr d1)
    then have w1: "wired d1 p" using new assms(2) plain by blast
    obtain res net tr where pr: "provision h (nn_type c) (nn_cid c) (py_str (nn_bridge c)) (nn_lab c) (nn_id c) now (nn_record c)
        (snd (lw_runtime w)) = ((res, net), tr)" by (metis prod.collapse)
    have net: "plain_network net" by (rule provisioned_plain [OF pr plain])
    note pieces = new [OF w1 _ net] old [OF w1 _ net]
    show ?thesis
      using assms(1) w1 pieces unfolding network_created_def d1 sum.case pr prod.case Let_def
      by (cases res) (auto split: sum.splits prod.splits if_splits)
  qed
qed

lemma create_network_wired:
  assumes "create_network h pool now path request w = (w', r)" and "wired (lw_disk w) p" and "safe_path p"
  shows "wired (lw_disk w') p"
proof (cases "normalize_lab_path path")
  case (Inl e)
  then show ?thesis using assms(1,2) by (simp add: create_network_def)
next
  case (Inr q)
  have "wired (lw_disk w') p"
    if plan: "plan_network h pool now (lw_disk w) q request tr = (Inr c, tr')"
      and made: "network_created h now q c (w\<lparr>lw_runtime := rt\<rparr>) = (w', r)" for c tr tr' rt
  proof -
    obtain data0 where d: "plain_network (nn_record c)" "read_lab (lw_disk w) q = Inr data0" "nn_data c = jdefault ''networks'' (JObj []) data0"
        "nn_id c = fresh_network_id (obj_of (jget0 (nn_data c) ''networks''))" using planned_plain [OF plan] by blast
    show ?thesis
    proof (rule network_created_wired [OF made _ assms(3) d(1)])
      show "\<exists>data0. good_doc data0 \<and> nn_data c = jdefault ''networks'' (JObj []) data0
          \<and> nn_id c = fresh_network_id (obj_of (jget0 (nn_data c) ''networks''))" if "normalize_lab_path q = Inr p"
        using d wired_read_any [OF assms(2) d(2) that] by blast
    qed (use assms(2) in simp)
  qed
  then show ?thesis
    using assms(1,2) Inr unfolding create_network_def by (auto split: sum.splits prod.splits)
qed


section \<open>Deleted and edited networks\<close>

lemma refs_of_doc:
  assumes "good_doc data" and "abs_topo data = Some t" and "refcount data n = Inr c" and "c = 0"
  shows "NetEp n \<notin> set (topo_ends t)"
proof (cases "n = 0")
  case True
  then show ?thesis using assms(1,2) by (auto simp: topo_doc_def good_topo_def)
next
  case False
  obtain ls nets where d: "doc_of (jdefault ''links'' (JList []) (jdefault ''networks'' (JObj []) data)) ls nets t"
      "jget data ''links'' (JList []) = JList ls"
    using abs_doc_of [OF assms(2)] by metis
  have "is_obj data" by (rule abs_topo_obj [OF assms(2)])
  have "link_list (jdefault ''links'' (JList []) (jdefault ''networks'' (JObj []) data)) = link_list data"
    by (auto simp: link_list_def jdefault_def jget_def jhas_def)
  then have "refcount data n = Inr (topo_refs t n)"
    using refcount_parsed [OF d(1) False] by (simp add: refcount_def)
  then show ?thesis using assms(3,4) refs_positive [of t n] by auto
qed

lemma without_network_good:
  assumes "good_doc data" and "deletable fs p data n = Inr net"
  shows "good_doc (without_network data n)"
proof -
  obtain t where t: "abs_topo data = Some t" "good_topo t" using assms(1) by (auto simp: topo_doc_def)
  obtain nets where n: "jget data ''networks'' (JObj []) = JObj nets" "networks_of_doc data = JObj nets"
      "t_nets t = map (\<lambda>(k, v). (k, net_mark v)) nets" "list_all (\<lambda>(k, v). is_obj v) nets" "is_obj data"
    using nets_of_topo [OF t(1)] by metis
  obtain c where "refcount data n = Inr c" "c = 0"
    using assms(2) by (auto simp: deletable_def bindr_simps split: if_splits)
  then have free: "NetEp n \<notin> set (topo_ends t)" using refs_of_doc [OF assms(1) t(1)] by blast
  let ?D = "jdel ''topology'' data"
  define t' where "t' = t\<lparr>t_nets := obj_del (dec_int n) (t_nets t)\<rparr>"
  have "abs_topo ?D = Some t" "jget ?D ''networks'' (JObj []) = JObj nets" using t(1) n(1,5) by (simp_all add: abs_topo_jdel)
  from abs_topo_nets [OF this, of "obj_del (dec_int n) nets"]
  have "abs_topo (jset ''networks'' (JObj (obj_del (dec_int n) nets)) ?D) = Some t'"
    using objs_obj_del [OF n(4)] n(3) by (simp add: t'_def marks_obj_del)
  moreover have "good_topo t'"
    using topo_invD(4) [of t] t(2) free
    by (intro good_topo_nets [OF t(2)]) (auto simp: t'_def topo_implicit_def good_topo_def split: if_splits)
  ultimately show ?thesis by (auto simp: without_network_def n(2) jdel_def [of "dec_int n"] topo_doc_def)
qed

lemma delete_network_wired:
  assumes "delete_network h path n w = (w', r)" and "wired (lw_disk w) p" and "safe_path p"
  shows "wired (lw_disk w') p"
proof -
  have "wired d1 p" if "read_lab (lw_disk w) q = Inr data" "deletable fs q data n = Inr net"
      "write_lab (lw_disk w) q (without_network data n) = Inr d1" for q data fs net d1
  proof (rule wired_updated [OF assms(2,3) that(3)])
    show "\<exists>data0. without_network data n = jdel ''topology'' data0 \<and> good_doc data0" if "normalize_lab_path q = Inr p"
      using without_network_good [OF wired_read_any [OF assms(2) \<open>read_lab (lw_disk w) q = Inr data\<close> that] \<open>deletable fs q data n = Inr net\<close>]
      by (intro exI [of _ "without_network data n"]) (simp add: without_network_def)
  qed
  then have "wired (lw_disk (fst (delete_network h path n w))) p"
    using assms(2) unfolding delete_network_def by (auto simp: bindr_simps split: sum.splits prod.splits)
  then show ?thesis by (simp add: assms(1))
qed

lemma set_fields_marks: "is_obj net \<Longrightarrow> is_obj (set_fields patch net) \<and> net_mark (set_fields patch net) = net_mark net"
  by (simp add: set_fields_def NETWORK_FIELDS_def net_mark_def)

lemma set_name_marks:
  "set_name networks n v net = Inr (net', b) \<Longrightarrow> is_obj net \<Longrightarrow> is_obj net' \<and> (net_mark net' \<longrightarrow> net_mark net)"
  by (auto simp: set_name_def Let_def bindr_simps net_mark_def split: if_splits)

lemma edited_network:
  assumes "edit_network data n patch = Inr (net', b)" and "is_obj data"
  shows "\<exists>net. jget0 (networks_of_doc data) (dec_int n) = net \<and> is_obj net \<and> is_obj net' \<and> (net_mark net' \<longrightarrow> net_mark net)"
  using assms
  by (auto simp: edit_network_def bindr_simps pget_def set_fields_marks split: if_splits dest: set_name_marks)

lemma edit_network_good:
  assumes "good_doc data" and "edit_network data n patch = Inr (net', b)"
  shows "good_doc (put_network data n net')"
proof -
  obtain t where t: "abs_topo data = Some t" "good_topo t" using assms(1) by (auto simp: topo_doc_def)
  obtain nets where n: "jget data ''networks'' (JObj []) = JObj nets" "networks_of_doc data = JObj nets"
      "t_nets t = map (\<lambda>(k, v). (k, net_mark v)) nets" "list_all (\<lambda>(k, v). is_obj v) nets" "is_obj data"
    using nets_of_topo [OF t(1)] by metis
  obtain net where net: "obj_get nets (dec_int n) = Some net" "is_obj net'" "net_mark net' \<longrightarrow> net_mark net"
    using edited_network [OF assms(2) n(5)] n(2) by (auto simp: jget_def jfind_def split: option.splits)
  let ?D = "jdel ''topology'' data"
  define t' where "t' = t\<lparr>t_nets := obj_set (dec_int n) (net_mark net') (t_nets t)\<rparr>"
  have "abs_topo ?D = Some t" "jget ?D ''networks'' (JObj []) = JObj nets" using t(1) n(1,5) by (simp_all add: abs_topo_jdel)
  from abs_topo_nets [OF this, of "obj_set (dec_int n) net' nets"]
  have "abs_topo (jset ''networks'' (JObj (obj_set (dec_int n) net' nets)) ?D) = Some t'"
    using objs_obj_set [OF n(4) net(2)] n(3) by (simp add: t'_def marks_obj_set)
  moreover have "good_topo t'"
    using topo_invD(4) [of t] t(2) net n(3)
    by (intro good_topo_nets [OF t(2)]) (auto simp: t'_def topo_implicit_def good_topo_def marked_get split: if_splits)
  ultimately show ?thesis
    using n(2) by (auto simp: put_network_def networks_of_doc_def jset_eq topo_doc_def)
qed

lemma patch_network_wired:
  assumes "patch_network path n patch w = (w', r)" and "wired (lw_disk w) p" and "safe_path p"
  shows "wired (lw_disk w') p"
proof -
  have "wired d1 p" if "read_lab (lw_disk w) q = Inr data" "edit_network data n patch = Inr (net, b)"
      "write_lab (lw_disk w) q (put_network data n net) = Inr d1" for q data net b d1
  proof (rule wired_updated [OF assms(2,3) that(3)])
    show "\<exists>data0. put_network data n net = jdel ''topology'' data0 \<and> good_doc data0" if "normalize_lab_path q = Inr p"
      using edit_network_good [OF wired_read_any [OF assms(2) \<open>read_lab (lw_disk w) q = Inr data\<close> that] \<open>edit_network data n patch = Inr (net, b)\<close>]
      by (intro exI [of _ "put_network data n net"]) (simp add: put_network_def)
  qed
  then show ?thesis
    using assms(1,2) unfolding patch_network_def Let_def
    by (auto simp: bindr_simps split: sum.splits prod.splits)
qed


section \<open>Requests on links and networks\<close>

inductive lab_requests :: "('w, 'r) link_world \<Rightarrow> ('w, 'r) link_world \<Rightarrow> bool" where
  no_request: "lab_requests w w"
| link_made: "lab_requests w w1 \<Longrightarrow> one_network f t \<Longrightarrow> create_link ops h held path f t style key w1 = (w2, r1) \<Longrightarrow> lab_requests w w2"
| link_gone: "lab_requests w w1 \<Longrightarrow> delete_link ops held path lid w1 = (w2, r2) \<Longrightarrow> lab_requests w w2"
| link_edited: "lab_requests w w1 \<Longrightarrow> patch_link path lid patch w1 = (w2, r3) \<Longrightarrow> lab_requests w w2"
| network_made: "lab_requests w w1 \<Longrightarrow> create_network h pool now path request w1 = (w2, r4) \<Longrightarrow> lab_requests w w2"
| network_gone: "lab_requests w w1 \<Longrightarrow> delete_network h path n w1 = (w2, r5) \<Longrightarrow> lab_requests w w2"
| network_edited: "lab_requests w w1 \<Longrightarrow> patch_network path n change w1 = (w2, r6) \<Longrightarrow> lab_requests w w2"

text \<open>
  Whatever links and networks are created, deleted and edited, in whatever order and with
  whatever failures of the host and the runtime between, a lab file that is wired stays wired: link
  ids are distinct, an interface is on one link at most, every link joins an interface and an
  existing network, and an implicit network has exactly two ends.
\<close>
theorem requests_keep_wiring:
  assumes "lab_requests w w'" and "wired (lw_disk w) p" and "safe_path p"
  shows "wired (lw_disk w') p"
  using assms
proof (induction rule: lab_requests.induct)
  case (link_made w w1 f t ops h held path style key w2 r)
  show ?case
    using link_made.IH link_made.prems link_made.hyps(2)
    by (intro create_link_wired [OF link_made.hyps(3)]) (auto simp: one_network_def)
qed (auto dest: delete_link_wired patch_link_wired create_network_wired delete_network_wired patch_network_wired)

theorem requests_keep_wiring_witness:
  "wired (lw_disk (fst (create_network demo_host ''pool'' ''now'' ''a.json'' (JObj [(''name'', JStr ''lan'')]) (fst demo_create)))) ''a.json''"
proof (rule requests_keep_wiring [OF _ demo_links_wired])
  have "one_network (node_end 1 0) (node_end 2 0)" by (simp add: one_network_def demo_ends)
  then have "lab_requests demo_links (fst demo_create)"
    unfolding demo_create_def by (intro link_made [OF no_request _ prod.collapse [symmetric]])
  then show "lab_requests demo_links
      (fst (create_network demo_host ''pool'' ''now'' ''a.json'' (JObj [(''name'', JStr ''lan'')]) (fst demo_create)))"
    by (rule network_made [OF _ prod.collapse [symmetric]])
qed

end
