(* ===== verification/Network_Results.thy ===== *)
theory Network_Results
  imports Network_Wiring
begin

text \<open>
  What the replies of the network service say: a failed creation leaves the file as it was, host-owned
  bridges are only looked at, an edit leaves the fields the service manages.
\<close>

section \<open>Failed creations\<close>

definition service_error :: "net_fail \<Rightarrow> bool" where
  \<comment> \<open>an error of the service or of the host; other exceptions of Python are left out\<close>
  "service_error e = (case e of NsErr (NetErr c m) \<Rightarrow> True | NsErr (NetPy x) \<Rightarrow> False | NsHost x \<Rightarrow> is_HostNetError x)"

lemma old_data_restores:
  assumes "read_doc v = Inr data0" and "as_written v" and "nn_data c = jdefault ''networks'' (JObj []) data0"
    and "jget0 (nn_data c) ''networks'' = JObj nets" and "nn_id c = fresh_network_id nets"
  shows "write_doc (old_data c net) = Inr v"
proof -
  let ?k = "dec_int (nn_id c)" and ?D = "jdel ''topology'' data0"
  have h: "jhas data0 ''networks''" "jhas data0 ''links''"
    using assms(2) abs_topo_read [OF assms(1)] read_doc_keys(1) [OF assms(1)] by (auto simp: as_written_def jhas_def)
  then have nd: "nn_data c = data0" using assms(3) by (simp add: jdefault_def)
  have n: "jget data0 ''networks'' (JObj []) = JObj nets" using assms(4) h(1) by (auto simp: nd jget_def jhas_def)
  have "obj_get nets ?k = None" using fresh_network_key [of nets] assms(5) by simp
  then have "obj_del ?k nets = nets" by (force simp: obj_del_def filter_id_conv obj_get_None_iff)
  then have "jdel ?k (JObj (obj_set ?k net nets)) = JObj nets" by (simp add: jdel_def obj_del_of_set)
  then have "old_data c net = jset ''networks'' (JObj nets) ?D"
    by (simp add: old_data_def Let_def new_data_def nd n jset_eq)
  also have "\<dots> = ?D"
    using n h(1) by (intro jset_same) (auto simp: jget_def jhas_def)
  also have "?D = opened data0" using h by (simp add: opened_def jdefault_def)
  finally show ?thesis using opened_restores [OF assms(1,2)] by simp
qed

lemma name_check_obj:
  assumes "network_name_in_use v (strip nm) None = Inr b" and "strip nm \<noteq> []"
  shows "\<exists>nets. v = JObj nets"
proof -
  have "lower (strip (strip nm)) \<noteq> []" using assms(2) by (simp add: lower_def)
  then have "is_obj v" using assms(1) by (auto simp: network_name_in_use_def Let_def bindr_simps pitems_def split: if_splits)
  then show ?thesis by (cases v) auto
qed

lemma planned_networks:
  assumes "plan_network h pool now d p request tr = (Inr c, tr')"
  shows "\<exists>nets. jget0 (nn_data c) ''networks'' = JObj nets"
  using assms unfolding plan_network_def Let_def
  by (auto simp: andthen_Inr traced_defs bindr_simps split: if_splits sum.splits prod.splits dest!: name_check_obj)

text \<open>
  C23. When the creation of a network fails, for a reason of the service or of the host, the lab
  file is what it was, byte for byte of the document, no event is published and the MAC registry is
  untouched: the record written before the bridge was provisioned is taken back.
\<close>
theorem failed_network_restores_file:
  assumes "create_network h pool now path request w = (w', Inl e)" and "service_error e"
    and "normalize_lab_path path = Inr p" and "safe_path p"
    and "obj_get (lw_disk w) p = Some (Some v)" and "as_written v"
  shows "obj_get (lw_disk w') p = Some (Some v) \<and> lw_hub w' = lw_hub w \<and> lw_registry w' = lw_registry w"
proof -
  have q: "normalize_lab_path p = Inr p" using assms(4) by (simp add: safe_path_def)
  obtain pl tr where plan: "plan_network h pool now (lw_disk w) p request (snd (lw_runtime w)) = (pl, tr)"
    by (metis prod.exhaust)
  define w0 where "w0 = w\<lparr>lw_runtime := (fst (lw_runtime w), tr)\<rparr>"
  show ?thesis
  proof (cases pl)
    case (Inl x)
    then show ?thesis using assms(1,3,5) plan by (auto simp: create_network_def)
  next
    case (Inr c)
    then have made: "network_created h now p c w0 = (w', Inl e)" using assms(1,3) plan by (auto simp: create_network_def w0_def)
    obtain data0 where c: "read_lab (lw_disk w) p = Inr data0" "nn_data c = jdefault ''networks'' (JObj []) data0"
        "nn_id c = fresh_network_id (obj_of (jget0 (nn_data c) ''networks''))" using planned_plain plan Inr by blast
    obtain nets where nets: "jget0 (nn_data c) ''networks'' = JObj nets" using planned_networks plan Inr by blast
    have "read_doc v = Inr data0" using c(1) assms(5) q by (simp add: read_lab_def)
    then have restored: "write_doc (old_data c net) = Inr v" for net
      using old_data_restores [OF _ assms(6) c(2) nets] c(3) nets by simp
    have w0: "lw_disk w0 = lw_disk w" "lw_hub w0 = lw_hub w" "lw_registry w0 = lw_registry w" by (simp_all add: w0_def)
    obtain res net tr2 where pr: "provision h (nn_type c) (nn_cid c) (py_str (nn_bridge c)) (nn_lab c) (nn_id c) now (nn_record c)
        (snd (lw_runtime w0)) = ((res, net), tr2)" by (metis prod.collapse)
    show ?thesis
      using made assms(2,5) w0 q unfolding network_created_def pr prod.case Let_def
      by (cases res)
        (auto simp: write_lab_def restored service_error_def rolls_back_def split: sum.splits prod.splits if_splits net_fail.splits net_error.splits)
  qed
qed

section \<open>Host-owned bridges\<close>

lemma emits_on_host [emits_rules]: "emits P m \<Longrightarrow> emits P (on_host m)"
proof -
  have "snd (on_host m tr) = snd (m tr)" for tr by (simp add: on_host_def split: prod.split sum.split)
  then show "emits P m \<Longrightarrow> emits P (on_host m)" by (simp add: emits_def)
qed

lemma emits_bridge_exists [emits_rules]: "P (LinkShow b) \<Longrightarrow> emits P (bridge_exists h b)"
  by (simp add: emits_def bridge_exists_def)

lemma plan_network_looks:
  "emits (\<lambda>c. \<exists>b. c = LinkShow b) (plan_network h pool now d p request)"
  unfolding plan_network_def Let_def host_bridge_of_def
  by (intro emits_if emits_andthen emits_pure emits_case_prod emits_on_host emits_bridge_exists)
    (auto intro!: emits_rules split: json.splits)

lemma planned_type: "plan_network h pool now d p request tr = (Inr c, tr') \<Longrightarrow> nn_type c = type_of request"
  unfolding plan_network_def Let_def
  by (auto simp: andthen_Inr traced_defs split: if_splits sum.splits prod.splits)

lemma created_looks:
  assumes "create_network h pool now path request w = (w', r)" and "type_of request = BRIDGE_CLOUD_TYPE"
  shows "\<exists>new. snd (lw_runtime w') = snd (lw_runtime w) @ new \<and> list_all (\<lambda>c. \<exists>b. c = LinkShow b) new"
proof (cases "normalize_lab_path path")
  case (Inl e)
  then show ?thesis using assms(1) by (auto simp: create_network_def)
next
  case (Inr p)
  obtain pl tr where plan: "plan_network h pool now (lw_disk w) p request (snd (lw_runtime w)) = (pl, tr)" by (metis prod.exhaust)
  obtain new where new: "tr = snd (lw_runtime w) @ new" "list_all (\<lambda>c. \<exists>b. c = LinkShow b) new"
    using plan_network_looks [of h pool now "lw_disk w" p request] plan unfolding emits_def by (metis snd_conv)
  have "snd (lw_runtime w') = tr"
  proof (cases pl)
    case (Inl e)
    then show ?thesis using assms(1) \<open>normalize_lab_path path = Inr p\<close> plan by (auto simp: create_network_def)
  next
    case (Inr c)
    have ty: "nn_type c = BRIDGE_CLOUD_TYPE" using planned_type plan Inr assms(2) by metis
    have "\<not> own_cloud BRIDGE_CLOUD_TYPE (nn_cid c)" by (simp add: own_cloud_def BRIDGE_CLOUD_TYPE_def NAT_CLOUD_TYPE_def)
    then show ?thesis
      using assms(1) \<open>normalize_lab_path path = Inr p\<close> plan Inr
      unfolding create_network_def network_created_def provision_def
      by (auto simp: ty Let_def ret_def split: sum.splits prod.splits if_splits)
  qed
  then show ?thesis using new by blast
qed

lemma deleted_silent:
  assumes "delete_network h p n v = (v', r)" and "read_lab (lw_disk v) p = Inr data" and "safe_path p"
    and "net_type (network_at data n) = BRIDGE_CLOUD_TYPE \<or> net_driver (network_at data n) = JStr BRIDGE_CLOUD_TYPE"
  shows "snd (lw_runtime v') = snd (lw_runtime v)"
proof -
  have "net = network_at data n" if "deletable fs p data n = Inr net" for fs net
    using that by (auto simp: deletable_def bindr_simps pget_def network_at_def networks_of_doc_def split: if_splits)
  then have quiet: "snd (teardown_network h lab n net tr) = tr" if "deletable fs p data n = Inr net" for fs net lab tr
    using that assms(4) by (cases "pget (jor (jget0 net ''runtime'') (JObj [])) ''bridge_name'' JNull")
      (auto simp: teardown_network_def lift_py_def Let_def ret_def raise_def)
  have "snd (lw_runtime (fst (delete_network h p n v))) = snd (lw_runtime v)"
    using assms(2,3) quiet unfolding delete_network_def
    by (auto simp: bindr_simps safe_path_def split: sum.splits prod.splits) (metis snd_conv)+
  then show ?thesis by (simp add: assms(1))
qed

text \<open>
  Requests leave host-owned bridges alone: creating a Bridge-Cloud network only asks the host
  whether bridges exist, and deleting a network that is of this type or has its driver makes no
  call at all.
\<close>
theorem host_bridges_only_looked_at:
  fixes w :: "('w, 'r) link_world" and v :: "('x, 's) link_world"
  assumes "create_network h pool now path request w = (w', r)" and "type_of request = BRIDGE_CLOUD_TYPE"
    and "delete_network h lab n v = (v', r')" and "read_lab (lw_disk v) lab = Inr data" and "safe_path lab"
    and "net_type (network_at data n) = BRIDGE_CLOUD_TYPE \<or> net_driver (network_at data n) = JStr BRIDGE_CLOUD_TYPE"
  shows "(\<exists>new. snd (lw_runtime w') = snd (lw_runtime w) @ new \<and> list_all (\<lambda>c. \<exists>b. c = LinkShow b) new)
    \<and> snd (lw_runtime v') = snd (lw_runtime v)"
  using created_looks [OF assms(1,2)] deleted_silent [OF assms(3-6)] by simp

section \<open>Edits\<close>

lemma get_set_fields:
  "jget0 (set_fields patch net) k = (if k \<in> set NETWORK_FIELDS \<and> jget0 patch k \<noteq> JNull then jget0 patch k else jget0 net k)"
proof -
  have "jget0 (fold (\<lambda>k net. if jget0 patch k \<noteq> JNull then jset k (jget0 patch k) net else net) ks net) k
      = (if k \<in> set ks \<and> jget0 patch k \<noteq> JNull then jget0 patch k else jget0 net k)" for ks
    by (induction ks arbitrary: net) auto
  then show ?thesis by (simp add: set_fields_def)
qed

lemma jget_set_fields: "k \<notin> set NETWORK_FIELDS \<Longrightarrow> jget0 (set_fields patch net) k = jget0 net k"
  by (simp add: get_set_fields)

lemma set_name_keeps:
  assumes "set_name networks n v net = Inr (net', b)" and "k \<notin> {''name'', ''implicit'', ''visibility''}"
  shows "jget0 net' k = jget0 net k" and "\<not> b \<Longrightarrow> jget0 net' ''implicit'' = jget0 net ''implicit''"
  using assms by (auto simp: set_name_def Let_def bindr_simps split: if_splits)

lemma type_field: "jget0 net' ''type'' = jget0 net ''type'' \<Longrightarrow> jhas net' ''type'' = jhas net ''type'' \<Longrightarrow> type_of net' = type_of net"
  by (auto simp: type_of_def jget_def jhas_def split: option.splits)

text \<open>
  An accepted edit leaves the fields the service manages: the id and the runtime record are
  unchanged, the implicit mark changes only in a promotion, no network becomes a Bridge-Cloud, and
  a Bridge-Cloud keeps its type and its configuration.
\<close>
theorem patch_keeps_managed_fields:
  assumes "edit_network data n patch = Inr (net', promoted)"
  defines "net \<equiv> network_at data n"
  shows "jget0 net' ''id'' = jget0 net ''id'' \<and> jget0 net' ''runtime'' = jget0 net ''runtime''
    \<and> (promoted \<or> jget0 net' ''implicit'' = jget0 net ''implicit'')
    \<and> (type_of net \<noteq> BRIDGE_CLOUD_TYPE \<longrightarrow> jget0 net' ''type'' \<noteq> JStr BRIDGE_CLOUD_TYPE)
    \<and> (type_of net = BRIDGE_CLOUD_TYPE \<longrightarrow> type_of net' = BRIDGE_CLOUD_TYPE \<and> jget0 net' ''config'' = jget0 net ''config'')"
proof -
  obtain net1 where n1: "net1 = net \<and> \<not> promoted \<or> (\<exists>ns v. set_name ns n v net = Inr (net1, promoted))"
      "\<not> patch_refused net patch" "net' = set_fields patch net1"
    using assms by (auto simp: edit_network_def bindr_simps pget_def network_at_def networks_of_doc_def split: if_splits)
  have same: "jget0 net1 k = jget0 net k" if "k \<in> {''id'', ''runtime'', ''type'', ''config''}" for k
  proof -
    have "k \<notin> {''name'', ''implicit'', ''visibility''}" using that by auto
    then show ?thesis using n1(1) set_name_keeps(1) by blast
  qed
  have "promoted \<or> jget0 net1 ''implicit'' = jget0 net ''implicit''" using n1(1) set_name_keeps(2) by blast
  moreover have "jget0 net' k = jget0 net k" if "k \<in> {''id'', ''runtime''}" for k
    using jget_set_fields [of k patch net1] same [of k] that by (auto simp: n1(3) NETWORK_FIELDS_def)
  moreover have "jget0 net' ''implicit'' = jget0 net1 ''implicit''" by (simp add: n1(3) jget_set_fields NETWORK_FIELDS_def)
  moreover have field: "jget0 net' k = (if jget0 patch k \<noteq> JNull then jget0 patch k else jget0 net k)" if "k \<in> {''type'', ''config''}" for k
    using that same [of k] by (auto simp: n1(3) get_set_fields NETWORK_FIELDS_def)
  moreover have "jget0 net' ''type'' \<noteq> JStr BRIDGE_CLOUD_TYPE" if "type_of net \<noteq> BRIDGE_CLOUD_TYPE"
  proof
    assume t: "jget0 net' ''type'' = JStr BRIDGE_CLOUD_TYPE"
    have "jget0 net ''type'' \<noteq> JStr BRIDGE_CLOUD_TYPE"
      using that by (auto simp: type_of_def jget_def jor_def BRIDGE_CLOUD_TYPE_def split: option.splits)
    then have "jget0 patch ''type'' = JStr BRIDGE_CLOUD_TYPE" using t field [of "''type''"] by (auto split: if_splits)
    then show False using n1(2) that by (auto simp: patch_refused_def Let_def)
  qed
  moreover have "type_of net' = BRIDGE_CLOUD_TYPE \<and> jget0 net' ''config'' = jget0 net ''config''" if B: "type_of net = BRIDGE_CLOUD_TYPE"
  proof
    have "\<not> jhas patch ''config''" using n1(2) B by (auto simp: patch_refused_def Let_def)
    then show "jget0 net' ''config'' = jget0 net ''config''" using field [of "''config''"] by (simp add: jhas_def jget_def)
    have "jget0 patch ''type'' = JNull \<or> jget0 patch ''type'' = JStr BRIDGE_CLOUD_TYPE"
      using n1(2) B by (auto simp: patch_refused_def Let_def)
    then have ty: "jget0 net' ''type'' = jget0 net ''type'' \<or> jget0 net' ''type'' = JStr BRIDGE_CLOUD_TYPE"
      using field [of "''type''"] by auto
    have "jget0 net ''type'' \<noteq> JNull"
      using B by (auto simp: type_of_def jget_def jor_def BRIDGE_CLOUD_TYPE_def split: option.splits)
    then show "type_of net' = BRIDGE_CLOUD_TYPE"
      using ty B by (auto simp: type_of_def jget_def jor_def BRIDGE_CLOUD_TYPE_def split: option.splits if_splits)
  qed
  ultimately show ?thesis by auto
qed

section \<open>Unusual outcomes\<close>

definition no_nat_host :: host_env where
  \<comment> \<open>a host on which only the NAT rules cannot be applied\<close>
  "no_nat_host =
     \<lparr>cfg = demo_cfg, helper_says = (\<lambda>_ v _. if v = ''nat-apply'' then Reply 4 [] ''boom'' else Reply 0 [] []),
      link_show = (\<lambda>_ _. IpMissing), link_list = (\<lambda>_. IpMissing), fp_at = (\<lambda>_ _. FpMissing), fp_write_ok = (\<lambda>_ _. True)\<rparr>"

definition demo_cloud :: json where
  "demo_cloud = network_record 1 ''nat'' NAT_CLOUD_TYPE 0 0
     (JObj [(''cidr'', JStr ''10.255.0.0/24''), (''gateway'', JStr ''10.255.0.1''), (''egress_interface'', JStr ''eth0''),
        (''dhcp_start'', JStr ''10.255.0.100''), (''dhcp_end'', JStr ''10.255.0.254'')]) (JStr ''novebeefn1'') ''now''"

text \<open>
  When the NAT runtime of a new cloud fails, the rollback takes the record back and stops the NAT
  services, but the bridge that was just added stays on the host.
\<close>
theorem failed_cloud_leaves_bridge:
  "\<exists>e net tr tr'. provision no_nat_host NAT_CLOUD_TYPE [] ''novebeefn1'' ''lab'' 1 ''now'' demo_cloud [] = ((Inl e, net), tr)
      \<and> rolls_back e \<and> teardown_nat_cloud no_nat_host ''novebeefn1'' net tr = (Inr (), tr')
      \<and> Helper ''bridge-add'' [''novebeefn1''] \<in> set tr' \<and> Helper ''bridge-del'' [''novebeefn1''] \<notin> set tr'"
proof -
  have "case provision no_nat_host NAT_CLOUD_TYPE [] ''novebeefn1'' ''lab'' 1 ''now'' demo_cloud [] of
      ((Inl e, net), tr) \<Rightarrow> rolls_back e \<and> (case teardown_nat_cloud no_nat_host ''novebeefn1'' net tr of
         (Inr u, tr') \<Rightarrow> Helper ''bridge-add'' [''novebeefn1''] \<in> set tr' \<and> Helper ''bridge-del'' [''novebeefn1''] \<notin> set tr'
       | (Inl x, tr') \<Rightarrow> False)
    | ((Inr u, net), tr) \<Rightarrow> False" by code_simp
  then show ?thesis by (auto split: prod.splits sum.splits)
qed

text \<open>
  An edit can give a network the empty name that creation refuses.
\<close>
theorem patch_clears_name:
  "\<exists>net. edit_network (JObj [(''networks'', JObj [(''1'', JObj [(''id'', JInt 1), (''name'', JStr ''lan'')])])]) 1
      (JObj [(''name'', JStr ''  '')]) = Inr (net, False) \<and> jget0 net ''name'' = JStr []"
proof -
  have "case edit_network (JObj [(''networks'', JObj [(''1'', JObj [(''id'', JInt 1), (''name'', JStr ''lan'')])])]) 1
      (JObj [(''name'', JStr ''  '')]) of Inr (net, b) \<Rightarrow> \<not> b \<and> jget0 net ''name'' = JStr [] | Inl e \<Rightarrow> False" by code_simp
  then show ?thesis by (auto split: sum.splits prod.splits)
qed

section \<open>Witnesses\<close>

definition cloud_request :: json where
  "cloud_request = JObj [(''name'', JStr ''up''), (''type'', JStr ''bridge_cloud''), (''config'', JObj [(''host_bridge'', JStr ''br-eth0'')])]"

definition lan_request :: json where
  "lan_request = JObj [(''name'', JStr ''lan'')]"

definition demo_new :: new_network where
  \<comment> \<open>the plan for a bridge the host then refuses to add\<close>
  "demo_new = projr (fst (plan_network demo_host ''pool'' ''now'' (lw_disk demo_links) ''a.json'' lan_request []))"

lemma demo_new_fails:
  "\<exists>tr. plan_network demo_host ''pool'' ''now'' (lw_disk demo_links) ''a.json'' lan_request [] = (Inr demo_new, tr)"
  "\<exists>e net tr'. provision demo_host (nn_type demo_new) (nn_cid demo_new) (py_str (nn_bridge demo_new)) (nn_lab demo_new) (nn_id demo_new) ''now''
     (nn_record demo_new) tr = ((Inl e, net), tr') \<and> rolls_back e \<and> service_error (reported e)"
  "\<not> own_cloud (nn_type demo_new) (nn_cid demo_new)"
proof -
  let ?p = "plan_network demo_host ''pool'' ''now'' (lw_disk demo_links) ''a.json'' lan_request []"
  have "\<not> isl (fst ?p)" by code_simp
  then show "\<exists>tr. ?p = (Inr demo_new, tr)" by (cases ?p) (auto simp: demo_new_def dest: not_isl)
  have classified: "classify_helper_error ''boom'' 4 = HostNetUnknown 4 ''boom''" by code_simp
  have b: "nn_type demo_new = ''linux_bridge''" by code_simp
  then show "\<not> own_cloud (nn_type demo_new) (nn_cid demo_new)" by (simp add: own_cloud_def NAT_CLOUD_TYPE_def)
  show "\<exists>e net tr'. provision demo_host (nn_type demo_new) (nn_cid demo_new) (py_str (nn_bridge demo_new)) (nn_lab demo_new) (nn_id demo_new) ''now''
     (nn_record demo_new) tr = ((Inl e, net), tr') \<and> rolls_back e \<and> service_error (reported e)"
    unfolding b using classified
    by (simp add: own_cloud_def provision_def provision_bridge_def BRIDGE_CLOUD_TYPE_def NAT_CLOUD_TYPE_def andthen_def on_host_def
        bridge_exists_def bridge_add_def run_helper_def invoke_helper_def demo_host_def rolls_back_def
        reported_def service_error_def)
qed

theorem failed_network_restores_file_witness:
  "obj_get (lw_disk (fst (create_network demo_host ''pool'' ''now'' ''a.json'' lan_request demo_links))) ''a.json'' = Some (Some bare_lab)"
proof -
  let ?r = "create_network demo_host ''pool'' ''now'' ''a.json'' lan_request demo_links"
  have written: "\<exists>d'. write_lab d ''a.json'' (new_data c net) = Inr d'" "\<exists>d'. write_lab d ''a.json'' (old_data c net) = Inr d'" for d c net
    using write_plain [of "new_data c net"] write_plain [of "old_data c net"]
    by (simp_all add: write_lab_def demo_path data_without_topology)
  have "\<exists>e. snd ?r = Inl e \<and> service_error e"
  proof -
    obtain tr where tr: "plan_network demo_host ''pool'' ''now'' (lw_disk demo_links) ''a.json'' lan_request [] = (Inr demo_new, tr)"
      using demo_new_fails(1) by blast
    obtain e net tr' where e: "provision demo_host (nn_type demo_new) (nn_cid demo_new) (py_str (nn_bridge demo_new)) (nn_lab demo_new)
        (nn_id demo_new) ''now'' (nn_record demo_new) tr = ((Inl e, net), tr')" "rolls_back e" "service_error (reported e)"
      using demo_new_fails(2) by blast
    obtain d1 where d1: "write_lab (lw_disk demo_links) ''a.json'' (new_data demo_new (nn_record demo_new)) = Inr d1" using written(1) by blast
    obtain d2 where d2: "write_lab d1 ''a.json'' (old_data demo_new net) = Inr d2" using written(2) by blast
    have rt: "lw_runtime demo_links = ((), [])" by (simp add: demo_links_def)
    show ?thesis by (simp add: create_network_def demo_path rt tr network_created_def d1 e Let_def d2 demo_new_fails(3) ret_def)
  qed
  then obtain e where e: "?r = (fst ?r, Inl e)" "service_error e" by (cases ?r) auto
  have v: "obj_get (lw_disk demo_links) ''a.json'' = Some (Some bare_lab)" by (simp add: demo_links_def)
  have w: "as_written bare_lab" unfolding as_written_def by code_simp
  from failed_network_restores_file [OF e demo_path demo_links_wired(2) v w] show ?thesis by simp
qed

definition uplink_world :: "(nat, unit) link_world" where
  \<comment> \<open>a lab with a Bridge-Cloud network\<close>
  "uplink_world = demo_links\<lparr>lw_disk := [(''a.json'', Some (JObj [(''schema'', JInt 2), (''id'', JStr ''lab''), (''nodes'', JObj []),
     (''networks'', JObj [(''1'', JObj [(''id'', JInt 1), (''type'', JStr ''bridge_cloud'')])]), (''links'', JList [])]))]\<rparr>"

theorem host_bridges_only_looked_at_witness:
  "snd (lw_runtime (fst (delete_network demo_host ''a.json'' 1 uplink_world))) = []"
proof -
  have "case read_lab (lw_disk uplink_world) ''a.json'' of Inr data \<Rightarrow> net_type (network_at data 1) = BRIDGE_CLOUD_TYPE | Inl e \<Rightarrow> False"
    by code_simp
  then obtain data where d: "read_lab (lw_disk uplink_world) ''a.json'' = Inr data"
      "net_type (network_at data 1) = BRIDGE_CLOUD_TYPE" by (auto split: sum.splits)
  have ty: "type_of cloud_request = BRIDGE_CLOUD_TYPE" by (simp add: type_of_def cloud_request_def jget_def jfind_def jor_def BRIDGE_CLOUD_TYPE_def)
  from host_bridges_only_looked_at [where h = demo_host and pool = "''pool''" and now = "''now''" and path = "''a.json''" and w = demo_links,
      OF prod.collapse [symmetric] ty prod.collapse [symmetric] d(1) demo_links_wired(2) disjI1, OF d(2)]
  show ?thesis by (simp add: uplink_world_def demo_links_def)
qed

theorem patch_keeps_managed_fields_witness:
  "\<exists>net. edit_network linked_lab 1 (JObj [(''left'', JInt 7)]) = Inr (net, False) \<and> jget0 net ''id'' = JInt 1"
proof -
  have "case edit_network linked_lab 1 (JObj [(''left'', JInt 7)]) of Inr (net, b) \<Rightarrow> \<not> b | Inl e \<Rightarrow> False" by code_simp
  then obtain net where net: "edit_network linked_lab 1 (JObj [(''left'', JInt 7)]) = Inr (net, False)" by (auto split: sum.splits prod.splits)
  have "jget0 (network_at linked_lab 1) ''id'' = JInt 1" by code_simp
  then show ?thesis using patch_keeps_managed_fields [OF net] net by auto
qed

end
