(* ===== verification/Node_Runtime.thy ===== *)
theory Node_Runtime
  imports Runtime_Monad Runtime_Mutex Lab_Store Link_Attach
begin

text \<open>
  The node runtime service's own state (\<open>app/services/node_runtime_service.py\<close>): the registry of
  runtime records with their state files, the check that a node is alive, the interface and node
  mutexes around an operation, and the QMP connection to a running machine.

  A record is the JSON object the service keeps per \<open>lab:node\<close>. The registry and its caller share
  the object, so an update of a record in hand is an update of the registry; the state file
  changes when the record is persisted. Docker, the process table and the QMP sockets are
  parameters (\<open>node_env\<close>).

  The lemmas show that a QMP reply does not depend on how the stream is cut into chunks, what
  loading and persisting leave in the registry and the files, and that the mutexes are given back
  on every way out.
\<close>

section \<open>State and environment\<close>

type_synonym qmp_call = "string \<times> string \<times> json"
  \<comment> \<open>socket path, command and arguments; \<open>JNull\<close> for no arguments\<close>

record node_state =
  ns_registry :: "(string \<times> json) list"
  ns_files :: "(string \<times> json option) list"
  ns_mutexes :: "(mutex_key, nat) mutexes"
  ns_node_locks :: "(string \<times> int, nat) node_locks"
  ns_qmp :: "qmp_call list"
  ns_labs :: disk
  ns_warnings :: "(string \<times> json) list"

datatype qmp_conn =
    NoSocket
  | ConnectFails string
  | Connected "string list" string "string option" "string option"
    \<comment> \<open>the chunks received, the error after them, and the errors of the two sends\<close>

record proc =
  pr_far :: "json \<Rightarrow> bool"
    \<comment> \<open>created more than a second away from a recorded time\<close>
  pr_running :: bool
  pr_zombie :: bool

record node_env =
  nv_host :: host_env
  nv_thread :: nat
  nv_conn :: "qmp_call list \<Rightarrow> qmp_call \<Rightarrow> qmp_conn"
  nv_loads :: "string \<Rightarrow> json option"
  nv_docker :: "call list \<Rightarrow> string \<Rightarrow> (int \<times> string) option"
    \<comment> \<open>\<open>docker inspect -f .State.Running\<close>; \<open>None\<close> without a docker binary\<close>
  nv_dynamips :: "call list \<Rightarrow> json \<Rightarrow> bool"
  nv_process :: "call list \<Rightarrow> json \<Rightarrow> proc option"
  nv_write_ok :: "call list \<Rightarrow> string \<Rightarrow> bool"
  nv_rglob :: "string list"
  nv_glob :: "string list"

type_synonym 'a node = "(node_state, 'a) rt"

section \<open>QMP\<close>

datatype qmp_error = QmpIO string | QmpNotJson

fun read_line :: "string \<Rightarrow> string \<Rightarrow> string list \<Rightarrow> string + string \<times> string \<times> string list" where
  \<comment> \<open>\<open>_read_line\<close>: the line, the rest of the buffer and the chunks to come\<close>
  "read_line err buf chunks =
     (if newline \<in> set buf
      then Inr (takeWhile (\<lambda>c. c \<noteq> newline) buf, tl (dropWhile (\<lambda>c. c \<noteq> newline) buf), chunks)
      else case chunks of
        [] \<Rightarrow> Inl err
      | c # cs \<Rightarrow> if c = [] then Inl ''qmp socket closed during read'' else read_line err (buf @ c) cs)"

declare read_line.simps [simp del]

definition read_json ::
    "(string \<Rightarrow> json option) \<Rightarrow> string \<Rightarrow> string \<Rightarrow> string list \<Rightarrow> qmp_error + json \<times> string \<times> string list" where
  "read_json loads err buf chunks =
     (case read_line err buf chunks of
        Inl e \<Rightarrow> Inl (QmpIO e)
      | Inr (line, rest, cs) \<Rightarrow> (case loads line of None \<Rightarrow> Inl QmpNotJson | Some v \<Rightarrow> Inr (v, rest, cs)))"

definition qmp_send_with_args :: "(string \<Rightarrow> json option) \<Rightarrow> qmp_conn \<Rightarrow> string \<Rightarrow> qmp_error + json" where
  \<comment> \<open>greeting, \<open>qmp_capabilities\<close> and its reply, the command and its reply\<close>
  "qmp_send_with_args loads conn path =
     (case conn of
        NoSocket \<Rightarrow> Inl (QmpIO (''qmp socket not found: '' @ path))
      | ConnectFails e \<Rightarrow> Inl (QmpIO e)
      | Connected chunks err send1 send2 \<Rightarrow>
          bindr (read_json loads err [] chunks) (\<lambda>(_, b1, c1).
          bindr (case send1 of Some e \<Rightarrow> Inl (QmpIO e) | None \<Rightarrow> Inr ()) (\<lambda>_.
          bindr (read_json loads err b1 c1) (\<lambda>(_, b2, c2).
          bindr (case send2 of Some e \<Rightarrow> Inl (QmpIO e) | None \<Rightarrow> Inr ()) (\<lambda>_.
          bindr (read_json loads err b2 c2) (\<lambda>(response, _, _).
            Inr (if is_obj response then response else JObj [])))))))"

definition qmp_client :: "node_env \<Rightarrow> string \<Rightarrow> string \<Rightarrow> json \<Rightarrow> (qmp_error + json) node" where
  "qmp_client ev path cmd args s =
     (let c = (path, cmd, args) in
      (Inr (qmp_send_with_args (nv_loads ev) (nv_conn ev (ns_qmp (fst s)) c) path),
       (fst s)\<lparr>ns_qmp := ns_qmp (fst s) @ [c]\<rparr>, snd s))"

definition qmp_command :: "node_env \<Rightarrow> string \<Rightarrow> string \<Rightarrow> json \<Rightarrow> json node" where
  \<comment> \<open>a socket error becomes \<open>NodeRuntimeQMPTimeout\<close>\<close>
  "qmp_command ev path cmd args =
     rt_bind (qmp_client ev path cmd args) (\<lambda>r.
       case r of
         Inr v \<Rightarrow> rt_ret v
       | Inl (QmpIO e) \<Rightarrow> rt_raise (RtQmp (''QMP '' @ cmd @ '' transport error on '' @ path @ '': '' @ e))
       | Inl QmpNotJson \<Rightarrow> rt_raise (RtHost (Py PyJSONDecodeError)))"

definition set_link_args :: "int \<Rightarrow> bool \<Rightarrow> json" where
  "set_link_args i up = JObj [(''name'', JStr (''net'' @ dec_int i)), (''up'', JBool up)]"

definition id_args :: "string \<Rightarrow> json" where
  "id_args i = JObj [(''id'', JStr i)]"

section \<open>Records\<close>

definition runtime_key :: "string \<Rightarrow> int \<Rightarrow> string" where
  "runtime_key lab n = lab @ '':'' @ dec_int n"

definition state_file :: "string \<Rightarrow> string \<Rightarrow> string" where
  \<comment> \<open>the name of the state file in \<open>runtime_dir\<close>\<close>
  "state_file lab n = lab @ ''-'' @ n @ ''.json''"

definition persist_runtime :: "node_env \<Rightarrow> json \<Rightarrow> unit node" where
  \<comment> \<open>a temporary file is renamed: the state file changes as a whole or not at all\<close>
  "persist_runtime ev runtime =
     (case (jfind runtime ''lab_id'', jfind runtime ''node_id'') of
        (Some l, Some n) \<Rightarrow>
          (let p = state_file (py_str l) (py_str n) in
           (\<lambda>s. if nv_write_ok ev (snd s) p
                then rt_modify (\<lambda>st. st\<lparr>ns_files := obj_set p (Some runtime) (ns_files st)\<rparr>) s
                else rt_raise (RtHost OSError) s))
      | _ \<Rightarrow> rt_raise (RtHost (Py PyKeyError)))"

definition delete_runtime :: "string \<Rightarrow> int \<Rightarrow> unit node" where
  "delete_runtime lab n =
     rt_modify (\<lambda>st. st\<lparr>ns_registry := obj_del (runtime_key lab n) (ns_registry st),
                        ns_files := obj_del (state_file lab (dec_int n)) (ns_files st)\<rparr>)"

definition registered :: "string \<Rightarrow> int \<Rightarrow> node_state \<Rightarrow> json option" where
  \<comment> \<open>\<open>self._registry.get(key)\<close>, an empty record counting as none\<close>
  "registered lab n st =
     (case obj_get (ns_registry st) (runtime_key lab n) of
        Some r \<Rightarrow> if truthy r then Some r else None | None \<Rightarrow> None)"

definition load_record :: "string \<Rightarrow> int \<Rightarrow> json option node" where
  \<comment> \<open>from the registry, else from the state file, which is then registered\<close>
  "load_record lab n s =
     (case registered lab n (fst s) of
        Some r \<Rightarrow> rt_ret (Some r) s
      | None \<Rightarrow>
          (case obj_get (ns_files (fst s)) (state_file lab (dec_int n)) of
             None \<Rightarrow> rt_ret None s
           | Some None \<Rightarrow> rt_raise (RtHost (Py PyJSONDecodeError)) s
           | Some (Some r) \<Rightarrow>
               rt_bind (rt_modify (\<lambda>st. st\<lparr>ns_registry := obj_set (runtime_key lab n) r (ns_registry st)\<rparr>))
                 (\<lambda>_. rt_ret (if truthy r then Some r else None)) s))"

definition is_docker_running :: "node_env \<Rightarrow> json \<Rightarrow> bool node" where
  "is_docker_running ev runtime s =
     (let name = jget0 runtime ''container_name'' in
      if \<not> truthy name then rt_ret False s
      else case name of
        JStr c \<Rightarrow> rt_ret (case nv_docker ev (snd s) c of None \<Rightarrow> False | Some (rc, out) \<Rightarrow> rc = 0 \<and> strip out = ''true'') s
      | _ \<Rightarrow> rt_raise (RtHost (Py PyTypeError)) s)"

definition is_runtime_alive :: "node_env \<Rightarrow> json \<Rightarrow> bool node" where
  "is_runtime_alive ev runtime s =
     rt_bind (rt_py (pget runtime ''kind'' JNull)) (\<lambda>kind.
       if py_eq kind (JStr ''docker'') then is_docker_running ev runtime
       else if py_eq kind (JStr ''dynamips'') then rt_ret (nv_dynamips ev (snd s) runtime)
       else if \<not> truthy (jget0 runtime ''pid'') then rt_ret False
       else rt_ret (case nv_process ev (snd s) (jget0 runtime ''pid'') of
           None \<Rightarrow> False
         | Some p \<Rightarrow>
             (let t = jget0 runtime ''pid_create_time'' in
              \<not> (truthy t \<and> pr_far p t) \<and> pr_running p \<and> \<not> pr_zombie p))) s"

definition runtime_record :: "node_env \<Rightarrow> string \<Rightarrow> int \<Rightarrow> bool \<Rightarrow> json option node" where
  \<comment> \<open>without \<open>include_stopped\<close> the record of a dead node is deleted\<close>
  "runtime_record ev lab n include_stopped =
     rt_bind (load_record lab n) (\<lambda>r.
       case r of
         None \<Rightarrow> rt_ret None
       | Some runtime \<Rightarrow>
           if include_stopped then rt_ret (Some runtime)
           else rt_bind (is_runtime_alive ev runtime) (\<lambda>alive.
             if alive then rt_ret (Some runtime)
             else rt_bind (delete_runtime lab n) (\<lambda>_. rt_ret None)))"

type_synonym 'a edit = "json \<Rightarrow> (py_exc + 'a) \<times> json"
  \<comment> \<open>an update in place: what it changed before an error stays changed\<close>

definition rt_edit :: "string \<Rightarrow> int \<Rightarrow> 'a edit \<Rightarrow> 'a node" where
  "rt_edit lab n f s =
     (case f (case obj_get (ns_registry (fst s)) (runtime_key lab n) of Some r \<Rightarrow> r | None \<Rightarrow> JObj []) of
        (v, r) \<Rightarrow> rt_py v ((fst s)\<lparr>ns_registry := obj_set (runtime_key lab n) r (ns_registry (fst s))\<rparr>, snd s))"

definition rt_current :: "string \<Rightarrow> int \<Rightarrow> json node" where
  \<comment> \<open>the record in hand, after the updates so far\<close>
  "rt_current lab n =
     rt_read (\<lambda>st. case obj_get (ns_registry st) (runtime_key lab n) of Some r \<Rightarrow> r | None \<Rightarrow> JObj [])"

section \<open>Mutexes\<close>

definition with_iface_mutex :: "node_env \<Rightarrow> string \<Rightarrow> int \<Rightarrow> int \<Rightarrow> 'a node \<Rightarrow> 'a node" where
  \<comment> \<open>\<open>with runtime_mutex.acquire_sync(...)\<close>: contention when the lock stays taken\<close>
  "with_iface_mutex ev lab n i m s =
     (case mutex_lock (nv_thread ev) (lab, n, i) (ns_mutexes (fst s)) of
        None \<Rightarrow> rt_raise RtContention s
      | Some locks \<Rightarrow>
          (case m ((fst s)\<lparr>ns_mutexes := locks\<rparr>, snd s) of
             (v, st, tr) \<Rightarrow> (v, st\<lparr>ns_mutexes := mutex_unlock (lab, n, i) (ns_mutexes st)\<rparr>, tr)))"

definition with_node_mutex :: "node_env \<Rightarrow> string \<Rightarrow> int \<Rightarrow> 'a node \<Rightarrow> 'a node" where
  "with_node_mutex ev lab n m s =
     (case node_lock (nv_thread ev) (lab, n) (ns_node_locks (fst s)) of
        None \<Rightarrow> rt_raise RtContention s
      | Some locks \<Rightarrow>
          (case m ((fst s)\<lparr>ns_node_locks := locks\<rparr>, snd s) of
             (v, st, tr) \<Rightarrow> (v, st\<lparr>ns_node_locks := node_unlock (lab, n) (ns_node_locks st)\<rparr>, tr)))"

definition assert_held :: "string \<Rightarrow> int \<Rightarrow> int \<Rightarrow> unit node" where
  "assert_held lab n i =
     rt_bind (rt_read (\<lambda>st. mutex_is_held (ns_mutexes st) (lab, n, i))) (\<lambda>held.
       if held then rt_ret () else rt_raise (RtHost (Py PyAssertionError)))"

section \<open>Entries of a record\<close>

definition entries_of :: "string \<Rightarrow> json \<Rightarrow> py_exc + json list" where
  \<comment> \<open>\<open>list(runtime.get(field) or [])\<close>\<close>
  "entries_of field runtime = bindr (pget runtime field JNull) (\<lambda>v. piter (jor v (JList [])))"

definition entry_index :: "json \<Rightarrow> py_exc + int" where
  "entry_index e = bindr (pget e ''interface_index'' (JInt (- 1))) py_int"

fun find_entry :: "int \<Rightarrow> nat \<Rightarrow> json list \<Rightarrow> py_exc + (nat \<times> json) option" where
  \<comment> \<open>position and entry of the first attachment of an interface\<close>
  "find_entry i k [] = Inr None"
| "find_entry i k (e # es) =
     bindr (entry_index e) (\<lambda>j. if j = i then Inr (Some (k, e)) else find_entry i (Suc k) es)"

definition GEN :: string where
  "GEN = ''current_attach_generation''"

definition bump_interface_attach_generation :: "int \<Rightarrow> int edit" where
  "bump_interface_attach_generation i runtime =
     (let r1 = jdefault ''interface_runtime'' (JObj []) runtime;
          ir = jget0 r1 ''interface_runtime'' in
      if \<not> is_obj ir then (Inl PyAttributeError, r1)
      else (let ir1 = jdefault (dec_int i) (JObj [(GEN, JInt 0)]) ir;
                r2 = jset ''interface_runtime'' ir1 r1;
                rec = jget0 ir1 (dec_int i)
            in if \<not> is_obj rec then (Inl PyAttributeError, r2)
               else case py_int (jget rec GEN (JInt 0)) of
                 Inl e \<Rightarrow> (Inl e, r2)
               | Inr g \<Rightarrow> (Inr (g + 1),
                   jset ''interface_runtime'' (jset (dec_int i) (jset GEN (JInt (g + 1)) rec) ir1) r1)))"

definition interface_attach_generation :: "json \<Rightarrow> int \<Rightarrow> py_exc + int" where
  "interface_attach_generation runtime i =
     bindr (pget runtime ''interface_runtime'' JNull) (\<lambda>ir.
     bindr (pget (jor ir (JObj [])) (dec_int i) JNull) (\<lambda>rec.
     bindr (pget (jor rec (JObj [])) GEN (JInt 0)) py_int))"

definition add_attachment :: "json \<Rightarrow> string \<Rightarrow> string \<Rightarrow> unit edit" where
  \<comment> \<open>append the attachment, then the device name to the list of names\<close>
  "add_attachment entry field name runtime =
     (case entries_of ''interface_attachments'' runtime of
        Inl e \<Rightarrow> (Inl e, runtime)
      | Inr xs \<Rightarrow>
          (let r1 = jset ''interface_attachments'' (JList (xs @ [entry])) runtime in
           case entries_of field r1 of
             Inl e \<Rightarrow> (Inl e, r1)
           | Inr ns \<Rightarrow>
               (Inr (), jset field (JList (if list_ex (\<lambda>x. py_eq x (JStr name)) ns then ns else ns @ [JStr name])) r1)))"

definition drop_name :: "string \<Rightarrow> string \<Rightarrow> unit edit" where
  \<comment> \<open>\<open>runtime[field] = [h for h in runtime.get(field) or [] if h != name]\<close>\<close>
  "drop_name field name runtime =
     (case entries_of field runtime of
        Inl e \<Rightarrow> (Inl e, runtime)
      | Inr ns \<Rightarrow> (Inr (), jset field (JList (filter (\<lambda>x. \<not> py_eq x (JStr name)) ns)) runtime))"

definition commit_attachment ::
    "node_env \<Rightarrow> string \<Rightarrow> int \<Rightarrow> int \<Rightarrow> (int \<Rightarrow> json) \<Rightarrow> string \<Rightarrow> string \<Rightarrow> json node" where
  \<comment> \<open>the end of a hot attach: the new generation, the entry made from it, the device name, the file\<close>
  "commit_attachment ev lab n i entry field name =
     rt_bind (rt_edit lab n (bump_interface_attach_generation i)) (\<lambda>g.
     rt_bind (rt_edit lab n (add_attachment (entry g) field name)) (\<lambda>_.
     rt_bind (rt_current lab n) (\<lambda>runtime.
     rt_bind (persist_runtime ev runtime) (\<lambda>_. rt_ret (entry g)))))"

section \<open>The network interfaces of a record\<close>

text \<open>
  What the attachments and generations of a record stand for: the network each interface is
  attached to and the generation of its last attachment. \<open>record_ok\<close> is the type of the records
  the service builds: numbers where numbers belong, one attachment per interface.
\<close>

datatype nics = Nics (nic_net: "int \<Rightarrow> int option") (nic_gen: "int \<Rightarrow> int")

definition int_field :: "string \<Rightarrow> json \<Rightarrow> int option" where
  "int_field k e = (case jget0 e k of JInt j \<Rightarrow> Some j | _ \<Rightarrow> None)"

definition entry_ok :: "json \<Rightarrow> bool" where
  "entry_ok e \<longleftrightarrow> is_obj e \<and> int_field ''interface_index'' e \<noteq> None \<and> int_field ''network_id'' e \<noteq> None \<and>
     (jget0 e ''slot'' = JNull \<or> int_field ''slot'' e \<noteq> None)"

definition index_of :: "json \<Rightarrow> int" where
  "index_of e = the (int_field ''interface_index'' e)"

definition list_field :: "string \<Rightarrow> json \<Rightarrow> json list option" where
  \<comment> \<open>a list field that is there or not yet\<close>
  "list_field k r = (case jfind r k of None \<Rightarrow> Some [] | Some (JList xs) \<Rightarrow> Some xs | Some _ \<Rightarrow> None)"

definition gen_ok :: "json \<Rightarrow> bool" where
  "gen_ok rec \<longleftrightarrow> is_obj rec \<and> (\<exists>g. jget rec GEN (JInt 0) = JInt g)"

definition gens_ok :: "json \<Rightarrow> bool" where
  "gens_ok r \<longleftrightarrow>
     (case jfind r ''interface_runtime'' of
        None \<Rightarrow> True
      | Some ir \<Rightarrow> is_obj ir \<and> (\<forall>k. case jfind ir k of None \<Rightarrow> True | Some rec \<Rightarrow> gen_ok rec))"

definition record_ok :: "string \<Rightarrow> int \<Rightarrow> json \<Rightarrow> bool" where
  "record_ok lab n r \<longleftrightarrow>
     is_obj r \<and> jfind r ''lab_id'' = Some (JStr lab) \<and> jfind r ''node_id'' = Some (JInt n) \<and>
     (case list_field ''interface_attachments'' r of
        None \<Rightarrow> False | Some es \<Rightarrow> (\<forall>e\<in>set es. entry_ok e) \<and> distinct (map index_of es)) \<and>
     list_field ''veth_host_ends'' r \<noteq> None \<and> list_field ''tap_names'' r \<noteq> None \<and>
     (\<exists>ss. list_field ''allocated_slots'' r = Some (map JInt ss)) \<and> gens_ok r"

definition attachments :: "json \<Rightarrow> json list" where
  "attachments r = the (list_field ''interface_attachments'' r)"

definition generation :: "json \<Rightarrow> int \<Rightarrow> int" where
  "generation r i = (case interface_attach_generation r i of Inr g \<Rightarrow> g | Inl e \<Rightarrow> 0)"

definition nics_of :: "json \<Rightarrow> nics" where
  "nics_of r =
     Nics (\<lambda>i. map_option (\<lambda>e. the (int_field ''network_id'' e)) (find (\<lambda>e. index_of e = i) (attachments r)))
          (generation r)"

end
