(* ===== verification/Node_Nics.thy ===== *)
theory Node_Nics
  imports Node_Runtime
begin

text \<open>
  What the runtime record of a node says about its interfaces, and how the edits of a record move
  it: \<open>nics_of\<close> abstracts a record of the type \<open>record_ok\<close> to the network and the generation of every
  interface. The lemmas show what the edits and the look-up of a record do to this table.
\<close>

section \<open>Records and what they stand for\<close>

lemma entry_index_ok: "entry_ok e \<Longrightarrow> entry_index e = Inr (index_of e)"
  by (auto simp: entry_ok_def entry_index_def index_of_def int_field_def pget_def is_obj_iff jget_def split: json.splits option.splits)

lemma find_entry_ok:
  "\<forall>e\<in>set es. entry_ok e \<Longrightarrow>
     find_entry i k es = Inr (case find (\<lambda>e. index_of e = i) es of None \<Rightarrow> None
       | Some e \<Rightarrow> Some (k + length (takeWhile (\<lambda>e. index_of e \<noteq> i) es), e))"
  by (induction es arbitrary: k) (auto simp: entry_index_ok split: option.splits)

lemma find_app: "find P (xs @ ys) = (case find P xs of None \<Rightarrow> find P ys | Some x \<Rightarrow> Some x)"
  by (induction xs) auto

lemma find_split:
  "find P es = Some e \<Longrightarrow> \<exists>vs. es = takeWhile (\<lambda>x. \<not> P x) es @ e # vs \<and> P e"
  by (induction es) (auto split: if_splits)

lemma find_without:
  assumes "distinct (map f es)" and "find (\<lambda>e. f e = i) es = Some e" and "k = length (takeWhile (\<lambda>e. f e \<noteq> i) es)"
  shows "find (\<lambda>e. f e = j) (take k es @ drop (Suc k) es) = (if j = i then None else find (\<lambda>e. f e = j) es)"
    and "distinct (map f (take k es @ drop (Suc k) es))" and "set (take k es @ drop (Suc k) es) \<subseteq> set es"
proof -
  define us where us: "us = takeWhile (\<lambda>e. f e \<noteq> i) es"
  obtain vs where es: "es = us @ e # vs" and e: "f e = i"
    using find_split [OF assms(2)] unfolding us by auto
  have k: "take k es = us" "drop (Suc k) es = vs" using us es assms(3) by simp_all
  have "f x \<noteq> i" if "x \<in> set us \<union> set vs" for x using that assms(1) e unfolding es by auto (metis image_eqI)+
  then have "find (\<lambda>e. f e = i) us = None" "find (\<lambda>e. f e = i) vs = None" by (auto simp: find_None_iff)
  then show "find (\<lambda>e. f e = j) (take k es @ drop (Suc k) es) = (if j = i then None else find (\<lambda>e. f e = j) es)"
    unfolding k unfolding es using e by (auto simp: find_app split: option.splits)
  show "distinct (map f (take k es @ drop (Suc k) es))" "set (take k es @ drop (Suc k) es) \<subseteq> set es"
    unfolding k using assms(1) unfolding es by auto
qed

lemma list_field_jset [simp]:
  "list_field k (jset l v r) = (if l = k then (case v of JList xs \<Rightarrow> Some xs | _ \<Rightarrow> None) else list_field k r)"
  by (auto simp: list_field_def split: json.splits)

lemma entries_of_ok: "is_obj r \<Longrightarrow> list_field k r = Some xs \<Longrightarrow> entries_of k r = Inr xs"
  by (auto simp: list_field_def entries_of_def pget_def jget_def jor_def split: option.splits json.splits)

lemma record_okD:
  assumes "record_ok lab n r"
  shows "is_obj r" "jfind r ''lab_id'' = Some (JStr lab)" "jfind r ''node_id'' = Some (JInt n)"
    "list_field ''interface_attachments'' r = Some (attachments r)" "\<forall>e\<in>set (attachments r). entry_ok e"
    "distinct (map index_of (attachments r))" "gens_ok r"
    "\<exists>xs. list_field ''veth_host_ends'' r = Some xs" "\<exists>xs. list_field ''tap_names'' r = Some xs"
    "\<exists>ss. list_field ''allocated_slots'' r = Some (map JInt ss)"
  using assms by (auto simp: record_ok_def attachments_def split: option.splits)

definition gen_value :: "json \<Rightarrow> int" where
  "gen_value rec = (case jget rec GEN (JInt 0) of JInt g \<Rightarrow> g | _ \<Rightarrow> 0)"

lemma gen_okD: "gen_ok rec \<Longrightarrow> is_obj rec" "gen_ok rec \<Longrightarrow> jget rec GEN (JInt 0) = JInt (gen_value rec)"
  by (auto simp: gen_ok_def gen_value_def)

definition gen_table :: "json \<Rightarrow> json" where
  "gen_table r = jget r ''interface_runtime'' (JObj [])"

lemma gens_okD:
  assumes "gens_ok r"
  shows "is_obj (gen_table r)" "jfind (gen_table r) k = Some v \<Longrightarrow> gen_ok v"
    "jor (jget0 r ''interface_runtime'') (JObj []) = gen_table r"
  using assms by (auto simp: gens_ok_def gen_table_def jget_def jor_def is_obj_iff split: option.splits)

lemma gens_ok_value:
  assumes "gens_ok r" and "is_obj r"
  shows "interface_attach_generation r i = Inr (case jfind (gen_table r) (dec_int i) of None \<Rightarrow> 0 | Some v \<Rightarrow> gen_value v)"
proof (cases "jfind (gen_table r) (dec_int i)")
  case None
  then show ?thesis using assms gens_okD [OF assms(1)]
    by (simp add: interface_attach_generation_def pget_def) (simp add: jget_def jor_def)
next
  case (Some v)
  note v = gen_okD [OF gens_okD(2) [OF assms(1) Some]]
  have "is_obj (jor v (JObj []))" "jget (jor v (JObj [])) GEN (JInt 0) = jget v GEN (JInt 0)"
    using v(1) by (cases v; auto simp: jor_def jget_def)+
  then show ?thesis using assms gens_okD [OF assms(1)] Some v
    by (simp add: interface_attach_generation_def pget_def) (simp add: jget_def)
qed

lemma generation_eq:
  "gens_ok r \<Longrightarrow> is_obj r \<Longrightarrow>
     generation r i = (case jfind (gen_table r) (dec_int i) of None \<Rightarrow> 0 | Some v \<Rightarrow> gen_value v)"
  by (simp add: generation_def gens_ok_value)

lemma generation_jset [simp]:
  "k \<noteq> ''interface_runtime'' \<Longrightarrow> is_obj r \<Longrightarrow> generation (jset k v r) i = generation r i"
  by (simp add: generation_def interface_attach_generation_def pget_def)

lemma gens_ok_jset [simp]: "k \<noteq> ''interface_runtime'' \<Longrightarrow> gens_ok (jset k v r) = gens_ok r"
  by (simp add: gens_ok_def)

lemma bump_ok:
  assumes "gens_ok r" and "is_obj r"
  shows "\<exists>r'. bump_interface_attach_generation i r = (Inr (generation r i + 1), r') \<and> gens_ok r' \<and> is_obj r'
       \<and> (\<forall>k. k \<noteq> ''interface_runtime'' \<longrightarrow> jfind r' k = jfind r k)
       \<and> (\<forall>j. generation r' j = (if j = i then generation r i + 1 else generation r j))"
proof -
  note T = gens_okD [OF assms(1)]
  define r1 where "r1 = jdefault ''interface_runtime'' (JObj []) r"
  define ir1 where "ir1 = jdefault (dec_int i) (JObj [(GEN, JInt 0)]) (gen_table r)"
  define rec where "rec = jget0 ir1 (dec_int i)"
  have r1: "is_obj r1" "k \<noteq> ''interface_runtime'' \<Longrightarrow> jfind r1 k = jfind r k" "jget0 r1 ''interface_runtime'' = gen_table r" for k
    using assms(2) by (auto simp: r1_def jdefault_def jhas_def gen_table_def jget_def)
  have ir1: "k \<noteq> dec_int i \<Longrightarrow> jfind ir1 k = jfind (gen_table r) k" "gen_ok rec" "gen_value rec = generation r i" for k
    using T generation_eq [OF assms, of i]
    by (auto simp: ir1_def rec_def jdefault_def jhas_def gen_ok_def gen_value_def jget_def split: option.splits)
  let ?r' = "jset ''interface_runtime'' (jset (dec_int i) (jset GEN (JInt (generation r i + 1)) rec) ir1) r1"
  have eq: "bump_interface_attach_generation i r = (Inr (generation r i + 1), ?r')"
    using T(1) ir1 gen_okD [OF ir1(2)]
    unfolding bump_interface_attach_generation_def r1_def [symmetric] Let_def r1(3) ir1_def [symmetric] rec_def [symmetric]
    by simp
  have ok: "gens_ok ?r'" using T(2) ir1 by (auto simp: gens_ok_def gen_ok_def split: option.splits if_splits)
  have "generation ?r' j = (if j = i then generation r i + 1 else generation r j)" for j
    using generation_eq [OF ok, of j] generation_eq [OF assms, of j] ir1(1) [of "dec_int j"]
    by (auto simp: gen_table_def gen_value_def split: option.splits)
  then show ?thesis using eq r1 ok by (intro exI [of _ ?r']) auto
qed


lemma find_index_None: "find (\<lambda>e. index_of e = i) es = None \<longleftrightarrow> i \<notin> index_of ` set es"
  by (auto simp: find_None_iff)

lemma index_of_entry: "entry_ok e \<Longrightarrow> int_field ''interface_index'' e = Some i \<longleftrightarrow> index_of e = i"
  by (auto simp: entry_ok_def index_of_def)

lemma entries_strict:
  "record_ok lab n r \<Longrightarrow> k \<in> {''interface_attachments'', ''veth_host_ends'', ''tap_names''} \<Longrightarrow>
     entries_of k r = Inr (the (list_field k r))"
  by (auto simp: record_ok_def entries_of_ok split: option.splits)

lemma record_ok_cong:
  assumes "record_ok lab n r" and "is_obj r'" and "\<And>k. k \<noteq> ''interface_runtime'' \<Longrightarrow> jfind r' k = jfind r k" and "gens_ok r'"
  shows "record_ok lab n r'" and "attachments r' = attachments r"
  using assms by (auto simp: record_ok_def attachments_def list_field_def)

lemma record_ok_names:
  "record_ok lab n r \<Longrightarrow> field = ''veth_host_ends'' \<or> field = ''tap_names'' \<Longrightarrow> record_ok lab n (jset field (JList ns) r)"
  by (auto simp: record_ok_def)

lemma attachments_names [simp]:
  "field = ''veth_host_ends'' \<or> field = ''tap_names'' \<Longrightarrow> attachments (jset field v r) = attachments r"
  by (auto simp: attachments_def)

lemma record_ok_entries:
  assumes "record_ok lab n r" and "\<forall>e\<in>set es. entry_ok e" and "distinct (map index_of es)"
  shows "record_ok lab n (jset ''interface_attachments'' (JList es) r)"
    and "attachments (jset ''interface_attachments'' (JList es) r) = es"
  using assms by (auto simp: record_ok_def attachments_def)

lemma generation_names [simp]:
  "record_ok lab n r \<Longrightarrow> k \<noteq> ''interface_runtime'' \<Longrightarrow> generation (jset k v r) = generation r"
  by (rule ext) (simp add: record_ok_def)

lemma add_attachment_ok:
  assumes "record_ok lab n r" and "entry_ok e" and "find (\<lambda>x. index_of x = index_of e) (attachments r) = None"
    and "field = ''veth_host_ends'' \<or> field = ''tap_names''"
  shows "\<exists>r'. add_attachment e field name r = (Inr (), r') \<and> record_ok lab n r'
       \<and> attachments r' = attachments r @ [e] \<and> generation r' = generation r"
proof -
  note D = record_okD [OF assms(1)]
  let ?r1 = "jset ''interface_attachments'' (JList (attachments r @ [e])) r"
  have 1: "record_ok lab n ?r1" "attachments ?r1 = attachments r @ [e]"
    using record_ok_entries [OF assms(1), of "attachments r @ [e]"] assms(2,3) D(5,6)
    by (auto simp: find_index_None)
  obtain ns where ns: "entries_of field ?r1 = Inr ns"
    using entries_strict [OF 1(1), of field] assms(4) by auto
  then show ?thesis
    using assms(1,4) D(1,4) 1 record_ok_names [OF 1(1) assms(4)]
    by (auto simp: add_attachment_def entries_of_ok Let_def)
qed

lemma drop_name_ok:
  assumes "record_ok lab n r" and "field = ''veth_host_ends'' \<or> field = ''tap_names''"
  shows "\<exists>r'. drop_name field name r = (Inr (), r') \<and> record_ok lab n r' \<and> attachments r' = attachments r \<and> generation r' = generation r"
proof -
  obtain ns where "entries_of field r = Inr ns" using entries_strict [OF assms(1), of field] assms(2) by auto
  then show ?thesis using assms record_ok_names [OF assms] by (auto simp: drop_name_def)
qed

section \<open>The record of a node\<close>

definition node_record :: "string \<Rightarrow> int \<Rightarrow> node_state \<Rightarrow> json option" where
  \<comment> \<open>what \<open>_runtime_record\<close> finds, dead or alive\<close>
  "node_record lab n st =
     (case registered lab n st of
        Some r \<Rightarrow> Some r
      | None \<Rightarrow> (case obj_get (ns_files st) (state_file lab (dec_int n)) of
          Some (Some r) \<Rightarrow> if truthy r then Some r else None | _ \<Rightarrow> None))"

definition node_ok :: "string \<Rightarrow> int \<Rightarrow> node_state \<Rightarrow> bool" where
  "node_ok lab n st \<longleftrightarrow>
     (case obj_get (ns_registry st) (runtime_key lab n) of None \<Rightarrow> True | Some r \<Rightarrow> record_ok lab n r) \<and>
     (case obj_get (ns_files st) (state_file lab (dec_int n)) of
        None \<Rightarrow> True | Some None \<Rightarrow> False | Some (Some r) \<Rightarrow> record_ok lab n r)"

definition node_nics :: "string \<Rightarrow> int \<Rightarrow> node_state \<Rightarrow> nics option" where
  "node_nics lab n st = map_option nics_of (node_record lab n st)"

lemma record_truthy: "record_ok lab n r \<Longrightarrow> truthy r"
  by (cases r) (auto simp: record_ok_def)

lemma node_record_ok: "node_ok lab n st \<Longrightarrow> node_record lab n st = Some r \<Longrightarrow> record_ok lab n r"
  by (auto simp: node_record_def node_ok_def registered_def split: option.splits if_splits)

lemma registered_ok:
  "node_ok lab n st \<Longrightarrow> registered lab n st = obj_get (ns_registry st) (runtime_key lab n)"
  by (auto simp: registered_def node_ok_def record_truthy split: option.splits)

section \<open>Attachments as updates of the interface table\<close>

definition nic_attached :: "int \<Rightarrow> int \<Rightarrow> nics \<Rightarrow> nics" where
  \<comment> \<open>interface \<open>i\<close> gets network \<open>w\<close> and the next generation\<close>
  "nic_attached i w t = Nics ((nic_net t)(i := Some w)) ((nic_gen t)(i := nic_gen t i + 1))"

definition nic_detached :: "int \<Rightarrow> int \<Rightarrow> nics \<Rightarrow> nics" where
  \<comment> \<open>interface \<open>i\<close> has no network; the generation moves by \<open>d\<close>\<close>
  "nic_detached i d t = Nics ((nic_net t)(i := None)) ((nic_gen t)(i := nic_gen t i + d))"

definition with_record :: "string \<Rightarrow> int \<Rightarrow> json \<Rightarrow> node_state \<Rightarrow> node_state" where
  "with_record lab n r st = st\<lparr>ns_registry := obj_set (runtime_key lab n) r (ns_registry st)\<rparr>"

lemma with_record_simps [simp]:
  "ns_files (with_record lab n r st) = ns_files st" "ns_mutexes (with_record lab n r st) = ns_mutexes st"
  "ns_node_locks (with_record lab n r st) = ns_node_locks st"
  "ns_labs (with_record lab n r st) = ns_labs st" "ns_qmp (with_record lab n r st) = ns_qmp st"
  "obj_get (ns_registry (with_record lab n r st)) (runtime_key lab n) = Some r"
  by (simp_all add: with_record_def)

lemma rt_edit_ok:
  "obj_get (ns_registry st) (runtime_key lab n) = Some r \<Longrightarrow> f r = (v, r') \<Longrightarrow>
     rt_edit lab n f (st, tr) = rt_py v (with_record lab n r' st, tr)"
  by (simp add: rt_edit_def with_record_def)

lemma with_record_twice [simp]: "with_record lab n r (with_record lab n r' st) = with_record lab n r st"
  by (simp add: with_record_def)

lemma persist_ok:
  assumes "record_ok lab n r"
  shows "persist_runtime ev r (st, tr) =
    (if nv_write_ok ev tr (state_file lab (dec_int n))
     then (Inr (), st\<lparr>ns_files := obj_set (state_file lab (dec_int n)) (Some r) (ns_files st)\<rparr>, tr)
     else (Inl (RtHost OSError), st, tr))"
  using record_okD(2,3) [OF assms] by (simp add: persist_runtime_def Let_def rt_modify_def rt_raise_def)

definition registers :: "string \<Rightarrow> int \<Rightarrow> node_state \<Rightarrow> json \<Rightarrow> node_state \<Rightarrow> bool" where
  \<comment> \<open>the second state is the first with a new record, in the registry and perhaps in the file\<close>
  "registers lab n st r st' \<longleftrightarrow>
     record_ok lab n r \<and>
     (st' = with_record lab n r st \<or>
      st' = (with_record lab n r st)\<lparr>ns_files := obj_set (state_file lab (dec_int n)) (Some r) (ns_files st)\<rparr>)"

lemma registers_record:
  assumes "registers lab n st r st'"
  shows "node_record lab n st' = Some r" and "node_ok lab n st \<Longrightarrow> node_ok lab n st'"
  using assms by (auto simp: registers_def node_record_def registered_def record_truthy node_ok_def)

lemma nics_of_added:
  assumes "attachments r' = attachments r @ [e]" and "generation r' = (generation r)(i := generation r i + 1)"
    and "int_field ''interface_index'' e = Some i" and "int_field ''network_id'' e = Some w"
    and "find (\<lambda>x. index_of x = i) (attachments r) = None"
  shows "nics_of r' = nic_attached i w (nics_of r)"
proof -
  have "find (\<lambda>x. index_of x = j) (attachments r') =
      (if j = i then Some e else find (\<lambda>x. index_of x = j) (attachments r))" for j
    using assms by (auto simp: find_app index_of_def split: option.splits)
  then show ?thesis using assms(2,4) by (auto simp: nics_of_def nic_attached_def)
qed

lemma commit_attachment_ok:
  assumes "record_ok lab n r" and "obj_get (ns_registry st) (runtime_key lab n) = Some r"
    and "find (\<lambda>x. index_of x = i) (attachments r) = None"
    and "\<And>g. entry_ok (entry g)" "\<And>g. int_field ''interface_index'' (entry g) = Some i"
    and "\<And>g. int_field ''network_id'' (entry g) = Some w"
    and "field = ''veth_host_ends'' \<or> field = ''tap_names''"
    and run: "commit_attachment ev lab n i entry field name (st, tr) = (v, st', tr')"
  shows "\<exists>r'. registers lab n st r' st' \<and> nics_of r' = nic_attached i w (nics_of r) \<and> tr' = tr
       \<and> (v = Inr (entry (generation r i + 1)) \<and> obj_get (ns_files st') (state_file lab (dec_int n)) = Some (Some r')
          \<or> v = Inl (RtHost OSError))"
proof -
  note D = record_okD [OF assms(1)]
  let ?g = "generation r i + 1"
  obtain r1 where b: "bump_interface_attach_generation i r = (Inr ?g, r1)" "gens_ok r1" "is_obj r1"
      "\<And>k. k \<noteq> ''interface_runtime'' \<Longrightarrow> jfind r1 k = jfind r k"
      "\<And>j. generation r1 j = (if j = i then ?g else generation r j)"
    using bump_ok [OF D(7,1), of i] by blast
  note r1 = record_ok_cong [OF assms(1) b(3,4,2)]
  have idx: "index_of (entry ?g) = i" using assms(5) by (simp add: index_of_def)
  obtain r2 where a: "add_attachment (entry ?g) field name r1 = (Inr (), r2)" "record_ok lab n r2"
      "attachments r2 = attachments r1 @ [entry ?g]" "generation r2 = generation r1"
    using add_attachment_ok [OF r1(1) assms(4) [of ?g] _ assms(7)] assms(3) idx r1(2) by auto
  have "generation r2 = (generation r)(i := ?g)" using a(4) b(5) by (auto simp: fun_eq_iff)
  then have n: "nics_of r2 = nic_attached i w (nics_of r)"
    using nics_of_added [of r2 r "entry ?g" i w] a(3) r1(2) assms(3,5,6) by simp
  show ?thesis
    using run a(1,2) n
    by (intro exI [of _ r2])
      (auto simp: commit_attachment_def rt_bind_def rt_edit_ok [where r=r and f="bump_interface_attach_generation i", OF assms(2) b(1)] rt_edit_ok [where r=r1]
        rt_py_def rt_ret_def rt_current_def rt_read_def persist_ok registers_def split: if_splits)
qed

section \<open>Looking up a record\<close>

lemma with_record_same: "obj_get (ns_registry st) (runtime_key lab n) = Some r \<Longrightarrow> with_record lab n r st = st"
  by (simp add: with_record_def obj_set_same)

definition loaded :: "string \<Rightarrow> int \<Rightarrow> node_state \<Rightarrow> node_state" where
  "loaded lab n st = (case node_record lab n st of None \<Rightarrow> st | Some r \<Rightarrow> with_record lab n r st)"

lemma load_record_ok:
  assumes "node_ok lab n st"
  shows "load_record lab n (st, tr) = (Inr (node_record lab n st), loaded lab n st, tr)"
proof (cases "obj_get (ns_registry st) (runtime_key lab n)")
  case (Some r)
  then show ?thesis using registered_ok [OF assms]
    by (simp add: load_record_def node_record_def rt_ret_def loaded_def with_record_same)
next
  case None
  then show ?thesis using assms registered_ok [OF assms]
    by (auto simp: load_record_def node_record_def loaded_def rt_defs rt_modify_def with_record_def node_ok_def record_truthy split: option.splits)
qed

lemma node_record_loaded:
  assumes "node_ok lab n st"
  shows "node_record lab n (loaded lab n st) = node_record lab n st" "node_ok lab n (loaded lab n st)"
proof -
  have "node_record lab n st = Some r \<Longrightarrow> registers lab n st r (with_record lab n r st)" for r
    using node_record_ok [OF assms] by (simp add: registers_def)
  then show "node_record lab n (loaded lab n st) = node_record lab n st" "node_ok lab n (loaded lab n st)"
    using registers_record [of lab n st] assms by (auto simp: loaded_def split: option.splits)
qed

lemma alive_keeps [rt_rules]: "rt_keeps id (is_runtime_alive ev r)"
  by (auto simp: rt_keeps_def is_runtime_alive_def is_docker_running_def Let_def rt_defs split: sum.splits prod.splits json.splits)

lemma alive_silent: "is_runtime_alive ev r (st, tr) = (v, st', tr') \<Longrightarrow> st' = st \<and> tr' = tr"
  by (auto simp: is_runtime_alive_def is_docker_running_def Let_def rt_defs split: sum.splits prod.splits json.splits if_splits)

lemma deleted_record:
  "node_record lab n (fst (snd (delete_runtime lab n (st, tr)))) = None"
  "node_ok lab n (fst (snd (delete_runtime lab n (st, tr))))"
  by (simp_all add: delete_runtime_def rt_modify_def node_record_def registered_def node_ok_def)

lemma runtime_record_stopped:
  "node_ok lab n st \<Longrightarrow> runtime_record ev lab n True (st, tr) = (Inr (node_record lab n st), loaded lab n st, tr)"
  by (simp add: runtime_record_def rt_bind_def load_record_ok rt_ret_def split: option.splits)

lemma runtime_record_cases:
  assumes "node_ok lab n st" and "runtime_record ev lab n False (st, tr) = (v, st', tr')"
  obtains (none) "v = Inr None" "node_record lab n st' = None" "node_ok lab n st'" "tr' = tr"
    | (refused) e where "v = Inl e" "st' = loaded lab n st" "tr' = tr"
    | (alive) r where "v = Inr (Some r)" "node_record lab n st = Some r" "st' = loaded lab n st" "tr' = tr"
proof (cases "node_record lab n st")
  case None
  then show thesis using assms none node_record_loaded [OF assms(1)]
    by (simp add: runtime_record_def rt_bind_def load_record_ok rt_ret_def)
next
  case (Some r)
  obtain a st1 tr1 where al: "is_runtime_alive ev r (loaded lab n st, tr) = (a, st1, tr1)"
    by (cases "is_runtime_alive ev r (loaded lab n st, tr)") auto
  then have st1: "st1 = loaded lab n st" "tr1 = tr" using alive_silent by blast+
  show thesis
  proof (cases a)
    case (Inl e)
    then show thesis using assms(2) al st1 Some
      by (intro refused) (auto simp: runtime_record_def rt_bind_def load_record_ok [OF assms(1)])
  next
    case (Inr b)
    show thesis
    proof (cases b)
      case True
      then show thesis using assms(2) al st1 Some Inr
        by (intro alive [of r]) (auto simp: runtime_record_def rt_bind_def load_record_ok [OF assms(1)] rt_ret_def)
    next
      case False
      then have "v = Inr None" "st' = fst (snd (delete_runtime lab n (loaded lab n st, tr)))" "tr' = tr"
        using assms(2) al st1 Some Inr
        by (auto simp: runtime_record_def rt_bind_def load_record_ok [OF assms(1)] rt_ret_def delete_runtime_def rt_modify_def)
      then show thesis using none deleted_record by auto
    qed
  qed
qed


lemma node_record_locks [simp]:
  "node_record lab n (st\<lparr>ns_mutexes := m\<rparr>) = node_record lab n st" "node_ok lab n (st\<lparr>ns_mutexes := m\<rparr>) = node_ok lab n st"
  "node_record lab n (st\<lparr>ns_node_locks := l\<rparr>) = node_record lab n st" "node_ok lab n (st\<lparr>ns_node_locks := l\<rparr>) = node_ok lab n st"
  "node_record lab n (st\<lparr>ns_qmp := q\<rparr>) = node_record lab n st" "node_ok lab n (st\<lparr>ns_qmp := q\<rparr>) = node_ok lab n st"
  by (simp_all add: node_record_def node_ok_def registered_def cong: option.case_cong)

lemma node_nics_locks [simp]:
  "node_nics lab n (st\<lparr>ns_mutexes := m\<rparr>) = node_nics lab n st" "node_nics lab n (st\<lparr>ns_node_locks := l\<rparr>) = node_nics lab n st"
  "node_nics lab n (st\<lparr>ns_qmp := q\<rparr>) = node_nics lab n st"
  by (simp_all add: node_nics_def)

lemma loaded_gets:
  "node_record lab n st = Some r \<Longrightarrow> obj_get (ns_registry (loaded lab n st)) (runtime_key lab n) = Some r"
  by (simp add: loaded_def)

lemma nic_net_find: "nic_net (nics_of r) i = map_option (\<lambda>e. the (int_field ''network_id'' e)) (find (\<lambda>e. index_of e = i) (attachments r))"
  and nic_gen_generation: "nic_gen (nics_of r) i = generation r i"
  by (simp_all add: nics_of_def)

end
