(* ===== verification/Node_Docker.thy ===== *)
theory Node_Docker
  imports Node_Nics
begin

text \<open>
  Interfaces of running containers (\<open>node_runtime_service.py\<close>): the driver of a network looked up
  in the lab files, the six host steps of an attachment, hot attach and hot detach with their
  generation tokens, and the public entry points that take the interface mutex.
\<close>

section \<open>Lab files\<close>

fun find_lab_doc :: "disk \<Rightarrow> string list \<Rightarrow> string \<Rightarrow> py_exc + json option" where
  \<comment> \<open>the first readable file whose document has the id\<close>
  "find_lab_doc d [] lab = Inr None"
| "find_lab_doc d (p # ps) lab =
     (case read_lab d p of
        Inl e \<Rightarrow> find_lab_doc d ps lab
      | Inr data \<Rightarrow>
          bindr (pget data ''id'' JNull) (\<lambda>v.
            if py_str (jor v (JStr [])) = lab then Inr (Some data) else find_lab_doc d ps lab))"

definition recorded_driver :: "json \<Rightarrow> int \<Rightarrow> py_exc + string option" where
  "recorded_driver data w =
     bindr (pget data ''networks'' JNull) (\<lambda>ns.
     bindr (pget (jor ns (JObj [])) (dec_int w) JNull) (\<lambda>record.
       if \<not> is_obj record then Inr None
       else bindr (pget (jor (jget0 record ''runtime'') (JObj [])) ''driver'' JNull) (\<lambda>v.
         Inr (case v of JStr s \<Rightarrow> if s = [] then None else Some s | _ \<Rightarrow> None))))"

definition resolve_runtime_driver :: "node_env \<Rightarrow> string \<Rightarrow> int \<Rightarrow> string option node" where
  "resolve_runtime_driver ev lab w =
     rt_bind (rt_read (\<lambda>st. find_lab_doc (ns_labs st) (nv_rglob ev) lab)) (\<lambda>r. rt_py (bindr r (\<lambda>doc.
       case doc of None \<Rightarrow> Inr None | Some data \<Rightarrow> recorded_driver data w)))"

section \<open>Attaching\<close>

definition docker_wire :: "host_env \<Rightarrow> int \<Rightarrow> int \<Rightarrow> string \<Rightarrow> string option \<Rightarrow> string \<Rightarrow> string \<Rightarrow> unit host" where
  \<comment> \<open>the six steps, from the veth pair to the raised interface in the container\<close>
  "docker_wire h pid i bridge driver host_end peer_end =
     (let eth = ''eth'' @ dec_int i in
      andthen (veth_pair_add h host_end peer_end) (\<lambda>_.
      andthen (link_master_any h host_end bridge driver) (\<lambda>_.
      andthen (link_up h host_end) (\<lambda>_.
      andthen (link_netns h peer_end pid) (\<lambda>_.
      andthen (link_set_name_in_netns h pid peer_end eth) (\<lambda>_.
        addr_up_in_netns h pid eth))))))"

definition attach_docker_interface_initial ::
    "host_env \<Rightarrow> string \<Rightarrow> int \<Rightarrow> int \<Rightarrow> int \<Rightarrow> string \<Rightarrow> string option \<Rightarrow> string list \<Rightarrow> ('r, rt_error option \<times> string list) rt" where
  \<comment> \<open>the host end is noted before it is created; an error comes with the noted names\<close>
  "attach_docker_interface_initial h lab n pid i bridge driver provisioned =
     (case bindr (veth_host_name (cfg h) lab n i) (\<lambda>a. bindr (veth_peer_name (cfg h) lab n i) (\<lambda>b. Inr (a, b))) of
        Inl e \<Rightarrow> rt_ret (Some (RtHost e), provisioned)
      | Inr (host_end, peer_end) \<Rightarrow>
          rt_bind (rt_try (rt_bind (rt_host (docker_wire h pid i bridge driver host_end peer_end)) (\<lambda>_. rt_ret None))
                     (\<lambda>e. rt_ret (Some e))) (\<lambda>e.
            rt_ret (e, provisioned @ [host_end])))"

definition docker_attachment :: "int \<Rightarrow> int \<Rightarrow> string \<Rightarrow> string \<Rightarrow> int \<Rightarrow> json" where
  "docker_attachment i w bridge host_end g =
     JObj [(''interface_index'', JInt i), (''network_id'', JInt w), (''bridge_name'', JStr bridge),
           (''host_end'', JStr host_end), (''attach_generation'', JInt g)]"

definition resolve_bridge :: "host_env \<Rightarrow> string \<Rightarrow> int \<Rightarrow> string \<Rightarrow> ('r, string) rt" where
  \<comment> \<open>\<open>bridge_name or host_net.bridge_name(...)\<close>, which must exist on the host\<close>
  "resolve_bridge h lab w bridge =
     rt_bind (if bridge \<noteq> [] then rt_ret bridge else rt_lift (bridge_name (cfg h) lab w)) (\<lambda>b.
     rt_bind (rt_host (bridge_exists h b)) (\<lambda>there.
       if there then rt_ret b else rt_raise (RtNode (''Bridge '' @ b @ '' is not present on the host''))))"

definition already_attached :: "int \<Rightarrow> int \<Rightarrow> json \<Rightarrow> (rt_error + json option)" where
  \<comment> \<open>the same network again is answered with the existing entry, another one is refused\<close>
  "already_attached i w runtime =
     (case bindr (entries_of ''interface_attachments'' runtime) (find_entry i 0) of
        Inl e \<Rightarrow> Inl (RtHost (Py e))
      | Inr None \<Rightarrow> Inr None
      | Inr (Some (k, e)) \<Rightarrow>
          (case bindr (pget e ''network_id'' (JInt (- 1))) py_int of
             Inl x \<Rightarrow> Inl (RtHost (Py x))
           | Inr m \<Rightarrow> if m = w then Inr (Some e) else Inl (RtNode ''already attached to another network'')))"

definition attach_docker_new :: "node_env \<Rightarrow> string \<Rightarrow> int \<Rightarrow> int \<Rightarrow> int \<Rightarrow> string \<Rightarrow> json \<Rightarrow> json node" where
  \<comment> \<open>from the bridge on: wire, sweep on failure, bump the generation, record, persist\<close>
  "attach_docker_new ev lab n w i bridge_arg pid =
     rt_bind (resolve_bridge (nv_host ev) lab w bridge_arg) (\<lambda>bridge.
     rt_bind (resolve_runtime_driver ev lab w) (\<lambda>driver.
     rt_bind (case py_int pid of
         Inl e \<Rightarrow> rt_ret (Some (RtHost (Py e)), [])
       | Inr p \<Rightarrow> attach_docker_interface_initial (nv_host ev) lab n p i bridge driver []) (\<lambda>(err, provisioned).
     rt_bind (case err of None \<Rightarrow> rt_ret ()
       | Some e \<Rightarrow> rt_bind (rt_each (\<lambda>x. rt_host (try_link_del (nv_host ev) x)) provisioned) (\<lambda>_. rt_raise e)) (\<lambda>_.
     rt_bind (rt_lift (veth_host_name (cfg (nv_host ev)) lab n i)) (\<lambda>host_end.
       commit_attachment ev lab n i (docker_attachment i w bridge host_end) ''veth_host_ends'' host_end)))))"

definition attach_docker_running :: "node_env \<Rightarrow> string \<Rightarrow> int \<Rightarrow> int \<Rightarrow> int \<Rightarrow> string \<Rightarrow> json \<Rightarrow> json node" where
  \<comment> \<open>the checks of the record before the attachment\<close>
  "attach_docker_running ev lab n w i bridge_arg runtime =
     (if \<not> py_eq (jget0 runtime ''kind'') (JStr ''docker'') then rt_raise (RtNode ''runtime kind is not docker'')
      else if \<not> truthy (jget0 runtime ''pid'') then rt_raise (RtNode ''no resolved container PID'')
      else case already_attached i w runtime of
          Inl e \<Rightarrow> rt_raise e
        | Inr (Some entry) \<Rightarrow> rt_ret entry
        | Inr None \<Rightarrow> attach_docker_new ev lab n w i bridge_arg (jget0 runtime ''pid''))"

definition attach_docker_interface_locked ::
    "node_env \<Rightarrow> string \<Rightarrow> int \<Rightarrow> int \<Rightarrow> int \<Rightarrow> string \<Rightarrow> json node" where
  "attach_docker_interface_locked ev lab n w i bridge_arg =
     rt_bind (assert_held lab n i) (\<lambda>_.
     rt_bind (runtime_record ev lab n False) (\<lambda>r.
       case r of
         None \<Rightarrow> rt_raise (RtNode ''not running (no runtime record)'')
       | Some runtime \<Rightarrow> attach_docker_running ev lab n w i bridge_arg runtime))"

definition attach_docker_interface :: "node_env \<Rightarrow> string \<Rightarrow> int \<Rightarrow> int \<Rightarrow> int \<Rightarrow> string \<Rightarrow> json node" where
  "attach_docker_interface ev lab n w i bridge_arg =
     with_iface_mutex ev lab n i (attach_docker_interface_locked ev lab n w i bridge_arg)"

section \<open>Detaching\<close>

datatype detach_how = Clean | AlreadyGone | Forced

datatype detach_result =
    Absent string
  | StaleNoop int int
  | Detached detach_how string int
    \<comment> \<open>the device and the interface's generation\<close>

definition drop_docker_attachment :: "nat \<Rightarrow> string \<Rightarrow> unit edit" where
  "drop_docker_attachment k host_end runtime =
     (case entries_of ''interface_attachments'' runtime of
        Inl e \<Rightarrow> (Inl e, runtime)
      | Inr xs \<Rightarrow>
          drop_name ''veth_host_ends'' host_end
            (jset ''interface_attachments'' (JList (take k xs @ drop (Suc k) xs)) runtime))"

definition named_or :: "json \<Rightarrow> host_error + string \<Rightarrow> ('r, string) rt" where
  \<comment> \<open>a recorded name, else the derived one; another value is no argument of the helper\<close>
  "named_or v derived =
     (if truthy v then (case v of JStr s \<Rightarrow> rt_ret s | _ \<Rightarrow> rt_raise (RtHost (Py PyTypeError))) else rt_lift derived)"

definition detach_docker_kernel :: "node_env \<Rightarrow> string \<Rightarrow> int \<Rightarrow> int \<Rightarrow> nat \<Rightarrow> json \<Rightarrow> int \<Rightarrow> detach_result node" where
  \<comment> \<open>a link that is already gone is as good as removed; other failures leave the record\<close>
  "detach_docker_kernel ev lab n i k target g =
     rt_bind (named_or (jget0 target ''host_end'') (veth_host_name (cfg (nv_host ev)) lab n i)) (\<lambda>host_end.
     rt_bind (rt_host (catch (link_del (nv_host ev) host_end) (\<lambda>e. if is_EINVAL e then ret () else raise e))) (\<lambda>_.
     rt_bind (rt_edit lab n (drop_docker_attachment k host_end)) (\<lambda>_.
     rt_bind (rt_current lab n) (\<lambda>runtime.
     rt_bind (persist_runtime ev runtime) (\<lambda>_. rt_ret (Detached Clean host_end g))))))"

definition when_fresh :: "json \<Rightarrow> int \<Rightarrow> int option \<Rightarrow> (int \<Rightarrow> detach_result node) \<Rightarrow> detach_result node" where
  \<comment> \<open>the expected generation against the interface's current one\<close>
  "when_fresh runtime i expected go_on =
     rt_bind (rt_py (interface_attach_generation runtime i)) (\<lambda>g.
       case expected of
         Some x \<Rightarrow> if x \<noteq> g then rt_ret (StaleNoop x g) else go_on g
       | None \<Rightarrow> go_on g)"

definition detach_docker_interface_locked ::
    "node_env \<Rightarrow> string \<Rightarrow> int \<Rightarrow> int \<Rightarrow> int option \<Rightarrow> detach_result node" where
  "detach_docker_interface_locked ev lab n i expected =
     rt_bind (assert_held lab n i) (\<lambda>_.
     rt_bind (runtime_record ev lab n True) (\<lambda>r.
       case r of
         None \<Rightarrow> rt_ret (Absent ''no runtime record'')
       | Some runtime \<Rightarrow>
           rt_bind (rt_py (bindr (entries_of ''interface_attachments'' runtime) (find_entry i 0))) (\<lambda>found.
             case found of
               None \<Rightarrow> rt_ret (Absent ''no attachment record'')
             | Some (k, target) \<Rightarrow>
                 when_fresh runtime i expected (detach_docker_kernel ev lab n i k target))))"

definition detach_docker_interface :: "node_env \<Rightarrow> string \<Rightarrow> int \<Rightarrow> int \<Rightarrow> int option \<Rightarrow> detach_result node" where
  "detach_docker_interface ev lab n i expected =
     with_iface_mutex ev lab n i (detach_docker_interface_locked ev lab n i expected)"

section \<open>Refinement\<close>

lemma already_attached_ok:
  assumes "record_ok lab n r"
  shows "already_attached i w r =
    (case find (\<lambda>e. index_of e = i) (attachments r) of
       None \<Rightarrow> Inr None
     | Some e \<Rightarrow> if nic_net (nics_of r) i = Some w then Inr (Some e) else Inl (RtNode ''already attached to another network''))"
proof (cases "find (\<lambda>e. index_of e = i) (attachments r)")
  case (Some e)
  then have "entry_ok e" using record_okD(5) [OF assms] by (auto simp: find_Some_iff)
  then obtain m where m: "is_obj e" "int_field ''network_id'' e = Some m" by (auto simp: entry_ok_def)
  then have "bindr (pget e ''network_id'' (JInt (- 1))) py_int = Inr m"
    by (auto simp: int_field_def pget_def jget_def split: json.splits option.splits)
  then show ?thesis using Some m record_okD [OF assms]
    by (simp add: already_attached_def entries_of_ok find_entry_ok nic_net_find)
qed (use record_okD [OF assms] in \<open>simp add: already_attached_def entries_of_ok find_entry_ok\<close>)

lemma docker_initial_keeps [rt_rules]: "rt_keeps g (attach_docker_interface_initial h lab n p i b d prov)"
  unfolding attach_docker_interface_initial_def by (auto intro!: rt_rules split: sum.splits prod.splits)

lemma resolve_keeps [rt_rules]:
  "rt_keeps g (resolve_bridge h lab w b)" "rt_keeps g (resolve_runtime_driver ev lab w)" "rt_keeps g (assert_held lab n i)"
  unfolding resolve_bridge_def resolve_runtime_driver_def assert_held_def by (auto intro!: rt_rules)

lemma docker_entry_ok [simp]:
  "entry_ok (docker_attachment i w b h g)" "int_field ''interface_index'' (docker_attachment i w b h g) = Some i"
  "int_field ''network_id'' (docker_attachment i w b h g) = Some w"
  "int_field ''attach_generation'' (docker_attachment i w b h g) = Some g"
  by (simp_all add: docker_attachment_def entry_ok_def int_field_def jget_def)

lemma attach_docker_new_commits:
  assumes "attach_docker_new ev lab n w i b pid (st, tr) = (v, st', tr')"
  shows "(\<exists>e. v = Inl e \<and> st' = st) \<or>
    (\<exists>bridge host_end tr1. commit_attachment ev lab n i (docker_attachment i w bridge host_end) ''veth_host_ends'' host_end (st, tr1) = (v, st', tr'))"
  using assms unfolding attach_docker_new_def
  by (auto simp del: find_entry.simps intro!: rt_rules split: prod.splits sum.splits option.splits
        dest!: rt_bind_kept)

definition attach_outcome :: "string \<Rightarrow> int \<Rightarrow> int \<Rightarrow> int \<Rightarrow> node_state \<Rightarrow> rt_error + json \<Rightarrow> node_state \<Rightarrow> bool" where
  \<comment> \<open>how an attachment of interface \<open>i\<close> to network \<open>w\<close> may end\<close>
  "attach_outcome lab n i w st v st' \<longleftrightarrow>
     node_ok lab n st' \<and>
     (case v of
        Inr e \<Rightarrow> \<exists>t. node_nics lab n st = Some t \<and>
          (nic_net t i = Some w \<and> node_nics lab n st' = Some t \<or>
           nic_net t i = None \<and> node_nics lab n st' = Some (nic_attached i w t) \<and>
           int_field ''attach_generation'' e = Some (nic_gen t i + 1) \<and>
           obj_get (ns_files st') (state_file lab (dec_int n)) = Some (node_record lab n st'))
      | Inl x \<Rightarrow> node_nics lab n st' = node_nics lab n st \<or> node_nics lab n st' = None \<or>
          x = RtHost OSError \<and> (\<exists>t. node_nics lab n st = Some t \<and> nic_net t i = None \<and>
                                     node_nics lab n st' = Some (nic_attached i w t)))"

lemma attach_outcome_refused: "node_ok lab n st \<Longrightarrow> attach_outcome lab n i w st (Inl e) (loaded lab n st)"
  by (simp add: attach_outcome_def node_nics_def node_record_loaded)

lemma commit_outcome:
  assumes ok: "node_ok lab n st" and r: "node_record lab n st = Some r" and i: "nic_net (nics_of r) i = None"
    and e: "\<And>g. entry_ok (entry g)" "\<And>g. int_field ''interface_index'' (entry g) = Some i"
      "\<And>g. int_field ''network_id'' (entry g) = Some w" "\<And>g. int_field ''attach_generation'' (entry g) = Some g"
    and field: "field = ''veth_host_ends'' \<or> field = ''tap_names''"
    and run: "commit_attachment ev lab n i entry field name (loaded lab n st, tr) = (v, st', tr')"
  shows "attach_outcome lab n i w st v st'"
proof -
  have find: "find (\<lambda>x. index_of x = i) (attachments r) = None" using i by (simp add: nic_net_find)
  obtain r' where r': "registers lab n (loaded lab n st) r' st'" "nics_of r' = nic_attached i w (nics_of r)"
    and v: "v = Inr (entry (generation r i + 1)) \<and> obj_get (ns_files st') (state_file lab (dec_int n)) = Some (Some r')
      \<or> v = Inl (RtHost OSError)"
    using commit_attachment_ok [OF node_record_ok [OF ok r] loaded_gets [OF r] find e(1,2,3) field run] by blast
  note R = registers_record [OF r'(1)] node_record_loaded [OF ok]
  show ?thesis using v r'(2) R i r e(4) by (auto simp: attach_outcome_def node_nics_def nic_gen_generation)
qed

lemma attach_outcome_running:
  assumes ok: "node_ok lab n st"
    and run: "rt_bind (runtime_record ev lab n False)
       (\<lambda>r. case r of None \<Rightarrow> rt_raise e0 | Some runtime \<Rightarrow> go runtime) (st, tr) = (v, st', tr')"
    and go: "\<And>r tr. node_record lab n st = Some r \<Longrightarrow> go r (loaded lab n st, tr) = (v, st', tr') \<Longrightarrow> attach_outcome lab n i w st v st'"
  shows "attach_outcome lab n i w st v st'"
  using run
proof (cases rule: rt_bind_cases)
  case (failed e)
  from ok failed(1) show ?thesis
    by (cases rule: runtime_record_cases) (auto simp: failed(2) attach_outcome_refused [OF ok])
next
  case (went_on x s1)
  obtain st1 tr1 where s1: "s1 = (st1, tr1)" by (cases s1)
  from ok went_on(1) [unfolded s1] show ?thesis
  proof (cases rule: runtime_record_cases)
    case none
    then show ?thesis using went_on(2) by (auto simp: s1 rt_raise_def attach_outcome_def node_nics_def)
  qed (use went_on(2) go s1 in auto)
qed

lemma attach_docker_locked_outcome:
  assumes ok: "node_ok lab n st"
    and run: "attach_docker_interface_locked ev lab n w i b (st, tr) = (v, st', tr')"
  shows "attach_outcome lab n i w st v st'"
proof -
  have same: "attach_outcome lab n i w st (Inl e) st" for e using ok by (simp add: attach_outcome_def)
  have go: "attach_outcome lab n i w st v st'"
    if r: "node_record lab n st = Some r" and g: "attach_docker_running ev lab n w i b r (loaded lab n st, tr1) = (v, st', tr')" for r tr1
  proof (cases "find (\<lambda>e. index_of e = i) (attachments r)")
    case None
    then have i: "nic_net (nics_of r) i = None" by (simp add: nic_net_find)
    from g None consider e where "v = Inl e" "st' = loaded lab n st"
      | "attach_docker_new ev lab n w i b (jget0 r ''pid'') (loaded lab n st, tr1) = (v, st', tr')"
      by (auto simp: attach_docker_running_def already_attached_ok [OF node_record_ok [OF ok r]] rt_raise_def split: if_splits)
    then show ?thesis
    proof cases
      case 2
      from attach_docker_new_commits [OF 2] show ?thesis
      proof (elim disjE exE)
        fix bridge h tr2
        assume "commit_attachment ev lab n i (docker_attachment i w bridge h) ''veth_host_ends'' h (loaded lab n st, tr2) = (v, st', tr')"
        then show ?thesis by (rule commit_outcome [OF ok r i, rotated 5]) simp_all
      qed (simp add: attach_outcome_refused [OF ok])
    qed (simp add: attach_outcome_refused [OF ok])
  next
    case (Some e)
    then show ?thesis using g r attach_outcome_refused [OF ok] node_record_loaded [OF ok]
      by (auto simp: attach_docker_running_def already_attached_ok [OF node_record_ok [OF ok r]] rt_raise_def rt_ret_def
            attach_outcome_def node_nics_def split: if_splits)
  qed
  show ?thesis
  proof (rule disjE [OF rt_bind_kept [OF run [unfolded attach_docker_interface_locked_def] resolve_keeps(3)]])
    assume "\<exists>x tr1. assert_held lab n i (st, tr) = (Inr x, st, tr1) \<and>
       rt_bind (runtime_record ev lab n False) (\<lambda>r. case r of None \<Rightarrow> rt_raise (RtNode ''not running (no runtime record)'')
         | Some runtime \<Rightarrow> attach_docker_running ev lab n w i b runtime) (st, tr1) = (v, st', tr')"
    then show ?thesis by (elim exE conjE) (rule attach_outcome_running [OF ok _ go])
  qed (use same in auto)
qed

definition detach_outcome ::
    "string \<Rightarrow> int \<Rightarrow> int \<Rightarrow> int \<Rightarrow> int option \<Rightarrow> node_state \<Rightarrow> rt_error + detach_result \<Rightarrow> node_state \<Rightarrow> bool" where
  \<comment> \<open>how a detachment of interface \<open>i\<close> may end; \<open>d\<close> is what it adds to the generation\<close>
  "detach_outcome lab n i d expected st v st' \<longleftrightarrow>
     node_ok lab n st' \<and>
     (case v of
        Inr (Absent _) \<Rightarrow> node_nics lab n st' = node_nics lab n st \<and>
          (\<forall>t. node_nics lab n st = Some t \<longrightarrow> nic_net t i = None)
      | Inr (StaleNoop x g) \<Rightarrow> node_nics lab n st' = node_nics lab n st \<and> expected = Some x \<and> x \<noteq> g \<and>
          (\<exists>t. node_nics lab n st = Some t \<and> nic_net t i \<noteq> None \<and> g = nic_gen t i)
      | Inr (Detached how name g) \<Rightarrow> (\<exists>t. node_nics lab n st = Some t \<and> nic_net t i \<noteq> None \<and> g = nic_gen t i + d \<and>
          expected \<in> {None, Some (nic_gen t i)} \<and> node_nics lab n st' = Some (nic_detached i d t) \<and>
          obj_get (ns_files st') (state_file lab (dec_int n)) = Some (node_record lab n st'))
      | Inl x \<Rightarrow> node_nics lab n st' = node_nics lab n st \<or>
          x = RtHost OSError \<and> (\<exists>t. node_nics lab n st = Some t \<and> nic_net t i \<noteq> None \<and>
             expected \<in> {None, Some (nic_gen t i)} \<and> node_nics lab n st' = Some (nic_detached i d t)))"

lemma detach_outcome_failed: "node_ok lab n st \<Longrightarrow> detach_outcome lab n i d x st (Inl e) (loaded lab n st)"
  by (simp add: detach_outcome_def node_nics_def node_record_loaded)

lemma nics_of_removed:
  assumes "record_ok lab n r" and "find (\<lambda>e. index_of e = i) (attachments r) = Some e"
    and "attachments r' = take k (attachments r) @ drop (Suc k) (attachments r)"
    and "k = length (takeWhile (\<lambda>e. index_of e \<noteq> i) (attachments r))"
    and "generation r' = (generation r)(i := generation r i + d)"
  shows "nics_of r' = nic_detached i d (nics_of r)"
  using find_without(1) [OF record_okD(6) [OF assms(1)] assms(2,4)]
  by (auto simp: nics_of_def nic_detached_def assms(3,5))

lemma removed_record:
  assumes "record_ok lab n r" and "find (\<lambda>e. index_of e = i) (attachments r) = Some e"
    and "k = length (takeWhile (\<lambda>e. index_of e \<noteq> i) (attachments r))"
  defines "r' \<equiv> jset ''interface_attachments'' (JList (take k (attachments r) @ drop (Suc k) (attachments r))) r"
  shows "record_ok lab n r'" "attachments r' = take k (attachments r) @ drop (Suc k) (attachments r)" "generation r' = generation r"
proof -
  note W = find_without [OF record_okD(6) [OF assms(1)] assms(2,3)]
  show "record_ok lab n r'" "attachments r' = take k (attachments r) @ drop (Suc k) (attachments r)"
    using record_ok_entries [OF assms(1) _ W(2)] W(3) record_okD(5) [OF assms(1)] by (auto simp: r'_def)
  show "generation r' = generation r" using assms(1) by (simp add: r'_def)
qed

lemma drop_docker_ok:
  assumes "record_ok lab n r" and "find (\<lambda>e. index_of e = i) (attachments r) = Some e"
    and "k = length (takeWhile (\<lambda>e. index_of e \<noteq> i) (attachments r))"
  shows "\<exists>r'. drop_docker_attachment k h r = (Inr (), r') \<and> record_ok lab n r' \<and> nics_of r' = nic_detached i 0 (nics_of r)"
proof -
  note R = removed_record [OF assms]
  obtain r' where "drop_name ''veth_host_ends'' h (jset ''interface_attachments'' (JList (take k (attachments r) @ drop (Suc k) (attachments r))) r) = (Inr (), r')"
      "record_ok lab n r'" "attachments r' = take k (attachments r) @ drop (Suc k) (attachments r)" "generation r' = generation r"
    using drop_name_ok [OF R(1), of "''veth_host_ends''" h] R(2,3) by auto
  moreover from this have "nics_of r' = nic_detached i 0 (nics_of r)"
    by (intro nics_of_removed [OF assms(1,2) _ assms(3)]) auto
  ultimately show ?thesis using record_okD(1,4) [OF assms(1)]
    by (auto simp: drop_docker_attachment_def entries_of_ok)
qed

lemma named_or_keeps [rt_rules]: "rt_keeps g (named_or v d)"
  by (auto simp: named_or_def intro!: rt_rules split: json.splits)

lemma edit_persist_ok:
  \<comment> \<open>an update of the record that is then persisted\<close>
  assumes "record_ok lab n r'" and "obj_get (ns_registry st) (runtime_key lab n) = Some r" and "f r = (Inr x, r')"
    and run: "rt_bind (rt_edit lab n f) (\<lambda>y. rt_bind (rt_current lab n) (\<lambda>rec. rt_bind (persist_runtime ev rec) (\<lambda>_. rt_ret (k y)))) (st, tr) = (v, st', tr')"
  shows "registers lab n st r' st' \<and> (v = Inr (k x) \<and> obj_get (ns_files st') (state_file lab (dec_int n)) = Some (Some r')
      \<or> v = Inl (RtHost OSError))"
  using run
  by (auto simp: rt_bind_def rt_edit_ok [where r=r and f=f, OF assms(2,3)] rt_py_def rt_ret_def rt_current_def rt_read_def
        persist_ok [OF assms(1)] registers_def assms(1) split: if_splits)

lemma detach_kernel_outcome:
  assumes ok: "node_ok lab n st" and r: "node_record lab n st = Some r"
    and e: "find (\<lambda>e. index_of e = i) (attachments r) = Some e" "k = length (takeWhile (\<lambda>e. index_of e \<noteq> i) (attachments r))"
    and x: "expected \<in> {None, Some (generation r i)}"
    and run: "detach_docker_kernel ev lab n i k e (generation r i) (loaded lab n st, tr) = (v, st', tr')"
  shows "detach_outcome lab n i 0 expected st v st'"
proof -
  have fin: "detach_outcome lab n i 0 expected st v st'"
    if "rt_bind (rt_edit lab n (drop_docker_attachment k h)) (\<lambda>_. rt_bind (rt_current lab n) (\<lambda>runtime.
        rt_bind (persist_runtime ev runtime) (\<lambda>_. rt_ret (Detached Clean h (generation r i))))) (loaded lab n st, tr1) = (v, st', tr')" for h tr1
  proof -
    obtain r' where r': "drop_docker_attachment k h r = (Inr (), r')" "record_ok lab n r'" "nics_of r' = nic_detached i 0 (nics_of r)"
      using drop_docker_ok [OF node_record_ok [OF ok r] e] by blast
    note R = edit_persist_ok [OF r'(2) loaded_gets [OF r] r'(1) that]
    show ?thesis
      using R registers_record [OF conjunct1 [OF R]] node_record_loaded [OF ok] r r'(3) e(1) x
      by (auto simp: detach_outcome_def node_nics_def nic_net_find nic_gen_generation)
  qed
  show ?thesis
  proof (rule rt_keptE [OF run [unfolded detach_docker_kernel_def] named_or_keeps])
    fix h tr1
    assume "rt_bind (rt_host (catch (link_del (nv_host ev) h) (\<lambda>e. if is_EINVAL e then ret () else raise e)))
      (\<lambda>_. rt_bind (rt_edit lab n (drop_docker_attachment k h)) (\<lambda>_. rt_bind (rt_current lab n) (\<lambda>runtime.
        rt_bind (persist_runtime ev runtime) (\<lambda>_. rt_ret (Detached Clean h (generation r i))))))
      (loaded lab n st, tr1) = (v, st', tr')"
    then show ?thesis by (rule rt_keptE [OF _ rt_keeps_pure(6)]) (auto intro: fin detach_outcome_failed [OF ok])
  qed (simp add: detach_outcome_failed [OF ok])
qed

lemma detach_docker_locked_outcome:
  assumes ok: "node_ok lab n st"
    and run: "detach_docker_interface_locked ev lab n i expected (st, tr) = (v, st', tr')"
  shows "detach_outcome lab n i 0 expected st v st'"
proof -
  note L = node_record_loaded [OF ok]
  consider e where "v = Inl e" "st' = st" | tr1 where "rt_bind (runtime_record ev lab n True) (\<lambda>r.
       case r of
         None \<Rightarrow> rt_ret (Absent ''no runtime record'')
       | Some runtime \<Rightarrow>
           rt_bind (rt_py (bindr (entries_of ''interface_attachments'' runtime) (find_entry i 0))) (\<lambda>found.
             case found of
               None \<Rightarrow> rt_ret (Absent ''no attachment record'')
             | Some (k, target) \<Rightarrow>
                 when_fresh runtime i expected (detach_docker_kernel ev lab n i k target))) (st, tr1) = (v, st', tr')"
    using rt_bind_kept [OF run [unfolded detach_docker_interface_locked_def] resolve_keeps(3)] by auto
  then show ?thesis
  proof cases
    case 1
    then show ?thesis using ok by (simp add: detach_outcome_def)
  next
    case (2 tr1)
    show ?thesis
    proof (cases "node_record lab n st")
      case None
      then show ?thesis using 2 L
        by (auto simp: rt_bind_def runtime_record_stopped [OF ok] rt_ret_def detach_outcome_def node_nics_def loaded_def)
    next
      case (Some r)
      note rok = node_record_ok [OF ok Some]
      show ?thesis
      proof (cases "find (\<lambda>e. index_of e = i) (attachments r)")
        case None
        then show ?thesis using 2 L Some record_okD [OF rok]
          by (auto simp: rt_bind_def runtime_record_stopped [OF ok] rt_ret_def rt_py_def entries_of_ok find_entry_ok
                detach_outcome_def node_nics_def nic_net_find)
      next
        case e: (Some e)
        let ?k = "length (takeWhile (\<lambda>e. index_of e \<noteq> i) (attachments r))"
        have "when_fresh r i expected (detach_docker_kernel ev lab n i ?k e) (loaded lab n st, tr1) = (v, st', tr')"
          using 2 Some e record_okD [OF rok]
          by (simp add: rt_bind_def runtime_record_stopped [OF ok] rt_py_def rt_ret_def entries_of_ok find_entry_ok)
        then show ?thesis
          using L Some e record_okD [OF rok] detach_kernel_outcome [OF ok Some e refl, of expected ev tr1 v st' tr']
          by (auto simp: when_fresh_def gens_ok_value generation_eq [symmetric] rt_py_def rt_ret_def detach_outcome_def node_nics_def
                nic_net_find nic_gen_generation split: option.splits if_splits)
      qed
    qed
  qed
qed

section \<open>Locks\<close>

definition locks_of :: "node_state \<Rightarrow> (mutex_key, nat) mutexes \<times> (string \<times> int, nat) node_locks" where
  "locks_of st = (ns_mutexes st, ns_node_locks st)"

lemma locks_kept [rt_rules]:
  "rt_keeps locks_of (load_record lab n)" "rt_keeps locks_of (persist_runtime ev r)" "rt_keeps locks_of (delete_runtime lab n)"
  "rt_keeps locks_of (is_runtime_alive ev r)" "rt_keeps locks_of (rt_edit lab n f)" "rt_keeps locks_of (rt_current lab n)"
  "rt_keeps locks_of (qmp_client ev path cmd args)"
  by (auto simp: rt_keeps_def locks_of_def load_record_def persist_runtime_def delete_runtime_def is_runtime_alive_def
      is_docker_running_def rt_edit_def rt_current_def qmp_client_def rt_read_def rt_defs rt_modify_def Let_def
      split: option.splits sum.splits json.splits prod.splits)

lemma locks_kept_record [rt_rules]: "rt_keeps locks_of (runtime_record ev lab n inc)"
  unfolding runtime_record_def by (auto intro!: rt_rules split: option.splits)

lemma locks_kept_qmp [rt_rules]: "rt_keeps locks_of (qmp_command ev path cmd args)"
  unfolding qmp_command_def by (auto intro!: rt_rules split: sum.splits qmp_error.splits)

lemma locks_kept_commit [rt_rules]: "rt_keeps locks_of (commit_attachment ev lab n i entry field name)"
  unfolding commit_attachment_def by (auto intro!: rt_rules)

lemma locks_kept_docker_attach: "rt_keeps locks_of (attach_docker_interface_locked ev lab n w i b)"
  unfolding attach_docker_interface_locked_def attach_docker_running_def attach_docker_new_def
  by (auto intro!: rt_rules split: option.splits sum.splits prod.splits)

lemma locks_kept_docker_detach: "rt_keeps locks_of (detach_docker_interface_locked ev lab n i x)"
  unfolding detach_docker_interface_locked_def when_fresh_def detach_docker_kernel_def
  by (auto intro!: rt_rules split: option.splits sum.splits prod.splits)

definition same_locks :: "node_state \<Rightarrow> node_state \<Rightarrow> bool" where
  \<comment> \<open>the same locks are taken, by the same threads\<close>
  "same_locks st st' \<longleftrightarrow> mutex_holder (ns_mutexes st') = mutex_holder (ns_mutexes st) \<and> ns_node_locks st' = ns_node_locks st"

lemma keptD: "rt_keeps g m \<Longrightarrow> m (st, tr) = (v, st', tr') \<Longrightarrow> g st' = g st"
  unfolding rt_keeps_def by (metis fst_conv snd_conv)

lemma with_iface_mutex_cases:
  assumes "with_iface_mutex ev lab n i m (st, tr) = (v, st', tr')"
    and "\<And>l v st1 tr1. m (st\<lparr>ns_mutexes := l\<rparr>, tr) = (v, st1, tr1) \<Longrightarrow> locks_of st1 = locks_of (st\<lparr>ns_mutexes := l\<rparr>)"
  obtains (contention) "v = Inl RtContention" "st' = st" "tr' = tr"
    | (inside) locks locks' st1 where "m (st\<lparr>ns_mutexes := locks\<rparr>, tr) = (v, st1, tr')" "st' = st1\<lparr>ns_mutexes := locks'\<rparr>"
        "same_locks st st'" "mutex_is_held locks (lab, n, i)"
proof (cases "mutex_lock (nv_thread ev) (lab, n, i) (ns_mutexes st)")
  case None
  then show thesis using assms(1) contention by (simp add: with_iface_mutex_def rt_raise_def)
next
  case (Some locks)
  obtain st1 tr1 where m: "m (st\<lparr>ns_mutexes := locks\<rparr>, tr) = (v, st1, tr1)" "st' = st1\<lparr>ns_mutexes := mutex_unlock (lab, n, i) (ns_mutexes st1)\<rparr>" "tr1 = tr'"
    using assms(1) Some by (auto simp: with_iface_mutex_def split: prod.splits)
  have "locks_of st1 = locks_of (st\<lparr>ns_mutexes := locks\<rparr>)" by (rule assms(2) [OF m(1)])
  then have "same_locks st st'" "mutex_is_held locks (lab, n, i)" using mutex_lock_Some [OF Some] m(2)
    by (auto simp: same_locks_def locks_of_def is_held_holder)
  then show thesis using inside m by blast
qed

lemma outcome_locks [simp]:
  "attach_outcome lab n i w (st\<lparr>ns_mutexes := l\<rparr>) v st' = attach_outcome lab n i w st v st'"
  "attach_outcome lab n i w st v (st'\<lparr>ns_mutexes := l\<rparr>) = attach_outcome lab n i w st v st'"
  "detach_outcome lab n i d x (st\<lparr>ns_mutexes := l\<rparr>) r st' = detach_outcome lab n i d x st r st'"
  "detach_outcome lab n i d x st r (st'\<lparr>ns_mutexes := l\<rparr>) = detach_outcome lab n i d x st r st'"
  by (simp_all add: attach_outcome_def detach_outcome_def cong: sum.case_cong detach_result.case_cong)

lemma outcome_contention:
  "node_ok lab n st \<Longrightarrow> attach_outcome lab n i w st (Inl e) st" "node_ok lab n st \<Longrightarrow> detach_outcome lab n i d x st (Inl e) st"
  by (simp_all add: attach_outcome_def detach_outcome_def)

lemma same_locks_refl [simp]: "same_locks st st"
  by (simp add: same_locks_def)

lemma attach_docker_outcome:
  assumes "node_ok lab n st" and run: "attach_docker_interface ev lab n w i b (st, tr) = (v, st', tr')"
  shows "attach_outcome lab n i w st v st' \<and> same_locks st st'"
proof (cases rule: with_iface_mutex_cases [OF run [unfolded attach_docker_interface_def] keptD [OF locks_kept_docker_attach]])
  case (3 locks locks' st1)
  then show ?thesis using assms(1) attach_docker_locked_outcome [OF _ 3(1)] by simp
qed (use assms(1) in \<open>simp_all add: outcome_contention\<close>)

lemma detach_docker_outcome:
  assumes "node_ok lab n st" and run: "detach_docker_interface ev lab n i x (st, tr) = (v, st', tr')"
  shows "detach_outcome lab n i 0 x st v st' \<and> same_locks st st'"
proof (cases rule: with_iface_mutex_cases [OF run [unfolded detach_docker_interface_def] keptD [OF locks_kept_docker_detach]])
  case (3 locks locks' st1)
  then show ?thesis using assms(1) detach_docker_locked_outcome [OF _ 3(1)] by simp
qed (use assms(1) in \<open>simp_all add: outcome_contention\<close>)

end
