(* ===== verification/Node_Qemu.thy ===== *)
theory Node_Qemu
  imports Node_Docker Mac_Registry
begin

text \<open>
  Network cards of running virtual machines (\<open>node_runtime_service.py\<close>): the choice of a PCIe
  slot, hot add with its rollback, hot removal with its bounded waits, and the carrier of a card.
  Cards present at boot keep their TAP for the life of the process and are only moved between
  bridges; cards added later get a slot, a TAP and two QMP objects.

  A step that must be undone when a later one fails is written \<open>undoing m undo\<close>: the flags of the
  code's rollback are the nesting.
\<close>

definition undoing :: "('r, 'a) rt \<Rightarrow> ('r, unit) rt \<Rightarrow> ('r, 'a) rt" where
  "undoing m undo = rt_try m (\<lambda>e. rt_bind undo (\<lambda>_. rt_raise e))"

definition quietly :: "('r, 'a) rt \<Rightarrow> ('r, unit) rt" where
  \<comment> \<open>\<open>try: m except Exception: log\<close>\<close>
  "quietly m = rt_try (rt_bind m (\<lambda>_. rt_ret ())) (\<lambda>_. rt_ret ())"

section \<open>Paths, models and addresses\<close>

definition socket_of :: "json \<Rightarrow> py_exc + string" where
  \<comment> \<open>the QMP socket of a record, \<open>[]\<close> when there is none; only strings are paths\<close>
  "socket_of runtime =
     (let p = jget0 runtime ''qmp_socket''; d = jget0 runtime ''work_dir'' in
      if truthy p then (case p of JStr s \<Rightarrow> Inr s | _ \<Rightarrow> Inl PyTypeError)
      else if truthy d then (case d of JStr s \<Rightarrow> Inr (posix_path (s @ ''/qmp.sock'')) | _ \<Rightarrow> Inl PyTypeError)
      else Inr [])"

definition node_extras :: "json \<Rightarrow> json" where
  "node_extras node = (let e = jget0 node ''extras'' in if is_obj e then e else JObj [])"

definition extra_str :: "json \<Rightarrow> string \<Rightarrow> string \<Rightarrow> string" where
  "extra_str extras key dflt = (let v = jget extras key (JStr dflt) in if v = JNull then [] else strip (py_str v))"

definition hex_pad :: "nat \<Rightarrow> int \<Rightarrow> string" where
  \<comment> \<open>\<open>f"{v:0<w>x}"\<close>\<close>
  "hex_pad w v = (if v < 0 then CHR ''-'' # zpad (w - 1) (base_str 16 (nat (- v))) else zpad w (base_str 16 (nat v)))"

definition hex_part :: "string \<Rightarrow> py_exc + string" where
  "hex_part part = (case int16_of_str (lower part) of None \<Rightarrow> Inl PyValueError | Some v \<Rightarrow> Inr (hex_pad 2 v))"

fun pairs_of :: "string \<Rightarrow> string list" where
  "pairs_of (a # b # s) = [a, b] # pairs_of s"
| "pairs_of [a] = [[a]]"
| "pairs_of [] = []"

definition mac_for_index :: "json \<Rightarrow> int \<Rightarrow> py_exc + string" where
  \<comment> \<open>the first address counted up; of the digits the first twelve are used\<close>
  "mac_for_index first i =
     (if \<not> truthy first
      then Inr (''52:54:00:00:'' @ hex_pad 2 (i div 256) @ '':'' @ hex_pad 2 (i mod 256))
      else case first of
        JStr s \<Rightarrow>
          bindr (mapr hex_part (split_on (CHR '':'') s)) (\<lambda>ps.
            case int16_of_str (concat ps) of
              None \<Rightarrow> Inl PyValueError
            | Some v \<Rightarrow> Inr (join_on (CHR '':'') (pairs_of (take 12 (hex_pad 12 (v + i))))))
      | _ \<Rightarrow> Inl PyAttributeError)"

fun match_position :: "int \<Rightarrow> nat \<Rightarrow> json list \<Rightarrow> py_exc + nat option" where
  "match_position i k [] = Inr None"
| "match_position i k (v # vs) =
     (if is_obj v then bindr (py_int (jget v ''index'' (JInt (- 1)))) (\<lambda>j.
        if j = i then Inr (Some k) else match_position i (Suc k) vs)
      else match_position i (Suc k) vs)"

definition lookup_interface :: "json \<Rightarrow> int \<Rightarrow> py_exc + nat option" where
  \<comment> \<open>where \<open>_lookup_interface\<close> finds the interface: by position, else by its \<open>index\<close>\<close>
  "lookup_interface node i =
     (case (if is_obj node then jget0 node ''interfaces'' else JNull) of
        JList vs \<Rightarrow>
          if 0 \<le> i \<and> nat i < length vs \<and> is_obj (vs ! nat i) then Inr (Some (nat i)) else match_position i 0 vs
      | _ \<Rightarrow> Inr None)"

definition node_in :: "json \<Rightarrow> int \<Rightarrow> py_exc + json" where
  \<comment> \<open>\<open>data.get("nodes", {}).get(str(node_id))\<close>\<close>
  "node_in data n = bindr (pget data ''nodes'' (JObj [])) (\<lambda>ns. pget ns (dec_int n) JNull)"

definition resolve_qemu_nic_model :: "node_env \<Rightarrow> string \<Rightarrow> int \<Rightarrow> string node" where
  "resolve_qemu_nic_model ev lab n =
     rt_bind (rt_read (\<lambda>st. find_lab_doc (ns_labs st) (nv_glob ev) lab)) (\<lambda>r. rt_py (bindr r (\<lambda>doc.
       case doc of None \<Rightarrow> Inr ''e1000''
       | Some data \<Rightarrow> bindr (node_in data n) (\<lambda>node.
           if \<not> is_obj node then Inr ''e1000''
           else (let s = extra_str (node_extras node) ''qemu_nic'' [] in Inr (if s = [] then ''e1000'' else s))))))"

definition planned_mac_of :: "json \<Rightarrow> int \<Rightarrow> py_exc + string" where
  "planned_mac_of node i =
     bindr (lookup_interface node i) (\<lambda>pos.
       let iface = (case pos of None \<Rightarrow> JNull | Some k \<Rightarrow> list_of (jget0 node ''interfaces'') ! k);
           planned = (if is_obj iface then jget0 iface ''planned_mac'' else JNull)
       in if truthy iface \<and> truthy planned then Inr (py_str planned)
          else mac_for_index (jor (jget0 node ''firstmac'') (jget0 (node_extras node) ''firstmac'')) i)"

definition resolve_qemu_planned_mac :: "node_env \<Rightarrow> string \<Rightarrow> int \<Rightarrow> int \<Rightarrow> string node" where
  "resolve_qemu_planned_mac ev lab n i =
     rt_bind (rt_read (\<lambda>st. find_lab_doc (ns_labs st) (nv_glob ev) lab)) (\<lambda>r. rt_py (bindr r (\<lambda>doc.
       case doc of None \<Rightarrow> Inr []
       | Some data \<Rightarrow> bindr (node_in data n) (\<lambda>node.
           if \<not> is_obj node then Inr [] else planned_mac_of node i))))"

fun find_lab_path :: "disk \<Rightarrow> string list \<Rightarrow> string \<Rightarrow> py_exc + string option" where
  "find_lab_path d [] lab = Inr None"
| "find_lab_path d (p # ps) lab =
     (case read_lab d p of
        Inl e \<Rightarrow> find_lab_path d ps lab
      | Inr data \<Rightarrow>
          bindr (pget data ''id'' JNull) (\<lambda>v.
            if py_str (jor v (JStr [])) = lab then Inr (Some p) else find_lab_path d ps lab))"

definition put_planned_mac :: "disk \<Rightarrow> string \<Rightarrow> int \<Rightarrow> int \<Rightarrow> string \<Rightarrow> py_exc + disk" where
  \<comment> \<open>an address that is there is kept\<close>
  "put_planned_mac d path n i mac =
     bindr (read_lab d path) (\<lambda>data.
     bindr (node_in data n) (\<lambda>node.
       if \<not> is_obj node then Inr d
       else bindr (lookup_interface node i) (\<lambda>pos.
         case pos of None \<Rightarrow> Inr d
         | Some k \<Rightarrow>
             (let vs = list_of (jget0 node ''interfaces''); iface = vs ! k in
              if truthy (jget0 iface ''planned_mac'') then Inr d
              else (let node' = jset ''interfaces'' (JList (vs[k := jset ''planned_mac'' (JStr mac) iface])) node;
                        data' = jset ''nodes'' (jset (dec_int n) node' (jget0 data ''nodes'')) data
                    in write_lab d path (jdel ''topology'' data'))))))"

definition persist_planned_mac :: "node_env \<Rightarrow> string \<Rightarrow> int \<Rightarrow> int \<Rightarrow> string \<Rightarrow> unit node" where
  \<comment> \<open>under the lock of the lab file\<close>
  "persist_planned_mac ev lab n i mac =
     rt_bind (rt_read ns_labs) (\<lambda>d.
     rt_bind (rt_py (find_lab_path d (nv_glob ev) lab)) (\<lambda>p.
       case p of None \<Rightarrow> rt_ret ()
       | Some path \<Rightarrow> rt_bind (rt_py (put_planned_mac d path n i mac)) (\<lambda>d'. rt_modify (\<lambda>st. st\<lparr>ns_labs := d'\<rparr>))))"

section \<open>The PCI tree\<close>

lemma size_jget: "size (jget0 v k) \<le> size v"
proof (cases v)
  case (JObj kvs)
  have "obj_get kvs k = Some x \<Longrightarrow> size x \<le> size_list (size_prod (\<lambda>x. 0) size) kvs" for x
    by (induction kvs) (auto split: if_splits)
  then show ?thesis by (auto simp: JObj jget_def jfind_def split: option.splits)
qed (auto simp: jget_def jfind_def)

function (sequential) device_present :: "string \<Rightarrow> json \<Rightarrow> bool" where
  \<comment> \<open>\<open>_device_present_in_subtree\<close>\<close>
  "device_present d (JList xs) =
     list_ex (\<lambda>x. is_obj x \<and>
       (py_str (jor (jget0 x ''qdev_id'') (JStr [])) = d \<or>
        is_obj (jget0 x ''pci_bridge'') \<and> device_present d (jget0 (jget0 x ''pci_bridge'') ''devices''))) xs"
| "device_present d v = False"
  by pat_completeness auto

termination
proof (relation "measure (\<lambda>(d, v). size v)", goal_cases)
  case (2 d xs x)
  have "size (jget0 (jget0 x ''pci_bridge'') ''devices'') \<le> size x"
    using size_jget [of x "''pci_bridge''"] size_jget [of "jget0 x ''pci_bridge''" "''devices''"] by simp
  then show ?case using size_in_list [OF 2(1)] by simp
qed simp

definition qemu_device_gone :: "node_env \<Rightarrow> string \<Rightarrow> string \<Rightarrow> bool node" where
  "qemu_device_gone ev path dev =
     rt_bind (qmp_command ev path ''query-pci'' JNull) (\<lambda>response.
       if jhas response ''error'' then rt_raise (RtNode ''QMP query-pci returned error during detach poll'')
       else case jget0 response ''return'' of
         JList buses \<Rightarrow> rt_ret (\<not> list_ex (\<lambda>b. is_obj b \<and> device_present dev (jget0 b ''devices'')) buses)
       | _ \<Rightarrow> rt_ret True)"

definition root_port_in_use :: "json \<Rightarrow> int option" where
  \<comment> \<open>the number of an \<open>rp<i>\<close> device with something behind it\<close>
  "root_port_in_use dev =
     (case jget0 dev ''qdev_id'' of
        JStr q \<Rightarrow>
          (let bridge = jget0 dev ''pci_bridge'' in
           if is_obj dev \<and> starts_with ''rp'' q \<and> is_obj bridge \<and> truthy (jor (jget0 bridge ''devices'') (JList []))
           then int_of_str (drop 2 q) else None)
      | _ \<Rightarrow> None)"

definition ports_of_bus :: "json \<Rightarrow> py_exc + int list" where
  "ports_of_bus bus =
     (if \<not> is_obj bus then Inr []
      else bindr (piter (jor (jget0 bus ''devices'') (JList []))) (\<lambda>ds. Inr (List.map_filter root_port_in_use ds)))"

fun highest_free :: "int set \<Rightarrow> nat \<Rightarrow> nat option" where
  \<comment> \<open>\<open>range(max_nics - 1, -1, -1)\<close>\<close>
  "highest_free occupied 0 = None"
| "highest_free occupied (Suc k) = (if int k \<notin> occupied then Some k else highest_free occupied k)"

definition int_or_skip :: "json \<Rightarrow> int option" where
  "int_or_skip v = (case py_int v of Inr j \<Rightarrow> Some j | Inl _ \<Rightarrow> None)"

definition find_free_pcie_slot :: "node_env \<Rightarrow> string \<Rightarrow> int \<Rightarrow> json \<Rightarrow> nat option node" where
  "find_free_pcie_slot ev path max_nics reserved =
     rt_bind (qmp_client ev path ''query-pci'' JNull) (\<lambda>r.
       case r of
         Inl (QmpIO _) \<Rightarrow> rt_raise (RtHost OSError)
       | Inl QmpNotJson \<Rightarrow> rt_raise (RtHost (Py PyJSONDecodeError))
       | Inr response \<Rightarrow>
           if jhas response ''error'' then rt_raise (RtNode ''QMP query-pci returned error'')
           else case jget0 response ''return'' of
             JList buses \<Rightarrow>
               rt_bind (rt_py (mapr ports_of_bus buses)) (\<lambda>ports.
               rt_bind (rt_py (piter (jor reserved (JList [])))) (\<lambda>rs.
                 rt_ret (highest_free (set (concat ports) \<union> set (List.map_filter int_or_skip rs)) (nat max_nics))))
           | _ \<Rightarrow> rt_raise (RtNode ''QMP query-pci returned no bus data''))"

section \<open>Hot add\<close>

definition qmp_checked :: "node_env \<Rightarrow> string \<Rightarrow> string \<Rightarrow> json \<Rightarrow> unit node" where
  \<comment> \<open>an error in the reply is an error\<close>
  "qmp_checked ev path cmd args =
     rt_bind (qmp_command ev path cmd args) (\<lambda>r.
       if jhas r ''error'' then rt_raise (RtNode (''QMP '' @ cmd @ '' failed'')) else rt_ret ())"

definition is_timeout :: "rt_error \<Rightarrow> bool" where
  "is_timeout e = (case e of RtQmp _ \<Rightarrow> True | _ \<Rightarrow> False)"

definition added_by :: "unit node \<Rightarrow> unit node \<Rightarrow> unit node" where
  \<comment> \<open>after a transport error the object may be there: it is removed before the error goes on\<close>
  "added_by m undo = rt_try m (\<lambda>e. if is_timeout e then rt_bind (quietly undo) (\<lambda>_. rt_raise e) else rt_raise e)"

definition device_args :: "int \<Rightarrow> nat \<Rightarrow> string \<Rightarrow> string \<Rightarrow> json" where
  "device_args i slot model mac =
     JObj ([(''driver'', JStr model), (''id'', JStr (''dev'' @ dec_int i)), (''netdev'', JStr (''net'' @ dec_int i)),
            (''bus'', JStr (''rp'' @ dec slot))] @ (if mac = [] then [] else [(''mac'', JStr mac)]))"

definition netdev_args :: "int \<Rightarrow> string \<Rightarrow> json" where
  "netdev_args i tap =
     JObj [(''type'', JStr ''tap''), (''id'', JStr (''net'' @ dec_int i)), (''ifname'', JStr tap),
           (''script'', JStr ''no''), (''downscript'', JStr ''no'')]"

definition plug_qmp :: "node_env \<Rightarrow> string \<Rightarrow> int \<Rightarrow> nat \<Rightarrow> string \<Rightarrow> string \<Rightarrow> string \<Rightarrow> unit node" where
  \<comment> \<open>\<open>netdev_add\<close>, then \<open>device_add\<close>\<close>
  "plug_qmp ev path i slot tap model mac =
     (let drop_netdev = qmp_command ev path ''netdev_del'' (id_args (''net'' @ dec_int i));
          drop_device = qmp_command ev path ''device_del'' (id_args (''dev'' @ dec_int i))
      in rt_bind (added_by (qmp_checked ev path ''netdev_add'' (netdev_args i tap)) (rt_bind drop_netdev (\<lambda>_. rt_ret ()))) (\<lambda>_.
         undoing (added_by (qmp_checked ev path ''device_add'' (device_args i slot model mac)) (rt_bind drop_device (\<lambda>_. rt_ret ())))
           (quietly drop_netdev)))"

definition drop_tap :: "host_env \<Rightarrow> string \<Rightarrow> ('r, unit) rt" where
  "drop_tap h tap = rt_try (rt_host (tap_del h tap)) (\<lambda>_. quietly (rt_host (try_link_del h tap)))"

definition plug :: "node_env \<Rightarrow> string \<Rightarrow> int \<Rightarrow> nat \<Rightarrow> string \<Rightarrow> string \<Rightarrow> string option \<Rightarrow> string \<Rightarrow> string \<Rightarrow> unit node" where
  \<comment> \<open>TAP, bridge, netdev, device; each undone when a later one fails\<close>
  "plug ev path i slot tap bridge driver model mac =
     (let h = nv_host ev in
      rt_bind (rt_host (tap_add h tap)) (\<lambda>_.
        undoing
          (rt_bind (rt_host (link_master_any h tap bridge driver)) (\<lambda>_.
             undoing (rt_bind (rt_host (link_up h tap)) (\<lambda>_. plug_qmp ev path i slot tap model mac))
               (quietly (rt_host (link_set_nomaster h tap)))))
          (drop_tap h tap)))"

definition slots_of :: "json \<Rightarrow> py_exc + json list" where
  "slots_of runtime = entries_of ''allocated_slots'' runtime"

definition reserve_slot :: "nat \<Rightarrow> unit edit" where
  "reserve_slot slot runtime =
     (case slots_of runtime of
        Inl e \<Rightarrow> (Inl e, runtime)
      | Inr ss \<Rightarrow>
          (Inr (), jset ''allocated_slots''
             (JList (if list_ex (\<lambda>s. py_eq s (JInt (int slot))) ss then ss else ss @ [JInt (int slot)])) runtime))"

definition release_slot :: "json \<Rightarrow> unit edit" where
  \<comment> \<open>\<open>[s for s in allocated if int(s) != int(slot)]\<close>\<close>
  "release_slot slot runtime =
     (case bindr (slots_of runtime) (\<lambda>ss. bindr (mapr (\<lambda>s. bindr (py_int s) (\<lambda>j. Inr (s, j))) ss) (\<lambda>ps.
             if ps = [] then Inr [] else bindr (py_int slot) (\<lambda>k. Inr (map fst (filter (\<lambda>(s, j). j \<noteq> k) ps))))) of
        Inl e \<Rightarrow> (Inl e, runtime)
      | Inr ss \<Rightarrow> (Inr (), jset ''allocated_slots'' (JList ss) runtime))"

definition attach_boot_nic :: "node_env \<Rightarrow> string \<Rightarrow> int \<Rightarrow> string \<Rightarrow> string \<Rightarrow> string option \<Rightarrow> unit node" where
  \<comment> \<open>a TAP that is missing is made again; the carrier is raised as well as it goes\<close>
  "attach_boot_nic ev path i tap bridge driver =
     (let h = nv_host ev in
      rt_bind (rt_host (tap_exists h tap)) (\<lambda>there.
      rt_bind (if there then rt_ret () else rt_host (tap_add h tap)) (\<lambda>_.
        undoing
          (rt_bind (rt_host (link_master_any h tap bridge driver)) (\<lambda>_.
             undoing (rt_bind (rt_host (link_up h tap)) (\<lambda>_. quietly (qmp_command ev path ''set_link'' (set_link_args i True))))
               (quietly (rt_host (link_set_nomaster h tap)))))
          (if there then rt_ret () else quietly (rt_host (tap_del h tap))))))"

definition max_nics_of :: "json \<Rightarrow> py_exc + int" where
  \<comment> \<open>\<open>int(runtime.get("max_nics", 8) or 8)\<close>\<close>
  "max_nics_of runtime = py_int (jor (jget runtime ''max_nics'' (JInt 8)) (JInt 8))"

definition pick_slot :: "node_env \<Rightarrow> string \<Rightarrow> int \<Rightarrow> json \<Rightarrow> nat node" where
  \<comment> \<open>any failure of the query is a runtime error\<close>
  "pick_slot ev path max_nics runtime =
     rt_bind (rt_try (find_free_pcie_slot ev path max_nics (jget0 runtime ''allocated_slots''))
       (\<lambda>e. case e of RtNode _ \<Rightarrow> rt_raise e | RtQmp _ \<Rightarrow> rt_raise e
          | _ \<Rightarrow> rt_raise (RtNode ''QMP query-pci failed during hot-add''))) (\<lambda>slot.
       case slot of None \<Rightarrow> rt_raise (RtNode ''All hot-plug slots in use on this VM'') | Some k \<Rightarrow> rt_ret k)"

definition hot_plug ::
    "node_env \<Rightarrow> string \<Rightarrow> int \<Rightarrow> string \<Rightarrow> int \<Rightarrow> string \<Rightarrow> string \<Rightarrow> string option \<Rightarrow> string \<Rightarrow> string \<Rightarrow> json \<Rightarrow> nat node" where
  \<comment> \<open>under the node mutex, which the caller already holds: pick, reserve, plug; a failure gives the slot back\<close>
  "hot_plug ev lab n path i tap bridge driver model mac runtime =
     rt_bind (rt_py (max_nics_of runtime)) (\<lambda>m.
       with_node_mutex ev lab n
         (rt_bind (pick_slot ev path m runtime) (\<lambda>slot.
          rt_bind (rt_edit lab n (reserve_slot slot)) (\<lambda>_.
          rt_bind (undoing (plug ev path i slot tap bridge driver model mac)
                     (rt_edit lab n (release_slot (JInt (int slot))))) (\<lambda>_.
            rt_ret slot)))))"

definition qemu_attachment ::
    "int \<Rightarrow> int \<Rightarrow> string \<Rightarrow> string \<Rightarrow> nat option \<Rightarrow> string \<Rightarrow> string \<Rightarrow> int \<Rightarrow> json" where
  "qemu_attachment i w bridge tap slot model mac g =
     JObj [(''interface_index'', JInt i), (''network_id'', JInt w), (''bridge_name'', JStr bridge),
           (''tap_name'', JStr tap), (''slot'', case slot of None \<Rightarrow> JNull | Some k \<Rightarrow> JInt (int k)),
           (''boot_nic'', JBool (slot = None)), (''nic_model'', JStr model), (''attach_generation'', JInt g),
           (''planned_mac'', JStr mac)]"

definition record_card ::
    "node_env \<Rightarrow> string \<Rightarrow> int \<Rightarrow> int \<Rightarrow> int \<Rightarrow> string \<Rightarrow> string \<Rightarrow> nat option \<Rightarrow> string \<Rightarrow> string \<Rightarrow> json node" where
  \<comment> \<open>the record, then the address in the lab file as well as it goes\<close>
  "record_card ev lab n w i bridge tap slot model mac =
     rt_bind (commit_attachment ev lab n i (qemu_attachment i w bridge tap slot model mac) ''tap_names'' tap) (\<lambda>entry.
     rt_bind (if mac = [] then rt_ret () else quietly (persist_planned_mac ev lab n i mac)) (\<lambda>_.
       rt_ret entry))"

definition attach_qemu_new ::
    "node_env \<Rightarrow> string \<Rightarrow> int \<Rightarrow> int \<Rightarrow> int \<Rightarrow> string \<Rightarrow> string \<Rightarrow> string \<Rightarrow> string \<Rightarrow> json \<Rightarrow> json node" where
  "attach_qemu_new ev lab n w i bridge_arg model_arg mac_arg path runtime =
     rt_bind (resolve_bridge (nv_host ev) lab w bridge_arg) (\<lambda>bridge.
     rt_bind (resolve_runtime_driver ev lab w) (\<lambda>driver.
     rt_bind (if model_arg = [] then resolve_qemu_nic_model ev lab n else rt_ret model_arg) (\<lambda>model.
     rt_bind (if mac_arg = [] then resolve_qemu_planned_mac ev lab n i else rt_ret mac_arg) (\<lambda>mac.
     rt_bind (rt_lift (tap_name (cfg (nv_host ev)) lab n i)) (\<lambda>tap.
     rt_bind (rt_py (py_int (jor (jget0 runtime ''boot_ethernet'') (JInt 0)))) (\<lambda>boot.
     rt_bind (if i < boot
              then rt_bind (attach_boot_nic ev path i tap bridge driver) (\<lambda>_. rt_ret None)
              else rt_bind (hot_plug ev lab n path i tap bridge driver model mac runtime) (\<lambda>slot. rt_ret (Some slot))) (\<lambda>slot.
       record_card ev lab n w i bridge tap slot model mac)))))))"

definition attach_qemu_running ::
    "node_env \<Rightarrow> string \<Rightarrow> int \<Rightarrow> int \<Rightarrow> int \<Rightarrow> string \<Rightarrow> string \<Rightarrow> string \<Rightarrow> json \<Rightarrow> json node" where
  "attach_qemu_running ev lab n w i bridge_arg model_arg mac_arg runtime =
     (if \<not> py_eq (jget0 runtime ''kind'') (JStr ''qemu'') then rt_raise (RtNode ''runtime kind is not qemu'')
      else if \<not> truthy (jget runtime ''hotplug_capable'' (JBool False))
        then rt_raise (RtNode ''capabilities.hotplug is false or machine is not q35'')
      else rt_bind (rt_py (socket_of runtime)) (\<lambda>path.
        if path = [] then rt_raise (RtNode ''QMP socket path is not set'')
        else case already_attached i w runtime of
          Inl e \<Rightarrow> rt_raise e
        | Inr (Some entry) \<Rightarrow> rt_ret entry
        | Inr None \<Rightarrow> attach_qemu_new ev lab n w i bridge_arg model_arg mac_arg path runtime))"

definition attach_qemu_interface_inner ::
    "node_env \<Rightarrow> string \<Rightarrow> int \<Rightarrow> int \<Rightarrow> int \<Rightarrow> string \<Rightarrow> string \<Rightarrow> string \<Rightarrow> json node" where
  "attach_qemu_interface_inner ev lab n w i bridge_arg model_arg mac_arg =
     rt_bind (runtime_record ev lab n False) (\<lambda>r.
       case r of
         None \<Rightarrow> rt_raise (RtNode ''not running (no runtime record)'')
       | Some runtime \<Rightarrow> attach_qemu_running ev lab n w i bridge_arg model_arg mac_arg runtime)"

definition attach_qemu_interface_locked ::
    "node_env \<Rightarrow> string \<Rightarrow> int \<Rightarrow> int \<Rightarrow> int \<Rightarrow> string \<Rightarrow> string \<Rightarrow> string \<Rightarrow> json node" where
  "attach_qemu_interface_locked ev lab n w i bridge_arg model_arg mac_arg =
     rt_bind (assert_held lab n i) (\<lambda>_.
       with_node_mutex ev lab n (attach_qemu_interface_inner ev lab n w i bridge_arg model_arg mac_arg))"

definition attach_qemu_interface ::
    "node_env \<Rightarrow> string \<Rightarrow> int \<Rightarrow> int \<Rightarrow> int \<Rightarrow> string \<Rightarrow> string \<Rightarrow> string \<Rightarrow> json node" where
  "attach_qemu_interface ev lab n w i bridge_arg model_arg mac_arg =
     with_iface_mutex ev lab n i (attach_qemu_interface_locked ev lab n w i bridge_arg model_arg mac_arg)"

section \<open>Hot removal\<close>

definition error_class :: "json \<Rightarrow> string option" where
  \<comment> \<open>the class of an error object in a reply\<close>
  "error_class r =
     (let e = jget0 r ''error'' in if is_obj e then Some (py_str (jget e ''class'' (JStr []))) else None)"

fun wait_visible :: "nat \<Rightarrow> node_env \<Rightarrow> string \<Rightarrow> string \<Rightarrow> unit node" where
  \<comment> \<open>until the device shows up, at most the given number of queries\<close>
  "wait_visible 0 ev path dev = rt_ret ()"
| "wait_visible (Suc k) ev path dev =
     rt_bind (qemu_device_gone ev path dev) (\<lambda>gone. if gone then wait_visible k ev path dev else rt_ret ())"

fun wait_gone :: "nat \<Rightarrow> node_env \<Rightarrow> string \<Rightarrow> string \<Rightarrow> bool node" where
  "wait_gone 0 ev path dev = rt_ret False"
| "wait_gone (Suc k) ev path dev =
     rt_bind (qemu_device_gone ev path dev) (\<lambda>gone. if gone then rt_ret True else wait_gone k ev path dev)"

definition VISIBLE_POLLS :: nat where
  \<comment> \<open>\<open>int(2.0 / 0.1)\<close>\<close>
  "VISIBLE_POLLS = 20"

definition GONE_POLLS :: nat where
  "GONE_POLLS = 16"

definition device_del :: "node_env \<Rightarrow> string \<Rightarrow> string \<Rightarrow> bool node" where
  \<comment> \<open>whether the device turned out to be gone already\<close>
  "device_del ev path dev =
     rt_bind (qmp_command ev path ''device_del'' (id_args dev)) (\<lambda>r.
       case error_class r of
         None \<Rightarrow> rt_ret False
       | Some c \<Rightarrow>
           if c \<noteq> ''DeviceNotFound'' then rt_raise (RtNode ''QMP device_del failed'')
           else rt_bind (wait_visible VISIBLE_POLLS ev path dev) (\<lambda>_.
                rt_bind (qmp_command ev path ''device_del'' (id_args dev)) (\<lambda>r2.
                  case error_class r2 of
                    None \<Rightarrow> rt_ret False
                  | Some c2 \<Rightarrow> if c2 = ''DeviceNotFound'' then rt_ret True
                               else rt_raise (RtNode ''QMP device_del retry failed''))))"

definition netdev_error :: "json \<Rightarrow> rt_error option" where
  \<comment> \<open>an error that is not about a missing netdev, as far as its text tells\<close>
  "netdev_error r =
     (case error_class r of
        None \<Rightarrow> None
      | Some c \<Rightarrow>
          (let d = lower (py_str (jget (jget0 r ''error'') ''desc'' (JStr []))) in
           if c = ''DeviceNotFound'' \<or> contains ''no'' d \<or> contains ''not found'' d then None
           else Some (RtNode ''QMP netdev_del failed'')))"

definition unplug_host :: "node_env \<Rightarrow> string \<Rightarrow> int \<Rightarrow> string \<Rightarrow> unit node" where
  \<comment> \<open>the netdev, then the TAP; what went wrong with the netdev is raised after the TAP is gone\<close>
  "unplug_host ev path i tap =
     rt_bind (rt_try (rt_bind (qmp_command ev path ''netdev_del'' (id_args (''net'' @ dec_int i))) (\<lambda>r. rt_ret (netdev_error r)))
                (\<lambda>e. if is_timeout e then rt_ret (Some e) else rt_raise e)) (\<lambda>late.
     rt_bind (rt_host (catch (tap_del (nv_host ev) tap) (\<lambda>e. if is_EINVAL e then ret () else raise e))) (\<lambda>_.
       case late of None \<Rightarrow> rt_ret () | Some e \<Rightarrow> rt_raise e))"

definition publish_node_warning :: "string \<Rightarrow> int \<Rightarrow> int \<Rightarrow> unit node" where
  "publish_node_warning lab n i =
     rt_modify (\<lambda>st. st\<lparr>ns_warnings := ns_warnings st @ [(lab, JObj [(''node_id'', JInt n), (''interface_index'', JInt i),
       (''message'', JStr ''guest did not eject NIC; restart node to fully clean'')])]\<rparr>)"

definition unplug :: "node_env \<Rightarrow> string \<Rightarrow> int \<Rightarrow> string \<Rightarrow> int \<Rightarrow> string \<Rightarrow> detach_how node" where
  \<comment> \<open>a guest that does not eject the card leaves it; the TAP is taken off its bridge\<close>
  "unplug ev lab n path i tap =
     (let dev = ''dev'' @ dec_int i in
      rt_bind (device_del ev path dev) (\<lambda>already.
      rt_bind (if already then rt_ret True else wait_gone GONE_POLLS ev path dev) (\<lambda>gone.
        if gone then rt_bind (unplug_host ev path i tap) (\<lambda>_. rt_ret (if already then AlreadyGone else Clean))
        else rt_bind (rt_host (link_set_nomaster (nv_host ev) tap)) (\<lambda>_.
             rt_bind (quietly (publish_node_warning lab n i)) (\<lambda>_. rt_ret Forced)))))"

definition drop_first_entry :: "int \<Rightarrow> unit edit" where
  \<comment> \<open>the entry is looked up again\<close>
  "drop_first_entry i runtime =
     (case entries_of ''interface_attachments'' runtime of
        Inl e \<Rightarrow> (Inl e, runtime)
      | Inr xs \<Rightarrow>
          (case find_entry i 0 xs of
             Inl e \<Rightarrow> (Inl e, runtime)
           | Inr None \<Rightarrow> (Inr (), jset ''interface_attachments'' (JList xs) runtime)
           | Inr (Some (k, e)) \<Rightarrow> (Inr (), jset ''interface_attachments'' (JList (take k xs @ drop (Suc k) xs)) runtime)))"

definition forget_card :: "string \<Rightarrow> int \<Rightarrow> int \<Rightarrow> bool \<Rightarrow> detach_how \<Rightarrow> string \<Rightarrow> json \<Rightarrow> unit node" where
  \<comment> \<open>a TAP that stays is left to the clean-up at stop time\<close>
  "forget_card lab n i boot how tap slot =
     rt_bind (rt_edit lab n (drop_first_entry i)) (\<lambda>_.
     rt_bind (if how \<noteq> Forced \<and> \<not> boot then rt_edit lab n (drop_name ''tap_names'' tap) else rt_ret ()) (\<lambda>_.
       if slot = JNull then rt_ret () else rt_edit lab n (release_slot slot)))"

definition drop_card :: "node_env \<Rightarrow> string \<Rightarrow> int \<Rightarrow> int \<Rightarrow> bool \<Rightarrow> detach_how \<Rightarrow> string \<Rightarrow> json \<Rightarrow> detach_result node" where
  \<comment> \<open>the record without the card, with the next generation\<close>
  "drop_card ev lab n i boot how tap slot =
     rt_bind (forget_card lab n i boot how tap slot) (\<lambda>_.
     rt_bind (rt_edit lab n (bump_interface_attach_generation i)) (\<lambda>g.
     rt_bind (rt_current lab n) (\<lambda>rec.
     rt_bind (persist_runtime ev rec) (\<lambda>_. rt_ret (Detached how tap g)))))"

definition detach_qemu_found ::
    "node_env \<Rightarrow> string \<Rightarrow> int \<Rightarrow> int \<Rightarrow> json \<Rightarrow> json \<Rightarrow> detach_result node" where
  "detach_qemu_found ev lab n i runtime target =
     rt_bind (rt_py (socket_of runtime)) (\<lambda>path.
       if path = [] then rt_raise (RtNode ''QMP socket path is not set'')
       else rt_bind (named_or (jget0 target ''tap_name'') (tap_name (cfg (nv_host ev)) lab n i)) (\<lambda>tap.
         let boot = truthy (jget target ''boot_nic'' (JBool False)) in
         rt_bind (if boot
             then rt_bind (quietly (qmp_command ev path ''set_link'' (set_link_args i False))) (\<lambda>_.
                  rt_bind (rt_host (link_set_nomaster (nv_host ev) tap)) (\<lambda>_. rt_ret Clean))
             else unplug ev lab n path i tap) (\<lambda>how.
           drop_card ev lab n i boot how tap (jget0 target ''slot''))))"

definition detach_qemu_interface_inner ::
    "node_env \<Rightarrow> string \<Rightarrow> int \<Rightarrow> int \<Rightarrow> int option \<Rightarrow> detach_result node" where
  "detach_qemu_interface_inner ev lab n i expected =
     rt_bind (runtime_record ev lab n True) (\<lambda>r.
       case r of
         None \<Rightarrow> rt_ret (Absent ''no runtime record'')
       | Some runtime \<Rightarrow>
           rt_bind (rt_py (pget runtime ''kind'' JNull)) (\<lambda>kind.
             if \<not> py_eq kind (JStr ''qemu'') then rt_ret (Absent ''runtime kind is not qemu'')
             else rt_bind (rt_py (bindr (entries_of ''interface_attachments'' runtime) (find_entry i 0))) (\<lambda>found.
               case found of
                 None \<Rightarrow> rt_ret (Absent ''no attachment record'')
               | Some (k, target) \<Rightarrow>
                   when_fresh runtime i expected (\<lambda>g. detach_qemu_found ev lab n i runtime target))))"

definition detach_qemu_interface_locked ::
    "node_env \<Rightarrow> string \<Rightarrow> int \<Rightarrow> int \<Rightarrow> int option \<Rightarrow> detach_result node" where
  "detach_qemu_interface_locked ev lab n i expected =
     rt_bind (assert_held lab n i) (\<lambda>_.
       with_node_mutex ev lab n (detach_qemu_interface_inner ev lab n i expected))"

definition detach_qemu_interface :: "node_env \<Rightarrow> string \<Rightarrow> int \<Rightarrow> int \<Rightarrow> int option \<Rightarrow> detach_result node" where
  "detach_qemu_interface ev lab n i expected =
     with_iface_mutex ev lab n i (detach_qemu_interface_locked ev lab n i expected)"

section \<open>The carrier\<close>

definition set_qemu_nic_link :: "node_env \<Rightarrow> string \<Rightarrow> int \<Rightarrow> int \<Rightarrow> bool \<Rightarrow> (bool \<times> string option) node" where
  "set_qemu_nic_link ev lab n i up =
     rt_bind (runtime_record ev lab n False) (\<lambda>r.
       case r of
         None \<Rightarrow> rt_ret (False, Some ''no runtime record'')
       | Some runtime \<Rightarrow>
           if py_str (jor (jget0 runtime ''kind'') (JStr [])) \<noteq> ''qemu''
           then rt_ret (False, Some (''runtime kind='' @ py_repr (jget0 runtime ''kind'')))
           else rt_bind (rt_py (socket_of runtime)) (\<lambda>path.
             if path = [] then rt_ret (False, Some ''no qmp socket'')
             else rt_try
               (rt_bind (qmp_command ev path ''set_link'' (set_link_args i up)) (\<lambda>r.
                  if is_obj (jget0 r ''error'') then rt_ret (False, Some (''qmp error: '' @ py_repr (jget0 r ''error'')))
                  else rt_ret (True, None)))
               (\<lambda>e. case e of RtQmp m \<Rightarrow> rt_ret (False, Some (''qmp transport: '' @ m)) | _ \<Rightarrow> rt_raise e)))"

end
