(* ===== verification/Node_Cards.thy ===== *)
theory Node_Cards
  imports Node_Qemu
begin

text \<open>
  What hot add and hot removal of a card do to the interface table of its node: they refine the
  same two updates as the operations on containers do, except that a removal moves the generation.
\<close>

section \<open>Invariants of computations\<close>

definition rt_inv :: "('r \<Rightarrow> bool) \<Rightarrow> ('r, 'a) rt \<Rightarrow> bool" where
  \<comment> \<open>\<open>Q\<close> holds after the computation, failed or not, when it held before\<close>
  "rt_inv Q m \<longleftrightarrow> (\<forall>st tr. Q st \<longrightarrow> Q (fst (snd (m (st, tr)))))"

lemma rt_inv_keeps: "rt_keeps id m \<Longrightarrow> rt_inv Q m"
  by (auto simp: rt_inv_def rt_keeps_def)

lemma rt_inv_pure [rt_rules]:
  "rt_inv Q (rt_ret x)" "rt_inv Q (rt_raise e)" "rt_inv Q (rt_py p)" "rt_inv Q (rt_lift l)" "rt_inv Q (rt_read f)" "rt_inv Q (rt_host m)"
  by (auto intro!: rt_inv_keeps rt_rules)

lemma rt_invD: "rt_inv Q m \<Longrightarrow> m (st, tr) = (v, st', tr') \<Longrightarrow> Q st \<Longrightarrow> Q st'"
  unfolding rt_inv_def by (metis fst_conv snd_conv)

lemma rt_inv_bind [rt_rules]:
  assumes "rt_inv Q m" and "\<And>x. rt_inv Q (f x)"
  shows "rt_inv Q (rt_bind m f)"
  using assms unfolding rt_inv_def rt_bind_def
  by (auto split: prod.splits sum.splits) (metis fst_conv snd_conv)+

lemma rt_inv_try [rt_rules]:
  assumes "rt_inv Q m" and "\<And>e. rt_inv Q (h e)"
  shows "rt_inv Q (rt_try m h)"
  using assms unfolding rt_inv_def rt_try_def
  by (auto split: prod.splits sum.splits) (metis fst_conv snd_conv)+

lemma rt_inv_if [rt_rules]: "(b \<Longrightarrow> rt_inv Q m) \<Longrightarrow> (\<not> b \<Longrightarrow> rt_inv Q n) \<Longrightarrow> rt_inv Q (if b then m else n)"
  by simp

lemma rt_inv_undoing [rt_rules]: "rt_inv Q m \<Longrightarrow> rt_inv Q u \<Longrightarrow> rt_inv Q (undoing m u)" "rt_inv Q m \<Longrightarrow> rt_inv Q (quietly m)"
  by (auto simp: undoing_def quietly_def intro!: rt_rules)

lemma rt_inv_added [rt_rules]: "rt_inv Q m \<Longrightarrow> rt_inv Q u \<Longrightarrow> rt_inv Q (added_by m u)"
  by (auto simp: added_by_def intro!: rt_rules)

lemma rt_invE:
  assumes "rt_bind m f (st, tr) = (v, st', tr')" and "rt_inv Q m" and "Q st"
  obtains e where "v = Inl e" "Q st'" | x st1 tr1 where "m (st, tr) = (Inr x, st1, tr1)" "f x (st1, tr1) = (v, st', tr')" "Q st1"
  using assms(1)
proof (cases rule: rt_bind_cases)
  case (failed e)
  then show thesis using that(1) rt_invD [OF assms(2) _ assms(3)] by blast
next
  case (went_on x s1)
  then show thesis using that(2) rt_invD [OF assms(2) _ assms(3)] by (cases s1) blast
qed

definition rt_ends :: "('r \<Rightarrow> bool) \<Rightarrow> (rt_error + 'a \<Rightarrow> 'r \<Rightarrow> bool) \<Rightarrow> ('r, 'a) rt \<Rightarrow> bool" where
  \<comment> \<open>started in \<open>Q\<close>, the computation ends with a result and a state that satisfy \<open>R\<close>\<close>
  "rt_ends Q R m \<longleftrightarrow> (\<forall>st tr v st' tr'. Q st \<longrightarrow> m (st, tr) = (v, st', tr') \<longrightarrow> R v st')"

lemma rt_ends_bind:
  assumes "rt_inv Q m" and "\<And>e st. Q st \<Longrightarrow> R (Inl e) st" and "\<And>x. rt_ends Q R (f x)"
  shows "rt_ends Q R (rt_bind m f)"
  unfolding rt_ends_def
proof (intro allI impI)
  fix st tr v st' tr'
  assume "Q st" "rt_bind m f (st, tr) = (v, st', tr')"
  from rt_invE [OF this(2) assms(1) this(1)] show "R v st'"
    using assms(2,3) unfolding rt_ends_def by (metis (no_types, lifting))
qed

lemma rt_ends_raise: "(\<And>e st. Q st \<Longrightarrow> R (Inl e) st) \<Longrightarrow> rt_ends Q R (rt_raise x)"
  by (auto simp: rt_ends_def rt_raise_def)

lemma rt_ends_if: "rt_ends Q R m \<Longrightarrow> rt_ends Q R n \<Longrightarrow> rt_ends Q R (if b then m else n)"
  by simp

section \<open>Parts that leave the interface table alone\<close>

definition has_obs :: "(json \<Rightarrow> 'o) \<Rightarrow> string \<Rightarrow> int \<Rightarrow> 'o \<Rightarrow> (string \<times> json option) list \<Rightarrow> node_state \<Rightarrow> bool" where
  \<comment> \<open>what is observed of the registered record is as given, and so are the state files\<close>
  "has_obs obs lab n t fs st \<longleftrightarrow>
     ns_files st = fs \<and> (\<exists>r. obj_get (ns_registry st) (runtime_key lab n) = Some r \<and> record_ok lab n r \<and> obs r = t)"

abbreviation has_table :: "string \<Rightarrow> int \<Rightarrow> nics \<Rightarrow> (string \<times> json option) list \<Rightarrow> node_state \<Rightarrow> bool" where
  "has_table \<equiv> has_obs nics_of"

lemma has_table_upd [simp]:
  "has_obs obs lab n t fs (st\<lparr>ns_qmp := q\<rparr>) = has_obs obs lab n t fs st"
  "has_obs obs lab n t fs (st\<lparr>ns_node_locks := l\<rparr>) = has_obs obs lab n t fs st"
  "has_obs obs lab n t fs (st\<lparr>ns_labs := d\<rparr>) = has_obs obs lab n t fs st"
  "has_obs obs lab n t fs (st\<lparr>ns_warnings := w\<rparr>) = has_obs obs lab n t fs st"
  by (simp_all add: has_obs_def)

lemma table_qmp [rt_rules]:
  "rt_inv (has_obs obs lab n t f) (qmp_client ev path cmd args)" "rt_inv (has_obs obs lab n t f) (qmp_command ev path cmd args)"
proof -
  show c: "rt_inv (has_obs obs lab n t f) (qmp_client ev path cmd args)"
    by (simp add: rt_inv_def qmp_client_def Let_def)
  show "rt_inv (has_obs obs lab n t f) (qmp_command ev path cmd args)"
    unfolding qmp_command_def by (auto intro!: rt_rules c split: sum.splits qmp_error.splits)
qed

lemma table_checked [rt_rules]: "rt_inv (has_obs obs lab n t f) (qmp_checked ev path cmd args)"
  unfolding qmp_checked_def by (auto intro!: rt_rules)

lemma table_node_mutex [rt_rules]:
  assumes "rt_inv (has_obs obs lab n t f) m"
  shows "rt_inv (has_obs obs lab n t f) (with_node_mutex ev lab' n' m)"
  unfolding rt_inv_def
proof (intro allI impI)
  fix st tr
  assume h: "has_obs obs lab n t f st"
  show "has_obs obs lab n t f (fst (snd (with_node_mutex ev lab' n' m (st, tr))))"
  proof (cases "node_lock (nv_thread ev) (lab', n') (ns_node_locks st)")
    case (Some l)
    obtain v st1 tr1 where m: "m (st\<lparr>ns_node_locks := l\<rparr>, tr) = (v, st1, tr1)" by (cases "m (st\<lparr>ns_node_locks := l\<rparr>, tr)") auto
    then have "has_obs obs lab n t f st1" using rt_invD [OF assms m] h by simp
    then show ?thesis by (simp add: with_node_mutex_def Some m)
  qed (simp add: with_node_mutex_def rt_raise_def h)
qed

lemma slots_ok:
  assumes "record_ok lab n r"
  obtains ss where "slots_of r = Inr (map JInt ss)"
proof -
  from record_okD(10) [OF assms] obtain ss where "list_field ''allocated_slots'' r = Some (map JInt ss)" by blast
  with record_okD(1) [OF assms] show thesis using that by (simp add: slots_of_def entries_of_ok)
qed

lemma record_ok_slots:
  assumes "record_ok lab n r"
  shows "record_ok lab n (jset ''allocated_slots'' (JList (map JInt ss)) r)"
    "attachments (jset ''allocated_slots'' (JList (map JInt ss)) r) = attachments r"
    "nics_of (jset ''allocated_slots'' (JList (map JInt ss)) r) = nics_of r"
  using assms by (auto simp: record_ok_def nics_of_def attachments_def)

definition slot_edit :: "unit edit \<Rightarrow> bool" where
  \<comment> \<open>an edit that succeeds on the records of the service and only changes the slots\<close>
  "slot_edit f \<longleftrightarrow> (\<forall>lab n r. record_ok lab n r \<longrightarrow> (\<exists>ss. f r = (Inr (), jset ''allocated_slots'' (JList (map JInt ss)) r)))"

lemma slot_edit_reserve: "slot_edit (reserve_slot k)"
  unfolding slot_edit_def
proof (intro allI impI)
  fix lab n r
  assume "record_ok lab n r"
  then obtain ss where "slots_of r = Inr (map JInt ss)" by (rule slots_ok)
  moreover have "map JInt ss @ [JInt (int k)] = map JInt (ss @ [int k])" by simp
  ultimately show "\<exists>ss. reserve_slot k r = (Inr (), jset ''allocated_slots'' (JList (map JInt ss)) r)"
    by (auto simp: reserve_slot_def simp del: map_append)
qed

lemma slot_edit_release: "slot_edit (release_slot (JInt k))"
  unfolding slot_edit_def
proof (intro allI impI)
  fix lab n r
  assume "record_ok lab n r"
  then obtain ss where ss: "slots_of r = Inr (map JInt ss)" by (rule slots_ok)
  have "mapr (\<lambda>s. bindr (py_int s) (\<lambda>j. Inr (s, j))) (map JInt ss) = Inr (map (\<lambda>j. (JInt j, j)) ss)"
    by (induction ss) simp_all
  moreover have "map fst (filter (\<lambda>(s, j). j \<noteq> k) (map (\<lambda>j. (JInt j, j)) ss)) = map JInt (filter (\<lambda>j. j \<noteq> k) ss)"
    by (induction ss) auto
  ultimately have "release_slot (JInt k) r = (Inr (), jset ''allocated_slots'' (JList (map JInt (filter (\<lambda>j. j \<noteq> k) ss))) r)"
    using ss by (cases ss) (auto simp: release_slot_def)
  then show "\<exists>ss. release_slot (JInt k) r = (Inr (), jset ''allocated_slots'' (JList (map JInt ss)) r)" by blast
qed

lemma table_slots:
  assumes "slot_edit f"
  shows "rt_inv (has_table lab n t fs) (rt_edit lab n f)"
  unfolding rt_inv_def
proof (intro allI impI)
  fix st tr
  assume "has_table lab n t fs st"
  then obtain r where r: "ns_files st = fs" "obj_get (ns_registry st) (runtime_key lab n) = Some r" "record_ok lab n r" "nics_of r = t"
    by (auto simp: has_obs_def)
  from assms r(3) obtain ss where f: "f r = (Inr (), jset ''allocated_slots'' (JList (map JInt ss)) r)"
    unfolding slot_edit_def by blast
  show "has_table lab n t fs (fst (snd (rt_edit lab n f (st, tr))))"
    using rt_edit_ok [where r=r and f=f, OF r(2) f] r(1,4) record_ok_slots [OF r(3)]
    by (auto simp: has_obs_def rt_defs)
qed

lemma table_reserve [rt_rules]:
  "rt_inv (has_table lab n t f) (rt_edit lab n (reserve_slot k))" "rt_inv (has_table lab n t f) (rt_edit lab n (release_slot (JInt j)))"
  by (simp_all add: table_slots slot_edit_reserve slot_edit_release)

lemma table_plug [rt_rules]:
  "rt_inv (has_obs obs lab n t f) (drop_tap h tap)"
  "rt_inv (has_obs obs lab n t f) (plug_qmp ev path i slot tap model mac)"
  "rt_inv (has_obs obs lab n t f) (plug ev path i slot tap bridge driver model mac)"
  "rt_inv (has_obs obs lab n t f) (attach_boot_nic ev path i tap bridge driver)"
  unfolding plug_def plug_qmp_def attach_boot_nic_def drop_tap_def Let_def by (intro rt_rules; auto intro!: rt_rules)+

lemma table_hot_plug [rt_rules]:
  "rt_inv (has_table lab n t f) (hot_plug ev lab n path i tap bridge driver model mac runtime)"
  unfolding hot_plug_def pick_slot_def find_free_pcie_slot_def
  by (auto intro!: rt_rules split: option.splits rt_error.splits sum.splits qmp_error.splits json.splits)

lemma table_resolve [rt_rules]:
  "rt_inv (has_obs obs lab n t f) (resolve_bridge h lab w b)" "rt_inv (has_obs obs lab n t f) (resolve_runtime_driver ev lab w)"
  "rt_inv (has_obs obs lab n t f) (resolve_qemu_nic_model ev lab n)" "rt_inv (has_obs obs lab n t f) (resolve_qemu_planned_mac ev lab n i)"
  "rt_inv (has_obs obs lab n t f) (named_or x d)"
  unfolding resolve_qemu_nic_model_def resolve_qemu_planned_mac_def
  by (auto intro!: rt_rules rt_inv_keeps)

lemma table_gone [rt_rules]: "rt_inv (has_obs obs lab n t f) (qemu_device_gone ev path dev)"
  unfolding qemu_device_gone_def by (auto intro!: rt_rules split: json.splits)

lemma table_waits [rt_rules]:
  "rt_inv (has_obs obs lab n t f) (wait_visible k ev path dev)" "rt_inv (has_obs obs lab n t f) (wait_gone k ev path dev)"
  by (induction k) (auto intro!: rt_rules)

lemma table_unplug [rt_rules]: "rt_inv (has_obs obs lab n t f) (unplug ev lab n path i tap)"
proof -
  have w: "rt_inv (has_obs obs lab n t f) (publish_node_warning lab n i)"
    by (simp add: rt_inv_def publish_node_warning_def rt_modify_def)
  have d: "rt_inv (has_obs obs lab n t f) (device_del ev path dev)" for dev
    unfolding device_del_def by (auto intro!: rt_rules split: option.splits)
  have "rt_inv (has_obs obs lab n t f) (unplug_host ev path i tap)"
    unfolding unplug_host_def by (auto intro!: rt_rules split: option.splits)
  then show ?thesis unfolding unplug_def Let_def by (auto intro!: rt_rules w d)
qed

section \<open>Refinement\<close>

lemma has_table_loaded: "node_ok lab n st \<Longrightarrow> node_record lab n st = Some r \<Longrightarrow> has_table lab n (nics_of r) (ns_files st) (loaded lab n st)"
  using node_record_ok [of lab n st r] by (auto simp: has_obs_def loaded_def)

lemma has_table_nics:
  assumes "has_table lab n t (ns_files st) st1" and "node_ok lab n st"
  shows "node_ok lab n st1" "node_nics lab n st1 = Some t"
  using assms by (auto simp: has_obs_def node_ok_def node_nics_def node_record_def registered_def record_truthy split: option.splits)

lemma table_attach_refused:
  "has_table lab n t (ns_files st) st' \<Longrightarrow> node_ok lab n st \<Longrightarrow> node_nics lab n st = Some t \<Longrightarrow> attach_outcome lab n i w st (Inl e) st'"
  using has_table_nics [of lab n t st st'] by (simp add: attach_outcome_def)

lemma outcome_labs [simp]:
  "attach_outcome lab n i w st v (st'\<lparr>ns_labs := labs\<rparr>) = attach_outcome lab n i w st v st'"
  "attach_outcome lab n i w (st\<lparr>ns_node_locks := l\<rparr>) v st' = attach_outcome lab n i w st v st'"
  "attach_outcome lab n i w st v (st'\<lparr>ns_node_locks := l\<rparr>) = attach_outcome lab n i w st v st'"
  "detach_outcome lab n i d x (st\<lparr>ns_node_locks := l\<rparr>) r st' = detach_outcome lab n i d x st r st'"
  "detach_outcome lab n i d x st r (st'\<lparr>ns_node_locks := l\<rparr>) = detach_outcome lab n i d x st r st'"
  by (simp_all add: attach_outcome_def detach_outcome_def node_ok_def node_nics_def node_record_def registered_def
      cong: sum.case_cong detach_result.case_cong option.case_cong)

lemma commit_outcome_table:
  assumes ok: "node_ok lab n st" and t: "node_nics lab n st = Some t" "nic_net t i = None"
    and h: "has_table lab n t (ns_files st) st1"
    and e: "\<And>g. entry_ok (entry g)" "\<And>g. int_field ''interface_index'' (entry g) = Some i"
      "\<And>g. int_field ''network_id'' (entry g) = Some w" "\<And>g. int_field ''attach_generation'' (entry g) = Some g"
    and field: "field = ''veth_host_ends'' \<or> field = ''tap_names''"
    and run: "commit_attachment ev lab n i entry field name (st1, tr) = (v, st', tr')"
  shows "attach_outcome lab n i w st v st'"
proof -
  obtain r where r: "obj_get (ns_registry st1) (runtime_key lab n) = Some r" "record_ok lab n r" "nics_of r = t"
    using h by (auto simp: has_obs_def)
  have find: "find (\<lambda>x. index_of x = i) (attachments r) = None" using t(2) r(3) nic_net_find [of r i] by auto
  obtain r' where r': "registers lab n st1 r' st'" "nics_of r' = nic_attached i w (nics_of r)"
    and v: "v = Inr (entry (generation r i + 1)) \<and> obj_get (ns_files st') (state_file lab (dec_int n)) = Some (Some r')
      \<or> v = Inl (RtHost OSError)"
    using commit_attachment_ok [OF r(2,1) find e(1,2,3) field run] by blast
  show ?thesis using v r'(2) registers_record [OF r'(1)] has_table_nics [OF h ok] t r(3) e(4) nic_gen_generation [of r i]
    by (auto simp: attach_outcome_def node_nics_def)
qed

lemma qemu_entry_ok [simp]:
  "entry_ok (qemu_attachment i w b tap s m mac g)" "int_field ''interface_index'' (qemu_attachment i w b tap s m mac g) = Some i"
  "int_field ''network_id'' (qemu_attachment i w b tap s m mac g) = Some w"
  "int_field ''attach_generation'' (qemu_attachment i w b tap s m mac g) = Some g"
  by (simp_all add: qemu_attachment_def entry_ok_def int_field_def jget_def split: option.split)

lemma put_mac_outcome:
  assumes "attach_outcome lab n i w st (Inr e) st1"
    and "rt_bind (if mac = [] then rt_ret () else quietly (persist_planned_mac ev lab n i mac)) (\<lambda>_. rt_ret e) (st1, tr1) = (v, st', tr')"
  shows "attach_outcome lab n i w st v st'"
proof -
  have "v = Inr e \<and> (\<exists>d. st' = st1\<lparr>ns_labs := d\<rparr>)"
    using assms(2)
    by (auto simp: persist_planned_mac_def quietly_def rt_bind_def rt_try_def rt_ret_def rt_read_def rt_modify_def rt_py_def
        rt_raise_def split: if_splits sum.splits option.splits prod.splits) (metis node_state.surjective node_state.update_convs(6))+
  then show ?thesis using assms(1) by auto
qed

lemma record_card_outcome:
  assumes ok: "node_ok lab n st" and t: "node_nics lab n st = Some t" "nic_net t i = None"
    and h: "has_table lab n t (ns_files st) st1"
    and run: "record_card ev lab n w i bridge tap slot model mac (st1, tr) = (v, st', tr')"
  shows "attach_outcome lab n i w st v st'"
  using run [unfolded record_card_def]
proof (cases rule: rt_bind_cases)
  case (failed e)
  then show ?thesis using commit_outcome_table [OF ok t h _ _ _ _ _ failed(1)] by simp
next
  case (went_on e s1)
  obtain st3 tr3 where s1: "s1 = (st3, tr3)" by (cases s1)
  have "attach_outcome lab n i w st (Inr e) st3"
    by (rule commit_outcome_table [OF ok t h _ _ _ _ _ went_on(1) [unfolded s1]]) simp_all
  then show ?thesis using went_on(2) [unfolded s1] by (rule put_mac_outcome)
qed

lemma attach_qemu_new_outcome:
  assumes ok: "node_ok lab n st" and t: "node_nics lab n st = Some t" "nic_net t i = None"
    and h: "has_table lab n t (ns_files st) st1"
    and run: "attach_qemu_new ev lab n w i b model mac path runtime (st1, tr) = (v, st', tr')"
  shows "attach_outcome lab n i w st v st'"
  using run h unfolding attach_qemu_new_def
  by (elim rt_invE [where Q="has_table lab n t (ns_files st)"])
    (intro rt_rules | simp add: table_attach_refused [OF _ ok t(1)] | rule record_card_outcome [OF ok t])+

lemma attach_qemu_inner_outcome:
  assumes ok: "node_ok lab n st"
    and run: "attach_qemu_interface_inner ev lab n w i b model mac (st, tr) = (v, st', tr')"
  shows "attach_outcome lab n i w st v st'"
proof (rule attach_outcome_running [OF ok run [unfolded attach_qemu_interface_inner_def]])
  fix r tr1
  assume r: "node_record lab n st = Some r"
    and go: "attach_qemu_running ev lab n w i b model mac r (loaded lab n st, tr1) = (v, st', tr')"
  note known = already_attached_ok [OF node_record_ok [OF ok r], of i w]
  note h = has_table_loaded [OF ok r]
  have t: "node_nics lab n st = Some (nics_of r)" by (simp add: node_nics_def r)
  show "attach_outcome lab n i w st v st'"
  proof (cases "find (\<lambda>e. index_of e = i) (attachments r)")
    case None
    then have i: "nic_net (nics_of r) i = None" by (simp add: nic_net_find)
    have new: "attach_qemu_new ev lab n w i b model mac path r (loaded lab n st, tr2) = (v, st', tr') \<Longrightarrow> attach_outcome lab n i w st v st'" for path tr2
      by (rule attach_qemu_new_outcome [OF ok t i h])
    show ?thesis using go None new attach_outcome_refused [OF ok]
      by (auto simp: attach_qemu_running_def known rt_raise_def rt_bind_def rt_py_def rt_ret_def split: if_splits sum.splits)
  next
    case (Some e)
    then show ?thesis using go r attach_outcome_refused [OF ok] node_record_loaded [OF ok]
      by (auto simp: attach_qemu_running_def known rt_raise_def rt_bind_def rt_py_def rt_ret_def attach_outcome_def node_nics_def
          split: if_splits sum.splits)
  qed
qed

section \<open>Removal\<close>

lemma rt_bind_run: "m s = (Inr x, s1) \<Longrightarrow> rt_bind m k s = k x s1"
  by (simp add: rt_bind_def)

lemma edit_step:
  "obj_get (ns_registry st) (runtime_key lab n) = Some r \<Longrightarrow> f r = (Inr x, r') \<Longrightarrow>
     rt_bind (rt_edit lab n f) k (st, tr) = k x (with_record lab n r' st, tr)"
  by (simp add: rt_bind_def rt_edit_ok rt_py_def rt_ret_def)

lemma drop_first_ok:
  assumes "record_ok lab n r" and "find (\<lambda>e. index_of e = i) (attachments r) = Some e"
  shows "\<exists>r'. drop_first_entry i r = (Inr (), r') \<and> record_ok lab n r' \<and> nics_of r' = nic_detached i 0 (nics_of r)"
proof -
  let ?k = "length (takeWhile (\<lambda>e. index_of e \<noteq> i) (attachments r))"
  note R = removed_record [OF assms refl]
  have "nics_of (jset ''interface_attachments'' (JList (take ?k (attachments r) @ drop (Suc ?k) (attachments r))) r) = nic_detached i 0 (nics_of r)"
    by (rule nics_of_removed [OF assms R(2) refl]) (simp add: R(3))
  then show ?thesis using R(1) assms(2) record_okD [OF assms(1)]
    by (auto simp: drop_first_entry_def entries_of_ok find_entry_ok)
qed

lemma drop_taps_nics:
  assumes "record_ok lab n r"
  shows "\<exists>r'. drop_name ''tap_names'' name r = (Inr (), r') \<and> record_ok lab n r' \<and> nics_of r' = nics_of r"
  using drop_name_ok [OF assms, of "''tap_names''" name] by (auto simp: nics_of_def)

lemma bump_nics:
  assumes "record_ok lab n r"
  shows "\<exists>r'. bump_interface_attach_generation i r = (Inr (generation r i + 1), r') \<and> record_ok lab n r'
    \<and> nics_of r' = Nics (nic_net (nics_of r)) ((nic_gen (nics_of r))(i := generation r i + 1))"
proof -
  note D = record_okD [OF assms]
  obtain r' where b: "bump_interface_attach_generation i r = (Inr (generation r i + 1), r')" "gens_ok r'" "is_obj r'"
      "\<And>k. k \<noteq> ''interface_runtime'' \<Longrightarrow> jfind r' k = jfind r k"
      "\<And>j. generation r' j = (if j = i then generation r i + 1 else generation r j)"
    using bump_ok [OF D(7,1), of i] by blast
  show ?thesis using b(1,5) record_ok_cong [OF assms b(3,4,2)] by (auto simp: nics_of_def)
qed

lemma forget_card_ok:
  assumes "record_ok lab n r" and "obj_get (ns_registry st) (runtime_key lab n) = Some r"
    and "find (\<lambda>e. index_of e = i) (attachments r) = Some e" and "slot = JNull \<or> (\<exists>k. slot = JInt k)"
  shows "\<exists>r'. forget_card lab n i boot how tap slot (st, tr) = (Inr (), with_record lab n r' st, tr)
    \<and> record_ok lab n r' \<and> nics_of r' = nic_detached i 0 (nics_of r)"
proof -
  obtain r1 where r1: "drop_first_entry i r = (Inr (), r1)" "record_ok lab n r1" "nics_of r1 = nic_detached i 0 (nics_of r)"
    using drop_first_ok [OF assms(1,3)] by blast
  obtain r2 where r2: "(if how \<noteq> Forced \<and> \<not> boot then rt_edit lab n (drop_name ''tap_names'' tap) else rt_ret ()) (with_record lab n r1 st, tr)
      = (Inr (), with_record lab n r2 st, tr)" "record_ok lab n r2" "nics_of r2 = nics_of r1"
  proof (cases "how \<noteq> Forced \<and> \<not> boot")
    case True
    obtain r2 where "drop_name ''tap_names'' tap r1 = (Inr (), r2)" "record_ok lab n r2" "nics_of r2 = nics_of r1"
      using drop_taps_nics [OF r1(2)] by blast
    then show thesis using that True by (simp add: rt_edit_ok rt_py_def rt_ret_def)
  next
    case False
    then show thesis using that [of r1] r1 by (simp only: if_False rt_ret_def)
  qed
  have run: "forget_card lab n i boot how tap slot (st, tr) =
      (if slot = JNull then rt_ret () else rt_edit lab n (release_slot slot)) (with_record lab n r2 st, tr)"
    unfolding forget_card_def edit_step [where r=r and f="drop_first_entry i", OF assms(2) r1(1)]
    by (rule rt_bind_run [where m="if how \<noteq> Forced \<and> \<not> boot then rt_edit lab n (drop_name ''tap_names'' tap) else rt_ret ()", OF r2(1), THEN trans]) simp
  show ?thesis
  proof (cases "slot = JNull")
    case True
    then show ?thesis using run r1(3) r2(2,3) by (auto simp: rt_ret_def)
  next
    case False
    then obtain k where k: "slot = JInt k" using assms(4) by auto
    from slot_edit_release r2(2) obtain ss where "release_slot slot r2 = (Inr (), jset ''allocated_slots'' (JList (map JInt ss)) r2)"
      unfolding slot_edit_def k by blast
    then show ?thesis using run r1(3) r2(3) record_ok_slots [OF r2(2)] k
      by (auto simp: rt_edit_ok rt_py_def rt_ret_def)
  qed
qed

lemma int_field_Some: "int_field k e = Some j \<longleftrightarrow> jget0 e k = JInt j"
  by (auto simp: int_field_def split: json.splits)

lemma drop_card_outcome:
  assumes ok: "node_ok lab n st" and r: "node_record lab n st = Some r"
    and e: "find (\<lambda>e. index_of e = i) (attachments r) = Some e" and x: "expected \<in> {None, Some (generation r i)}"
    and q: "has_table lab n (nics_of r) (ns_files st) st2"
    and run: "drop_card ev lab n i boot how tap (jget0 e ''slot'') (st2, tr2) = (v, st', tr')"
  shows "detach_outcome lab n i 1 expected st v st'"
proof -
  let ?t = "nics_of r"
  have t: "node_nics lab n st = Some ?t" by (simp add: node_nics_def r)
  have "entry_ok e" using record_okD(5) [OF node_record_ok [OF ok r]] e by (auto simp: find_Some_iff)
  then have slot: "jget0 e ''slot'' = JNull \<or> (\<exists>k. jget0 e ''slot'' = JInt k)" by (auto simp: entry_ok_def int_field_Some)
  note m = run [unfolded drop_card_def]
  obtain r2 where r2: "obj_get (ns_registry st2) (runtime_key lab n) = Some r2" "record_ok lab n r2" "nics_of r2 = ?t"
    using q by (auto simp: has_obs_def)
  have "map_option (\<lambda>e. the (int_field ''network_id'' e)) (find (\<lambda>e. index_of e = i) (attachments r2)) = nic_net ?t i"
    by (simp add: nic_net_find [symmetric] r2(3))
  then obtain e2 where e2: "find (\<lambda>e. index_of e = i) (attachments r2) = Some e2" using e by (auto simp: nic_net_find)
  obtain r3 where r3: "forget_card lab n i boot how tap (jget0 e ''slot'') (st2, tr2) = (Inr (), with_record lab n r3 st2, tr2)"
      "record_ok lab n r3" "nics_of r3 = nic_detached i 0 ?t"
    using forget_card_ok [OF r2(2,1) e2 slot] r2(3) by metis
  obtain r4 where r4: "bump_interface_attach_generation i r3 = (Inr (generation r3 i + 1), r4)" "record_ok lab n r4"
      "nics_of r4 = Nics (nic_net (nics_of r3)) ((nic_gen (nics_of r3))(i := generation r3 i + 1))"
    using bump_nics [OF r3(2)] by blast
  have g: "generation r3 i = generation r i" using nic_gen_generation [of r3 i] r3(3) nic_gen_generation [of r i] by (simp add: nic_detached_def)
  have n4: "nics_of r4 = nic_detached i 1 ?t" using r4(3) r3(3) g nic_gen_generation [of r i] by (simp add: nic_detached_def)
  have m2: "rt_bind (rt_edit lab n (bump_interface_attach_generation i)) (\<lambda>g. rt_bind (rt_current lab n) (\<lambda>rec.
      rt_bind (persist_runtime ev rec) (\<lambda>_. rt_ret (Detached how tap g)))) (with_record lab n r3 st2, tr2) = (v, st', tr')"
    using m r3(1) by (simp add: rt_bind_def)
  note P = edit_persist_ok [OF r4(2) _ r4(1) m2, simplified]
  have reg: "registers lab n st2 r4 st'" using conjunct1 [OF P] by (auto simp: registers_def)
  show ?thesis using P registers_record [OF reg] has_table_nics [OF q ok] t e x n4 g
    by (auto simp: detach_outcome_def node_nics_def nic_net_find nic_gen_generation)
qed

lemma detach_qemu_found_outcome:
  assumes ok: "node_ok lab n st" and r: "node_record lab n st = Some r"
    and e: "find (\<lambda>e. index_of e = i) (attachments r) = Some e" and x: "expected \<in> {None, Some (generation r i)}"
    and run: "detach_qemu_found ev lab n i r e (loaded lab n st, tr) = (v, st', tr')"
  shows "detach_outcome lab n i 1 expected st v st'"
proof -
  let ?Q = "has_table lab n (nics_of r) (ns_files st)"
  have no: "?Q st2 \<Longrightarrow> detach_outcome lab n i 1 expected st (Inl x) st2" for x st2
    using has_table_nics [of lab n "nics_of r" st st2] ok r by (simp add: detach_outcome_def node_nics_def)
  have "rt_ends ?Q (\<lambda>v st'. detach_outcome lab n i 1 expected st v st') (detach_qemu_found ev lab n i r e)"
    unfolding detach_qemu_found_def Let_def
    by (intro rt_ends_bind rt_ends_if rt_ends_raise no; (intro rt_rules | auto simp: rt_ends_def intro: drop_card_outcome [OF ok r e x]))
  then show ?thesis using run has_table_loaded [OF ok r] unfolding rt_ends_def by blast
qed

lemma detach_qemu_inner_outcome:
  assumes ok: "node_ok lab n st"
    and run: "detach_qemu_interface_inner ev lab n i expected (st, tr) = (v, st', tr')"
  shows "detach_outcome lab n i 1 expected st v st' \<or>
    (\<exists>why. v = Inr (Absent why) \<and> node_ok lab n st' \<and> node_nics lab n st' = node_nics lab n st)"
proof -
  note L = node_record_loaded [OF ok]
  show ?thesis
  proof (cases "node_record lab n st")
    case None
    then show ?thesis using run L
      by (auto simp: detach_qemu_interface_inner_def rt_bind_def runtime_record_stopped [OF ok] rt_ret_def detach_outcome_def
            node_nics_def loaded_def)
  next
    case (Some r)
    note rok = node_record_ok [OF ok Some]
    show ?thesis
    proof (cases "py_eq (jget0 r ''kind'') (JStr ''qemu'')")
      case False
      then show ?thesis using run L Some record_okD(1) [OF rok]
        by (auto simp: detach_qemu_interface_inner_def rt_bind_def runtime_record_stopped [OF ok] rt_ret_def rt_py_def pget_def node_nics_def)
    next
      case kind: True
      show ?thesis
      proof (cases "find (\<lambda>e. index_of e = i) (attachments r)")
        case None
        then show ?thesis using run L Some kind record_okD [OF rok]
          by (auto simp: detach_qemu_interface_inner_def rt_bind_def runtime_record_stopped [OF ok] rt_ret_def rt_py_def pget_def
                entries_of_ok find_entry_ok detach_outcome_def node_nics_def nic_net_find)
      next
        case e: (Some e)
        have "when_fresh r i expected (\<lambda>g. detach_qemu_found ev lab n i r e) (loaded lab n st, tr) = (v, st', tr')"
          using run Some kind e record_okD [OF rok]
          by (simp add: detach_qemu_interface_inner_def rt_bind_def runtime_record_stopped [OF ok] rt_py_def rt_ret_def pget_def
                entries_of_ok find_entry_ok)
        then have "detach_outcome lab n i 1 expected st v st'"
          using L Some e record_okD [OF rok] detach_qemu_found_outcome [OF ok Some e, of expected ev tr v st' tr']
          by (auto simp: when_fresh_def gens_ok_value generation_eq [symmetric] rt_py_def rt_ret_def detach_outcome_def node_nics_def
                nic_net_find nic_gen_generation split: option.splits if_splits)
        then show ?thesis ..
      qed
    qed
  qed
qed

section \<open>Locks\<close>

definition counts_ok :: "(mutex_key, nat) mutexes \<times> (string \<times> int, nat) node_locks \<Rightarrow> bool" where
  "counts_ok L \<longleftrightarrow> (\<forall>k u c. snd L k = Some (u, c) \<longrightarrow> 0 < c)"

definition balanced :: "'a node \<Rightarrow> bool" where
  \<comment> \<open>the locks that were taken before are taken after, and no others\<close>
  "balanced m \<longleftrightarrow> (\<forall>L. counts_ok L \<longrightarrow> rt_inv (\<lambda>st. locks_of st = L) m)"

lemma balanced_keeps: "rt_keeps locks_of m \<Longrightarrow> balanced m"
  by (simp add: balanced_def rt_inv_def rt_keeps_def)

lemma balanced_pure [rt_rules]:
  "balanced (rt_ret x)" "balanced (rt_raise e)" "balanced (rt_py p)" "balanced (rt_lift l)" "balanced (rt_read f)" "balanced (rt_host h)"
  by (simp_all add: balanced_def rt_inv_pure)

lemma balanced_bind [rt_rules]:
  "balanced m \<Longrightarrow> (\<And>x. balanced (k x)) \<Longrightarrow> balanced (rt_bind m k)"
  "balanced m \<Longrightarrow> (\<And>e. balanced (c e)) \<Longrightarrow> balanced (rt_try m c)"
  "balanced m \<Longrightarrow> balanced m2 \<Longrightarrow> balanced (if b then m else m2)"
  by (simp_all add: balanced_def rt_inv_bind rt_inv_try)

lemma balanced_undoing [rt_rules]:
  "balanced m \<Longrightarrow> balanced u \<Longrightarrow> balanced (undoing m u)" "balanced m \<Longrightarrow> balanced (quietly m)"
  "balanced v \<Longrightarrow> balanced u \<Longrightarrow> balanced (added_by v u)"
  by (simp_all add: balanced_def rt_inv_undoing rt_inv_added)

lemma balanced_ops [rt_rules]:
  "balanced (qmp_client ev path cmd args)" "balanced (qmp_command ev path cmd args)" "balanced (rt_edit lab n f)"
  "balanced (runtime_record ev lab n inc)" "balanced (persist_runtime ev rec)" "balanced (rt_current lab n)"
  "balanced (commit_attachment ev lab n i entry field name)"
  by (simp_all add: balanced_keeps locks_kept locks_kept_record locks_kept_qmp locks_kept_commit)

lemma balanced_resolve [rt_rules]:
  "balanced (assert_held lab n i)" "balanced (resolve_bridge hh lab w bb)" "balanced (resolve_runtime_driver ev lab w)"
  "balanced (named_or y z)"
  by (simp_all add: balanced_keeps resolve_keeps named_or_keeps)

lemma balanced_node_mutex [rt_rules]:
  assumes "balanced m"
  shows "balanced (with_node_mutex ev lab n m)"
  unfolding balanced_def rt_inv_def
proof (intro allI impI)
  fix L st tr
  assume L: "counts_ok L" "locks_of st = L"
  show "locks_of (fst (snd (with_node_mutex ev lab n m (st, tr)))) = L"
  proof (cases "node_lock (nv_thread ev) (lab, n) (ns_node_locks st)")
    case (Some l)
    let ?st = "st\<lparr>ns_node_locks := l\<rparr>"
    have "counts_ok (locks_of ?st)"
      using L Some by (auto simp: counts_ok_def locks_of_def node_lock_def split: option.splits if_splits)
    then have inv: "rt_inv (\<lambda>s. locks_of s = locks_of ?st) m" using assms unfolding balanced_def by blast
    obtain v st1 tr1 where m: "m (?st, tr) = (v, st1, tr1)" by (cases "m (?st, tr)") auto
    then have "locks_of st1 = locks_of ?st" by (rule rt_invD [OF inv _ refl])
    then show ?thesis using L node_lock_unlock [OF Some]
      by (auto simp: with_node_mutex_def Some m locks_of_def counts_ok_def)
  qed (simp add: with_node_mutex_def rt_raise_def L)
qed

lemma balanced_attach_qemu: "balanced (attach_qemu_interface_locked ev lab n w i b model mac)"
proof -
  have plug: "balanced (plug ev path i slot tap bridge driver model mac)" for path slot tap bridge driver model mac
    unfolding plug_def plug_qmp_def qmp_checked_def drop_tap_def Let_def by (auto intro!: rt_rules)
  have boot: "balanced (attach_boot_nic ev path i tap bridge driver)" for path tap bridge driver
    unfolding attach_boot_nic_def Let_def by (auto intro!: rt_rules)
  have pick: "balanced (pick_slot ev path m rec)" for path m rec
    unfolding pick_slot_def find_free_pcie_slot_def
    by (auto intro!: rt_rules split: sum.splits qmp_error.splits json.splits option.splits rt_error.splits)
  have put: "balanced (persist_planned_mac ev lab n i mac)" for mac
  proof (rule balanced_keeps)
    show "rt_keeps locks_of (persist_planned_mac ev lab n i mac)"
      unfolding persist_planned_mac_def
      by (auto intro!: rt_rules split: option.splits) (simp add: rt_keeps_def rt_modify_def locks_of_def)
  qed
  show ?thesis
    unfolding attach_qemu_interface_locked_def attach_qemu_interface_inner_def attach_qemu_running_def attach_qemu_new_def
      record_card_def hot_plug_def resolve_qemu_nic_model_def resolve_qemu_planned_mac_def
    by (auto intro!: rt_rules plug boot pick put split: option.splits sum.splits)
qed

lemma balanced_detach_qemu: "balanced (detach_qemu_interface_locked ev lab n i x)"
proof -
  have gone: "balanced (qemu_device_gone ev path dev)" for path dev
    unfolding qemu_device_gone_def by (auto intro!: rt_rules split: json.splits)
  have wait: "balanced (wait_visible k ev path dev)" "balanced (wait_gone k ev path dev)" for k path dev
    by (induction k) (auto intro!: rt_rules gone)
  have warn: "balanced (publish_node_warning lab n i)"
    by (rule balanced_keeps) (simp add: rt_keeps_def publish_node_warning_def rt_modify_def locks_of_def)
  have "balanced (unplug ev lab n path i tap)" for path tap
    unfolding unplug_def device_del_def unplug_host_def Let_def
    by (auto intro!: rt_rules wait warn split: option.splits)
  then show ?thesis
    unfolding detach_qemu_interface_locked_def detach_qemu_interface_inner_def detach_qemu_found_def drop_card_def forget_card_def
      when_fresh_def Let_def
    by (auto intro!: rt_rules split: option.splits)
qed

lemma balancedD:
  assumes "balanced m" and "counts_ok (locks_of st)" and "m (st\<lparr>ns_mutexes := l\<rparr>, tr) = (v, st1, tr1)"
  shows "locks_of st1 = locks_of (st\<lparr>ns_mutexes := l\<rparr>)"
proof -
  have "counts_ok (locks_of (st\<lparr>ns_mutexes := l\<rparr>))" using assms(2) by (simp add: counts_ok_def locks_of_def)
  then have "rt_inv (\<lambda>s. locks_of s = locks_of (st\<lparr>ns_mutexes := l\<rparr>)) m" using assms(1) unfolding balanced_def by blast
  then show ?thesis using rt_invD assms(3) by fastforce
qed

lemma with_node_mutex_cases:
  assumes "with_node_mutex ev lab n m (st, tr) = (v, st', tr')"
  obtains (contention) "v = Inl RtContention" "st' = st" "tr' = tr"
    | (inside) l l' st1 where "m (st\<lparr>ns_node_locks := l\<rparr>, tr) = (v, st1, tr')" "st' = st1\<lparr>ns_node_locks := l'\<rparr>"
  using assms by (auto simp: with_node_mutex_def rt_raise_def split: option.splits prod.splits)

lemma attach_qemu_locked_outcome:
  assumes ok: "node_ok lab n st"
    and run: "attach_qemu_interface_locked ev lab n w i b model mac (st, tr) = (v, st', tr')"
  shows "attach_outcome lab n i w st v st'"
proof (rule rt_keptE [OF run [unfolded attach_qemu_interface_locked_def] resolve_keeps(3)])
  fix x tr1
  assume "with_node_mutex ev lab n (attach_qemu_interface_inner ev lab n w i b model mac) (st, tr1) = (v, st', tr')"
  then show ?thesis
  proof (cases rule: with_node_mutex_cases)
    case (inside l l' st1)
    then show ?thesis using attach_qemu_inner_outcome [OF _ inside(1)] ok by simp
  qed (simp add: outcome_contention ok)
qed (simp add: outcome_contention ok)

definition detach_outcome_any ::
    "string \<Rightarrow> int \<Rightarrow> int \<Rightarrow> int \<Rightarrow> int option \<Rightarrow> node_state \<Rightarrow> rt_error + detach_result \<Rightarrow> node_state \<Rightarrow> bool" where
  \<comment> \<open>also the answer to a node of another kind\<close>
  "detach_outcome_any lab n i d x st v st' \<longleftrightarrow> detach_outcome lab n i d x st v st' \<or>
     (\<exists>why. v = Inr (Absent why) \<and> node_ok lab n st' \<and> node_nics lab n st' = node_nics lab n st)"

lemma detach_qemu_locked_outcome:
  assumes ok: "node_ok lab n st"
    and run: "detach_qemu_interface_locked ev lab n i x (st, tr) = (v, st', tr')"
  shows "detach_outcome_any lab n i 1 x st v st'"
proof (rule rt_keptE [OF run [unfolded detach_qemu_interface_locked_def] resolve_keeps(3)])
  fix y tr1
  assume "with_node_mutex ev lab n (detach_qemu_interface_inner ev lab n i x) (st, tr1) = (v, st', tr')"
  then show ?thesis
  proof (cases rule: with_node_mutex_cases)
    case (inside l l' st1)
    then show ?thesis using detach_qemu_inner_outcome [OF _ inside(1)] ok by (simp add: detach_outcome_any_def)
  qed (simp add: outcome_contention ok detach_outcome_any_def)
qed (simp add: outcome_contention ok detach_outcome_any_def)

lemma attach_qemu_outcome:
  assumes "node_ok lab n st" and "counts_ok (locks_of st)"
    and run: "attach_qemu_interface ev lab n w i b model mac (st, tr) = (v, st', tr')"
  shows "attach_outcome lab n i w st v st' \<and> same_locks st st'"
proof (cases rule: with_iface_mutex_cases [OF run [unfolded attach_qemu_interface_def] balancedD [OF balanced_attach_qemu assms(2)]])
  case (3 locks locks' st1)
  then show ?thesis using assms(1) attach_qemu_locked_outcome [OF _ 3(1)] by simp
qed (use assms(1) in \<open>simp_all add: outcome_contention\<close>)

lemma detach_qemu_outcome:
  assumes "node_ok lab n st" and "counts_ok (locks_of st)"
    and run: "detach_qemu_interface ev lab n i x (st, tr) = (v, st', tr')"
  shows "detach_outcome_any lab n i 1 x st v st' \<and> same_locks st st'"
proof (cases rule: with_iface_mutex_cases [OF run [unfolded detach_qemu_interface_def] balancedD [OF balanced_detach_qemu assms(2)]])
  case (3 locks locks' st1)
  then show ?thesis using assms(1) detach_qemu_locked_outcome [OF _ 3(1)] by (simp add: detach_outcome_any_def)
qed (use assms(1) in \<open>simp_all add: outcome_contention detach_outcome_any_def\<close>)

end
