(* ===== verification/Node_Limits.thy ===== *)
theory Node_Limits
  imports Node_Cards Host_Net_Safety
begin

text \<open>
  What the conversation with a running machine can and cannot do: a reply does not depend on how
  the socket cuts it into chunks, the search of the PCI tree is exhaustive, the slot chosen for a
  card is the highest free one, and a removal asks QEMU a bounded number of times.
\<close>

section \<open>Replies\<close>

lemma read_line_stream:
  assumes "[] \<notin> set cs"
  shows "case read_line err buf cs of
      Inl e \<Rightarrow> e = err \<and> newline \<notin> set (buf @ concat cs)
    | Inr (line, rest, cs') \<Rightarrow> newline \<in> set (buf @ concat cs) \<and> [] \<notin> set cs' \<and>
        line = takeWhile (\<lambda>c. c \<noteq> newline) (buf @ concat cs) \<and> rest @ concat cs' = tl (dropWhile (\<lambda>c. c \<noteq> newline) (buf @ concat cs))"
  using assms
proof (induction err buf cs rule: read_line.induct)
  case (1 err buf cs)
  show ?case
  proof (cases "newline \<in> set buf")
    case True
    then have "dropWhile (\<lambda>c. c \<noteq> newline) buf \<noteq> []" by (simp add: dropWhile_eq_Nil_conv)
    then show ?thesis using True 1(2)
      by (auto simp: read_line.simps [of err buf cs] takeWhile_append1 dropWhile_append1 tl_append split: list.split)
  next
    case False
    then show ?thesis using 1 by (cases cs) (auto simp: read_line.simps [of err buf] split: sum.splits prod.splits)
  qed
qed

definition same_stream :: "string \<Rightarrow> string list \<Rightarrow> string \<Rightarrow> string list \<Rightarrow> bool" where
  "same_stream b cs b' cs' \<longleftrightarrow> b @ concat cs = b' @ concat cs' \<and> [] \<notin> set cs \<and> [] \<notin> set cs'"

lemma read_json_stream:
  assumes "same_stream b cs b' cs'"
  shows "rel_sum (=) (\<lambda>(v, r, ds) (v', r', ds'). v = v' \<and> same_stream r ds r' ds') (read_json loads err b cs) (read_json loads err b' cs')"
  using assms read_line_stream [of cs err b] read_line_stream [of cs' err b']
  by (auto simp: read_json_def same_stream_def split: sum.splits prod.splits option.splits)

lemma bindr_read_json:
  assumes "same_stream b cs b' cs'" and "\<And>v r ds r' ds'. same_stream r ds r' ds' \<Longrightarrow> f (v, r, ds) = g (v, r', ds')"
  shows "bindr (read_json loads err b cs) f = bindr (read_json loads err b' cs') g"
  using read_json_stream [OF assms(1), of loads err] assms(2)
  by (cases "read_json loads err b cs"; cases "read_json loads err b' cs'") auto

lemma bindr_then: "(\<And>x. f x = g x) \<Longrightarrow> bindr m f = bindr m g"
  by (cases m) auto

text \<open>
  C34. However the bytes of a QMP session arrive, the client returns the same reply: only their
  concatenation counts, also when several lines come in one chunk or a line comes in several.
\<close>
theorem qmp_reply_independent_of_chunks:
  assumes "concat cs = concat cs'" and "[] \<notin> set cs" and "[] \<notin> set cs'"
  shows "qmp_send_with_args loads (Connected cs err send1 send2) path = qmp_send_with_args loads (Connected cs' err send1 send2) path"
proof -
  have "same_stream [] cs [] cs'" using assms by (simp add: same_stream_def)
  then show ?thesis unfolding qmp_send_with_args_def qmp_conn.case
    by (auto intro!: bindr_then bindr_read_json)
qed

section \<open>The PCI tree\<close>

inductive in_subtree :: "string \<Rightarrow> json \<Rightarrow> bool" for d :: string where
  \<comment> \<open>the device is listed, or it is behind a bridge that is listed, at any depth\<close>
  here: "x \<in> set xs \<Longrightarrow> is_obj x \<Longrightarrow> py_str (jor (jget0 x ''qdev_id'') (JStr [])) = d \<Longrightarrow> in_subtree d (JList xs)"
| behind: "x \<in> set xs \<Longrightarrow> is_obj x \<Longrightarrow> is_obj (jget0 x ''pci_bridge'') \<Longrightarrow>
    in_subtree d (jget0 (jget0 x ''pci_bridge'') ''devices'') \<Longrightarrow> in_subtree d (JList xs)"

inductive_simps in_subtree_simps: "in_subtree d (JList xs)"

lemma device_present_iff: "device_present d v \<longleftrightarrow> in_subtree d v"
proof
  show "device_present d v \<Longrightarrow> in_subtree d v"
  proof (induction d v rule: device_present.induct)
    case (1 d xs)
    then show ?case by (auto simp: in_subtree_simps list_ex_iff)
  qed simp_all
  show "in_subtree d v \<Longrightarrow> device_present d v"
    by (induction rule: in_subtree.induct) (auto simp: list_ex_iff)
qed

text \<open>
  A device counts as gone exactly when it is nowhere in the PCI tree QEMU reports, behind
  whatever chain of bridges: the recursive search answers as the inductive definition of being in
  the tree does.
\<close>
theorem device_gone_is_not_in_tree:
  "qemu_device_gone ev path d =
     rt_bind (qmp_command ev path ''query-pci'' JNull) (\<lambda>r.
       if jhas r ''error'' then rt_raise (RtNode ''QMP query-pci returned error during detach poll'')
       else rt_ret (\<not> (\<exists>b \<in> set (list_of (jget0 r ''return'')). is_obj b \<and> in_subtree d (jget0 b ''devices''))))"
  unfolding qemu_device_gone_def device_present_iff
  by (intro arg_cong2 [where f=rt_bind] ext refl) (auto simp: list_ex_iff split: json.splits)

section \<open>The choice of a slot\<close>

lemma highest_free_Some:
  "highest_free occupied m = Some k \<longleftrightarrow> k < m \<and> int k \<notin> occupied \<and> (\<forall>j. k < j \<and> j < m \<longrightarrow> int j \<in> occupied)"
  by (induction m) (auto simp: less_Suc_eq)

lemma highest_free_None: "highest_free occupied m = None \<longleftrightarrow> (\<forall>j < m. int j \<in> occupied)"
  by (induction m) (auto simp: less_Suc_eq)


definition slots_in_use :: "json list \<Rightarrow> json list \<Rightarrow> int set" where
  \<comment> \<open>root ports with something behind them, and the slots other attachments reserved\<close>
  "slots_in_use buses reserved =
     {j. \<exists>b \<in> set buses. \<exists>x. is_obj b \<and> x \<in> set (list_of (jget0 b ''devices'')) \<and> root_port_in_use x = Some j} \<union>
     {j. \<exists>r \<in> set reserved. int_or_skip r = Some j}"


lemma not_obj_port: "\<not> is_obj x \<Longrightarrow> root_port_in_use x = None"
  by (simp add: root_port_in_use_def Let_def split: json.split)

lemma no_ports: "(\<And>x. x \<in> set ds \<Longrightarrow> \<not> is_obj x) \<Longrightarrow> List.map_filter root_port_in_use ds = []"
  by (simp add: List.map_filter_def filter_empty_conv not_obj_port)

lemma map_filter_in: "y \<in> set (List.map_filter f xs) \<longleftrightarrow> (\<exists>x \<in> set xs. f x = Some y)"
  by (force simp: List.map_filter_def)

lemma ports_of_bus_set:
  assumes "ports_of_bus bus = Inr ps"
  shows "set ps = {j. \<exists>x. is_obj bus \<and> x \<in> set (list_of (jget0 bus ''devices'')) \<and> root_port_in_use x = Some j}"
proof (cases "is_obj bus")
  case True
  then obtain ds where ds: "piter (jor (jget0 bus ''devices'') (JList [])) = Inr ds" "ps = List.map_filter root_port_in_use ds"
    using assms by (auto simp: ports_of_bus_def bindr_eq_Inr)
  show ?thesis
  proof (cases "jget0 bus ''devices''")
    case (JList xs)
    then show ?thesis using ds True by (auto simp: jor_def map_filter_in split: if_splits)
  next
    case (JObj kvs)
    then have "ps = []" using ds by (auto simp: jor_def intro!: no_ports split: if_splits)
    then show ?thesis by (simp add: JObj)
  next
    case (JStr s)
    then have "ps = []" using ds by (auto simp: jor_def intro!: no_ports split: if_splits)
    then show ?thesis by (simp add: JStr)
  qed (use ds True in \<open>auto simp: jor_def map_filter_in split: if_splits\<close>)
qed (use assms in \<open>simp add: ports_of_bus_def\<close>)

lemma mapr_all2: "mapr f xs = Inr ys \<longleftrightarrow> list_all2 (\<lambda>x y. f x = Inr y) xs ys"
  by (induction xs arbitrary: ys) (auto simp: bindr_eq_Inr list_all2_Cons1)

lemma ports_set:
  assumes "mapr ports_of_bus buses = Inr ports"
  shows "set (concat ports) \<union> set (List.map_filter int_or_skip rs) = slots_in_use buses rs"
proof -
  have "list_all2 (\<lambda>b ps. ports_of_bus b = Inr ps) buses ports" using assms by (simp add: mapr_all2)
  then have "set (concat ports) = {j. \<exists>b \<in> set buses. \<exists>x. is_obj b \<and> x \<in> set (list_of (jget0 b ''devices'')) \<and> root_port_in_use x = Some j}"
    by (induction rule: list_all2_induct) (auto simp: ports_of_bus_set)
  then show ?thesis by (auto simp: slots_in_use_def map_filter_in)
qed

lemma above_nat: "(\<forall>j. k < j \<and> j < nat m \<longrightarrow> int j \<in> S) \<longleftrightarrow> (\<forall>j. int k < j \<and> j < m \<longrightarrow> j \<in> S)"
proof (intro iffI allI impI; elim conjE)
  fix j :: int
  assume h: "\<forall>j. k < j \<and> j < nat m \<longrightarrow> int j \<in> S" "int k < j" "j < m"
  show "j \<in> S" using spec [OF h(1), of "nat j"] h(2,3) by simp
qed simp

lemma free_slot_cases:
  assumes "find_free_pcie_slot ev path m (JList rs) (st, tr) = (Inr r, s')"
  obtains response buses where "fst (qmp_client ev path ''query-pci'' JNull (st, tr)) = Inr (Inr response)"
    "jget0 response ''return'' = JList buses" "r = highest_free (slots_in_use buses rs) (nat m)"
proof -
  obtain q st1 where q: "qmp_client ev path ''query-pci'' JNull (st, tr) = (Inr q, st1, tr)" by (simp add: qmp_client_def Let_def)
  have p: "piter (jor (JList rs) (JList [])) = Inr rs" by (cases rs) (simp_all add: jor_def)
  obtain response buses where q': "q = Inr response" "jget0 response ''return'' = JList buses"
      "rt_bind (rt_py (mapr ports_of_bus buses)) (\<lambda>ports.
               rt_bind (rt_py (piter (jor (JList rs) (JList [])))) (\<lambda>rs.
                 rt_ret (highest_free (set (concat ports) \<union> set (List.map_filter int_or_skip rs)) (nat m)))) (st1, tr) = (Inr r, s')"
    using assms unfolding find_free_pcie_slot_def rt_bind_run [where m="qmp_client ev path ''query-pci'' JNull", OF q]
    by (auto simp: rt_raise_def split: sum.splits qmp_error.splits if_splits json.splits)
  then obtain ports where ports: "mapr ports_of_bus buses = Inr ports"
    by (cases "mapr ports_of_bus buses") (auto simp: rt_bind_def rt_py_def rt_raise_def)
  then have "r = highest_free (slots_in_use buses rs) (nat m)"
    using q'(3) by (simp add: rt_bind_def rt_py_def rt_ret_def p ports_set [OF ports, symmetric])
  then show thesis using that q'(1,2) q by simp
qed

text \<open>
  The slot chosen for a new card is within the machine's slots, not in use in the tree QEMU
  reports and not reserved, and every slot above it is in use; no slot is found only when all are.
\<close>
theorem chosen_slot_is_highest_free:
  assumes "find_free_pcie_slot ev path m (JList rs) (st, tr) = (Inr r, s')"
  shows "\<exists>response buses. fst (qmp_client ev path ''query-pci'' JNull (st, tr)) = Inr (Inr response)
    \<and> jget0 response ''return'' = JList buses
    \<and> (case r of
          Some k \<Rightarrow> int k < m \<and> int k \<notin> slots_in_use buses rs \<and> (\<forall>j. int k < j \<and> j < m \<longrightarrow> j \<in> slots_in_use buses rs)
        | None \<Rightarrow> (\<forall>j. 0 \<le> j \<and> j < m \<longrightarrow> j \<in> slots_in_use buses rs))"
proof (rule free_slot_cases [OF assms])
  fix response buses
  assume q: "fst (qmp_client ev path ''query-pci'' JNull (st, tr)) = Inr (Inr response)" "jget0 response ''return'' = JList buses"
    and r: "r = highest_free (slots_in_use buses rs) (nat m)"
  have ints: "P j" if "\<And>i. P (int i)" "0 \<le> j" for P and j :: int
    using that(1) [of "nat j"] that(2) by simp
  have "case r of
          Some k \<Rightarrow> int k < m \<and> int k \<notin> slots_in_use buses rs \<and> (\<forall>j. int k < j \<and> j < m \<longrightarrow> j \<in> slots_in_use buses rs)
        | None \<Rightarrow> (\<forall>j. 0 \<le> j \<and> j < m \<longrightarrow> j \<in> slots_in_use buses rs)"
  proof (cases r)
    case None
    then have "\<forall>j < nat m. int j \<in> slots_in_use buses rs" using r highest_free_None by metis
    then have "j \<in> slots_in_use buses rs" if "0 \<le> j" "j < m" for j
      using that by (metis nat_0_le nat_less_eq_zless)
    then show ?thesis using None by simp
  next
    case (Some k)
    then have "k < nat m" "int k \<notin> slots_in_use buses rs" "\<forall>j. k < j \<and> j < nat m \<longrightarrow> int j \<in> slots_in_use buses rs"
      using r highest_free_Some by metis+
    moreover from this(3) have "\<forall>j. int k < j \<and> j < m \<longrightarrow> j \<in> slots_in_use buses rs" by (simp add: above_nat)
    ultimately show ?thesis using Some by simp
  qed
  then show ?thesis using q by blast
qed

section \<open>How long a removal takes\<close>

definition asks :: "nat \<Rightarrow> 'a node \<Rightarrow> bool" where
  \<comment> \<open>QEMU is asked at most the given number of times\<close>
  "asks k m \<longleftrightarrow> (\<forall>st tr. length (ns_qmp (fst (snd (m (st, tr))))) \<le> length (ns_qmp st) + k)"

lemma asks_mono: "asks k m \<Longrightarrow> k \<le> l \<Longrightarrow> asks l m"
  unfolding asks_def by (meson add_left_mono order_trans)

lemma asks_keeps: "rt_keeps ns_qmp m \<Longrightarrow> asks 0 m"
  by (auto simp: asks_def rt_keeps_def)

lemma asks_bind:
  assumes "asks a m" and "\<And>x. asks b (f x)"
  shows "asks (a + b) (rt_bind m f)"
  unfolding asks_def
proof (intro allI)
  fix st tr
  obtain v st1 tr1 where m: "m (st, tr) = (v, st1, tr1)" by (cases "m (st, tr)") auto
  then have "length (ns_qmp st1) \<le> length (ns_qmp st) + a" using assms(1) unfolding asks_def by (metis fst_conv snd_conv)
  moreover have "length (ns_qmp (fst (snd (f x (st1, tr1))))) \<le> length (ns_qmp st1) + b" for x
    using assms(2) unfolding asks_def by blast
  ultimately show "length (ns_qmp (fst (snd (rt_bind m f (st, tr))))) \<le> length (ns_qmp st) + (a + b)"
    by (simp add: rt_bind_def m split: sum.split) (smt (verit) add.assoc add_le_mono1 order_trans)
qed


lemma asks_try:
  assumes "asks a m" and "\<And>e. asks b (h e)"
  shows "asks (a + b) (rt_try m h)"
  unfolding asks_def
proof (intro allI)
  fix st tr
  obtain v st1 tr1 where m: "m (st, tr) = (v, st1, tr1)" by (cases "m (st, tr)") auto
  then have "length (ns_qmp st1) \<le> length (ns_qmp st) + a" using assms(1) unfolding asks_def by (metis fst_conv snd_conv)
  moreover have "length (ns_qmp (fst (snd (h x (st1, tr1))))) \<le> length (ns_qmp st1) + b" for x
    using assms(2) unfolding asks_def by blast
  ultimately show "length (ns_qmp (fst (snd (rt_try m h (st, tr))))) \<le> length (ns_qmp st) + (a + b)"
    by (simp add: rt_try_def m split: sum.split) (smt (verit) add.assoc add_le_mono1 order_trans)
qed

lemma asks_first: "asks 0 m \<Longrightarrow> (\<And>x. asks k (f x)) \<Longrightarrow> asks k (rt_bind m f)"
  using asks_bind [of 0 m k f] by simp

lemma asks_last: "asks k m \<Longrightarrow> (\<And>x. asks 0 (f x)) \<Longrightarrow> asks k (rt_bind m f)"
  using asks_bind [of k m 0 f] by simp

lemma asks_pure [rt_rules]:
  "asks k (rt_ret x)" "asks k (rt_raise e)" "asks k (rt_py p)" "asks k (rt_lift l)" "asks k (rt_read f)" "asks k (rt_host m)"
  by (auto intro!: asks_mono [OF asks_keeps] rt_rules)

lemma asks_if: "asks k m \<Longrightarrow> asks k n \<Longrightarrow> asks k (if b then m else n)"
  by simp

lemma asks_quietly: "asks k m \<Longrightarrow> asks k (quietly m)"
  using asks_try [of k "rt_bind m (\<lambda>_. rt_ret ())" 0 "\<lambda>_. rt_ret ()"] by (simp add: quietly_def asks_last rt_rules)

lemma asks_command: "asks 1 (qmp_command ev path cmd args)"
proof -
  have "asks 1 (qmp_client ev path cmd args)" by (simp add: asks_def qmp_client_def Let_def)
  then show ?thesis unfolding qmp_command_def
    by (rule asks_last) (auto intro!: rt_rules split: sum.split qmp_error.split)
qed

lemma asks_gone: "asks 1 (qemu_device_gone ev path dev)"
  unfolding qemu_device_gone_def by (rule asks_last [OF asks_command]) (auto intro!: rt_rules split: json.split)

lemma asks_waits: "asks k (wait_visible k ev path dev)" "asks k (wait_gone k ev path dev)"
proof (induction k)
  case (Suc k)
  { case 1
    show ?case using asks_bind [OF asks_gone, of k "\<lambda>gone. if gone then wait_visible k ev path dev else rt_ret ()" ev path dev] Suc(1)
      by (simp add: asks_pure(1)) }
  { case 2
    show ?case using asks_bind [OF asks_gone, of k "\<lambda>gone. if gone then rt_ret True else wait_gone k ev path dev" ev path dev] Suc(2)
      by (simp add: asks_pure(1)) }
qed (simp_all add: asks_pure)

lemma asks_device_del: "asks (1 + (VISIBLE_POLLS + 1)) (device_del ev path dev)"
  unfolding device_del_def
proof (rule asks_bind [OF asks_command])
  fix r
  have "asks (VISIBLE_POLLS + 1) (rt_bind (wait_visible VISIBLE_POLLS ev path dev) (\<lambda>_.
                rt_bind (qmp_command ev path ''device_del'' (id_args dev)) (\<lambda>r2.
                  case error_class r2 of
                    None \<Rightarrow> rt_ret False
                  | Some c2 \<Rightarrow> if c2 = ''DeviceNotFound'' then rt_ret True
                               else rt_raise (RtNode ''QMP device_del retry failed''))))"
    by (rule asks_bind [OF asks_waits(1)], rule asks_last [OF asks_command]) (auto intro!: rt_rules split: option.split)
  then show "asks (VISIBLE_POLLS + 1) (case error_class r of
         None \<Rightarrow> rt_ret False
       | Some c \<Rightarrow>
           if c \<noteq> ''DeviceNotFound'' then rt_raise (RtNode ''QMP device_del failed'')
           else rt_bind (wait_visible VISIBLE_POLLS ev path dev) (\<lambda>_.
                rt_bind (qmp_command ev path ''device_del'' (id_args dev)) (\<lambda>r2.
                  case error_class r2 of
                    None \<Rightarrow> rt_ret False
                  | Some c2 \<Rightarrow> if c2 = ''DeviceNotFound'' then rt_ret True
                               else rt_raise (RtNode ''QMP device_del retry failed''))))"
    by (auto intro!: rt_rules split: option.split)
qed

lemma asks_unplug: "asks 39 (unplug ev lab n path i tap)"
proof -
  have "asks (1 + 0) (rt_try (rt_bind (qmp_command ev path ''netdev_del'' (id_args (''net'' @ dec_int i))) (\<lambda>r. rt_ret (netdev_error r)))
                (\<lambda>e. if is_timeout e then rt_ret (Some e) else rt_raise e))"
    by (intro asks_try asks_last [OF asks_command] asks_if rt_rules)
  then have host: "asks 1 (unplug_host ev path i tap)"
    unfolding unplug_host_def add_0_right
    by (rule asks_last) (auto intro!: asks_first rt_rules split: option.split)
  have gone: "asks GONE_POLLS (if already then rt_ret True else wait_gone GONE_POLLS ev path dev)" for already dev
    by (simp add: asks_waits rt_rules)
  have warn: "asks 0 (publish_node_warning lab n i)"
    by (rule asks_keeps) (simp add: rt_keeps_def publish_node_warning_def rt_modify_def)
  have rest: "asks 1 (if gone then rt_bind (unplug_host ev path i tap) (\<lambda>_. rt_ret (if already then AlreadyGone else Clean))
        else rt_bind (rt_host (link_set_nomaster (nv_host ev) tap)) (\<lambda>_.
             rt_bind (quietly (publish_node_warning lab n i)) (\<lambda>_. rt_ret Forced)))" for gone already
    by (intro asks_if asks_last [OF host] asks_first asks_quietly warn) (intro rt_rules)+
  have "asks (1 + (VISIBLE_POLLS + 1) + (GONE_POLLS + 1)) (unplug ev lab n path i tap)"
    unfolding unplug_def Let_def by (intro asks_bind [OF asks_device_del] asks_bind [OF gone] rest)
  then show ?thesis by (simp add: VISIBLE_POLLS_def GONE_POLLS_def)
qed

lemma asks_silent:
  "asks 0 (runtime_record ev lab n b)" "asks 0 (rt_edit lab n f)" "asks 0 (rt_current lab n)" "asks 0 (persist_runtime ev r)"
  "asks 0 (assert_held lab n i)" "asks 0 (named_or y d)"
proof -
  have l: "rt_keeps ns_qmp (load_record lab n)" "rt_keeps ns_qmp (delete_runtime lab n)" "rt_keeps ns_qmp (is_runtime_alive ev r)" for r
    by (auto simp: rt_keeps_def load_record_def delete_runtime_def is_runtime_alive_def is_docker_running_def rt_defs rt_modify_def Let_def
        split: option.splits sum.splits json.splits)
  show "asks 0 (runtime_record ev lab n b)"
    unfolding runtime_record_def by (intro asks_keeps) (auto intro!: rt_rules l split: option.split)
  show "asks 0 (rt_edit lab n f)" "asks 0 (rt_current lab n)" "asks 0 (persist_runtime ev r)"
    by (auto simp: asks_def rt_edit_def rt_current_def persist_runtime_def rt_read_def rt_defs rt_modify_def Let_def
        split: option.splits sum.splits prod.splits)
  show "asks 0 (assert_held lab n i)" "asks 0 (named_or y d)"
    by (simp_all add: asks_keeps resolve_keeps named_or_keeps)
qed

lemma asks_node_mutex:
  assumes "asks k m"
  shows "asks k (with_node_mutex ev lab n m)"
  unfolding asks_def
proof (intro allI)
  fix st tr
  show "length (ns_qmp (fst (snd (with_node_mutex ev lab n m (st, tr))))) \<le> length (ns_qmp st) + k"
  proof (cases "node_lock (nv_thread ev) (lab, n) (ns_node_locks st)")
    case (Some l)
    obtain v st1 tr1 where m: "m (st\<lparr>ns_node_locks := l\<rparr>, tr) = (v, st1, tr1)" by (cases "m (st\<lparr>ns_node_locks := l\<rparr>, tr)") auto
    have "length (ns_qmp (fst (snd (m (st\<lparr>ns_node_locks := l\<rparr>, tr))))) \<le> length (ns_qmp (st\<lparr>ns_node_locks := l\<rparr>)) + k"
      using assms unfolding asks_def by blast
    then show ?thesis by (simp add: with_node_mutex_def Some m)
  qed (simp add: with_node_mutex_def rt_raise_def)
qed

lemma asks_iface_mutex:
  assumes "asks k m"
  shows "asks k (with_iface_mutex ev lab n i m)"
  unfolding asks_def
proof (intro allI)
  fix st tr
  show "length (ns_qmp (fst (snd (with_iface_mutex ev lab n i m (st, tr))))) \<le> length (ns_qmp st) + k"
  proof (cases "mutex_lock (nv_thread ev) (lab, n, i) (ns_mutexes st)")
    case (Some l)
    obtain v st1 tr1 where m: "m (st\<lparr>ns_mutexes := l\<rparr>, tr) = (v, st1, tr1)" by (cases "m (st\<lparr>ns_mutexes := l\<rparr>, tr)") auto
    have "length (ns_qmp (fst (snd (m (st\<lparr>ns_mutexes := l\<rparr>, tr))))) \<le> length (ns_qmp (st\<lparr>ns_mutexes := l\<rparr>)) + k"
      using assms unfolding asks_def by blast
    then show ?thesis by (simp add: with_iface_mutex_def Some m)
  qed (simp add: with_iface_mutex_def rt_raise_def)
qed

lemma asks_detach: "asks 39 (detach_qemu_interface ev lab n i expected)"
proof -
  have drop: "asks 0 (drop_card ev lab n i boot how tap slot)" for boot how tap slot
    unfolding drop_card_def forget_card_def by (intro asks_first asks_if asks_silent rt_rules)
  have boot: "asks 39 (rt_bind (quietly (qmp_command ev path ''set_link'' (set_link_args i False))) (\<lambda>_.
                  rt_bind (rt_host (link_set_nomaster (nv_host ev) tap)) (\<lambda>_. rt_ret Clean)))" for path tap
    by (rule asks_mono [where k=1], intro asks_last [OF asks_quietly [OF asks_command]] asks_first rt_rules) simp
  have found: "asks 39 (detach_qemu_found ev lab n i runtime target)" for runtime target
    unfolding detach_qemu_found_def Let_def
    by (intro asks_first [OF asks_pure(3)] asks_if asks_pure asks_first [OF asks_silent(6)] asks_last [OF asks_if [OF boot asks_unplug]] drop)
  have fresh: "asks 39 (when_fresh runtime i expected (\<lambda>g. detach_qemu_found ev lab n i runtime target))" for runtime target
    unfolding when_fresh_def by (rule asks_first [OF asks_pure(3)]) (simp add: found asks_pure split: option.split)
  have found: "asks 39 (rt_bind (rt_py p) (\<lambda>found. case found of None \<Rightarrow> rt_ret (Absent ''no attachment record'')
       | Some (k, target) \<Rightarrow> when_fresh runtime i expected (\<lambda>g. detach_qemu_found ev lab n i runtime target)))"
    for runtime and p :: "py_exc + (nat \<times> json) option"
    by (rule asks_first [OF asks_pure(3)]) (simp add: fresh asks_pure split: option.split)
  show ?thesis
    unfolding detach_qemu_interface_def detach_qemu_interface_locked_def detach_qemu_interface_inner_def
  proof (intro asks_iface_mutex asks_first [OF asks_silent(5)] asks_node_mutex asks_first [OF asks_silent(1)])
    fix r
    show "asks 39 (case r of
         None \<Rightarrow> rt_ret (Absent ''no runtime record'')
       | Some runtime \<Rightarrow>
           rt_bind (rt_py (pget runtime ''kind'' JNull)) (\<lambda>kind.
             if \<not> py_eq kind (JStr ''qemu'') then rt_ret (Absent ''runtime kind is not qemu'')
             else rt_bind (rt_py (bindr (entries_of ''interface_attachments'' runtime) (find_entry i 0))) (\<lambda>found.
               case found of
                 None \<Rightarrow> rt_ret (Absent ''no attachment record'')
               | Some (k, target) \<Rightarrow>
                   when_fresh runtime i expected (\<lambda>g. detach_qemu_found ev lab n i runtime target))))"
      by (cases r) (simp_all only: option.case, intro asks_pure, intro asks_first [OF asks_pure(3)] asks_if asks_pure found)
  qed
qed

text \<open>
  C35. A removal of a card always comes back with a result or an error after asking QEMU at most 39
  times, however the guest behaves: the first try, 20 looks for a device that is not there yet, the
  second try, 16 looks whether it is gone, and the removal of its netdev.
\<close>
theorem removal_asks_at_most_39_times:
  "\<exists>v st' tr'. detach_qemu_interface ev lab n i expected (st, tr) = (v, st', tr') \<and> length (ns_qmp st') \<le> length (ns_qmp st) + 39"
  using asks_detach [of ev lab n i expected] unfolding asks_def by (metis prod.collapse)


section \<open>Witnesses\<close>

definition demo_pci :: json where
  \<comment> \<open>a card \<open>dev1\<close> behind root port 0, nothing behind root port 1\<close>
  "demo_pci = JObj [(''return'', JList [JObj [(''devices'', JList [
     JObj [(''qdev_id'', JStr ''rp0''), (''pci_bridge'', JObj [(''devices'', JList [JObj [(''qdev_id'', JStr ''dev1'')]])])],
     JObj [(''qdev_id'', JStr ''rp1''), (''pci_bridge'', JObj [(''devices'', JList [])])]])]])]"

definition demo_machine :: node_env where
  \<comment> \<open>a running machine whose every reply is the same, on a host where every link is there and the helper succeeds\<close>
  "demo_machine =
     \<lparr>nv_host = \<lparr>cfg = demo_cfg, helper_says = (\<lambda>_ _ _. Reply 0 [] []), link_show = (\<lambda>_ _. IpExit 0 []), link_list = (\<lambda>_. IpMissing),
        fp_at = (\<lambda>_ _. FpMissing), fp_write_ok = (\<lambda>_ _. True)\<rparr>,
      nv_thread = 0, nv_conn = (\<lambda>_ _. Connected [''{}'' @ [newline], ''{}'', [newline] @ ''{'', ''}'' @ [newline]] ''timed out'' None None),
      nv_loads = (\<lambda>_. Some demo_pci), nv_docker = (\<lambda>_ _. Some (0, ''true'')), nv_dynamips = (\<lambda>_ _. False),
      nv_process = (\<lambda>_ _. Some \<lparr>pr_far = (\<lambda>_. False), pr_running = True, pr_zombie = False\<rparr>),
      nv_write_ok = (\<lambda>_ _. True), nv_rglob = [], nv_glob = []\<rparr>"

definition idle_node :: node_state where
  "idle_node = \<lparr>ns_registry = [], ns_files = [], ns_mutexes = (\<lambda>_. None), ns_node_locks = (\<lambda>_. None), ns_qmp = [], ns_labs = [], ns_warnings = []\<rparr>"

theorem qmp_reply_independent_of_chunks_witness:
  "qmp_send_with_args (\<lambda>_. Some demo_pci) (Connected [''{}'' @ [newline], ''{}'', [newline] @ ''{'', ''}'' @ [newline]] ''timed out'' None None) ''qmp.sock''
     = qmp_send_with_args (\<lambda>_. Some demo_pci) (Connected [''{}'' @ [newline] @ ''{}'' @ [newline] @ ''{}'' @ [newline]] ''timed out'' None None) ''qmp.sock''
   \<and> qmp_send_with_args (\<lambda>_. Some demo_pci) (Connected [''{}'' @ [newline] @ ''{}'' @ [newline] @ ''{}'' @ [newline]] ''timed out'' None None) ''qmp.sock''
     = Inr demo_pci"
  by (rule conjI, rule qmp_reply_independent_of_chunks; code_simp)

theorem chosen_slot_is_highest_free_witness:
  "\<exists>buses. fst (qmp_client demo_machine ''qmp.sock'' ''query-pci'' JNull (idle_node, [])) = Inr (Inr demo_pci) \<and> jget0 demo_pci ''return'' = JList buses
     \<and> int 1 < 3 \<and> int 1 \<notin> slots_in_use buses [JInt 2] \<and> (\<forall>j. int 1 < j \<and> j < 3 \<longrightarrow> j \<in> slots_in_use buses [JInt 2])"
proof -
  have "fst (find_free_pcie_slot demo_machine ''qmp.sock'' 3 (JList [JInt 2]) (idle_node, [])) = Inr (Some 1)" by code_simp
  then obtain s' where "find_free_pcie_slot demo_machine ''qmp.sock'' 3 (JList [JInt 2]) (idle_node, []) = (Inr (Some 1), s')"
    by (metis prod.collapse)
  from chosen_slot_is_highest_free [OF this]
  obtain response buses where r: "fst (qmp_client demo_machine ''qmp.sock'' ''query-pci'' JNull (idle_node, [])) = Inr (Inr response)"
      "jget0 response ''return'' = JList buses"
      "int 1 < 3 \<and> int 1 \<notin> slots_in_use buses [JInt 2] \<and> (\<forall>j. int 1 < j \<and> j < 3 \<longrightarrow> j \<in> slots_in_use buses [JInt 2])"
    by auto
  moreover have "fst (qmp_client demo_machine ''qmp.sock'' ''query-pci'' JNull (idle_node, [])) = Inr (Inr demo_pci)" by code_simp
  ultimately show ?thesis by auto
qed

end
