(* ===== verification/Node_Steps.thy ===== *)
theory Node_Steps
  imports Node_Limits Interfaces
begin

text \<open>
  Requests on the interfaces of running nodes as a step relation: whatever requests run, with
  whatever failures, records keep their type, locks are given back, a request for one node leaves
  the others alone, and an attachment is only ever removed by a request that knows its generation.
\<close>

section \<open>Requests\<close>

type_synonym node_world = "node_state \<times> call list"

inductive attaches :: "string \<Rightarrow> int \<Rightarrow> int \<Rightarrow> int \<Rightarrow> rt_error + json \<Rightarrow> node_world \<Rightarrow> node_world \<Rightarrow> bool"
  for lab n w i v s s' where
  attach_docker: "attach_docker_interface ev lab n w i b s = (v, s') \<Longrightarrow> attaches lab n w i v s s'"
| attach_qemu: "attach_qemu_interface ev lab n w i b model mac s = (v, s') \<Longrightarrow> attaches lab n w i v s s'"

inductive detaches :: "string \<Rightarrow> int \<Rightarrow> int \<Rightarrow> int option \<Rightarrow> rt_error + detach_result \<Rightarrow> node_world \<Rightarrow> node_world \<Rightarrow> bool"
  for lab n i x v s s' where
  detach_docker: "detach_docker_interface ev lab n i x s = (v, s') \<Longrightarrow> detaches lab n i x v s s'"
| detach_qemu: "detach_qemu_interface ev lab n i x s = (v, s') \<Longrightarrow> detaches lab n i x v s s'"

inductive node_step :: "node_world \<Rightarrow> node_world \<Rightarrow> bool" where
  \<comment> \<open>one request, in an environment of its own\<close>
  step_attach: "0 \<le> n \<Longrightarrow> attaches lab n w i v s s' \<Longrightarrow> node_step s s'"
| step_detach: "0 \<le> n \<Longrightarrow> detaches lab n i x v s s' \<Longrightarrow> node_step s s'"

inductive_cases node_stepE: "node_step s s'"

definition records_ok :: "node_state \<Rightarrow> bool" where
  "records_ok st \<longleftrightarrow> (\<forall>lab n. 0 \<le> n \<longrightarrow> node_ok lab n st)"

definition world_ok :: "node_world \<Rightarrow> bool" where
  "world_ok s \<longleftrightarrow> records_ok (fst s) \<and> counts_ok (locks_of (fst s))"

lemma attach_step:
  assumes "attaches lab n w i v s s'" and "node_ok lab n (fst s)" and "counts_ok (locks_of (fst s))"
  shows "attach_outcome lab n i w (fst s) v (fst s') \<and> same_locks (fst s) (fst s')"
  using assms(1)
proof cases
  case (attach_docker ev b)
  then show ?thesis using attach_docker_outcome [OF assms(2)] by (metis prod.collapse)
next
  case (attach_qemu ev b model mac)
  then show ?thesis using attach_qemu_outcome [OF assms(2,3)] by (metis prod.collapse)
qed

lemma detach_step:
  assumes "detaches lab n i x v s s'" and "node_ok lab n (fst s)" and "counts_ok (locks_of (fst s))"
  shows "(\<exists>d \<in> {0, 1}. detach_outcome_any lab n i d x (fst s) v (fst s')) \<and> same_locks (fst s) (fst s')"
  using assms(1)
proof cases
  case (detach_docker ev)
  then have "detach_outcome lab n i 0 x (fst s) v (fst s') \<and> same_locks (fst s) (fst s')"
    using detach_docker_outcome [OF assms(2)] by (metis prod.collapse)
  then show ?thesis by (auto simp: detach_outcome_any_def)
next
  case (detach_qemu ev)
  then have "detach_outcome_any lab n i 1 x (fst s) v (fst s') \<and> same_locks (fst s) (fst s')"
    using detach_qemu_outcome [OF assms(2,3)] by (metis prod.collapse)
  then show ?thesis by auto
qed

section \<open>Other nodes\<close>

lemma last_separator:
  assumes "c \<notin> set a" and "c \<notin> set b"
  shows "xs @ c # a = ys @ c # b \<longleftrightarrow> xs = ys \<and> a = b"
proof
  assume eq: "xs @ c # a = ys @ c # b"
  have "takeWhile (\<lambda>x. x \<noteq> c) (rev (zs @ c # d)) = rev d" if "c \<notin> set d" for zs d
  proof -
    have "\<And>x. x \<in> set (rev d) \<Longrightarrow> x \<noteq> c" using that by auto
    then have "takeWhile (\<lambda>x. x \<noteq> c) (rev d @ c # rev zs) = rev d @ takeWhile (\<lambda>x. x \<noteq> c) (c # rev zs)"
      by (rule takeWhile_append2)
    then show ?thesis by simp
  qed
  from this [OF assms(1), of xs] this [OF assms(2), of ys] show "xs = ys \<and> a = b" using eq by simp
qed simp

lemma dec_int_no_colon: "CHR '':'' \<notin> set (dec_int n)"
proof -
  have "\<not> is_digit CHR '':''" by code_simp
  then show ?thesis using dec_int_chars [of n] by (auto simp: list_all_iff)
qed

lemma runtime_key_eq: "runtime_key lab n = runtime_key lab' n' \<longleftrightarrow> lab = lab' \<and> n = n'"
  using last_separator [OF dec_int_no_colon dec_int_no_colon, of lab n lab' n'] by (simp add: runtime_key_def)

lemma state_file_eq:
  assumes "0 \<le> n" and "0 \<le> n'"
  shows "state_file lab (dec_int n) = state_file lab' (dec_int n') \<longleftrightarrow> lab = lab' \<and> n = n'"
  using last_separator [OF minus_notin_dec minus_notin_dec, of lab "nat n" lab' "nat n'"] assms
  by (simp add: state_file_def eq_nat_nat_iff)

definition other_view :: "string \<Rightarrow> int \<Rightarrow> node_state \<Rightarrow> json option \<times> json option option" where
  \<comment> \<open>the registered record and the state file of a node\<close>
  "other_view lab n st = (obj_get (ns_registry st) (runtime_key lab n), obj_get (ns_files st) (state_file lab (dec_int n)))"

definition own_name :: "string \<Rightarrow> int \<Rightarrow> json \<Rightarrow> bool" where
  \<comment> \<open>the record carries the node's name, if any\<close>
  "own_name lab n r \<longleftrightarrow> jfind r ''lab_id'' \<in> {None, Some (JStr lab)} \<and> jfind r ''node_id'' \<in> {None, Some (JInt n)}"

definition frame :: "string \<Rightarrow> int \<Rightarrow> string \<Rightarrow> int \<Rightarrow> json option \<times> json option option \<Rightarrow> node_state \<Rightarrow> bool" where
  \<comment> \<open>the records of the one node carry its name; the other node is as given\<close>
  "frame lab n lab' n' o' st \<longleftrightarrow> 0 \<le> n \<and> 0 \<le> n' \<and> (lab, n) \<noteq> (lab', n') \<and> other_view lab' n' st = o' \<and>
     (\<forall>r. obj_get (ns_registry st) (runtime_key lab n) = Some r \<longrightarrow> own_name lab n r) \<and>
     (\<forall>r. obj_get (ns_files st) (state_file lab (dec_int n)) = Some (Some r) \<longrightarrow> own_name lab n r)"

lemma frame_upd [simp]:
  "frame lab n lab' n' o' (st\<lparr>ns_qmp := q\<rparr>) = frame lab n lab' n' o' st"
  "frame lab n lab' n' o' (st\<lparr>ns_node_locks := l\<rparr>) = frame lab n lab' n' o' st"
  "frame lab n lab' n' o' (st\<lparr>ns_mutexes := m\<rparr>) = frame lab n lab' n' o' st"
  "frame lab n lab' n' o' (st\<lparr>ns_labs := d\<rparr>) = frame lab n lab' n' o' st"
  "frame lab n lab' n' o' (st\<lparr>ns_warnings := w\<rparr>) = frame lab n lab' n' o' st"
  by (simp_all add: frame_def other_view_def)

lemma frame_registry:
  "frame lab n lab' n' o' st \<Longrightarrow> own_name lab n r \<Longrightarrow> frame lab n lab' n' o' (st\<lparr>ns_registry := obj_set (runtime_key lab n) r (ns_registry st)\<rparr>)"
  by (auto simp: frame_def other_view_def runtime_key_eq)

lemma frame_file:
  "frame lab n lab' n' o' st \<Longrightarrow> own_name lab n r \<Longrightarrow> frame lab n lab' n' o' (st\<lparr>ns_files := obj_set (state_file lab (dec_int n)) (Some r) (ns_files st)\<rparr>)"
  by (auto simp: frame_def other_view_def state_file_eq simp del: dec_int_nonneg)

lemma frame_load [rt_rules]: "rt_inv (frame lab n lab' n' o') (load_record lab n)"
  unfolding rt_inv_def load_record_def
  by (auto simp: rt_defs rt_modify_def frame_def other_view_def runtime_key_eq split: option.splits)

lemma frame_delete [rt_rules]: "rt_inv (frame lab n lab' n' o') (delete_runtime lab n)"
  by (auto simp: rt_inv_def delete_runtime_def rt_modify_def frame_def other_view_def runtime_key_eq state_file_eq simp del: dec_int_nonneg)


definition named_edit :: "'a edit \<Rightarrow> bool" where
  "named_edit f \<longleftrightarrow> (\<forall>lab n r. own_name lab n r \<longrightarrow> own_name lab n (snd (f r)))"

lemma named_jset [simp]: "k \<noteq> ''lab_id'' \<Longrightarrow> k \<noteq> ''node_id'' \<Longrightarrow> own_name lab n (jset k v r) = own_name lab n r"
  by (auto simp: own_name_def)

lemma named_edits [rt_rules]:
  "named_edit (bump_interface_attach_generation i)" "named_edit (drop_docker_attachment k h)" "named_edit (drop_first_entry i)"
  "named_edit (reserve_slot k)" "named_edit (release_slot slot)"
  by (auto simp: named_edit_def bump_interface_attach_generation_def drop_docker_attachment_def drop_first_entry_def drop_name_def
      reserve_slot_def release_slot_def Let_def jdefault_def split: sum.splits option.splits)

lemma named_edits_field [rt_rules]:
  assumes "field = ''veth_host_ends'' \<or> field = ''tap_names''"
  shows "named_edit (drop_name field x)" "named_edit (add_attachment e field x)"
  using assms by (auto simp: named_edit_def drop_name_def add_attachment_def Let_def split: sum.splits)

lemma frame_edit [rt_rules]: "named_edit f \<Longrightarrow> rt_inv (frame lab n lab' n' o') (rt_edit lab n f)"
  unfolding rt_inv_def
proof (intro allI impI)
  fix st tr
  assume f: "named_edit f" and fr: "frame lab n lab' n' o' st"
  define r0 where "r0 = (case obj_get (ns_registry st) (runtime_key lab n) of Some r \<Rightarrow> r | None \<Rightarrow> JObj [])"
  have "own_name lab n r0" using fr by (auto simp: r0_def frame_def own_name_def split: option.split)
  then have "own_name lab n (snd (f r0))" using f by (simp add: named_edit_def)
  then have "frame lab n lab' n' o' (st\<lparr>ns_registry := obj_set (runtime_key lab n) (snd (f r0)) (ns_registry st)\<rparr>)"
    using fr by (rule frame_registry [rotated])
  then show "frame lab n lab' n' o' (fst (snd (rt_edit lab n f (st, tr))))"
    by (auto simp: rt_edit_def r0_def [symmetric] rt_defs split: prod.split sum.split)
qed

lemma frame_persist [rt_rules]:
  assumes "\<And>x. rt_inv (frame lab n lab' n' o') (k x)"
  shows "rt_inv (frame lab n lab' n' o') (rt_bind (rt_current lab n) (\<lambda>r. rt_bind (persist_runtime ev r) k))"
proof -
  have p: "rt_inv (frame lab n lab' n' o') (persist_runtime ev r)" if r: "own_name lab n r" for r
    using r by (auto simp: rt_inv_def persist_runtime_def own_name_def rt_modify_def rt_raise_def Let_def split: option.split
        intro!: frame_file [unfolded own_name_def])
  show ?thesis unfolding rt_inv_def
  proof (intro allI impI)
    fix st tr
    assume fr: "frame lab n lab' n' o' st"
    define r0 where "r0 = (case obj_get (ns_registry st) (runtime_key lab n) of Some r \<Rightarrow> r | None \<Rightarrow> JObj [])"
    have "own_name lab n r0" using fr by (auto simp: r0_def frame_def own_name_def split: option.split)
    then have "rt_inv (frame lab n lab' n' o') (rt_bind (persist_runtime ev r0) k)" using p assms by (intro rt_inv_bind)
    moreover have cur: "rt_bind (rt_current lab n) f (st, tr) = f r0 (st, tr)" for f :: "json \<Rightarrow> 'b node"
      by (simp add: rt_bind_def rt_current_def rt_read_def r0_def)
    ultimately show "frame lab n lab' n' o' (fst (snd (rt_bind (rt_current lab n) (\<lambda>r. rt_bind (persist_runtime ev r) k) (st, tr))))"
      using fr unfolding rt_inv_def cur by blast
  qed
qed


lemma frame_qmp [rt_rules]:
  "rt_inv (frame lab n lab' n' o') (qmp_client ev path cmd args)" "rt_inv (frame lab n lab' n' o') (qmp_command ev path cmd args)"
proof -
  show c: "rt_inv (frame lab n lab' n' o') (qmp_client ev path cmd args)"
    by (simp add: rt_inv_def qmp_client_def Let_def)
  show "rt_inv (frame lab n lab' n' o') (qmp_command ev path cmd args)"
    unfolding qmp_command_def by (auto intro!: rt_rules c split: sum.splits qmp_error.splits)
qed

lemma frame_node_mutex [rt_rules]:
  assumes "rt_inv (frame lab n lab' n' o') m"
  shows "rt_inv (frame lab n lab' n' o') (with_node_mutex ev lab2 n2 m)"
  unfolding rt_inv_def
proof (intro allI impI)
  fix st tr
  assume h: "frame lab n lab' n' o' st"
  show "frame lab n lab' n' o' (fst (snd (with_node_mutex ev lab2 n2 m (st, tr))))"
  proof (cases "node_lock (nv_thread ev) (lab2, n2) (ns_node_locks st)")
    case (Some l)
    obtain v st1 tr1 where m: "m (st\<lparr>ns_node_locks := l\<rparr>, tr) = (v, st1, tr1)" by (cases "m (st\<lparr>ns_node_locks := l\<rparr>, tr)") auto
    then have "frame lab n lab' n' o' st1" using rt_invD [OF assms m] h by simp
    then show ?thesis by (simp add: with_node_mutex_def Some m)
  qed (simp add: with_node_mutex_def rt_raise_def h)
qed

lemma frame_iface_mutex:
  assumes "rt_inv (frame lab n lab' n' o') m"
  shows "rt_inv (frame lab n lab' n' o') (with_iface_mutex ev lab2 n2 i m)"
  unfolding rt_inv_def
proof (intro allI impI)
  fix st tr
  assume h: "frame lab n lab' n' o' st"
  show "frame lab n lab' n' o' (fst (snd (with_iface_mutex ev lab2 n2 i m (st, tr))))"
  proof (cases "mutex_lock (nv_thread ev) (lab2, n2, i) (ns_mutexes st)")
    case (Some l)
    obtain v st1 tr1 where m: "m (st\<lparr>ns_mutexes := l\<rparr>, tr) = (v, st1, tr1)" by (cases "m (st\<lparr>ns_mutexes := l\<rparr>, tr)") auto
    then have "frame lab n lab' n' o' st1" using rt_invD [OF assms m] h by simp
    then show ?thesis by (simp add: with_iface_mutex_def Some m)
  qed (simp add: with_iface_mutex_def rt_raise_def h)
qed

lemma frame_common [rt_rules]:
  "rt_inv (frame lab n lab' n' o') (runtime_record ev lab n b)" "rt_inv (frame lab n lab' n' o') (assert_held lab2 n2 i)"
  "rt_inv (frame lab n lab' n' o') (resolve_bridge h lab2 w bb)" "rt_inv (frame lab n lab' n' o') (resolve_runtime_driver ev lab2 w)"
  "rt_inv (frame lab n lab' n' o') (named_or y d)"
  "rt_inv (frame lab n lab' n' o') (attach_docker_interface_initial h lab2 n2 p i br dr prov)"
proof -
  show "rt_inv (frame lab n lab' n' o') (runtime_record ev lab n b)"
    unfolding runtime_record_def by (auto intro!: rt_rules rt_inv_keeps [OF alive_keeps] split: option.split)
qed (auto intro!: rt_inv_keeps rt_rules)

lemma frame_commit [rt_rules]:
  assumes "field = ''veth_host_ends'' \<or> field = ''tap_names''"
  shows "rt_inv (frame lab n lab' n' o') (commit_attachment ev lab n i entry field name)"
  unfolding commit_attachment_def using assms by (intro rt_rules) auto

lemma frame_docker:
  "rt_inv (frame lab n lab' n' o') (attach_docker_interface ev lab n w i b)"
  "rt_inv (frame lab n lab' n' o') (detach_docker_interface ev lab n i x)"
  unfolding attach_docker_interface_def attach_docker_interface_locked_def attach_docker_running_def attach_docker_new_def
    detach_docker_interface_def detach_docker_interface_locked_def when_fresh_def detach_docker_kernel_def
  by (rule frame_iface_mutex, auto intro!: rt_rules rt_inv_keeps [OF rt_keeps_each] split: option.split sum.split prod.split)+


lemma frame_attach_qemu: "rt_inv (frame lab n lab' n' o') (attach_qemu_interface ev lab n w i b model mac)"
proof -
  have plug: "rt_inv (frame lab n lab' n' o') (plug ev path i slot tap bridge driver model mac)" for path slot tap bridge driver model mac
    unfolding plug_def plug_qmp_def qmp_checked_def drop_tap_def Let_def by (auto intro!: rt_rules)
  have boot: "rt_inv (frame lab n lab' n' o') (attach_boot_nic ev path i tap bridge driver)" for path tap bridge driver
    unfolding attach_boot_nic_def Let_def by (auto intro!: rt_rules)
  have pick: "rt_inv (frame lab n lab' n' o') (pick_slot ev path m rec)" for path m rec
    unfolding pick_slot_def find_free_pcie_slot_def
    by (auto intro!: rt_rules split: sum.splits qmp_error.splits json.splits option.splits rt_error.splits)
  have mod: "rt_inv (frame lab n lab' n' o') (rt_modify (\<lambda>st. st\<lparr>ns_labs := d\<rparr>))" for d
    by (simp add: rt_inv_def rt_modify_def)
  have put: "rt_inv (frame lab n lab' n' o') (persist_planned_mac ev lab n i mac)" for mac
    unfolding persist_planned_mac_def by (auto intro!: rt_rules mod split: option.splits)
  show ?thesis
    unfolding attach_qemu_interface_def attach_qemu_interface_locked_def attach_qemu_interface_inner_def attach_qemu_running_def attach_qemu_new_def
      record_card_def hot_plug_def resolve_qemu_nic_model_def resolve_qemu_planned_mac_def
    by (rule frame_iface_mutex, auto intro!: rt_rules plug boot pick put split: option.splits sum.splits)
qed

lemma frame_detach_qemu: "rt_inv (frame lab n lab' n' o') (detach_qemu_interface ev lab n i x)"
proof -
  have gone: "rt_inv (frame lab n lab' n' o') (qemu_device_gone ev path dev)" for path dev
    unfolding qemu_device_gone_def by (auto intro!: rt_rules split: json.splits)
  have wait: "rt_inv (frame lab n lab' n' o') (wait_visible k ev path dev)" "rt_inv (frame lab n lab' n' o') (wait_gone k ev path dev)" for k path dev
    by (induction k) (auto intro!: rt_rules gone)
  have warn: "rt_inv (frame lab n lab' n' o') (publish_node_warning lab n i)"
    by (simp add: rt_inv_def publish_node_warning_def rt_modify_def)
  have "rt_inv (frame lab n lab' n' o') (unplug ev lab n path i tap)" for path tap
    unfolding unplug_def device_del_def unplug_host_def Let_def
    by (auto intro!: rt_rules wait warn split: option.splits)
  then show ?thesis
    unfolding detach_qemu_interface_def detach_qemu_interface_locked_def detach_qemu_interface_inner_def detach_qemu_found_def drop_card_def forget_card_def
      when_fresh_def Let_def
    by (intro frame_iface_mutex) (auto intro!: rt_rules split: option.splits)
qed


lemma node_ok_view:
  "node_ok lab n st \<longleftrightarrow> (case other_view lab n st of (r, f) \<Rightarrow>
     (case r of None \<Rightarrow> True | Some r \<Rightarrow> record_ok lab n r) \<and>
     (case f of None \<Rightarrow> True | Some None \<Rightarrow> False | Some (Some r) \<Rightarrow> record_ok lab n r))"
  by (simp add: node_ok_def other_view_def)

lemma node_record_view: "other_view lab n st' = other_view lab n st \<Longrightarrow> node_record lab n st' = node_record lab n st"
  by (simp add: other_view_def node_record_def registered_def cong: option.case_cong)

lemma record_own_name: "record_ok lab n r \<Longrightarrow> own_name lab n r"
  by (simp add: record_ok_def own_name_def)

lemma spared:
  assumes "rt_inv (frame lab n lab' n' (other_view lab' n' (fst s))) m" and "m s = (v, s')" and "node_ok lab n (fst s)"
    and "0 \<le> n" and "0 \<le> n'" and "(lab, n) \<noteq> (lab', n')"
  shows "other_view lab' n' (fst s') = other_view lab' n' (fst s)"
proof -
  have "frame lab n lab' n' (other_view lab' n' (fst s)) (fst s)"
    using assms(3-6) unfolding frame_def node_ok_def by (auto intro: record_own_name simp del: dec_int_nonneg split: option.splits)
  moreover have "m (fst s, snd s) = (v, fst s', snd s')" using assms(2) by simp
  ultimately have "frame lab n lab' n' (other_view lab' n' (fst s)) (fst s')" using rt_invD [OF assms(1)] by blast
  then show ?thesis by (simp add: frame_def)
qed

lemma attach_spares:
  assumes "attaches lab n w i v s s'" and "node_ok lab n (fst s)" and "0 \<le> n" and "0 \<le> n'" and "(lab, n) \<noteq> (lab', n')"
  shows "other_view lab' n' (fst s') = other_view lab' n' (fst s)"
  using assms(1) by cases (auto intro: spared [OF frame_docker(1) _ assms(2-5)] spared [OF frame_attach_qemu _ assms(2-5)])

lemma detach_spares:
  assumes "detaches lab n i x v s s'" and "node_ok lab n (fst s)" and "0 \<le> n" and "0 \<le> n'" and "(lab, n) \<noteq> (lab', n')"
  shows "other_view lab' n' (fst s') = other_view lab' n' (fst s)"
  using assms(1) by cases (auto intro: spared [OF frame_docker(2) _ assms(2-5)] spared [OF frame_detach_qemu _ assms(2-5)])

text \<open>
  C26. A request on the interfaces of one node, successful or not, leaves the registered record and
  the state file of every other node, of the same lab or another, as they were.
\<close>
theorem requests_spare_other_nodes:
  assumes "attaches lab n w i v s s' \<or> detaches lab n i x v2 s s'" and "node_ok lab n (fst s)"
    and "0 \<le> n" and "0 \<le> n'" and "(lab, n) \<noteq> (lab', n')"
  shows "obj_get (ns_registry (fst s')) (runtime_key lab' n') = obj_get (ns_registry (fst s)) (runtime_key lab' n')
    \<and> obj_get (ns_files (fst s')) (state_file lab' (dec_int n')) = obj_get (ns_files (fst s)) (state_file lab' (dec_int n'))"
proof -
  have "other_view lab' n' (fst s') = other_view lab' n' (fst s)"
    using assms(1) attach_spares [OF _ assms(2-5)] detach_spares [OF _ assms(2-5)] by blast
  then show ?thesis by (simp add: other_view_def)
qed

section \<open>Types and locks\<close>

lemma same_locks_counts: "same_locks st st' \<Longrightarrow> counts_ok (locks_of st') = counts_ok (locks_of st)"
  by (simp add: same_locks_def counts_ok_def locks_of_def)

lemma request_ok:
  assumes "node_ok lab n (fst s')" and "\<And>lab' n'. 0 \<le> n' \<Longrightarrow> (lab, n) \<noteq> (lab', n') \<Longrightarrow> other_view lab' n' (fst s') = other_view lab' n' (fst s)"
    and "same_locks (fst s) (fst s')" and "world_ok s"
  shows "world_ok s'"
proof -
  have "node_ok lab' n' (fst s')" if "0 \<le> n'" for lab' n'
  proof (cases "(lab, n) = (lab', n')")
    case False
    then show ?thesis using assms(2) [OF that False] assms(4) that by (simp add: world_ok_def records_ok_def node_ok_view)
  qed (use assms(1) in simp)
  then show ?thesis using assms(3,4) same_locks_counts by (auto simp: world_ok_def records_ok_def)
qed

lemma world_okD: "world_ok s \<Longrightarrow> 0 \<le> n \<Longrightarrow> node_ok lab n (fst s)" "world_ok s \<Longrightarrow> counts_ok (locks_of (fst s))"
  by (simp_all add: world_ok_def records_ok_def)

lemma outcome_ok:
  "attach_outcome lab n i w st v st' \<Longrightarrow> node_ok lab n st'" "detach_outcome_any lab n i d x st r st' \<Longrightarrow> node_ok lab n st'"
  by (auto simp: attach_outcome_def detach_outcome_any_def detach_outcome_def)

lemma node_step_ok:
  assumes "node_step s s'" and "world_ok s"
  shows "world_ok s' \<and> same_locks (fst s) (fst s')"
  using assms(1)
proof cases
  case (step_attach n lab w i v)
  note ok = world_okD(1) [where lab=lab, OF assms(2) step_attach(1)] world_okD(2) [OF assms(2)]
  have "node_ok lab n (fst s')" "same_locks (fst s) (fst s')"
    using attach_step [OF step_attach(2) ok] outcome_ok(1) [of lab n i w "fst s" v "fst s'"] by simp_all
  then show ?thesis using request_ok [OF _ attach_spares [OF step_attach(2) ok(1) step_attach(1)] _ assms(2)] by simp
next
  case (step_detach n lab i x v)
  note ok = world_okD(1) [where lab=lab, OF assms(2) step_detach(1)] world_okD(2) [OF assms(2)]
  have "node_ok lab n (fst s')" "same_locks (fst s) (fst s')"
    using detach_step [OF step_detach(2) ok] by (auto dest: outcome_ok(2))
  then show ?thesis using request_ok [OF _ detach_spares [OF step_detach(2) ok(1) step_detach(1)] _ assms(2)] by simp
qed

text \<open>
  Records keep their type whatever requests run: after any sequence of attachments and
  removals on any nodes, in any environments and with any failures, every registered record and
  every state file is a record of its node with numbers where numbers belong and one attachment
  per interface, and the locks held are those held before.
\<close>
theorem requests_keep_record_types:
  assumes "node_step\<^sup>*\<^sup>* s s'" and "world_ok s"
  shows "world_ok s' \<and> same_locks (fst s) (fst s')"
  using assms
proof (induction rule: rtranclp_induct)
  case (step t u)
  then show ?case using node_step_ok [of t u] by (auto simp: same_locks_def)
qed simp


section \<open>The interface table\<close>

text \<open>
  C5. An attachment, to a container or to a virtual machine, refines one update of the node's
  interface table. A reply means that the interface was already on the network, or that it was free,
  is on the network now, has the next generation, which the reply carries, and that the state file
  holds the new record. An error leaves the table as it was, or there is no record any more, or
  only writing the state file failed.
\<close>
theorem attachment_refines_table:
  assumes "attaches lab n w i v s s'" and "node_ok lab n (fst s)" and "counts_ok (locks_of (fst s))"
  shows "case v of
      Inr e \<Rightarrow> \<exists>t. node_nics lab n (fst s) = Some t \<and>
        (nic_net t i = Some w \<and> node_nics lab n (fst s') = Some t \<or>
         nic_net t i = None \<and> node_nics lab n (fst s') = Some (nic_attached i w t) \<and>
         int_field ''attach_generation'' e = Some (nic_gen t i + 1) \<and>
         obj_get (ns_files (fst s')) (state_file lab (dec_int n)) = Some (node_record lab n (fst s')))
    | Inl x \<Rightarrow> node_nics lab n (fst s') = node_nics lab n (fst s) \<or> node_nics lab n (fst s') = None \<or>
        x = RtHost OSError \<and> (\<exists>t. node_nics lab n (fst s) = Some t \<and> nic_net t i = None \<and>
                                   node_nics lab n (fst s') = Some (nic_attached i w t))"
  using conjunct1 [OF attach_step [OF assms]] unfolding attach_outcome_def by (rule conjunct2)

text \<open>
  C6. A removal refines the inverse update of the table, by kind of the request: taking a container's
  interface off keeps its generation, taking a card out of a virtual machine moves it to the next one.
  When the interface is reported as removed, it was attached, a generation that was presented was the
  current one, the interface is free now, the generation is the one the reply carries, and the state
  file holds the new record. The answers that it is absent or that the token is stale leave the table
  as it was. So does every error except one: when writing the state file fails, the record may have
  the interface removed already.
\<close>
theorem removal_refines_table:
  assumes "detach_docker_interface ev lab n i x s = (v, s') \<and> d = 0 \<or> detach_qemu_interface ev lab n i x s = (v, s') \<and> d = 1"
    and "node_ok lab n (fst s)" and "counts_ok (locks_of (fst s))"
  shows "case v of
      Inr (Detached how name g) \<Rightarrow> \<exists>t. node_nics lab n (fst s) = Some t \<and> nic_net t i \<noteq> None \<and> g = nic_gen t i + d \<and>
        x \<in> {None, Some (nic_gen t i)} \<and> node_nics lab n (fst s') = Some (nic_detached i d t) \<and>
        obj_get (ns_files (fst s')) (state_file lab (dec_int n)) = Some (node_record lab n (fst s'))
    | Inr r \<Rightarrow> node_nics lab n (fst s') = node_nics lab n (fst s)
    | Inl e \<Rightarrow> node_nics lab n (fst s') = node_nics lab n (fst s) \<or>
        e = RtHost OSError \<and> (\<exists>t. node_nics lab n (fst s) = Some t \<and> nic_net t i \<noteq> None \<and>
          x \<in> {None, Some (nic_gen t i)} \<and> node_nics lab n (fst s') = Some (nic_detached i d t))"
proof -
  have "detach_outcome_any lab n i d x (fst s) v (fst s')"
    using assms(1) detach_docker_outcome [OF assms(2)] detach_qemu_outcome [OF assms(2,3)]
    unfolding detach_outcome_any_def by (metis prod.collapse)
  then show ?thesis unfolding detach_outcome_any_def detach_outcome_def
    by (cases v) (auto split: detach_result.splits)
qed

section \<open>Generation tokens\<close>

definition gen_of :: "string \<Rightarrow> int \<Rightarrow> int \<Rightarrow> node_world \<Rightarrow> int option" where
  "gen_of lab n i s = map_option (\<lambda>t. nic_gen t i) (node_nics lab n (fst s))"

lemma view_nics: "other_view lab n st' = other_view lab n st \<Longrightarrow> node_nics lab n st' = node_nics lab n st"
  unfolding node_nics_def by (drule node_record_view) simp

lemma attach_gen:
  assumes "attach_outcome lab n i w st v st'" and "node_nics lab n st = Some t" and "node_nics lab n st' = Some t'"
  shows "t' = t \<or> t' = nic_attached i w t"
  using assms by (auto simp: attach_outcome_def split: sum.splits)

lemma detach_gen:
  assumes "detach_outcome_any lab n i d x st v st'" and "node_nics lab n st = Some t" and "node_nics lab n st' = Some t'"
  shows "t' = t \<or> t' = nic_detached i d t"
  using assms by (auto simp: detach_outcome_any_def detach_outcome_def split: sum.splits detach_result.splits)

lemma step_gen:
  assumes "node_step s s'" and "world_ok s" and "0 \<le> n" and "gen_of lab n i s = Some g" and "gen_of lab n i s' = Some g'"
  shows "g \<le> g'"
proof -
  obtain t t' where t: "node_nics lab n (fst s) = Some t" "g = nic_gen t i" "node_nics lab n (fst s') = Some t'" "g' = nic_gen t' i"
    using assms(4,5) by (auto simp: gen_of_def)
  from assms(1) show ?thesis
  proof cases
    case (step_attach m lab1 w j v)
    note ok = world_okD(1) [OF assms(2) step_attach(1)] world_okD(2) [OF assms(2)]
    show ?thesis
    proof (cases "(lab1, m) = (lab, n)")
      case True
      then show ?thesis using attach_gen conjunct1 [OF attach_step [OF step_attach(2) ok]] t
        by (fastforce simp: nic_attached_def)
    next
      case False
      then show ?thesis using view_nics [OF attach_spares [OF step_attach(2) ok(1) step_attach(1) assms(3)]] t by auto
    qed
  next
    case (step_detach m lab1 j x v)
    note ok = world_okD(1) [OF assms(2) step_detach(1)] world_okD(2) [OF assms(2)]
    show ?thesis
    proof (cases "(lab1, m) = (lab, n)")
      case True
      then obtain d where d: "d \<in> {0, 1}" "detach_outcome_any lab n j d x (fst s) v (fst s')"
        using detach_step [OF step_detach(2) ok] by auto
      then have "t' = t \<or> t' = nic_detached j d t" using detach_gen t by blast
      then show ?thesis using d(1) t by (auto simp: nic_detached_def)
    next
      case False
      then show ?thesis using view_nics [OF detach_spares [OF step_detach(2) ok(1) step_detach(1) assms(3)]] t by auto
    qed
  qed
qed

interpretation tokens: generations "\<lambda>s. world_ok s \<and> 0 \<le> n" "gen_of lab n i" node_step for lab n i
  by unfold_locales (auto dest: node_step_ok step_gen)

definition live_run :: "string \<Rightarrow> int \<Rightarrow> node_world \<Rightarrow> node_world \<Rightarrow> bool" where
  \<comment> \<open>requests on any nodes along which the node keeps having a record\<close>
  "live_run lab n = (\<lambda>s s'. node_step s s' \<and> node_record lab n (fst s') \<noteq> None)\<^sup>*\<^sup>*"

lemma live_run_known: "live_run lab n = (\<lambda>s s'. node_step s s' \<and> gen_of lab n i s' \<noteq> None)\<^sup>*\<^sup>*"
  by (simp add: live_run_def gen_of_def node_nics_def)

definition attached_fresh :: "string \<Rightarrow> int \<Rightarrow> int \<Rightarrow> json \<Rightarrow> node_world \<Rightarrow> node_world \<Rightarrow> bool" where
  \<comment> \<open>a request that attached an interface that was free, and its reply\<close>
  "attached_fresh lab n i e s s' \<longleftrightarrow>
     (\<exists>w. attaches lab n w i (Inr e) s s') \<and> (\<exists>t. node_nics lab n (fst s) = Some t \<and> nic_net t i = None)"

lemma fresh_gen:
  assumes "attached_fresh lab n i e s s'" and "world_ok s" and "0 \<le> n"
  shows "\<exists>w t. node_nics lab n (fst s) = Some t \<and> nic_net t i = None \<and> node_nics lab n (fst s') = Some (nic_attached i w t)
    \<and> int_field ''attach_generation'' e = Some (nic_gen t i + 1) \<and> node_step s s' \<and> node_ok lab n (fst s')"
proof -
  obtain w t where w: "attaches lab n w i (Inr e) s s'" "node_nics lab n (fst s) = Some t" "nic_net t i = None"
    using assms(1) by (auto simp: attached_fresh_def)
  have "attach_outcome lab n i w (fst s) (Inr e) (fst s')" "node_ok lab n (fst s')"
    using outcome_ok(1) attach_step [OF w(1) world_okD(1) [OF assms(2,3)] world_okD(2) [OF assms(2)]] by blast+
  then show ?thesis using w node_step.step_attach [OF assms(3) w(1)] by (auto simp: attach_outcome_def)
qed

text \<open>
  C7. Within the life of one record, a token of an earlier attachment never removes a newer one: take
  the generation a successful hot attachment returned, let any hot attachments and removals on any nodes
  run while the node keeps its record, let the interface be attached anew, and again any such requests
  run. A removal that presents the old generation then leaves the attachments of the node as they are.
  A record that is deleted and made again counts from the start, and the reconciliation of a running
  machine sets generations from the lab file; neither is among these requests, and after either the promise ends.
\<close>
theorem stale_token_spares_newer_attachment:
  assumes "world_ok s" and "0 \<le> n"
    and "attached_fresh lab n i e s s1" and "int_field ''attach_generation'' e = Some g" and "live_run lab n s1 s2"
    and "attached_fresh lab n i e' s2 s3" and "live_run lab n s3 s4"
    and "detaches lab n i (Some g) v s4 s5"
  shows "node_nics lab n (fst s5) = node_nics lab n (fst s4) \<and> (\<nexists>how name g'. v = Inr (Detached how name g'))"
proof -
  obtain w t where t: "node_nics lab n (fst s1) = Some (nic_attached i w t)" "g = nic_gen t i + 1" "node_step s s1"
    using fresh_gen [OF assms(3,1,2)] assms(4) by auto
  have s1: "world_ok s1 \<and> 0 \<le> n" "gen_of lab n i s1 = Some g"
    using node_step_ok [OF t(3) assms(1)] assms(2) t by (auto simp: gen_of_def nic_attached_def)
  have s2: "world_ok s2" using tokens.known_mono [OF assms(5) [unfolded live_run_known [where i=i]] s1] by blast
  obtain w' t' where t': "node_nics lab n (fst s2) = Some t'" "node_nics lab n (fst s3) = Some (nic_attached i w' t')" "node_step s2 s3"
    using fresh_gen [OF assms(6) s2 assms(2)] by auto
  obtain g' where g': "world_ok s4" "gen_of lab n i s4 = Some g'" "g < g'"
    using tokens.stale_token [OF s1 assms(5) [unfolded live_run_known [where i=i]] t'(3) _ assms(7) [unfolded live_run_known [where i=i]]] t'(1,2)
    by (auto simp: gen_of_def nic_attached_def)
  obtain d where "detach_outcome_any lab n i d (Some g) (fst s4) v (fst s5)"
    using detach_step [OF assms(8) world_okD(1) [OF g'(1) assms(2)] world_okD(2) [OF g'(1)]] by blast
  then show ?thesis using g'(2,3)
    by (auto simp: detach_outcome_any_def detach_outcome_def gen_of_def split: sum.splits detach_result.splits)
qed

text \<open>
  C36. An attachment to a container is undone by removing it with the generation it returned: the
  removal is never taken for stale or absent, and when it succeeds every interface is attached as
  it was before.
\<close>
theorem detach_undoes_attach:
  assumes "world_ok s" and "0 \<le> n" and "attached_fresh lab n i e s s1" and "int_field ''attach_generation'' e = Some g"
    and "detach_docker_interface ev lab n i (Some g) s1 = (Inr r, s2)"
  shows "\<exists>how name t t2. r = Detached how name g \<and> node_nics lab n (fst s) = Some t \<and> node_nics lab n (fst s2) = Some t2
    \<and> nic_net t2 = nic_net t"
proof -
  obtain w t where t: "node_nics lab n (fst s) = Some t" "nic_net t i = None" "node_nics lab n (fst s1) = Some (nic_attached i w t)"
      "g = nic_gen t i + 1" "node_ok lab n (fst s1)"
    using fresh_gen [OF assms(3,1,2)] assms(4) by auto
  have "detach_outcome lab n i 0 (Some g) (fst s1) (Inr r) (fst s2)"
    using detach_docker_outcome [OF t(5)] assms(5) by (metis prod.collapse)
  then show ?thesis using t
    by (auto simp: detach_outcome_def nic_attached_def nic_detached_def split: detach_result.splits)
qed


section \<open>Witnesses\<close>

definition demo_container :: json where
  "demo_container = JObj [(''lab_id'', JStr ''lab''), (''node_id'', JInt 1), (''kind'', JStr ''docker''), (''pid'', JInt 42),
     (''container_name'', JStr ''c1'')]"

definition demo_nodes :: node_world where
  "demo_nodes = (idle_node\<lparr>ns_registry := [(''lab:1'', demo_container)]\<rparr>, [])"

definition demo_attached :: node_world where
  "demo_attached = snd (attach_docker_interface demo_machine ''lab'' 1 5 0 ''br'' demo_nodes)"

definition demo_detached :: node_world where
  "demo_detached = snd (detach_docker_interface demo_machine ''lab'' 1 0 (Some 1) demo_attached)"

definition demo_renewed :: node_world where
  "demo_renewed = snd (attach_docker_interface demo_machine ''lab'' 1 6 0 ''br'' demo_detached)"

lemma demo_key: "''lab:1'' = runtime_key ''lab'' 1"
  by code_simp

lemma demo_nodes_ok: "world_ok demo_nodes"
proof -
  have "record_ok ''lab'' 1 demo_container"
    by (simp add: record_ok_def demo_container_def list_field_def gens_ok_def jfind_def)
  then have "node_ok lab n (fst demo_nodes)" for lab n
    by (auto simp: node_ok_def demo_nodes_def idle_node_def demo_key runtime_key_eq)
  then show ?thesis
    by (simp add: world_ok_def records_ok_def counts_ok_def locks_of_def demo_nodes_def idle_node_def)
qed

definition demo_reply :: "int \<Rightarrow> int \<Rightarrow> json" where
  "demo_reply w g = docker_attachment 0 w ''br'' (projr (veth_host_name demo_cfg ''lab'' 1 0)) g"

lemma demo_attach: "attach_docker_interface demo_machine ''lab'' 1 5 0 ''br'' demo_nodes = (Inr (demo_reply 5 1), demo_attached)"
proof -
  have "fst (attach_docker_interface demo_machine ''lab'' 1 5 0 ''br'' demo_nodes) = Inr (demo_reply 5 1)" by code_simp
  then show ?thesis by (simp add: demo_attached_def prod_eq_iff)
qed


lemma demo_detach: "\<exists>name. detach_docker_interface demo_machine ''lab'' 1 0 (Some 1) demo_attached = (Inr (Detached Clean name 1), demo_detached)"
proof -
  have "fst (detach_docker_interface demo_machine ''lab'' 1 0 (Some 1) demo_attached)
      = Inr (Detached Clean (projr (veth_host_name demo_cfg ''lab'' 1 0)) 1)" by code_simp
  then show ?thesis by (simp add: demo_detached_def prod_eq_iff)
qed

lemma demo_renew: "attach_docker_interface demo_machine ''lab'' 1 6 0 ''br'' demo_detached = (Inr (demo_reply 6 2), demo_renewed)"
proof -
  have "fst (attach_docker_interface demo_machine ''lab'' 1 6 0 ''br'' demo_detached) = Inr (demo_reply 6 2)" by code_simp
  then show ?thesis by (simp add: demo_renewed_def prod_eq_iff)
qed

lemma demo_generation: "int_field ''attach_generation'' (demo_reply w g) = Some g"
  by (simp add: demo_reply_def)

lemma demo_fresh:
  "attached_fresh ''lab'' 1 0 (demo_reply 5 1) demo_nodes demo_attached"
  "attached_fresh ''lab'' 1 0 (demo_reply 6 2) demo_detached demo_renewed"
proof -
  have f: "map_option (\<lambda>t. nic_net t 0) (node_nics ''lab'' 1 (fst demo_nodes)) = Some None"
    "map_option (\<lambda>t. nic_net t 0) (node_nics ''lab'' 1 (fst demo_detached)) = Some None" by code_simp+
  then show "attached_fresh ''lab'' 1 0 (demo_reply 5 1) demo_nodes demo_attached"
    "attached_fresh ''lab'' 1 0 (demo_reply 6 2) demo_detached demo_renewed"
    using attach_docker [OF demo_attach] attach_docker [OF demo_renew] by (auto simp: attached_fresh_def)
qed

lemma demo_step: "node_step demo_attached demo_detached"
proof -
  obtain name where "detach_docker_interface demo_machine ''lab'' 1 0 (Some 1) demo_attached = (Inr (Detached Clean name 1), demo_detached)"
    using demo_detach by blast
  from step_detach [OF zero_le_one detach_docker [OF this]] show ?thesis .
qed

lemma demo_live: "live_run ''lab'' 1 demo_attached demo_detached"
proof -
  note demo_step
  moreover have "node_record ''lab'' 1 (fst demo_detached) \<noteq> None" by code_simp
  ultimately show ?thesis unfolding live_run_def by blast
qed

theorem requests_spare_other_nodes_witness:
  "obj_get (ns_registry (fst demo_attached)) (runtime_key ''lab'' 2) = None
    \<and> obj_get (ns_files (fst demo_attached)) (state_file ''lab'' (dec_int 2)) = None"
proof -
  have "attaches ''lab'' 1 5 0 (Inr (demo_reply 5 1)) demo_nodes demo_attached" by (rule attach_docker [OF demo_attach])
  from requests_spare_other_nodes [OF disjI1 [OF this] world_okD(1) [OF demo_nodes_ok], of 2 "''lab''"]
  show ?thesis by (simp add: demo_nodes_def idle_node_def demo_key runtime_key_eq)
qed

theorem requests_keep_record_types_witness:
  "world_ok demo_renewed \<and> node_record ''lab'' 1 (fst demo_renewed) \<noteq> None"
proof
  have "node_step demo_nodes demo_attached" "node_step demo_detached demo_renewed"
    using step_attach [OF _ attach_docker [OF demo_attach]] step_attach [OF _ attach_docker [OF demo_renew]] by simp_all
  with demo_step have "node_step\<^sup>*\<^sup>* demo_nodes demo_renewed" by (blast intro: rtranclp.rtrancl_into_rtrancl)
  then show "world_ok demo_renewed" using requests_keep_record_types demo_nodes_ok by blast
  show "node_record ''lab'' 1 (fst demo_renewed) \<noteq> None" by code_simp
qed

theorem stale_token_spares_newer_attachment_witness:
  "\<exists>v s. detach_docker_interface demo_machine ''lab'' 1 0 (Some 1) demo_renewed = (v, s) \<and> v = Inr (StaleNoop 1 2)
     \<and> node_nics ''lab'' 1 (fst s) = node_nics ''lab'' 1 (fst demo_renewed)"
proof -
  let ?r = "detach_docker_interface demo_machine ''lab'' 1 0 (Some 1) demo_renewed"
  have "fst ?r = Inr (StaleNoop 1 2)" by code_simp
  moreover have "detaches ''lab'' 1 0 (Some 1) (fst ?r) demo_renewed (snd ?r)" by (rule detach_docker) simp
  moreover have "live_run ''lab'' 1 demo_renewed demo_renewed" by (simp add: live_run_def)
  ultimately show ?thesis
    using stale_token_spares_newer_attachment [OF demo_nodes_ok _ demo_fresh(1) demo_generation demo_live demo_fresh(2)]
    by (metis prod.collapse zero_le_one)
qed

theorem detach_undoes_attach_witness:
  "\<exists>t t2. node_nics ''lab'' 1 (fst demo_nodes) = Some t \<and> node_nics ''lab'' 1 (fst demo_detached) = Some t2 \<and> nic_net t2 = nic_net t"
proof -
  obtain name where "detach_docker_interface demo_machine ''lab'' 1 0 (Some 1) demo_attached = (Inr (Detached Clean name 1), demo_detached)"
    using demo_detach by blast
  from detach_undoes_attach [OF demo_nodes_ok _ demo_fresh(1) demo_generation this] show ?thesis by auto
qed

theorem attachment_refines_table_witness:
  "\<exists>t. node_nics ''lab'' 1 (fst demo_nodes) = Some t \<and> node_nics ''lab'' 1 (fst demo_attached) = Some (nic_attached 0 5 t)"
proof -
  have "attaches ''lab'' 1 5 0 (Inr (demo_reply 5 1)) demo_nodes demo_attached" by (rule attach_docker [OF demo_attach])
  from attachment_refines_table [OF this world_okD(1) [OF demo_nodes_ok] world_okD(2) [OF demo_nodes_ok]]
  show ?thesis using demo_fresh(1) by (auto simp: attached_fresh_def)
qed

theorem removal_refines_table_witness:
  "\<exists>t. node_nics ''lab'' 1 (fst demo_attached) = Some t \<and> node_nics ''lab'' 1 (fst demo_detached) = Some (nic_detached 0 0 t)"
proof -
  obtain name where "detach_docker_interface demo_machine ''lab'' 1 0 (Some 1) demo_attached = (Inr (Detached Clean name 1), demo_detached)"
    using demo_detach by blast
  moreover have "world_ok demo_attached"
    using conjunct1 [OF node_step_ok [OF step_attach [OF zero_le_one attach_docker [OF demo_attach]] demo_nodes_ok]] .
  ultimately show ?thesis
    using removal_refines_table [of demo_machine "''lab''" 1 0 "Some 1" demo_attached _ demo_detached 0] world_okD by fastforce
qed

end
