(* ===== verification/Node_Slots.thy ===== *)
theory Node_Slots
  imports Node_Steps
begin

text \<open>
  The slots of a machine's cards: no two cards of a record are in one slot and every slot of a card
  is reserved, whatever requests run; a hot add that fails gives its slot and its TAP back.
\<close>

section \<open>Slots of a record\<close>

definition slot_list :: "json \<Rightarrow> int list" where
  "slot_list r = map (\<lambda>v. case v of JInt j \<Rightarrow> j | _ \<Rightarrow> 0) (the (list_field ''allocated_slots'' r))"

definition card_slots :: "json list \<Rightarrow> int list" where
  "card_slots es = List.map_filter (int_field ''slot'') es"

definition cards_apart :: "json \<Rightarrow> bool" where
  \<comment> \<open>no slot has two cards, and the slots of cards are reserved\<close>
  "cards_apart r \<longleftrightarrow> distinct (card_slots (attachments r)) \<and> set (card_slots (attachments r)) \<subseteq> set (slot_list r)"

definition slots_ok :: "string \<Rightarrow> int \<Rightarrow> node_state \<Rightarrow> bool" where
  "slots_ok lab n st \<longleftrightarrow>
     (\<forall>r. obj_get (ns_registry st) (runtime_key lab n) = Some r \<longrightarrow> cards_apart r) \<and>
     (\<forall>r. obj_get (ns_files st) (state_file lab (dec_int n)) = Some (Some r) \<longrightarrow> cards_apart r)"

lemma slot_list_field: "record_ok lab n r \<Longrightarrow> list_field ''allocated_slots'' r = Some (map JInt (slot_list r))"
proof -
  assume "record_ok lab n r"
  then obtain ss where "list_field ''allocated_slots'' r = Some (map JInt ss)" by (auto simp: record_ok_def)
  then show ?thesis by (simp add: slot_list_def comp_def)
qed

lemma slot_list_cong: "jfind r' ''allocated_slots'' = jfind r ''allocated_slots'' \<Longrightarrow> slot_list r' = slot_list r"
  by (simp add: slot_list_def list_field_def)

lemma slot_list_jset [simp]:
  "k \<noteq> ''allocated_slots'' \<Longrightarrow> slot_list (jset k v r) = slot_list r"
  "slot_list (jset ''allocated_slots'' (JList (map JInt ss)) r) = ss"
  by (simp_all add: slot_list_def list_field_def comp_def)

lemma card_slots_simps [simp]:
  "card_slots [] = []" "card_slots (es @ fs) = card_slots es @ card_slots fs"
  "card_slots (e # es) = (case int_field ''slot'' e of None \<Rightarrow> card_slots es | Some k \<Rightarrow> k # card_slots es)"
  by (simp_all add: card_slots_def List.map_filter_def split: option.split)

lemma apart_without:
  assumes "distinct (card_slots (xs @ e # ys))"
  shows "distinct (card_slots (xs @ ys))"
    and "set (card_slots (xs @ ys)) = set (card_slots (xs @ e # ys)) - {k. int_field ''slot'' e = Some k}"
  using assms by (auto split: option.splits)

lemma slots_ok_registers: "slots_ok lab n st \<Longrightarrow> registers lab n st r st' \<Longrightarrow> cards_apart r \<Longrightarrow> slots_ok lab n st'"
  by (auto simp: slots_ok_def registers_def)

lemma slots_ok_view: "other_view lab n st' = other_view lab n st \<Longrightarrow> slots_ok lab n st' = slots_ok lab n st"
  by (simp add: slots_ok_def other_view_def)

lemma slots_ok_upd [simp]:
  "slots_ok lab n (st\<lparr>ns_qmp := q\<rparr>) = slots_ok lab n st" "slots_ok lab n (st\<lparr>ns_node_locks := l\<rparr>) = slots_ok lab n st"
  "slots_ok lab n (st\<lparr>ns_mutexes := m\<rparr>) = slots_ok lab n st" "slots_ok lab n (st\<lparr>ns_labs := d\<rparr>) = slots_ok lab n st"
  by (simp_all add: slots_ok_def)

lemma slots_ok_record: "slots_ok lab n st \<Longrightarrow> node_record lab n st = Some r \<Longrightarrow> cards_apart r"
  by (auto simp: slots_ok_def node_record_def registered_def split: option.splits if_splits)

lemma slots_ok_loaded:
  assumes "slots_ok lab n st"
  shows "slots_ok lab n (loaded lab n st)"
proof (cases "node_record lab n st")
  case (Some r)
  then show ?thesis using slots_ok_record [OF assms Some] assms by (simp add: loaded_def slots_ok_def)
qed (use assms in \<open>simp add: loaded_def\<close>)

lemma slots_ok_none:
  assumes "node_record lab n st = None" and "node_ok lab n st"
  shows "slots_ok lab n st"
proof -
  have "obj_get (ns_registry st) (runtime_key lab n) = None"
    using assms(1) registered_ok [OF assms(2)] by (auto simp: node_record_def split: option.splits)
  moreover from this have "registered lab n st = None" by (simp add: registered_def)
  then have "obj_get (ns_files st) (state_file lab (dec_int n)) \<noteq> Some (Some r)" for r
    using assms record_truthy [of lab n r] by (auto simp: node_record_def node_ok_def split: option.splits if_splits)
  ultimately show ?thesis by (simp add: slots_ok_def)
qed

definition cards_of :: "json \<Rightarrow> json list \<times> int list" where
  "cards_of r = (attachments r, slot_list r)"

lemma has_cards_ok:
  assumes "has_obs cards_of lab n (es, ss) (ns_files st) st1" and "slots_ok lab n st"
    and "distinct (card_slots es)" and "set (card_slots es) \<subseteq> set ss"
  shows "slots_ok lab n st1"
  using assms by (auto simp: has_obs_def slots_ok_def cards_of_def cards_apart_def)

section \<open>Edits\<close>

lemma commit_slots:
  assumes "record_ok lab n r" and "obj_get (ns_registry st) (runtime_key lab n) = Some r"
    and "find (\<lambda>x. index_of x = i) (attachments r) = None"
    and "\<And>g. entry_ok (entry g)" "\<And>g. int_field ''interface_index'' (entry g) = Some i"
    and "field = ''veth_host_ends'' \<or> field = ''tap_names''"
    and run: "commit_attachment ev lab n i entry field name (st, tr) = (v, st', tr')"
  shows "\<exists>r' g. registers lab n st r' st' \<and> attachments r' = attachments r @ [entry g] \<and> slot_list r' = slot_list r"
proof -
  note D = record_okD [OF assms(1)]
  let ?g = "generation r i + 1"
  obtain r1 where b: "bump_interface_attach_generation i r = (Inr ?g, r1)" "gens_ok r1" "is_obj r1"
      "\<And>k. k \<noteq> ''interface_runtime'' \<Longrightarrow> jfind r1 k = jfind r k"
    using bump_ok [OF D(7,1), of i] by blast
  note r1 = record_ok_cong [OF assms(1) b(3,4,2)]
  have idx: "index_of (entry ?g) = i" using assms(5) by (simp add: index_of_def)
  obtain r2 where a: "add_attachment (entry ?g) field name r1 = (Inr (), r2)" "record_ok lab n r2"
      "attachments r2 = attachments r1 @ [entry ?g]"
    using add_attachment_ok [OF r1(1) assms(4) [of ?g] _ assms(6)] assms(3) idx r1(2) by auto
  have "slot_list r2 = slot_list r1"
    using a(1) assms(6) by (auto simp: add_attachment_def Let_def split: sum.splits)
  then show ?thesis
    using run a r1(2) slot_list_cong [of r1 r] b(4)
    by (intro exI [of _ r2] exI [of _ ?g])
      (auto simp: commit_attachment_def rt_bind_def rt_edit_ok [where r=r and f="bump_interface_attach_generation i", OF assms(2) b(1)] rt_edit_ok [where r=r1]
        rt_py_def rt_ret_def rt_current_def rt_read_def persist_ok registers_def split: if_splits)
qed


lemma attach_running_slots:
  assumes ok: "node_ok lab n st" and s: "slots_ok lab n st"
    and run: "rt_bind (runtime_record ev lab n False)
       (\<lambda>r. case r of None \<Rightarrow> rt_raise e0 | Some runtime \<Rightarrow> go runtime) (st, tr) = (v, st', tr')"
    and go: "\<And>r tr. node_record lab n st = Some r \<Longrightarrow> go r (loaded lab n st, tr) = (v, st', tr') \<Longrightarrow> slots_ok lab n st'"
  shows "slots_ok lab n st'"
  using run
proof (cases rule: rt_bind_cases)
  case (failed e)
  from ok failed(1) show ?thesis
    by (cases rule: runtime_record_cases) (auto simp: slots_ok_loaded [OF s])
next
  case (went_on x s1)
  obtain st1 tr1 where s1: "s1 = (st1, tr1)" by (cases s1)
  from ok went_on(1) [unfolded s1] show ?thesis
  proof (cases rule: runtime_record_cases)
    case none
    then show ?thesis using went_on(2) slots_ok_none by (auto simp: s1 rt_raise_def)
  qed (use went_on(2) go s1 in auto)
qed

lemma commit_apart:
  assumes ok: "record_ok lab n r" and r: "obj_get (ns_registry st1) (runtime_key lab n) = Some r"
    and "find (\<lambda>x. index_of x = i) (attachments r) = None"
    and "\<And>g. entry_ok (entry g)" "\<And>g. int_field ''interface_index'' (entry g) = Some i"
    and "field = ''veth_host_ends'' \<or> field = ''tap_names''"
    and slot: "\<And>g. int_field ''slot'' (entry g) = slot" "\<And>k. slot = Some k \<Longrightarrow> k \<notin> set (card_slots (attachments r)) \<and> k \<in> set (slot_list r)"
    and ap: "cards_apart r" and s: "slots_ok lab n st1"
    and run: "commit_attachment ev lab n i entry field name (st1, tr) = (v, st', tr')"
  shows "slots_ok lab n st'"
proof -
  obtain r' g where r': "registers lab n st1 r' st'" "attachments r' = attachments r @ [entry g]" "slot_list r' = slot_list r"
    using commit_slots [OF assms(1-6) run] by blast
  have "cards_apart r'" using ap slot by (auto simp: cards_apart_def r'(2,3) split: option.splits)
  then show ?thesis using slots_ok_registers [OF s r'(1)] by blast
qed

lemma docker_slot [simp]: "int_field ''slot'' (docker_attachment i w b h g) = None"
  by (simp add: docker_attachment_def int_field_def jget_def)

lemma attach_docker_slots:
  assumes ok: "node_ok lab n st" and s: "slots_ok lab n st"
    and run: "attach_docker_interface_locked ev lab n w i b (st, tr) = (v, st', tr')"
  shows "slots_ok lab n st'"
proof (rule rt_keptE [OF run [unfolded attach_docker_interface_locked_def] resolve_keeps(3)])
  fix x tr1
  assume "rt_bind (runtime_record ev lab n False) (\<lambda>r. case r of None \<Rightarrow> rt_raise (RtNode ''not running (no runtime record)'')
         | Some runtime \<Rightarrow> attach_docker_running ev lab n w i b runtime) (st, tr1) = (v, st', tr')"
  then show ?thesis
  proof (rule attach_running_slots [OF ok s])
    fix r tr2
    assume r: "node_record lab n st = Some r" and g: "attach_docker_running ev lab n w i b r (loaded lab n st, tr2) = (v, st', tr')"
    note rok = node_record_ok [OF ok r] and l = slots_ok_loaded [OF s]
    show "slots_ok lab n st'"
    proof (cases "find (\<lambda>e. index_of e = i) (attachments r)")
      case None
      from g None consider "st' = loaded lab n st"
        | "attach_docker_new ev lab n w i b (jget0 r ''pid'') (loaded lab n st, tr2) = (v, st', tr')"
        by (auto simp: attach_docker_running_def already_attached_ok [OF rok] rt_raise_def split: if_splits)
      then show ?thesis
      proof cases
        case 2
        from attach_docker_new_commits [OF 2] show ?thesis
        proof (elim disjE exE)
          fix bridge h tr3
          assume "commit_attachment ev lab n i (docker_attachment i w bridge h) ''veth_host_ends'' h (loaded lab n st, tr3) = (v, st', tr')"
          then show ?thesis
            by (rule commit_apart [where slot=None, OF rok loaded_gets [OF r] None _ _ _ _ _ slots_ok_record [OF s r] l, rotated 5]) simp_all
        qed (simp add: l)
      qed (simp add: l)
    next
      case (Some e)
      then show ?thesis using g l
        by (auto simp: attach_docker_running_def already_attached_ok [OF rok] rt_raise_def rt_ret_def split: if_splits)
    qed
  qed
qed (simp add: s)

section \<open>Hot add\<close>

lemma reserve_slot_ok:
  assumes "record_ok lab n r" and "int k \<notin> set (slot_list r)"
  shows "reserve_slot k r = (Inr (), jset ''allocated_slots'' (JList (map JInt (slot_list r @ [int k]))) r)"
proof -
  have "slots_of r = Inr (map JInt (slot_list r))"
    using record_okD(1) [OF assms(1)] slot_list_field [OF assms(1)] by (simp add: slots_of_def entries_of_ok)
  moreover have "\<not> list_ex (\<lambda>s. py_eq s (JInt (int k))) (map JInt (slot_list r))" using assms(2) by (auto simp: list_ex_iff)
  ultimately show ?thesis by (simp add: reserve_slot_def)
qed

lemma release_slot_ok:
  assumes "record_ok lab n r"
  shows "release_slot (JInt k) r = (Inr (), jset ''allocated_slots'' (JList (map JInt (filter (\<lambda>j. j \<noteq> k) (slot_list r)))) r)"
proof -
  let ?ss = "slot_list r"
  have ss: "slots_of r = Inr (map JInt ?ss)"
    using record_okD(1) [OF assms(1)] slot_list_field [OF assms(1)] by (simp add: slots_of_def entries_of_ok)
  have "mapr (\<lambda>s. bindr (py_int s) (\<lambda>j. Inr (s, j))) (map JInt ss) = Inr (map (\<lambda>j. (JInt j, j)) ss)" for ss
    by (induction ss) simp_all
  moreover have "map fst (filter (\<lambda>(s, j). j \<noteq> k) (map (\<lambda>j. (JInt j, j)) ss)) = map JInt (filter (\<lambda>j. j \<noteq> k) ss)" for ss
    by (induction ss) auto
  ultimately show ?thesis using ss by (cases ?ss) (auto simp: release_slot_def)
qed

lemma slot_edit_cards:
  assumes "has_obs cards_of lab n (es, ss) fs st"
    and "\<And>r. record_ok lab n r \<Longrightarrow> slot_list r = ss \<Longrightarrow> f r = (Inr (), jset ''allocated_slots'' (JList (map JInt ss')) r)"
  shows "\<exists>st1. rt_edit lab n f (st, tr) = (Inr (), st1, tr) \<and> has_obs cards_of lab n (es, ss') fs st1"
proof -
  obtain r where r: "ns_files st = fs" "obj_get (ns_registry st) (runtime_key lab n) = Some r" "record_ok lab n r" "attachments r = es" "slot_list r = ss"
    using assms(1) by (auto simp: has_obs_def cards_of_def)
  note f = assms(2) [OF r(3,5)]
  show ?thesis using r record_ok_slots [OF r(3)] rt_edit_ok [where r=r and f=f, OF r(2) f]
    by (auto simp: rt_py_def rt_ret_def has_obs_def cards_of_def)
qed


lemma obs_inv: "rt_inv (has_obs obs lab n t fs) m \<Longrightarrow> has_obs obs lab n t fs st \<Longrightarrow> m (st, tr) = (v, st', tr') \<Longrightarrow> has_obs obs lab n t fs st'"
  by (rule rt_invD)

definition hot_plug_inside ::
    "node_env \<Rightarrow> string \<Rightarrow> int \<Rightarrow> string \<Rightarrow> int \<Rightarrow> string \<Rightarrow> string \<Rightarrow> string option \<Rightarrow> string \<Rightarrow> string \<Rightarrow> json \<Rightarrow> int \<Rightarrow> nat node" where
  \<comment> \<open>the part of a hot add that runs under the node mutex\<close>
  "hot_plug_inside ev lab n path i tap bridge driver model mac runtime m =
     rt_bind (pick_slot ev path m runtime) (\<lambda>slot.
     rt_bind (rt_edit lab n (reserve_slot slot)) (\<lambda>_.
     rt_bind (undoing (plug ev path i slot tap bridge driver model mac) (rt_edit lab n (release_slot (JInt (int slot))))) (\<lambda>_.
       rt_ret slot)))"

lemma pick_slot_free:
  assumes "pick_slot ev path m runtime (st, tr) = (Inr k, s')" and "record_ok lab n runtime"
  shows "int k \<notin> set (slot_list runtime)"
proof -
  obtain s1 where f: "find_free_pcie_slot ev path m (jget0 runtime ''allocated_slots'') (st, tr) = (Inr (Some k), s1)"
    using assms(1) by (auto simp: pick_slot_def rt_bind_def rt_try_def rt_raise_def rt_ret_def split: prod.splits sum.splits rt_error.splits option.splits)
  have jor0: "jor JNull (JList []) = jor (JList []) (JList [])" by (simp add: jor_def)
  have none: "find_free_pcie_slot ev path m JNull = find_free_pcie_slot ev path m (JList [])"
    unfolding find_free_pcie_slot_def jor0 ..
  obtain buses where "Some k = highest_free (slots_in_use buses (map JInt (slot_list runtime))) (nat m)"
  proof (cases "jfind runtime ''allocated_slots''")
    case None
    then have "slot_list runtime = []" "find_free_pcie_slot ev path m (JList []) (st, tr) = (Inr (Some k), s1)"
      using f none by (simp_all add: slot_list_def list_field_def jget_def)
    then show thesis using free_slot_cases that by (metis list.map(1))
  next
    case (Some v)
    then have "jget0 runtime ''allocated_slots'' = JList (map JInt (slot_list runtime))"
      using slot_list_field [OF assms(2)] by (auto simp: list_field_def jget_def split: json.splits)
    then show thesis using free_slot_cases that f by metis
  qed
  then have "int k \<notin> slots_in_use buses (map JInt (slot_list runtime))" by (metis highest_free_Some)
  then show ?thesis by (auto simp: slots_in_use_def int_or_skip_def)
qed

lemma table_pick: "rt_inv (has_obs obs lab n t f) (pick_slot ev path m runtime)"
  unfolding pick_slot_def find_free_pcie_slot_def
  by (auto intro!: rt_rules split: option.splits rt_error.splits sum.splits qmp_error.splits json.splits)

lemma inside_slots:
  assumes h: "has_obs cards_of lab n (es, slot_list runtime) fs st" and ok: "record_ok lab n runtime"
    and run: "hot_plug_inside ev lab n path i tap bridge driver model mac runtime m (st, tr) = (v, st', tr')"
  shows "case v of
      Inl e \<Rightarrow> has_obs cards_of lab n (es, slot_list runtime) fs st'
    | Inr k \<Rightarrow> int k \<notin> set (slot_list runtime) \<and> has_obs cards_of lab n (es, slot_list runtime @ [int k]) fs st'"
  using run [unfolded hot_plug_inside_def]
proof (cases rule: rt_bind_cases)
  case (failed e)
  then show ?thesis using obs_inv [OF table_pick h failed(1)] by simp
next
  case (went_on k s1)
  obtain st1 tr1 where s1: "s1 = (st1, tr1)" by (cases s1)
  let ?ss = "slot_list runtime"
  have k: "int k \<notin> set ?ss" using pick_slot_free [OF went_on(1) ok] .
  have h1: "has_obs cards_of lab n (es, ?ss) fs st1" using obs_inv [OF table_pick h went_on(1) [unfolded s1]] .
  obtain st2 where st2: "rt_edit lab n (reserve_slot k) (st1, tr1) = (Inr (), st2, tr1)" "has_obs cards_of lab n (es, ?ss @ [int k]) fs st2"
    using slot_edit_cards [OF h1, of "reserve_slot k" "?ss @ [int k]" tr1] reserve_slot_ok k by metis
  let ?plug = "plug ev path i k tap bridge driver model mac"
  obtain pv st3 tr3 where p: "?plug (st2, tr1) = (pv, st3, tr3)" by (cases "?plug (st2, tr1)") auto
  have h3: "has_obs cards_of lab n (es, ?ss @ [int k]) fs st3" using obs_inv [OF table_plug(3) st2(2) p] .
  have ss: "filter (\<lambda>j. j \<noteq> int k) (?ss @ [int k]) = ?ss" using k by (auto simp: filter_id_conv)
  obtain st4 where st4: "rt_edit lab n (release_slot (JInt (int k))) (st3, tr3) = (Inr (), st4, tr3)" "has_obs cards_of lab n (es, ?ss) fs st4"
    using slot_edit_cards [OF h3, of "release_slot (JInt (int k))" ?ss tr3] release_slot_ok ss by metis
  have "rt_bind (undoing ?plug (rt_edit lab n (release_slot (JInt (int k))))) (\<lambda>_. rt_ret k) (st2, tr1) = (v, st', tr')"
    using went_on(2) st2(1) by (simp add: s1 rt_bind_def)
  then show ?thesis using p h3 st4 k
    by (auto simp: undoing_def rt_try_def rt_bind_def rt_raise_def rt_ret_def split: sum.splits)
qed


lemma hot_plug_alt:
  "hot_plug ev lab n path i tap bridge driver model mac runtime =
     rt_bind (rt_py (max_nics_of runtime)) (\<lambda>m.
       with_node_mutex ev lab n (hot_plug_inside ev lab n path i tap bridge driver model mac runtime m))"
  by (simp add: hot_plug_def hot_plug_inside_def)

lemma hot_plug_slots:
  assumes h: "has_obs cards_of lab n (es, slot_list runtime) fs st" and ok: "record_ok lab n runtime"
    and run: "hot_plug ev lab n path i tap bridge driver model mac runtime (st, tr) = (v, st', tr')"
  shows "case v of
      Inl e \<Rightarrow> has_obs cards_of lab n (es, slot_list runtime) fs st'
    | Inr k \<Rightarrow> int k \<notin> set (slot_list runtime) \<and> has_obs cards_of lab n (es, slot_list runtime @ [int k]) fs st'"
proof (cases "max_nics_of runtime")
  case (Inl e)
  then show ?thesis using run h by (auto simp: hot_plug_alt rt_py_def rt_raise_def)
next
  case (Inr m)
  have "with_node_mutex ev lab n (hot_plug_inside ev lab n path i tap bridge driver model mac runtime m) (st, tr) = (v, st', tr')"
    using run by (simp add: hot_plug_alt rt_py_def Inr)
  then show ?thesis
  proof (cases rule: with_node_mutex_cases)
    case (inside l l' st1)
    have "has_obs cards_of lab n (es, slot_list runtime) fs (st\<lparr>ns_node_locks := l\<rparr>)" using h by simp
    from inside_slots [OF this ok inside(1)] show ?thesis by (simp add: inside(2) cong: sum.case_cong)
  qed (use h in simp)
qed

section \<open>The TAP of a failed hot add\<close>

lemma calls_extend: "rt_calls (\<lambda>_. True) m \<Longrightarrow> m (st, tr) = (v, st', tr') \<Longrightarrow> \<exists>new. tr' = tr @ new"
  unfolding rt_calls_def by (metis fst_conv snd_conv)

lemma helper_call: "run_helper h verb as tr = (r, tr') \<Longrightarrow> tr' = tr @ [Helper verb as]"
  by (auto simp: run_helper_def invoke_helper_def andthen_def ret_def split: helper_reply.splits if_splits)

definition tap_calls :: "host_env \<Rightarrow> string \<Rightarrow> call list \<Rightarrow> call list \<Rightarrow> bool" where
  \<comment> \<open>the calls of a failed hot plug after \<open>tr\<close>: none; a \<open>tap-add\<close> that failed; or one that
    the deletion of the TAP follows, with \<open>link-del\<close> after a \<open>tap-del\<close> that failed\<close>
  "tap_calls h tap tr new \<longleftrightarrow>
     new = []
     \<or> new = [Helper ''tap-add'' [tap]] \<and> isl (fst (tap_add h tap tr))
     \<or> (\<exists>mid. let before = Helper ''tap-add'' [tap] # mid in
          new = before @ Helper ''tap-del'' [tap] # (if isl (fst (tap_del h tap (tr @ before))) then [Helper ''link-del'' [tap]] else []))"

lemma try_link_del_call: "snd (try_link_del h tap tr) = tr @ [Helper ''link-del'' [tap]]"
proof -
  obtain r tr1 where d: "link_del h tap tr = (r, tr1)" by (cases "link_del h tap tr") auto
  have "tr1 = tr @ [Helper ''link-del'' [tap]]" using helper_call d by (simp add: link_del_def)
  then show ?thesis using d by (auto simp: try_link_del_def catch_def ret_def raise_def split: sum.splits)
qed

lemma drop_tap_calls:
  assumes "drop_tap h tap (st, tr) = (v, st', tr')"
  shows "tr' = tr @ Helper ''tap-del'' [tap] # (if isl (fst (tap_del h tap tr)) then [Helper ''link-del'' [tap]] else [])"
proof -
  obtain r tr1 where d: "tap_del h tap tr = (r, tr1)" by (cases "tap_del h tap tr") auto
  have tr1: "tr1 = tr @ [Helper ''tap-del'' [tap]]" using helper_call d by (simp add: tap_del_def)
  have "snd (try_link_del h tap tr1) = tr1 @ [Helper ''link-del'' [tap]]" by (rule try_link_del_call)
  then show ?thesis using assms d tr1
    by (auto simp: drop_tap_def quietly_def rt_try_def rt_bind_def rt_host_def rt_ret_def split: sum.splits prod.splits)
qed

lemma calls_qmp [rt_rules]: "rt_calls P (qmp_command ev path cmd args)"
proof -
  have "rt_calls P (qmp_client ev path cmd args)" by (simp add: rt_calls_def qmp_client_def Let_def)
  then show ?thesis unfolding qmp_command_def by (auto intro!: rt_rules split: sum.split qmp_error.split)
qed

lemma calls_undoing [rt_rules]:
  "rt_calls P m \<Longrightarrow> rt_calls P u \<Longrightarrow> rt_calls P (undoing m u)" "rt_calls P m \<Longrightarrow> rt_calls P (quietly m)"
  "rt_calls P m2 \<Longrightarrow> rt_calls P u2 \<Longrightarrow> rt_calls P (added_by m2 u2)"
  unfolding undoing_def quietly_def added_by_def by (auto intro!: rt_rules)

lemma calls_plug_qmp: "rt_calls P (plug_qmp ev path i slot tap model mac)"
  unfolding plug_qmp_def qmp_checked_def Let_def by (auto intro!: rt_rules)

lemma plug_gives_tap_back:
  assumes "plug ev path i slot tap bridge driver model mac (st, tr) = (Inl e, st', tr')"
  shows "\<exists>new. tr' = tr @ new \<and> tap_calls (nv_host ev) tap tr new"
proof -
  let ?h = "nv_host ev"
  obtain r where a: "tap_add ?h tap tr = (r, tr @ [Helper ''tap-add'' [tap]])"
    using helper_call by (cases "tap_add ?h tap tr") (auto simp: tap_add_def)
  show ?thesis
  proof (cases r)
    case (Inl x)
    then show ?thesis using assms a by (auto simp: plug_def Let_def rt_bind_def rt_host_def tap_calls_def)
  next
    case (Inr u)
    let ?m = "rt_bind (rt_host (link_master_any ?h tap bridge driver)) (\<lambda>_.
             undoing (rt_bind (rt_host (link_up ?h tap)) (\<lambda>_. plug_qmp ev path i slot tap model mac))
               (quietly (rt_host (link_set_nomaster ?h tap))))"
    let ?tr = "tr @ [Helper ''tap-add'' [tap]]"
    obtain v1 st1 tr1 where m: "?m (st, ?tr) = (v1, st1, tr1)" by (cases "?m (st, ?tr)") auto
    have run: "undoing ?m (drop_tap ?h tap) (st, ?tr) = (Inl e, st', tr')"
      using assms a Inr by (simp add: plug_def Let_def rt_bind_def [of "rt_host (tap_add ?h tap)"] rt_host_def)
    then obtain x v2 st2 where x: "v1 = Inl x" "drop_tap ?h tap (st1, tr1) = (v2, st2, tr')"
      using m by (auto simp: undoing_def rt_try_def rt_bind_def [of "drop_tap ?h tap"] rt_raise_def split: sum.splits prod.splits)
    have "rt_calls (\<lambda>_. True) ?m"
      unfolding link_master_any_def link_up_def link_set_nomaster_def link_master_def link_master_host_def
      by (intro rt_rules calls_plug_qmp emits_rules) simp_all
    from calls_extend [OF this m] obtain n1 where n1: "tr1 = ?tr @ n1" by blast
    have "tr' = tr @ (Helper ''tap-add'' [tap] # n1) @ Helper ''tap-del'' [tap]
        # (if isl (fst (tap_del ?h tap (tr @ Helper ''tap-add'' [tap] # n1))) then [Helper ''link-del'' [tap]] else [])"
      using drop_tap_calls [OF x(2)] by (simp add: n1)
    then show ?thesis unfolding tap_calls_def Let_def by blast
  qed
qed

lemma calls_none: "rt_calls (\<lambda>_. False) m \<Longrightarrow> m (st, tr) = (v, st', tr') \<Longrightarrow> tr' = tr"
proof -
  assume m: "rt_calls (\<lambda>_. False) m" and run: "m (st, tr) = (v, st', tr')"
  from m obtain new where "snd (snd (m (st, tr))) = tr @ new" "list_all (\<lambda>_. False) new" unfolding rt_calls_def by blast
  then show "tr' = tr" using run by (cases new) auto
qed

lemma calls_pick: "rt_calls P (pick_slot ev path m runtime)"
proof -
  have "rt_calls P (qmp_client ev path cmd args)" for cmd args by (simp add: rt_calls_def qmp_client_def Let_def)
  then show ?thesis unfolding pick_slot_def find_free_pcie_slot_def
    by (auto intro!: rt_rules split: option.splits rt_error.splits sum.splits qmp_error.splits json.splits)
qed

lemma inside_calls:
  assumes h: "has_obs cards_of lab n (es, slot_list runtime) fs st" and ok: "record_ok lab n runtime"
    and run: "hot_plug_inside ev lab n path i tap bridge driver model mac runtime m (st, tr) = (Inl e, st', tr')"
  shows "\<exists>new. tr' = tr @ new \<and> tap_calls (nv_host ev) tap tr new"
  using run [unfolded hot_plug_inside_def]
proof (cases rule: rt_bind_cases)
  case (failed x)
  then show ?thesis using calls_none [OF calls_pick failed(1)] by (simp add: tap_calls_def)
next
  case (went_on k s1)
  obtain st1 where s1: "s1 = (st1, tr)" using calls_none [OF calls_pick] went_on(1) by (cases s1) blast
  have k: "int k \<notin> set (slot_list runtime)" using pick_slot_free [OF went_on(1) ok] .
  have h1: "has_obs cards_of lab n (es, slot_list runtime) fs st1" using obs_inv [OF table_pick h went_on(1) [unfolded s1]] .
  obtain st2 where st2: "rt_edit lab n (reserve_slot k) (st1, tr) = (Inr (), st2, tr)"
    using slot_edit_cards [OF h1, of "reserve_slot k" "slot_list runtime @ [int k]" tr] reserve_slot_ok k by metis
  let ?plug = "plug ev path i k tap bridge driver model mac"
  obtain pv st3 tr3 where p: "?plug (st2, tr) = (pv, st3, tr3)" by (cases "?plug (st2, tr)") auto
  have e: "rt_edit lab n f (st3, tr3) = (v, st', tr'') \<Longrightarrow> tr'' = tr3" for f :: "unit edit" and v st' tr''
    by (auto simp: rt_edit_def rt_py_def rt_ret_def rt_raise_def split: prod.splits sum.splits)
  have "rt_bind (undoing ?plug (rt_edit lab n (release_slot (JInt (int k))))) (\<lambda>_. rt_ret k) (st2, tr) = (Inl e, st', tr')"
    using went_on(2) st2 by (simp add: s1 rt_bind_def)
  then obtain x where "pv = Inl x" "tr' = tr3" using p e
    by (auto simp: undoing_def rt_try_def rt_bind_def rt_raise_def rt_ret_def split: sum.splits prod.splits)
  then show ?thesis using plug_gives_tap_back p by blast
qed

text \<open>
  C11. Plugging a card into a running virtual machine, the step of a hot add before the record is
  written, gives back what it took when it fails: the attachments of the record, its reserved slots
  and the state file are what they were, and once the TAP of the card has been added, its deletion has
  been asked for after everything else, a second way when the first one is refused. (A hot add whose
  card is in and whose state file cannot be written then is another matter: it keeps card, slot and TAP.)
\<close>
theorem failed_hot_plug_gives_back:
  assumes "hot_plug ev lab n path i tap bridge driver model mac r (st, tr) = (Inl e, st', tr')"
    and "obj_get (ns_registry st) (runtime_key lab n) = Some r" and "record_ok lab n r"
  shows "\<exists>r' new. obj_get (ns_registry st') (runtime_key lab n) = Some r' \<and> attachments r' = attachments r
    \<and> slot_list r' = slot_list r \<and> ns_files st' = ns_files st
    \<and> tr' = tr @ new \<and> tap_calls (nv_host ev) tap tr new"
proof -
  have h: "has_obs cards_of lab n (attachments r, slot_list r) (ns_files st) st"
    using assms(2,3) by (simp add: has_obs_def cards_of_def)
  have "has_obs cards_of lab n (attachments r, slot_list r) (ns_files st) st'"
    using hot_plug_slots [OF h assms(3,1)] by simp
  then obtain r' where r': "obj_get (ns_registry st') (runtime_key lab n) = Some r'" "attachments r' = attachments r"
      "slot_list r' = slot_list r" "ns_files st' = ns_files st"
    by (auto simp: has_obs_def cards_of_def)
  have "\<exists>new. tr' = tr @ new \<and> tap_calls (nv_host ev) tap tr new"
  proof (cases "max_nics_of r")
    case (Inl x)
    then show ?thesis using assms(1) by (auto simp: hot_plug_alt rt_py_def rt_raise_def tap_calls_def)
  next
    case (Inr m)
    have "with_node_mutex ev lab n (hot_plug_inside ev lab n path i tap bridge driver model mac r m) (st, tr) = (Inl e, st', tr')"
      using assms(1) by (simp add: hot_plug_alt rt_py_def Inr)
    then show ?thesis
    proof (cases rule: with_node_mutex_cases)
      case (inside l l' st1)
      have "has_obs cards_of lab n (attachments r, slot_list r) (ns_files st) (st\<lparr>ns_node_locks := l\<rparr>)" using h by simp
      from inside_calls [OF this assms(3) inside(1)] show ?thesis .
    qed (simp add: tap_calls_def)
  qed
  then show ?thesis using r' by blast
qed

section \<open>Attachments keep cards apart\<close>

lemma qemu_slot [simp]: "int_field ''slot'' (qemu_attachment i w b tap s m mac g) = map_option int s"
  by (simp add: qemu_attachment_def int_field_def jget_def split: option.split)

lemma record_card_slots:
  assumes h: "has_obs cards_of lab n (es, ss) (ns_files st) st1" and s: "slots_ok lab n st"
    and es: "distinct (card_slots es)" "set (card_slots es) \<subseteq> set ss" "find (\<lambda>x. index_of x = i) es = None"
    and k: "\<And>k. slot = Some k \<Longrightarrow> int k \<in> set ss \<and> int k \<notin> set (card_slots es)"
    and run: "record_card ev lab n w i bridge tap slot model mac (st1, tr) = (v, st', tr')"
  shows "slots_ok lab n st'"
proof -
  obtain r where r: "obj_get (ns_registry st1) (runtime_key lab n) = Some r" "record_ok lab n r" "attachments r = es" "slot_list r = ss"
    using h by (auto simp: has_obs_def cards_of_def)
  have s1: "slots_ok lab n st1" by (rule has_cards_ok [OF h s es(1,2)])
  have ap: "cards_apart r" using es by (simp add: cards_apart_def r)
  have put: "slots_ok lab n st'" if "slots_ok lab n st2"
    and "rt_bind (if mac = [] then rt_ret () else quietly (persist_planned_mac ev lab n i mac)) (\<lambda>_. rt_ret e) (st2, tr2) = (v, st', tr')" for st2 tr2 e
  proof -
    have "\<exists>d. st' = st2\<lparr>ns_labs := d\<rparr>"
      using that(2)
      by (auto simp: persist_planned_mac_def quietly_def rt_bind_def rt_try_def rt_ret_def rt_read_def rt_modify_def rt_py_def
          rt_raise_def split: if_splits sum.splits option.splits prod.splits) (metis node_state.surjective node_state.update_convs(6))+
    then show ?thesis using that(1) by auto
  qed
  have commit: "slots_ok lab n st2" if "commit_attachment ev lab n i (qemu_attachment i w bridge tap slot model mac) ''tap_names'' tap (st1, tr) = (v2, st2, tr2)" for v2 st2 tr2
    by (rule commit_apart [where slot="map_option int slot", OF r(2,1) _ _ _ _ _ _ ap s1 that]) (use es(3) k in \<open>auto simp: r\<close>)
  show ?thesis using run [unfolded record_card_def]
  proof (cases rule: rt_bind_cases)
    case (failed e)
    then show ?thesis using commit by blast
  next
    case (went_on e s1)
    obtain st2 tr2 where s1: "s1 = (st2, tr2)" by (cases s1)
    show ?thesis using put commit went_on(1,2) unfolding s1 by blast
  qed
qed


lemma attach_qemu_new_slots:
  assumes ok: "record_ok lab n r" and ap: "cards_apart r" and i: "find (\<lambda>x. index_of x = i) (attachments r) = None"
    and h: "has_obs cards_of lab n (cards_of r) (ns_files st) st1" and s: "slots_ok lab n st"
    and run: "attach_qemu_new ev lab n w i b model mac path r (st1, tr) = (v, st', tr')"
  shows "slots_ok lab n st'"
proof -
  let ?es = "attachments r" and ?ss = "slot_list r"
  let ?Q = "has_obs cards_of lab n (?es, ?ss) (ns_files st)" and ?R = "\<lambda>v. slots_ok lab n"
  have es: "distinct (card_slots ?es)" "set (card_slots ?es) \<subseteq> set ?ss" using ap by (simp_all add: cards_apart_def)
  have fail: "?Q st2 \<Longrightarrow> slots_ok lab n st2" for st2 using has_cards_ok [OF _ s es] by blast
  have recorded: "slots_ok lab n st3"
    if "has_obs cards_of lab n (?es, us) (ns_files st) st2" "set (card_slots ?es) \<subseteq> set us"
      "\<And>k. slot = Some k \<Longrightarrow> int k \<in> set us \<and> int k \<notin> set (card_slots ?es)"
      "record_card ev lab n w i bridge tap slot model mac (st2, tr2) = (v, st3, tr3)" for us slot st2 tr2 st3 tr3 bridge tap model mac v
    by (rule record_card_slots [OF that(1) s es(1) that(2) i that(3,4)])
  have plugged: "rt_ends ?Q ?R (rt_bind (rt_bind (hot_plug ev lab n path i tap bridge driver model mac r) (\<lambda>slot. rt_ret (Some slot)))
      (\<lambda>slot. record_card ev lab n w i bridge tap slot model mac))" for tap bridge driver model mac
    unfolding rt_ends_def
  proof (intro allI impI)
    fix st2 tr2 v st3 tr3
    assume q: "?Q st2" and run: "rt_bind (rt_bind (hot_plug ev lab n path i tap bridge driver model mac r) (\<lambda>slot. rt_ret (Some slot)))
      (\<lambda>slot. record_card ev lab n w i bridge tap slot model mac) (st2, tr2) = (v, st3, tr3)"
    obtain pv st4 tr4 where p: "hot_plug ev lab n path i tap bridge driver model mac r (st2, tr2) = (pv, st4, tr4)"
      by (cases "hot_plug ev lab n path i tap bridge driver model mac r (st2, tr2)") auto
    note post = hot_plug_slots [OF q ok p]
    show "slots_ok lab n st3"
    proof (cases pv)
      case (Inl e)
      then show ?thesis using post fail run p by (auto simp: rt_bind_def)
    next
      case (Inr k)
      then have run4: "record_card ev lab n w i bridge tap (Some k) model mac (st4, tr4) = (v, st3, tr3)"
        using run p by (simp add: rt_bind_def rt_ret_def)
      have q4: "has_obs cards_of lab n (?es, ?ss @ [int k]) (ns_files st) st4" using post Inr by simp
      show ?thesis by (rule recorded [OF q4 _ _ run4]) (use post Inr es(2) in auto)
    qed
  qed
  have boot: "rt_ends ?Q ?R (rt_bind (rt_bind (attach_boot_nic ev path i tap bridge driver) (\<lambda>_. rt_ret None))
      (\<lambda>slot. record_card ev lab n w i bridge tap slot model mac))" for tap bridge driver model mac
    unfolding rt_ends_def
  proof (intro allI impI)
    fix st2 tr2 v st3 tr3
    assume q: "?Q st2" and run: "rt_bind (rt_bind (attach_boot_nic ev path i tap bridge driver) (\<lambda>_. rt_ret None))
      (\<lambda>slot. record_card ev lab n w i bridge tap slot model mac) (st2, tr2) = (v, st3, tr3)"
    obtain pv st4 tr4 where p: "attach_boot_nic ev path i tap bridge driver (st2, tr2) = (pv, st4, tr4)"
      by (cases "attach_boot_nic ev path i tap bridge driver (st2, tr2)") auto
    have q4: "?Q st4" using obs_inv [OF table_plug(4) q p] .
    show "slots_ok lab n st3"
    proof (cases pv)
      case (Inl e)
      then show ?thesis using fail [OF q4] run p by (auto simp: rt_bind_def)
    next
      case (Inr u)
      then have run4: "record_card ev lab n w i bridge tap None model mac (st4, tr4) = (v, st3, tr3)"
        using run p by (simp add: rt_bind_def rt_ret_def)
      show ?thesis by (rule recorded [OF q4 es(2) _ run4]) simp
    qed
  qed
  have last: "rt_ends ?Q ?R (rt_bind (if x < y
              then rt_bind (attach_boot_nic ev path i tap bridge driver) (\<lambda>_. rt_ret None)
              else rt_bind (hot_plug ev lab n path i tap bridge driver model mac r) (\<lambda>slot. rt_ret (Some slot))) (\<lambda>slot.
       record_card ev lab n w i bridge tap slot model mac))" for x y :: int and tap bridge driver model mac
    using boot plugged by simp
  have "rt_ends ?Q ?R (attach_qemu_new ev lab n w i b model mac path r)"
    unfolding attach_qemu_new_def
    by (intro last | rule rt_ends_bind | intro rt_rules | simp add: fail)+
  then show ?thesis using run h unfolding rt_ends_def cards_of_def by blast
qed

lemma attach_qemu_slots:
  assumes ok: "node_ok lab n st" and s: "slots_ok lab n st"
    and run: "attach_qemu_interface_inner ev lab n w i b model mac (st, tr) = (v, st', tr')"
  shows "slots_ok lab n st'"
proof (rule attach_running_slots [OF ok s run [unfolded attach_qemu_interface_inner_def]])
  fix r tr1
  assume r: "node_record lab n st = Some r"
    and go: "attach_qemu_running ev lab n w i b model mac r (loaded lab n st, tr1) = (v, st', tr')"
  note rok = node_record_ok [OF ok r] and l = slots_ok_loaded [OF s]
  have h: "has_obs cards_of lab n (cards_of r) (ns_files (loaded lab n st)) (loaded lab n st)"
    using loaded_gets [OF r] rok by (simp add: has_obs_def)
  show "slots_ok lab n st'"
  proof (cases "find (\<lambda>e. index_of e = i) (attachments r)")
    case None
    have new: "attach_qemu_new ev lab n w i b model mac path r (loaded lab n st, tr2) = (v, st', tr') \<Longrightarrow> slots_ok lab n st'" for path tr2
      by (rule attach_qemu_new_slots [OF rok slots_ok_record [OF s r] None h l])
    show ?thesis using go None new l
      by (auto simp: attach_qemu_running_def already_attached_ok [OF rok] rt_raise_def rt_bind_def rt_py_def rt_ret_def split: if_splits sum.splits)
  next
    case (Some e)
    then show ?thesis using go l
      by (auto simp: attach_qemu_running_def already_attached_ok [OF rok] rt_raise_def rt_bind_def rt_py_def rt_ret_def split: if_splits sum.splits)
  qed
qed


section \<open>Removals keep cards apart\<close>

lemma edit_cards:
  assumes "has_obs cards_of lab n (es, ss) fs st"
    and "\<And>r. record_ok lab n r \<Longrightarrow> attachments r = es \<Longrightarrow> slot_list r = ss \<Longrightarrow>
      \<exists>x r'. f r = (Inr x, r') \<and> record_ok lab n r' \<and> attachments r' = es' \<and> slot_list r' = ss'"
  shows "\<exists>x st1. rt_edit lab n f (st, tr) = (Inr x, st1, tr) \<and> has_obs cards_of lab n (es', ss') fs st1"
proof -
  obtain r where r: "ns_files st = fs" "obj_get (ns_registry st) (runtime_key lab n) = Some r" "record_ok lab n r" "attachments r = es" "slot_list r = ss"
    using assms(1) by (auto simp: has_obs_def cards_of_def)
  obtain x r' where f: "f r = (Inr x, r')" "record_ok lab n r'" "attachments r' = es'" "slot_list r' = ss'" using assms(2) [OF r(3-5)] by blast
  show ?thesis using r f rt_edit_ok [where r=r and f=f, OF r(2) f(1)]
    by (auto simp: rt_py_def rt_ret_def has_obs_def cards_of_def)
qed

lemma persist_cards:
  assumes h: "has_obs cards_of lab n (es, ss) (ns_files st) st1" and s: "slots_ok lab n st"
    and ap: "distinct (card_slots es)" "set (card_slots es) \<subseteq> set ss"
    and run: "rt_bind (rt_current lab n) (\<lambda>rec. rt_bind (persist_runtime ev rec) (\<lambda>_. rt_ret y)) (st1, tr) = (v, st', tr')"
  shows "slots_ok lab n st'"
proof -
  obtain r where r: "obj_get (ns_registry st1) (runtime_key lab n) = Some r" "record_ok lab n r" "attachments r = es" "slot_list r = ss"
    using h by (auto simp: has_obs_def cards_of_def)
  have s1: "slots_ok lab n st1" by (rule has_cards_ok [OF h s ap])
  have "registers lab n st1 r st'"
    using run r(1,2) by (auto simp: rt_bind_def rt_current_def rt_read_def persist_ok [OF r(2)] rt_ret_def registers_def with_record_same split: if_splits)
  then show ?thesis by (rule slots_ok_registers [OF s1]) (use ap in \<open>simp add: cards_apart_def r\<close>)
qed

lemma found_split:
  assumes "find (\<lambda>e. index_of e = i) es = Some e"
  obtains xs ys where "es = xs @ e # ys" "length (takeWhile (\<lambda>e. index_of e \<noteq> i) es) = length xs"
proof -
  let ?xs = "takeWhile (\<lambda>e. index_of e \<noteq> i) es"
  obtain ys where "dropWhile (\<lambda>e. index_of e \<noteq> i) es = e # ys"
    using assms by (auto simp: find_dropWhile comp_def split: list.splits)
  then have "es = ?xs @ e # ys" by (metis takeWhile_dropWhile_id)
  then show thesis using that by blast
qed

lemma without_card:
  assumes "record_ok lab n r" and "attachments r = xs @ e # ys" and "length (takeWhile (\<lambda>e. index_of e \<noteq> i) (attachments r)) = length xs"
    and "find (\<lambda>e. index_of e = i) (attachments r) = Some e"
  defines "r' \<equiv> jset ''interface_attachments'' (JList (xs @ ys)) r"
  shows "record_ok lab n r'" "attachments r' = xs @ ys" "slot_list r' = slot_list r"
proof -
  let ?k = "length (takeWhile (\<lambda>e. index_of e \<noteq> i) (attachments r))"
  have "take ?k (attachments r) @ drop (Suc ?k) (attachments r) = xs @ ys" unfolding assms(3) by (simp add: assms(2))
  then show "record_ok lab n r'" "attachments r' = xs @ ys"
    using removed_record(1,2) [OF assms(1,4) refl] by (simp_all add: r'_def)
  show "slot_list r' = slot_list r" by (simp add: r'_def)
qed

lemma drop_first_cards:
  assumes "record_ok lab n r" and "attachments r = xs @ e # ys" and "length (takeWhile (\<lambda>e. index_of e \<noteq> i) (attachments r)) = length xs"
    and "find (\<lambda>e. index_of e = i) (attachments r) = Some e"
  shows "drop_first_entry i r = (Inr (), jset ''interface_attachments'' (JList (xs @ ys)) r)"
    and "drop_docker_attachment (length xs) h r = drop_name ''veth_host_ends'' h (jset ''interface_attachments'' (JList (xs @ ys)) r)"
  using assms record_okD [OF assms(1)]
  by (auto simp: drop_first_entry_def drop_docker_attachment_def entries_of_ok find_entry_ok)

lemma drop_name_cards:
  assumes "record_ok lab n r" and "field = ''veth_host_ends'' \<or> field = ''tap_names''"
  shows "\<exists>r'. drop_name field name r = (Inr (), r') \<and> record_ok lab n r' \<and> attachments r' = attachments r \<and> slot_list r' = slot_list r"
proof -
  obtain r' where r': "drop_name field name r = (Inr (), r')" "record_ok lab n r'" "attachments r' = attachments r"
    using drop_name_ok [OF assms] by blast
  moreover have "slot_list r' = slot_list r" using r'(1) assms(2) by (auto simp: drop_name_def split: sum.splits)
  ultimately show ?thesis by blast
qed

lemma bump_cards:
  assumes "record_ok lab n r"
  shows "\<exists>g r'. bump_interface_attach_generation i r = (Inr g, r') \<and> record_ok lab n r' \<and> attachments r' = attachments r \<and> slot_list r' = slot_list r"
proof -
  note D = record_okD [OF assms]
  obtain r' where b: "bump_interface_attach_generation i r = (Inr (generation r i + 1), r')" "gens_ok r'" "is_obj r'"
      "\<And>k. k \<noteq> ''interface_runtime'' \<Longrightarrow> jfind r' k = jfind r k"
    using bump_ok [OF D(7,1), of i] by blast
  show ?thesis using b(1) record_ok_cong [OF assms b(3,4,2)] slot_list_cong [of r' r] b(4) by auto
qed

lemma drop_card_slots:
  assumes h: "has_obs cards_of lab n (xs @ e # ys, ss) (ns_files st) st1" and s: "slots_ok lab n st"
    and e: "length (takeWhile (\<lambda>e. index_of e \<noteq> i) (xs @ e # ys)) = length xs" "find (\<lambda>e. index_of e = i) (xs @ e # ys) = Some e" "entry_ok e"
    and ap: "distinct (card_slots (xs @ e # ys))" "set (card_slots (xs @ e # ys)) \<subseteq> set ss"
    and run: "drop_card ev lab n i boot how tap (jget0 e ''slot'') (st1, tr) = (v, st', tr')"
  shows "slots_ok lab n st'"
proof -
  let ?es = "xs @ ys" and ?slot = "jget0 e ''slot''"
  let ?ss = "if ?slot = JNull then ss else filter (\<lambda>j. int_field ''slot'' e \<noteq> Some j) ss"
  obtain st2 where st2: "rt_edit lab n (drop_first_entry i) (st1, tr) = (Inr (), st2, tr)" "has_obs cards_of lab n (?es, ss) (ns_files st) st2"
    using edit_cards [OF h, of "drop_first_entry i" ?es ss tr] drop_first_cards(1) without_card e(1,2) by (auto simp: cards_of_def)
  obtain st3 where st3: "(if how \<noteq> Forced \<and> \<not> boot then rt_edit lab n (drop_name ''tap_names'' tap) else rt_ret ()) (st2, tr) = (Inr (), st3, tr)"
      "has_obs cards_of lab n (?es, ss) (ns_files st) st3"
  proof (cases "how \<noteq> Forced \<and> \<not> boot")
    case True
    have "\<exists>x r'. drop_name ''tap_names'' tap r = (Inr x, r') \<and> record_ok lab n r' \<and> attachments r' = ?es \<and> slot_list r' = ss"
      if "record_ok lab n r" "attachments r = ?es" "slot_list r = ss" for r
      using drop_name_cards [OF that(1), of "''tap_names''" tap] that(2,3) by auto
    from edit_cards [where f="drop_name ''tap_names'' tap", OF st2(2) this] obtain u st3
      where "rt_edit lab n (drop_name ''tap_names'' tap) (st2, tr) = (Inr u, st3, tr)" "has_obs cards_of lab n (?es, ss) (ns_files st) st3" by blast
    then show thesis using True by (intro that [of st3]) simp_all
  next
    case False
    then show thesis using st2(2) by (intro that [of st2]) (auto simp: rt_ret_def)
  qed
  obtain st4 where st4: "(if ?slot = JNull then rt_ret () else rt_edit lab n (release_slot ?slot)) (st3, tr) = (Inr (), st4, tr)"
      "has_obs cards_of lab n (?es, ?ss) (ns_files st) st4"
  proof (cases "?slot = JNull")
    case False
    then obtain k where k: "?slot = JInt k" "int_field ''slot'' e = Some k" using e(3) by (auto simp: entry_ok_def int_field_Some)
    have "release_slot (JInt k) r = (Inr (), jset ''allocated_slots'' (JList (map JInt (filter (\<lambda>j. j \<noteq> k) ss))) r)"
      if "record_ok lab n r" "slot_list r = ss" for r using release_slot_ok [OF that(1), of k] that(2) by simp
    from slot_edit_cards [OF st3(2) this] obtain st4
      where "rt_edit lab n (release_slot (JInt k)) (st3, tr) = (Inr (), st4, tr)" "has_obs cards_of lab n (?es, filter (\<lambda>j. j \<noteq> k) ss) (ns_files st) st4" by blast
    moreover have "filter (\<lambda>j. int_field ''slot'' e \<noteq> Some j) ss = filter (\<lambda>j. j \<noteq> k) ss" by (rule filter_cong) (auto simp: k(2))
    ultimately show thesis by (intro that [of st4]) (simp_all add: k(1))
  qed (use st3(2) that in \<open>simp add: rt_ret_def\<close>)
  obtain g st5 where st5: "rt_edit lab n (bump_interface_attach_generation i) (st4, tr) = (Inr g, st5, tr)" "has_obs cards_of lab n (?es, ?ss) (ns_files st) st5"
  proof -
    have "\<exists>x r'. bump_interface_attach_generation i r = (Inr x, r') \<and> record_ok lab n r' \<and> attachments r' = ?es \<and> slot_list r' = ?ss"
      if "record_ok lab n r" "attachments r = ?es" "slot_list r = ?ss" for r using bump_cards [OF that(1), of i] that(2,3) by simp
    from edit_cards [where f="bump_interface_attach_generation i", OF st4(2) this] that show thesis by blast
  qed
  have "forget_card lab n i boot how tap ?slot (st1, tr) = (Inr (), st4, tr)"
    using st2(1) st3(1) st4(1) by (simp add: forget_card_def rt_bind_def)
  then have last: "rt_bind (rt_current lab n) (\<lambda>rec. rt_bind (persist_runtime ev rec) (\<lambda>_. rt_ret (Detached how tap g))) (st5, tr) = (v, st', tr')"
    using run st5(1) by (simp add: drop_card_def rt_bind_def)
  note A = apart_without [OF ap(1)]
  have "set (card_slots ?es) \<subseteq> set ?ss" using A(2) ap(2) by auto
  from persist_cards [OF st5(2) s A(1) this last] show ?thesis .
qed


lemma found_cards:
  assumes "record_ok lab n r" and "find (\<lambda>e. index_of e = i) (attachments r) = Some e"
  obtains xs ys where "attachments r = xs @ e # ys" "length (takeWhile (\<lambda>e. index_of e \<noteq> i) (attachments r)) = length xs" "entry_ok e"
proof -
  have "entry_ok e" using record_okD(5) [OF assms(1)] assms(2) by (auto simp: find_Some_iff)
  then show thesis using found_split [OF assms(2)] that by blast
qed

lemma detach_qemu_found_slots:
  assumes ok: "record_ok lab n r" and ap: "cards_apart r" and e: "find (\<lambda>e. index_of e = i) (attachments r) = Some e"
    and h: "has_obs cards_of lab n (cards_of r) (ns_files st) st1" and s: "slots_ok lab n st"
    and run: "detach_qemu_found ev lab n i r e (st1, tr) = (v, st', tr')"
  shows "slots_ok lab n st'"
proof -
  obtain xs ys where split: "attachments r = xs @ e # ys" "length (takeWhile (\<lambda>e. index_of e \<noteq> i) (attachments r)) = length xs" "entry_ok e"
    by (rule found_cards [OF ok e])
  let ?Q = "has_obs cards_of lab n (xs @ e # ys, slot_list r) (ns_files st)" and ?R = "\<lambda>v. slots_ok lab n"
  have es: "distinct (card_slots (xs @ e # ys))" "set (card_slots (xs @ e # ys)) \<subseteq> set (slot_list r)"
    using ap unfolding cards_apart_def split(1) by blast+
  have fail: "?Q st2 \<Longrightarrow> slots_ok lab n st2" for st2 using has_cards_ok [OF _ s es] by blast
  have drop: "rt_ends ?Q ?R (drop_card ev lab n i boot how tap (jget0 e ''slot''))" for boot how tap
    unfolding rt_ends_def using drop_card_slots [OF _ s split(2) [unfolded split(1)] e [unfolded split(1)] split(3) es] by blast
  have "rt_ends ?Q ?R (detach_qemu_found ev lab n i r e)"
    unfolding detach_qemu_found_def Let_def
    by (intro rt_ends_bind rt_ends_if rt_ends_raise drop; (intro rt_rules | simp add: fail))
  then show ?thesis using run h unfolding rt_ends_def cards_of_def split(1) by blast
qed

lemma stopped_run:
  assumes "node_ok lab n st" and "rt_bind (runtime_record ev lab n True) f (st, tr) = (v, st', tr')"
  shows "f (node_record lab n st) (loaded lab n st, tr) = (v, st', tr')"
  using assms by (simp add: rt_bind_def runtime_record_stopped)

lemma when_fresh_slots:
  assumes "when_fresh r i x go (st, tr) = (v, st', tr')" and "slots_ok lab n st"
    and "\<And>g. go g (st, tr) = (v, st', tr') \<Longrightarrow> slots_ok lab n st'"
  shows "slots_ok lab n st'"
  using assms by (auto simp: when_fresh_def rt_bind_def rt_py_def rt_ret_def rt_raise_def split: sum.splits option.splits if_splits)

lemma detach_qemu_slots:
  assumes ok: "node_ok lab n st" and s: "slots_ok lab n st"
    and run: "detach_qemu_interface_inner ev lab n i x (st, tr) = (v, st', tr')"
  shows "slots_ok lab n st'"
proof (cases "node_record lab n st")
  case None
  then show ?thesis using stopped_run [OF ok run [unfolded detach_qemu_interface_inner_def]] slots_ok_loaded [OF s] by (simp add: rt_ret_def)
next
  case (Some r)
  note rok = node_record_ok [OF ok Some] and l = slots_ok_loaded [OF s]
  have h: "has_obs cards_of lab n (cards_of r) (ns_files (loaded lab n st)) (loaded lab n st)"
    using loaded_gets [OF Some] rok by (simp add: has_obs_def)
  have go: "slots_ok lab n st'" if "when_fresh r i x (\<lambda>g. detach_qemu_found ev lab n i r e) (loaded lab n st, tr) = (v, st', tr')"
      "find (\<lambda>e. index_of e = i) (attachments r) = Some e" for e
    by (rule when_fresh_slots [OF that(1) l]) (rule detach_qemu_found_slots [OF rok slots_ok_record [OF s Some] that(2) h l])
  show ?thesis using stopped_run [OF ok run [unfolded detach_qemu_interface_inner_def]] l go record_okD(1) [OF rok]
    by (auto simp: Some rt_bind_def rt_py_def rt_ret_def rt_raise_def pget_def record_okD [OF rok] entries_of_ok find_entry_ok
        split: if_splits option.splits)
qed

lemma detach_docker_slots:
  assumes ok: "node_ok lab n st" and s: "slots_ok lab n st"
    and run: "detach_docker_interface_locked ev lab n i x (st, tr) = (v, st', tr')"
  shows "slots_ok lab n st'"
proof (rule rt_keptE [OF run [unfolded detach_docker_interface_locked_def] resolve_keeps(3)])
  fix u tr1
  assume "rt_bind (runtime_record ev lab n True) (\<lambda>r.
       case r of
         None \<Rightarrow> rt_ret (Absent ''no runtime record'')
       | Some runtime \<Rightarrow>
           rt_bind (rt_py (bindr (entries_of ''interface_attachments'' runtime) (find_entry i 0))) (\<lambda>found.
             case found of
               None \<Rightarrow> rt_ret (Absent ''no attachment record'')
             | Some (k, target) \<Rightarrow>
                 when_fresh runtime i x (detach_docker_kernel ev lab n i k target))) (st, tr1) = (v, st', tr')"
  note run = stopped_run [OF ok this] and l = slots_ok_loaded [OF s]
  show ?thesis
  proof (cases "node_record lab n st")
    case None
    then show ?thesis using run l by (simp add: rt_ret_def)
  next
    case (Some r)
    note rok = node_record_ok [OF ok Some] and ap = slots_ok_record [OF s Some]
    have kernel: "slots_ok lab n st'" if e: "find (\<lambda>e. index_of e = i) (attachments r) = Some e"
      and "detach_docker_kernel ev lab n i (length (takeWhile (\<lambda>e. index_of e \<noteq> i) (attachments r))) e g (loaded lab n st, tr1) = (v, st', tr')" for e g
    proof -
      obtain xs ys where split: "attachments r = xs @ e # ys" "length (takeWhile (\<lambda>e. index_of e \<noteq> i) (attachments r)) = length xs"
        by (rule found_cards [OF rok e])
      let ?Q = "has_obs cards_of lab n (xs @ e # ys, slot_list r) (ns_files (loaded lab n st))" and ?R = "\<lambda>v. slots_ok lab n"
      have es: "distinct (card_slots (xs @ e # ys))" "set (card_slots (xs @ e # ys)) \<subseteq> set (slot_list r)"
        using ap unfolding cards_apart_def split(1) by blast+
      have fail: "?Q st2 \<Longrightarrow> slots_ok lab n st2" for st2 using has_cards_ok [OF _ l es] by blast
      note A = apart_without [OF es(1)]
      have drop: "rt_ends ?Q ?R (rt_bind (rt_edit lab n (drop_docker_attachment (length xs) hh)) (\<lambda>_.
          rt_bind (rt_current lab n) (\<lambda>runtime. rt_bind (persist_runtime ev runtime) (\<lambda>_. rt_ret (Detached Clean hh g)))))" for hh
        unfolding rt_ends_def
      proof (intro allI impI)
        fix st2 tr2 v st3 tr3
        assume q: "?Q st2" and run: "rt_bind (rt_edit lab n (drop_docker_attachment (length xs) hh)) (\<lambda>_.
          rt_bind (rt_current lab n) (\<lambda>runtime. rt_bind (persist_runtime ev runtime) (\<lambda>_. rt_ret (Detached Clean hh g)))) (st2, tr2) = (v, st3, tr3)"
        have "\<exists>x r2. drop_docker_attachment (length xs) hh r1 = (Inr x, r2) \<and> record_ok lab n r2 \<and> attachments r2 = xs @ ys \<and> slot_list r2 = slot_list r"
          if r1: "record_ok lab n r1" "attachments r1 = xs @ e # ys" "slot_list r1 = slot_list r" for r1
        proof -
          note W = without_card [OF r1(1,2), of i] drop_first_cards(2) [OF r1(1,2), of i hh]
          show ?thesis using drop_name_cards [OF W(1), of "''veth_host_ends''" hh] W(2-4) e split r1(2,3) by auto
        qed
        from edit_cards [where f="drop_docker_attachment (length xs) hh", OF q this] obtain y st4
          where st4: "rt_edit lab n (drop_docker_attachment (length xs) hh) (st2, tr2) = (Inr y, st4, tr2)"
            "has_obs cards_of lab n (xs @ ys, slot_list r) (ns_files (loaded lab n st)) st4" by blast
        have "set (card_slots (xs @ ys)) \<subseteq> set (slot_list r)" using A(2) es(2) by auto
        from persist_cards [OF st4(2) l A(1) this] show "slots_ok lab n st3"
          using run st4(1) by (simp add: rt_bind_run [where m="rt_edit lab n (drop_docker_attachment (length xs) hh)"])
      qed
      have "rt_ends ?Q ?R (detach_docker_kernel ev lab n i (length xs) e g)"
        unfolding detach_docker_kernel_def
        by (intro drop | rule rt_ends_bind | intro rt_rules | simp add: fail)+
      moreover have "?Q (loaded lab n st)" using loaded_gets [OF Some] rok split(1) by (simp add: has_obs_def cards_of_def)
      ultimately show ?thesis using that(2) unfolding rt_ends_def split(2) by blast
    qed
    show ?thesis
    proof (cases "find (\<lambda>e. index_of e = i) (attachments r)")
      case None
      then show ?thesis using run l by (auto simp: Some rt_bind_def rt_py_def rt_ret_def record_okD [OF rok] entries_of_ok find_entry_ok)
    next
      case e: (Some e)
      have "when_fresh r i x (detach_docker_kernel ev lab n i (length (takeWhile (\<lambda>e. index_of e \<noteq> i) (attachments r))) e) (loaded lab n st, tr1) = (v, st', tr')"
        using run e by (simp add: Some rt_bind_def rt_py_def rt_ret_def record_okD [OF rok] entries_of_ok find_entry_ok)
      then show ?thesis by (rule when_fresh_slots [OF _ l]) (rule kernel [OF e])
    qed
  qed
qed (simp add: s)


section \<open>Runs\<close>

definition slots_apart :: "node_world \<Rightarrow> bool" where
  "slots_apart s \<longleftrightarrow> (\<forall>lab n. 0 \<le> n \<longrightarrow> slots_ok lab n (fst s))"

lemma attach_slots:
  assumes "attaches lab n w i v s s'" and ok: "node_ok lab n (fst s)" and c: "counts_ok (locks_of (fst s))" and sl: "slots_ok lab n (fst s)"
  shows "slots_ok lab n (fst s')"
  using assms(1)
proof cases
  case (attach_docker ev b)
  then have run: "attach_docker_interface ev lab n w i b (fst s, snd s) = (v, fst s', snd s')" by simp
  show ?thesis
  proof (cases rule: with_iface_mutex_cases [OF run [unfolded attach_docker_interface_def] keptD [OF locks_kept_docker_attach]])
    case (3 locks locks' st1)
    then show ?thesis using attach_docker_slots [OF _ _ 3(1)] ok sl by simp
  qed (simp_all add: sl)
next
  case (attach_qemu ev b model mac)
  then have run: "attach_qemu_interface ev lab n w i b model mac (fst s, snd s) = (v, fst s', snd s')" by simp
  show ?thesis
  proof (cases rule: with_iface_mutex_cases [OF run [unfolded attach_qemu_interface_def] balancedD [OF balanced_attach_qemu c]])
    case (3 locks locks' st1)
    let ?st = "fst s\<lparr>ns_mutexes := locks\<rparr>"
    have inner: "slots_ok lab n st2" if "attach_qemu_interface_inner ev lab n w i b model mac (?st\<lparr>ns_node_locks := l\<rparr>, tr) = (v2, st2, tr2)" for l tr v2 st2 tr2
      by (rule attach_qemu_slots [OF _ _ that]) (simp_all add: ok sl)
    have "slots_ok lab n st1"
    proof (rule rt_keptE [OF 3(1) [unfolded attach_qemu_interface_locked_def] resolve_keeps(3)])
      fix x tr1
      assume "with_node_mutex ev lab n (attach_qemu_interface_inner ev lab n w i b model mac) (?st, tr1) = (v, st1, snd s')"
      then show "slots_ok lab n st1" by (cases rule: with_node_mutex_cases) (use inner sl in auto)
    qed (simp add: sl)
    then show ?thesis by (simp add: 3(2))
  qed (simp_all add: sl)
qed

lemma detach_slots:
  assumes "detaches lab n i x v s s'" and ok: "node_ok lab n (fst s)" and c: "counts_ok (locks_of (fst s))" and sl: "slots_ok lab n (fst s)"
  shows "slots_ok lab n (fst s')"
  using assms(1)
proof cases
  case (detach_docker ev)
  then have run: "detach_docker_interface ev lab n i x (fst s, snd s) = (v, fst s', snd s')" by simp
  show ?thesis
  proof (cases rule: with_iface_mutex_cases [OF run [unfolded detach_docker_interface_def] keptD [OF locks_kept_docker_detach]])
    case (3 locks locks' st1)
    then show ?thesis using detach_docker_slots [OF _ _ 3(1)] ok sl by simp
  qed (simp_all add: sl)
next
  case (detach_qemu ev)
  then have run: "detach_qemu_interface ev lab n i x (fst s, snd s) = (v, fst s', snd s')" by simp
  show ?thesis
  proof (cases rule: with_iface_mutex_cases [OF run [unfolded detach_qemu_interface_def] balancedD [OF balanced_detach_qemu c]])
    case (3 locks locks' st1)
    let ?st = "fst s\<lparr>ns_mutexes := locks\<rparr>"
    have inner: "slots_ok lab n st2" if "detach_qemu_interface_inner ev lab n i x (?st\<lparr>ns_node_locks := l\<rparr>, tr) = (v2, st2, tr2)" for l tr v2 st2 tr2
      by (rule detach_qemu_slots [OF _ _ that]) (simp_all add: ok sl)
    have "slots_ok lab n st1"
    proof (rule rt_keptE [OF 3(1) [unfolded detach_qemu_interface_locked_def] resolve_keeps(3)])
      fix y tr1
      assume "with_node_mutex ev lab n (detach_qemu_interface_inner ev lab n i x) (?st, tr1) = (v, st1, snd s')"
      then show "slots_ok lab n st1" by (cases rule: with_node_mutex_cases) (use inner sl in auto)
    qed (simp add: sl)
    then show ?thesis by (simp add: 3(2))
  qed (simp_all add: sl)
qed

lemma step_slots:
  assumes "node_step s s'" and "world_ok s" and "slots_apart s"
  shows "slots_apart s'"
  unfolding slots_apart_def
proof (intro allI impI)
  fix lab n
  assume n: "0 \<le> (n :: int)"
  have sl: "slots_ok l m (fst s)" if "0 \<le> m" for l m using assms(3) that by (simp add: slots_apart_def)
  from assms(1) show "slots_ok lab n (fst s')"
  proof cases
    case (step_attach m l w i v)
    note ok = world_okD(1) [where lab=l, OF assms(2) step_attach(1)] world_okD(2) [OF assms(2)]
    show ?thesis
    proof (cases "(l, m) = (lab, n)")
      case False
      then show ?thesis using slots_ok_view [OF attach_spares [OF step_attach(2) ok(1) step_attach(1) n False]] sl n by simp
    qed (use attach_slots [OF step_attach(2) ok sl [OF step_attach(1)]] in simp)
  next
    case (step_detach m l i x v)
    note ok = world_okD(1) [where lab=l, OF assms(2) step_detach(1)] world_okD(2) [OF assms(2)]
    show ?thesis
    proof (cases "(l, m) = (lab, n)")
      case False
      then show ?thesis using slots_ok_view [OF detach_spares [OF step_detach(2) ok(1) step_detach(1) n False]] sl n by simp
    qed (use detach_slots [OF step_detach(2) ok sl [OF step_detach(1)]] in simp)
  qed
qed

text \<open>
  C10. Cards of a machine never share a slot: whatever requests run, on whatever nodes and with
  whatever failures, in every registered record and every state file the slots of the cards are
  distinct and all of them are reserved, so that no later attachment is given one of them.
\<close>
theorem cards_never_share_a_slot:
  assumes "node_step\<^sup>*\<^sup>* s s'" and "world_ok s" and "slots_apart s" and "0 \<le> n"
    and "obj_get (ns_registry (fst s')) (runtime_key lab n) = Some r \<or> obj_get (ns_files (fst s')) (state_file lab (dec_int n)) = Some (Some r)"
  shows "distinct (card_slots (attachments r)) \<and> set (card_slots (attachments r)) \<subseteq> set (slot_list r)"
proof -
  have "world_ok s' \<and> slots_apart s'" using assms(1-3)
    by (induction rule: rtranclp_induct) (use step_slots node_step_ok in blast)+
  then have "slots_ok lab n (fst s')" using assms(4) by (simp add: slots_apart_def)
  then have "cards_apart r" using assms(5) by (auto simp: slots_ok_def simp del: dec_int_nonneg)
  then show ?thesis by (simp add: cards_apart_def)
qed

section \<open>Witnesses\<close>

definition demo_vm :: json where
  "demo_vm = JObj [(''lab_id'', JStr ''lab''), (''node_id'', JInt 1), (''kind'', JStr ''qemu''), (''pid'', JInt 42),
     (''hotplug_capable'', JBool True), (''qmp_socket'', JStr ''qmp.sock''), (''max_nics'', JInt 2)]"

definition demo_machines :: node_world where
  "demo_machines = (idle_node\<lparr>ns_registry := [(''lab:1'', demo_vm)]\<rparr>, [])"

definition demo_plugged :: node_world where
  "demo_plugged = snd (attach_qemu_interface demo_machine ''lab'' 1 5 3 ''br'' [] [] demo_machines)"

lemma demo_machines_ok: "world_ok demo_machines" "slots_apart demo_machines"
proof -
  have "record_ok ''lab'' 1 demo_vm"
    by (simp add: record_ok_def demo_vm_def list_field_def gens_ok_def jfind_def)
  then have "node_ok lab n (fst demo_machines)" for lab n
    by (auto simp: node_ok_def demo_machines_def idle_node_def demo_key runtime_key_eq)
  then show "world_ok demo_machines"
    by (simp add: world_ok_def records_ok_def counts_ok_def locks_of_def demo_machines_def idle_node_def)
  have "cards_apart demo_vm" by (simp add: cards_apart_def demo_vm_def attachments_def list_field_def jfind_def)
  then show "slots_apart demo_machines"
    by (auto simp: slots_apart_def slots_ok_def demo_machines_def idle_node_def demo_key runtime_key_eq)
qed

theorem cards_never_share_a_slot_witness:
  "\<exists>r. obj_get (ns_registry (fst demo_plugged)) ''lab:1'' = Some r \<and> card_slots (attachments r) = [1] \<and> slot_list r = [1]
     \<and> distinct (card_slots (attachments r)) \<and> set (card_slots (attachments r)) \<subseteq> set (slot_list r)"
proof -
  have "attaches ''lab'' 1 5 3 (fst (attach_qemu_interface demo_machine ''lab'' 1 5 3 ''br'' [] [] demo_machines)) demo_machines demo_plugged"
    by (rule attach_qemu) (simp add: demo_plugged_def prod_eq_iff)
  then have "node_step\<^sup>*\<^sup>* demo_machines demo_plugged" using step_attach zero_le_one by blast
  moreover have "map_option (\<lambda>r. (card_slots (attachments r), slot_list r)) (obj_get (ns_registry (fst demo_plugged)) ''lab:1'') = Some ([1], [1])"
    by code_simp
  then obtain r where r: "obj_get (ns_registry (fst demo_plugged)) ''lab:1'' = Some r" "card_slots (attachments r) = [1]" "slot_list r = [1]" by auto
  ultimately show ?thesis
    using cards_never_share_a_slot [OF _ demo_machines_ok zero_le_one, of demo_plugged "''lab''" r] demo_key by auto
qed


definition broken_machine :: node_env where
  \<comment> \<open>the same machine on a host where no link can be raised\<close>
  "broken_machine = demo_machine\<lparr>nv_host := (nv_host demo_machine)\<lparr>helper_says :=
     (\<lambda>_ v _. if v = ''link-up'' then Reply 4 [] ''boom'' else Reply 0 [] [])\<rparr>\<rparr>"

theorem failed_hot_plug_gives_back_witness:
  "\<exists>e st' tr' r'. hot_plug broken_machine ''lab'' 1 ''qmp.sock'' 3 ''tap'' ''br'' None ''e1000'' [] demo_vm (fst demo_machines, []) = (Inl e, st', tr')
     \<and> obj_get (ns_registry st') ''lab:1'' = Some r' \<and> slot_list r' = [] \<and> Helper ''tap-del'' [''tap''] \<in> set tr'"
proof -
  let ?r = "hot_plug broken_machine ''lab'' 1 ''qmp.sock'' 3 ''tap'' ''br'' None ''e1000'' [] demo_vm (fst demo_machines, [])"
  have fails: "isl (fst ?r)" "length (snd (snd ?r)) = 5" by code_simp+
  then obtain e st' tr' where r: "?r = (Inl e, st', tr')" by (metis isl_def prod.collapse)
  have "record_ok ''lab'' 1 demo_vm"
    by (simp add: record_ok_def demo_vm_def list_field_def gens_ok_def jfind_def)
  moreover have "obj_get (ns_registry (fst demo_machines)) (runtime_key ''lab'' 1) = Some demo_vm"
    by (simp add: demo_machines_def demo_key)
  ultimately obtain r' new where r': "obj_get (ns_registry st') (runtime_key ''lab'' 1) = Some r'" "slot_list r' = slot_list demo_vm"
      "tr' = [] @ new" "tap_calls (nv_host broken_machine) ''tap'' [] new"
    using failed_hot_plug_gives_back [OF r] by blast
  moreover have "length new = 5" using fails(2) r r'(3) by simp
  moreover have "slot_list demo_vm = []" by (simp add: slot_list_def list_field_def demo_vm_def jfind_def)
  ultimately show ?thesis using r demo_key by (auto simp: tap_calls_def Let_def)
qed

end
