(* ===== verification/Lab_Requests.thy ===== *)
theory Lab_Requests
  imports Lab_Store
begin

text \<open>
  Requests on labs (\<open>app/routers/labs.py\<close>): the folder of a user and the paths that may be asked
  for, reading of a lab for a request, and creation, metadata, look-up and deletion of a lab. A
  reply with a status code other than 200 is \<open>Fail\<close> with the code and the message; an exception no
  handler catches is the error side.

  The lemmas show that the files a user's requests read and write by path stay in the user's
  folder, and that the file name of a new lab does not.
\<close>

section \<open>Replies\<close>

datatype 'a reply = Fail nat string | Done 'a

definition bind_reply :: "'e + 'a reply \<Rightarrow> ('a \<Rightarrow> 'e + 'b reply) \<Rightarrow> 'e + 'b reply" where
  "bind_reply r f = (case r of Inl e \<Rightarrow> Inl e | Inr (Fail c m) \<Rightarrow> Inr (Fail c m) | Inr (Done x) \<Rightarrow> f x)"

lemma bind_reply_Done [bindr_simps]:
  "bind_reply r f = Inr (Done y) \<longleftrightarrow> (\<exists>x. r = Inr (Done x) \<and> f x = Inr (Done y))"
  by (cases r rule: sum.exhaust) (auto simp: bind_reply_def split: reply.splits)

lemma bind_reply_simps [simp]:
  "bind_reply (Inl e) f = Inl e" "bind_reply (Inr (Fail c m)) f = Inr (Fail c m)" "bind_reply (Inr (Done x)) f = f x"
  by (simp_all add: bind_reply_def)

section \<open>Users and paths\<close>

record account =
  ac_name :: string
  ac_role :: string
  ac_folder :: string

definition slashes :: "string \<Rightarrow> string" where
  \<comment> \<open>\<open>s.strip().replace("\", "/").strip("/")\<close>\<close>
  "slashes s = strip_char (CHR ''/'') (map (\<lambda>c. if c = CHR 0x5C then CHR ''/'' else c) (strip s))"

definition user_root :: "account \<Rightarrow> string" where
  "user_root u = (if ac_role u = ''admin'' then [] else slashes (ac_folder u))"

definition scoped_lab_path :: "account \<Rightarrow> string \<Rightarrow> bool \<Rightarrow> string option" where
  \<comment> \<open>\<open>None\<close>: PermissionError\<close>
  "scoped_lab_path u raw absolute =
     (let normalized = slashes raw; root = user_root u in
      if root = [] then Some normalized
      else if normalized = [] then Some root
      else if normalized = root \<or> starts_with (root @ ''/'') normalized then Some normalized
      else if absolute \<or> starts_with ''/'' (strip raw) then None
      else Some (root @ ''/'' @ normalized))"

definition NO_SUCH_LAB :: "'a reply" where
  "NO_SUCH_LAB = Fail 404 ''Lab does not exist (60038).''"

definition ACCESS_DENIED :: "'a reply" where
  "ACCESS_DENIED = Fail 403 ''Access denied.''"

definition LEGACY_SCHEMA :: "'a reply" where
  "LEGACY_SCHEMA = Fail 422 ''Lab uses legacy schema; run scripts/migrate_lab_v1_to_v2.py''"

definition scoped :: "account \<Rightarrow> string \<Rightarrow> bool \<Rightarrow> 'e + string reply" where
  "scoped u raw absolute = Inr (case scoped_lab_path u raw absolute of None \<Rightarrow> ACCESS_DENIED | Some p \<Rightarrow> Done p)"

definition read_lab_data :: "disk \<Rightarrow> string \<Rightarrow> py_exc + json reply" where
  "read_lab_data d path =
     bindr (normalize_lab_path path) (\<lambda>p.
       case obj_get d p of
         None \<Rightarrow> Inr NO_SUCH_LAB
       | Some None \<Rightarrow> Inl PyJSONDecodeError
       | Some (Some v) \<Rightarrow>
           if \<not> is_obj v \<or> \<not> py_eq (jget0 v ''schema'') (JInt SCHEMA_VERSION) then Inr LEGACY_SCHEMA
           else bindr (read_doc v) (\<lambda>data. Inr (Done data)))"

definition open_lab :: "account \<Rightarrow> disk \<Rightarrow> string \<Rightarrow> py_exc + (string \<times> json) reply" where
  \<comment> \<open>how most handlers begin: the scoped path and the document\<close>
  "open_lab u d raw =
     bind_reply (scoped u raw True) (\<lambda>p. bind_reply (read_lab_data d p) (\<lambda>data. Inr (Done (p, data))))"

section \<open>Requests on labs\<close>

definition create_lab_request ::
    "account \<Rightarrow> labs \<Rightarrow> string \<Rightarrow> string \<Rightarrow> string \<Rightarrow> string \<Rightarrow> json \<Rightarrow> py_exc + (lab_row \<times> labs) reply" where
  \<comment> \<open>an absent path or file name is the empty string\<close>
  "create_lab_request u s lid name path filename given =
     bind_reply (scoped u path False) (\<lambda>p.
       case create_lab s lid (ac_name u) name p filename given of
         Inl e \<Rightarrow> if e = PyFileExists then Inr (Fail 400 ''File exists.'') else Inl e
       | Inr r \<Rightarrow> Inr (Done r))"

definition may_change :: "account \<Rightarrow> lab_row \<Rightarrow> bool" where
  "may_change u lab \<longleftrightarrow> row_owner lab = ac_name u \<or> ac_role u = ''admin''"

definition update_lab_request :: "account \<Rightarrow> labs \<Rightarrow> string \<Rightarrow> (string \<times> json) list \<Rightarrow> py_exc + (lab_row \<times> labs) reply" where
  "update_lab_request u s raw updates =
     bind_reply (scoped u raw True) (\<lambda>p.
       bindr (get_lab_by_filename s p) (\<lambda>found.
         case found of
           None \<Rightarrow> Inr NO_SUCH_LAB
         | Some lab \<Rightarrow>
             if \<not> may_change u lab then Inr ACCESS_DENIED
             else bindr (update_lab s lab updates) (\<lambda>r. Inr (Done r))))"

definition row_reply :: "lab_row \<Rightarrow> json" where
  "row_reply lab =
     JObj ([(''id'', JStr (row_id lab)), (''filename'', JStr (row_filename lab)), (''name'', JStr (row_name lab)),
        (''path'', JStr (row_path lab)), (''owner'', JStr (row_owner lab))]
       @ map (\<lambda>k. (k, case obj_get (row_meta lab) k of None \<Rightarrow> JNull | Some v \<Rightarrow> v))
           [''author'', ''description'', ''body'', ''version'', ''scripttimeout'', ''countdown'', ''linkwidth'', ''grid'', ''lock'']
       @ [(''sat'', JStr ''-1''), (''shared'', JList [])])"

definition get_lab_request :: "account \<Rightarrow> labs \<Rightarrow> string \<Rightarrow> py_exc + json reply" where
  "get_lab_request u s raw =
     bind_reply (scoped u raw True) (\<lambda>p.
       bindr (get_lab_by_filename s p) (\<lambda>found.
         case found of
           Some lab \<Rightarrow> Inr (Done (row_reply lab))
         | None \<Rightarrow>
             bind_reply (read_lab_data (files s) p) (\<lambda>data.
               let rel = map (\<lambda>c. if c = CHR 0x5C then CHR ''/'' else c) (strip_char (CHR ''/'') raw);
                   meta = jget data ''meta'' (JObj [])
               in if \<not> is_obj meta then Inl PyTypeError
                  else Inr (Done (jdefault ''shared'' (JList []) (jset ''owner'' (JStr (ac_name u))
                         (jset ''path'' (JStr (''/'' @ rel)) (jset ''filename'' (JStr rel)
                           (jset ''id'' (jget0 data ''id'') meta)))))))))"

definition delete_lab_request ::
    "host_env \<Rightarrow> account \<Rightarrow> labs \<Rightarrow> string \<Rightarrow> call list \<Rightarrow> (lab_error + labs reply) \<times> call list" where
  \<comment> \<open>the two references errors are the reply 409; a file without a row is removed for administrators only\<close>
  "delete_lab_request h u s raw tr =
     (case scoped_lab_path u raw True of
        None \<Rightarrow> (Inr ACCESS_DENIED, tr)
      | Some p \<Rightarrow>
         (case get_lab_by_filename s p of
            Inl e \<Rightarrow> (Inl (LabPy e), tr)
          | Inr (Some lab) \<Rightarrow>
              if \<not> may_change u lab then (Inr ACCESS_DENIED, tr)
              else (case delete_lab h s lab tr of
                      (Inl (LabShared (NetErr c m)), tr') \<Rightarrow> (Inr (Fail 409 m), tr')
                    | (Inl e, tr') \<Rightarrow> (Inl e, tr')
                    | (Inr s', tr') \<Rightarrow> (Inr (Done s'), tr'))
          | Inr None \<Rightarrow>
              (case normalize_lab_path p of
                 Inl e \<Rightarrow> (Inr NO_SUCH_LAB, tr)
               | Inr q \<Rightarrow>
                   if obj_get (files s) q = None then (Inr NO_SUCH_LAB, tr)
                   else if ac_role u \<noteq> ''admin'' then (Inr ACCESS_DENIED, tr)
                   else (case no_external_references (parsed_files (files s)) p of
                           Inl (NetErr c m) \<Rightarrow> (Inr (Fail 409 m), tr)
                         | Inl e \<Rightarrow> (Inl (LabShared e), tr)
                         | Inr v \<Rightarrow> (Inr (Done (s\<lparr>files := obj_del q (files s)\<rparr>)), tr)))))"

section \<open>Paths below a folder\<close>

definition path_parts :: "string \<Rightarrow> string list" where
  "path_parts s = filter (\<lambda>w. w \<noteq> [] \<and> w \<noteq> ''.'') (split_on (CHR ''/'') s)"

lemma split_on_append: "split_on d (a @ d # b) = split_on d a @ split_on d b"
  by (induction a) (auto split: list.splits)

lemma path_parts_append: "path_parts (a @ CHR ''/'' # b) = path_parts a @ path_parts b"
  by (simp add: path_parts_def split_on_append)

lemma path_parts_Nil [simp]: "path_parts [] = []"
  by (simp add: path_parts_def)

lemma path_parts_dropWhile: "path_parts (dropWhile (\<lambda>c. c = CHR ''/'') s) = path_parts s"
proof (induction s)
  case (Cons c s)
  then show ?case using path_parts_append [of "[]" s] by (cases "c = CHR ''/''") auto
qed simp

lemma path_parts_rstrip: "path_parts (rev (dropWhile (\<lambda>c. c = CHR ''/'') (rev s))) = path_parts s"
proof (induction s rule: rev_induct)
  case (snoc c s)
  then show ?case using path_parts_append [of s "[]"] by (cases "c = CHR ''/''") auto
qed simp

lemma path_parts_strip_char: "path_parts (strip_char (CHR ''/'') s) = path_parts s"
  by (simp add: strip_char_def path_parts_rstrip path_parts_dropWhile)

lemma normalize_by_parts:
  "normalize_lab_path raw =
     (let ps = path_parts (map (\<lambda>c. if c = CHR 0x5C then CHR ''/'' else c) (strip raw))
      in if ps = [] \<or> ''..'' \<in> set ps then Inl PyValueError else Inr (join_on (CHR ''/'') ps))"
  by (simp add: normalize_lab_path_def Let_def path_parts_def [symmetric] path_parts_strip_char)

lemma join_on_below:
  "xs \<noteq> [] \<Longrightarrow> join_on d (xs @ ys) = (if ys = [] then join_on d xs else join_on d xs @ d # join_on d ys)"
  by (simp add: join_on_append)

lemma rstrip_append_solid: "\<not> is_space c \<Longrightarrow> rstrip (s @ c # t) = s @ c # rstrip t"
  by (simp add: rstrip_def dropWhile_append)

lemma strip_below:
  assumes "strip root = root" and "root \<noteq> []"
  shows "strip (root @ CHR ''/'' # rest) = root @ CHR ''/'' # rstrip rest"
proof -
  have "\<not> is_space (hd root)"
  proof
    assume "is_space (hd root)"
    then have "length (lstrip root) < length root"
      using assms(2) length_dropWhile_le [of is_space "tl root"] by (cases root) (auto simp: lstrip_def)
    moreover have "length (strip root) \<le> length (lstrip root)"
      by (simp add: strip_def rstrip_def) (metis length_dropWhile_le length_rev)
    ultimately show False using assms(1) by simp
  qed
  then have "lstrip (root @ CHR ''/'' # rest) = root @ CHR ''/'' # rest"
    using assms(2) by (cases root) (simp_all add: lstrip_def)
  moreover have "\<not> is_space (CHR ''/'')" by (simp add: is_space_def)
  ultimately show ?thesis by (simp add: strip_def rstrip_append_solid)
qed

definition below :: "string \<Rightarrow> string \<Rightarrow> bool" where
  "below root q \<longleftrightarrow> q = root \<or> starts_with (root @ ''/'') q"

lemma normalize_below:
  assumes root: "normalize_lab_path root = Inr root" "strip root = root" "root \<noteq> []"
    and "normalize_lab_path (root @ CHR ''/'' # rest) = Inr q"
  shows "below root q"
proof -
  let ?m = "map (\<lambda>c. if c = CHR 0x5C then CHR ''/'' else c)"
  obtain ps where ps: "normal_parts ps" "root = join_on (CHR ''/'') ps" using normalize_parts [OF root(1)] by blast
  have "CHR 0x5C \<notin> set root"
    using set_join_on [of "CHR 0x5C" "CHR ''/''" ps] ps by (auto simp: normal_parts_def)
  then have m: "?m root = root" by (intro map_idI) auto
  then have r: "root = join_on (CHR ''/'') (path_parts root)" "path_parts root \<noteq> []"
    using root(1,2) by (auto simp: normalize_by_parts Let_def split: if_splits)
  have "q = join_on (CHR ''/'') (path_parts root @ path_parts (?m (rstrip rest)))"
    using assms(4) by (auto simp: normalize_by_parts Let_def strip_below root m path_parts_append split: if_splits)
  then show ?thesis
    using r by (auto simp: join_on_below below_def starts_with_iff)
qed

section \<open>Properties\<close>

text \<open>
  C17. Where a handler takes the path of a lab from \<open>scoped_lab_path\<close>, a user with a folder reaches
  only that folder and files below it, whatever path the request sends: this is for a user whose folder
  is not empty and is given in normal form (administrators and users without a folder are not
  restricted). It says nothing of the file name of a new lab, which is not scoped
  (\<open>new_lab_outside_folder\<close>), nor of the handlers of links and networks, which do not scope the path.
\<close>

theorem scoped_paths_stay_in_folder:
  assumes "scoped_lab_path u raw absolute = Some p" and "normalize_lab_path p = Inr q"
    and "user_root u \<noteq> []" and "normalize_lab_path (user_root u) = Inr (user_root u)"
    and "strip (user_root u) = user_root u"
  shows "q = user_root u \<or> starts_with (user_root u @ ''/'') q"
proof -
  have "p = user_root u \<or> (\<exists>rest. p = user_root u @ CHR ''/'' # rest)"
    using assms(1,3) by (auto simp: scoped_lab_path_def Let_def starts_with_iff split: if_splits)
  then have "below (user_root u) q"
    using assms(2-5) normalize_below [of "user_root u"] by (auto simp: below_def)
  then show ?thesis by (simp add: below_def)
qed

definition alice :: account where
  "alice = \<lparr>ac_name = ''alice'', ac_role = ''user'', ac_folder = ''/alice''\<rparr>"

theorem scoped_paths_stay_in_folder_witness:
  "starts_with ''alice/'' ''alice/net/a.json'' \<and> scoped_lab_path alice ''/bob/a.json'' True = None"
proof
  have p: "scoped_lab_path alice ''/alice/./net//a.json'' True = Some ''alice/./net//a.json''"
    "normalize_lab_path ''alice/./net//a.json'' = Inr ''alice/net/a.json''" by code_simp+
  have r: "user_root alice = ''alice''" "normalize_lab_path ''alice'' = Inr ''alice''" "strip ''alice'' = ''alice''" by code_simp+
  from scoped_paths_stay_in_folder [OF p] r show "starts_with ''alice/'' ''alice/net/a.json''" by auto
  show "scoped_lab_path alice ''/bob/a.json'' True = None" by code_simp
qed

text \<open>
  The file name of a new lab is not scoped: it replaces the scoped path, so a user creates a lab in
  another user's folder.
\<close>

theorem new_lab_outside_folder:
  "map_sum id (\<lambda>r. case r of Done (row, s) \<Rightarrow> Some (row_filename row) | Fail c m \<Rightarrow> None)
     (create_lab_request alice \<lparr>files = [], rows = []\<rparr> ''id'' ''n'' [] ''bob/evil.json'' (JObj []))
   = Inr (Some ''bob/evil.json'')"
  by code_simp

end
