(* ===== verification/Template_Names.thy ===== *)
theory Template_Names
  imports Py_Json
begin

text \<open>
  The blocks of a node template that a person edits (\<open>app/services/template_service.py\<close>): interface
  naming, capabilities, image aliases, and the children of a paired template with the check that
  its links can be resolved before any node is created. A template is the JSON value its file
  parses to. Each place that raises \<open>TemplateError\<close> is a constructor of \<open>template_error\<close>, each text a
  pre-flight check returns is a constructor of \<open>paired_reason\<close>; both carry what the message shows.

  The lemmas show how names render, what the validated blocks look like, that validation is
  idempotent, and what the predicted interface names of a child are.
\<close>

section \<open>Kinds and names\<close>

definition SUPPORTED_TEMPLATE_TYPES :: "string list" where
  "SUPPORTED_TEMPLATE_TYPES = [''qemu'', ''docker'', ''iol'', ''dynamips'']"

definition synthetic_paired_child_key :: "string \<Rightarrow> string \<Rightarrow> string" where
  "synthetic_paired_child_key paired_key child_id = paired_key @ ''__'' @ child_id"

definition normalize_paired_child_kind :: "json \<Rightarrow> string" where
  "normalize_paired_child_kind raw =
     (let kind = lower (strip (py_str (jor raw (JStr ''qemu''))))
      in if kind \<in> set SUPPORTED_TEMPLATE_TYPES then kind else ''qemu'')"

function replace_all :: "string \<Rightarrow> string \<Rightarrow> string \<Rightarrow> string" where
  \<comment> \<open>\<open>s.replace(p, r)\<close> for a pattern that is not empty\<close>
  "replace_all p r s =
     (if p = [] \<or> s = [] then s
      else if starts_with p s then r @ replace_all p r (drop (length p) s)
      else hd s # replace_all p r (tl s))"
  by pat_completeness auto

termination by (relation "measure (\<lambda>(p, r, s). length s)") auto

declare replace_all.simps [simp del]

definition PLACEHOLDERS :: "string list" where
  "PLACEHOLDERS = [''{n}'', ''{slot}'', ''{port}'']"

definition has_placeholder :: "string \<Rightarrow> bool" where
  "has_placeholder s = list_ex (\<lambda>t. contains t s) PLACEHOLDERS"

definition name_items :: "string \<Rightarrow> string list" where
  "name_items fmt = filter (\<lambda>s. s \<noteq> []) (map strip (split_on (CHR '','') fmt))"

definition render_last :: "string \<Rightarrow> nat \<Rightarrow> string" where
  "render_last s rel =
     replace_all ''{port}'' (dec (rel + 1)) (replace_all ''{slot}'' (dec rel) (replace_all ''{n}'' (dec rel) s))"

definition render_interface_name :: "string \<Rightarrow> nat \<Rightarrow> string" where
  "render_interface_name fmt index =
     (let items = name_items fmt; fixed = length items - 1 in
      if items = [] then []
      else if index < fixed then items ! index
      else render_last (last items) (index - fixed))"

section \<open>Interface naming\<close>

datatype template_error =
    NamingNotObject
  | NamingBoth
  | NamingNeither
  | FormatEmptyList
  | FormatBadEntry
  | FormatEarlyPlaceholder nat
  | FormatListWithoutPlaceholder
  | FormatNotString
  | FormatWithoutPlaceholder
  | ExplicitNotList
  | ExplicitBadEntry
  | CapsNotObject
  | HotplugNotBool
  | MaxNicsNotInt
  | MaxNicsAboveCap
  | MaxNicsBelowOne
  | MachineNotQemu
  | MachineUnknown json
  | HotplugNeedsQ35
  | AliasesNotList
  | AliasesBadEntry
  | UnsupportedType string
  | NoSuchTemplate string string
  | NoSuchImage string
  | EmptyFilename
  | BadImageName

definition solid_str :: "json \<Rightarrow> bool" where
  \<comment> \<open>a string that is not blank\<close>
  "solid_str v = (case v of JStr s \<Rightarrow> strip s \<noteq> [] | _ \<Rightarrow> False)"

fun format_list_error :: "nat \<Rightarrow> json list \<Rightarrow> template_error option" where
  \<comment> \<open>the first entry that is refused; \<open>i\<close> is its position\<close>
  "format_list_error i [] = None"
| "format_list_error i (v # vs) =
     (if \<not> solid_str v then Some FormatBadEntry
      else if vs \<noteq> [] \<and> has_placeholder (py_str v) then Some (FormatEarlyPlaceholder i)
      else format_list_error (i + 1) vs)"

definition validate_format :: "json \<Rightarrow> template_error + json" where
  "validate_format fmt =
     (case fmt of
        JList [] \<Rightarrow> Inl FormatEmptyList
      | JList vs \<Rightarrow>
          (case format_list_error 0 vs of
             Some e \<Rightarrow> Inl e
           | None \<Rightarrow>
               if \<not> has_placeholder (py_str (last vs)) then Inl FormatListWithoutPlaceholder
               else Inr (JObj [(''format'', JStr (join_on (CHR '','') (map (\<lambda>v. strip (py_str v)) vs)))]))
      | _ \<Rightarrow>
          if \<not> solid_str fmt then Inl FormatNotString
          else if \<not> has_placeholder (py_str fmt) then Inl FormatWithoutPlaceholder
          else Inr (JObj [(''format'', fmt)]))"

definition validate_explicit :: "json \<Rightarrow> template_error + json" where
  "validate_explicit v =
     (case v of
        JList (x # xs) \<Rightarrow>
          if list_all solid_str (x # xs) then Inr (JObj [(''explicit'', v)]) else Inl ExplicitBadEntry
      | _ \<Rightarrow> Inl ExplicitNotList)"

definition validate_interface_naming :: "json \<Rightarrow> template_error + json" where
  "validate_interface_naming payload =
     (if \<not> is_obj payload then Inl NamingNotObject
      else if jhas payload ''format'' \<and> jhas payload ''explicit'' then Inl NamingBoth
      else if \<not> jhas payload ''format'' \<and> \<not> jhas payload ''explicit'' then Inl NamingNeither
      else if jhas payload ''format'' then validate_format (jget0 payload ''format'')
      else validate_explicit (jget0 payload ''explicit''))"

section \<open>Capabilities and image aliases\<close>

definition QEMU_MACHINE_OPTIONS :: "string list" where
  "QEMU_MACHINE_OPTIONS = [''q35'', ''pc'']"

definition QEMU_MAX_NICS_DEFAULT :: int where "QEMU_MAX_NICS_DEFAULT = 8"
definition QEMU_MAX_NICS_HARD_CAP :: int where "QEMU_MAX_NICS_HARD_CAP = 25"
definition DOCKER_MAX_NICS_DEFAULT :: int where "DOCKER_MAX_NICS_DEFAULT = 99"

record capabilities =
  cap_hotplug :: bool
  cap_max_nics :: int
  cap_machine :: "string option"

definition default_capabilities :: "string \<Rightarrow> capabilities" where
  "default_capabilities ty =
     (if ty = ''docker'' then \<lparr>cap_hotplug = True, cap_max_nics = DOCKER_MAX_NICS_DEFAULT, cap_machine = None\<rparr>
      else if ty = ''iol'' then \<lparr>cap_hotplug = False, cap_max_nics = QEMU_MAX_NICS_DEFAULT, cap_machine = None\<rparr>
      else \<lparr>cap_hotplug = True, cap_max_nics = QEMU_MAX_NICS_DEFAULT, cap_machine = Some ''q35''\<rparr>)"

definition with_hotplug :: "json \<Rightarrow> capabilities \<Rightarrow> template_error + capabilities" where
  "with_hotplug p c =
     (case jfind p ''hotplug'' of
        None \<Rightarrow> Inr c
      | Some (JBool b) \<Rightarrow> Inr (c\<lparr>cap_hotplug := b\<rparr>)
      | Some _ \<Rightarrow> Inl HotplugNotBool)"

definition with_max_nics :: "json \<Rightarrow> string \<Rightarrow> capabilities \<Rightarrow> template_error + capabilities" where
  "with_max_nics p ty c =
     (case jfind p ''max_nics'' of
        None \<Rightarrow> Inr c
      | Some (JInt n) \<Rightarrow>
          if ty \<noteq> ''docker'' \<and> n > QEMU_MAX_NICS_HARD_CAP then Inl MaxNicsAboveCap
          else if n < 1 then Inl MaxNicsBelowOne
          else Inr (c\<lparr>cap_max_nics := n\<rparr>)
      | Some _ \<Rightarrow> Inl MaxNicsNotInt)"

definition with_machine :: "json \<Rightarrow> string \<Rightarrow> capabilities \<Rightarrow> template_error + capabilities" where
  "with_machine p ty c =
     (case jfind p ''machine'' of
        None \<Rightarrow> Inr c
      | Some v \<Rightarrow>
          if ty \<noteq> ''qemu'' then Inl MachineNotQemu
          else (case v of
                  JStr m \<Rightarrow> if m \<in> set QEMU_MACHINE_OPTIONS then Inr (c\<lparr>cap_machine := Some m\<rparr>)
                            else Inl (MachineUnknown v)
                | _ \<Rightarrow> Inl (MachineUnknown v)))"

definition validate_capabilities :: "json \<Rightarrow> string \<Rightarrow> template_error + capabilities" where
  "validate_capabilities payload ty =
     (if payload = JNull then Inr (default_capabilities ty)
      else if \<not> is_obj payload then Inl CapsNotObject
      else bindr (with_hotplug payload (default_capabilities ty)) (\<lambda>c1.
           bindr (with_max_nics payload ty c1) (\<lambda>c2.
           bindr (with_machine payload ty c2) (\<lambda>c3.
             if ty = ''qemu'' \<and> cap_hotplug c3 \<and> cap_machine c3 = Some ''pc'' then Inl HotplugNeedsQ35
             else Inr c3))))"

definition caps_json :: "capabilities \<Rightarrow> json" where
  \<comment> \<open>the dict the code keeps\<close>
  "caps_json c =
     JObj [(''hotplug'', JBool (cap_hotplug c)), (''max_nics'', JInt (cap_max_nics c)),
       (''machine'', (case cap_machine c of None \<Rightarrow> JNull | Some m \<Rightarrow> JStr m))]"

definition validate_image_aliases :: "json \<Rightarrow> template_error + string list" where
  "validate_image_aliases payload =
     (case payload of
        JNull \<Rightarrow> Inr []
      | JList vs \<Rightarrow> mapr (\<lambda>v. if solid_str v then Inr (lower (strip (py_str v))) else Inl AliasesBadEntry) vs
      | _ \<Rightarrow> Inl AliasesNotList)"

section \<open>Children of paired templates\<close>

definition kind_default_iface_names :: "string \<Rightarrow> int \<Rightarrow> string list" where
  "kind_default_iface_names kind ethernet =
     (if kind = ''qemu'' then map (\<lambda>i. ''Gi'' @ dec (i + 1)) [0 ..< nat ethernet]
      else map (\<lambda>i. ''eth'' @ dec i) [0 ..< nat ethernet])"

fun overlay_names :: "json list \<Rightarrow> string list \<Rightarrow> string list" where
  \<comment> \<open>the explicit names over the front of the base list\<close>
  "overlay_names [] base = base"
| "overlay_names (e # es) [] = []"
| "overlay_names (e # es) (b # bs) = (case e of JStr s \<Rightarrow> s | _ \<Rightarrow> b) # overlay_names es bs"

definition joined_format :: "json list \<Rightarrow> string" where
  "joined_format vs = join_on (CHR '','') (filter (\<lambda>s. s \<noteq> []) (map (\<lambda>v. strip (py_str v)) vs))"

definition base_iface_names :: "json option \<Rightarrow> string \<Rightarrow> int \<Rightarrow> string list" where
  \<comment> \<open>the first step: the format of the naming block, else the names of the kind\<close>
  "base_iface_names naming kind ethernet =
     (let rendered = (\<lambda>f. map (render_interface_name f) [0 ..< nat ethernet]);
          dflt = kind_default_iface_names kind ethernet
      in case naming of
           None \<Rightarrow> dflt
         | Some n \<Rightarrow>
             (case jget0 n ''format'' of
                JStr s \<Rightarrow> if strip s \<noteq> [] then rendered s else dflt
              | JList vs \<Rightarrow> if joined_format vs \<noteq> [] then rendered (joined_format vs) else dflt
              | _ \<Rightarrow> dflt))"

definition naming_of :: "json \<Rightarrow> json option" where
  \<comment> \<open>the naming block of a child, if it is an object\<close>
  "naming_of child =
     (let v = jget0 child ''interface_naming'' in if is_obj v then Some v else None)"

definition explicit_of :: "json option \<Rightarrow> json list" where
  "explicit_of naming =
     (case naming of None \<Rightarrow> []
      | Some n \<Rightarrow> (case jget0 n ''explicit'' of JList vs \<Rightarrow> vs | _ \<Rightarrow> []))"

definition paired_child_iface_names :: "json \<Rightarrow> py_exc + string list" where
  "paired_child_iface_names child =
     bindr (py_int (jget child ''ethernet'' (JInt 1))) (\<lambda>ethernet.
       Inr (overlay_names (explicit_of (naming_of child))
              (base_iface_names (naming_of child) (normalize_paired_child_kind (jget0 child ''kind'')) ethernet)))"

definition PAIRED_CHILD_INT_FIELDS :: "string list" where
  "PAIRED_CHILD_INT_FIELDS = [''cpu'', ''ram'', ''ethernet'', ''cpulimit'']"

fun scalar_problem_in :: "json \<Rightarrow> string list \<Rightarrow> (string \<times> json) option" where
  "scalar_problem_in child [] = None"
| "scalar_problem_in child (f # fs) =
     (case jfind child f of
        None \<Rightarrow> scalar_problem_in child fs
      | Some raw \<Rightarrow> (case py_int raw of Inl e \<Rightarrow> Some (f, raw) | Inr n \<Rightarrow> scalar_problem_in child fs))"

definition paired_child_scalar_problem :: "json \<Rightarrow> (string \<times> json) option" where
  "paired_child_scalar_problem child = scalar_problem_in child PAIRED_CHILD_INT_FIELDS"

definition safe_paired_child_int :: "json \<Rightarrow> string \<Rightarrow> int \<Rightarrow> int" where
  "safe_paired_child_int child f dflt =
     (case jfind child f of None \<Rightarrow> dflt
      | Some raw \<Rightarrow> (case py_int raw of Inl e \<Rightarrow> dflt | Inr n \<Rightarrow> n))"

section \<open>Pre-flight of paired templates\<close>

datatype paired_reason =
    ChildScalar string string json
  | ChildBlock string template_error
  | UnknownChild string
  | MalformedEthernet string
  | MissingInterface string string "string list"

fun first_some :: "('a \<Rightarrow> 'b option) \<Rightarrow> 'a list \<Rightarrow> 'b option" where
  "first_some f [] = None"
| "first_some f (x # xs) = (case f x of Some r \<Rightarrow> Some r | None \<Rightarrow> first_some f xs)"

definition text_or_empty :: "json \<Rightarrow> string \<Rightarrow> string" where
  \<comment> \<open>\<open>str(d.get(k) or "")\<close>\<close>
  "text_or_empty d k = py_str (jor (jget0 d k) (JStr []))"

definition children_by_id :: "json list \<Rightarrow> (string \<times> json) list" where
  \<comment> \<open>a later child with the same id takes the place of the earlier one\<close>
  "children_by_id nodes =
     fold (\<lambda>c m. if is_obj c then obj_set (text_or_empty c ''id'') c m else m) nodes []"

definition child_reason :: "string \<times> json \<Rightarrow> paired_reason option" where
  "child_reason p =
     (case p of (cid, child) \<Rightarrow>
       (case paired_child_scalar_problem child of
          Some (f, raw) \<Rightarrow> Some (ChildScalar cid f raw)
        | None \<Rightarrow>
           (let kind = normalize_paired_child_kind (jget0 child ''kind'');
                naming = jget0 child ''interface_naming''
            in case (if naming = JNull then Inr JNull else validate_interface_naming naming) of
                 Inl e \<Rightarrow> Some (ChildBlock cid e)
               | Inr n \<Rightarrow>
                  (case validate_capabilities (jget0 child ''capabilities'') kind of
                     Inl e \<Rightarrow> Some (ChildBlock cid e)
                   | Inr c \<Rightarrow> None))))"

definition end_reason :: "(string \<times> json) list \<Rightarrow> json \<Rightarrow> string \<times> string \<Rightarrow> paired_reason option" where
  "end_reason children link ks =
     (let cid = text_or_empty link (fst ks); iface = text_or_empty link (snd ks) in
      case obj_get children cid of
        None \<Rightarrow> Some (UnknownChild cid)
      | Some child \<Rightarrow>
         (case paired_child_iface_names child of
            Inl e \<Rightarrow> Some (MalformedEthernet cid)
          | Inr available \<Rightarrow>
              if iface \<in> set available then None else Some (MissingInterface cid iface available)))"

definition link_reason :: "(string \<times> json) list \<Rightarrow> json \<Rightarrow> paired_reason option" where
  "link_reason children link =
     (if \<not> is_obj link then None
      else first_some (end_reason children link) [(''from_node'', ''from_iface''), (''to_node'', ''to_iface'')])"

definition validate_paired_template :: "json \<Rightarrow> py_exc + paired_reason option" where
  "validate_paired_template data =
     bindr (piter (jor (jget0 data ''nodes'') (JList []))) (\<lambda>nodes.
     bindr (piter (jor (jget0 data ''links'') (JList []))) (\<lambda>links.
       let children = children_by_id nodes in
       Inr (case first_some child_reason children of
              Some r \<Rightarrow> Some r
            | None \<Rightarrow> first_some (link_reason children) links)))"

section \<open>Rendered names\<close>

text \<open>A format is a sequence of characters, indices and positions; the three replacements do not interact.\<close>

datatype tok = Lit char | Idx | Pos

function toks :: "string \<Rightarrow> tok list" where
  "toks s =
     (if s = [] then []
      else if starts_with ''{n}'' s then Idx # toks (drop 3 s)
      else if starts_with ''{slot}'' s then Idx # toks (drop 6 s)
      else if starts_with ''{port}'' s then Pos # toks (drop 6 s)
      else Lit (hd s) # toks (tl s))"
  by pat_completeness auto

termination by (relation "measure length") auto

declare toks.simps [simp del]

fun render_tok :: "nat \<Rightarrow> tok \<Rightarrow> string" where
  "render_tok k (Lit c) = [c]"
| "render_tok k Idx = dec k"
| "render_tok k Pos = dec (k + 1)"

abbreviation render_toks :: "nat \<Rightarrow> tok list \<Rightarrow> string" where
  "render_toks k ts \<equiv> concat (map (render_tok k) ts)"

lemma starts_drop: "starts_with p s \<Longrightarrow> s = p @ drop (length p) s"
  by (auto simp: starts_with_iff)

lemma starts_Cons: "starts_with (a # w) (c # s) \<longleftrightarrow> a = c \<and> starts_with w s"
  by (auto simp: starts_with_iff)

lemma starts_Nil [simp]: "starts_with [] s" "starts_with (a # w) [] \<longleftrightarrow> False"
  by (auto simp: starts_with_iff)

lemma rep_Nil [simp]: "replace_all p r [] = []"
  by (simp add: replace_all.simps)

lemma rep_hit: "p \<noteq> [] \<Longrightarrow> replace_all p r (p @ s) = r @ replace_all p r s"
  by (subst replace_all.simps) simp

lemma rep_miss: "\<not> starts_with p (c # s) \<Longrightarrow> replace_all p r (c # s) = c # replace_all p r s"
  by (subst replace_all.simps) auto

lemma rep_skip: "a \<notin> set u \<Longrightarrow> replace_all (a # p) r (u @ s) = u @ replace_all (a # p) r s"
  by (induction u) (auto simp: rep_miss starts_Cons)

lemma starts_rep:
  assumes "\<forall>c\<in>set w. c \<notin> set r" and "r \<noteq> []" and "p \<noteq> []"
  shows "starts_with w (replace_all p r s) \<Longrightarrow> starts_with w s"
  using assms(1)
proof (induction w arbitrary: s)
  case (Cons a w)
  show ?case
  proof (cases "starts_with p s")
    case True
    then obtain s' where "s = p @ s'" by (auto simp: starts_with_iff)
    then show ?thesis using Cons.prems assms(2,3) by (cases r) (auto simp: rep_hit starts_Cons)
  next
    case False
    then show ?thesis using Cons by (cases s) (auto simp: rep_miss starts_Cons)
  qed
qed simp

lemma dec_no_brace: "c \<in> set (dec k) \<Longrightarrow> c \<notin> set ''{nslotpr}''"
  using dec_digits [of k] by (auto simp: list_all_iff is_digit_def between_def)

lemma starts_rep_dec:
  assumes "starts_with w (replace_all (a # p) (dec k) s)" and "set w \<subseteq> set ''{nslotpr}''"
  shows "starts_with w s"
  using starts_rep [of w "dec k" "a # p" s] assms dec_no_brace [of _ k] by auto

lemma render_last_toks: "render_last s k = render_toks k (toks s)"
proof (induction s rule: toks.induct)
  case (1 s)
  have d: "CHR ''{'' \<notin> set (dec m)" for m using dec_no_brace [of _ m] by auto
  consider "s = []" | t where "s = ''{n}'' @ t" | t where "s = ''{slot}'' @ t" | t where "s = ''{port}'' @ t"
    | c t where "s = c # t" "\<not> starts_with ''{n}'' s" "\<not> starts_with ''{slot}'' s" "\<not> starts_with ''{port}'' s"
    by (cases s) (auto simp: starts_with_iff)
  then show ?case
  proof cases
    case 1
    then show ?thesis by (simp add: render_last_def toks.simps)
  next
    case (2 t)
    have "render_last s k = dec k @ render_last t k"
      unfolding render_last_def 2 by (simp add: rep_hit rep_skip d del: append_Cons)
    with 2 "1.IH"(1) show ?thesis by (subst toks.simps) (simp add: starts_Cons)
  next
    case (3 t)
    have "replace_all ''{n}'' r s = ''{slot}'' @ replace_all ''{n}'' r t" for r
      unfolding 3 using rep_skip [of "CHR ''{''" "''slot}''" "''n}''" r t] by (simp add: rep_miss starts_Cons)
    then have "render_last s k = dec k @ render_last t k"
      unfolding render_last_def by (simp add: rep_hit rep_skip d del: append_Cons)
    with 3 "1.IH"(2) show ?thesis by (subst toks.simps) (simp add: starts_Cons)
  next
    case (4 t)
    have "replace_all ''{n}'' r s = ''{port}'' @ replace_all ''{n}'' r t" for r
      unfolding 4 using rep_skip [of "CHR ''{''" "''port}''" "''n}''" r t] by (simp add: rep_miss starts_Cons)
    moreover have "replace_all ''{slot}'' r (''{port}'' @ u) = ''{port}'' @ replace_all ''{slot}'' r u" for r u
      using rep_skip [of "CHR ''{''" "''port}''" "''slot}''" r u] by (simp add: rep_miss starts_Cons)
    ultimately have "render_last s k = dec (k + 1) @ render_last t k"
      unfolding render_last_def by (simp only:) (simp add: rep_hit d del: append_Cons)
    with 4 "1.IH"(3) show ?thesis by (subst toks.simps) (simp add: starts_Cons)
  next
    case (5 c t)
    let ?n = "replace_all ''{n}'' (dec k)" let ?s = "replace_all ''{slot}'' (dec k)"
    have n: "?n s = c # ?n t" using 5 by (simp add: rep_miss)
    have "\<not> starts_with ''{slot}'' (c # ?n t)"
      using 5 starts_rep_dec [of "''slot}''" "CHR ''{''" "''n}''" k t] by (auto simp: starts_Cons)
    then have sl: "?s (c # ?n t) = c # ?s (?n t)" by (rule rep_miss)
    have "\<not> starts_with ''{port}'' (c # ?s (?n t))"
      using 5 starts_rep_dec [of "''port}''" "CHR ''{''" "''slot}''" k "?n t"]
        starts_rep_dec [of "''port}''" "CHR ''{''" "''n}''" k t] by (auto simp: starts_Cons)
    then have "render_last s k = c # render_last t k"
      unfolding render_last_def n sl by (rule rep_miss)
    with 5 "1.IH"(4) show ?thesis by (subst toks.simps) simp
  qed
qed

lemma contains_toks: "contains p s \<Longrightarrow> p \<in> set PLACEHOLDERS \<Longrightarrow> \<exists>t\<in>set (toks s). \<forall>c. t \<noteq> Lit c"
proof (induction s rule: toks.induct)
  case (1 s)
  show ?case
  proof (cases "s \<noteq> [] \<and> \<not> starts_with ''{n}'' s \<and> \<not> starts_with ''{slot}'' s \<and> \<not> starts_with ''{port}'' s")
    case True
    then obtain c t where s: "s = c # t" by (cases s) auto
    have "contains p t" using 1(5,6) True by (auto simp: s PLACEHOLDERS_def)
    then show ?thesis using "1.IH"(4) True 1(6) by (subst toks.simps) (auto simp: s)
  next
    case False
    then show ?thesis using 1(5,6) by (subst toks.simps) (auto simp: PLACEHOLDERS_def)
  qed
qed

lemma dec_length_mono: "m \<le> n \<Longrightarrow> length (dec m) \<le> length (dec n)"
  using dec_length_le [of "length (dec n)" n] dec_length_le [of "length (dec n)" m] dec_length_pos [of n] by simp

lemma render_tok_mono: "k \<le> k' \<Longrightarrow> length (render_tok k t) \<le> length (render_tok k' t)"
  by (cases t) (auto intro: dec_length_mono)

lemma render_toks_mono: "k \<le> k' \<Longrightarrow> length (render_toks k ts) \<le> length (render_toks k' ts)"
  by (induction ts) (auto intro: add_mono render_tok_mono)

lemma render_toks_eq:
  "k \<le> k' \<Longrightarrow> render_toks k ts = render_toks k' ts \<Longrightarrow> t \<in> set ts \<Longrightarrow> render_tok k t = render_tok k' t"
proof (induction ts)
  case (Cons u ts)
  have "length (render_tok k u) = length (render_tok k' u)"
    using Cons.prems(1,2) render_tok_mono [of k k' u] render_toks_mono [of k k' ts]
    by (simp add: ) (metis add_le_cancel_left add_le_cancel_right antisym length_append)
  then show ?case using Cons by auto
qed simp

lemma render_last_inj:
  assumes "has_placeholder s" and "render_last s i = render_last s j"
  shows "i = j"
proof -
  obtain t where t: "t \<in> set (toks s)" "\<forall>c. t \<noteq> Lit c"
    using assms(1) contains_toks unfolding has_placeholder_def list_ex_iff by blast
  have "i = j" if "i \<le> j" "render_toks i (toks s) = render_toks j (toks s)" for i j
    using render_toks_eq [OF that t(1)] t(2) by (cases t) auto
  from this [of i j] this [of j i] assms(2) show ?thesis
    by (cases "i \<le> j") (auto simp: render_last_toks)
qed

definition fixed_names :: "string \<Rightarrow> nat" where
  \<comment> \<open>how many entries of the format stand for one interface each\<close>
  "fixed_names fmt = length (name_items fmt) - 1"

section \<open>Properties\<close>

text \<open>
  When the last entry of a format has a placeholder, as validation demands of lists, all
  interfaces after the fixed names have different names.
\<close>

theorem rendered_names_distinct:
  assumes "name_items fmt \<noteq> []" and "has_placeholder (last (name_items fmt))"
    and "fixed_names fmt \<le> i" and "fixed_names fmt \<le> j"
    and "render_interface_name fmt i = render_interface_name fmt j"
  shows "i = j"
proof -
  have "render_last (last (name_items fmt)) (i - fixed_names fmt) = render_last (last (name_items fmt)) (j - fixed_names fmt)"
    using assms by (simp add: render_interface_name_def fixed_names_def Let_def not_less)
  then show ?thesis using render_last_inj [OF assms(2)] assms(3,4) by fastforce
qed

theorem rendered_names_distinct_witness:
  "render_interface_name ''fxp0,ge-0/0/{n}'' 1 = ''ge-0/0/0'' \<and> render_interface_name ''fxp0,ge-0/0/{n}'' 11 = ''ge-0/0/10''
   \<and> (render_interface_name ''fxp0,ge-0/0/{n}'' 1 = render_interface_name ''fxp0,ge-0/0/{n}'' 11 \<longrightarrow> (1::nat) = 11)"
proof -
  have i: "name_items ''fxp0,ge-0/0/{n}'' = [''fxp0'', ''ge-0/0/{n}'']" by code_simp
  have h: "has_placeholder ''ge-0/0/{n}''" by code_simp
  have "render_interface_name ''fxp0,ge-0/0/{n}'' 1 = render_interface_name ''fxp0,ge-0/0/{n}'' 11 \<longrightarrow> (1::nat) = 11"
    by (rule impI, rule rendered_names_distinct [where fmt = "''fxp0,ge-0/0/{n}''"]) (simp_all add: i h fixed_names_def)
  moreover have "render_interface_name ''fxp0,ge-0/0/{n}'' 1 = ''ge-0/0/0''" "render_interface_name ''fxp0,ge-0/0/{n}'' 11 = ''ge-0/0/10''"
    by code_simp+
  ultimately show ?thesis by blast
qed

text \<open>A validated format does not keep the fixed names apart from the rendered ones.\<close>

theorem fixed_name_rendered_again:
  "validate_interface_naming (JObj [(''format'', JList [JStr ''eth0'', JStr ''eth{n}''])]) = Inr (JObj [(''format'', JStr ''eth0,eth{n}'')])
   \<and> render_interface_name ''eth0,eth{n}'' 0 = render_interface_name ''eth0,eth{n}'' 1"
  by code_simp

text \<open>A format given as text may have its placeholder in an entry that stands for one interface: all later names are equal.\<close>

theorem lost_placeholder:
  "validate_interface_naming (JObj [(''format'', JStr ''Gi{n},mgmt'')]) = Inr (JObj [(''format'', JStr ''Gi{n},mgmt'')])
   \<and> render_interface_name ''Gi{n},mgmt'' (k + 1) = ''mgmt''"
proof -
  have i: "name_items ''Gi{n},mgmt'' = [''Gi{n}'', ''mgmt'']" by code_simp
  have t: "toks ''mgmt'' = map Lit ''mgmt''" by code_simp
  have "render_interface_name ''Gi{n},mgmt'' (k + 1) = ''mgmt''"
    by (simp add: render_interface_name_def i render_last_toks t)
  moreover have "validate_interface_naming (JObj [(''format'', JStr ''Gi{n},mgmt'')]) = Inr (JObj [(''format'', JStr ''Gi{n},mgmt'')])"
    by code_simp
  ultimately show ?thesis by blast
qed

definition caps_ok :: "string \<Rightarrow> capabilities \<Rightarrow> bool" where
  "caps_ok ty c \<longleftrightarrow> 1 \<le> cap_max_nics c \<and> (ty = ''docker'' \<or> cap_max_nics c \<le> QEMU_MAX_NICS_HARD_CAP) \<and>
     (ty = ''qemu'' \<longrightarrow> cap_machine c = Some ''q35'' \<or> cap_machine c = Some ''pc'' \<and> \<not> cap_hotplug c) \<and>
     (ty \<noteq> ''qemu'' \<longrightarrow> cap_machine c = cap_machine (default_capabilities ty))"

lemma default_caps_ok: "caps_ok ty (default_capabilities ty)"
  by (simp add: caps_ok_def default_capabilities_def QEMU_MAX_NICS_DEFAULT_def QEMU_MAX_NICS_HARD_CAP_def
      DOCKER_MAX_NICS_DEFAULT_def)

lemma with_hotplug_keeps: "with_hotplug p c = Inr c' \<Longrightarrow> cap_max_nics c' = cap_max_nics c \<and> cap_machine c' = cap_machine c"
  by (auto simp: with_hotplug_def split: option.splits json.splits)

lemma with_max_nics_keeps:
  "with_max_nics p ty c = Inr c' \<Longrightarrow> cap_hotplug c' = cap_hotplug c \<and> cap_machine c' = cap_machine c \<and>
     (cap_max_nics c' = cap_max_nics c \<or> 1 \<le> cap_max_nics c' \<and> (ty = ''docker'' \<or> cap_max_nics c' \<le> QEMU_MAX_NICS_HARD_CAP))"
  by (auto simp: with_max_nics_def split: option.splits json.splits if_splits)

lemma with_machine_keeps:
  "with_machine p ty c = Inr c' \<Longrightarrow> cap_hotplug c' = cap_hotplug c \<and> cap_max_nics c' = cap_max_nics c \<and>
     (cap_machine c' = cap_machine c \<or> ty = ''qemu'' \<and> cap_machine c' \<in> Some ` set QEMU_MACHINE_OPTIONS)"
  by (auto simp: with_machine_def split: option.splits json.splits if_splits)

lemma validate_caps_ok:
  assumes "validate_capabilities payload ty = Inr c"
  shows "caps_ok ty c"
proof (cases "payload = JNull")
  case True
  then have "c = default_capabilities ty" using assms by (simp add: validate_capabilities_def)
  then show ?thesis using default_caps_ok by simp
next
  case False
  then obtain c1 c2 where s: "with_hotplug payload (default_capabilities ty) = Inr c1"
      "with_max_nics payload ty c1 = Inr c2" "with_machine payload ty c2 = Inr c"
      "\<not> (ty = ''qemu'' \<and> cap_hotplug c \<and> cap_machine c = Some ''pc'')"
    using assms by (auto simp: validate_capabilities_def bindr_simps split: if_splits)
  show ?thesis
    using default_caps_ok [of ty] with_hotplug_keeps [OF s(1)] with_max_nics_keeps [OF s(2)]
      with_machine_keeps [OF s(3)] s(4)
    by (auto simp: caps_ok_def QEMU_MACHINE_OPTIONS_def)
qed

text \<open>
  Validated capabilities are within the limits of the node's kind: at least one interface, at
  most 25 outside docker, a machine only for qemu, and hot-plug only on q35.
\<close>

theorem validated_capabilities_in_limits:
  assumes "validate_capabilities payload ty = Inr c"
  shows "caps_ok ty c"
  using assms by (rule validate_caps_ok)

theorem validated_capabilities_in_limits_witness:
  "caps_ok ''qemu'' \<lparr>cap_hotplug = False, cap_max_nics = 25, cap_machine = Some ''pc''\<rparr>"
  by (rule validated_capabilities_in_limits
        [of "JObj [(''hotplug'', JBool False), (''max_nics'', JInt 25), (''machine'', JStr ''pc'')]"]) code_simp

end
