(* ===== verification/Template_Schema.thy ===== *)
theory Template_Schema
  imports Template_Names
begin

text \<open>
  The forms of the node dialog (\<open>app/services/template_service.py\<close>): the tables of choices, the
  schema of the extra fields of every kind of node, and the defaults a template's own values are
  laid over. A field is an object in the order of the source.

  The lemmas show which keys the forms have and what the composed extras of a template hold.
\<close>

section \<open>Choices\<close>

definition option_of :: "string \<Rightarrow> string \<Rightarrow> json" where
  "option_of v l = JObj [(''value'', JStr v), (''label'', JStr l)]"

definition QEMU_NIC_OPTIONS :: json where
  "QEMU_NIC_OPTIONS = JList
    [option_of ''virtio-net-pci'' ''virtio-net-pci'', option_of ''e1000'' ''e1000'', option_of ''e1000e'' ''e1000e'',
     option_of ''rtl8139'' ''rtl8139'', option_of ''vmxnet3'' ''vmxnet3'', option_of ''pcnet'' ''pcnet'']"

definition QEMU_ARCH_OPTIONS :: json where
  "QEMU_ARCH_OPTIONS = JList
    [option_of ''x86_64'' ''x86_64'', option_of ''aarch64'' ''aarch64'', option_of ''i386'' ''i386'']"

definition DOCKER_RESTART_OPTIONS :: json where
  "DOCKER_RESTART_OPTIONS = JList
    [option_of ''no'' ''no'', option_of ''on-failure'' ''on-failure'', option_of ''unless-stopped'' ''unless-stopped'',
     option_of ''always'' ''always'']"

definition IOL_CONFIG_OPTIONS :: json where
  "IOL_CONFIG_OPTIONS = JList
    [option_of ''Unconfigured'' ''Unconfigured'', option_of ''Saved'' ''Saved'', option_of ''Exported'' ''Exported'']"

definition DYNAMIPS_NPE_OPTIONS :: json where
  "DYNAMIPS_NPE_OPTIONS = JList
    [option_of ''npe-100'' ''npe-100'', option_of ''npe-150'' ''npe-150'', option_of ''npe-175'' ''npe-175'',
     option_of ''npe-200'' ''npe-200'', option_of ''npe-225'' ''npe-225'', option_of ''npe-300'' ''npe-300'',
     option_of ''npe-400'' ''npe-400'', option_of ''npe-g1'' ''npe-g1'', option_of ''npe-g2'' ''npe-g2'']"

definition DYNAMIPS_MIDPLANE_OPTIONS :: json where
  "DYNAMIPS_MIDPLANE_OPTIONS = JList
    [option_of ''std'' ''std'', option_of ''vxr'' ''vxr'']"

definition DYNAMIPS_PLATFORM_OPTIONS :: json where
  "DYNAMIPS_PLATFORM_OPTIONS = JList
    [option_of ''c3725'' ''c3725'', option_of ''c7200'' ''c7200'']"

definition DYNAMIPS_C3725_SLOT_OPTIONS :: json where
  "DYNAMIPS_C3725_SLOT_OPTIONS = JList
    [option_of '''' ''(empty)'', option_of ''GT96100-FE'' ''GT96100-FE (built-in 2x FE)'', option_of ''NM-1FE-TX'' ''NM-1FE-TX'',
     option_of ''NM-4T'' ''NM-4T (4 serial)'', option_of ''NM-16ESW'' ''NM-16ESW (16-port switch)'', option_of ''NM-1E'' ''NM-1E'',
     option_of ''NM-4E'' ''NM-4E'']"

definition DYNAMIPS_C7200_SLOT_OPTIONS :: json where
  "DYNAMIPS_C7200_SLOT_OPTIONS = JList
    [option_of '''' ''(empty)'', option_of ''C7200-IO-FE'' ''C7200-IO-FE'', option_of ''C7200-IO-2FE'' ''C7200-IO-2FE'',
     option_of ''C7200-IO-GE-E'' ''C7200-IO-GE-E'', option_of ''PA-FE-TX'' ''PA-FE-TX'', option_of ''PA-2FE-TX'' ''PA-2FE-TX'',
     option_of ''PA-GE'' ''PA-GE'', option_of ''PA-4E'' ''PA-4E'', option_of ''PA-8E'' ''PA-8E'',
     option_of ''PA-4T+'' ''PA-4T+'', option_of ''PA-8T'' ''PA-8T'', option_of ''PA-A1'' ''PA-A1'',
     option_of ''PA-POS-OC3'' ''PA-POS-OC3'']"

definition DYNAMIPS_PLATFORM_MAX_SLOTS :: "(string \<times> nat) list" where
  "DYNAMIPS_PLATFORM_MAX_SLOTS = [(''c3725'', 3), (''c7200'', 7)]"

definition ICON_TYPE_TO_FILENAME :: "(string \<times> string) list" where
  "ICON_TYPE_TO_FILENAME =
     [(''router'', ''Router.png''), (''server'', ''Server.png''), (''switch'', ''Switch.png''),
      (''firewall'', ''Firewall.png''), (''host'', ''Server.png'')]"

definition icon_filename_for :: "string \<Rightarrow> string" where
  "icon_filename_for ty =
     (case obj_get ICON_TYPE_TO_FILENAME (lower (strip ty)) of None \<Rightarrow> ''Router.png'' | Some f \<Rightarrow> f)"

section \<open>Schemas\<close>

definition qemu_extras_schema :: "(string \<times> json) list list" where
  "qemu_extras_schema =
    [[(''key'', JStr ''architecture''), (''label'', JStr ''Architecture''),
        (''type'', JStr ''select''), (''options'', QEMU_ARCH_OPTIONS), (''default'', JStr ''x86_64''),
        (''stoppedOnly'', JBool True), (''runtime'', JBool True)],
     [(''key'', JStr ''qemu_nic''), (''label'', JStr ''NIC model''), (''type'', JStr ''select''),
        (''options'', QEMU_NIC_OPTIONS), (''default'', JStr ''e1000''), (''stoppedOnly'', JBool True),
        (''runtime'', JBool True)],
     [(''key'', JStr ''qemu_version''), (''label'', JStr ''QEMU version''), (''type'', JStr ''text''),
        (''default'', JStr ''''), (''placeholder'', JStr ''(auto)''), (''stoppedOnly'', JBool True),
        (''runtime'', JBool True)],
     [(''key'', JStr ''boot_order''), (''label'', JStr ''Boot order''), (''type'', JStr ''select''),
        (''options'', JList [JObj [(''value'', JStr ''''), (''label'', JStr ''Default (disk first when ISO attached)'')], JObj [(''value'', JStr ''cd''), (''label'', JStr ''Disk, then CD-ROM'')], JObj [(''value'', JStr ''dc''), (''label'', JStr ''CD-ROM, then disk'')]]),
        (''default'', JStr ''''), (''stoppedOnly'', JBool True), (''runtime'', JBool True)],
     [(''key'', JStr ''qemu_options''), (''label'', JStr ''Extra qemu args''),
        (''type'', JStr ''textarea''), (''default'', JStr ''''),
        (''placeholder'', JStr ''-nographic -enable-kvm''),
        (''description'', JStr ''Flag-level override: flags present here replace all default instances of the same flag.''),
        (''stoppedOnly'', JBool True), (''runtime'', JBool True)],
     [(''key'', JStr ''uuid''), (''label'', JStr ''UUID''), (''type'', JStr ''text''),
        (''default'', JStr ''''), (''placeholder'', JStr ''(auto-generated)''),
        (''stoppedOnly'', JBool True)],
     [(''key'', JStr ''firstmac''), (''label'', JStr ''First MAC''), (''type'', JStr ''text''),
        (''default'', JStr ''''), (''placeholder'', JStr ''(auto-generated)''),
        (''stoppedOnly'', JBool True)],
     [(''key'', JStr ''cpulimit''), (''label'', JStr ''CPU limit''), (''type'', JStr ''number''),
        (''default'', JInt 1), (''stoppedOnly'', JBool True)]]"

definition docker_extras_schema :: "(string \<times> json) list list" where
  "docker_extras_schema =
    [[(''key'', JStr ''cpulimit''), (''label'', JStr ''CPU limit''), (''type'', JStr ''number''),
        (''default'', JInt 1), (''stoppedOnly'', JBool True)],
     [(''key'', JStr ''restart_policy''), (''label'', JStr ''Restart policy''),
        (''type'', JStr ''select''), (''options'', DOCKER_RESTART_OPTIONS), (''default'', JStr ''no''),
        (''stoppedOnly'', JBool True), (''runtime'', JBool True)],
     [(''key'', JStr ''vnc_port''), (''label'', JStr ''VNC port''), (''type'', JStr ''number''),
        (''default'', JInt 5900), (''placeholder'', JStr ''5900''),
        (''description'', JStr ''Container-side VNC port used by the HTML5 console when console mode is vnc.''),
        (''stoppedOnly'', JBool True), (''runtime'', JBool True)],
     [(''key'', JStr ''environment''), (''label'', JStr ''Environment variables''),
        (''type'', JStr ''env''), (''default'', JList []),
        (''description'', JStr ''Passed as -e KEY=value to docker run.''), (''stoppedOnly'', JBool True),
        (''runtime'', JBool True)],
     [(''key'', JStr ''extra_args''), (''label'', JStr ''Extra docker args''),
        (''type'', JStr ''textarea''), (''default'', JStr ''''),
        (''placeholder'', JStr ''--privileged --cap-add=NET_ADMIN''), (''stoppedOnly'', JBool True),
        (''runtime'', JBool True)],
     [(''key'', JStr ''command''), (''label'', JStr ''Command (overrides image CMD)''),
        (''type'', JStr ''textarea''), (''default'', JStr ''''),
        (''placeholder'', JStr ''tail -f /dev/null''),
        (''description'', JStr (''Override the container'' @ [CHR 0x27] @ ''s default CMD. Appended after the image in the docker run argv. Shlex-split when given as a string; passed verbatim when given as a list of strings.'')),
        (''stoppedOnly'', JBool True), (''runtime'', JBool True)]]"

definition iol_extras_schema :: "(string \<times> json) list list" where
  "iol_extras_schema =
    [[(''key'', JStr ''serial''), (''label'', JStr ''Serial groups''), (''type'', JStr ''number''),
        (''default'', JInt 0), (''description'', JStr ''Each group adds 4 serial interfaces.''),
        (''stoppedOnly'', JBool True)],
     [(''key'', JStr ''nvram''), (''label'', JStr ''NVRAM (KB)''), (''type'', JStr ''number''),
        (''default'', JInt 1024), (''stoppedOnly'', JBool True)],
     [(''key'', JStr ''config''), (''label'', JStr ''Config''), (''type'', JStr ''select''),
        (''options'', IOL_CONFIG_OPTIONS), (''default'', JStr ''Unconfigured''),
        (''stoppedOnly'', JBool True)],
     [(''key'', JStr ''idle_pc''), (''label'', JStr ''Idle PC''), (''type'', JStr ''text''),
        (''default'', JStr ''''), (''placeholder'', JStr ''0x...''), (''stoppedOnly'', JBool True)]]"

definition slot_field :: "json \<Rightarrow> string \<Rightarrow> nat \<Rightarrow> (string \<times> json) list" where
  \<comment> \<open>slot 0 has the built-in module as its default\<close>
  "slot_field options builtin i =
     [(''key'', JStr (''slot'' @ dec i)), (''label'', JStr (''Slot '' @ dec i)), (''type'', JStr ''select''),
      (''options'', options), (''default'', JStr (if i = 0 then builtin else [])),
      (''stoppedOnly'', JBool True), (''runtime'', JBool True)]"

definition slot_fields :: "string \<Rightarrow> json \<Rightarrow> string \<Rightarrow> (string \<times> json) list list" where
  "slot_fields platform options builtin =
     (case obj_get DYNAMIPS_PLATFORM_MAX_SLOTS platform of
        None \<Rightarrow> [] | Some n \<Rightarrow> map (slot_field options builtin) [0 ..< n])"

definition npe_fields :: "(string \<times> json) list list" where
  "npe_fields =
    [[(''key'', JStr ''npe''), (''label'', JStr ''NPE''), (''type'', JStr ''select''), (''options'', DYNAMIPS_NPE_OPTIONS),
      (''default'', JStr ''npe-400''), (''stoppedOnly'', JBool True), (''runtime'', JBool True)],
     [(''key'', JStr ''midplane''), (''label'', JStr ''Midplane''), (''type'', JStr ''select''),
      (''options'', DYNAMIPS_MIDPLANE_OPTIONS), (''default'', JStr ''vxr''), (''stoppedOnly'', JBool True), (''runtime'', JBool True)]]"

definition dynamips_extras_schema :: "string \<Rightarrow> (string \<times> json) list list" where
  "dynamips_extras_schema platform =
    [[(''key'', JStr ''platform''), (''label'', JStr ''Platform''), (''type'', JStr ''select''),
      (''options'', DYNAMIPS_PLATFORM_OPTIONS), (''default'', JStr platform), (''stoppedOnly'', JBool True), (''runtime'', JBool True)]]
    @ (if platform = ''c3725'' then slot_fields ''c3725'' DYNAMIPS_C3725_SLOT_OPTIONS ''GT96100-FE''
       else slot_fields ''c7200'' DYNAMIPS_C7200_SLOT_OPTIONS ''C7200-IO-FE'')
    @ [[(''key'', JStr ''nvram''), (''label'', JStr ''NVRAM (KB)''), (''type'', JStr ''number''), (''default'', JInt 128),
        (''stoppedOnly'', JBool True)],
       [(''key'', JStr ''disk0''), (''label'', JStr ''Flash (disk0) MB''), (''type'', JStr ''number''),
        (''default'', JInt (if platform = ''c3725'' then 16 else 64)), (''stoppedOnly'', JBool True), (''runtime'', JBool True)]]
    @ (if platform = ''c7200'' then npe_fields else [])
    @ [[(''key'', JStr ''idlepc''), (''label'', JStr ''Idle PC''), (''type'', JStr ''text''), (''default'', JStr []),
        (''placeholder'', JStr ''0x...''), (''stoppedOnly'', JBool True), (''runtime'', JBool True)]]"

definition dynamips_platform_of :: "(string \<times> json) list \<Rightarrow> string" where
  "dynamips_platform_of extras =
     (let raw = lower (py_str (jor (jget0 (JObj extras) ''platform'') (JStr [])))
      in if raw \<in> {''c3725'', ''c7200''} then raw else ''c7200'')"

definition extras_schema_for :: "string \<Rightarrow> (string \<times> json) list \<Rightarrow> (string \<times> json) list list" where
  "extras_schema_for ty extras =
     (if ty = ''qemu'' then qemu_extras_schema
      else if ty = ''docker'' then docker_extras_schema
      else if ty = ''iol'' then iol_extras_schema
      else if ty = ''dynamips'' then dynamips_extras_schema (dynamips_platform_of extras)
      else [])"

definition schema_key :: "(string \<times> json) list \<Rightarrow> string" where
  \<comment> \<open>\<open>field["key"]\<close>, a string in every schema\<close>
  "schema_key f = (case obj_get f ''key'' of Some (JStr k) \<Rightarrow> k | _ \<Rightarrow> [])"

definition compose_extras :: "(string \<times> json) list list \<Rightarrow> (string \<times> json) list \<Rightarrow> (string \<times> json) list" where
  "compose_extras schema overrides =
     fold (\<lambda>(k, v). obj_set k v) overrides
       (fold (\<lambda>f. obj_set (schema_key f) (jget0 (JObj f) ''default'')) schema [])"

section \<open>Composed extras\<close>

lemma schema_keys_distinct: "distinct (map schema_key (extras_schema_for ty extras))"
proof -
  have "distinct (map schema_key qemu_extras_schema)" "distinct (map schema_key docker_extras_schema)"
    "distinct (map schema_key iol_extras_schema)" "distinct (map schema_key (dynamips_extras_schema ''c3725''))"
    "distinct (map schema_key (dynamips_extras_schema ''c7200''))"
    by code_simp+
  then show ?thesis by (auto simp: extras_schema_for_def dynamips_platform_of_def Let_def)
qed

lemma obj_get_fold_pairs:
  "obj_get (fold (\<lambda>(k, v). obj_set k v) kvs m) k = (case obj_get (rev kvs) k of Some v \<Rightarrow> Some v | None \<Rightarrow> obj_get m k)"
proof (induction kvs arbitrary: m)
  case (Cons p kvs)
  have "obj_get (xs @ [p]) k = (case obj_get xs k of Some v \<Rightarrow> Some v | None \<Rightarrow> obj_get [p] k)" for xs
    by (induction xs) auto
  then show ?case using Cons by (cases p) (auto split: option.splits)
qed simp

lemma compose_override:
  "distinct (keys overrides) \<Longrightarrow> obj_get overrides k = Some v \<Longrightarrow> obj_get (compose_extras schema overrides) k = Some v"
  using obj_get_distinct [of "rev overrides" k v] obj_get_Some_in [of overrides k v]
  by (simp add: compose_extras_def obj_get_fold_pairs rev_map [symmetric] del: rev_map)

end
