(* ===== verification/Template_Store.thy ===== *)
theory Template_Store
  imports Template_Schema Iface_Names "HOL-Library.List_Lexorder" "HOL-Library.Char_ord"
begin

text \<open>
  The template service (\<open>TemplateService\<close> in \<open>app/services/template_service.py\<close>): loading of the
  template files of the two directories, the synthetic entries of paired children, lookup, images
  and the node catalog. A directory is the list of the files below it, by the parts of their paths;
  what YAML makes of a file is part of the file. The image directories and the images marked in
  docker are arguments.

  The lemmas show what every loaded template satisfies, that no two files give the same entry, that
  a file of the user directory takes the place of a built-in one, and where an upload is written.
\<close>

section \<open>Files\<close>

datatype yaml_file = Unreadable | BadYaml | Parsed json

record template_tree =
  tt_builtin :: "(string list \<times> yaml_file) list option"
  tt_user :: "(string list \<times> yaml_file) list option"

datatype load_error = LoadOs | LoadYaml | LoadPy py_exc | LoadTemplate template_error

definition path_name :: "string list \<Rightarrow> string" where
  "path_name p = (if p = [] then [] else last p)"

definition parent_name :: "string list \<Rightarrow> string" where
  "parent_name p = path_name (butlast p)"

definition stem_of :: "string \<Rightarrow> string" where
  \<comment> \<open>\<open>Path.stem\<close>: up to the last dot, unless that is the first or the last character\<close>
  "stem_of name =
     (let tail = takeWhile (\<lambda>c. c \<noteq> CHR ''.'') (rev name);
          i = length name - length tail - 1
      in if length tail < length name \<and> 0 < i \<and> i < length name - 1 then take i name else name)"

definition with_suffix :: "string \<Rightarrow> (string list \<times> yaml_file) list \<Rightarrow> (string list \<times> yaml_file) list" where
  \<comment> \<open>\<open>rglob\<close> of a suffix\<close>
  "with_suffix s fs = filter (\<lambda>p. ends_with s (path_name (fst p))) fs"

datatype source = Builtin | User

definition iter_template_paths :: "template_tree \<Rightarrow> ((string list \<times> yaml_file) \<times> source) list" where
  "iter_template_paths t =
     (case tt_builtin t of None \<Rightarrow> [] | Some fs \<Rightarrow> map (\<lambda>f. (f, Builtin)) (sort_key fst (with_suffix ''.yml'' fs)))
     @ (case tt_user t of None \<Rightarrow> []
        | Some fs \<Rightarrow> map (\<lambda>f. (f, User)) (sort_key fst (with_suffix ''.yml'' fs) @ sort_key fst (with_suffix ''.json'' fs)))"

section \<open>Definitions\<close>

record template_def =
  td_key :: string
  td_type :: string
  td_name :: string
  td_description :: string
  td_icon_type :: string
  td_cpu :: int
  td_ram :: int
  td_ethernet :: int
  td_console_type :: string
  td_cpulimit :: int
  td_extras :: "(string \<times> json) list"
  td_raw :: json
  td_naming :: "json option"
  td_caps :: capabilities
  td_aliases :: "string list"
  td_parent :: "string option"

definition default_icon_type :: "string \<Rightarrow> string" where
  "default_icon_type ty = (if ty = ''docker'' then ''server'' else ''router'')"

definition default_console_type :: "string \<Rightarrow> string" where
  "default_console_type ty = (if ty = ''docker'' then ''rdp'' else ''telnet'')"

definition text_or :: "json \<Rightarrow> string \<Rightarrow> string \<Rightarrow> string" where
  \<comment> \<open>\<open>str(d.get(k) or dflt)\<close>\<close>
  "text_or d k dflt = py_str (jor (jget0 d k) (JStr dflt))"

definition as_response :: "template_def \<Rightarrow> json" where
  "as_response t =
     JObj [(''id'', JStr (td_key t)), (''template'', JStr (td_key t)), (''type'', JStr (td_type t)),
       (''name'', JStr (td_name t)), (''description'', JStr (td_description t)),
       (''icon_type'', JStr (td_icon_type t)), (''icon'', JStr (icon_filename_for (td_icon_type t))),
       (''cpu'', JInt (td_cpu t)), (''ram'', JInt (td_ram t)), (''ethernet'', JInt (td_ethernet t)),
       (''console_type'', JStr (td_console_type t)), (''cpulimit'', JInt (td_cpulimit t)),
       (''extras'', JObj (td_extras t)), (''capabilities'', caps_json (td_caps t)),
       (''image_aliases'', JList (map JStr (td_aliases t)))]"

section \<open>Loading\<close>

definition template_extras_of :: "json \<Rightarrow> string \<Rightarrow> (string \<times> json) list" where
  \<comment> \<open>the extras block, completed by top-level keys the form knows\<close>
  "template_extras_of payload ty =
     (let own = obj_of (jget0 payload ''extras'') in
      fold (\<lambda>f ex. let k = schema_key f in
              (case jfind payload k of Some v \<Rightarrow> if obj_get ex k = None then obj_set k v ex else ex | None \<Rightarrow> ex))
        (extras_schema_for ty own) own)"

definition lift_template :: "template_error + 'a \<Rightarrow> load_error + 'a" where
  "lift_template r = (case r of Inl e \<Rightarrow> Inl (LoadTemplate e) | Inr x \<Rightarrow> Inr x)"

definition int_field :: "json \<Rightarrow> string \<Rightarrow> int \<Rightarrow> load_error + int" where
  "int_field payload k dflt =
     (case py_int (jget payload k (JInt dflt)) of Inl e \<Rightarrow> Inl (LoadPy e) | Inr n \<Rightarrow> Inr n)"

definition template_of :: "json \<Rightarrow> string \<Rightarrow> string \<Rightarrow> load_error + template_def" where
  "template_of payload ty key =
     bindr (if jget0 payload ''interface_naming'' = JNull then Inr None
            else lift_template (bindr (validate_interface_naming (jget0 payload ''interface_naming'')) (\<lambda>n. Inr (Some n)))) (\<lambda>naming.
     bindr (lift_template (validate_capabilities (jget0 payload ''capabilities'') ty)) (\<lambda>caps.
     bindr (lift_template (validate_image_aliases (jget0 payload ''image_aliases''))) (\<lambda>aliases.
     bindr (int_field payload ''cpu'' 1) (\<lambda>cpu.
     bindr (int_field payload ''ram'' 1024) (\<lambda>ram.
     bindr (int_field payload ''ethernet'' 1) (\<lambda>ethernet.
     bindr (int_field payload ''cpulimit'' 1) (\<lambda>cpulimit.
       Inr \<lparr>td_key = key, td_type = ty, td_name = text_or payload ''name'' key,
             td_description = text_or payload ''description'' [],
             td_icon_type = text_or payload ''icon_type'' (default_icon_type ty),
             td_cpu = cpu, td_ram = ram, td_ethernet = ethernet,
             td_console_type = text_or payload ''console_type'' (default_console_type ty),
             td_cpulimit = cpulimit, td_extras = template_extras_of payload ty, td_raw = payload,
             td_naming = naming, td_caps = caps, td_aliases = aliases, td_parent = None\<rparr>)))))))"

definition same_entry :: "string \<Rightarrow> string \<Rightarrow> template_def \<Rightarrow> bool" where
  "same_entry ty key t \<longleftrightarrow> td_type t = ty \<and> td_key t = key"

definition load_file :: "(string list \<times> yaml_file) \<times> source \<Rightarrow> template_def list \<Rightarrow> load_error + template_def list" where
  \<comment> \<open>the body of the loop; the last loaded entry of a key wins\<close>
  "load_file f ts =
     (case f of ((path, content), source) \<Rightarrow>
       (case content of
          Unreadable \<Rightarrow> Inl LoadOs
        | BadYaml \<Rightarrow> Inl LoadYaml
        | Parsed doc \<Rightarrow>
           (let payload = jor doc (JObj []) in
            if \<not> is_obj payload then Inl (LoadPy PyAttributeError)
            else (let ty = lower (strip (text_or payload ''type'' (parent_name path)));
                      key = stem_of (path_name path)
                  in if ty \<notin> set SUPPORTED_TEMPLATE_TYPES then Inr ts
                     else bindr (template_of payload ty key) (\<lambda>t.
                       Inr (filter (\<lambda>u. \<not> same_entry ty key u) ts @ [t]))))))"

definition is_paired_doc :: "yaml_file \<Rightarrow> json option" where
  \<comment> \<open>a readable document of kind paired with a node list that is not empty and a link list\<close>
  "is_paired_doc content =
     (case content of
        Parsed doc \<Rightarrow>
          (let data = jor doc (JObj []) in
           if is_obj data \<and> py_eq (jget0 data ''kind'') (JStr ''paired'')
              \<and> is_list (jget0 data ''nodes'') \<and> truthy (jget0 data ''nodes'') \<and> is_list (jget0 data ''links'')
           then Some data else None)
      | _ \<Rightarrow> None)"

definition iter_paired_user_templates :: "template_tree \<Rightarrow> (string list \<times> json) list" where
  "iter_paired_user_templates t =
     (case tt_user t of None \<Rightarrow> []
      | Some fs \<Rightarrow>
          List.map_filter (\<lambda>(p, c). map_option (\<lambda>d. (p, d)) (is_paired_doc c))
            (sort_key fst (with_suffix ''.yml'' fs @ with_suffix ''.json'' fs)))"

definition child_id_of :: "nat \<Rightarrow> json \<Rightarrow> string" where
  "child_id_of i child = text_or child ''id'' (''child-'' @ dec i)"

definition synthetic_child :: "string \<Rightarrow> nat \<Rightarrow> json \<Rightarrow> template_def option" where
  \<comment> \<open>\<open>None\<close>: the child is no object, or its blocks are refused, which is logged only\<close>
  "synthetic_child paired_key i child =
     (if \<not> is_obj child then None
      else (let kind = normalize_paired_child_kind (jget0 child ''kind'');
                key = synthetic_paired_child_key paired_key (child_id_of i child);
                naming = jget0 child ''interface_naming''
            in case (if naming = JNull then Inr None
                     else bindr (validate_interface_naming naming) (\<lambda>n. Inr (Some n))) of
                 Inl e \<Rightarrow> None
               | Inr nm \<Rightarrow>
                  (case validate_capabilities (jget0 child ''capabilities'') kind of
                     Inl e \<Rightarrow> None
                   | Inr caps \<Rightarrow>
                      Some \<lparr>td_key = key, td_type = kind, td_name = text_or child ''name'' key,
                        td_description = ''Paired child of '' @ paired_key @ '' (auto-synthesized).'',
                        td_icon_type = text_or child ''icon_type'' (default_icon_type kind),
                        td_cpu = safe_paired_child_int child ''cpu'' 1, td_ram = safe_paired_child_int child ''ram'' 1024,
                        td_ethernet = safe_paired_child_int child ''ethernet'' 1,
                        td_console_type = text_or child ''console'' (default_console_type kind),
                        td_cpulimit = safe_paired_child_int child ''cpulimit'' 1,
                        td_extras = obj_of (jget0 child ''extras''), td_raw = child, td_naming = nm,
                        td_caps = caps, td_aliases = [], td_parent = Some paired_key\<rparr>)))"

definition load_synthetic :: "template_tree \<Rightarrow> template_def list" where
  \<comment> \<open>\<open>_load_synthetic_paired_child_templates\<close>\<close>
  "load_synthetic t =
     concat (map (\<lambda>(path, data).
       List.map_filter (\<lambda>(i, c). synthetic_child (stem_of (path_name path)) i c)
         (enumerate 0 (list_of (jget0 data ''nodes'')))) (iter_paired_user_templates t))"

definition load_templates :: "template_tree \<Rightarrow> load_error + template_def list" where
  "load_templates t =
     (if tt_builtin t = None \<and> tt_user t = None then Inr []
      else bindr (forr load_file (iter_template_paths t) []) (\<lambda>ts. Inr (ts @ load_synthetic t)))"

section \<open>Lookup\<close>

definition normalize_type :: "string \<Rightarrow> load_error + string" where
  "normalize_type ty =
     (let n = lower (strip ty) in
      if n \<in> set SUPPORTED_TEMPLATE_TYPES then Inr n else Inl (LoadTemplate (UnsupportedType ty)))"

definition list_templates :: "template_tree \<Rightarrow> string \<Rightarrow> load_error + (string \<times> json) list" where
  "list_templates t ty =
     bindr (normalize_type ty) (\<lambda>n. bindr (load_templates t) (\<lambda>ts.
       Inr (sort_key fst (fold (\<lambda>u. obj_set (td_key u) (as_response u)) (filter (\<lambda>u. td_type u = n) ts) []))))"

definition get_template :: "template_tree \<Rightarrow> string \<Rightarrow> string \<Rightarrow> load_error + template_def" where
  "get_template t ty key =
     bindr (normalize_type ty) (\<lambda>n. bindr (load_templates t) (\<lambda>ts.
       case List.find (same_entry n key) ts of
         Some u \<Rightarrow> Inr u
       | None \<Rightarrow> Inl (LoadTemplate (NoSuchTemplate key n))))"

definition get_paired_user_template :: "template_tree \<Rightarrow> string \<Rightarrow> json option" where
  "get_paired_user_template t key =
     map_option snd (List.find (\<lambda>(p, d). stem_of (path_name p) = key) (iter_paired_user_templates t))"

definition template_extras :: "template_tree \<Rightarrow> string \<Rightarrow> string \<Rightarrow> load_error + (string \<times> json) list" where
  "template_extras t ty key =
     bindr (get_template t ty key) (\<lambda>u. Inr (compose_extras (extras_schema_for ty (td_extras u)) (td_extras u)))"

definition interface_naming :: "template_tree \<Rightarrow> string \<Rightarrow> string \<Rightarrow> load_error + json" where
  "interface_naming t ty key =
     bindr (get_template t ty key) (\<lambda>u. Inr (case td_naming u of None \<Rightarrow> JObj [] | Some n \<Rightarrow> n))"

section \<open>Images\<close>

datatype image_entry = ImageDir "string list" | ImageFile | ImageOther

record image_store =
  is_root :: string
  is_dirs :: "(string \<times> (string \<times> image_entry) list) list"
  is_marked :: "(string \<times> int option) list"

definition image_info :: "string \<Rightarrow> string \<times> image_entry \<Rightarrow> (string \<times> json) option" where
  \<comment> \<open>the key and the reply of an entry of a directory; a directory comes with its regular files\<close>
  "image_info dir e =
     (case e of (name, entry) \<Rightarrow>
       (let reply = (\<lambda>img names. (img, JObj [(''image'', JStr img), (''files'', JList (map JStr names)),
                        (''path'', JStr (dir @ ''/'' @ name))]))
        in case entry of
             ImageDir [] \<Rightarrow> None
           | ImageDir names \<Rightarrow> Some (reply name (sort names))
           | ImageFile \<Rightarrow> Some (reply (stem_of name) [name])
           | ImageOther \<Rightarrow> None))"

definition docker_image_catalog :: "image_store \<Rightarrow> (string \<times> json) list" where
  "docker_image_catalog s =
     fold (\<lambda>(n, port). obj_set n
       (JObj ([(''image'', JStr n), (''files'', JList []), (''path'', JStr n), (''source'', JStr ''docker'')]
         @ (case port of None \<Rightarrow> [] | Some p \<Rightarrow> [(''vnc_port'', JInt p)])))) (is_marked s) []"

definition matches_template_image_name :: "template_def \<Rightarrow> string \<Rightarrow> bool" where
  "matches_template_image_name t folder =
     (let m = lower (strip folder);
          candidates = filter (\<lambda>c. c \<noteq> []) (lower (strip (td_name t)) # td_aliases t)
      in m \<noteq> [] \<and> (candidates = [] \<or> list_ex (\<lambda>c. contains c m \<or> contains m c) candidates))"

definition list_images :: "template_tree \<Rightarrow> image_store \<Rightarrow> string \<Rightarrow> string \<Rightarrow> load_error + (string \<times> json) list" where
  "list_images t s ty key =
     bindr (get_template t ty key) (\<lambda>u.
       if td_parent u \<noteq> None then
         (let declared = strip (text_or (td_raw u) ''image'' []) in
          Inr (if declared = [] then []
               else [(declared, JObj [(''image'', JStr declared), (''source'', JStr ''paired-child-declared'')])]))
       else if ty = ''docker'' then Inr (docker_image_catalog s)
       else (case obj_get (is_dirs s) ty of
               None \<Rightarrow> Inr []
             | Some es \<Rightarrow>
                 Inr (fold (\<lambda>e m. (case image_info (is_root s @ ''/'' @ ty) e of
                        None \<Rightarrow> m
                      | Some (k, v) \<Rightarrow> if matches_template_image_name u k then obj_set k v m else m))
                    (sort_key fst es) [])))"

definition validate_node_request :: "template_tree \<Rightarrow> image_store \<Rightarrow> string \<Rightarrow> string \<Rightarrow> string \<Rightarrow> load_error + template_def" where
  "validate_node_request t s ty key img =
     bindr (get_template t ty key) (\<lambda>u. bindr (list_images t s ty key) (\<lambda>images.
       if obj_get images img = None then Inl (LoadTemplate (NoSuchImage img)) else Inr u))"

definition join_path :: "string \<Rightarrow> string \<Rightarrow> string" where
  \<comment> \<open>\<open>Path(a) / b\<close>: an absolute \<open>b\<close> replaces \<open>a\<close>\<close>
  "join_path a b = (if starts_with ''/'' b then b else a @ ''/'' @ b)"

definition upload_target :: "template_tree \<Rightarrow> image_store \<Rightarrow> string \<Rightarrow> string \<Rightarrow> string \<Rightarrow> string option \<Rightarrow> load_error + string" where
  \<comment> \<open>the file \<open>upload_image\<close> writes\<close>
  "upload_target t s ty key filename image_name =
     bindr (get_template t ty key) (\<lambda>_.
       let safe = path_name (posix_parts filename);
           img = strip (case image_name of None \<Rightarrow> stem_of safe | Some n \<Rightarrow> if n = [] then stem_of safe else n)
       in if safe = [] then Inl (LoadTemplate EmptyFilename)
          else if img = [] then Inl (LoadTemplate BadImageName)
          else Inr (posix_path (join_path (join_path (join_path (is_root s) ty) img) safe)))"

section \<open>Catalog\<close>

definition icon_options_of :: "template_def list \<Rightarrow> string list" where
  "icon_options_of ts = sort (remdups ([''Router.png'', ''Server.png''] @ map (\<lambda>t. icon_filename_for (td_icon_type t)) ts))"

definition catalog_entry :: "template_tree \<Rightarrow> image_store \<Rightarrow> string list \<Rightarrow> template_def \<Rightarrow> load_error + json" where
  "catalog_entry t s icons u =
     bindr (list_images t s (td_type u) (td_key u)) (\<lambda>images.
       let schema = extras_schema_for (td_type u) (td_extras u);
           default_image = (case images of [] \<Rightarrow> JStr [] | (k, v) # _ \<Rightarrow> jget0 v ''image'')
       in Inr (JObj [(''key'', JStr (td_key u)), (''type'', JStr (td_type u)), (''name'', JStr (td_name u)),
            (''description'', JStr (td_description u)),
            (''defaults'', JObj [(''type'', JStr (td_type u)), (''template'', JStr (td_key u)), (''image'', default_image),
               (''icon_type'', JStr (td_icon_type u)), (''icon'', JStr (icon_filename_for (td_icon_type u))),
               (''cpu'', JInt (td_cpu u)), (''ram'', JInt (td_ram u)), (''ethernet'', JInt (td_ethernet u)),
               (''console_type'', JStr (td_console_type u)), (''delay'', JInt 0), (''cpulimit'', JInt (td_cpulimit u)),
               (''extras'', JObj (compose_extras schema (td_extras u)))]),
            (''images'', JList (map snd images)), (''icon_options'', JList (map JStr icons)),
            (''extras_schema'', JList (map JObj schema)), (''capabilities'', caps_json (td_caps u)),
            (''paired_parent'', (case td_parent u of None \<Rightarrow> JNull | Some p \<Rightarrow> JStr p))]))"

definition paired_child_summary :: "string \<Rightarrow> nat \<times> json \<Rightarrow> json option" where
  "paired_child_summary paired_key p =
     (case p of (i, child) \<Rightarrow>
       if \<not> is_obj child then None
       else Some (JObj [(''id'', JStr (child_id_of i child)),
              (''name'', JStr (py_str (jor (jor (jget0 child ''name'') (jget0 child ''id'')) (JStr (''child-'' @ dec i))))),
              (''kind'', JStr (text_or child ''kind'' ''qemu'')), (''image'', JStr (text_or child ''image'' [])),
              (''cpu'', JInt (safe_paired_child_int child ''cpu'' 1)), (''ram'', JInt (safe_paired_child_int child ''ram'' 1024)),
              (''ethernet'', JInt (safe_paired_child_int child ''ethernet'' 1)),
              (''template_key'', JStr (synthetic_paired_child_key paired_key (child_id_of i child)))]))"

definition paired_link_summary :: "json \<Rightarrow> json option" where
  "paired_link_summary link =
     (if \<not> is_obj link then None
      else Some (JObj (map (\<lambda>k. (k, JStr (text_or_empty link k))) [''from_node'', ''from_iface'', ''to_node'', ''to_iface''])))"

definition paired_entry :: "(paired_reason \<Rightarrow> string) \<Rightarrow> string list \<times> json \<Rightarrow> json" where
  \<comment> \<open>\<open>say\<close> is the text of a reason; nodes and links are lists here, so the pre-flight does not raise\<close>
  "paired_entry say p =
     (case p of (path, data) \<Rightarrow>
       (let key = stem_of (path_name path);
            children = List.map_filter (paired_child_summary key) (enumerate 0 (list_of (jget0 data ''nodes'')));
            links = List.map_filter paired_link_summary (list_of (jget0 data ''links''));
            reason = (case validate_paired_template data of Inl e \<Rightarrow> None | Inr r \<Rightarrow> r)
        in JObj [(''key'', JStr key), (''name'', JStr (text_or data ''name'' key)), (''vendor'', JStr (text_or data ''vendor'' [])),
             (''child_count'', JInt (int (length children))), (''link_count'', JInt (int (length links))),
             (''children'', JList children), (''links'', JList links), (''valid'', JBool (reason = None)),
             (''invalid_reason'', (case reason of None \<Rightarrow> JNull | Some r \<Rightarrow> JStr (say r)))]))"

definition build_node_catalog :: "(paired_reason \<Rightarrow> string) \<Rightarrow> template_tree \<Rightarrow> image_store \<Rightarrow> load_error + json" where
  "build_node_catalog say t s =
     bindr (load_templates t) (\<lambda>ts.
     bindr (mapr (catalog_entry t s (icon_options_of ts)) ts) (\<lambda>entries.
       Inr (JObj [(''templates'', JList entries),
         (''paired_templates'', JList (map (paired_entry say) (iter_paired_user_templates t))),
         (''icon_options'', JList (map JStr (icon_options_of ts)))])))"

section \<open>What loading gives\<close>

definition file_entry :: "(string list \<times> yaml_file) \<times> source \<Rightarrow> (string \<times> string \<times> json) option" where
  \<comment> \<open>the type, the key and the contents of a file of a supported type\<close>
  "file_entry f =
     (case f of ((path, Parsed doc), source) \<Rightarrow>
        (let payload = jor doc (JObj []); ty = lower (strip (text_or payload ''type'' (parent_name path)))
         in if is_obj payload \<and> ty \<in> set SUPPORTED_TEMPLATE_TYPES then Some (ty, stem_of (path_name path), payload) else None)
      | _ \<Rightarrow> None)"

definition template_ok :: "template_def \<Rightarrow> bool" where
  "template_ok t \<longleftrightarrow> td_type t \<in> set SUPPORTED_TEMPLATE_TYPES \<and> caps_ok (td_type t) (td_caps t)"

lemma lift_template_Inr [bindr_simps]: "lift_template r = Inr x \<longleftrightarrow> r = Inr x"
  by (cases r) (simp_all add: lift_template_def)

lemma template_of_fields:
  assumes "template_of payload ty key = Inr t"
  shows "td_type t = ty \<and> td_key t = key \<and> td_raw t = payload \<and> td_parent t = None \<and> caps_ok ty (td_caps t)"
  using assms validate_caps_ok by (auto simp: template_of_def bindr_simps)

lemma load_fileE:
  assumes "load_file f ts = Inr ts'"
  obtains "file_entry f = None" "ts' = ts"
    | ty key payload t where "file_entry f = Some (ty, key, payload)" "template_of payload ty key = Inr t"
        "ts' = filter (\<lambda>u. \<not> same_entry ty key u) ts @ [t]"
  using assms unfolding load_file_def file_entry_def
  by (auto simp: Let_def bindr_simps split: prod.splits yaml_file.splits if_splits)

lemma file_entry_type: "file_entry f = Some (ty, key, payload) \<Longrightarrow> ty \<in> set SUPPORTED_TEMPLATE_TYPES"
  by (auto simp: file_entry_def Let_def split: prod.splits yaml_file.splits if_splits)

lemma load_file_ok:
  assumes "load_file f ts = Inr ts'" and "\<forall>u\<in>set ts. template_ok u \<and> td_parent u = None"
  shows "\<forall>u\<in>set ts'. template_ok u \<and> td_parent u = None"
  using assms(1)
proof (cases rule: load_fileE)
  case (2 ty key payload t)
  then show ?thesis
    using assms(2) template_of_fields [OF 2(2)] file_entry_type [OF 2(1)] by (auto simp: template_ok_def)
qed (use assms in simp)

lemma child_kind_supported: "normalize_paired_child_kind k \<in> set SUPPORTED_TEMPLATE_TYPES"
  by (simp add: normalize_paired_child_kind_def Let_def) (simp add: SUPPORTED_TEMPLATE_TYPES_def)

lemma synthetic_ok: "synthetic_child key i c = Some u \<Longrightarrow> template_ok u \<and> td_parent u = Some key"
  using child_kind_supported validate_caps_ok
  by (auto simp: synthetic_child_def Let_def template_ok_def split: if_splits sum.splits)

lemma load_synthetic_ok: "u \<in> set (load_synthetic t) \<Longrightarrow> template_ok u \<and> td_parent u \<noteq> None"
  using synthetic_ok by (fastforce simp: load_synthetic_def map_filter_def)

lemma load_templates_split:
  assumes "load_templates t = Inr ts"
  obtains fs where "ts = fs @ load_synthetic t" "forr load_file (iter_template_paths t) [] = Inr fs"
proof (cases "tt_builtin t = None \<and> tt_user t = None")
  case True
  then have "iter_template_paths t = []" "load_synthetic t = []" "ts = []"
    using assms by (auto simp: load_templates_def iter_template_paths_def load_synthetic_def iter_paired_user_templates_def)
  then show ?thesis using that [of "[]"] by simp
next
  case False
  then show ?thesis using assms that by (auto simp: load_templates_def bindr_simps)
qed

lemma find_filter_append:
  "(\<And>x. P x \<Longrightarrow> Q x) \<Longrightarrow> \<not> P t \<Longrightarrow> List.find P (filter Q xs @ [t]) = List.find P xs"
  by (induction xs) auto

lemma find_append_skip: "(\<forall>x\<in>set xs. \<not> P x) \<Longrightarrow> List.find P (xs @ ys) = List.find P ys"
  by (induction xs) auto

lemma find_append_Some: "List.find P xs = Some y \<Longrightarrow> List.find P (xs @ ys) = Some y"
  by (induction xs) (auto split: if_splits)

lemma load_file_own:
  assumes "load_file f ts = Inr ts'" and "file_entry f = Some (ty, key, payload)"
  shows "\<exists>u. List.find (same_entry ty key) ts' = Some u \<and> td_raw u = payload"
  using assms(1)
proof (cases rule: load_fileE)
  case (2 ty' key' payload' t)
  then have "td_raw t = payload" "same_entry ty key t" "ts' = filter (\<lambda>u. \<not> same_entry ty key u) ts @ [t]"
    using assms(2) template_of_fields [OF 2(2)] by (auto simp: same_entry_def)
  then show ?thesis by (simp add: find_append_skip)
qed (use assms in simp)

lemma load_file_other:
  assumes "load_file f ts = Inr ts'" and "\<forall>p. file_entry f \<noteq> Some (ty, key, p)"
  shows "List.find (same_entry ty key) ts' = List.find (same_entry ty key) ts"
  using assms(1)
proof (cases rule: load_fileE)
  case (2 ty' key' payload' t)
  then have "\<not> same_entry ty key t" "\<And>x. same_entry ty key x \<Longrightarrow> \<not> same_entry ty' key' x"
    using assms(2) template_of_fields [OF 2(2)] by (auto simp: same_entry_def)
  then show ?thesis using 2(3) by (simp add: find_filter_append)
qed simp

section \<open>Properties\<close>

text \<open>
  C32. Every entry the service offers, from a file or from a child of a paired template, has a
  supported type and capabilities within the limits of that type.
\<close>

theorem loaded_templates_ok:
  assumes "load_templates t = Inr ts" and "u \<in> set ts"
  shows "td_type u \<in> set SUPPORTED_TEMPLATE_TYPES \<and> caps_ok (td_type u) (td_caps u)"
proof -
  obtain fs where f: "ts = fs @ load_synthetic t" "forr load_file (iter_template_paths t) [] = Inr fs"
    using load_templates_split [OF assms(1)] .
  have "\<forall>u\<in>set fs. template_ok u \<and> td_parent u = None"
    by (rule forr_inv [OF f(2)]) (simp, rule load_file_ok)
  then have "template_ok u" using assms(2) f(1) load_synthetic_ok by auto
  then show ?thesis by (simp add: template_ok_def)
qed

definition demo_tree :: template_tree where
  "demo_tree =
     \<lparr>tt_builtin = Some [([''b'', ''qemu'', ''csr.yml''], Parsed (JObj [(''name'', JStr ''CSR''), (''ram'', JInt 4096)]))],
      tt_user = Some [([''u'', ''qemu'', ''csr.yml''], Parsed (JObj [(''name'', JStr ''CSR 2''), (''ethernet'', JStr ''4'')])),
        ([''u'', ''pairs'', ''vmx.json''], Parsed (JObj [(''kind'', JStr ''paired''),
           (''nodes'', JList [JObj [(''id'', JStr ''vcp'')], JObj [(''id'', JStr ''vfp''), (''kind'', JStr ''docker'')]]),
           (''links'', JList [])]))]\<rparr>"

theorem loaded_templates_ok_witness:
  "map (\<lambda>u. (td_key u, caps_ok (td_type u) (td_caps u))) (case load_templates demo_tree of Inr ts \<Rightarrow> ts | Inl e \<Rightarrow> [])
   = [(''csr'', True), (''vmx__vcp'', True), (''vmx__vfp'', True)]"
proof -
  have k: "map td_key (case load_templates demo_tree of Inr ts \<Rightarrow> ts | Inl e \<Rightarrow> []) = [''csr'', ''vmx__vcp'', ''vmx__vfp'']"
    by code_simp
  have "\<exists>ts. load_templates demo_tree = Inr ts"
    using k by (cases "load_templates demo_tree") auto
  then obtain ts where ts: "load_templates demo_tree = Inr ts" ..
  then have "\<forall>u\<in>set ts. caps_ok (td_type u) (td_caps u)" using loaded_templates_ok [OF ts] by blast
  moreover have "map td_key ts = [''csr'', ''vmx__vcp'', ''vmx__vfp'']" using k ts by simp
  ultimately show ?thesis using ts by (auto simp: map_eq_Cons_conv)
qed

definition definers :: "string \<Rightarrow> string \<Rightarrow> (string list \<times> yaml_file) list \<Rightarrow> source \<Rightarrow> json list" where
  \<comment> \<open>the documents that the files, read in this order, hold for an entry\<close>
  "definers ty key fs s =
     map (\<lambda>(ty, key, payload). payload) (filter (\<lambda>(t, k, payload). t = ty \<and> k = key)
       (List.map_filter (\<lambda>f. file_entry (f, s)) fs))"

definition builtin_order :: "template_tree \<Rightarrow> (string list \<times> yaml_file) list" where
  "builtin_order t = sort_key fst (filter (\<lambda>p. ends_with ''.yml'' (path_name (fst p))) (case tt_builtin t of None \<Rightarrow> [] | Some fs \<Rightarrow> fs))"

definition user_order :: "template_tree \<Rightarrow> (string list \<times> yaml_file) list" where
  \<comment> \<open>the JSON files come after the YAML files\<close>
  "user_order t =
     (let fs = (case tt_user t of None \<Rightarrow> [] | Some fs \<Rightarrow> fs)
      in sort_key fst (filter (\<lambda>p. ends_with ''.yml'' (path_name (fst p))) fs)
         @ sort_key fst (filter (\<lambda>p. ends_with ''.json'' (path_name (fst p))) fs))"

lemma definers_simps [simp]:
  "definers ty key [] s = []"
  "definers ty key (fs @ gs) s = definers ty key fs s @ definers ty key gs s"
  "definers ty key (f # fs) s =
     (case file_entry (f, s) of None \<Rightarrow> [] | Some (t, k, payload) \<Rightarrow> if t = ty \<and> k = key then [payload] else [])
     @ definers ty key fs s"
  by (auto simp: definers_def map_filter_def split: option.splits)

lemma definers_type: "definers ty key fs s \<noteq> [] \<Longrightarrow> ty \<in> set SUPPORTED_TEMPLATE_TYPES"
  by (induction fs) (auto dest: file_entry_type split: option.splits if_splits)

lemma load_files_entry:
  assumes "forr load_file (map (\<lambda>f. (f, s)) fs) ts = Inr ts'"
  shows "map_option td_raw (List.find (same_entry ty key) ts')
    = (if definers ty key fs s = [] then map_option td_raw (List.find (same_entry ty key) ts)
       else Some (last (definers ty key fs s)))"
  using assms
proof (induction fs arbitrary: ts)
  case (Cons f fs)
  then obtain t1 where l: "load_file (f, s) ts = Inr t1" "forr load_file (map (\<lambda>f. (f, s)) fs) t1 = Inr ts'"
    by (auto simp: bindr_simps)
  show ?case
  proof (cases "\<exists>p. file_entry (f, s) = Some (ty, key, p)")
    case True
    then obtain p where p: "file_entry (f, s) = Some (ty, key, p)" ..
    then show ?thesis using Cons.IH [OF l(2)] load_file_own [OF l(1) p] by auto
  next
    case False
    then have "(case file_entry (f, s) of None \<Rightarrow> [] | Some (t, k, payload) \<Rightarrow> if t = ty \<and> k = key then [payload] else []) = []"
      by (auto split: option.splits)
    then show ?thesis using Cons.IH [OF l(2)] load_file_other [OF l(1)] False by simp
  qed
qed simp

lemma template_paths_order:
  "iter_template_paths t = map (\<lambda>f. (f, Builtin)) (builtin_order t) @ map (\<lambda>f. (f, User)) (user_order t)"
  by (simp add: iter_template_paths_def builtin_order_def user_order_def with_suffix_def Let_def split: option.splits)

text \<open>
  C33. User files take the place of built-in ones: lookup of an entry that a file of the user directory
  defines gives the document of the last such file, whatever the built-in files hold, the YAML files in
  the order of their paths being followed by the JSON files; only an entry that no user file defines
  comes from the built-in directory, from the last YAML file that defines it.
\<close>

theorem last_file_defines_entry:
  assumes "get_template t ty key = Inr u"
    and "definers ty key (user_order t) User \<noteq> [] \<or> definers ty key (builtin_order t) Builtin \<noteq> []"
  shows "td_raw u = (if definers ty key (user_order t) User \<noteq> [] then last (definers ty key (user_order t) User)
    else last (definers ty key (builtin_order t) Builtin))"
proof -
  obtain ts where ts: "load_templates t = Inr ts" using assms(1) by (auto simp: get_template_def bindr_simps)
  obtain fs where f: "ts = fs @ load_synthetic t" "forr load_file (iter_template_paths t) [] = Inr fs"
    using load_templates_split [OF ts] .
  obtain bs where l: "forr load_file (map (\<lambda>f. (f, Builtin)) (builtin_order t)) [] = Inr bs"
      "forr load_file (map (\<lambda>f. (f, User)) (user_order t)) bs = Inr fs"
    using f(2) by (auto simp: template_paths_order forr_append bindr_simps)
  have "ty \<in> set SUPPORTED_TEMPLATE_TYPES" using assms(2) definers_type by metis
  then have n: "normalize_type ty = Inr ty" by (auto simp: normalize_type_def SUPPORTED_TEMPLATE_TYPES_def) code_simp+
  have found: "td_raw u = p" if "map_option td_raw (List.find (same_entry ty key) fs) = Some p" for p
    using that assms(1) ts f(1) n find_append_Some by (fastforce simp: get_template_def)
  show ?thesis
    by (rule found) (use assms(2) load_files_entry [OF l(1), of ty key] load_files_entry [OF l(2), of ty key] in auto)
qed

theorem last_file_defines_entry_witness:
  "(case get_template demo_tree ''qemu'' ''csr'' of Inr u \<Rightarrow> td_raw u | Inl e \<Rightarrow> JNull)
     = JObj [(''name'', JStr ''CSR 2''), (''ethernet'', JStr ''4'')]"
proof -
  have d: "definers ''qemu'' ''csr'' (user_order demo_tree) User = [JObj [(''name'', JStr ''CSR 2''), (''ethernet'', JStr ''4'')]]"
    by code_simp
  have "map_sum (\<lambda>e. ()) td_key (get_template demo_tree ''qemu'' ''csr'') = Inr ''csr''" by code_simp
  then obtain u where u: "get_template demo_tree ''qemu'' ''csr'' = Inr u"
    by (cases "get_template demo_tree ''qemu'' ''csr''") auto
  show ?thesis using last_file_defines_entry [OF u] by (simp add: u d)
qed

text \<open>
  An upload is written where the given image name leads: an absolute name, or one with \<open>..\<close>, leaves
  the image directory.
\<close>

theorem upload_leaves_image_directory:
  "upload_target demo_tree \<lparr>is_root = ''/var/lib/nova-ve/images'', is_dirs = [], is_marked = []\<rparr>
     ''qemu'' ''csr'' ''job'' (Some ''/etc/cron.d'') = Inr ''/etc/cron.d/job''"
  by code_simp

end
