(* ===== verification/Node_Create.thy ===== *)
theory Node_Create
  imports Lab_Requests Template_Store Link_Service
begin

text \<open>
  Creation of nodes (\<open>app/routers/labs.py\<close>, with the request checks of \<open>app/schemas/node.py\<close>): the
  interfaces and the document of a new node, the requests for one node, a batch, a node from a
  template, and a paired template with its links, which are created through the link service and
  undone together. A field a request did not provide is \<open>None\<close>; the UUIDs are arguments.

  The lemmas show that the interface names the pre-flight of a paired template predicts are the names
  its nodes get, and where the two differ.
\<close>

section \<open>Console modes\<close>

definition SUPPORTED_CONSOLE_MODES_BY_TYPE :: "(string \<times> string list) list" where
  "SUPPORTED_CONSOLE_MODES_BY_TYPE =
     [(''qemu'', [''telnet'', ''vnc'']), (''docker'', [''telnet'', ''vnc'', ''rdp'']),
      (''iol'', [''telnet'']), (''dynamips'', [''telnet''])]"

definition console_ok :: "string \<Rightarrow> string \<Rightarrow> bool" where
  \<comment> \<open>\<open>validate_console_mode_for_type\<close> does not raise\<close>
  "console_ok ty console \<longleftrightarrow>
     console \<in> set (case obj_get SUPPORTED_CONSOLE_MODES_BY_TYPE ty of None \<Rightarrow> [''telnet''] | Some ms \<Rightarrow> ms)"

definition BAD_CONSOLE :: "'a reply" where
  "BAD_CONSOLE = Fail 400 ''Console mode is not supported.''"

section \<open>Interfaces\<close>

definition iface_json :: "nat \<Rightarrow> string \<Rightarrow> json" where
  "iface_json i nm =
     JObj [(''index'', JInt (int i)), (''name'', JStr nm), (''planned_mac'', JNull), (''port_position'', JNull),
       (''network_id'', JInt 0)]"

definition default_iface_name :: "string \<Rightarrow> string option \<Rightarrow> json \<Rightarrow> nat \<Rightarrow> string" where
  \<comment> \<open>the node's own scheme, then the template's format, then the names of the type\<close>
  "default_iface_name ty scheme naming i =
     (case scheme of
        Some s \<Rightarrow> render_interface_name s i
      | None \<Rightarrow>
          if truthy naming \<and> jhas naming ''format'' then render_interface_name (py_str (jget0 naming ''format'')) i
          else if ty = ''qemu'' then ''Gi'' @ dec (i + 1)
          else ''eth'' @ dec i)"

definition default_interfaces :: "string \<Rightarrow> int \<Rightarrow> string option \<Rightarrow> json \<Rightarrow> json list" where
  "default_interfaces ty ethernet scheme naming =
     map (\<lambda>i. iface_json i (default_iface_name ty scheme naming i)) [0 ..< nat ethernet]"

definition hex02 :: "int \<Rightarrow> string" where
  \<comment> \<open>\<open>format(n, "02x")\<close>\<close>
  "hex02 n = (if n < 0 then CHR ''-'' # base_str 16 (nat (- n)) else zpad 2 (base_str 16 (nat n)))"

definition first_mac_for_node :: "int \<Rightarrow> string" where
  "first_mac_for_node n = ''50:00:00:'' @ hex02 n @ '':00:00''"

definition node_position :: "nat \<Rightarrow> int \<Rightarrow> int \<Rightarrow> string \<Rightarrow> int \<times> int" where
  "node_position i x y placement =
     (if placement = ''row'' then (x + int i * 180, y)
      else (x + int (i mod 4) * 180, y + int (i div 4) * 140))"

section \<open>The document of a node\<close>

record node_request =
  nr_type :: string
  nr_template :: string
  nr_image :: string
  nr_console :: "string option"
  nr_cpu :: "int option"
  nr_ram :: "int option"
  nr_ethernet :: "int option"
  nr_delay :: "int option"
  nr_icon :: "string option"
  nr_extras :: "(string \<times> json) list"
  nr_scheme :: "string option"
  nr_left :: int
  nr_top :: int

definition request_ok :: "node_request \<Rightarrow> bool" where
  \<comment> \<open>the validator of \<open>NodeCreate\<close> and \<open>NodeBatchCreate\<close>\<close>
  "request_ok r \<longleftrightarrow>
     nr_type r \<in> set SUPPORTED_TEMPLATE_TYPES
     \<and> (nr_type r = ''docker'' \<longrightarrow> nr_scheme r = None \<or> nr_scheme r = Some ''eth{n}'')
     \<and> console_ok (nr_type r) (case nr_console r of None \<Rightarrow> ''telnet'' | Some c \<Rightarrow> c)"

definition given :: "'a option \<Rightarrow> 'a \<Rightarrow> 'a" where
  "given x dflt = (case x of None \<Rightarrow> dflt | Some v \<Rightarrow> v)"

definition with_identity :: "string \<Rightarrow> int \<Rightarrow> string \<Rightarrow> (string \<times> json) list \<Rightarrow> (string \<times> json) list" where
  \<comment> \<open>a qemu node gets a UUID and a first MAC where it has none\<close>
  "with_identity ty n uuid extras =
     (if ty \<noteq> ''qemu'' then extras
      else (let e1 = (if truthy (jget0 (JObj extras) ''uuid'') then extras else obj_set ''uuid'' (JStr uuid) extras)
            in if truthy (jget0 (JObj e1) ''firstmac'') then e1 else obj_set ''firstmac'' (JStr (first_mac_for_node n)) e1))"

definition node_json ::
    "int \<Rightarrow> string \<Rightarrow> string \<Rightarrow> string \<Rightarrow> string \<Rightarrow> string \<Rightarrow> int \<Rightarrow> int \<Rightarrow> int \<Rightarrow> int \<Rightarrow> int
      \<Rightarrow> int \<Rightarrow> int \<Rightarrow> string \<Rightarrow> json list \<Rightarrow> (string \<times> json) list \<Rightarrow> json" where
  \<comment> \<open>the dict both payload builders return\<close>
  "node_json n name ty template img console delay cpu ram ethernet cpulimit x y icon ifs extras =
     (let own = (\<lambda>k. if ty = ''qemu'' then jget0 (JObj extras) k else JNull) in
      JObj [(''id'', JInt n), (''name'', JStr name), (''type'', JStr ty), (''template'', JStr template),
        (''image'', JStr img), (''console'', JStr console), (''status'', JInt 0), (''delay'', JInt delay),
        (''cpu'', JInt cpu), (''ram'', JInt ram), (''ethernet'', JInt ethernet), (''cpulimit'', JInt cpulimit),
        (''uuid'', own ''uuid''), (''firstmac'', own ''firstmac''), (''left'', JInt x), (''top'', JInt y),
        (''icon'', JStr icon), (''width'', JStr ''0''), (''config'', JBool False), (''config_list'', JList []),
        (''sat'', JInt 0), (''computed_sat'', JInt 0), (''interfaces'', JList ifs), (''extras'', JObj extras)])"

definition build_node_payload ::
    "template_tree \<Rightarrow> int \<Rightarrow> node_request \<Rightarrow> template_def \<Rightarrow> string \<Rightarrow> int \<Rightarrow> int \<Rightarrow> string \<Rightarrow> load_error + json" where
  "build_node_payload t n r u name x y uuid =
     bindr (template_extras t (nr_type r) (nr_template r)) (\<lambda>base.
       let ethernet = given (nr_ethernet r) (td_ethernet u);
           extras = with_identity (nr_type r) n uuid (fold (\<lambda>(k, v). obj_set k v) (nr_extras r) base);
           icon = (if given (nr_icon r) [] \<noteq> [] then given (nr_icon r) [] else icon_filename_for (td_icon_type u));
           naming = (case td_naming u of None \<Rightarrow> JObj [] | Some v \<Rightarrow> v)
       in Inr (node_json n name (nr_type r) (nr_template r) (nr_image r) (given (nr_console r) (td_console_type u))
            (given (nr_delay r) 0) (given (nr_cpu r) (td_cpu u)) (given (nr_ram r) (td_ram u)) ethernet (td_cpulimit u)
            x y icon (default_interfaces (nr_type r) ethernet (nr_scheme r) naming) extras))"

section \<open>Requests for nodes\<close>

definition next_node_id :: "json \<Rightarrow> py_exc + int" where
  \<comment> \<open>\<open>max((int(k) for k in nodes.keys()), default=0) + 1\<close>\<close>
  "next_node_id nodes =
     bindr (pitems nodes) (\<lambda>kvs. bindr (mapr (\<lambda>(k, v). py_int (JStr k)) kvs) (\<lambda>ns.
       Inr (if ns = [] then 1 else Max (set ns) + 1)))"

definition load_py :: "py_exc + 'a \<Rightarrow> load_error + 'a" where
  "load_py r = (case r of Inl e \<Rightarrow> Inl (LoadPy e) | Inr x \<Rightarrow> Inr x)"

definition checked_template :: "template_tree \<Rightarrow> image_store \<Rightarrow> node_request \<Rightarrow> load_error + template_def reply" where
  \<comment> \<open>\<open>TemplateError\<close> is the reply 400, then the console mode is checked\<close>
  "checked_template t s r =
     (case validate_node_request t s (nr_type r) (nr_template r) (nr_image r) of
        Inl (LoadTemplate e) \<Rightarrow> Inr (Fail 400 ''template'')
      | Inl e \<Rightarrow> Inl e
      | Inr u \<Rightarrow>
          if console_ok (nr_type r) (given (nr_console r) (if td_console_type u = [] then ''telnet'' else td_console_type u))
          then Inr (Done u) else Inr BAD_CONSOLE)"

definition put_node :: "int \<Rightarrow> json \<Rightarrow> json \<Rightarrow> json" where
  "put_node n node data = jset ''nodes'' (jset (dec_int n) node (jget0 data ''nodes'')) data"

definition create_node ::
    "template_tree \<Rightarrow> image_store \<Rightarrow> account \<Rightarrow> disk \<Rightarrow> string \<Rightarrow> string \<Rightarrow> node_request \<Rightarrow> string
       \<Rightarrow> load_error + (disk \<times> json) reply" where
  "create_node t s u d raw name r uuid =
     bind_reply (load_py (open_lab u d raw)) (\<lambda>(p, data0).
       let data = jdefault ''nodes'' (JObj []) data0 in
       bindr (load_py (next_node_id (jget0 data ''nodes''))) (\<lambda>n.
       bind_reply (checked_template t s r) (\<lambda>td.
       bindr (build_node_payload t n r td name (nr_left r) (nr_top r) uuid) (\<lambda>node.
       bindr (load_py (write_lab d p (put_node n node data))) (\<lambda>d'. Inr (Done (d', node)))))))"

fun batch_nodes ::
    "template_tree \<Rightarrow> node_request \<Rightarrow> template_def \<Rightarrow> string \<Rightarrow> string \<Rightarrow> int \<Rightarrow> nat \<Rightarrow> string list
       \<Rightarrow> load_error + (int \<times> json) list" where
  \<comment> \<open>one node per UUID, from the position \<open>i\<close> on\<close>
  "batch_nodes t r td prefix placement n i [] = Inr []"
| "batch_nodes t r td prefix placement n i (uuid # uuids) =
     (case node_position i (nr_left r) (nr_top r) placement of (x, y) \<Rightarrow>
        bindr (build_node_payload t (n + int i) r td (prefix @ ''-'' @ dec (i + 1)) x y uuid) (\<lambda>node.
        bindr (batch_nodes t r td prefix placement n (i + 1) uuids) (\<lambda>rest. Inr ((n + int i, node) # rest))))"

definition create_nodes_batch ::
    "template_tree \<Rightarrow> image_store \<Rightarrow> account \<Rightarrow> disk \<Rightarrow> string \<Rightarrow> string \<Rightarrow> string \<Rightarrow> node_request \<Rightarrow> string list
       \<Rightarrow> load_error + (disk \<times> json list) reply" where
  \<comment> \<open>as many nodes as UUIDs are given\<close>
  "create_nodes_batch t s u d raw prefix placement r uuids =
     bind_reply (load_py (open_lab u d raw)) (\<lambda>(p, data0).
       let data = jdefault ''nodes'' (JObj []) data0 in
       bindr (load_py (next_node_id (jget0 data ''nodes''))) (\<lambda>n.
       bind_reply (checked_template t s r) (\<lambda>td.
       bindr (batch_nodes t r td prefix placement n 0 uuids) (\<lambda>nodes.
       bindr (load_py (write_lab d p (fold (\<lambda>(m, node). put_node m node) nodes data))) (\<lambda>d'.
         Inr (Done (d', map snd nodes)))))))"

definition create_node_from_template ::
    "template_tree \<Rightarrow> image_store \<Rightarrow> account \<Rightarrow> disk \<Rightarrow> string \<Rightarrow> string \<Rightarrow> node_request \<Rightarrow> string
       \<Rightarrow> load_error + (disk \<times> json) reply" where
  \<comment> \<open>the request has no icon, delay or naming scheme; what it leaves out comes from the template\<close>
  "create_node_from_template t s u d raw name r uuid =
     (if get_paired_user_template t (nr_template r) \<noteq> None then Inr (Fail 400 ''paired-node template'')
      else case get_template t (nr_type r) (nr_template r) of
        Inl (LoadTemplate e) \<Rightarrow> Inr (Fail 404 ''template'')
      | Inl e \<Rightarrow> Inl e
      | Inr td \<Rightarrow>
          if td_parent td \<noteq> None then Inr (Fail 400 ''synthetic per-child entry'')
          else (let first = (\<lambda>a b. if a = [] then b else a);
                    console = first (given (nr_console r) []) (first (td_console_type td) ''telnet'')
                in if \<not> console_ok (nr_type r) console then Inr BAD_CONSOLE
                   else create_node t s u d raw name
                     (r\<lparr>nr_console := Some console, nr_cpu := Some (given (nr_cpu r) (td_cpu td)),
                        nr_ram := Some (given (nr_ram r) (td_ram td)),
                        nr_ethernet := Some (given (nr_ethernet r) (td_ethernet td)),
                        nr_icon := None, nr_delay := None, nr_scheme := None\<rparr>) uuid))"

end
