(* ===== verification/Lab_Edit.thy ===== *)
theory Lab_Edit
  imports Node_Create
begin

text \<open>
  Edits of a lab document by request (\<open>app/routers/labs.py\<close>): the update and the deletion of a node,
  the layout, the topology of the canvas, and the list of a node's interfaces. Whether a node runs,
  and what stopping it raises, are arguments. The layout and the topology are written under the lab
  lock; the update and the deletion of a node are not, and here are the steps between which another
  request may run only when a statement says so.
\<close>

section \<open>Update of a node\<close>

definition EDITABLE_WHILE_RUNNING :: "string list" where
  "EDITABLE_WHILE_RUNNING = [''name'', ''icon'', ''left'', ''top'', ''interface_naming_scheme'']"

definition EDITABLE_WHILE_STOPPED :: "string list" where
  "EDITABLE_WHILE_STOPPED = [''image'', ''cpu'', ''ram'', ''ethernet'', ''console'', ''delay'', ''extras'']"

definition NODE_FIELDS_MUTABLE :: "string list" where
  "NODE_FIELDS_MUTABLE = EDITABLE_WHILE_RUNNING @ EDITABLE_WHILE_STOPPED @ [''config'']"

definition changed_field :: "json \<Rightarrow> (string \<times> json) list \<Rightarrow> string \<Rightarrow> bool" where
  \<comment> \<open>the form sends every field back: only a value that differs counts\<close>
  "changed_field node upd k \<longleftrightarrow> obj_get upd k \<noteq> None \<and> \<not> py_eq (jget0 (JObj upd) k) (jget0 node k)"

definition node_text :: "json \<Rightarrow> string \<Rightarrow> string \<Rightarrow> string" where
  \<comment> \<open>\<open>str(node.get(k, dflt))\<close>\<close>
  "node_text node k dflt = py_str (jget node k (JStr dflt))"

definition validate_node_update ::
    "template_tree \<Rightarrow> image_store \<Rightarrow> json \<Rightarrow> (string \<times> json) list \<Rightarrow> bool \<Rightarrow> load_error + string option" where
  \<comment> \<open>\<open>_validate_node_update_request\<close>: the message of the reply 400, shortened\<close>
  "validate_node_update t s node upd running =
     (if \<exists>p\<in>set upd. fst p \<notin> set NODE_FIELDS_MUTABLE then Inr (Some ''Unsupported node field update'')
      else if running \<and> list_ex (changed_field node upd) EDITABLE_WHILE_STOPPED then Inr (Some ''Stop the node before changing'')
      else if changed_field node upd ''console''
              \<and> \<not> console_ok (node_text node ''type'' ''qemu'') (py_str (jget (JObj upd) ''console'' (JStr [])))
           then Inr (Some ''Console mode is not supported'')
      else if changed_field node upd ''image'' then
        (case validate_node_request t s (node_text node ''type'' ''qemu'') (node_text node ''template'' [])
                (py_str (jor (jget0 (JObj upd) ''image'') (JStr []))) of
           Inl (LoadTemplate e) \<Rightarrow> Inr (Some ''template'')
         | Inl e \<Rightarrow> Inl e
         | Inr u \<Rightarrow> Inr None)
      else Inr None)"

definition py_take :: "int \<Rightarrow> 'a list \<Rightarrow> 'a list" where
  \<comment> \<open>\<open>xs[:n]\<close>\<close>
  "py_take n xs = (if 0 \<le> n then take (nat n) xs else take (length xs - nat (- n)) xs)"

definition slice_of :: "json \<Rightarrow> int \<Rightarrow> py_exc + json list" where
  "slice_of v n =
     (case v of JList xs \<Rightarrow> Inr (py_take n xs) | JStr s \<Rightarrow> Inr (map (\<lambda>c. JStr [c]) (py_take n s)) | _ \<Rightarrow> Inl PyTypeError)"

definition kept_iface :: "json list \<Rightarrow> nat \<times> json \<Rightarrow> py_exc + json" where
  \<comment> \<open>an existing interface at position \<open>i\<close> of the resized list\<close>
  "kept_iface resized p =
     (case p of (i, iface) \<Rightarrow>
        if \<not> is_obj iface then Inl PyAttributeError
        else if length resized \<le> i then Inl PyIndexError
        else (let copy = (\<lambda>k f. case jfind iface k of None \<Rightarrow> f | Some v \<Rightarrow> jset k v f);
                  f1 = jset ''name'' (jget iface ''name'' (jget0 (resized ! i) ''name'')) (resized ! i);
                  f2 = jset ''network_id'' (jget iface ''network_id'' (JInt 0)) f1
              in Inr (copy ''port_position'' (copy ''planned_mac'' f2))))"

definition resize_interfaces :: "json \<Rightarrow> string \<Rightarrow> int \<Rightarrow> py_exc + json list" where
  "resize_interfaces existing ty ethernet =
     bindr (slice_of existing ethernet) (\<lambda>old.
       let resized = default_interfaces ty ethernet None JNull in
       bindr (mapr (kept_iface resized) (enumerate 0 old)) (\<lambda>kept. Inr (kept @ drop (length kept) resized)))"

definition updated_node :: "json \<Rightarrow> (string \<times> json) list \<Rightarrow> py_exc + json" where
  \<comment> \<open>the fields that are not null, then the interfaces\<close>
  "updated_node node upd =
     (let node1 = fold (\<lambda>(k, v) nd. if v = JNull then nd else jset k v nd) upd node in
      bindr (py_int (jget node1 ''ethernet'' (JInt 0))) (\<lambda>ethernet.
      bindr (resize_interfaces (jget node1 ''interfaces'' (JList []))
               (case jget node1 ''type'' (JStr ''qemu'') of JStr ty \<Rightarrow> ty | _ \<Rightarrow> []) ethernet) (\<lambda>ifs.
        Inr (jset ''interfaces'' (JList ifs) node1))))"

definition NO_SUCH_NODE :: "'a reply" where
  "NO_SUCH_NODE = Fail 404 ''Node does not exist.''"

definition update_node ::
    "template_tree \<Rightarrow> image_store \<Rightarrow> account \<Rightarrow> disk \<Rightarrow> string \<Rightarrow> int \<Rightarrow> (string \<times> json) list \<Rightarrow> bool
       \<Rightarrow> load_error + (disk \<times> json) reply" where
  "update_node t s u d raw n upd running =
     bind_reply (load_py (open_lab u d raw)) (\<lambda>(p, data).
     bindr (load_py (pget (jget data ''nodes'' (JObj [])) (dec_int n) JNull)) (\<lambda>node.
       if \<not> truthy node then Inr NO_SUCH_NODE
       else if \<not> is_obj node then Inl (LoadPy PyAttributeError)
       else bindr (validate_node_update t s node upd running) (\<lambda>problem.
         if problem \<noteq> None then Inr (Fail 400 (the problem))
         else bindr (load_py (updated_node node upd)) (\<lambda>node'.
              bindr (load_py (write_lab d p (put_node n node' data))) (\<lambda>d'. Inr (Done (d', node')))))))"

section \<open>Deletion of a node\<close>

definition names_node :: "int \<Rightarrow> json \<Rightarrow> bool" where
  \<comment> \<open>an end of a link that is on the node\<close>
  "names_node n ep \<longleftrightarrow> is_obj ep \<and> py_eq (jget0 ep ''node_id'') (JInt n)"

definition link_of_node :: "int \<Rightarrow> json \<Rightarrow> bool" where
  "link_of_node n l \<longleftrightarrow> is_obj l \<and> (names_node n (jget0 l ''from'') \<or> names_node n (jget0 l ''to''))"

definition entry_of_node :: "int \<Rightarrow> json \<Rightarrow> py_exc + bool" where
  "entry_of_node n e =
     (let nm = JStr (''node'' @ dec_int n) in
      bindr (pget e ''source'' JNull) (\<lambda>s. bindr (pget e ''destination'' JNull) (\<lambda>t. Inr (py_eq s nm \<or> py_eq t nm))))"

definition without_node :: "int \<Rightarrow> json \<Rightarrow> py_exc + json" where
  \<comment> \<open>the document without the node, its topology entries and its links\<close>
  "without_node n data =
     (let nodes = jget data ''nodes'' (JObj []) in
      bindr (piter (jget data ''topology'' (JList []))) (\<lambda>ts.
      bindr (mapr (\<lambda>e. bindr (entry_of_node n e) (\<lambda>b. Inr (b, e))) ts) (\<lambda>marked.
      bindr (piter (jor (jget data ''links'' (JList [])) (JList []))) (\<lambda>ls.
        Inr (jset ''links'' (JList (filter (\<lambda>l. \<not> link_of_node n l) ls))
              (jset ''topology'' (JList (map snd (filter (\<lambda>p. \<not> fst p) marked)))
                (jset ''nodes'' (jdel (dec_int n) nodes) data)))))))"

definition rt_of_py :: "py_exc + 'a \<Rightarrow> rt_error + 'a" where
  "rt_of_py r = (case r of Inl e \<Rightarrow> Inl (RtHost (Py e)) | Inr x \<Rightarrow> Inr x)"

definition delete_node :: "account \<Rightarrow> disk \<Rightarrow> string \<Rightarrow> int \<Rightarrow> rt_error option \<Rightarrow> rt_error + disk reply" where
  \<comment> \<open>\<open>wiped\<close> is what \<open>wipe_node\<close> raised; runtime errors of nodes are dropped\<close>
  "delete_node u d raw n wiped =
     bind_reply (rt_of_py (open_lab u d raw)) (\<lambda>(p, data).
       let nodes = jget data ''nodes'' (JObj []) in
       bindr (rt_of_py (pin (dec_int n) nodes)) (\<lambda>found.
         if \<not> found then Inr NO_SUCH_NODE
         else case wiped of
           Some (RtHost h) \<Rightarrow> Inl (RtHost h)
         | Some RtContention \<Rightarrow> Inl RtContention
         | _ \<Rightarrow>
            if \<not> is_obj nodes then Inl (RtHost (Py (if is_list nodes then PyTypeError else PyAttributeError)))
            else bindr (rt_of_py (without_node n data)) (\<lambda>data'.
                 bindr (rt_of_py (write_lab d p data')) (\<lambda>d'. Inr (Done d')))))"

section \<open>Layout\<close>

definition LAYOUT_TOP :: "string list" where "LAYOUT_TOP = [''nodes'', ''networks'', ''viewport'', ''defaults'']"
definition LAYOUT_ENTRY :: "string list" where "LAYOUT_ENTRY = [''id'', ''left'', ''top'']"
definition LAYOUT_DEFAULTS :: "string list" where "LAYOUT_DEFAULTS = [''link_style'']"
definition LAYOUT_VIEWPORT :: "string list" where "LAYOUT_VIEWPORT = [''x'', ''y'', ''zoom'']"

definition forbidden_keys :: "string list \<Rightarrow> string \<Rightarrow> json \<Rightarrow> string list" where
  "forbidden_keys allowed prefix v = map (\<lambda>k. prefix @ k) (filter (\<lambda>k. k \<notin> set allowed) (keys (obj_of v)))"

definition forbidden_entries :: "json \<Rightarrow> string \<Rightarrow> string list" where
  "forbidden_entries body k =
     (case jget0 body k of
        JList es \<Rightarrow> concat (map (\<lambda>e. if is_obj e then forbidden_keys LAYOUT_ENTRY (k @ ''[*].'') e else [k @ ''[*]'']) es)
      | JNull \<Rightarrow> []
      | _ \<Rightarrow> [k])"

definition forbidden_block :: "json \<Rightarrow> string \<Rightarrow> string list \<Rightarrow> string list" where
  "forbidden_block body k allowed =
     (case jget0 body k of JObj kvs \<Rightarrow> forbidden_keys allowed (k @ ''.'') (JObj kvs) | JNull \<Rightarrow> [] | _ \<Rightarrow> [k])"

definition layout_forbidden :: "json \<Rightarrow> string list" where
  \<comment> \<open>in order, without repetition\<close>
  "layout_forbidden body =
     (if \<not> is_obj body then [''<body>'']
      else rev (remdups (rev (forbidden_keys LAYOUT_TOP [] body @ forbidden_entries body ''nodes'' @ forbidden_entries body ''networks''
        @ forbidden_block body ''viewport'' LAYOUT_VIEWPORT @ forbidden_block body ''defaults'' LAYOUT_DEFAULTS))))"

definition moved :: "json \<Rightarrow> json \<Rightarrow> py_exc + json" where
  \<comment> \<open>the record with the coordinates the entry has\<close>
  "moved entry v =
     (let put = (\<lambda>k v. case jfind entry k of None \<Rightarrow> Inr v | Some c \<Rightarrow> bindr (py_int c) (\<lambda>i. Inr (jset k (JInt i) v)))
      in bindr (put ''left'' v) (put ''top''))"

definition move_entry :: "string \<Rightarrow> json \<Rightarrow> json \<times> int list \<Rightarrow> py_exc + json \<times> int list" where
  "move_entry kind entry st =
     (case st of (data, ids) \<Rightarrow>
       (let oid = jget0 entry ''id'' in
        if oid = JNull then Inr st
        else bindr (pget (jor (jget0 data kind) (JObj [])) (py_str oid) JNull) (\<lambda>v.
          if \<not> is_obj v then Inr st
          else bindr (moved entry v) (\<lambda>v'.
               bindr (py_int oid) (\<lambda>i.
                 Inr (jset kind (jset (py_str oid) v' (jget0 data kind)) data, ids @ [i]))))))"

definition merge_block :: "json \<Rightarrow> string \<Rightarrow> json \<Rightarrow> py_exc + json" where
  "merge_block body k data =
     (case jget0 body k of
        JObj kvs \<Rightarrow>
          (let old = jor (jget0 data k) (JObj []) in
           if is_obj old then Inr (jset k (jupdate kvs old) data) else Inl PyTypeError)
      | _ \<Rightarrow> Inr data)"

definition layout_doc :: "json \<Rightarrow> json \<Rightarrow> py_exc + json \<times> int list \<times> int list" where
  "layout_doc body data =
     (let entries = (\<lambda>k. list_of (jor (jget body k (JList [])) (JList []))) in
      bindr (forr (move_entry ''nodes'') (entries ''nodes'') (data, [])) (\<lambda>(d1, ns).
      bindr (forr (move_entry ''networks'') (entries ''networks'') (d1, [])) (\<lambda>(d2, ws).
      bindr (merge_block body ''viewport'' d2) (\<lambda>d3.
      bindr (merge_block body ''defaults'' d3) (\<lambda>d4. Inr (jdel ''topology'' d4, ns, ws))))))"

definition put_layout :: "account \<Rightarrow> ('w, 'r) link_world \<Rightarrow> string \<Rightarrow> json \<Rightarrow> ('w, 'r) link_world \<times> (py_exc + (int list \<times> int list) reply)" where
  "put_layout u w raw body =
     (case scoped_lab_path u raw True of
        None \<Rightarrow> (w, Inr ACCESS_DENIED)
      | Some path \<Rightarrow>
          if layout_forbidden body \<noteq> [] then (w, Inr (Fail 409 ''structural mutation forbidden''))
          else (case normalize_lab_path path of
            Inl e \<Rightarrow> (w, Inl e)
          | Inr p \<Rightarrow>
              (case bind_reply (read_lab_data (lw_disk w) p) (\<lambda>data.
                      bindr (layout_doc body data) (\<lambda>(data', ids).
                      bindr (write_lab (lw_disk w) p data') (\<lambda>d. Inr (Done (d, ids))))) of
                 Inl e \<Rightarrow> (w, Inl e)
               | Inr (Fail c m) \<Rightarrow> (w, Inr (Fail c m))
               | Inr (Done (d, ns, ws)) \<Rightarrow>
                   (w\<lparr>lw_disk := d,
                      lw_hub := publish_events p [(''layout_updated'',
                        JObj [(''node_ids'', JList (map JInt ns)), (''network_ids'', JList (map JInt ws))])] (lw_hub w)\<rparr>,
                    Inr (Done (ns, ws))))))"

section \<open>Topology\<close>

definition NETWORK_TOPOLOGY_FIELDS :: "string list" where
  "NETWORK_TOPOLOGY_FIELDS =
     [''name'', ''left'', ''top'', ''icon'', ''width'', ''style'', ''linkstyle'', ''color'', ''label'', ''visibility'', ''smart'']"

definition patch_record :: "(string \<Rightarrow> bool) \<Rightarrow> string \<Rightarrow> string \<times> json \<Rightarrow> json \<Rightarrow> py_exc + json" where
  \<comment> \<open>the fields of a patch that are allowed and not null\<close>
  "patch_record allowed kind p data =
     (case p of (k, patch) \<Rightarrow>
       bindr (pget (jget data kind (JObj [])) k JNull) (\<lambda>v.
         if \<not> truthy v \<or> \<not> is_obj patch then Inr data
         else (let upd = filter (\<lambda>(f, x). allowed f \<and> x \<noteq> JNull) (obj_of patch) in
               if upd = [] then Inr data
               else if \<not> is_obj v then Inl PyTypeError
               else Inr (jset kind (jset k (jupdate upd v) (jget0 data kind)) data))))"

definition topology_doc :: "json \<Rightarrow> json \<Rightarrow> py_exc + json" where
  "topology_doc payload data =
     (if is_list payload then Inr (jset ''topology'' payload data)
      else bindr (pget payload ''topology'' (jget data ''topology'' (JList []))) (\<lambda>t.
           bindr (bindr (pget payload ''nodes'' (JObj [])) pitems) (\<lambda>nodes.
           bindr (forr (patch_record (\<lambda>f. True) ''nodes'') nodes (jset ''topology'' t data)) (\<lambda>d1.
           bindr (bindr (pget payload ''networks'' (JObj [])) pitems) (\<lambda>nets.
             forr (patch_record (\<lambda>f. f \<in> set NETWORK_TOPOLOGY_FIELDS) ''networks'') nets d1)))))"

definition update_topology ::
    "'r node_ops \<Rightarrow> account \<Rightarrow> ('w, 'r) link_world \<Rightarrow> string \<Rightarrow> json \<Rightarrow> ('w, 'r) link_world \<times> (py_exc + json reply)" where
  "update_topology ops u w raw payload =
     (case scoped_lab_path u raw True of
        None \<Rightarrow> (w, Inr ACCESS_DENIED)
      | Some path \<Rightarrow>
          (case bindr (normalize_lab_path path) (\<lambda>_.
                  bind_reply (read_lab_data (lw_disk w) path) (\<lambda>data.
                    bindr (topology_doc payload data) (\<lambda>data'.
                    bindr (write_lab (lw_disk w) path data') (\<lambda>d. Inr (Done (d, jget data' ''topology'' (JList []))))))) of
             Inl e \<Rightarrow> (w, Inl e)
           | Inr (Fail c m) \<Rightarrow> (w, Inr (Fail c m))
           | Inr (Done (d, t)) \<Rightarrow>
               (w\<lparr>lw_disk := d, lw_runtime := snd (reconcile_qemu_nodes ops d path (lw_runtime w))\<rparr>, Inr (Done t))))"

section \<open>Interfaces of a node\<close>

definition iface_reply :: "json \<Rightarrow> int \<Rightarrow> nat \<times> json \<Rightarrow> py_exc + json" where
  "iface_reply data n p =
     (case p of (i, v) \<Rightarrow>
       bindr (interface_network_id data n (int i)) (\<lambda>w.
         Inr (JObj [(''index'', jget v ''index'' (JInt (int i))), (''name'', jget v ''name'' (JStr [])),
           (''planned_mac'', jget0 v ''planned_mac''), (''port_position'', jget0 v ''port_position''),
           (''network_id'', JInt w), (''live_mac'', JNull)])))"

definition list_node_interfaces :: "account \<Rightarrow> disk \<Rightarrow> string \<Rightarrow> int \<Rightarrow> py_exc + json list reply" where
  "list_node_interfaces u d raw n =
     bind_reply (open_lab u d raw) (\<lambda>(p, data).
     bindr (pget (jor (jget0 data ''nodes'') (JObj [])) (dec_int n) JNull) (\<lambda>node.
       if \<not> is_obj node then Inr NO_SUCH_NODE
       else bindr (piter (jor (jget node ''interfaces'' (JList [])) (JList []))) (\<lambda>ifs.
            bindr (mapr (iface_reply data n) (filter (\<lambda>q. is_obj (snd q)) (enumerate 0 ifs))) (\<lambda>out. Inr (Done out)))))"

end
