(* ===== verification/Wire_Requests.thy ===== *)
theory Wire_Requests
  imports Lab_Edit Network_Service
begin

text \<open>
  Requests on the links and networks of a lab (\<open>app/routers/links.py\<close>, \<open>app/routers/networks.py\<close>) and
  the older handlers of \<open>app/routers/labs.py\<close> that are still reached: the update of a network by PUT and
  the views of the topology and of a node. An exception a handler does not catch is a left value. The
  handlers of links and networks take the account of the session and do not look at it.
\<close>

section \<open>Links\<close>

definition list_links_request :: "account \<Rightarrow> disk \<Rightarrow> string \<Rightarrow> py_exc + json list reply" where
  "list_links_request u d path =
     bind_reply (read_lab_data d path) (\<lambda>data. bindr (list_links d path) (\<lambda>ls. Inr (Done ls)))"

definition py_status :: "py_exc \<Rightarrow> nat option" where
  \<comment> \<open>\<open>except KeyError\<close>, \<open>except ValueError\<close>\<close>
  "py_status e = (if e = PyKeyError then Some 404 else if e \<in> {PyValueError, PyJSONDecodeError} then Some 400 else None)"

definition link_status :: "rt_error link_error \<Rightarrow> nat option" where
  \<comment> \<open>the status of a refused creation; \<open>None\<close>: the exception is not caught\<close>
  "link_status e =
     (case e of
        DuplicateLink l \<Rightarrow> Some 409
      | InterfaceAttached l n i \<Rightarrow> Some 409
      | LinkContention k \<Rightarrow> Some 409
      | NoSuchNetwork n \<Rightarrow> Some 404
      | LinkPy x \<Rightarrow> py_status x
      | LinkNet (NetErr c m) \<Rightarrow> None
      | LinkNet (NetPy x) \<Rightarrow> py_status x
      | LinkRuntime (RtHost (Py x)) \<Rightarrow> py_status x
      | LinkRuntime x \<Rightarrow> if is_runtime_error x then Some 422 else None)"

definition caught :: "(rt_error link_error \<Rightarrow> nat option) \<Rightarrow> rt_error link_error \<Rightarrow> rt_error link_error + 'a reply" where
  "caught status e = (case status e of Some c \<Rightarrow> Inr (Fail c ''link'') | None \<Rightarrow> Inl e)"

definition create_link_request ::
    "'r node_ops \<Rightarrow> host_env \<Rightarrow> mutex_key list \<Rightarrow> account \<Rightarrow> string \<Rightarrow> json \<Rightarrow> string \<Rightarrow> ('w, 'r) link_world
       \<Rightarrow> ('w, 'r) link_world \<times> (rt_error link_error + (nat \<times> link_reply) reply)" where
  \<comment> \<open>with the status of the reply, 201 for a link that was made now\<close>
  "create_link_request ops h held u path body key w =
     (case read_lab_data (lw_disk w) path of
        Inl e \<Rightarrow> (w, Inl (LinkPy e))
      | Inr (Fail c m) \<Rightarrow> (w, Inr (Fail c m))
      | Inr (Done data) \<Rightarrow>
          if jget0 body ''from'' = JNull \<or> jget0 body ''to'' = JNull
          then (w, Inr (Fail 400 ''from and to endpoints are required''))
          else (case create_link ops h held path (jget0 body ''from'') (jget0 body ''to'') (jget0 body ''style_override'') key w of
                  (w1, Inl e) \<Rightarrow> (w1, caught link_status e)
                | (w1, Inr (r, replayed)) \<Rightarrow> (w1, Inr (Done (if replayed then 200 else 201, r)))))"

definition removal_status :: "rt_error link_error \<Rightarrow> nat option" where
  "removal_status e =
     (case e of
        LinkContention k \<Rightarrow> Some 409
      | LinkRuntime x \<Rightarrow> if is_runtime_error x then Some 422 else None
      | _ \<Rightarrow> None)"

fun has_link_id :: "string \<Rightarrow> json list \<Rightarrow> py_exc + bool" where
  \<comment> \<open>\<open>any\<close> stops at the first link of the id\<close>
  "has_link_id lid [] = Inr False"
| "has_link_id lid (l # ls) =
     bindr (pget l ''id'' JNull) (\<lambda>v. if py_str v = lid then Inr True else has_link_id lid ls)"

definition delete_link_request ::
    "'r node_ops \<Rightarrow> mutex_key list \<Rightarrow> account \<Rightarrow> string \<Rightarrow> string \<Rightarrow> ('w, 'r) link_world
       \<Rightarrow> ('w, 'r) link_world \<times> (rt_error link_error + bool reply)" where
  \<comment> \<open>the flag says that the file had a link of the id\<close>
  "delete_link_request ops held u path lid w =
     (case bind_reply (read_lab_data (lw_disk w) path) (\<lambda>data.
             bindr (piter (jor (jget data ''links'' (JList [])) (JList []))) (\<lambda>ls.
             bindr (has_link_id lid ls) (\<lambda>existed. Inr (Done existed)))) of
        Inl e \<Rightarrow> (w, Inl (LinkPy e))
      | Inr (Fail c m) \<Rightarrow> (w, Inr (Fail c m))
      | Inr (Done existed) \<Rightarrow>
          (case delete_link ops held path lid w of
             (w1, Inl e) \<Rightarrow> (w1, caught removal_status e)
           | (w1, Inr r) \<Rightarrow> (w1, Inr (Done existed))))"

definition edit_status :: "rt_error link_error \<Rightarrow> nat option" where
  "edit_status e = (case e of LinkRuntime x \<Rightarrow> if is_runtime_error x then Some 422 else None | _ \<Rightarrow> None)"

definition patch_link_request ::
    "account \<Rightarrow> string \<Rightarrow> string \<Rightarrow> (string \<times> json) list \<Rightarrow> ('w, 'r) link_world
       \<Rightarrow> ('w, 'r) link_world \<times> (rt_error link_error + json reply)" where
  "patch_link_request u path lid body w =
     (case read_lab_data (lw_disk w) path of
        Inl e \<Rightarrow> (w, Inl (LinkPy e))
      | Inr (Fail c m) \<Rightarrow> (w, Inr (Fail c m))
      | Inr (Done data) \<Rightarrow>
          (case patch_link path lid body w of
             (w1, Inl e) \<Rightarrow> (w1, caught edit_status e)
           | (w1, Inr None) \<Rightarrow> (w1, Inr (Fail 404 ''Link does not exist.''))
           | (w1, Inr (Some l)) \<Rightarrow> (w1, Inr (Done l))))"

section \<open>Networks\<close>

definition NETWORK_TYPES :: "string list" where
  "NETWORK_TYPES =
     [''linux_bridge'', ''ovs_bridge'', ''nat'', ''nat_cloud'', ''bridge_cloud'', ''cloud'', ''management'',
      ''pnet0'', ''pnet1'', ''pnet2'', ''pnet3'', ''pnet4'', ''pnet5'', ''pnet6'', ''pnet7'', ''pnet8'', ''pnet9'',
      ''internal'', ''internal2'', ''internal3'', ''private'', ''private2'', ''private3'', ''nat0'']"

definition network_create_ok :: "json \<Rightarrow> bool" where
  \<comment> \<open>the type and the validator of \<open>NetworkCreate\<close>\<close>
  "network_create_ok request \<longleftrightarrow>
     (\<exists>ty\<in>set NETWORK_TYPES. jget request ''type'' (JStr ''linux_bridge'') = JStr ty)
     \<and> (jget0 request ''type'' = JStr ''bridge_cloud''
         \<longrightarrow> (case jget0 (jget0 request ''config'') ''host_bridge'' of JStr s \<Rightarrow> strip s \<noteq> [] | _ \<Rightarrow> False))"

definition list_networks_request :: "account \<Rightarrow> disk \<Rightarrow> string \<Rightarrow> bool \<Rightarrow> py_exc + (string \<times> json) list reply" where
  "list_networks_request u d path hidden =
     bind_reply (read_lab_data d path) (\<lambda>data. bindr (list_networks d path hidden) (\<lambda>kvs. Inr (Done kvs)))"

definition service_reply :: "net_fail \<Rightarrow> net_fail + 'a reply" where
  \<comment> \<open>\<open>except NetworkServiceError\<close>\<close>
  "service_reply e = (case e of NsErr (NetErr c m) \<Rightarrow> Inr (Fail (nat c) m) | _ \<Rightarrow> Inl e)"

definition create_network_request ::
    "host_env \<Rightarrow> string \<Rightarrow> string \<Rightarrow> account \<Rightarrow> string \<Rightarrow> json \<Rightarrow> ('w, 'r) link_world
       \<Rightarrow> ('w, 'r) link_world \<times> (net_fail + json reply)" where
  "create_network_request h pool now u path request w =
     (case read_lab_data (lw_disk w) path of
        Inl e \<Rightarrow> (w, Inl (NsErr (NetPy e)))
      | Inr (Fail c m) \<Rightarrow> (w, Inr (Fail c m))
      | Inr (Done data) \<Rightarrow>
          (case create_network h pool now path request w of
             (w1, Inl e) \<Rightarrow>
                (w1, if e = NsHost HostNetBridgeOwnershipError then Inr (Fail 409 ''ownership'') else service_reply e)
           | (w1, Inr net) \<Rightarrow> (w1, Inr (Done net))))"

definition delete_network_request ::
    "host_env \<Rightarrow> account \<Rightarrow> string \<Rightarrow> int \<Rightarrow> ('w, 'r) link_world \<Rightarrow> ('w, 'r) link_world \<times> (net_fail + unit reply)" where
  "delete_network_request h u path n w =
     (case read_lab_data (lw_disk w) path of
        Inl e \<Rightarrow> (w, Inl (NsErr (NetPy e)))
      | Inr (Fail c m) \<Rightarrow> (w, Inr (Fail c m))
      | Inr (Done data) \<Rightarrow>
          (case delete_network h path n w of
             (w1, Inl e) \<Rightarrow> (w1, service_reply e)
           | (w1, Inr net) \<Rightarrow> (w1, Inr (Done ()))))"

definition NETWORK_UPDATE_FIELDS :: "string list" where
  "NETWORK_UPDATE_FIELDS = [''name'', ''type'', ''left'', ''top'', ''icon'', ''visibility'', ''config'']"

definition network_update_ok :: "(string \<times> json) list \<Rightarrow> bool" where
  \<comment> \<open>what \<open>NetworkUpdate\<close> lets through: its fields, in its order, with a type of the list and a dict\<close>
  "network_update_ok upd \<longleftrightarrow>
     (\<exists>ks. map fst upd = filter (\<lambda>k. k \<in> ks) NETWORK_UPDATE_FIELDS)
     \<and> (\<forall>v. (''type'', v) \<in> set upd \<longrightarrow> v = JNull \<or> (\<exists>ty\<in>set NETWORK_TYPES. v = JStr ty))
     \<and> (\<forall>v. (''config'', v) \<in> set upd \<longrightarrow> v = JNull \<or> is_obj v)"

definition patch_network_request ::
    "account \<Rightarrow> string \<Rightarrow> int \<Rightarrow> (string \<times> json) list \<Rightarrow> ('w, 'r) link_world
       \<Rightarrow> ('w, 'r) link_world \<times> (net_fail + (json \<times> string) reply)" where
  "patch_network_request u path n upd w =
     (case read_lab_data (lw_disk w) path of
        Inl e \<Rightarrow> (w, Inl (NsErr (NetPy e)))
      | Inr (Fail c m) \<Rightarrow> (w, Inr (Fail c m))
      | Inr (Done data) \<Rightarrow>
          (case patch_network path n (JObj upd) w of
             (w1, Inl e) \<Rightarrow> (w1, service_reply e)
           | (w1, Inr r) \<Rightarrow> (w1, Inr (Done r))))"

section \<open>Update of a network by PUT\<close>

definition put_refused :: "json \<Rightarrow> (string \<times> json) list \<Rightarrow> bool" where
  \<comment> \<open>type to or from Bridge-Cloud, a host bridge elsewhere, the configuration of a Bridge-Cloud\<close>
  "put_refused net upd \<longleftrightarrow>
     (let ty = type_of net; new_ty = jget0 (JObj upd) ''type''; new_config = jget0 (JObj upd) ''config'' in
      (new_ty \<noteq> JNull \<and> \<not> py_eq new_ty (JStr ty) \<and> (py_eq new_ty (JStr ''bridge_cloud'') \<or> ty = ''bridge_cloud''))
      \<or> (is_obj new_config \<and> jhas new_config ''host_bridge'' \<and> ty \<noteq> ''bridge_cloud'')
      \<or> (ty = ''bridge_cloud'' \<and> jhas (JObj upd) ''config''))"

definition put_given :: "(string \<times> json) list \<Rightarrow> json \<Rightarrow> json" where
  "put_given upd net = fold (\<lambda>(k, v) net. if v = JNull then net else jset k v net) upd net"

definition put_network_doc :: "json \<Rightarrow> int \<Rightarrow> (string \<times> json) list \<Rightarrow> py_exc + (json \<times> json) reply" where
  "put_network_doc data n upd =
     bindr (pget (jget data ''networks'' (JObj [])) (dec_int n) JNull) (\<lambda>net.
       if \<not> truthy net then Inr (Fail 404 ''Network does not exist.'')
       else if \<not> is_obj net then Inl PyAttributeError
       else if put_refused net upd then Inr (Fail 422 ''Cannot make this change.'')
       else Inr (Done (put_given upd net,
              jset ''networks'' (jset (dec_int n) (put_given upd net) (jget0 data ''networks'')) data)))"

definition update_network_request :: "account \<Rightarrow> disk \<Rightarrow> string \<Rightarrow> int \<Rightarrow> (string \<times> json) list \<Rightarrow> py_exc + (disk \<times> json) reply" where
  "update_network_request u d raw n upd =
     bind_reply (open_lab u d raw) (\<lambda>(p, data).
     bind_reply (put_network_doc data n upd) (\<lambda>(net, data').
       bindr (write_lab d p data') (\<lambda>d'. Inr (Done (d', net)))))"

section \<open>Views\<close>

definition get_topology :: "account \<Rightarrow> disk \<Rightarrow> string \<Rightarrow> py_exc + json reply" where
  "get_topology u d raw = bind_reply (open_lab u d raw) (\<lambda>(p, data). Inr (Done (jget data ''topology'' (JList []))))"

definition port_view :: "nat \<times> json \<Rightarrow> py_exc + json" where
  "port_view p =
     (case p of (i, v) \<Rightarrow>
       bindr (pget v ''name'' (JStr (''eth'' @ dec i))) (\<lambda>nm. bindr (pget v ''network_id'' (JInt 0)) (\<lambda>w.
         Inr (JObj [(''name'', nm), (''network_id'', w)]))))"

definition list_interfaces :: "account \<Rightarrow> disk \<Rightarrow> string \<Rightarrow> int \<Rightarrow> py_exc + json reply" where
  "list_interfaces u d raw n =
     bind_reply (open_lab u d raw) (\<lambda>(p, data).
     bindr (pget (jget data ''nodes'' (JObj [])) (dec_int n) (JObj [])) (\<lambda>node.
     bindr (pget node ''type'' (JStr ''qemu'')) (\<lambda>sort.
     bindr (bindr (pget node ''interfaces'' (JList [])) piter) (\<lambda>ifs.
     bindr (mapr port_view (enumerate 0 ifs)) (\<lambda>ports.
       Inr (Done (JObj [(''id'', JInt n), (''sort'', sort), (''ethernet'', JList ports), (''serial'', JList [])])))))))"

definition get_node :: "(string \<Rightarrow> int \<Rightarrow> json \<Rightarrow> json) \<Rightarrow> account \<Rightarrow> disk \<Rightarrow> string \<Rightarrow> int \<Rightarrow> py_exc + json reply" where
  \<comment> \<open>\<open>enrich\<close> adds what the runtime knows of the node\<close>
  "get_node enrich u d raw n =
     bind_reply (open_lab u d raw) (\<lambda>(p, data).
     bindr (pget (jget data ''nodes'' (JObj [])) (dec_int n) JNull) (\<lambda>node.
       if \<not> truthy node then Inr NO_SUCH_NODE
       else (let lab = strip (py_str (jget data ''id'' (JStr []))) in
             Inr (Done (if lab \<noteq> [] then enrich lab n node else node)))))"

section \<open>The fields an update sets\<close>

lemma update_ok_distinct: "network_update_ok upd \<Longrightarrow> distinct (map fst upd)"
proof -
  assume "network_update_ok upd"
  then obtain ks where ks: "map fst upd = filter (\<lambda>k. k \<in> ks) NETWORK_UPDATE_FIELDS" by (auto simp: network_update_ok_def)
  show "distinct (map fst upd)" unfolding ks by (intro distinct_filter) (simp add: NETWORK_UPDATE_FIELDS_def)
qed

lemma update_ok_absent: "network_update_ok upd \<Longrightarrow> k \<notin> set NETWORK_UPDATE_FIELDS \<Longrightarrow> jget0 (JObj upd) k = JNull"
proof -
  assume "network_update_ok upd" and k: "k \<notin> set NETWORK_UPDATE_FIELDS"
  then obtain ks where ks: "map fst upd = filter (\<lambda>k. k \<in> ks) NETWORK_UPDATE_FIELDS" by (auto simp: network_update_ok_def)
  have "k \<notin> set (map fst upd)" unfolding ks using k by simp
  then show "jget0 (JObj upd) k = JNull" by (simp add: jget_def jfind_def obj_get_None_iff [THEN iffD2])
qed

lemma put_given_obj: "is_obj net \<Longrightarrow> is_obj (put_given upd net)"
  unfolding put_given_def by (induction upd arbitrary: net) auto

lemma put_given_find:
  assumes "distinct (map fst upd)"
  shows "jfind (put_given upd net) k = (if jget0 (JObj upd) k = JNull then jfind net k else Some (jget0 (JObj upd) k))"
proof -
  have "distinct (map fst upd) \<Longrightarrow>
      jfind (fold (\<lambda>(k, v) net. if v = JNull then net else jset k v net) upd net) k
        = (case obj_get upd k of Some v \<Rightarrow> if v = JNull then jfind net k else Some v | None \<Rightarrow> jfind net k)" for net
  proof (induction upd arbitrary: net)
    case (Cons p upd)
    obtain q v where p: "p = (q, v)" by (cases p)
    have "obj_get upd q = None" using Cons.prems p by (auto simp: obj_get_None_iff)
    then show ?case using Cons p by (auto split: option.splits)
  qed simp
  then show ?thesis using assms by (auto simp: put_given_def jget_def jfind_def split: option.splits)
qed

end
