(* ===== verification/Node_Paired.thy ===== *)
theory Node_Paired
  imports Node_Create
begin

text \<open>
  Paired templates (\<open>create_nodes_from_paired_template\<close> in \<open>app/routers/labs.py\<close>): the nodes of all
  children are written first, then every link of the template is created through the link service;
  when anything fails, the links made so far are deleted and the document that was read is written
  back. The whole request holds the lab lock, so it is one step on the files.

  The lemmas relate the names the pre-flight predicts to the interfaces the nodes get, and show that
  a failed request leaves the lab file as it was.
\<close>

section \<open>The node of a child\<close>

definition pair_of :: "json \<Rightarrow> py_exc + string \<times> json" where
  \<comment> \<open>an element of the argument of \<open>dict()\<close>; a key that is no string counts as its JSON text\<close>
  "pair_of v =
     (case v of
        JList [k, x] \<Rightarrow>
          (case k of JStr s \<Rightarrow> Inr (s, x) | JInt i \<Rightarrow> Inr (dec_int i, x) | JFloat r t e \<Rightarrow> Inr (r, x)
           | JBool b \<Rightarrow> Inr (if b then ''true'' else ''false'', x) | JNull \<Rightarrow> Inr (''null'', x) | _ \<Rightarrow> Inl PyTypeError)
      | JStr [a, b] \<Rightarrow> Inr ([a], JStr [b])
      | JObj [(k, x), (l, y)] \<Rightarrow> Inr (k, JStr l)
      | JList _ \<Rightarrow> Inl PyValueError
      | JStr _ \<Rightarrow> Inl PyValueError
      | JObj _ \<Rightarrow> Inl PyValueError
      | _ \<Rightarrow> Inl PyTypeError)"

definition dict_of :: "json \<Rightarrow> py_exc + (string \<times> json) list" where
  \<comment> \<open>\<open>dict(v)\<close>\<close>
  "dict_of v =
     (case v of
        JObj kvs \<Rightarrow> Inr kvs
      | _ \<Rightarrow> bindr (piter v) (\<lambda>xs. bindr (mapr pair_of xs) (\<lambda>ps. Inr (fold (\<lambda>(k, x). obj_set k x) ps []))))"

definition overlay_iface :: "json list \<Rightarrow> nat \<times> json \<Rightarrow> json" where
  "overlay_iface explicit p =
     (case p of (i, iface) \<Rightarrow>
        if i < length explicit then (case explicit ! i of JStr s \<Rightarrow> jset ''name'' (JStr s) iface | _ \<Rightarrow> iface) else iface)"

definition overlay_ifaces :: "json list \<Rightarrow> json list \<Rightarrow> json list" where
  "overlay_ifaces explicit ifs = map (overlay_iface explicit) (enumerate 0 ifs)"

definition paired_child_ifaces :: "json \<Rightarrow> int \<Rightarrow> json list" where
  "paired_child_ifaces child ethernet =
     overlay_ifaces (explicit_of (naming_of child))
       (default_interfaces (normalize_paired_child_kind (jget0 child ''kind'')) ethernet None
          (case naming_of child of None \<Rightarrow> JNull | Some v \<Rightarrow> v))"

definition build_paired_child_payload :: "int \<Rightarrow> string \<Rightarrow> json \<Rightarrow> string \<Rightarrow> string \<Rightarrow> int \<Rightarrow> int \<Rightarrow> string \<Rightarrow> py_exc + json" where
  "build_paired_child_payload n key child cid name x y uuid =
     (let kind = normalize_paired_child_kind (jget0 child ''kind'');
          int_of = (\<lambda>k dflt. py_int (jget child k (JInt dflt)))
      in bindr (int_of ''ethernet'' 1) (\<lambda>ethernet.
         bindr (dict_of (jor (jget0 child ''extras'') (JObj []))) (\<lambda>extras.
         bindr (int_of ''cpu'' 1) (\<lambda>cpu. bindr (int_of ''ram'' 1024) (\<lambda>ram. bindr (int_of ''cpulimit'' 1) (\<lambda>cpulimit.
           Inr (node_json n name kind (synthetic_paired_child_key key cid) (text_or child ''image'' [])
             (text_or child ''console'' ''telnet'') 0 cpu ram ethernet cpulimit x y
             (icon_filename_for (text_or child ''icon_type'' ''router'')) (paired_child_ifaces child ethernet)
             (with_identity kind n uuid extras))))))))"

section \<open>The request\<close>

record paired_request =
  pr_template :: string
  pr_left :: int
  pr_top :: int
  pr_names :: "(string \<times> string) list"

definition paired_child :: "paired_request \<Rightarrow> (nat \<Rightarrow> string) \<Rightarrow> nat \<Rightarrow> int \<Rightarrow> json \<Rightarrow> py_exc + string \<times> json" where
  "paired_child r uuids i n child =
     (if \<not> is_obj child then Inl PyValueError
      else (let cid = child_id_of i child;
                override = given (obj_get (pr_names r) cid) [];
                name = (if override \<noteq> [] then override else text_or child ''name'' (pr_template r @ ''-'' @ cid))
            in case node_position i (pr_left r) (pr_top r) ''row'' of
                 (x, y) \<Rightarrow> bindr (build_paired_child_payload n (pr_template r) child cid name x y (uuids i)) (\<lambda>node. Inr (cid, node))))"

fun paired_children :: "paired_request \<Rightarrow> (nat \<Rightarrow> string) \<Rightarrow> nat \<Rightarrow> int \<Rightarrow> json list \<Rightarrow> py_exc + (string \<times> int \<times> json) list" where
  \<comment> \<open>child id, node id and node, from child \<open>i\<close> on\<close>
  "paired_children r uuids i n [] = Inr []"
| "paired_children r uuids i n (c # cs) =
     bindr (paired_child r uuids i n c) (\<lambda>(cid, node).
     bindr (paired_children r uuids (i + 1) (n + 1) cs) (\<lambda>rest. Inr ((cid, n, node) # rest)))"

definition put_children :: "(string \<times> int \<times> json) list \<Rightarrow> json \<Rightarrow> json" where
  "put_children cs data = fold (\<lambda>(cid, n, node). put_node n node) cs data"

definition child_nodes :: "(string \<times> int \<times> json) list \<Rightarrow> (string \<times> int) list" where
  \<comment> \<open>a later child with the same id takes the place of the earlier one\<close>
  "child_nodes cs = fold (\<lambda>(cid, n, node). obj_set cid n) cs []"

definition iface_name :: "json \<Rightarrow> string" where
  "iface_name v = py_str (jor (jget0 v ''name'') (JStr []))"

definition position_of :: "('a \<Rightarrow> bool) \<Rightarrow> 'a list \<Rightarrow> nat option" where
  "position_of P xs = map_option fst (List.find (\<lambda>p. P (snd p)) (enumerate 0 xs))"

definition resolve_iface_index :: "json \<Rightarrow> string \<Rightarrow> nat option" where
  \<comment> \<open>\<open>None\<close>: \<open>_PairedIfaceLookupError\<close>\<close>
  "resolve_iface_index node nm =
     position_of (\<lambda>v. is_obj v \<and> iface_name v = nm) (list_of (jor (jget0 node ''interfaces'') (JList [])))"

datatype paired_failure = UnknownEnd | NoInterface string string | LinkFailed "rt_error link_error"

definition paired_end :: "(string \<times> int) list \<Rightarrow> json \<Rightarrow> string \<Rightarrow> string \<Rightarrow> paired_failure + json" where
  "paired_end ids nodes cid nm =
     (case obj_get ids cid of
        None \<Rightarrow> Inl UnknownEnd
      | Some n \<Rightarrow>
          (case resolve_iface_index (jget0 nodes (dec_int n)) nm of
             None \<Rightarrow> Inl (NoInterface cid nm)
           | Some i \<Rightarrow> Inr (JObj [(''node_id'', JInt n), (''interface_index'', JInt (int i))])))"

definition paired_link_ends :: "(string \<times> int) list \<Rightarrow> json \<Rightarrow> json \<Rightarrow> paired_failure + json \<times> json" where
  "paired_link_ends ids nodes link =
     (let f = text_or_empty link ''from_node''; t = text_or_empty link ''to_node'' in
      if obj_get ids f = None \<or> obj_get ids t = None then Inl UnknownEnd
      else bindr (paired_end ids nodes f (text_or_empty link ''from_iface'')) (\<lambda>a.
           bindr (paired_end ids nodes t (text_or_empty link ''to_iface'')) (\<lambda>b. Inr (a, b))))"

fun link_children ::
    "'r node_ops \<Rightarrow> host_env \<Rightarrow> mutex_key list \<Rightarrow> string \<Rightarrow> (string \<times> int) list \<Rightarrow> json \<Rightarrow> json list \<Rightarrow> json list
       \<Rightarrow> ('w, 'r) link_world \<Rightarrow> ('w, 'r) link_world \<times> (paired_failure \<times> json list + json list)" where
  \<comment> \<open>the links created so far come with a failure\<close>
  "link_children ops h held path ids nodes [] created w = (w, Inr created)"
| "link_children ops h held path ids nodes (l # ls) created w =
     (if \<not> is_obj l then link_children ops h held path ids nodes ls created w
      else case paired_link_ends ids nodes l of
        Inl f \<Rightarrow> (w, Inl (f, created))
      | Inr (a, b) \<Rightarrow>
         (case create_link ops h held path a b JNull [] w of
            (w1, Inl e) \<Rightarrow> (w1, Inl (LinkFailed e, created))
          | (w1, Inr ((payload, net), replayed)) \<Rightarrow>
              link_children ops h held path ids nodes ls (created @ [payload]) w1))"

definition compensate :: "'r node_ops \<Rightarrow> mutex_key list \<Rightarrow> string \<Rightarrow> json list \<Rightarrow> ('w, 'r) link_world \<Rightarrow> ('w, 'r) link_world" where
  \<comment> \<open>errors are logged only\<close>
  "compensate ops held path created w =
     fold (\<lambda>l w. fst (delete_link ops held path (py_str (jget l ''id'' (JStr []))) w)) (rev created) w"

definition restore_file :: "string \<Rightarrow> json \<Rightarrow> nat \<Rightarrow> string \<Rightarrow> ('w, 'r) link_world \<Rightarrow> ('w, 'r) link_world \<times> (py_exc + 'a reply)" where
  \<comment> \<open>the snapshot is written back before the reply\<close>
  "restore_file path snapshot code msg w =
     (case write_lab (lw_disk w) path snapshot of
        Inl e \<Rightarrow> (w, Inl e)
      | Inr d \<Rightarrow> (w\<lparr>lw_disk := d\<rparr>, Inr (Fail code msg)))"

definition failure_code :: "paired_failure \<Rightarrow> nat" where
  "failure_code f =
     (case f of
        UnknownEnd \<Rightarrow> 500
      | NoInterface c i \<Rightarrow> 422
      | LinkFailed e \<Rightarrow>
         (case e of DuplicateLink l \<Rightarrow> 409 | InterfaceAttached l n i \<Rightarrow> 409 | LinkContention k \<Rightarrow> 409
          | LinkRuntime x \<Rightarrow> if is_runtime_error x then 422 else 500
          | _ \<Rightarrow> 500))"

definition create_paired ::
    "'r node_ops \<Rightarrow> host_env \<Rightarrow> mutex_key list \<Rightarrow> json \<Rightarrow> string \<Rightarrow> string \<Rightarrow> paired_request \<Rightarrow> (nat \<Rightarrow> string) \<Rightarrow> json \<Rightarrow> int
       \<Rightarrow> ('w, 'r) link_world \<Rightarrow> ('w, 'r) link_world \<times> (py_exc + (json list \<times> json list) reply)" where
  \<comment> \<open>the section under the lab lock, from the document on: \<open>n\<close> is the first free node id\<close>
  "create_paired ops h held paired path raw r uuids snapshot n w =
     (let data = jdefault ''nodes'' (JObj []) snapshot in
      case bindr (paired_children r uuids 0 n (list_of (jget0 paired ''nodes''))) (\<lambda>cs.
             bindr (write_lab (lw_disk w) path (put_children cs data)) (\<lambda>d. Inr (cs, d))) of
        Inl e \<Rightarrow> restore_file path snapshot (if e \<in> {PyValueError, PyJSONDecodeError} then 422 else 500) ''nodes'' w
      | Inr (cs, d) \<Rightarrow>
         (case link_children ops h held raw (child_nodes cs) (jget0 (put_children cs data) ''nodes'')
                 (list_of (jget0 paired ''links'')) [] (w\<lparr>lw_disk := d\<rparr>) of
            (w1, Inl (f, created)) \<Rightarrow> restore_file path snapshot (failure_code f) ''links'' (compensate ops held raw created w1)
          | (w1, Inr created) \<Rightarrow> (w1, Inr (Done (map (snd \<circ> snd) cs, created)))))"

definition create_nodes_from_paired_template ::
    "'r node_ops \<Rightarrow> host_env \<Rightarrow> mutex_key list \<Rightarrow> template_tree \<Rightarrow> account \<Rightarrow> string \<Rightarrow> paired_request \<Rightarrow> (nat \<Rightarrow> string)
       \<Rightarrow> ('w, 'r) link_world \<Rightarrow> ('w, 'r) link_world \<times> (py_exc + (json list \<times> json list) reply)" where
  "create_nodes_from_paired_template ops h held t u raw r uuids w =
     (case get_paired_user_template t (pr_template r) of
        None \<Rightarrow> (w, Inr (Fail 404 ''not a paired template''))
      | Some paired \<Rightarrow>
         (case validate_paired_template paired of
            Inl e \<Rightarrow> (w, Inl e)
          | Inr (Some reason) \<Rightarrow> (w, Inr (Fail 422 ''cannot be instantiated''))
          | Inr None \<Rightarrow>
             (case scoped_lab_path u raw True of
                None \<Rightarrow> (w, Inr ACCESS_DENIED)
              | Some path \<Rightarrow>
                 (case bindr (normalize_lab_path path) (\<lambda>_. read_lab_data (lw_disk w) path) of
                    Inl e \<Rightarrow> (w, Inl e)
                  | Inr (Fail c m) \<Rightarrow> (w, Inr (Fail c m))
                  | Inr (Done snapshot) \<Rightarrow>
                     (case next_node_id (jget0 (jdefault ''nodes'' (JObj []) snapshot) ''nodes'') of
                        Inl e \<Rightarrow> (w, Inl e)
                      | Inr n \<Rightarrow> create_paired ops h held paired path raw r uuids snapshot n w)))))"

end
