(* ===== verification/Node_Results.thy ===== *)
theory Node_Results
  imports Node_Paired Link_Results
begin

text \<open>
  What paired templates promise: the names predicted before the request are the names of the nodes
  made, the links of an accepted template find their interfaces, and a request that fails leaves the
  lab file as it was. Counterexamples show where the prediction and the nodes differ.
\<close>

section \<open>Predicted names\<close>

lemma iface_name_json [simp]: "iface_name (iface_json i nm) = nm"
  by (simp add: iface_name_def iface_json_def jget_def jor_def)

lemma iface_name_set [simp]: "iface_name (jset ''name'' (JStr s) f) = s"
  by (simp add: iface_name_def jor_def)

lemma iface_name_overlay:
  "iface_name (overlay_iface es (i, f)) = (if i < length es then (case es ! i of JStr s \<Rightarrow> s | _ \<Rightarrow> iface_name f) else iface_name f)"
  by (simp add: overlay_iface_def split: json.splits)

lemma overlay_names_length [simp]: "length (overlay_names es base) = length base"
  by (induction es base rule: overlay_names.induct) auto

lemma overlay_names_nth:
  "i < length base \<Longrightarrow> overlay_names es base ! i =
     (if i < length es then (case es ! i of JStr s \<Rightarrow> s | _ \<Rightarrow> base ! i) else base ! i)"
  by (induction es base arbitrary: i rule: overlay_names.induct) (auto simp: nth_Cons split: nat.splits json.splits)

lemma overlay_ifaces_names: "map iface_name (overlay_ifaces es fs) = overlay_names es (map iface_name fs)"
  by (rule nth_equalityI) (auto simp: overlay_ifaces_def overlay_names_nth iface_name_overlay nth_enumerate_eq split: json.splits)

lemma default_interfaces_names:
  "map iface_name (default_interfaces ty e scheme naming) = map (default_iface_name ty scheme naming) [0 ..< nat e]"
  by (simp add: default_interfaces_def comp_def)

lemma accepted_naming:
  assumes "child_reason (cid, child) = None"
  shows "jget0 child ''interface_naming'' = JNull \<or>
     (\<exists>n. validate_interface_naming (jget0 child ''interface_naming'') = Inr n)"
  using assms by (auto simp: child_reason_def Let_def split: option.splits sum.splits if_splits)

lemma has_key_truthy: "jhas v k \<Longrightarrow> truthy v"
  by (cases v) (auto simp: jhas_def jfind_def)

lemma no_key: "\<not> jhas v k \<Longrightarrow> jget0 v k = JNull"
  by (simp add: jhas_def jget_def)

lemma predicted_names:
  assumes "child_reason (cid, child) = None" and "\<not> is_list (jget0 (jget0 child ''interface_naming'') ''format'')"
  shows "map iface_name (paired_child_ifaces child e) =
     overlay_names (explicit_of (naming_of child)) (base_iface_names (naming_of child) (normalize_paired_child_kind (jget0 child ''kind'')) e)"
proof -
  let ?v = "jget0 child ''interface_naming''"
  let ?k = "normalize_paired_child_kind (jget0 child ''kind'')"
  have "map (default_iface_name ?k None (case naming_of child of None \<Rightarrow> JNull | Some v \<Rightarrow> v)) [0 ..< nat e]
      = base_iface_names (naming_of child) ?k e"
    using accepted_naming [OF assms(1)]
  proof
    assume "?v = JNull"
    then show ?thesis by (simp add: naming_of_def base_iface_names_def default_iface_name_def kind_default_iface_names_def)
  next
    assume "\<exists>n. validate_interface_naming ?v = Inr n"
    then obtain n where n: "validate_interface_naming ?v = Inr n" ..
    then have o: "naming_of child = Some ?v" by (auto simp: naming_of_def validate_interface_naming_def split: if_splits)
    show ?thesis
    proof (cases "jhas ?v ''format''")
      case True
      then have f: "validate_format (jget0 ?v ''format'') = Inr n"
        using n by (auto simp: validate_interface_naming_def split: if_splits)
      then obtain s where s: "jget0 ?v ''format'' = JStr s" "strip s \<noteq> []"
        using assms(2) by (auto simp: validate_format_def solid_str_def split: json.splits if_splits)
      then show ?thesis
        using True has_key_truthy [OF True] by (simp add: o base_iface_names_def default_iface_name_def)
    next
      case False
      then show ?thesis
        by (simp add: o base_iface_names_def default_iface_name_def no_key kind_default_iface_names_def)
    qed
  qed
  then show ?thesis by (simp add: paired_child_ifaces_def overlay_ifaces_names default_interfaces_names)
qed

lemma node_json_get:
  "jget0 (node_json n name ty tm img con delay cpu ram e limit x y icon ifs extras) ''interfaces'' = JList ifs"
  by (simp add: node_json_def Let_def jget_def)

lemma payload_ifaces:
  assumes "build_paired_child_payload n key child cid name x y uuid = Inr node"
  shows "\<exists>e. py_int (jget child ''ethernet'' (JInt 1)) = Inr e \<and> jget0 node ''interfaces'' = JList (paired_child_ifaces child e)"
  using assms by (auto simp: build_paired_child_payload_def Let_def bindr_simps node_json_get)

lemma payload_names:
  assumes "child_reason (cid, child) = None" and "\<not> is_list (jget0 (jget0 child ''interface_naming'') ''format'')"
    and "build_paired_child_payload n key child cid' name x y uuid = Inr node"
  shows "paired_child_iface_names child = Inr (map iface_name (list_of (jget0 node ''interfaces'')))"
  using payload_ifaces [OF assms(3)] predicted_names [OF assms(1,2)] by (auto simp: paired_child_iface_names_def)

section \<open>Links of an accepted template\<close>

lemma obj_get_map_find: "obj_get (map (\<lambda>z. (k z, f z)) zs) key = map_option f (List.find (\<lambda>z. k z = key) zs)"
  by (induction zs) auto

definition made_from :: "paired_request \<Rightarrow> json \<Rightarrow> string \<times> int \<times> json \<Rightarrow> bool" where
  \<comment> \<open>the id and the node a child gives\<close>
  "made_from r c q \<longleftrightarrow> is_obj c \<and> (\<exists>i. fst q = child_id_of i c) \<and>
     (\<exists>name x y uuid. build_paired_child_payload (fst (snd q)) (pr_template r) c (fst q) name x y uuid = Inr (snd (snd q)))"

lemma all2_zip: "list_all2 P xs ys \<Longrightarrow> z \<in> set (zip xs ys) \<Longrightarrow> P (fst z) (snd z)"
  by (auto simp: list_all2_iff)

lemma paired_children_rel:
  "paired_children r uuids i n cs = Inr out \<Longrightarrow> list_all2 (made_from r) cs out
     \<and> map (fst \<circ> snd) out = map (\<lambda>j. n + int j) [0 ..< length cs]"
proof (induction r uuids i n cs arbitrary: out rule: paired_children.induct)
  case (2 r uuids i n c cs)
  then obtain cid node rest where c: "paired_child r uuids i n c = Inr (cid, node)"
      "paired_children r uuids (i + 1) (n + 1) cs = Inr rest" "out = (cid, n, node) # rest"
    by (auto simp: bindr_simps)
  note IH = "2.IH" [OF c(2)]
  have "map (\<lambda>j. n + int j) [0 ..< Suc k] = n # map (\<lambda>j. n + 1 + int j) [0 ..< k]" for k
    by (simp add: upt_rec [of 0 "Suc k"] map_Suc_upt [symmetric] add.assoc comp_def del: upt_Suc)
  then show ?case
    using IH c(1) by (auto simp: c(3) made_from_def paired_child_def Let_def bindr_simps split: prod.splits if_splits)
qed simp

lemma put_node_nodes [simp]: "jget0 (put_node n node d) ''nodes'' = jset (dec_int n) node (jget0 d ''nodes'')"
  by (simp add: put_node_def)

lemma put_children_nodes:
  "jget0 (put_children cs d) ''nodes'' = fold (\<lambda>(cid, n, node). jset (dec_int n) node) cs (jget0 d ''nodes'')"
  unfolding put_children_def by (induction cs arbitrary: d) auto

lemma jfind_fold_nodes:
  "distinct (map (fst \<circ> snd) cs) \<Longrightarrow> (cid, m, node) \<in> set cs \<Longrightarrow>
     jfind (fold (\<lambda>(cid, n, node). jset (dec_int n) node) cs N) (dec_int m) = Some node"
proof (induction cs rule: rev_induct)
  case (snoc c cs)
  then show ?case by (cases c) (force simp: image_iff)
qed simp

lemma position_of_Some: "x \<in> set xs \<Longrightarrow> P x \<Longrightarrow> \<exists>i. position_of P xs = Some i"
proof -
  have "\<exists>i. map_option fst (List.find (\<lambda>p. P (snd p)) (enumerate k xs)) = Some i" if "x \<in> set xs" "P x" for k
    using that by (induction xs arbitrary: k) auto
  then show "x \<in> set xs \<Longrightarrow> P x \<Longrightarrow> \<exists>i. position_of P xs = Some i" by (simp add: position_of_def)
qed

lemma child_ifaces_objects: "f \<in> set (paired_child_ifaces child e) \<Longrightarrow> is_obj f"
  by (auto simp: paired_child_ifaces_def overlay_ifaces_def overlay_iface_def default_interfaces_def iface_json_def
      in_set_enumerate_eq split: json.splits)

lemma list_of_jor: "list_of (jor (JList xs) (JList [])) = xs"
  by (simp add: jor_def)

lemma resolve_named:
  assumes "child_reason (cid', child) = None" and "\<not> is_list (jget0 (jget0 child ''interface_naming'') ''format'')"
    and "build_paired_child_payload n key child cid name x y uuid = Inr node"
    and "paired_child_iface_names child = Inr names" and "nm \<in> set names"
  shows "\<exists>i. resolve_iface_index node nm = Some i"
proof -
  obtain e where e: "jget0 node ''interfaces'' = JList (paired_child_ifaces child e)"
    using payload_ifaces [OF assms(3)] by blast
  have "names = map iface_name (paired_child_ifaces child e)"
    using payload_names [OF assms(1-3)] assms(4) e by simp
  then obtain f where "f \<in> set (paired_child_ifaces child e)" "iface_name f = nm" using assms(5) by auto
  then show ?thesis
    using child_ifaces_objects by (auto simp: resolve_iface_index_def e list_of_jor intro!: position_of_Some)
qed

lemma first_some_None: "first_some f xs = None \<longleftrightarrow> (\<forall>x\<in>set xs. f x = None)"
  by (induction xs) (auto split: option.splits)

definition sound_child :: "json \<Rightarrow> bool" where
  \<comment> \<open>an object with an id of its own whose naming format is no list\<close>
  "sound_child c \<longleftrightarrow> is_obj c \<and> text_or_empty c ''id'' \<noteq> [] \<and> \<not> is_list (jget0 (jget0 c ''interface_naming'') ''format'')"

lemma child_id_own: "text_or_empty c ''id'' \<noteq> [] \<Longrightarrow> child_id_of i c = text_or_empty c ''id''"
  by (auto simp: child_id_of_def text_or_def text_or_empty_def jor_def split: if_splits)

lemma children_by_id_fold:
  "(\<forall>c\<in>set cs. is_obj c) \<Longrightarrow>
     children_by_id cs = fold (\<lambda>(k, v). obj_set k v) (map (\<lambda>c. (text_or_empty c ''id'', c)) cs) []"
proof -
  have "(\<forall>c\<in>set cs. is_obj c) \<Longrightarrow> fold (\<lambda>c m. if is_obj c then obj_set (text_or_empty c ''id'') c m else m) cs m
      = fold (\<lambda>(k, v). obj_set k v) (map (\<lambda>c. (text_or_empty c ''id'', c)) cs) m" for m
    by (induction cs arbitrary: m) auto
  then show "(\<forall>c\<in>set cs. is_obj c) \<Longrightarrow>
     children_by_id cs = fold (\<lambda>(k, v). obj_set k v) (map (\<lambda>c. (text_or_empty c ''id'', c)) cs) []"
    by (simp add: children_by_id_def)
qed

lemma child_nodes_fold: "child_nodes cs = fold (\<lambda>(k, v). obj_set k v) (map (\<lambda>(cid, n, node). (cid, n)) cs) []"
  by (simp add: child_nodes_def fold_map comp_def case_prod_unfold)

lemma find_Some_set: "List.find P xs = Some z \<Longrightarrow> z \<in> set xs \<and> P z"
  by (induction xs) (auto split: if_splits)

lemma accepted_child_found:
  assumes "\<forall>c\<in>set cs. sound_child c" and "paired_children r uuids 0 n cs = Inr out"
    and "obj_get (children_by_id cs) cid = Some child"
  shows "\<exists>m node name x y uuid. child \<in> set cs \<and> obj_get (child_nodes out) cid = Some m \<and> (cid, m, node) \<in> set out
    \<and> build_paired_child_payload m (pr_template r) child cid name x y uuid = Inr node"
proof -
  define zs where "zs = rev (zip cs out)"
  have rel: "list_all2 (made_from r) cs out" using paired_children_rel [OF assms(2)] by blast
  then have len: "length cs = length out" by (rule list_all2_lengthD)
  have own: "fst (snd z) = text_or_empty (fst z) ''id''" if "z \<in> set zs" for z
  proof -
    have "made_from r (fst z) (snd z)" "fst z \<in> set cs"
      using that all2_zip [OF rel] set_zip_leftD [of "fst z" "snd z" cs out] by (auto simp: zs_def)
    then show ?thesis using assms(1) child_id_own by (auto simp: sound_child_def made_from_def)
  qed
  have "map (\<lambda>c. (text_or_empty c ''id'', c)) cs = map (\<lambda>z. (text_or_empty (fst z) ''id'', fst z)) (zip cs out)"
    by (subst map_fst_zip [OF len, symmetric]) (simp add: comp_def)
  then have a: "obj_get (children_by_id cs) cid = map_option fst (List.find (\<lambda>z. text_or_empty (fst z) ''id'' = cid) zs)"
    using assms(1) by (simp add: children_by_id_fold sound_child_def obj_get_fold_pairs rev_map obj_get_map_find zs_def
        split: option.splits)
  have "map (\<lambda>(cid, n, node). (cid, n)) out = map (\<lambda>z. (fst (snd z), fst (snd (snd z)))) (zip cs out)"
    by (subst map_snd_zip [OF len, symmetric]) (simp add: comp_def case_prod_beta)
  then have b: "obj_get (child_nodes out) cid = map_option (\<lambda>z. fst (snd (snd z))) (List.find (\<lambda>z. fst (snd z) = cid) zs)"
    by (simp add: child_nodes_fold obj_get_fold_pairs rev_map obj_get_map_find zs_def split: option.splits)
  have "List.find (\<lambda>z. fst (snd z) = cid) zs = List.find (\<lambda>z. text_or_empty (fst z) ''id'' = cid) zs"
    using own by (induction zs) auto
  then obtain z where z: "List.find (\<lambda>z. fst (snd z) = cid) zs = Some z" "child = fst z"
    using a assms(3) by (cases "List.find (\<lambda>z. text_or_empty (fst z) ''id'' = cid) zs") auto
  then have "z \<in> set (zip cs out)" "fst (snd z) = cid"
    using find_Some_set [of _ zs z] by (auto simp: zs_def)
  then have "made_from r child (snd z)" "snd z \<in> set out" "child \<in> set cs" "fst (snd z) = cid"
    using all2_zip [OF rel] set_zip_rightD [of "fst z" "snd z" cs out]
      set_zip_leftD [of "fst z" "snd z" cs out] z(2) by auto
  then show ?thesis using b z(1) by (cases z) (auto simp: made_from_def; blast)
qed

lemma accepted_end_resolves:
  assumes "\<forall>c\<in>set cs. sound_child c" and out: "paired_children r uuids 0 n cs = Inr out"
    and ok: "first_some child_reason (children_by_id cs) = None"
    and e: "end_reason (children_by_id cs) l (ek, ik) = None"
  shows "\<exists>a. obj_get (child_nodes out) (text_or_empty l ek) \<noteq> None \<and>
    paired_end (child_nodes out) (jget0 (put_children out data) ''nodes'') (text_or_empty l ek) (text_or_empty l ik) = Inr a"
proof -
  obtain child names where c: "obj_get (children_by_id cs) (text_or_empty l ek) = Some child"
      "paired_child_iface_names child = Inr names" "text_or_empty l ik \<in> set names"
    using e by (auto simp: end_reason_def Let_def split: option.splits sum.splits if_splits)
  obtain m node name x y uuid where m: "child \<in> set cs" "obj_get (child_nodes out) (text_or_empty l ek) = Some m"
      "(text_or_empty l ek, m, node) \<in> set out"
      "build_paired_child_payload m (pr_template r) child (text_or_empty l ek) name x y uuid = Inr node"
    using accepted_child_found [OF assms(1) out c(1)] by blast
  have reason: "child_reason (text_or_empty l ek, child) = None"
    using ok obj_get_Some_in [OF c(1)] by (auto simp: first_some_None)
  have "\<not> is_list (jget0 (jget0 child ''interface_naming'') ''format'')" using assms(1) m(1) by (simp add: sound_child_def)
  then obtain i where i: "resolve_iface_index node (text_or_empty l ik) = Some i"
    using resolve_named [OF reason _ m(4) c(2,3)] by blast
  have "map (fst \<circ> snd) out = map (\<lambda>j. n + int j) [0 ..< length cs]" using paired_children_rel [OF out] by blast
  then have "distinct (map (fst \<circ> snd) out)" by (simp add: distinct_map inj_on_def)
  from jfind_fold_nodes [OF this m(3)]
  have "jget0 (jget0 (put_children out data) ''nodes'') (dec_int m) = node"
    by (simp add: put_children_nodes jget_def [of _ "dec_int m"])
  then show ?thesis by (simp add: paired_end_def m(2) i)
qed

section \<open>Properties\<close>

text \<open>
  The interface names the pre-flight of a paired template computes for a child are the names of the
  interfaces its node is created with, for every child the pre-flight accepts whose naming format is
  not a list.
\<close>

theorem preflight_predicts_names:
  assumes "child_reason (cid, child) = None" and "\<not> is_list (jget0 (jget0 child ''interface_naming'') ''format'')"
    and "build_paired_child_payload n key child cid' name x y uuid = Inr node"
  shows "paired_child_iface_names child = Inr (map iface_name (list_of (jget0 node ''interfaces'')))"
  using assms by (rule payload_names)

definition demo_child :: json where
  "demo_child = JObj [(''id'', JStr ''vcp''), (''ethernet'', JStr ''3''), (''kind'', JStr '' Docker ''),
     (''interface_naming'', JObj [(''explicit'', JList [JStr ''fxp0'', JStr ''em1''])])]"

theorem preflight_predicts_names_witness:
  "paired_child_iface_names demo_child = Inr [''fxp0'', ''em1'', ''eth2'']"
proof -
  define node where "node = (case build_paired_child_payload 4 ''vmx'' demo_child ''vcp'' ''v'' 0 0 ''u'' of Inr v \<Rightarrow> v | Inl e \<Rightarrow> JNull)"
  have names: "map iface_name (list_of (jget0 node ''interfaces'')) = [''fxp0'', ''em1'', ''eth2'']"
    unfolding node_def by code_simp
  then have node: "build_paired_child_payload 4 ''vmx'' demo_child ''vcp'' ''v'' 0 0 ''u'' = Inr node"
    unfolding node_def by (auto simp: jget_def jfind_def split: sum.splits)
  have "child_reason (''vcp'', demo_child) = None" "\<not> is_list (jget0 (jget0 demo_child ''interface_naming'') ''format'')"
    by code_simp+
  from preflight_predicts_names [OF this node] names show ?thesis by simp
qed

text \<open>
  C18. When the pre-flight accepts a paired template, both ends of every link find the node and the
  interface they name, provided that every child is an object with an id of its own and that no child
  has a naming format that is a list; \<open>list_format_not_resolved\<close> is a template with such a format that
  is accepted and whose link finds no interface.
\<close>

theorem preflight_links_resolve:
  assumes "validate_paired_template paired = Inr None"
    and "jget0 paired ''nodes'' = JList cs" and "\<forall>c\<in>set cs. sound_child c"
    and "jget0 paired ''links'' = JList ls" and "l \<in> set ls" and "is_obj l"
    and "paired_children r uuids 0 n cs = Inr out"
  shows "\<exists>a b. paired_link_ends (child_nodes out) (jget0 (put_children out data) ''nodes'') l = Inr (a, b)"
proof -
  have p: "piter (jor (JList zs) (JList [])) = Inr zs" for zs by (simp add: jor_def)
  have v: "first_some child_reason (children_by_id cs) = None" "first_some (link_reason (children_by_id cs)) ls = None"
    using assms(1) by (auto simp: validate_paired_template_def assms(2,4) p Let_def split: option.splits)
  then have "link_reason (children_by_id cs) l = None" using assms(5) by (simp add: first_some_None)
  then have "end_reason (children_by_id cs) l (''from_node'', ''from_iface'') = None"
      "end_reason (children_by_id cs) l (''to_node'', ''to_iface'') = None"
    using assms(6) by (auto simp: link_reason_def split: option.splits)
  note ends = this [THEN accepted_end_resolves [OF assms(3,7) v(1), where data = data]]
  from ends show ?thesis by (auto simp: paired_link_ends_def Let_def)
qed

definition demo_pair :: json where
  "demo_pair = JObj [(''kind'', JStr ''paired''),
     (''nodes'', JList [demo_child, JObj [(''id'', JStr ''vfp''), (''ethernet'', JInt 2)]]),
     (''links'', JList [JObj [(''from_node'', JStr ''vcp''), (''from_iface'', JStr ''em1''),
        (''to_node'', JStr ''vfp''), (''to_iface'', JStr ''Gi2'')]])]"

definition demo_pair_request :: paired_request where
  "demo_pair_request = \<lparr>pr_template = ''vmx'', pr_left = 0, pr_top = 0, pr_names = []\<rparr>"

definition demo_pair_nodes :: "(string \<times> int \<times> json) list" where
  "demo_pair_nodes =
     (case paired_children demo_pair_request (\<lambda>i. ''uuid'') 0 1 (list_of (jget0 demo_pair ''nodes'')) of Inr cs \<Rightarrow> cs | Inl e \<Rightarrow> [])"

theorem preflight_links_resolve_witness:
  "\<exists>a b. paired_link_ends (child_nodes demo_pair_nodes) (jget0 (put_children demo_pair_nodes (JObj [])) ''nodes'')
     (hd (list_of (jget0 demo_pair ''links''))) = Inr (a, b)"
proof -
  have "map fst demo_pair_nodes = [''vcp'', ''vfp'']" unfolding demo_pair_nodes_def by code_simp
  then have out: "paired_children demo_pair_request (\<lambda>i. ''uuid'') 0 1 (list_of (jget0 demo_pair ''nodes'')) = Inr demo_pair_nodes"
    unfolding demo_pair_nodes_def by (auto split: sum.splits)
  have l: "jget0 demo_pair ''nodes'' = JList (list_of (jget0 demo_pair ''nodes''))"
    "jget0 demo_pair ''links'' = JList (list_of (jget0 demo_pair ''links''))"
    "list_all sound_child (list_of (jget0 demo_pair ''nodes''))" "validate_paired_template demo_pair = Inr None"
    "hd (list_of (jget0 demo_pair ''links'')) \<in> set (list_of (jget0 demo_pair ''links''))"
    "is_obj (hd (list_of (jget0 demo_pair ''links'')))"
    by code_simp+
  show ?thesis
    by (rule preflight_links_resolve [OF l(4,1) _ l(2,5,6) out]) (use l(3) in \<open>simp add: list_all_iff\<close>)
qed

text \<open>
  A naming format given as a list passes the pre-flight, which joins it, but the node is made from the
  raw template: the text of the whole list is taken for the format, and the link does not resolve.
\<close>

definition list_format_pair :: json where
  "list_format_pair = JObj [(''kind'', JStr ''paired''),
     (''nodes'', JList [JObj [(''id'', JStr ''re''), (''ethernet'', JInt 2),
        (''interface_naming'', JObj [(''format'', JList [JStr ''fxp0'', JStr ''em{n}''])])]]),
     (''links'', JList [JObj [(''from_node'', JStr ''re''), (''from_iface'', JStr ''fxp0''),
        (''to_node'', JStr ''re''), (''to_iface'', JStr ''em0'')]])]"

theorem list_format_not_resolved:
  "validate_paired_template list_format_pair = Inr None
   \<and> (case paired_children demo_pair_request (\<lambda>i. ''uuid'') 0 1 (list_of (jget0 list_format_pair ''nodes'')) of
        Inl e \<Rightarrow> False
      | Inr out \<Rightarrow>
          map iface_name (list_of (jget0 (snd (snd (hd out))) ''interfaces'')) = [''['' @ [CHR 0x27] @ ''fxp0'' @ [CHR 0x27], [CHR 0x27] @ ''em0'' @ [CHR 0x27] @ '']'']
          \<and> paired_link_ends (child_nodes out) (jget0 (put_children out (JObj [])) ''nodes'')
              (hd (list_of (jget0 list_format_pair ''links''))) = Inl (NoInterface ''re'' ''fxp0''))"
  by code_simp

text \<open>The first MAC of node 256 has three digits in a field of two.\<close>

theorem first_mac_overflow: "first_mac_for_node 256 = ''50:00:00:100:00:00''"
  by code_simp

section \<open>Failed requests\<close>

lemma write_lab_get:
  assumes "write_lab d path data = Inr d'" and "normalize_lab_path path = Inr p"
  shows "\<exists>v. write_doc data = Inr v \<and> obj_get d' p = Some (Some v)"
  using assms by (auto simp: write_lab_def bindr_simps)

lemma as_written_plain: "as_written v \<Longrightarrow> \<not> jhas v ''topology''"
proof
  assume "as_written v" and t: "jhas v ''topology''"
  then have v: "v = complete_doc (strip_legacy_fields (jdel ''topology'' v))" by (simp add: as_written_def write_plain)
  have "\<not> jhas (strip_legacy_fields (jdel ''topology'' v)) ''topology''"
    by (auto simp: strip_legacy_fields_def strip_nodes_def strip_networks_def split: option.splits json.splits)
  then have "\<not> jhas (complete_doc (strip_legacy_fields (jdel ''topology'' v))) ''topology''"
    by (auto simp: complete_doc_def Let_def jdefault_def)
  with v t show False by simp
qed

lemma jdel_absent: "\<not> jhas v k \<Longrightarrow> is_obj v \<Longrightarrow> jdel k v = v"
  by (cases v) (force simp: jhas_def jfind_def jdel_def obj_del_def obj_get_None_iff filter_id_conv)+

lemma snapshot_restores:
  assumes "read_doc v = Inr data" and "as_written v" and "is_list (jget0 v ''links'')"
  shows "write_doc data = Inr v"
proof -
  obtain ls where "jfind v ''links'' = Some (JList ls)"
    using assms(2,3) by (cases "jfind v ''links''") (auto simp: as_written_def jhas_def jget_def is_list_iff)
  then have "write_doc data = write_doc v" using write_of_read [OF assms(1)] as_written_plain [OF assms(2)] by blast
  moreover have "is_obj v" using assms(1) by (auto simp: read_doc_def split: if_splits)
  ultimately show ?thesis using assms(2) jdel_absent [OF as_written_plain [OF assms(2)]] by (simp add: as_written_def)
qed

lemma restore_file_fails:
  assumes "restore_file path snapshot c m w = (w', Inr (Fail c' m'))" and "normalize_lab_path path = Inr p"
    and "write_doc snapshot = Inr v"
  shows "obj_get (lw_disk w') p = Some (Some v)"
  using assms write_lab_get [of "lw_disk w" path snapshot _ p] by (auto simp: restore_file_def split: sum.splits)

text \<open>
  C14. A request for a paired template that is refused, whatever the reason and wherever it stops, leaves
  the lab file as it was: no node and no link of it remains.
\<close>

theorem failed_paired_request_restores_file:
  assumes "create_nodes_from_paired_template ops h held t u raw r uuids w = (w', Inr (Fail c m))"
    and "scoped_lab_path u raw True = Some path" and "normalize_lab_path path = Inr p"
    and "obj_get (lw_disk w) p = Some (Some v)" and "as_written v" and "is_list (jget0 v ''links'')"
  shows "obj_get (lw_disk w') p = Some (Some v)"
proof (cases "w' = w")
  case False
  then obtain paired snapshot n where s: "read_lab_data (lw_disk w) path = Inr (Done snapshot)"
      and c: "create_paired ops h held paired path raw r uuids snapshot n w = (w', Inr (Fail c m))"
    using assms(1-3) unfolding create_nodes_from_paired_template_def
    by (auto split: option.splits sum.splits reply.splits)
  have "read_doc v = Inr snapshot" using s assms(3,4) by (auto simp: read_lab_data_def bindr_simps NO_SUCH_LAB_def LEGACY_SCHEMA_def split: if_splits)
  note v = snapshot_restores [OF this assms(5,6)]
  have "\<exists>c0 m0 w0. restore_file path snapshot c0 m0 w0 = (w', Inr (Fail c m :: (json list \<times> json list) reply))"
    using c unfolding create_paired_def Let_def by (auto split: sum.splits prod.splits; blast)
  then show ?thesis using restore_file_fails [OF _ assms(3) v] by blast
qed (use assms(4) in simp)

definition pair_tree :: "json \<Rightarrow> template_tree" where
  "pair_tree doc = \<lparr>tt_builtin = None, tt_user = Some [([''u'', ''pairs'', ''vmx.json''], Parsed doc)]\<rparr>"

definition root_account :: account where
  "root_account = \<lparr>ac_name = ''root'', ac_role = ''admin'', ac_folder = ''/''\<rparr>"

definition unusable_pair :: json where
  \<comment> \<open>the pre-flight does not look at the extras\<close>
  "unusable_pair = JObj [(''kind'', JStr ''paired''),
     (''nodes'', JList [demo_child, JObj [(''id'', JStr ''vfp''), (''extras'', JStr ''none'')]]), (''links'', JList [])]"

theorem failed_paired_request_restores_file_witness:
  "obj_get (lw_disk (fst (create_nodes_from_paired_template idle_ops demo_host [] (pair_tree unusable_pair) root_account
     ''a.json'' demo_pair_request (\<lambda>i. ''uuid'') demo_links))) ''a.json'' = Some (Some bare_lab)"
proof -
  let ?r = "create_nodes_from_paired_template idle_ops demo_host [] (pair_tree unusable_pair) root_account
     ''a.json'' demo_pair_request (\<lambda>i. ''uuid'') demo_links"
  have t: "get_paired_user_template (pair_tree unusable_pair) (pr_template demo_pair_request) = Some unusable_pair"
    "validate_paired_template unusable_pair = Inr None"
    "paired_children demo_pair_request (\<lambda>i. ''uuid'') 0 1 (list_of (jget0 unusable_pair ''nodes'')) = Inl PyValueError"
    by code_simp+
  have p: "scoped_lab_path root_account ''a.json'' True = Some ''a.json''" by code_simp
  have v: "obj_get (lw_disk demo_links) ''a.json'' = Some (Some bare_lab)" by (simp add: demo_links_def)
  have w: "as_written bare_lab" "is_list (jget0 bare_lab ''links'')" unfolding as_written_def by code_simp+
  have "case read_doc bare_lab of Inr s \<Rightarrow> next_node_id (jget0 (jdefault ''nodes'' (JObj []) s) ''nodes'') = Inr 1 | Inl e \<Rightarrow> False"
    by code_simp
  then obtain s where s: "read_doc bare_lab = Inr s" "next_node_id (jget0 (jdefault ''nodes'' (JObj []) s) ''nodes'') = Inr 1"
    by (auto split: sum.splits)
  have o: "is_obj bare_lab" "py_eq (jget0 bare_lab ''schema'') (JInt SCHEMA_VERSION)" by code_simp+
  have r: "read_lab_data (lw_disk demo_links) ''a.json'' = Inr (Done s)"
    by (simp add: read_lab_data_def demo_path v s(1) o del: py_eq.simps)
  have "write_lab (lw_disk demo_links) ''a.json'' s = Inr (obj_set ''a.json'' (Some bare_lab) (lw_disk demo_links))"
    by (simp add: write_lab_def demo_path snapshot_restores [OF s(1) w])
  then have "snd ?r = Inr (Fail 422 ''nodes'')"
    by (simp add: create_nodes_from_paired_template_def t p demo_path r s(2) create_paired_def restore_file_def)
  then have "?r = (fst ?r, Inr (Fail 422 ''nodes''))" by (metis prod.collapse)
  from failed_paired_request_restores_file [OF this p demo_path v w] show ?thesis .
qed

end
