(* ===== verification/Lab_Edit_Results.thy ===== *)
theory Lab_Edit_Results
  imports Wire_Requests Node_Results Network_Wiring
begin

text \<open>
  What the edits of a lab document keep of its wiring. A document is \<open>quiet\<close> when writing it derives no
  links from its topology; what a read returns is quiet. Every request on nodes, the layout and the
  topology is one step from the document read to the document written, so that one lemma per request
  suffices. Together the requests of \<open>lab_edits\<close> keep the wiring; those it leaves out, deletion of a
  node among them, can break it, as the end of the theory shows.
\<close>

section \<open>Documents that are written\<close>

definition quiet :: "json \<Rightarrow> bool" where
  "quiet data \<longleftrightarrow> truthy (jget0 data ''links'') \<or> \<not> truthy (jget0 data ''topology'')"

definition steady :: "(topo \<Rightarrow> bool) \<Rightarrow> json \<Rightarrow> bool" where
  "steady P data \<longleftrightarrow> topo_doc P data \<and> quiet data"

lemma steady_written:
  assumes "steady P data" and "write_doc data = Inr v"
  shows "topo_doc P v"
proof -
  have s: "strip_legacy_fields (jdel ''topology'' d) = strip_legacy_fields d" for d
    by (simp add: strip_legacy_fields_def)
  have o: "is_obj data" using assms(1) good_doc_obj by (auto simp: steady_def)
  show ?thesis
  proof (cases "jhas data ''topology'' \<and> \<not> truthy (jget0 data ''links'')")
    case False
    then have "write_doc (jdel ''topology'' data) = Inr v"
      using assms(2) by (simp add: write_plain s) (auto simp: write_doc_def)
    then show ?thesis using assms(1) good_doc_written by (auto simp: steady_def)
  next
    case True
    then have "\<not> truthy (jget0 data ''topology'')" using assms(1) by (simp add: steady_def quiet_def)
    then have t: "legacy_topology_to_links data = Inr []"
      using True by (auto simp: legacy_topology_to_links_def jor_def jget_def jhas_def split: option.splits)
    let ?d = "jset ''links'' (JList []) data"
    obtain tp where tp: "abs_topo data = Some tp" "P tp" "jhas data ''networks''"
      using assms(1) by (auto simp: steady_def topo_doc_def)
    then have "jget data ''links'' (JList []) = JList []"
      using True by (auto simp: abs_topo_def jget_def split: option.splits json.splits)
    then have "abs_topo ?d = abs_topo data" using o by (intro abs_topo_cong) simp_all
    then have "topo_doc P ?d" using tp by (auto simp: topo_doc_def)
    moreover have "write_doc (jdel ''topology'' ?d) = Inr v"
      using assms(2) True by (simp only: write_plain s) (simp add: write_doc_def t)
    ultimately show ?thesis by (rule good_doc_written)
  qed
qed

lemma steady_read:
  assumes "read_lab_data d path = Inr (Done data)" and "topo_file P d p" and "normalize_lab_path path = Inr p"
  shows "steady P data"
proof -
  obtain v where v: "obj_get d p = Some (Some v)" "read_doc v = Inr data"
    using assms by (auto simp: read_lab_data_def bindr_simps NO_SUCH_LAB_def LEGACY_SCHEMA_def split: option.splits if_splits)
  then have "topo_doc P v" using assms(2) by (simp add: topo_file_def)
  then have P: "topo_doc P data" using abs_topo_read [OF v(2)] by (auto simp: topo_doc_def)
  have "quiet data"
  proof (cases "truthy (jget0 data ''links'')")
    case False
    obtain tp where "abs_topo data = Some tp" using P by (auto simp: topo_doc_def)
    then have "jget data ''links'' (JList []) = JList []"
      using False by (auto simp: abs_topo_def jget_def split: option.splits json.splits)
    then have "jget v ''links'' (JList []) = JList []" using read_doc_keys(1) [OF v(2)] by (simp add: jget_def)
    then have "derive_legacy_topology v = Inr (JList [])"
      by (simp add: derive_legacy_topology_def link_list_def jor_def)
    then show ?thesis using read_doc_keys(2) [OF v(2)] by (simp add: quiet_def)
  qed (simp add: quiet_def)
  with P show ?thesis by (simp add: steady_def)
qed

definition doc_step :: "(topo \<Rightarrow> bool) \<Rightarrow> disk \<Rightarrow> disk \<Rightarrow> bool" where
  \<comment> \<open>a document is read and written back\<close>
  "doc_step P d d' \<longleftrightarrow> (\<exists>path data data'. read_lab_data d path = Inr (Done data) \<and> write_lab d path data' = Inr d'
     \<and> (steady P data \<longrightarrow> steady P data'))"

lemma steady_file:
  assumes "topo_file P d p" and "write_lab d path data = Inr d'" and "normalize_lab_path path = Inr p \<Longrightarrow> steady P data"
  shows "topo_file P d' p"
proof -
  obtain q v where v: "normalize_lab_path path = Inr q" "write_doc data = Inr v" "d' = obj_set q (Some v) d"
    using assms(2) by (auto simp: write_lab_def bindr_simps)
  show ?thesis
  proof (cases "q = p")
    case True
    then show ?thesis using v assms(3) steady_written by (auto simp: topo_file_def)
  qed (use v assms(1) in \<open>auto simp: topo_file_def\<close>)
qed

lemma doc_step_file: "doc_step P d d' \<Longrightarrow> topo_file P d p \<Longrightarrow> topo_file P d' p"
  unfolding doc_step_def using steady_file steady_read by blast

lemma steady_obj: "steady P data \<Longrightarrow> is_obj data"
  using good_doc_obj by (auto simp: steady_def)

lemma steady_frame:
  assumes "steady P data" and "is_obj data'"
    and "jfind data' ''links'' = jfind data ''links''" and "jfind data' ''networks'' = jfind data ''networks''"
    and "jfind data' ''topology'' = jfind data ''topology''"
  shows "steady P data'"
proof -
  have "abs_topo data' = abs_topo data"
    using assms(2-4) steady_obj [OF assms(1)] by (intro abs_topo_cong) (simp_all add: jget_def)
  then show ?thesis using assms by (auto simp: steady_def topo_doc_def quiet_def jget_def jhas_def)
qed

lemma steady_jset:
  "steady P data \<Longrightarrow> k \<notin> {''links'', ''networks'', ''topology''} \<Longrightarrow> steady P (jset k v data)"
  by (rule steady_frame) auto

lemma steady_default_nodes: "steady P data \<Longrightarrow> steady P (jdefault ''nodes'' (JObj []) data)"
  by (simp add: jdefault_def steady_jset)

lemma steady_put_node: "steady P data \<Longrightarrow> steady P (put_node n node data)"
  by (simp add: put_node_def steady_jset)

lemma steady_put_children: "steady P data \<Longrightarrow> steady P (put_children cs data)"
  unfolding put_children_def by (induction cs arbitrary: data) (auto simp: steady_put_node)

lemma steady_network:
  assumes "steady P data" and "obj_get (obj_of (jget0 data ''networks'')) k = Some net"
    and "is_obj net'" and "net_mark net' = net_mark net"
  shows "steady P (jset ''networks'' (jset k net' (jget0 data ''networks'')) data)"
proof -
  obtain t where t: "abs_topo data = Some t" "P t" using assms(1) by (auto simp: steady_def topo_doc_def)
  obtain ls nets where a: "jget data ''networks'' (JObj []) = JObj nets" "list_all (\<lambda>(k, v). is_obj v) nets"
      "t_nets t = map (\<lambda>(k, v). (k, net_mark v)) nets"
    using abs_topo_parts [OF t(1)] by metis
  have n: "jget0 data ''networks'' = JObj nets" using a(1) assms(2) by (auto simp: jget_def split: option.splits)
  have "list_all (\<lambda>(k, v). is_obj v) (obj_set k net' xs)" if "list_all (\<lambda>(k, v). is_obj v) xs" for xs
    using that assms(3) by (induction xs) auto
  then have "abs_topo (jset ''networks'' (JObj (obj_set k net' nets)) data)
      = Some (t\<lparr>t_nets := map (\<lambda>(k, v). (k, net_mark v)) (obj_set k net' nets)\<rparr>)"
    using a(2) by (intro abs_topo_nets [OF t(1) a(1)]) simp
  moreover have "map (\<lambda>(k, v). (k, net_mark v)) (obj_set k net' nets) = t_nets t"
    using map_obj_set [of nets k net net_mark net'] assms(2,4) a(3) n by simp
  ultimately show ?thesis
    using assms(1) t n by (auto simp: steady_def topo_doc_def quiet_def jset_eq)
qed

section \<open>Requests on nodes\<close>

lemma load_py_Done [bindr_simps]: "load_py r = Inr x \<longleftrightarrow> r = Inr x"
  by (cases r) (simp_all add: load_py_def)

lemma open_lab_Done: "open_lab u d raw = Inr (Done (path, data)) \<Longrightarrow> read_lab_data d path = Inr (Done data)"
  by (auto simp: open_lab_def bindr_simps)

lemma create_node_step:
  assumes "create_node t s u d raw name r uuid = Inr (Done (d', node))"
  shows "doc_step P d d'"
proof -
  obtain path data n where o: "read_lab_data d path = Inr (Done data)"
      "write_lab d path (put_node n node (jdefault ''nodes'' (JObj []) data)) = Inr d'"
    using assms by (auto simp: create_node_def Let_def bindr_simps dest!: open_lab_Done)
  then show ?thesis unfolding doc_step_def using steady_put_node steady_default_nodes by blast
qed

lemma steady_nodes: "steady P data \<Longrightarrow> steady P (fold (\<lambda>(m, node). put_node m node) ns data)"
  by (induction ns arbitrary: data) (auto simp: steady_put_node)

lemma batch_step:
  assumes "create_nodes_batch t s u d raw prefix placement r uuids = Inr (Done (d', nodes))"
  shows "doc_step P d d'"
proof -
  obtain path data ns where o: "read_lab_data d path = Inr (Done data)"
      "write_lab d path (fold (\<lambda>(m, node). put_node m node) ns (jdefault ''nodes'' (JObj []) data)) = Inr d'"
    using assms by (auto simp: create_nodes_batch_def Let_def bindr_simps dest!: open_lab_Done)
  then show ?thesis unfolding doc_step_def using steady_nodes steady_default_nodes by blast
qed

lemma from_template_step:
  assumes "create_node_from_template t s u d raw name r uuid = Inr (Done (d', node))"
  shows "doc_step P d d'"
  using assms create_node_step unfolding create_node_from_template_def Let_def
  by (auto simp: BAD_CONSOLE_def split: if_splits sum.splits load_error.splits)

lemma update_node_step:
  assumes "update_node t s u d raw n upd running = Inr (Done (d', node))"
  shows "doc_step P d d'"
proof -
  obtain path data where o: "read_lab_data d path = Inr (Done data)" "write_lab d path (put_node n node data) = Inr d'"
    using assms by (auto simp: update_node_def NO_SUCH_NODE_def bindr_simps split: if_splits dest!: open_lab_Done)
  then show ?thesis unfolding doc_step_def using steady_put_node by blast
qed

section \<open>Layout and topology\<close>

lemma moved_network:
  assumes "moved entry v = Inr v'" and "is_obj v"
  shows "is_obj v' \<and> net_mark v' = net_mark v"
  using assms by (auto simp: moved_def net_mark_def Let_def bindr_simps split: option.splits)

lemma move_entry_steady:
  assumes "move_entry kind entry (data, ids) = Inr (data', ids')" and "steady P data" and "kind = ''nodes'' \<or> kind = ''networks''"
  shows "steady P data'"
proof (cases "data' = data")
  case False
  then obtain v v' where v: "jor (jget0 data kind) (JObj []) = JObj (obj_of (jor (jget0 data kind) (JObj [])))"
      "jget (jor (jget0 data kind) (JObj [])) (py_str (jget0 entry ''id'')) JNull = v" "is_obj v" "moved entry v = Inr v'"
      "data' = jset kind (jset (py_str (jget0 entry ''id'')) v' (jget0 data kind)) data"
    using assms(1) by (auto simp: move_entry_def Let_def bindr_simps is_obj_iff split: if_splits)
  show ?thesis
  proof (cases "kind = ''nodes''")
    case True
    then show ?thesis using v(5) assms(2) by (simp add: steady_jset)
  next
    case False
    then have k: "kind = ''networks''" using assms(3) by simp
    have "obj_get (obj_of (jget0 data ''networks'')) (py_str (jget0 entry ''id'')) = Some v"
      using v(2,3) by (auto simp: k jor_def jget_def [of "jget0 data ''networks''"] jget_def [of "JObj []"] jfind_def
          split: if_splits option.splits)
    then show ?thesis
      using steady_network [OF assms(2)] moved_network [OF v(4,3)] by (simp add: v(5) k)
  qed
qed (use assms(2) in simp)

lemma move_entries_steady:
  assumes "forr (move_entry kind) es (data, ids) = Inr (data', ids')" and "steady P data" and "kind = ''nodes'' \<or> kind = ''networks''"
  shows "steady P data'"
proof -
  have "steady P (fst (data', ids'))"
    by (rule forr_inv [OF assms(1), where I = "\<lambda>st. steady P (fst st)"])
      (use assms(2,3) move_entry_steady in \<open>auto split: prod.splits\<close>)
  then show ?thesis by simp
qed

lemma merge_block_steady:
  "merge_block body k data = Inr data' \<Longrightarrow> steady P data \<Longrightarrow> k \<notin> {''links'', ''networks'', ''topology''} \<Longrightarrow> steady P data'"
  by (auto simp: merge_block_def Let_def steady_jset split: json.splits if_splits)

lemma steady_no_topology: "steady P data \<Longrightarrow> steady P (jdel ''topology'' data)"
  using steady_obj [of P data] by (simp add: steady_def quiet_def)

lemma layout_doc_steady:
  assumes "layout_doc body data = Inr (data', ns, ws)" and "steady P data"
  shows "steady P data'"
  using assms by (auto simp: layout_doc_def Let_def bindr_simps dest!: move_entries_steady merge_block_steady intro!: steady_no_topology)

lemma put_layout_step:
  assumes "put_layout u w raw body = (w', r)"
  shows "lw_disk w' = lw_disk w \<or> doc_step P (lw_disk w) (lw_disk w')"
proof (cases "w' = w")
  case False
  then obtain path data data' ids where "read_lab_data (lw_disk w) path = Inr (Done data)" "layout_doc body data = Inr (data', ids)"
      "write_lab (lw_disk w) path data' = Inr (lw_disk w')"
    using assms by (auto simp: put_layout_def bindr_simps split: option.splits if_splits sum.splits reply.splits)
  then show ?thesis using layout_doc_steady unfolding doc_step_def by (cases ids) blast
qed simp

lemma jupdate_keeps: "obj_get kvs f = None \<Longrightarrow> jfind (jupdate kvs v) f = jfind v f"
  unfolding jupdate_def by (induction kvs arbitrary: v) (auto split: if_splits)

lemma jupdate_obj: "is_obj v \<Longrightarrow> is_obj (jupdate kvs v)"
  unfolding jupdate_def by (induction kvs arbitrary: v) auto

lemma filtered_absent: "\<not> allowed f \<Longrightarrow> obj_get (filter (\<lambda>(f, x). allowed f \<and> R x) kvs) f = None"
  by (induction kvs) auto

text \<open>What a patch of one record does: nothing, or the allowed fields of an existing record are set.\<close>

lemma patch_recordE:
  assumes "patch_record allowed kind (k, patch) data = Inr data'"
  obtains "data' = data"
    | v v' where "obj_get (obj_of (jget0 data kind)) k = Some v" "is_obj v" "is_obj v'"
        "\<And>f. \<not> allowed f \<Longrightarrow> jfind v' f = jfind v f" "data' = jset kind (jset k v' (jget0 data kind)) data"
proof (cases "data' = data")
  case False
  let ?v = "jget (jget data kind (JObj [])) k JNull"
  let ?f = "filter (\<lambda>(f, x). allowed f \<and> x \<noteq> JNull) (obj_of patch)"
  have c: "is_obj (jget data kind (JObj []))" "truthy ?v" "is_obj ?v"
      "data' = jset kind (jset k (jupdate ?f ?v) (jget0 data kind)) data"
    using assms False by (auto simp: patch_record_def Let_def bindr_simps split: if_splits)
  have "obj_get (obj_of (jget0 data kind)) k = Some ?v"
    using c(2) by (auto simp: jget_def [of data] jget_def [of _ k] jfind_def [of _ k] split: option.splits)
  then show ?thesis
    using that(2) [of ?v "jupdate ?f ?v"] c(3,4) filtered_absent [of allowed _ "\<lambda>x. x \<noteq> JNull" "obj_of patch"]
    by (simp add: jupdate_keeps jupdate_obj)
qed (use that(1) in simp)

lemma patch_nodes_steady:
  assumes "patch_record allowed ''nodes'' p data = Inr data'" and "steady P data"
  shows "steady P data'"
proof (cases p)
  case (Pair k patch)
  show ?thesis using assms(1) unfolding Pair
    by (cases rule: patch_recordE) (use assms(2) steady_jset in auto)
qed

lemma patch_networks_steady:
  assumes "patch_record allowed ''networks'' p data = Inr data'" and "steady P data" and "\<not> allowed ''implicit''"
  shows "steady P data'"
proof (cases p)
  case (Pair k patch)
  show ?thesis using assms(1) unfolding Pair
  proof (cases rule: patch_recordE)
    case (2 v v')
    have "net_mark v' = net_mark v" using 2(4) [OF assms(3)] by (simp add: net_mark_def jget_def)
    then show ?thesis using steady_network [OF assms(2) 2(1,3)] 2(5) by simp
  qed (use assms(2) in simp)
qed

definition payload_topology :: "json \<Rightarrow> json" where
  \<comment> \<open>the edges a topology request sends\<close>
  "payload_topology payload = (if is_list payload then payload else jget0 payload ''topology'')"

lemma topology_doc_parts:
  assumes "topology_doc payload data = Inr data'"
  obtains t nodes nets d1 where "forr (patch_record (\<lambda>f. True) ''nodes'') nodes (jset ''topology'' t data) = Inr d1"
    "forr (patch_record (\<lambda>f. f \<in> set NETWORK_TOPOLOGY_FIELDS) ''networks'') nets d1 = Inr data'"
    "t = payload_topology payload \<or> t = jget data ''topology'' (JList [])"
proof (cases "is_list payload")
  case True
  then show ?thesis using assms that [of "[]" payload _ "[]"] by (auto simp: topology_doc_def payload_topology_def)
next
  case False
  then obtain t nodes nets d1 where d: "pget payload ''topology'' (jget data ''topology'' (JList [])) = Inr t"
      "forr (patch_record (\<lambda>f. True) ''nodes'') nodes (jset ''topology'' t data) = Inr d1"
      "forr (patch_record (\<lambda>f. f \<in> set NETWORK_TOPOLOGY_FIELDS) ''networks'') nets d1 = Inr data'"
    using assms by (auto simp: topology_doc_def bindr_simps)
  then have "t = payload_topology payload \<or> t = jget data ''topology'' (JList [])"
    using False by (auto simp: payload_topology_def pget_def jget_def split: if_splits option.splits)
  with d(2,3) show ?thesis by (rule that)
qed

lemma steady_topology:
  assumes "steady P data" and "truthy (jget0 data ''links'') \<or> \<not> truthy t"
  shows "steady P (jset ''topology'' t data)"
  using assms good_doc_obj [of P data]
  by (auto simp: steady_def quiet_def topo_doc_def abs_topo_jset)

lemma topology_doc_steady:
  assumes "topology_doc payload data = Inr data'" and "steady P data"
    and "truthy (jget0 data ''links'') \<or> \<not> truthy (payload_topology payload)"
  shows "steady P data'"
proof -
  obtain t nodes nets d1 where d: "forr (patch_record (\<lambda>f. True) ''nodes'') nodes (jset ''topology'' t data) = Inr d1"
      "forr (patch_record (\<lambda>f. f \<in> set NETWORK_TOPOLOGY_FIELDS) ''networks'') nets d1 = Inr data'"
      "t = payload_topology payload \<or> t = jget data ''topology'' (JList [])"
    by (rule topology_doc_parts [OF assms(1)])
  have "truthy (jget0 data ''links'') \<or> \<not> truthy t"
    using d(3) assms(2,3) by (auto simp: steady_def quiet_def jget_def split: option.splits)
  then have "steady P (jset ''topology'' t data)" using steady_topology assms(2) by blast
  then have "steady P d1" using forr_inv [OF d(1), where I = "steady P"] patch_nodes_steady by blast
  moreover have "\<not> ''implicit'' \<in> set NETWORK_TOPOLOGY_FIELDS" by (simp add: NETWORK_TOPOLOGY_FIELDS_def)
  ultimately show ?thesis using forr_inv [OF d(2), where I = "steady P"] patch_networks_steady by blast
qed

definition canvas_only :: "account \<Rightarrow> disk \<Rightarrow> string \<Rightarrow> json \<Rightarrow> bool" where
  \<comment> \<open>the lab has links, or the request sends no edges\<close>
  "canvas_only u d raw payload \<longleftrightarrow>
     (\<forall>path data. scoped_lab_path u raw True = Some path \<longrightarrow> read_lab_data d path = Inr (Done data)
        \<longrightarrow> truthy (jget0 data ''links'') \<or> \<not> truthy (payload_topology payload))"

lemma update_topology_step:
  assumes "update_topology ops u w raw payload = (w', r)" and "canvas_only u (lw_disk w) raw payload"
  shows "lw_disk w' = lw_disk w \<or> doc_step P (lw_disk w) (lw_disk w')"
proof (cases "lw_disk w' = lw_disk w")
  case False
  then obtain path data data' where d: "scoped_lab_path u raw True = Some path" "read_lab_data (lw_disk w) path = Inr (Done data)"
      "topology_doc payload data = Inr data'" "write_lab (lw_disk w) path data' = Inr (lw_disk w')"
    using assms(1) by (auto simp: update_topology_def bindr_simps split: option.splits if_splits sum.splits reply.splits)
  then have "steady P data \<longrightarrow> steady P data'"
    using topology_doc_steady assms(2) by (auto simp: canvas_only_def)
  then show ?thesis using d unfolding doc_step_def by blast
qed simp

section \<open>Update of a network\<close>

lemma put_network_steady:
  assumes "put_network_doc data n upd = Inr (Done (net', data'))" and "network_update_ok upd" and "steady P data"
  shows "steady P data'"
proof -
  obtain net where e: "jget (jget data ''networks'' (JObj [])) (dec_int n) JNull = net" "is_obj net" "truthy net"
      "net' = put_given upd net" "data' = jset ''networks'' (jset (dec_int n) net' (jget0 data ''networks'')) data"
    using assms(1) by (auto simp: put_network_doc_def bindr_simps pget_def split: if_splits)
  have "obj_get (obj_of (jget0 data ''networks'')) (dec_int n) = Some net"
    using e(1,3) by (auto simp: jget_def [of data] jget_def [of _ "dec_int n"] jfind_def [of _ "dec_int n"] split: option.splits)
  moreover have "net_mark net' = net_mark net"
    using update_ok_absent [OF assms(2), of "''implicit''"] put_given_find [OF update_ok_distinct [OF assms(2)], of net "''implicit''"]
    by (simp add: net_mark_def jget_def e(4) NETWORK_UPDATE_FIELDS_def)
  ultimately show ?thesis
    using steady_network [OF assms(3) _ put_given_obj [OF e(2)]] by (simp add: e(4,5))
qed

lemma update_network_step:
  assumes "update_network_request u d raw n upd = Inr (Done (d', net))" and "network_update_ok upd"
  shows "doc_step P d d'"
proof -
  obtain path data data' where "read_lab_data d path = Inr (Done data)" "put_network_doc data n upd = Inr (Done (net, data'))"
      "write_lab d path data' = Inr d'"
    using assms(1) by (auto simp: update_network_request_def bindr_simps dest!: open_lab_Done)
  then show ?thesis unfolding doc_step_def using put_network_steady [OF _ assms(2)] by blast
qed

section \<open>Paired templates\<close>

lemma paired_end_node: "paired_end ids nodes cid nm = Inr a \<Longrightarrow> normalize_endpoint a = Inr e \<Longrightarrow> net_ids e = []"
  by (auto simp: paired_end_def normalize_endpoint_def jget_def jhas_def jfind_def split: option.splits)

lemma paired_link_nodes:
  assumes "paired_link_ends ids nodes l = Inr (a, b)" and "normalize_endpoint a = Inr e" and "normalize_endpoint b = Inr f"
  shows "net_ids e = []" "net_ids f = []"
  using assms paired_end_node by (auto simp: paired_link_ends_def Let_def bindr_simps split: if_splits)

lemma link_children_wired:
  assumes "link_children ops h held path ids nodes ls created w = (w', r)" and "wired (lw_disk w) p" and "safe_path p"
  shows "wired (lw_disk w') p"
  using assms(1,2)
proof (induction ls arbitrary: created w)
  case (Cons l ls)
  have made: "wired (lw_disk w1) p" if "paired_link_ends ids nodes l = Inr (a, b)" "create_link ops h held path a b JNull [] w = (w1, x)" for a b w1 x
    using create_link_wired [OF that(2) Cons.prems(2) assms(3)] paired_link_nodes [OF that(1)] by simp
  show ?case
    using Cons.prems Cons.IH made by (auto split: if_splits sum.splits prod.splits)
qed simp

lemma compensate_wired: "wired (lw_disk w) p \<Longrightarrow> safe_path p \<Longrightarrow> wired (lw_disk (compensate ops held path created w)) p"
proof -
  have "wired (lw_disk w) p \<Longrightarrow> safe_path p \<Longrightarrow>
      wired (lw_disk (fold (\<lambda>l w. fst (delete_link ops held path (py_str (jget l ''id'' (JStr []))) w)) ls w)) p" for ls w
    by (induction ls arbitrary: w) (auto intro: delete_link_wired [OF prod.collapse [symmetric]])
  then show "wired (lw_disk w) p \<Longrightarrow> safe_path p \<Longrightarrow> wired (lw_disk (compensate ops held path created w)) p"
    by (simp add: compensate_def)
qed

lemma restore_file_wired:
  assumes "restore_file path snapshot c m w = (w', r)" and "wired (lw_disk w) p"
    and "normalize_lab_path path = Inr p \<Longrightarrow> steady good_topo snapshot"
  shows "wired (lw_disk w') p"
  using assms(1,2) steady_file [OF assms(2) _ assms(3)] by (auto simp: restore_file_def split: sum.splits)

lemma create_paired_wired:
  assumes "create_paired ops h held paired path raw r uuids snapshot n w = (w', res)" and "wired (lw_disk w) p" and "safe_path p"
    and snap: "normalize_lab_path path = Inr p \<Longrightarrow> steady good_topo snapshot"
  shows "wired (lw_disk w') p"
proof -
  have put: "wired d p" if "write_lab (lw_disk w) path (put_children cs (jdefault ''nodes'' (JObj []) snapshot)) = Inr d" for cs d
    using steady_file [OF assms(2) that] snap steady_put_children steady_default_nodes by blast
  note undone = restore_file_wired [OF _ _ snap]
  show ?thesis
    using assms(1,2) put unfolding create_paired_def Let_def
    by (auto simp: bindr_simps split: sum.splits prod.splits
        dest!: link_children_wired [OF _ _ assms(3)] undone intro: compensate_wired [OF _ assms(3)])
qed

lemma paired_template_wired:
  assumes "create_nodes_from_paired_template ops h held t u raw r uuids w = (w', res)" and "wired (lw_disk w) p" and "safe_path p"
  shows "wired (lw_disk w') p"
proof -
  have "wired (lw_disk w') p" if "read_lab_data (lw_disk w) path = Inr (Done snapshot)"
      "create_paired ops h held paired path raw r uuids snapshot n w = (w', res)" for path snapshot paired n
    using create_paired_wired [OF that(2) assms(2,3)] steady_read [OF that(1) assms(2)] by blast
  then show ?thesis
    using assms(1,2) unfolding create_nodes_from_paired_template_def
    by (auto simp: bindr_simps split: option.splits sum.splits reply.splits)
qed

section \<open>All requests on a lab\<close>

text \<open>
  The requests of the routers on a lab that keep its wiring. Three conditions leave out what does not:
  \<open>one_network\<close> links between two networks, \<open>canvas_only\<close> edges for a lab without links, and
  \<open>network_update_ok\<close> bodies that the schema refuses anyway; there is no rule for the deletion of a node.
\<close>

inductive lab_edits :: "('w, 'r) link_world \<Rightarrow> ('w, 'r) link_world \<Rightarrow> bool" where
  no_edit: "lab_edits w w"
| wiring_edit: "lab_edits w w1 \<Longrightarrow> lab_requests w1 w2 \<Longrightarrow> lab_edits w w2"
| node_made: "lab_edits w w1 \<Longrightarrow> create_node t s u (lw_disk w1) raw name r uuid = Inr (Done (d, node)) \<Longrightarrow> lab_edits w (w1\<lparr>lw_disk := d\<rparr>)"
| nodes_made: "lab_edits w w1 \<Longrightarrow> create_nodes_batch t s u (lw_disk w1) raw prefix placement r uuids = Inr (Done (d, nodes))
    \<Longrightarrow> lab_edits w (w1\<lparr>lw_disk := d\<rparr>)"
| template_used: "lab_edits w w1 \<Longrightarrow> create_node_from_template t s u (lw_disk w1) raw name r uuid = Inr (Done (d, node))
    \<Longrightarrow> lab_edits w (w1\<lparr>lw_disk := d\<rparr>)"
| pair_used: "lab_edits w w1 \<Longrightarrow> create_nodes_from_paired_template ops h held t u raw pr uuids w1 = (w2, r1) \<Longrightarrow> lab_edits w w2"
| node_edited: "lab_edits w w1 \<Longrightarrow> update_node t s u (lw_disk w1) raw n changes running = Inr (Done (d, node))
    \<Longrightarrow> lab_edits w (w1\<lparr>lw_disk := d\<rparr>)"
| network_put: "lab_edits w w1 \<Longrightarrow> network_update_ok upd \<Longrightarrow> update_network_request u (lw_disk w1) raw n upd = Inr (Done (d, net))
    \<Longrightarrow> lab_edits w (w1\<lparr>lw_disk := d\<rparr>)"
| layout_put: "lab_edits w w1 \<Longrightarrow> put_layout u w1 raw body = (w2, r2) \<Longrightarrow> lab_edits w w2"
| topology_put: "lab_edits w w1 \<Longrightarrow> canvas_only u (lw_disk w1) raw payload \<Longrightarrow> update_topology ops u w1 raw payload = (w2, r3)
    \<Longrightarrow> lab_edits w w2"

text \<open>
  C4. A lab file that is wired stays wired: link ids are distinct, an interface is on one link at most,
  every link joins an interface and an existing network, and an implicit network has exactly two ends.
  This holds along every sequence, with any failures of the host and the runtime between, of these
  requests: creation, change and deletion of links, where a new link names at most one network and not
  number 0; creation, change and deletion of networks, with the fields the schema of an update
  lets through; creation of nodes, singly, in batches and from templates; update of a node; change of
  the layout; and topology requests that send no edges or find a lab with links. The deletion of a
  node is not among them, nor are links between two networks and edges sent to a lab without links:
  each of the three can break the wiring (\<open>node_deletion_leaves_half_link\<close>,
  \<open>second_network_not_promoted\<close>, \<open>topology_request_unchecked_links\<close>).
\<close>
theorem edits_keep_wiring:
  assumes "lab_edits w w'" and "wired (lw_disk w) p" and "safe_path p"
  shows "wired (lw_disk w') p"
  using assms
proof (induction rule: lab_edits.induct)
  case (wiring_edit w w1 w2)
  then show ?case using requests_keep_wiring by blast
next
  case (layout_put w w1 u raw body w2 r)
  then show ?case using put_layout_step [OF layout_put.hyps(2), of good_topo] doc_step_file by metis
next
  case (topology_put w w1 u raw payload ops w2 r)
  then show ?case using update_topology_step [OF topology_put.hyps(3,2), of good_topo] doc_step_file by metis
qed (auto intro: doc_step_file dest: create_node_step batch_step from_template_step update_node_step update_network_step paired_template_wired)

theorem edits_keep_wiring_witness:
  "wired (lw_disk (fst (update_topology idle_ops \<lparr>ac_name = ''root'', ac_role = ''admin'', ac_folder = []\<rparr>
     (fst (put_layout \<lparr>ac_name = ''root'', ac_role = ''admin'', ac_folder = []\<rparr> (fst demo_create) ''a.json''
       (JObj [(''networks'', JList [JObj [(''id'', JInt 1), (''left'', JInt 40)]])])))
     ''a.json'' (JObj [(''networks'', JObj [(''1'', JObj [(''name'', JStr ''lan'')])])])))) ''a.json''"
proof (rule edits_keep_wiring [OF _ demo_links_wired])
  have "one_network (node_end 1 0) (node_end 2 0)" by (simp add: one_network_def demo_ends)
  then have "lab_requests demo_links (fst demo_create)"
    unfolding demo_create_def by (intro link_made [OF no_request _ prod.collapse [symmetric]])
  note linked = wiring_edit [OF no_edit this]
  have "canvas_only u d ''a.json'' (JObj [(''networks'', x)])" for u d x
    by (simp add: canvas_only_def payload_topology_def jget_def jfind_def)
  from topology_put [OF layout_put [OF linked prod.collapse [symmetric]] this prod.collapse [symmetric]]
  show "lab_edits demo_links (fst (update_topology idle_ops \<lparr>ac_name = ''root'', ac_role = ''admin'', ac_folder = []\<rparr>
     (fst (put_layout \<lparr>ac_name = ''root'', ac_role = ''admin'', ac_folder = []\<rparr> (fst demo_create) ''a.json''
       (JObj [(''networks'', JList [JObj [(''id'', JInt 1), (''left'', JInt 40)]])])))
     ''a.json'' (JObj [(''networks'', JObj [(''1'', JObj [(''name'', JStr ''lan'')])])])))" .
qed

section \<open>What a topology request may change\<close>

definition net_field :: "json \<Rightarrow> string \<Rightarrow> string \<Rightarrow> json option" where
  "net_field data n f = (case obj_get (obj_of (jget0 data ''networks'')) n of None \<Rightarrow> None | Some net \<Rightarrow> jfind net f)"

lemma obj_set_keys: "obj_get kvs k = Some v \<Longrightarrow> map fst (obj_set k w kvs) = map fst kvs"
  by (induction kvs) auto

definition same_networks :: "json \<Rightarrow> json \<Rightarrow> bool" where
  \<comment> \<open>the links, the networks there are, and all of their fields but those of the canvas\<close>
  "same_networks data data' \<longleftrightarrow> jget0 data' ''links'' = jget0 data ''links''
     \<and> map fst (obj_of (jget0 data' ''networks'')) = map fst (obj_of (jget0 data ''networks''))
     \<and> (\<forall>n f. f \<notin> set NETWORK_TOPOLOGY_FIELDS \<longrightarrow> net_field data' n f = net_field data n f)"

lemma patch_nodes_same:
  "patch_record allowed ''nodes'' (k, patch) data = Inr data' \<Longrightarrow> same_networks data0 data \<Longrightarrow> same_networks data0 data'"
  by (erule patch_recordE) (auto simp: same_networks_def net_field_def)

lemma patch_networks_same:
  assumes "patch_record (\<lambda>f. f \<in> set NETWORK_TOPOLOGY_FIELDS) ''networks'' (k, patch) data = Inr data'"
    and "same_networks data0 data"
  shows "same_networks data0 data'"
  using assms(1)
proof (cases rule: patch_recordE)
  case (2 v v')
  then obtain nets where n: "jget0 data ''networks'' = JObj nets" by (cases "jget0 data ''networks''") auto
  have "net_field data' n f = net_field data n f" if "f \<notin> set NETWORK_TOPOLOGY_FIELDS" for n f
    using 2(1) 2(4) [OF that] 2(5) n by (auto simp: net_field_def jset_eq obj_get_set split: option.splits)
  then show ?thesis
    using assms(2) 2(1,5) n by (auto simp: same_networks_def jset_eq obj_set_keys)
qed (use assms(2) in simp)

lemma topology_doc_same:
  assumes "topology_doc payload data = Inr data'"
  shows "same_networks data data'"
proof -
  obtain t nodes nets d1 where d: "forr (patch_record (\<lambda>f. True) ''nodes'') nodes (jset ''topology'' t data) = Inr d1"
      "forr (patch_record (\<lambda>f. f \<in> set NETWORK_TOPOLOGY_FIELDS) ''networks'') nets d1 = Inr data'"
    using topology_doc_parts [OF assms] by metis
  have "same_networks data (jset ''topology'' t data)" by (simp add: same_networks_def net_field_def)
  then have "same_networks data d1"
    using forr_inv [OF d(1), where I = "same_networks data"] patch_nodes_same by (metis surj_pair)
  then show ?thesis
    using forr_inv [OF d(2), where I = "same_networks data"] patch_networks_same by (metis surj_pair)
qed

lemma obj_get_map: "obj_get (map (\<lambda>(k, v). (k, f v)) kvs) n = map_option f (obj_get kvs n)"
  by (induction kvs) auto

lemma drop_keys_find: "f \<notin> set ks \<Longrightarrow> jfind (drop_keys ks v) f = jfind v f"
proof -
  have "f \<notin> set ks \<Longrightarrow> obj_get (filter (\<lambda>(k, x). k \<notin> set ks) kvs) f = obj_get kvs f" for kvs :: "(string \<times> json) list"
    by (induction kvs) (auto split: if_splits)
  then show "f \<notin> set ks \<Longrightarrow> jfind (drop_keys ks v) f = jfind v f" by (simp add: drop_keys_def jfind_def)
qed

lemma strip_networks_of:
  "obj_of (jget0 (strip_networks c) ''networks'') = map (\<lambda>(k, v). (k, drop_keys [''count''] v)) (obj_of (jget0 c ''networks''))"
  by (auto simp: strip_networks_def jget_def split: option.splits json.splits)

lemma written_networks:
  "jget0 (complete_doc (strip_legacy_fields d)) ''networks'' = jget0 (strip_networks d) ''networks''"
proof -
  have "jget0 (complete_doc c) ''networks'' = jget0 c ''networks''" for c
    by (simp add: complete_doc_def Let_def jdefault_def)
  moreover have "jfind (strip_nodes c) ''networks'' = jfind c ''networks''" for c
    by (auto simp: strip_nodes_def split: option.splits json.splits)
  ultimately show ?thesis
    by (auto simp: strip_legacy_fields_def strip_networks_def jget_def split: option.splits json.splits)
qed

lemma written_links:
  assumes "truthy (jget0 d ''links'')"
  shows "jget0 (complete_doc (strip_legacy_fields d)) ''links'' = jget0 d ''links''"
proof -
  have s: "jfind (strip_legacy_fields d) ''links'' = jfind d ''links''"
    by (auto simp: strip_legacy_fields_def strip_networks_def strip_nodes_def split: option.splits json.splits)
  moreover have "jfind d ''links'' \<noteq> None" using assms by (auto simp: jget_def split: option.splits)
  ultimately have h: "jhas (strip_legacy_fields d) ''links''" by (simp add: jhas_def)
  have "jget0 (complete_doc c) ''links'' = jget0 c ''links''" if "jhas c ''links''" for c
  proof -
    have "jdefault ''links'' (JList []) (jdefault ''schema'' x c) = jdefault ''schema'' x c" for x
      using that by (simp add: jdefault_def jhas_def)
    then show ?thesis by (simp add: complete_doc_def Let_def) (simp add: jdefault_def)
  qed
  from this [OF h] show ?thesis by (simp add: s jget_def)
qed

lemma write_doc_keeps:
  assumes "write_doc d = Inr v"
  shows "map fst (obj_of (jget0 v ''networks'')) = map fst (obj_of (jget0 d ''networks''))"
    "f \<noteq> ''count'' \<Longrightarrow> net_field v n f = net_field d n f"
    "truthy (jget0 d ''links'') \<Longrightarrow> jget0 v ''links'' = jget0 d ''links''"
proof -
  obtain ls where v: "v = complete_doc (strip_legacy_fields d) \<or> v = complete_doc (strip_legacy_fields (jset ''links'' ls d))"
      "truthy (jget0 d ''links'') \<Longrightarrow> v = complete_doc (strip_legacy_fields d)"
    using assms by (auto simp: write_doc_def bindr_simps split: if_splits)
  then have n: "obj_of (jget0 v ''networks'') = map (\<lambda>(k, v). (k, drop_keys [''count''] v)) (obj_of (jget0 d ''networks''))"
    by (auto simp: written_networks strip_networks_of)
  show "map fst (obj_of (jget0 v ''networks'')) = map fst (obj_of (jget0 d ''networks''))"
    by (simp add: n case_prod_beta comp_def)
  show "f \<noteq> ''count'' \<Longrightarrow> net_field v n f = net_field d n f"
    by (simp add: net_field_def n obj_get_map drop_keys_find split: option.splits)
  show "truthy (jget0 d ''links'') \<Longrightarrow> jget0 v ''links'' = jget0 d ''links''" using v(2) written_links by simp
qed

text \<open>
  C16. A request for the topology of a lab creates and removes no network, and the type, the runtime,
  the configuration, the id and the implicit mark of every network are in the file it writes what
  they were in the lab it read: only the network service writes who owns a bridge. When the lab has
  links the file has the same ones, and no other file is touched; a request that is not carried
  out changes nothing. (A lab without links is different: there the edges sent become its links.)
\<close>

theorem topology_request_keeps_networks:
  assumes "update_topology ops u w raw payload = (w', r)"
  shows "case r of
      Inr (Done t) \<Rightarrow> \<exists>path p data v. scoped_lab_path u raw True = Some path \<and> normalize_lab_path path = Inr p
        \<and> read_lab_data (lw_disk w) path = Inr (Done data) \<and> lw_disk w' = obj_set p (Some v) (lw_disk w)
        \<and> map fst (obj_of (jget0 v ''networks'')) = map fst (obj_of (jget0 data ''networks''))
        \<and> (\<forall>n. \<forall>f\<in>{''type'', ''runtime'', ''config'', ''id'', ''implicit''}. net_field v n f = net_field data n f)
        \<and> (truthy (jget0 data ''links'') \<longrightarrow> jget0 v ''links'' = jget0 data ''links'')
    | _ \<Rightarrow> w' = w"
proof (cases "\<exists>t. r = Inr (Done t)")
  case True
  then obtain path p data data' v where d: "scoped_lab_path u raw True = Some path" "normalize_lab_path path = Inr p"
      "read_lab_data (lw_disk w) path = Inr (Done data)" "topology_doc payload data = Inr data'"
      "write_doc data' = Inr v" "lw_disk w' = obj_set p (Some v) (lw_disk w)"
    using assms by (auto simp: update_topology_def ACCESS_DENIED_def write_lab_def bindr_simps split: option.splits sum.splits reply.splits)
  have "same_networks data data'" by (rule topology_doc_same [OF d(4)])
  moreover have "\<forall>f\<in>{''type'', ''runtime'', ''config'', ''id'', ''implicit''}. f \<notin> set NETWORK_TOPOLOGY_FIELDS \<and> f \<noteq> ''count''"
    by (simp add: NETWORK_TOPOLOGY_FIELDS_def)
  moreover note write_doc_keeps [OF d(5)]
  ultimately have "map fst (obj_of (jget0 v ''networks'')) = map fst (obj_of (jget0 data ''networks''))
      \<and> (\<forall>n. \<forall>f\<in>{''type'', ''runtime'', ''config'', ''id'', ''implicit''}. net_field v n f = net_field data n f)
      \<and> (truthy (jget0 data ''links'') \<longrightarrow> jget0 v ''links'' = jget0 data ''links'')"
    by (simp add: same_networks_def)
  then show ?thesis using True d by auto
qed (use assms in \<open>auto simp: update_topology_def ACCESS_DENIED_def split: option.splits sum.splits reply.splits\<close>)

definition forged :: json where
  "forged = JObj [(''networks'', JObj [(''1'', JObj [(''name'', JStr ''x''), (''runtime'', JObj [(''driver'', JStr ''bridge_cloud'')])])])]"

definition linked_lab :: json where
  "linked_lab = JObj
     [(''schema'', JInt SCHEMA_VERSION), (''nodes'', JObj [(''1'', JObj [(''name'', JStr ''a'')])]),
      (''networks'', JObj [(''1'', JObj [(''name'', JStr ''lan''), (''runtime'', JObj [(''driver'', JStr ''linux_bridge'')])])]),
      (''links'', JList [JObj [(''id'', JStr ''lnk_001''), (''from'', node_end 1 0), (''to'', JObj [(''network_id'', JInt 1)])]])]"

definition forged_run :: "(nat, unit) link_world \<times> (py_exc + json reply)" where
  "forged_run = update_topology idle_ops \<lparr>ac_name = ''root'', ac_role = ''admin'', ac_folder = []\<rparr>
     (demo_links\<lparr>lw_disk := [(''a.json'', Some linked_lab)]\<rparr>) ''a.json'' forged"

lemma forged_name:
  "map_option (map_option (\<lambda>v. net_field v ''1'' ''name'')) (obj_get (lw_disk (fst forged_run)) ''a.json'') = Some (Some (Some (JStr ''x'')))"
  by code_simp

lemma forged_read:
  "case read_lab_data [(''a.json'', Some linked_lab)] ''a.json'' of Inr (Done d) \<Rightarrow>
     net_field d ''1'' ''runtime'' = Some (JObj [(''driver'', JStr ''linux_bridge'')]) | _ \<Rightarrow> False"
  by code_simp

theorem topology_request_keeps_networks_witness:
  "\<exists>v. obj_get (lw_disk (fst forged_run)) ''a.json'' = Some (Some v) \<and> net_field v ''1'' ''name'' = Some (JStr ''x'')
     \<and> net_field v ''1'' ''runtime'' = Some (JObj [(''driver'', JStr ''linux_bridge'')])"
proof -
  have path: "scoped_lab_path \<lparr>ac_name = ''root'', ac_role = ''admin'', ac_folder = []\<rparr> ''a.json'' True = Some ''a.json''"
    "normalize_lab_path ''a.json'' = Inr ''a.json''" by code_simp+
  have "net_field linked_lab ''1'' ''name'' = Some (JStr ''lan'')"
    by (simp add: net_field_def linked_lab_def jget_def jfind_def)
  then have changed: "fst forged_run \<noteq> demo_links\<lparr>lw_disk := [(''a.json'', Some linked_lab)]\<rparr>" using forged_name by auto
  have "update_topology idle_ops \<lparr>ac_name = ''root'', ac_role = ''admin'', ac_folder = []\<rparr>
     (demo_links\<lparr>lw_disk := [(''a.json'', Some linked_lab)]\<rparr>) ''a.json'' forged = (fst forged_run, snd forged_run)"
    by (simp add: forged_run_def)
  from topology_request_keeps_networks [OF this]
  obtain data v where "read_lab_data [(''a.json'', Some linked_lab)] ''a.json'' = Inr (Done data)"
      "lw_disk (fst forged_run) = obj_set ''a.json'' (Some v) [(''a.json'', Some linked_lab)]"
      "net_field v ''1'' ''runtime'' = net_field data ''1'' ''runtime''"
    using path changed by (auto split: sum.splits reply.splits)
  then show ?thesis using forged_name forged_read by auto
qed

section \<open>Edits that break the wiring\<close>

text \<open>
  The deletion of a node removes its own links only. Of a link between two nodes, which is an implicit
  network with two halves, the half of the other node stays, on a network nothing else is on; the link
  service removes both.
\<close>

definition two_halves :: json where
  "two_halves = JObj
     [(''nodes'', JObj [(''1'', JObj [(''name'', JStr ''a'')]), (''2'', JObj [(''name'', JStr ''b'')])]),
      (''networks'', JObj [(''1'', JObj [(''implicit'', JBool True)])]),
      (''links'', JList
        [JObj [(''id'', JStr ''lnk_001''), (''from'', node_end 1 0), (''to'', JObj [(''network_id'', JInt 1)])],
         JObj [(''id'', JStr ''lnk_002''), (''from'', node_end 2 0), (''to'', JObj [(''network_id'', JInt 1)])]]),
      (''topology'', JList [])]"

theorem node_deletion_leaves_half_link:
  "map_option (\<lambda>t. (length (t_links t), t_nets t)) (abs_topo two_halves) = Some (2, [(''1'', True)])
   \<and> map_option (\<lambda>t. (t_links t, t_nets t)) (abs_topo (projr (without_node 1 two_halves)))
     = Some ([(''lnk_002'', NodeEp 2 0, NetEp 1)], [(''1'', True)])"
  by code_simp

text \<open>
  On a lab without links the edges a topology request sends are written as links without any of the
  checks of the link service: here one interface gets two links, to networks that do not exist.
\<close>

definition sent_edges :: json where
  "sent_edges = JList
     [JObj [(''source'', JStr ''node1''), (''destination'', JStr ''network7''), (''network_id'', JInt 7)],
      JObj [(''source'', JStr ''node1''), (''destination'', JStr ''network8''), (''network_id'', JInt 8)]]"

theorem topology_request_unchecked_links:
  "map_option t_links (abs_topo (projr (write_doc (projr (topology_doc sent_edges bare_lab)))))
   = Some [(''lnk_001'', NodeEp 1 0, NetEp 7), (''lnk_002'', NodeEp 1 0, NetEp 8)]"
  by code_simp

text \<open>
  The fields a topology request sets on a node are not checked at all: the image a running node must
  keep, and which has to exist, becomes any text.
\<close>

definition running_node :: json where
  "running_node = JObj [(''nodes'', JObj [(''1'', JObj [(''type'', JStr ''qemu''), (''image'', JStr ''vyos'')])])]"

theorem topology_request_sets_image:
  "jget0 (jget0 (jget0 (projr (topology_doc (JObj [(''nodes'', JObj [(''1'', JObj [(''image'', JStr ''none'')])])]) running_node))
     ''nodes'') ''1'') ''image'' = JStr ''none''
   \<and> validate_node_update t s (jget0 (jget0 running_node ''nodes'') ''1'') [(''image'', JStr ''none'')] True
     = Inr (Some ''Stop the node before changing'')"
proof
  show "jget0 (jget0 (jget0 (projr (topology_doc (JObj [(''nodes'', JObj [(''1'', JObj [(''image'', JStr ''none'')])])]) running_node))
     ''nodes'') ''1'') ''image'' = JStr ''none''" by code_simp
qed (simp add: validate_node_update_def NODE_FIELDS_MUTABLE_def EDITABLE_WHILE_RUNNING_def EDITABLE_WHILE_STOPPED_def
  running_node_def changed_field_def jget_def jfind_def)

end
