(* ===== verification/Node_Command.thy ===== *)
theory Node_Command
  imports Node_Qemu Template_Store "HOL-Library.AList"
begin

text \<open>
  The command line of a virtual machine (\<open>node_runtime_service.py\<close>): the words of the user's options
  as \<open>shlex.split\<close> reads them, their merge with the command the service builds, the bridges the
  interfaces of a node are on, the machine type, and the command itself. Files and binaries the
  service looks up are arguments.
\<close>

section \<open>Words\<close>

datatype shlex_state = Between | Word | Quoted char | Escaped bool
  \<comment> \<open>\<open>Escaped True\<close> is inside double quotes\<close>

definition is_blank :: "char \<Rightarrow> bool" where
  "is_blank c \<longleftrightarrow> c \<in> {CHR '' '', CHR 0x09, CHR 0x0D, CHR 0x0A}"

definition is_quote :: "char \<Rightarrow> bool" where
  "is_quote c \<longleftrightarrow> c \<in> {CHR 0x27, CHR 0x22}"

abbreviation backslash :: char where "backslash \<equiv> CHR 0x5C"

definition finished :: "string \<Rightarrow> bool \<Rightarrow> string list" where
  \<comment> \<open>an empty word counts when it was quoted\<close>
  "finished w q = (if w \<noteq> [] \<or> q then [w] else [])"

fun shlex_run :: "shlex_state \<Rightarrow> string \<Rightarrow> bool \<Rightarrow> string \<Rightarrow> string list option" where
  \<comment> \<open>\<open>shlex\<close> with \<open>posix\<close> and \<open>whitespace_split\<close>, no comments; \<open>None\<close> is the \<open>ValueError\<close>\<close>
  "shlex_run Between w q [] = Some []"
| "shlex_run Between w q (c # cs) =
     (if is_blank c then shlex_run Between [] False cs
      else if c = backslash then shlex_run (Escaped False) [] False cs
      else if is_quote c then shlex_run (Quoted c) [] False cs
      else shlex_run Word [c] False cs)"
| "shlex_run Word w q [] = Some (finished w q)"
| "shlex_run Word w q (c # cs) =
     (if is_blank c then map_option (\<lambda>ws. finished w q @ ws) (shlex_run Between [] False cs)
      else if is_quote c then shlex_run (Quoted c) w q cs
      else if c = backslash then shlex_run (Escaped False) w q cs
      else shlex_run Word (w @ [c]) q cs)"
| "shlex_run (Quoted d) w q [] = None"
| "shlex_run (Quoted d) w q (c # cs) =
     (if c = d then shlex_run Word w True cs
      else if c = backslash \<and> d = CHR 0x22 then shlex_run (Escaped True) w True cs
      else shlex_run (Quoted d) (w @ [c]) True cs)"
| "shlex_run (Escaped b) w q [] = None"
| "shlex_run (Escaped b) w q (c # cs) =
     (let w1 = (if b \<and> c \<noteq> backslash \<and> c \<noteq> CHR 0x22 then w @ [backslash, c] else w @ [c])
      in shlex_run (if b then Quoted (CHR 0x22) else Word) w1 q cs)"

definition shlex_split :: "string \<Rightarrow> py_exc + string list" where
  "shlex_split s = (case shlex_run Between [] False s of None \<Rightarrow> Inl PyValueError | Some ws \<Rightarrow> Inr ws)"

section \<open>Groups of a flag and its values\<close>

definition is_flag :: "string \<Rightarrow> bool" where
  "is_flag w \<longleftrightarrow> starts_with ''-'' w"

fun parse_loop :: "(string \<times> string list) list \<Rightarrow> (string \<times> string list) option \<Rightarrow> string list \<Rightarrow> (string \<times> string list) list" where
  \<comment> \<open>the groups so far and the one of the current flag\<close>
  "parse_loop gs cur [] = gs @ (case cur of None \<Rightarrow> [] | Some g \<Rightarrow> [g])"
| "parse_loop gs cur (x # ws) =
     (if is_flag x then parse_loop (gs @ (case cur of None \<Rightarrow> [] | Some g \<Rightarrow> [g])) (Some (x, [])) ws
      else case cur of
        None \<Rightarrow> parse_loop (gs @ [(x, [])]) None ws
      | Some (f, vs) \<Rightarrow> parse_loop gs (Some (f, vs @ [x])) ws)"

definition parse_qemu_tokens :: "string list \<Rightarrow> (string \<times> string list) list" where
  "parse_qemu_tokens ws = parse_loop [] None ws"

definition flat_groups :: "(string \<times> string list) list \<Rightarrow> string list" where
  "flat_groups gs = concat (map (\<lambda>(f, vs). f # vs) gs)"

definition merge_qemu_args :: "string list \<Rightarrow> string \<Rightarrow> py_exc + string list" where
  "merge_qemu_args base extra =
     (if extra = [] then Inr base
      else bindr (shlex_split extra) (\<lambda>ws.
        let user = parse_qemu_tokens ws;
            flags = filter is_flag (map fst user)
        in Inr (flat_groups (filter (\<lambda>g. fst g \<notin> set flags) (parse_qemu_tokens base) @ user))))"

section \<open>Interfaces and bridges\<close>

definition lab_id_of :: "json \<Rightarrow> rt_error + string" where
  "lab_id_of data =
     bindr (case pget data ''id'' (JStr []) of Inl e \<Rightarrow> Inl (RtHost (Py e)) | Inr v \<Rightarrow> Inr (strip (py_str v))) (\<lambda>lab.
       if lab = [] then Inl (RtNode ''Lab is missing an id'') else Inr lab)"

fun first_end :: "(json \<Rightarrow> py_exc + bool) \<Rightarrow> json list \<Rightarrow> py_exc + json option" where
  \<comment> \<open>\<open>next((e for e in endpoints if ...), None)\<close>\<close>
  "first_end P [] = Inr None"
| "first_end P (e # es) = bindr (P e) (\<lambda>b. if b then Inr (Some e) else first_end P es)"

definition end_on_node :: "int \<Rightarrow> json \<Rightarrow> py_exc + bool" where
  "end_on_node n e =
     (if is_obj e \<and> jhas e ''node_id'' then bindr (py_int (jget0 e ''node_id'')) (\<lambda>m. Inr (m = n)) else Inr False)"

definition link_step :: "int \<Rightarrow> json \<Rightarrow> (int \<times> int) list \<Rightarrow> py_exc + (int \<times> int) list" where
  "link_step n link m =
     bindr (pget link ''from'' JNull) (\<lambda>f. bindr (pget link ''to'' JNull) (\<lambda>t.
       let ends = [jor f (JObj []), jor t (JObj [])] in
       bindr (first_end (end_on_node n) ends) (\<lambda>a.
       bindr (first_end (\<lambda>e. Inr (is_obj e \<and> jhas e ''network_id'')) ends) (\<lambda>b.
         case (a, b) of
           (Some a, Some b) \<Rightarrow>
             bindr (py_int (jget a ''interface_index'' (JInt 0))) (\<lambda>i.
             bindr (py_int (jget0 b ''network_id'')) (\<lambda>w. Inr (if w \<noteq> 0 then AList.update i w m else m)))
         | _ \<Rightarrow> Inr m))))"

definition link_map :: "json \<Rightarrow> int \<Rightarrow> py_exc + (int \<times> int) list" where
  "link_map data n = bindr (piter (jor (jget data ''links'' (JList [])) (JList []))) (\<lambda>ls. forr (link_step n) ls [])"

record bridge_end =
  be_index :: int
  be_network :: int
  be_bridge :: json
  be_driver :: json

definition host_py :: "py_exc + 'a \<Rightarrow> host_error + 'a" where
  "host_py r = (case r of Inl e \<Rightarrow> Inl (Py e) | Inr x \<Rightarrow> Inr x)"

definition bridge_end_of :: "host_cfg \<Rightarrow> string \<Rightarrow> json \<Rightarrow> int \<Rightarrow> int \<Rightarrow> host_error + bridge_end option" where
  \<comment> \<open>\<open>None\<close>: an absent network or an external one; records without a bridge get the derived name\<close>
  "bridge_end_of h lab networks i w =
     bindr (host_py (pget networks (dec_int w) JNull)) (\<lambda>net.
       if \<not> is_obj net \<or> starts_with ''pnet'' (py_str (jget net ''type'' (JStr ''linux_bridge''))) then Inr None
       else (let rt = jor (jget0 net ''runtime'') (JObj []) in
         bindr (host_py (pget rt ''bridge_name'' JNull)) (\<lambda>b.
         bindr (if truthy b then Inr b else bindr (bridge_name h lab w) (\<lambda>s. Inr (JStr s))) (\<lambda>bridge.
           Inr (Some \<lparr>be_index = i, be_network = w, be_bridge = bridge, be_driver = jget0 rt ''driver''\<rparr>)))))"

definition add_end :: "bridge_end option \<Rightarrow> bridge_end list \<Rightarrow> bridge_end list" where
  "add_end e es = (case e of None \<Rightarrow> es | Some b \<Rightarrow> es @ [b])"

definition declared_end :: "host_cfg \<Rightarrow> string \<Rightarrow> json \<Rightarrow> (int \<times> int) list \<Rightarrow> nat \<times> json \<Rightarrow> bridge_end list \<Rightarrow> host_error + bridge_end list" where
  "declared_end h lab networks m p es =
     (case p of (pos, v) \<Rightarrow>
       if \<not> is_obj v then Inr es
       else bindr (host_py (py_int (jget v ''index'' (JInt (int pos))))) (\<lambda>i.
         if i \<in> set (map be_index es) then Inr es
         else bindr (host_py (py_int (jor (jget0 v ''network_id'') (JInt 0)))) (\<lambda>w0.
           let w = (if w0 \<noteq> 0 then w0 else case map_of m i of None \<Rightarrow> 0 | Some x \<Rightarrow> x) in
           if w = 0 then Inr es
           else bindr (bridge_end_of h lab networks i w) (\<lambda>e. Inr (add_end e es)))))"

definition linked_end :: "host_cfg \<Rightarrow> string \<Rightarrow> json \<Rightarrow> int \<Rightarrow> int \<times> int \<Rightarrow> bridge_end list \<Rightarrow> host_error + bridge_end list" where
  \<comment> \<open>an interface that only a link names\<close>
  "linked_end h lab networks ethernet p es =
     (case p of (i, w) \<Rightarrow>
       if i \<in> set (map be_index es) \<or> ethernet \<le> i then Inr es
       else bindr (bridge_end_of h lab networks i w) (\<lambda>e. Inr (add_end e es)))"

definition node_links :: "json \<Rightarrow> json \<Rightarrow> host_error + (int \<times> int) list \<times> json list" where
  "node_links data node =
     bindr (host_py (py_int (jget node ''id'' (JInt 0)))) (\<lambda>n.
     bindr (host_py (link_map data n)) (\<lambda>m.
     bindr (host_py (piter (jor (jget0 node ''interfaces'') (JList [])))) (\<lambda>ifs. Inr (m, ifs))))"

definition rt_of_host :: "host_error + 'a \<Rightarrow> rt_error + 'a" where
  "rt_of_host r = (case r of Inl e \<Rightarrow> Inl (RtHost e) | Inr x \<Rightarrow> Inr x)"

definition docker_attachments :: "host_cfg \<Rightarrow> json \<Rightarrow> json \<Rightarrow> rt_error + bridge_end list" where
  "docker_attachments h data node =
     bindr (lab_id_of data) (\<lambda>lab.
     let networks = jor (jget data ''networks'' (JObj [])) (JObj []) in
     rt_of_host (bindr (node_links data node) (\<lambda>(m, ifs).
       bindr (forr (declared_end h lab networks m) (enumerate 0 ifs) []) (\<lambda>es. Inr (sort_key be_index es)))))"

definition qemu_attachments :: "host_cfg \<Rightarrow> json \<Rightarrow> json \<Rightarrow> rt_error + bridge_end list" where
  "qemu_attachments h data node =
     bindr (lab_id_of data) (\<lambda>lab.
     let networks = jor (jget data ''networks'' (JObj [])) (JObj []) in
     rt_of_host (bindr (node_links data node) (\<lambda>(m, ifs).
       bindr (host_py (py_int (jget node ''ethernet'' (JInt 0)))) (\<lambda>ethernet.
       bindr (forr (declared_end h lab networks m) (enumerate 0 ifs) []) (\<lambda>es.
       bindr (forr (linked_end h lab networks ethernet) m es) (\<lambda>es'. Inr (sort_key be_index es')))))))"

section \<open>Machine and uplinks\<close>

definition machine_caps :: "template_tree \<Rightarrow> json \<Rightarrow> load_error + json" where
  "machine_caps t node =
     (let key = strip (py_str (jor (jget0 node ''template'') (JStr []))) in
      if key = [] then Inr (JObj [])
      else case get_template t ''qemu'' key of
        Inl (LoadTemplate e) \<Rightarrow> Inr (JObj [])
      | Inl e \<Rightarrow> Inl e
      | Inr d \<Rightarrow> Inr (caps_json (td_caps d)))"

definition resolve_qemu_machine :: "template_tree \<Rightarrow> json \<Rightarrow> load_error + string \<times> int \<times> bool" where
  \<comment> \<open>machine type, number of cards and whether cards may be added later\<close>
  "resolve_qemu_machine t node =
     bindr (machine_caps t node) (\<lambda>caps.
       let pick = (\<lambda>v dflt. if v \<in> {JStr ''pc'', JStr ''q35''} then py_str v else dflt);
           machine = pick (jget0 node ''machine_override'') (pick (jget0 caps ''machine'') ''pc'');
           cards = (case py_int (jget caps ''max_nics'' (JInt 8)) of Inl e \<Rightarrow> 8 | Inr v \<Rightarrow> if v < 1 then 8 else v)
       in Inr (machine, cards, truthy (jget caps ''hotplug'' (JBool False)) \<and> machine = ''q35''))"

fun interface_uplink :: "json list \<Rightarrow> int \<Rightarrow> py_exc + bool" where
  "interface_uplink [] i = Inr False"
| "interface_uplink (v # vs) i =
     (if \<not> is_obj v then interface_uplink vs i
      else bindr (py_int (jget v ''index'' (JInt (-1)))) (\<lambda>j.
        if j = i then Inr (let e = jor (jget0 v ''extras'') (JObj []) in is_obj e \<and> truthy (jget0 e ''uplink''))
        else interface_uplink vs i))"

section \<open>The command\<close>

definition rt_of_load :: "load_error + 'a \<Rightarrow> rt_error + 'a" where
  \<comment> \<open>a template file that is no YAML or cannot be read stops the start as well\<close>
  "rt_of_load r =
     (case r of
        Inl (LoadPy e) \<Rightarrow> Inl (RtHost (Py e))
      | Inl LoadOs \<Rightarrow> Inl (RtHost OSError)
      | Inl e \<Rightarrow> Inl (RtHost (Py PyValueError))
      | Inr x \<Rightarrow> Inr x)"

definition py_rt :: "py_exc + 'a \<Rightarrow> rt_error + 'a" where
  "py_rt r = rt_of_host (host_py r)"

definition nic_args :: "string \<Rightarrow> int \<Rightarrow> string \<Rightarrow> json list \<Rightarrow> string \<Rightarrow> json \<Rightarrow> (int \<times> string) list \<Rightarrow> int \<Rightarrow> rt_error + string list" where
  \<comment> \<open>the backend and the card of one interface\<close>
  "nic_args machine cards model ifs lab first taps i =
     bindr (py_rt (mac_for_index first i)) (\<lambda>mac.
       let net = ''net'' @ dec_int i;
           dev = model @ '',netdev='' @ net @ '',mac='' @ mac
                 @ (if machine = ''q35'' \<and> i < cards then '',bus=rp'' @ dec_int i else [])
       in bindr (py_rt (interface_uplink ifs i)) (\<lambda>up.
            if up then Inr [''-netdev'', ''user,id='' @ net, ''-device'', dev]
            else case map_of taps i of
              None \<Rightarrow> Inl (RtNode ''QEMU command build: no TAP provisioned'')
            | Some tap \<Rightarrow> Inr [''-netdev'', ''tap,id='' @ net @ '',ifname='' @ tap @ '',script=no,downscript=no'', ''-device'', dev]))"

definition root_ports :: "string \<Rightarrow> int \<Rightarrow> string list" where
  "root_ports machine cards =
     (if machine = ''q35''
      then concat (map (\<lambda>i. [''-device'', ''pcie-root-port,id=rp'' @ dec_int i @ '',chassis='' @ dec_int (i + 1) @ '',slot='' @ dec_int (i + 1)])
             (map int [0 ..< nat cards]))
      else [])"

definition build_qemu_base_cmd ::
    "template_tree \<Rightarrow> bool \<Rightarrow> (json \<Rightarrow> rt_error + string option) \<Rightarrow> json \<Rightarrow> json \<Rightarrow> string \<Rightarrow> string \<Rightarrow> int \<Rightarrow> string \<Rightarrow> string
       \<Rightarrow> (int \<times> string) list \<Rightarrow> rt_error + string list" where
  "build_qemu_base_cmd t kvm iso_of node extras lab binary port overlay qmp taps =
     bindr (bindr (py_rt (if jhas node ''id'' then Inr (jget0 node ''id'') else Inl PyKeyError)) (\<lambda>v. py_rt (py_int v))) (\<lambda>n.
     bindr (rt_of_load (resolve_qemu_machine t node)) (\<lambda>(machine, cards, hot).
     let accel = (if kvm then ''kvm'' else ''tcg'');
         console = jget node ''console'' (JStr ''telnet'');
         model = (let m = extra_str extras ''qemu_nic'' [] in if m = [] then ''e1000'' else m);
         first = jor (jget0 node ''firstmac'') (jget0 extras ''firstmac'') in
     bindr (py_rt (py_int (jget node ''ethernet'' (JInt 0)))) (\<lambda>ethernet.
     let ifs = jor (jget0 node ''interfaces'') (JList []) in
     bindr (iso_of node) (\<lambda>iso.
     let text = (\<lambda>k dflt. py_str (jget node k dflt));
         order = extra_str extras ''boot_order'' [];
         head =
           [binary, ''-display'', ''none'', ''-machine'', ''type='' @ machine @ '',accel='' @ accel,
            ''-smp'', text ''cpu'' (JInt 1), ''-m'', text ''ram'' (JInt 1024), ''-name'', text ''name'' (JStr (''node-'' @ dec_int n)),
            ''-uuid'', py_str (jor (jor (jget0 node ''uuid'') (jget0 extras ''uuid'')) (JStr (lab @ ''-'' @ dec_int n))),
            ''-drive'', ''file='' @ overlay @ '',if=virtio,cache=writeback,format=qcow2'']
           @ (if kvm then [''-cpu'', ''host,vmx=off,svm=off''] else [''-cpu'', ''max''])
           @ (if py_eq console (JStr ''vnc'') then [''-vnc'', '':'' @ dec_int (port - 5900)]
              else [''-serial'', ''telnet::'' @ dec_int port @ '',server,nowait''])
           @ [''-qmp'', ''unix:'' @ qmp @ '',server,nowait'']
           @ root_ports machine cards in
     bindr (if ethernet \<le> 0 then Inr [] else py_rt (piter ifs)) (\<lambda>entries.
     bindr (mapr (nic_args machine cards model entries lab first taps) (map int [0 ..< nat ethernet])) (\<lambda>nics.
       Inr (head @ concat nics
            @ (case iso of None \<Rightarrow> [] | Some p \<Rightarrow> [''-cdrom'', p])
            @ (if order \<noteq> [] \<or> iso \<noteq> None then [''-boot'', ''order='' @ (if order \<noteq> [] then order else ''cd'')] else []))))))))"

section \<open>Preview\<close>

definition user_flags :: "string \<Rightarrow> string list" where
  "user_flags extra = (if extra = [] then [] else case shlex_split extra of Inl e \<Rightarrow> [] | Inr ws \<Rightarrow> filter is_flag ws)"

fun marked :: "string list \<Rightarrow> string option \<Rightarrow> string list \<Rightarrow> (string \<times> bool) list" where
  \<comment> \<open>each word with whether it comes from the user\<close>
  "marked flags cur [] = []"
| "marked flags cur (x # ws) =
     (let cur' = (if is_flag x then Some x else cur)
      in (x, case cur' of None \<Rightarrow> False | Some f \<Rightarrow> f \<in> set flags) # marked flags cur' ws)"

definition preview_taps :: "host_cfg \<Rightarrow> string \<Rightarrow> int \<Rightarrow> json list \<Rightarrow> int \<Rightarrow> rt_error + (int \<times> string) list" where
  "preview_taps h lab n ifs ethernet =
     bindr (mapr (\<lambda>i. bindr (py_rt (interface_uplink ifs i)) (\<lambda>up.
              if up then Inr [] else bindr (rt_of_host (tap_name h lab n i)) (\<lambda>s. Inr [(i, s)])))
            (map int [0 ..< nat ethernet])) (\<lambda>xs. Inr (concat xs))"

definition preview_stopped ::
    "template_tree \<Rightarrow> host_cfg \<Rightarrow> bool \<Rightarrow> (json \<Rightarrow> rt_error + string option) \<Rightarrow> (string \<Rightarrow> string option) \<Rightarrow> string \<Rightarrow> json \<Rightarrow> json \<Rightarrow> int
       \<Rightarrow> rt_error + (string \<times> bool) list" where
  "preview_stopped t h kvm iso_of binary_of lab data node n =
     (let extras = node_extras node;
          arch = (let a = extra_str extras ''architecture'' [] in if a = [] then ''x86_64'' else a);
          binary = (case binary_of arch of Some b \<Rightarrow> b | None \<Rightarrow> ''qemu-system-'' @ arch);
          options = extra_str extras ''qemu_options'' [] in
      bindr (py_rt (py_int (jget node ''ethernet'' (JInt 0)))) (\<lambda>ethernet.
      bindr (qemu_attachments h data node) (\<lambda>ends.
      bindr (if ethernet \<le> 0 then Inr [] else py_rt (piter (jor (jget0 node ''interfaces'') (JList [])))) (\<lambda>ifs.
      bindr (preview_taps h lab n ifs ethernet) (\<lambda>taps.
      bindr (build_qemu_base_cmd t kvm iso_of node extras lab binary 5900 ''<work-dir>/overlay.qcow2'' ''<work-dir>/qmp.sock'' taps) (\<lambda>cmd.
      case merge_qemu_args cmd options of
        Inl e \<Rightarrow> Inl (RtNode ''Invalid qemu_options'')
      | Inr merged \<Rightarrow> Inr (marked (user_flags options) None merged)))))))"

end
