(* ===== verification/Node_Boot.thy ===== *)
theory Node_Boot
  imports Node_Command Node_Slots
begin

text \<open>
  The start of a virtual machine (\<open>start_node\<close> and \<open>_start_qemu_node\<close> of \<open>node_runtime_service.py\<close>): the
  TAPs of all interfaces are made and put on their bridges, the command is built and run, cards without
  a network get their carrier taken off, and the record of the machine is registered. The process
  itself, its files and ports are parameters (\<open>boot_env\<close>). Killing a process that could not be registered
  is no call of the model.
\<close>

section \<open>Environment\<close>

datatype spawned = SpawnFails rt_error | ExitsAtOnce string | Vanishes rt_error | Runs int json
  \<comment> \<open>the exception of \<open>Popen\<close>, the tail of the logs, the exception of \<open>psutil.Process\<close>, pid and creation time\<close>

record boot_env =
  bo_templates :: template_tree
  bo_kvm :: bool
  bo_iso :: "json \<Rightarrow> rt_error + string option"
  bo_binary :: "string \<Rightarrow> string option"
  bo_overlay :: "json \<Rightarrow> rt_error + string"
  bo_work_dir :: string
  bo_port :: "json \<Rightarrow> rt_error + int"
  bo_spawn :: "call list \<Rightarrow> string list \<Rightarrow> spawned"
  bo_register :: "int \<Rightarrow> string option"
    \<comment> \<open>the error of the registry of process ids\<close>
  bo_now :: json

definition rt_sum :: "rt_error + 'a \<Rightarrow> ('r, 'a) rt" where
  "rt_sum r = (case r of Inl e \<Rightarrow> rt_raise e | Inr x \<Rightarrow> rt_ret x)"

section \<open>TAPs\<close>

definition bridge_name_of :: "bridge_end \<Rightarrow> host_error + string" where
  \<comment> \<open>an argument of a program must be a string\<close>
  "bridge_name_of e = (case be_bridge e of JStr s \<Rightarrow> Inr s | _ \<Rightarrow> Inl (Py PyTypeError))"

definition driver_of :: "bridge_end \<Rightarrow> string option" where
  "driver_of e = (case be_driver e of JStr s \<Rightarrow> Some s | _ \<Rightarrow> None)"

definition check_bridge :: "host_env \<Rightarrow> bridge_end \<Rightarrow> ('r, unit) rt" where
  "check_bridge h e =
     rt_bind (rt_lift (bridge_name_of e)) (\<lambda>b. rt_bind (rt_host (bridge_exists h b)) (\<lambda>there.
       if there then rt_ret () else rt_raise (RtNode (''Bridge '' @ b @ '' is not present on the host''))))"

definition sweep_taps :: "host_env \<Rightarrow> string list \<Rightarrow> ('r, unit) rt" where
  "sweep_taps h made = rt_each (\<lambda>tap. rt_host (try_link_del h tap)) made"

definition end_at :: "bridge_end list \<Rightarrow> int \<Rightarrow> bridge_end option" where
  \<comment> \<open>\<open>attachment_by_index\<close>: of two attachments of an interface the last\<close>
  "end_at ends i = List.find (\<lambda>e. be_index e = i) (rev ends)"

definition boot_wire :: "host_env \<Rightarrow> bridge_end list \<Rightarrow> int \<Rightarrow> string \<Rightarrow> ('r, unit) rt" where
  "boot_wire h ends i tap =
     (case end_at ends i of
        Some e \<Rightarrow>
          rt_bind (rt_lift (bridge_name_of e)) (\<lambda>b.
          rt_bind (rt_host (link_master_any h tap b (driver_of e))) (\<lambda>_. rt_host (link_up h tap)))
      | None \<Rightarrow> rt_ignore is_host_net_error (rt_host (link_set_nomaster h tap)))"

definition boot_tap :: "host_env \<Rightarrow> string \<Rightarrow> int \<Rightarrow> json list \<Rightarrow> int \<Rightarrow> string list \<Rightarrow> ('r, (string \<times> string list) option) rt" where
  \<comment> \<open>the TAP of an interface and the TAPs made so far; \<open>None\<close> for an uplink\<close>
  "boot_tap h lab n ifs i made =
     rt_bind (rt_sum (py_rt (interface_uplink ifs i))) (\<lambda>up.
       if up then rt_ret None
       else rt_bind (rt_lift (tap_name (cfg h) lab n i)) (\<lambda>tap.
            rt_bind (rt_host (tap_exists h tap)) (\<lambda>there.
              if there then rt_ret (Some (tap, made))
              else rt_bind (rt_host (tap_add h tap)) (\<lambda>_. rt_ret (Some (tap, made @ [tap]))))))"

fun boot_taps ::
    "host_env \<Rightarrow> string \<Rightarrow> int \<Rightarrow> json list \<Rightarrow> bridge_end list \<Rightarrow> int list \<Rightarrow> (int \<times> string) list \<Rightarrow> string list
       \<Rightarrow> ('r, (int \<times> string) list \<times> string list) rt" where
  \<comment> \<open>whatever fails, the TAPs made so far are deleted\<close>
  "boot_taps h lab n ifs ends [] taps made = rt_ret (taps, made)"
| "boot_taps h lab n ifs ends (i # is) taps made =
     rt_bind (undoing (boot_tap h lab n ifs i made) (sweep_taps h made)) (\<lambda>r.
       case r of
         None \<Rightarrow> boot_taps h lab n ifs ends is taps made
       | Some (tap, made1) \<Rightarrow>
           rt_bind (undoing (boot_wire h ends i tap) (sweep_taps h made1)) (\<lambda>_.
             boot_taps h lab n ifs ends is (taps @ [(i, tap)]) made1))"

section \<open>The process\<close>

definition carrier_off :: "node_env \<Rightarrow> string \<Rightarrow> int \<Rightarrow> unit node" where
  \<comment> \<open>two attempts, then left to the reconciliation\<close>
  "carrier_off ev path i =
     (let m = qmp_command ev path ''set_link'' (set_link_args i False) in
      rt_try (rt_bind m (\<lambda>_. rt_ret ())) (\<lambda>_. quietly m))"

definition unconnected :: "json list \<Rightarrow> bridge_end list \<Rightarrow> int \<Rightarrow> int list" where
  "unconnected ifs ends ethernet =
     filter (\<lambda>i. i \<notin> set (map be_index ends) \<and> interface_uplink ifs i = Inr False) (map int [0 ..< nat ethernet])"

definition boot_record ::
    "boot_env \<Rightarrow> string \<Rightarrow> int \<Rightarrow> json \<Rightarrow> json \<Rightarrow> int \<Rightarrow> int \<Rightarrow> json \<Rightarrow> string \<Rightarrow> string option \<Rightarrow> string list
      \<Rightarrow> string \<times> int \<times> bool \<Rightarrow> int \<Rightarrow> (int \<times> string) list \<Rightarrow> bridge_end list \<Rightarrow> json" where
  "boot_record bo lab n node console port pid created overlay cdrom cmd machine ethernet taps ends =
     JObj [(''lab_id'', JStr lab), (''node_id'', JInt n), (''kind'', JStr ''qemu''), (''name'', jget0 node ''name''),
       (''console'', console), (''console_port'', JInt port), (''pid'', JInt pid), (''pid_create_time'', created),
       (''overlay_path'', JStr overlay), (''cdrom_path'', case cdrom of None \<Rightarrow> JNull | Some p \<Rightarrow> JStr p),
       (''work_dir'', JStr (bo_work_dir bo)), (''stdout_log'', JStr (bo_work_dir bo @ ''/stdout.log'')),
       (''stderr_log'', JStr (bo_work_dir bo @ ''/stderr.log'')), (''qmp_socket'', JStr (bo_work_dir bo @ ''/qmp.sock'')),
       (''command'', JList (map JStr cmd)), (''machine'', JStr (fst machine)), (''max_nics'', JInt (fst (snd machine))),
       (''boot_ethernet'', JInt ethernet), (''hotplug_capable'', JBool (snd (snd machine))), (''allocated_slots'', JList []),
       (''tap_names'', JList (map (JStr \<circ> snd) taps)),
       (''interface_attachments'', JList (map (\<lambda>e. JObj [(''interface_index'', JInt (be_index e)), (''network_id'', JInt (be_network e)),
          (''bridge_name'', be_bridge e), (''tap_name'', case map_of taps (be_index e) of None \<Rightarrow> JNull | Some s \<Rightarrow> JStr s)]) ends)),
       (''started_at'', bo_now bo)]"

definition run_command ::
    "node_env \<Rightarrow> boot_env \<Rightarrow> string list \<Rightarrow> int list \<Rightarrow> string list \<Rightarrow> (int \<times> json) node" where
  \<comment> \<open>from \<open>Popen\<close> to the registration of the process\<close>
  "run_command ev bo cmd off made =
     (let h = nv_host ev; failed = (\<lambda>e. rt_bind (sweep_taps h made) (\<lambda>_. rt_raise e)) in
      rt_bind (\<lambda>s. (Inr (bo_spawn bo (snd s) cmd), s)) (\<lambda>p.
        case p of
          SpawnFails e \<Rightarrow> failed e
        | ExitsAtOnce text \<Rightarrow> failed (RtNode (if text = [] then ''QEMU exited immediately after start'' else text))
        | Vanishes e \<Rightarrow> rt_raise e
        | Runs pid created \<Rightarrow>
            rt_bind (rt_each (carrier_off ev (bo_work_dir bo @ ''/qmp.sock'')) off) (\<lambda>_.
              case bo_register bo pid of
                Some e \<Rightarrow> failed (RtNode (''Failed to register QEMU PID in runtime registry: '' @ e))
              | None \<Rightarrow> rt_ret (pid, created))))"

definition start_qemu_node_locked :: "node_env \<Rightarrow> boot_env \<Rightarrow> json \<Rightarrow> json \<Rightarrow> string \<Rightarrow> int \<Rightarrow> json node" where
  "start_qemu_node_locked ev bo data node lab n =
     (let h = nv_host ev; extras = node_extras node;
          arch = (let a = extra_str extras ''architecture'' [] in if a = [] then ''x86_64'' else a);
          console = jget node ''console'' (JStr ''telnet'') in
      case bo_binary bo arch of
        None \<Rightarrow> rt_raise (RtNode ''QEMU binary not found'')
      | Some binary \<Rightarrow>
          rt_bind (rt_sum (rt_of_load (resolve_qemu_machine (bo_templates bo) node))) (\<lambda>machine.
          rt_bind (rt_sum (qemu_attachments (cfg h) data node)) (\<lambda>ends.
          rt_bind (rt_each (check_bridge h) ends) (\<lambda>_.
          rt_bind (rt_sum (bo_overlay bo node)) (\<lambda>overlay.
          rt_bind (rt_sum (bo_iso bo node)) (\<lambda>cdrom.
          rt_bind (if py_eq console (JStr ''rdp'') then rt_raise (RtNode ''QEMU RDP consoles are not supported'') else rt_ret ()) (\<lambda>_.
          rt_bind (rt_sum (bo_port bo console)) (\<lambda>port.
          rt_bind (rt_py (py_int (jget node ''ethernet'' (JInt 0)))) (\<lambda>ethernet.
          rt_bind (if ethernet \<le> 0 then rt_ret [] else rt_py (piter (jor (jget0 node ''interfaces'') (JList [])))) (\<lambda>ifs.
          rt_bind (boot_taps h lab n ifs ends (map int [0 ..< nat ethernet]) [] []) (\<lambda>(taps, made).
          rt_bind (rt_sum (build_qemu_base_cmd (bo_templates bo) (bo_kvm bo) (bo_iso bo) node extras lab binary port overlay
                             (bo_work_dir bo @ ''/qmp.sock'') taps)) (\<lambda>base.
          case merge_qemu_args base (extra_str extras ''qemu_options'' []) of
            Inl e \<Rightarrow> rt_bind (sweep_taps h made) (\<lambda>_. rt_raise (RtNode ''Invalid qemu_options''))
          | Inr cmd \<Rightarrow>
              rt_bind (run_command ev bo cmd (unconnected ifs ends ethernet) made) (\<lambda>(pid, created).
                rt_ret (boot_record bo lab n node console port pid created overlay cdrom cmd machine ethernet taps ends))))))))))))))"

definition start_qemu_node :: "node_env \<Rightarrow> boot_env \<Rightarrow> json \<Rightarrow> json \<Rightarrow> json node" where
  "start_qemu_node ev bo data node =
     rt_bind (rt_sum (lab_id_of data)) (\<lambda>lab.
     rt_bind (rt_py (bindr (if jhas node ''id'' then Inr (jget0 node ''id'') else Inl PyKeyError) py_int)) (\<lambda>n.
       with_node_mutex ev lab n (start_qemu_node_locked ev bo data node lab n)))"

definition node_data :: "json \<Rightarrow> int \<Rightarrow> rt_error + json" where
  "node_data data n =
     bindr (py_rt (pget (jget data ''nodes'' (JObj [])) (dec_int n) JNull)) (\<lambda>node.
       if truthy node then Inr node else Inl (RtNode (''Node does not exist: '' @ dec_int n)))"

definition register_runtime :: "node_env \<Rightarrow> string \<Rightarrow> int \<Rightarrow> json \<Rightarrow> json node" where
  "register_runtime ev lab n runtime =
     rt_bind (rt_modify (\<lambda>st. st\<lparr>ns_registry := obj_set (runtime_key lab n) runtime (ns_registry st)\<rparr>)) (\<lambda>_.
     rt_bind (persist_runtime ev runtime) (\<lambda>_. rt_ret runtime))"

definition start_node ::
    "node_env \<Rightarrow> boot_env \<Rightarrow> (json \<Rightarrow> json \<Rightarrow> json option node) \<Rightarrow> (json \<Rightarrow> json \<Rightarrow> json node) \<Rightarrow> json \<Rightarrow> int \<Rightarrow> json node" where
  \<comment> \<open>\<open>adopt\<close> finds the container of a docker node that still runs, \<open>other\<close> starts the other kinds\<close>
  "start_node ev bo adopt other data n =
     rt_bind (rt_sum (lab_id_of data)) (\<lambda>lab.
     rt_bind (rt_sum (node_data data n)) (\<lambda>node.
     rt_bind (rt_py (pget node ''type'' JNull)) (\<lambda>ty.
     rt_bind (runtime_record ev lab n False) (\<lambda>found.
     rt_bind (if found = None \<and> py_eq ty (JStr ''docker'') then adopt data node else rt_ret found) (\<lambda>known.
       case known of
         Some runtime \<Rightarrow> rt_ret runtime
       | None \<Rightarrow>
           rt_bind (if py_eq ty (JStr ''qemu'') then start_qemu_node ev bo data node
                    else if list_ex (\<lambda>k. py_eq ty (JStr k)) [''docker'', ''iol'', ''iou'', ''dynamips''] then other data node
                    else rt_raise (RtNode ''Unsupported node type'')) (\<lambda>runtime. register_runtime ev lab n runtime))))))"

end
