(* ===== verification/Node_Life.thy ===== *)
theory Node_Life
  imports Node_Boot_Results Node_Create
begin

text \<open>
  Virtual machines from their start on: the record of a started machine has the type and the card
  invariant that the requests on running nodes need, so that both hold in every state that starts and
  requests reach together.
\<close>

section \<open>The record of a started machine\<close>

definition returns :: "('a \<Rightarrow> bool) \<Rightarrow> ('r, 'a) rt \<Rightarrow> bool" where
  "returns P m \<longleftrightarrow> (\<forall>s x s'. m s = (Inr x, s') \<longrightarrow> P x)"

lemma returnsD: "returns P m \<Longrightarrow> m s = (Inr x, s') \<Longrightarrow> P x"
  unfolding returns_def by blast

lemma returns_ret: "P x \<Longrightarrow> returns P (rt_ret x)" and returns_raise: "returns P (rt_raise e)"
  by (simp_all add: returns_def rt_ret_def rt_raise_def)

lemma returns_bind:
  assumes "\<And>x s s'. m s = (Inr x, s') \<Longrightarrow> returns P (k x)"
  shows "returns P (rt_bind m k)"
  unfolding returns_def
proof (intro allI impI)
  fix s x s'
  assume "rt_bind m k s = (Inr x, s')"
  then show "P x" by (cases rule: rt_bind_cases) (blast intro: returnsD assms)+
qed

lemma returns_mutex: "returns P m \<Longrightarrow> returns P (with_node_mutex ev lab n m)"
  unfolding returns_def [of _ "with_node_mutex ev lab n m"] with_node_mutex_def
  by (auto simp: rt_raise_def split: option.splits prod.splits intro: returnsD)

lemma card_slots_none: "list_all (\<lambda>e. jget0 e ''slot'' = JNull) es \<Longrightarrow> card_slots es = []"
  by (induction es) (auto simp: card_slots_def Node_Runtime.int_field_def)

lemma boot_record_ok:
  assumes "distinct (map be_index ends)"
    and r_def: "r = boot_record bo lab n node console port pid created overlay cdrom cmd machine ethernet taps ends"
  shows "record_ok lab n r \<and> cards_apart r \<and> map index_of (attachments r) = map be_index ends"
proof -
  let ?e = "\<lambda>e. JObj [(''interface_index'', JInt (be_index e)), (''network_id'', JInt (be_network e)),
          (''bridge_name'', be_bridge e), (''tap_name'', case map_of taps (be_index e) of None \<Rightarrow> JNull | Some s \<Rightarrow> JStr s)]"
  have fields: "jfind r ''lab_id'' = Some (JStr lab)" "jfind r ''node_id'' = Some (JInt n)" "is_obj r"
    "list_field ''interface_attachments'' r = Some (map ?e ends)" "list_field ''veth_host_ends'' r = Some []"
    "list_field ''tap_names'' r = Some (map (JStr \<circ> snd) taps)" "list_field ''allocated_slots'' r = Some (map JInt [])"
    "jfind r ''interface_runtime'' = None"
    by (simp_all add: r_def boot_record_def list_field_def jfind_def)
  have es: "attachments r = map ?e ends" using fields(4) by (simp add: attachments_def)
  have idx: "map index_of (map ?e ends) = map be_index ends" by (simp add: index_of_def jget_def jfind_def Node_Runtime.int_field_def)
  have "gens_ok r" using fields(3,8) by (simp add: gens_ok_def)
  moreover have "entry_ok (?e e)" for e by (simp add: entry_ok_def Node_Runtime.int_field_def jfind_def jget_def)
  ultimately have "record_ok lab n r"
    using assms(1) idx fields by (auto simp: record_ok_def simp del: map_map)
  moreover have "cards_apart r"
    unfolding cards_apart_def es using card_slots_none [of "map ?e ends"] by (simp add: list_all_iff jget_def jfind_def)
  ultimately show ?thesis using es idx by simp
qed

lemma started_record:
  "returns (\<lambda>r. record_ok lab n r \<and> cards_apart r \<and> (\<exists>ends. qemu_attachments (cfg (nv_host ev)) data node = Inr ends
      \<and> map index_of (attachments r) = map be_index ends)) (start_qemu_node_locked ev bo data node lab n)"
proof -
  have "distinct (map be_index ends)" if "qemu_attachments (cfg (nv_host ev)) data node = Inr ends" for ends
    using attachments_strictly_sorted [OF that] strict_sorted_iff by blast
  note ok = boot_record_ok [OF this refl]
  show ?thesis
    unfolding start_qemu_node_locked_def Let_def
    by (auto intro!: returns_bind returns_raise returns_ret ok simp: rt_sum_done split: option.split sum.split)
qed

section \<open>Starts and requests\<close>

inductive life_step :: "node_world \<Rightarrow> node_world \<Rightarrow> bool" where
  \<comment> \<open>a request on a running node, or the start of a virtual machine that the document lists under its number\<close>
  life_request: "node_step s s' \<Longrightarrow> life_step s s'"
| life_start: "0 \<le> n \<Longrightarrow> node_data data n = Inr node \<Longrightarrow> jfind node ''id'' = Some (JInt n) \<Longrightarrow> jfind node ''type'' = Some (JStr ''qemu'')
     \<Longrightarrow> start_node ev bo adopt other data n s = (v, s') \<Longrightarrow> life_step s s'"

definition blind :: "(node_state \<Rightarrow> bool) \<Rightarrow> bool" where
  \<comment> \<open>a property of the records and files only\<close>
  "blind Q \<longleftrightarrow> (\<forall>st q l. Q (st\<lparr>ns_qmp := q\<rparr>) = Q st \<and> Q (st\<lparr>ns_node_locks := l\<rparr>) = Q st)"

lemma blind_mutex:
  assumes "blind Q" and "rt_inv Q m"
  shows "rt_inv Q (with_node_mutex ev lab n m)"
  unfolding rt_inv_def
proof (intro allI impI)
  fix st tr
  assume Q: "Q st"
  show "Q (fst (snd (with_node_mutex ev lab n m (st, tr))))"
  proof (cases "node_lock (nv_thread ev) (lab, n) (ns_node_locks st)")
    case (Some l)
    obtain v st1 tr1 where m: "m (st\<lparr>ns_node_locks := l\<rparr>, tr) = (v, st1, tr1)" by (cases "m (st\<lparr>ns_node_locks := l\<rparr>, tr)") auto
    then have "Q st1" using rt_invD [OF assms(2) m] Q assms(1) by (simp add: blind_def)
    then show ?thesis using assms(1) by (simp add: with_node_mutex_def Some m blind_def)
  qed (simp add: with_node_mutex_def rt_raise_def Q)
qed

lemma blind_qmp: "blind Q \<Longrightarrow> rt_inv Q (qmp_command ev path cmd args)"
proof -
  assume "blind Q"
  then have "rt_inv Q (qmp_client ev path cmd args)" by (simp add: rt_inv_def qmp_client_def Let_def blind_def)
  then show ?thesis unfolding qmp_command_def by (auto intro!: rt_rules split: sum.splits qmp_error.splits)
qed

lemma boot_keeps [rt_rules]:
  \<comment> \<open>the host steps change no record\<close>
  "rt_keeps g (rt_sum x)" "rt_keeps g (check_bridge h e)" "rt_keeps g (sweep_taps h made)"
  "rt_keeps g (boot_wire h ends i tap)" "rt_keeps g (boot_tap h lab n ifs i made)" "rt_keeps g (boot_taps h lab n ifs ends is taps made)"
proof -
  show s: "rt_keeps g (rt_sum y)" for y :: "rt_error + 'z" by (auto simp: rt_sum_def intro!: rt_rules split: sum.split)
  show "rt_keeps g (check_bridge h e)" unfolding check_bridge_def by (intro rt_rules)
  show w: "rt_keeps g (sweep_taps h made)" for made unfolding sweep_taps_def by (intro rt_rules)
  show b: "rt_keeps g (boot_wire h ends i tap)" for i tap
    unfolding boot_wire_def rt_ignore_def by (auto intro!: rt_rules split: option.split)
  have "rt_keeps g (rt_sum y)" for y :: "rt_error + bool" by (auto simp: rt_sum_def intro!: rt_rules split: sum.split)
  then show t: "rt_keeps g (boot_tap h lab n ifs i made)" for i made
    unfolding boot_tap_def by (intro rt_rules) auto
  show "rt_keeps g (boot_taps h lab n ifs ends is taps made)"
    by (induction "is" arbitrary: taps made)
      (auto simp: undoing_def intro!: rt_rules t w b split: option.split)
qed

lemma rt_inv_same [rt_rules]: "rt_inv Q (\<lambda>s. (Inr (f s), s))" and balanced_same [rt_rules]: "balanced (\<lambda>s. (Inr (f s), s))"
  by (simp_all add: rt_inv_def balanced_def)

lemma rt_inv_each: "(\<And>x. rt_inv Q (f x)) \<Longrightarrow> rt_inv Q (rt_each f xs)" and balanced_each: "(\<And>x. balanced (f x)) \<Longrightarrow> balanced (rt_each f xs)"
  by (induction xs) (auto intro!: rt_rules)

lemma boot_inv [rt_rules]:
  "rt_inv Q (rt_sum x)" "rt_inv Q (check_bridge h e)" "rt_inv Q (sweep_taps h made)" "rt_inv Q (boot_taps h lab n ifs ends is taps made)"
  "balanced (rt_sum x)" "balanced (check_bridge h e)" "balanced (sweep_taps h made)" "balanced (boot_taps h lab n ifs ends is taps made)"
  by (auto intro!: rt_inv_keeps balanced_keeps boot_keeps)

lemma run_command_inv:
  "(\<And>path i. rt_inv Q (carrier_off ev path i)) \<Longrightarrow> rt_inv Q (run_command ev bo cmd off made)"
  "balanced (run_command ev bo cmd off made)"
proof -
  have "balanced (carrier_off ev path i)" for path i unfolding carrier_off_def Let_def by (intro rt_rules)
  then show "balanced (run_command ev bo cmd off made)"
    unfolding run_command_def Let_def by (auto intro!: rt_rules balanced_each split: spawned.split option.split)
qed (auto simp: run_command_def Let_def intro!: rt_rules rt_inv_each split: spawned.split option.split)

lemma start_inv:
  assumes "blind Q"
  shows "rt_inv Q (start_qemu_node ev bo data node)"
proof -
  have "rt_inv Q (carrier_off ev path i)" for path i
    unfolding carrier_off_def Let_def by (intro rt_rules blind_qmp [OF assms])
  then have "rt_inv Q (run_command ev bo cmd off made)" for cmd off made by (rule run_command_inv)
  then show ?thesis
    unfolding start_qemu_node_def start_qemu_node_locked_def Let_def
    by (auto intro!: rt_rules rt_inv_each blind_mutex [OF assms] split: option.split sum.split prod.split)
qed

lemma start_balanced: "balanced (start_qemu_node ev bo data node)"
  unfolding start_qemu_node_def start_qemu_node_locked_def Let_def
  by (auto intro!: rt_rules balanced_each run_command_inv(2) split: option.split sum.split prod.split)

lemma rt_inv_returns:
  assumes "rt_inv Q m" and "returns P m" and "\<And>x. P x \<Longrightarrow> rt_inv Q (k x)"
  shows "rt_inv Q (rt_bind m k)"
  unfolding rt_inv_def
proof (intro allI impI)
  fix st tr
  assume Q: "Q st"
  obtain v st' tr' where run: "rt_bind m k (st, tr) = (v, st', tr')" by (metis prod.collapse)
  then have "Q st'"
  proof (cases rule: rt_bind_cases)
    case (failed e)
    then show ?thesis using rt_invD [OF assms(1)] Q by blast
  next
    case (went_on x s1)
    obtain st1 tr1 where s1: "s1 = (st1, tr1)" by (cases s1)
    have "Q st1" using rt_invD [OF assms(1) went_on(1) [unfolded s1] Q] .
    then show ?thesis using rt_invD [OF assms(3) [OF returnsD [OF assms(2) went_on(1)]]] went_on(2) s1 by blast
  qed
  then show "Q (fst (snd (rt_bind m k (st, tr))))" by (simp add: run)
qed

definition fresh_record :: "string \<Rightarrow> int \<Rightarrow> json \<Rightarrow> bool" where
  "fresh_record lab n r \<longleftrightarrow> record_ok lab n r \<and> cards_apart r"

definition machine_ok :: "string \<Rightarrow> int \<Rightarrow> node_state \<Rightarrow> bool" where
  "machine_ok lab n st \<longleftrightarrow> node_ok lab n st \<and> slots_ok lab n st"

lemma machine_ok_view: "machine_ok lab n st \<Longrightarrow> other_view lab n st' = other_view lab n st \<Longrightarrow> machine_ok lab n st'"
  by (simp add: machine_ok_def node_ok_def slots_ok_def other_view_def del: dec_int_nonneg)

lemma register_machine:
  assumes "fresh_record lab n r"
  shows "rt_inv (machine_ok lab n) (register_runtime ev lab n r)"
  using assms
  by (auto simp: rt_inv_def register_runtime_def rt_bind_def rt_modify_def rt_ret_def persist_ok fresh_record_def
      machine_ok_def node_ok_def slots_ok_def simp del: dec_int_nonneg split: if_splits)

lemma register_frame:
  assumes "fresh_record lab n r"
  shows "rt_inv (frame lab n lab' n' o') (register_runtime ev lab n r)"
proof -
  have own: "own_name lab n r" and ok: "record_ok lab n r" using assms by (auto simp: own_name_def fresh_record_def record_ok_def)
  show ?thesis
    using frame_registry [OF _ own] frame_file [OF frame_registry [OF _ own] own]
    by (auto simp: rt_inv_def register_runtime_def rt_bind_def rt_modify_def rt_ret_def persist_ok [OF ok] simp del: dec_int_nonneg split: if_split)
qed

lemma register_balanced: "balanced (register_runtime ev lab n r)"
proof -
  have "balanced (rt_modify (\<lambda>st. st\<lparr>ns_registry := f st\<rparr>))" for f
    by (simp add: balanced_def rt_inv_def rt_modify_def locks_of_def)
  then show ?thesis unfolding register_runtime_def by (intro rt_rules)
qed

lemma record_machine: "rt_inv (machine_ok lab n) (runtime_record ev lab n False)"
  unfolding rt_inv_def
proof (intro allI impI)
  fix st tr
  assume ok: "machine_ok lab n st"
  obtain v st' tr' where run: "runtime_record ev lab n False (st, tr) = (v, st', tr')" by (metis prod.collapse)
  have n: "node_ok lab n st" "slots_ok lab n st" using ok by (auto simp: machine_ok_def)
  from n(1) run have "machine_ok lab n st'"
    by (cases rule: runtime_record_cases) (auto simp: machine_ok_def slots_ok_none slots_ok_loaded [OF n(2)] node_record_loaded [OF n(1)])
  then show "machine_ok lab n (fst (snd (runtime_record ev lab n False (st, tr))))" by (simp add: run)
qed

lemma blind_machine: "blind (machine_ok lab n)" and blind_frame: "blind (frame lab n lab' n' o')"
  by (simp_all add: blind_def machine_ok_def node_ok_def slots_ok_def frame_def other_view_def del: dec_int_nonneg)

lemma started_machine:
  assumes "lab_id_of data = Inr lab" and "jfind node ''id'' = Some (JInt n)"
  shows "returns (fresh_record lab n) (start_qemu_node ev bo data node)"
proof -
  have "py_int (jget0 node ''id'') = Inr n" "jhas node ''id''" using assms(2) by (simp_all add: jget_def jhas_def)
  moreover have "returns (fresh_record lab n) (start_qemu_node_locked ev bo data node lab n)"
    using started_record [of lab n ev data node bo] by (auto simp: returns_def fresh_record_def)
  ultimately show ?thesis
    unfolding start_qemu_node_def using assms(1)
    by (auto intro!: returns_bind returns_mutex simp: rt_sum_done rt_py_done)
qed

lemma start_node_machine:
  \<comment> \<open>the part of a start that reads and writes records\<close>
  assumes "node_data data n = Inr node" and "jfind node ''type'' = Some (JStr ''qemu'')"
    and "lab_id_of data = Inr lab"
  shows "start_node ev bo adopt other data n = rt_bind (runtime_record ev lab n False) (\<lambda>known. case known of
      Some r \<Rightarrow> rt_ret r | None \<Rightarrow> rt_bind (start_qemu_node ev bo data node) (\<lambda>r. register_runtime ev lab n r))"
proof -
  have ty: "pget node ''type'' JNull = Inr (JStr ''qemu'')" using assms(2) by (cases node) (auto simp: pget_def jget_def jfind_def)
  have k: "py_eq (JStr ''qemu'') (JStr ''qemu'')" "\<not> py_eq (JStr ''qemu'') (JStr ''docker'')" by simp_all
  have bind: "rt_bind (rt_ret x) f = f x" for x :: 'x and f :: "'x \<Rightarrow> 'y node"
    by (simp add: rt_bind_def rt_ret_def fun_eq_iff)
  show ?thesis
    unfolding start_node_def using assms(1,3) ty
    by (simp add: rt_sum_def rt_py_def bind k cong: option.case_cong)
qed

lemma start_step:
  assumes "0 \<le> n" and "node_data data n = Inr node" and "jfind node ''id'' = Some (JInt n)" and "jfind node ''type'' = Some (JStr ''qemu'')"
    and run: "start_node ev bo adopt other data n s = (v, s')" and ok: "world_ok s" "slots_apart s"
  shows "world_ok s' \<and> slots_apart s'"
proof (cases "lab_id_of data")
  case (Inl e)
  then have "s' = s" using run by (simp add: start_node_def rt_bind_def rt_sum_def rt_raise_def)
  then show ?thesis using ok by simp
next
  case (Inr lab)
  note eq = start_node_machine [OF assms(2,4) Inr]
  note started = started_machine [OF Inr assms(3), of ev bo]
  have inv: "rt_inv Q (start_node ev bo adopt other data n)"
    if "blind Q" "rt_inv Q (runtime_record ev lab n False)" "\<And>r. fresh_record lab n r \<Longrightarrow> rt_inv Q (register_runtime ev lab n r)" for Q
    unfolding eq using that
    by (auto intro!: rt_inv_bind rt_inv_pure rt_inv_returns [OF start_inv started] split: option.split)
  have after: "Q (fst s')" if "rt_inv Q (start_node ev bo adopt other data n)" "Q (fst s)" for Q
    using that run unfolding rt_inv_def by (metis fst_conv prod.collapse snd_conv)
  have start: "machine_ok lab' n' (fst s)" if "0 \<le> n'" for lab' n'
    using ok that by (simp add: machine_ok_def world_okD slots_apart_def)
  have machine: "machine_ok lab' n' (fst s')" if n': "0 \<le> n'" for lab' n'
  proof (cases "(lab', n') = (lab, n)")
    case True
    have "machine_ok lab n (fst s')"
      by (rule after [OF inv [OF blind_machine record_machine register_machine] start [OF assms(1)]])
    then show ?thesis using True by simp
  next
    case False
    have "machine_ok lab n (fst s)" by (rule start [OF assms(1)])
    then have fr: "frame lab n lab' n' (other_view lab' n' (fst s)) (fst s)"
      using assms(1) n' False
      by (auto simp: frame_def machine_ok_def node_ok_def own_name_def record_ok_def simp del: dec_int_nonneg)
    have "frame lab n lab' n' (other_view lab' n' (fst s)) (fst s')"
      by (rule after [OF inv [OF blind_frame frame_common(1) register_frame] fr])
    then show ?thesis using machine_ok_view [OF start [OF n']] by (simp add: frame_def)
  qed
  have "balanced (start_node ev bo adopt other data n)"
    unfolding eq by (auto intro!: rt_rules start_balanced register_balanced split: option.split)
  then have "rt_inv (\<lambda>st. locks_of st = locks_of (fst s)) (start_node ev bo adopt other data n)"
    using ok(1) unfolding balanced_def world_ok_def by blast
  then have "locks_of (fst s') = locks_of (fst s)" by (rule after) simp
  then show ?thesis
    using machine ok(1) by (simp add: world_ok_def records_ok_def slots_apart_def machine_ok_def)
qed

text \<open>
  C8. From the start of a virtual machine on, in every state that starts of machines and requests on
  running nodes reach, whatever fails on the way, the record of every node has the type the requests
  rely on, carries the number and lab it is found under, lists each interface at most once, and gives
  no slot of a machine to two cards, each such slot being reserved.
\<close>

theorem machine_records_stay_sound:
  assumes "life_step\<^sup>*\<^sup>* s s'" and "world_ok s" and "slots_apart s" and "0 \<le> n" and "node_record lab n (fst s') = Some r"
  shows "record_ok lab n r \<and> distinct (map index_of (attachments r)) \<and> distinct (card_slots (attachments r))
    \<and> set (card_slots (attachments r)) \<subseteq> set (slot_list r)"
proof -
  have "world_ok s' \<and> slots_apart s'" using assms(1-3)
  proof (induction rule: rtranclp_induct)
    case (step t u)
    from step(2) show ?case
      by cases (use step node_step_ok step_slots in blast, use step start_step in blast)
  qed simp
  then have "node_ok lab n (fst s')" "slots_ok lab n (fst s')" using assms(4) by (simp_all add: world_okD slots_apart_def)
  then have "record_ok lab n r" "cards_apart r"
    using assms(5) node_record_ok slots_ok_record by blast+
  then show ?thesis
    by (auto simp: cards_apart_def record_ok_def attachments_def split: option.splits)
qed

section \<open>Witnesses\<close>

definition booted :: node_world where
  "booted = snd (start_node boot_machine boots (\<lambda>_ _. rt_ret None) (\<lambda>_ _. rt_raise (RtNode [])) booting_lab 1 (idle_node, []))"

theorem machine_records_stay_sound_witness:
  "\<exists>r. node_record ''lab'' 1 (fst booted) = Some r \<and> record_ok ''lab'' 1 r \<and> distinct (map index_of (attachments r))
     \<and> distinct (card_slots (attachments r)) \<and> set (card_slots (attachments r)) \<subseteq> set (slot_list r)"
proof -
  have "life_step (idle_node, []) booted"
  proof (rule life_start)
    show "node_data booting_lab 1 = Inr booting_node" by code_simp
    show "start_node boot_machine boots (\<lambda>_ _. rt_ret None) (\<lambda>_ _. rt_raise (RtNode [])) booting_lab 1 (idle_node, []) =
      (fst (start_node boot_machine boots (\<lambda>_ _. rt_ret None) (\<lambda>_ _. rt_raise (RtNode [])) booting_lab 1 (idle_node, [])), booted)"
      by (simp add: booted_def)
  qed (simp_all add: booting_node_def jfind_def)
  then have "life_step\<^sup>*\<^sup>* (idle_node, []) booted" by (rule r_into_rtranclp)
  moreover have "world_ok (idle_node, [])" "slots_apart (idle_node, [])"
    by (simp_all add: world_ok_def records_ok_def node_ok_def counts_ok_def locks_of_def slots_apart_def slots_ok_def idle_node_def)
  moreover have "node_record ''lab'' 1 (fst booted) \<noteq> None" by code_simp
  ultimately show ?thesis using machine_records_stay_sound [of "(idle_node, [])" booted 1 "''lab''"] by auto
qed

text \<open>
  The first MAC address that node creation writes has two hexadecimal digits for the number of the node;
  from node 256 on it has a digit too many, and the cards of a machine share one address.
\<close>

theorem cards_of_node_256_share_mac:
  "mac_for_index (JStr (first_mac_for_node 256)) 0 = Inr ''50:00:00:10:00:00''"
  "mac_for_index (JStr (first_mac_for_node 256)) 1 = Inr ''50:00:00:10:00:00''"
  by code_simp+

end
