(* ===== verification/Spec2Isabelle.thy ===== *)
theory Spec2Isabelle
  imports Network_Results Ws_Hub Runtime_Mutex Node_Slots Wire_Results Node_Life
begin

text \<open>
  Nova-VE runs network labs on a Linux host: a web backend (\<open>backend/app\<close>) keeps every lab as a JSON
  file and drives bridges, TAPs, veth pairs and namespaces through a small program with elevated
  rights (\<open>deploy/nova-ve-net.py\<close>). This development models the parts of both whose correctness
  the rest depends on, and proves what they promise.

  \<^bold>\<open>Parts and theories.\<close> Names of definitions follow the functions they translate.
  \<^item> \<open>Nova_Prelude\<close>: results as sums (\<open>bindr\<close>, \<open>mapr\<close>, \<open>forr\<close>), ASCII strings with Python's operations,
    decimal and hexadecimal numbers, regular expressions of character classes, first-fit numbering.
  \<^item> \<open>Interfaces\<close>: contracts as locales, of pools that hand out and take back (\<open>allocator\<close>,
    \<open>releasing_allocator\<close>) and of holders of a generation token (\<open>generations\<close>).
  \<^item> \<open>Trace_Monad\<close>, \<open>Runtime_Monad\<close>: computations that record the calls they make to the host; the
    second adds the records of running nodes as a state of unspecified type.
  \<^item> \<open>Py_Json\<close>: JSON values as Python sees them (\<open>json\<close>), with the exceptions of lookups and conversions.
  \<^item> \<open>Priv_Helper\<close>, \<open>Helper_Safety\<close>: the privileged helper, its validators and verbs, and its policy.
  \<^item> \<open>Iface_Names\<close>, \<open>Host_Net\<close>, \<open>Host_Net_Safety\<close>: \<open>services/host_net.py\<close>, the names of host devices,
    the calls to the helper, fingerprints of bridges and the sweep of orphans.
  \<^item> \<open>Lab_Paths\<close>, \<open>Lab_Doc\<close>, \<open>Lab_Store\<close>: \<open>services/lab_service.py\<close>, the paths of lab files, the
    document on reading and on writing, and the operations on the labs directory and the database.
  \<^item> \<open>Ipv4\<close>, \<open>Nat_Cloud\<close>, \<open>Ipam\<close>: addresses, host inventory, NAT clouds
    (\<open>services/cloud_inventory_service.py\<close>) and the address allocator of \<open>services/network_service.py\<close>.
  \<^item> \<open>Mac_Registry\<close>, \<open>Ws_Hub\<close>, \<open>Runtime_Mutex\<close>: the registry of MAC addresses, the event hub with its
    replay, and the interface locks with threads as an inductive step relation.
  \<^item> \<open>Link_Doc\<close>, \<open>Link_Create\<close>, \<open>Link_Attach\<close>, \<open>Link_Remove\<close>, \<open>Link_Service\<close>: \<open>services/link_service.py\<close>,
    from the ends of a link to the requests on files, registry, hub, cache and host.
    \<open>Link_Topology\<close> is its abstract specification, \<open>Link_Wiring\<close> and \<open>Link_Results\<close> hold the lemmas.
  \<^item> \<open>Network_Service\<close>, \<open>Network_Wiring\<close>, \<open>Network_Results\<close>: \<open>NetworkService\<close>, the requests on networks
    with the bridges, NAT rules and DHCP servers they start, on the world of the link service.
  \<^item> \<open>Node_Runtime\<close>, \<open>Node_Nics\<close>: the registry of running nodes of \<open>services/node_runtime_service.py\<close>
    and what a record says of the interfaces of its node (\<open>nics_of\<close>). \<open>Node_Docker\<close> and \<open>Node_Qemu\<close> are
    hot attach and detach for containers and virtual machines, with QMP as a parameter of replies;
    \<open>Node_Cards\<close>, \<open>Node_Limits\<close>, \<open>Node_Steps\<close> and \<open>Node_Slots\<close> hold the lemmas. Node
    records interpret \<open>generations\<close>.
  \<^item> \<open>Node_Command\<close>, \<open>Node_Boot\<close>: the start of a virtual machine, its bridges, TAPs, command line and
    record, and the preview of the command. \<open>Node_Boot_Results\<close> holds the lemmas; \<open>Node_Life\<close> composes
    starts with the requests on running nodes (\<open>life_step\<close>).
  \<^item> \<open>Template_Names\<close>, \<open>Template_Schema\<close>, \<open>Template_Store\<close>: \<open>services/template_service.py\<close>, the blocks of a
    template and their validation, the forms of the node dialog, loading and lookup.
  \<^item> \<open>Lab_Requests\<close>, \<open>Node_Create\<close>, \<open>Node_Paired\<close>, \<open>Lab_Edit\<close>: the handlers of \<open>routers/labs.py\<close> on labs,
    nodes, paired templates, the layout and the topology, with \<open>reply\<close> as the status they return.
    \<open>Node_Results\<close> and \<open>Lab_Edit_Results\<close> hold the lemmas; the relation \<open>lab_edits\<close> composes the
    requests on a lab that keep its wiring. \<open>Wire_Requests\<close> has the handlers of links and networks (\<open>routers/links.py\<close>,
    \<open>routers/networks.py\<close> and PUT of a network) with lemmas in \<open>Wire_Results\<close>.

  \<^bold>\<open>State.\<close> A lab file is an entry of \<open>disk\<close>, a map from normalised paths to documents (\<open>None\<close>: a file
  that is not JSON). The database rows, the registry and the hub are explicit states that operations
  return changed. The host is a trace of calls: what it answers is a parameter, so every statement
  holds for every behaviour of the host. A section under a file lock is one step.

  \<^bold>\<open>What is shown.\<close> For the helper: every action is on a list by verb and arguments (\<open>policy\<close>). For host
  networking: which devices operations name and remove. For documents: round trips, derived fields,
  validation. For networks: addresses are leased once and in range, a failed creation leaves no trace in
  the file. For links: the requests refine operations on a graph of interfaces and networks, whose
  invariant the requests of \<open>lab_edits\<close> keep (\<open>edits_keep_wiring\<close>); a failure leaves the file as it was.
  For running nodes: attach and detach refine updates of a table of interfaces; within the life of a
  record a stale detach never removes a newer attachment; two cards never share a slot, in states
  reached by starts and requests; a start that fails inside its clean-up asks for the deletion of its
  TAPs; the merged command of a machine is given word for word. For templates: what the service offers
  is within the limits of its type, and user files take the place of built-in ones; what the
  pre-flight of a paired template promises holds for the nodes. For locks and events: exclusion,
  progress, exact replay, and one send of every event to every subscriber.

  \<^bold>\<open>Where promises end.\<close> Theorems outside the list of properties show inputs on which the code does not do
  what its comments say, and the texts of the properties name those that bound them: requests that
  break the wiring (end of \<open>Lab_Edit_Results\<close>), starts that leave TAPs (end of \<open>Node_Boot_Results\<close>),
  paths that are not scoped (\<open>Lab_Requests\<close>, \<open>Wire_Results\<close>), events that are lost or come out of order
  (\<open>Ws_Hub\<close>, where the sends of a publication are steps of their own, after the lock is released),
  and a DHCP pid file that is trusted when the process cannot be looked at (\<open>Helper_Safety\<close>).

  \<^bold>\<open>Bounds.\<close> Recursions are structural or bounded by the data. The fuel of \<open>suggest_loop\<close> is the number of
  addresses under the prefix, which the loop of the source has as its range. The waits of a hot
  removal are loops with a deadline in the source; the model has their number of rounds, and
  \<open>removal_asks_at_most_39_times\<close> bounds the commands a removal sends.

  \<^bold>\<open>Not modelled.\<close> The start of containers, the stop of nodes and the processes themselves: of the start
  of a virtual machine the disk overlay, the console port, the process and its registration are
  parameters (\<open>boot_env\<close>). Also the clients of Dynamips and IOL; consoles, which relay sockets; the docker client and image files; accounts and
  tokens; the schemas of the web framework beyond the checks named above; the frontend; the scripts
  for import, migration and maintenance. They start programs, talk to services or translate formats.
  What links need of running nodes is the record \<open>node_ops\<close> of parameters, so that the statements on
  links hold for every behaviour of the runtime; the handlers take whether a node runs as an argument.
\<close>

end
